(* ===== verification/Prelude.thy ===== *)
theory Prelude
  imports Main "HOL-Library.Word" "HOL-Library.Monad_Syntax"
begin

text \<open>
  Shared vocabulary of the development: the C integer types of the simulator as
  words, the bit-field macros of \<open>armdefs.h\<close> and \<open>armemu.h\<close>, and the
  generic facts about words that the component theories use.  A C value of type
  \<open>ARMword\<close> or \<open>unsigned\<close> is a \<^typ>\<open>32 word\<close>; C truth values are the words
  0 and 1 (\<open>of_bool\<close>), and a C condition \<open>if (x)\<close> is written \<open>x \<noteq> 0\<close>.
  The left shift is \<open>push_bit\<close> and the right shift on an unsigned value \<open>drop_bit\<close>.
\<close>

unbundle bit_operations_syntax

named_theorems arm_defs \<open>unfolding rules for the operations of the ARM core\<close>
named_theorems arm_frame \<open>which state fields an operation leaves alone\<close>
named_theorems lpc_defs \<open>unfolding rules for the LPC2300 peripherals\<close>

type_synonym ARMbyte = "8 word"
type_synonym ARMhword = "16 word"
type_synonym ARMword = "32 word"
type_synonym ARMdword = "64 word"

subsection \<open>Signals and truth values\<close>

abbreviation (input) LOW :: ARMword where "LOW \<equiv> 0"
abbreviation (input) HIGH :: ARMword where "HIGH \<equiv> 1"

subsection \<open>Instruction fields\<close>

definition BIT :: "ARMword \<Rightarrow> nat \<Rightarrow> ARMword" where
  "BIT instr n = drop_bit n instr AND 1"

definition BITS :: "ARMword \<Rightarrow> nat \<Rightarrow> nat \<Rightarrow> ARMword" where
  "BITS instr m n = drop_bit ((31 - n) + m) (push_bit (31 - n) instr)"

definition TOPBITS :: "ARMword \<Rightarrow> nat \<Rightarrow> ARMword" where
  "TOPBITS instr n = drop_bit n instr"

definition NEG :: "ARMword \<Rightarrow> ARMword" where
  "NEG i = drop_bit 31 i"

definition POS :: "ARMword \<Rightarrow> ARMword" where
  "POS i = drop_bit 31 (NOT i)"

definition ROTATER :: "ARMword \<Rightarrow> nat \<Rightarrow> ARMword" where
  "ROTATER n b = drop_bit b n OR push_bit (32 - b) n"

subsection \<open>Iteration\<close>

text \<open>\<open>n\<close> rounds of a step that may fail.\<close>

primrec iter_opt :: "('a \<Rightarrow> 'a option) \<Rightarrow> nat \<Rightarrow> 'a \<Rightarrow> 'a option" where
  "iter_opt f 0 s = Some s"
| "iter_opt f (Suc n) s = Option.bind (iter_opt f n s) f"

subsection \<open>Generic facts on words\<close>

lemma word_and_1_conv_bit: "(w AND 1) = (of_bool (bit w 0) :: 'a::len word)"
  by (rule bit_word_eqI) (auto simp: bit_simps)

lemma BIT_conv_bit: "BIT instr n = of_bool (bit instr n)"
  by (simp add: BIT_def word_and_1_conv_bit bit_drop_bit_eq)

lemma BIT_eq_0_iff [simp]: "BIT instr n = 0 \<longleftrightarrow> \<not> bit instr n"
  by (simp add: BIT_conv_bit)

lemma bit_BITS_iff:
  "n \<le> 31 \<Longrightarrow> bit (BITS instr m n) k \<longleftrightarrow> bit instr (m + k) \<and> m + k \<le> n"
  by (auto simp: BITS_def bit_simps dest: bit_imp_le_length)

lemma BITS_conv:
  assumes "m \<le> n" "n \<le> 31"
  shows "BITS instr m n = take_bit (Suc n - m) (drop_bit m instr)"
  using assms by (intro bit_word_eqI) (auto simp: bit_BITS_iff bit_simps)

lemma unat_BITS_less:
  assumes "m \<le> n" "n \<le> 31"
  shows "unat (BITS instr m n) < 2 ^ (Suc n - m)"
proof -
  have "unat (take_bit (Suc n - m) (drop_bit m instr)) < 2 ^ (Suc n - m)"
    by (simp add: unsigned_take_bit_eq)
  then show ?thesis using assms by (simp add: BITS_conv)
qed

text \<open>A register number is a four-bit field, so it indexes the 16 registers in range.\<close>

lemma unat_BITS_reg: "n = m + 3 \<Longrightarrow> n \<le> 31 \<Longrightarrow> unat (BITS instr m n) < 16"
  using unat_BITS_less [of m n instr] by simp

lemma bit_ge_32: "bit (i :: ARMword) (31 + k) \<longleftrightarrow> k = 0 \<and> bit i 31"
  by (cases k) (auto dest: bit_imp_le_length)

lemma NEG_conv_bit: "NEG i = of_bool (bit i 31)"
  by (rule bit_word_eqI) (auto simp: NEG_def bit_simps bit_ge_32)

lemma POS_conv_bit: "POS i = of_bool (\<not> bit i 31)"
  by (rule bit_word_eqI) (auto simp: POS_def bit_simps bit_ge_32)

lemma NEG_neq_0 [simp]: "NEG i \<noteq> 0 \<longleftrightarrow> bit i 31"
  by (simp add: NEG_conv_bit)

lemma POS_neq_0 [simp]: "POS i \<noteq> 0 \<longleftrightarrow> \<not> bit i 31"
  by (simp add: POS_conv_bit)

lemma bit31_conv_sint: "bit (i :: ARMword) 31 \<longleftrightarrow> sint i < 0"
  using bit_last_iff [of i] by simp

lemma bit31_conv_unat: "bit (i :: ARMword) 31 \<longleftrightarrow> 2 ^ 31 \<le> unat i"
proof -
  have "bit i 31 \<longleftrightarrow> bit (unat i) 31"
    by (simp add: bit_unsigned_iff)
  also have "\<dots> \<longleftrightarrow> odd (unat i div 2 ^ 31)"
    by (rule bit_iff_odd)
  also have "\<dots> \<longleftrightarrow> 2 ^ 31 \<le> unat i"
  proof
    assume "odd (unat i div 2 ^ 31)"
    then have "unat i div 2 ^ 31 \<noteq> 0" by (metis even_zero)
    then show "2 ^ 31 \<le> unat i" by (simp add: div_eq_0_iff)
  next
    assume a: "2 ^ 31 \<le> unat i"
    have "unat i < 2 ^ 32" using unsigned_less [of i] by simp
    then have "unat i div 2 ^ 31 = 1" using a by (simp add: div_nat_eqI)
    then show "odd (unat i div 2 ^ 31)" by simp
  qed
  finally show ?thesis .
qed

text \<open>Testing one bit of a word with a mask, in the spelling the C code uses.\<close>

lemmas and_bit_mask = and_exp_eq_0_iff_not_bit [where 'a = ARMword, symmetric]

lemma and_flag_iff:
  "w AND 0x80000000 = 0 \<longleftrightarrow> \<not> bit (w :: ARMword) 31"
  "w AND 0x40000000 = 0 \<longleftrightarrow> \<not> bit w 30"
  "w AND 0x20000000 = 0 \<longleftrightarrow> \<not> bit w 29"
  "w AND 0x10000000 = 0 \<longleftrightarrow> \<not> bit w 28"
  "w AND 0x08000000 = 0 \<longleftrightarrow> \<not> bit w 27"
  "w AND 0x20 = 0 \<longleftrightarrow> \<not> bit w 5"
  using and_exp_eq_0_iff_not_bit [of w 31] and_exp_eq_0_iff_not_bit [of w 30]
    and_exp_eq_0_iff_not_bit [of w 29] and_exp_eq_0_iff_not_bit [of w 28]
    and_exp_eq_0_iff_not_bit [of w 27] and_exp_eq_0_iff_not_bit [of w 5]
  by simp_all

subsection \<open>Wrap-around, signed reading, rotation\<close>

lemma mod_once: "(x :: nat) < 2 * m \<Longrightarrow> x mod m = (if x < m then x else x - m)"
  by (simp add: mod_if)

lemma unat_less_2p32: "unat (w :: ARMword) < 4294967296"
  using unsigned_less [of w] by simp

lemma sint_range_32: "- 2147483648 \<le> sint (w :: ARMword)" "sint (w :: ARMword) < 2147483648"
  using sint_greater_eq [of w] sint_less [of w] by simp_all

lemma sint_conv_unat:
  "sint (w :: ARMword) = (if 2147483648 \<le> unat w then int (unat w) - 4294967296 else int (unat w))"
proof -
  obtain x where x: "unat w = x" by blast
  have u: "int x = sint w mod 4294967296"
    using uint_sint [of w] x by (simp add: take_bit_eq_mod flip: x)
  show ?thesis
  proof (cases "sint w < 0")
    case True
    have "sint w mod 4294967296 = (sint w + 4294967296) mod 4294967296" by simp
    also have "\<dots> = sint w + 4294967296" using True sint_range_32 [of w] by (intro mod_pos_pos_trivial) auto
    finally show ?thesis using u True sint_range_32 [of w] by (auto simp: x)
  next
    case False
    then have "sint w mod 4294967296 = sint w" using sint_range_32 [of w] by (intro mod_pos_pos_trivial) auto
    then show ?thesis using u False sint_range_32 [of w] by (auto simp: x)
  qed
qed

lemma unat_add_carry:
  fixes a b c :: ARMword
  assumes "c \<le> 1"
  shows "unat (a + b + c) = (if unat a + unat b + unat c < 4294967296 then unat a + unat b + unat c
           else unat a + unat b + unat c - 4294967296)"
proof -
  have "unat c \<le> 1" using assms by (simp add: word_le_nat_alt)
  then have "unat a + unat b + unat c < 2 * 4294967296"
    using unat_less_2p32 [of a] unat_less_2p32 [of b] by linarith
  then show ?thesis by (simp add: unat_word_ariths mod_simps mod_once)
qed

lemma unat_sub_borrow:
  fixes a b c :: ARMword
  assumes "c \<le> 1"
  shows "unat (a - b - c) = (if unat b + unat c \<le> unat a then unat a - unat b - unat c
           else unat a + 4294967296 - unat b - unat c)"
proof -
  let ?r = "a - b - c"
  have c: "unat c \<le> 1" using assms by (simp add: word_le_nat_alt)
  have "?r + b + c = a" by simp
  then have "unat a = (if unat ?r + unat b + unat c < 4294967296 then unat ?r + unat b + unat c
           else unat ?r + unat b + unat c - 4294967296)"
    by (metis assms unat_add_carry)
  then show ?thesis using unat_less_2p32 [of ?r] unat_less_2p32 [of a] unat_less_2p32 [of b] c
    by (auto split: if_splits)
qed


lemma word32_eqI:
  assumes "list_all (\<lambda>n. bit a n = bit b n)
    [0, 1, 2, 3, 4, 5, 6, 7, 8, 9, 10, 11, 12, 13, 14, 15,
     16, 17, 18, 19, 20, 21, 22, 23, 24, 25, 26, 27, 28, 29, 30, 31]"
  shows "a = (b :: ARMword)"
proof (rule bit_word_eqI)
  fix n assume "n < LENGTH(32)"
  then have "n \<in> set [0, 1, 2, 3, 4, 5, 6, 7, 8, 9, 10, 11, 12, 13, 14, 15,
     16, 17, 18, 19, 20, 21, 22, 23, 24, 25, 26, 27, 28, 29, 30, 31]"
    by simp presburger
  with assms show "bit a n = bit b n" by (simp only: list_all_iff)
qed

lemma and_mask_le: "w AND 3 \<le> (3 :: ARMword)" "w AND 31 \<le> (31 :: ARMword)"
  by (simp_all add: word_and_le1)

lemma rotate_conv:
  assumes "n \<le> 32"
  shows "drop_bit n w OR push_bit (32 - n) w = word_rotr n (w :: ARMword)"
proof (rule bit_word_eqI)
  fix k assume "k < LENGTH(32)"
  then have k: "k < 32" by simp
  show "bit (drop_bit n w OR push_bit (32 - n) w) k = bit (word_rotr n w) k"
  proof (cases "k + n < 32")
    case True
    then have "\<not> 32 - n \<le> k" by simp
    with True show ?thesis using k by (simp add: bit_simps bit_word_rotr_iff add.commute)
  next
    case False
    then have "(k + n) mod 32 = k + n - 32" using assms k mod_once [of "k + n" 32] by simp
    moreover have "\<not> bit w (n + k)" using False by (auto dest: bit_imp_le_length)
    moreover have "k - (32 - n) = k + n - 32" "32 - n \<le> k" using False assms by simp_all
    ultimately show ?thesis using k False by (simp add: bit_simps bit_word_rotr_iff)
  qed
qed

lemma ROTATER_rotr: "n \<le> 32 \<Longrightarrow> ROTATER w n = word_rotr n w"
  by (simp add: ROTATER_def rotate_conv)

lemma bit_imp_exp_le: "bit (w :: ARMword) n \<Longrightarrow> 2 ^ n \<le> unat w"
proof -
  assume "bit w n"
  then have "bit (unat w) n" by (simp add: bit_unsigned_iff)
  then have "unat w div 2 ^ n \<noteq> 0" by (metis bit_iff_odd even_zero)
  then show ?thesis by (simp add: div_eq_0_iff not_less)
qed

lemma bit_le_imp_less:
  assumes "bit (w :: ARMword) n" "unat w < 2 ^ k" shows "n < k"
  using bit_imp_exp_le [OF assms(1)] assms(2)
  by (metis le_less_trans nat_power_less_imp_less zero_less_numeral)

lemma bit_le_1: "(w :: ARMword) \<le> 1 \<Longrightarrow> bit w n \<longleftrightarrow> n = 0 \<and> w \<noteq> 0"
proof -
  assume "w \<le> 1"
  then have "w = 0 \<or> w = 1" by (auto simp: word_le_nat_alt word_unat_eq_iff le_Suc_eq)
  then show ?thesis by (auto simp: bit_1_iff)
qed

lemma not_bit_le_3: "(w :: ARMword) \<le> 3 \<Longrightarrow> 2 \<le> n \<Longrightarrow> \<not> bit w n"
  using bit_le_imp_less [of w n 2] by (auto simp: word_le_nat_alt)

lemma not_bit_le_31: "(w :: ARMword) \<le> 31 \<Longrightarrow> 5 \<le> n \<Longrightarrow> \<not> bit w n"
  using bit_le_imp_less [of w n 5] by (auto simp: word_le_nat_alt)

lemma nat_less_32_all:
  assumes "P 0" "P 1" "P 2" "P 3" "P 4" "P 5" "P 6" "P 7" "P 8" "P 9" "P 10" "P 11" "P 12" "P 13" "P 14" "P 15"
   "P 16" "P 17" "P 18" "P 19" "P 20" "P 21" "P 22" "P 23" "P 24" "P 25" "P 26" "P 27" "P 28" "P 29" "P 30" "P 31"
  shows "\<forall>n<(32::nat). P n"
  using assms by (simp add: numeral_eq_Suc All_less_Suc)

lemma and_30: "n < 32 \<Longrightarrow> (n :: nat) AND 30 = 2 * (n div 2)"
  using nat_less_32_all [of "\<lambda>n. n AND 30 = 2 * (n div 2)"] by simp

lemma not_bit_ge_32: "32 \<le> n \<Longrightarrow> \<not> bit (w :: ARMword) n"
  by (auto dest: bit_imp_le_length)

lemma bit_ffff: "n < 16 \<Longrightarrow> bit (0xffff :: ARMword) n" "n < 16 \<Longrightarrow> bit (0xffff :: int) n"
proof -
  assume n: "n < 16"
  have "(0xffff :: int) = mask 16" by (simp add: mask_eq_exp_minus_1)
  then show "bit (0xffff :: int) n" using n by (simp only: bit_mask_iff) simp
  then show "bit (0xffff :: ARMword) n" using n by (simp add: bit_simps)
qed

lemma bit_times_2: "bit (x * 2 :: ARMword) n \<longleftrightarrow> 0 < n \<and> n < 32 \<and> bit x (n - 1)"
  using bit_double_iff [of x n] by (auto simp: mult.commute)

section \<open>The first element that satisfies a predicate\<close>

text \<open>The loops that search an array for its first match, with the index they start from.\<close>

fun first_from :: "('a \<Rightarrow> bool) \<Rightarrow> nat \<Rightarrow> 'a list \<Rightarrow> nat option" where
  "first_from P i [] = None"
| "first_from P i (x # xs) = (if P x then Some i else first_from P (Suc i) xs)"

lemma first_from_None: "first_from P k xs = None \<longleftrightarrow> (\<forall>i<length xs. \<not> P (xs ! i))"
  by (induction xs arbitrary: k) (auto simp: All_less_Suc2)

lemma first_from_SomeD: "first_from P k xs = Some j \<Longrightarrow> k \<le> j \<and> j < k + length xs \<and> P (xs ! (j - k))"
proof (induction xs arbitrary: k)
  case (Cons x xs)
  show ?case
  proof (cases "P x")
    case False
    then have "Suc k \<le> j \<and> j < Suc k + length xs \<and> P (xs ! (j - Suc k))" using Cons.IH [of "Suc k"] Cons.prems by simp
    then show ?thesis by (auto simp: nth_Cons')
  qed (use Cons in simp)
qed simp

lemma first_from_update:
  assumes "first_from P 0 xs = None" "j < length xs" "P x"
  shows "first_from P 0 (xs[j := x]) = Some j"
proof -
  have none: "\<And>i. i < length xs \<Longrightarrow> i \<noteq> j \<Longrightarrow> \<not> P (xs[j := x] ! i)" using assms(1) by (simp add: first_from_None)
  have "first_from P 0 (xs[j := x]) \<noteq> None" unfolding first_from_None using assms(2,3) by auto
  then obtain i where i: "first_from P 0 (xs[j := x]) = Some i" by blast
  then have "i < length xs" "P (xs[j := x] ! i)" using first_from_SomeD [OF i] by simp_all
  then show ?thesis using i none [of i] by blast
qed

end
