(* ===== verification/Arm_State.thy ===== *)
theory Arm_State
  imports Prelude
begin

text \<open>
  The processor state of the ARM emulator (\<open>struct ARMul_State\<close> of
  \<open>armdefs.h\<close>) and the macros of \<open>armdefs.h\<close> and \<open>armemu.h\<close> that read
  or write it.  Every C integer is a word of its width.  The register bank
  numbers are the constructors of a datatype, so that the \<open>default: abort ()\<close>
  branches of the bank switch are unreachable by typing.  Function pointers in
  the event list are natural numbers (addresses).  The field \<open>mach\<close> stands for
  everything behind the memory management unit: memory banks and machine I/O.
  The global variable \<open>isize\<close> of \<open>armemu.c\<close> is a field too.
\<close>

subsection \<open>Banks, modes, vectors\<close>

datatype bank = USERBANK | FIQBANK | IRQBANK | SVCBANK | ABORTBANK | UNDEFBANK | DUMMYBANK

abbreviation (input) USER26MODE :: ARMword where "USER26MODE \<equiv> 0"
abbreviation (input) FIQ26MODE :: ARMword where "FIQ26MODE \<equiv> 1"
abbreviation (input) IRQ26MODE :: ARMword where "IRQ26MODE \<equiv> 2"
abbreviation (input) SVC26MODE :: ARMword where "SVC26MODE \<equiv> 3"
abbreviation (input) USER32MODE :: ARMword where "USER32MODE \<equiv> 16"
abbreviation (input) FIQ32MODE :: ARMword where "FIQ32MODE \<equiv> 17"
abbreviation (input) IRQ32MODE :: ARMword where "IRQ32MODE \<equiv> 18"
abbreviation (input) SVC32MODE :: ARMword where "SVC32MODE \<equiv> 19"
abbreviation (input) ABORT32MODE :: ARMword where "ABORT32MODE \<equiv> 23"
abbreviation (input) UNDEF32MODE :: ARMword where "UNDEF32MODE \<equiv> 27"
abbreviation (input) SYSTEM32MODE :: ARMword where "SYSTEM32MODE \<equiv> 31"

abbreviation (input) ARMul_ResetV :: ARMword where "ARMul_ResetV \<equiv> 0"
abbreviation (input) ARMul_UndefinedInstrV :: ARMword where "ARMul_UndefinedInstrV \<equiv> 4"
abbreviation (input) ARMul_SWIV :: ARMword where "ARMul_SWIV \<equiv> 8"
abbreviation (input) ARMul_PrefetchAbortV :: ARMword where "ARMul_PrefetchAbortV \<equiv> 12"
abbreviation (input) ARMul_DataAbortV :: ARMword where "ARMul_DataAbortV \<equiv> 16"
abbreviation (input) ARMul_AddrExceptnV :: ARMword where "ARMul_AddrExceptnV \<equiv> 20"
abbreviation (input) ARMul_IRQV :: ARMword where "ARMul_IRQV \<equiv> 24"
abbreviation (input) ARMul_FIQV :: ARMword where "ARMul_FIQV \<equiv> 28"

abbreviation (input) NBIT :: ARMword where "NBIT \<equiv> 0x80000000"
abbreviation (input) ZBIT :: ARMword where "ZBIT \<equiv> 0x40000000"
abbreviation (input) CBIT :: ARMword where "CBIT \<equiv> 0x20000000"
abbreviation (input) VBIT :: ARMword where "VBIT \<equiv> 0x10000000"
abbreviation (input) SBIT :: ARMword where "SBIT \<equiv> 0x08000000"
abbreviation (input) IBIT :: ARMword where "IBIT \<equiv> 0x80"
abbreviation (input) TBIT :: ARMword where "TBIT \<equiv> 0x20"
abbreviation (input) INTBITS :: ARMword where "INTBITS \<equiv> 0xc0"
abbreviation (input) MODEBITS :: ARMword where "MODEBITS \<equiv> 0x1f"
abbreviation (input) CCBITS :: ARMword where "CCBITS \<equiv> 0xf8000000"
abbreviation (input) R15INTBITS :: ARMword where "R15INTBITS \<equiv> 0x0c000000"
abbreviation (input) R15MODEBITS :: ARMword where "R15MODEBITS \<equiv> 0x3"

text \<open>
  \<open>armsupp.c\<close>, \<open>arminit.c\<close> and \<open>thumbemu.c\<close> are compiled with \<open>MODET\<close> but
  without \<open>MODE32\<close>; \<open>armemu32.o\<close> is compiled with both (\<open>Makefile.am\<close>).  The
  two builds see different values of the PC masks.
\<close>

abbreviation (input) PCBITS :: ARMword where "PCBITS \<equiv> 0xfffffffc"
abbreviation (input) R15PCBITS :: ARMword where "R15PCBITS \<equiv> 0x03fffffc"
abbreviation (input) PCBITS32 :: ARMword where "PCBITS32 \<equiv> 0xffffffff"

abbreviation (input) STOP :: ARMword where "STOP \<equiv> 0"
abbreviation (input) CHANGEMODE :: ARMword where "CHANGEMODE \<equiv> 1"
abbreviation (input) ONCE :: ARMword where "ONCE \<equiv> 2"
abbreviation (input) RUN :: ARMword where "RUN \<equiv> 3"

abbreviation (input) SEQ :: ARMword where "SEQ \<equiv> 0"
abbreviation (input) NONSEQ :: ARMword where "NONSEQ \<equiv> 1"
abbreviation (input) PCINCEDSEQ :: ARMword where "PCINCEDSEQ \<equiv> 2"
abbreviation (input) PCINCEDNONSEQ :: ARMword where "PCINCEDNONSEQ \<equiv> 3"
abbreviation (input) PRIMEPIPE :: ARMword where "PRIMEPIPE \<equiv> 4"
abbreviation (input) RESUME :: ARMword where "RESUME \<equiv> 8"

subsection \<open>The state\<close>

record mmu_state_t =
  control :: ARMword
  translation_table_base :: ARMword
  domain_access_control :: ARMword
  fault_status :: ARMword
  fault_address :: ARMword
  last_domain :: ARMword
  process_id :: ARMword
  cache_locked_down :: ARMword
  tlb_locked_down :: ARMword
  cache_type :: ARMword
  aux_control :: ARMword
  copro_access :: ARMword

record 'm ARMul_State =
  Emulate :: ARMword
  EndCondition :: ARMword
  ErrorCode :: ARMword
  Reg :: "nat \<Rightarrow> ARMword"
  RegBank :: "bank \<Rightarrow> nat \<Rightarrow> ARMword"
  Cpsr :: ARMword
  Spsr :: "bank \<Rightarrow> ARMword"
  Accumulator :: ARMdword
  NFlag :: ARMword
  ZFlag :: ARMword
  CFlag :: ARMword
  VFlag :: ARMword
  IFFlags :: ARMword
  SFlag :: ARMword
  TFlag :: ARMword
  Bank :: bank
  Mode :: ARMword
  st_pc :: ARMword
  st_loaded :: ARMword
  st_decoded :: ARMword
  NumScycles :: ARMword
  NumNcycles :: ARMword
  NumIcycles :: ARMword
  NumCcycles :: ARMword
  NumFcycles :: ARMword
  NumInstrs :: ARMdword
  NextInstr :: ARMword
  EventSet :: ARMword
  Now :: ARMword
  EventPtr :: "nat \<Rightarrow> nat list"
  NresetSig :: ARMword
  NfiqSig :: ARMword
  NirqSig :: ARMword
  abortSig :: ARMword
  NtransSig :: ARMword
  bigendSig :: ARMword
  prog32Sig :: ARMword
  data32Sig :: ARMword
  lateabtSig :: ARMword
  Aborted :: ARMword
  AbortAddr :: ARMword
  Base :: ARMword
  mmu :: mmu_state_t
  is_v4 :: ARMword
  is_v5 :: ARMword
  is_v5e :: ARMword
  is_v6 :: ARMword
  is_XScale :: ARMword
  vector_remap_flag :: ARMword
  vector_remap_addr :: ARMword
  vector_remap_size :: ARMword
  tea_break_ok :: ARMword
  tea_break_addr :: ARMword
  tea_pc :: ARMword
  isize :: ARMword
  mach :: 'm

subsection \<open>Register access and the PSR macros\<close>

definition set_reg :: "nat \<Rightarrow> ARMword \<Rightarrow> 'm ARMul_State \<Rightarrow> 'm ARMul_State" where
  [arm_defs]: "set_reg r v s = s\<lparr>Reg := (Reg s)(r := v)\<rparr>"

definition FLUSHPIPE :: "'m ARMul_State \<Rightarrow> 'm ARMul_State" where
  [arm_defs]: "FLUSHPIPE s = s\<lparr>NextInstr := NextInstr s OR PRIMEPIPE\<rparr>"

definition INSN_SIZE :: "'m ARMul_State \<Rightarrow> ARMword" where
  [arm_defs]: "INSN_SIZE s = (if TFlag s \<noteq> 0 then 2 else 4)"

definition ECC :: "'m ARMul_State \<Rightarrow> ARMword" where
  "ECC s = push_bit 31 (NFlag s) OR push_bit 30 (ZFlag s) OR push_bit 29 (CFlag s)
           OR push_bit 28 (VFlag s) OR push_bit 27 (SFlag s)"

definition EINT :: "'m ARMul_State \<Rightarrow> ARMword" where
  "EINT s = push_bit 6 (IFFlags s)"

definition ER15INT :: "'m ARMul_State \<Rightarrow> ARMword" where
  "ER15INT s = push_bit 26 (IFFlags s)"

abbreviation EMODE :: "'m ARMul_State \<Rightarrow> ARMword" where
  "EMODE s \<equiv> Mode s"

definition CPSR :: "'m ARMul_State \<Rightarrow> ARMword" where
  "CPSR s = ECC s OR EINT s OR EMODE s OR push_bit 5 (TFlag s)"

definition IFLAG :: "'m ARMul_State \<Rightarrow> ARMword" where
  "IFLAG s = drop_bit 1 (IFFlags s)"

definition FFLAG :: "'m ARMul_State \<Rightarrow> ARMword" where
  "FFLAG s = IFFlags s AND 1"

definition R15PC :: "'m ARMul_State \<Rightarrow> ARMword" where
  "R15PC s = Reg s 15 AND R15PCBITS"

definition R15MODE :: "'m ARMul_State \<Rightarrow> ARMword" where
  "R15MODE s = Reg s 15 AND R15MODEBITS"

definition R15CCINTMODE :: "'m ARMul_State \<Rightarrow> ARMword" where
  "R15CCINTMODE s = Reg s 15 AND (CCBITS OR R15INTBITS OR R15MODEBITS)"

definition SETPSR_C :: "ARMword \<Rightarrow> ARMword \<Rightarrow> ARMword" where
  "SETPSR_C d s = (d AND NOT 0x000000ff) OR (s AND 0x000000ff)"

definition SETPSR_X :: "ARMword \<Rightarrow> ARMword \<Rightarrow> ARMword" where
  "SETPSR_X d s = (d AND NOT 0x0000ff00) OR (s AND 0x0000ff00)"

definition SETPSR_S :: "ARMword \<Rightarrow> ARMword \<Rightarrow> ARMword" where
  "SETPSR_S d s = (d AND NOT 0x00ff0000) OR (s AND 0x00ff0000)"

definition SETPSR_F :: "ARMword \<Rightarrow> ARMword \<Rightarrow> ARMword" where
  "SETPSR_F d s = (d AND NOT 0xff000000) OR (s AND 0xff000000)"

definition BANK_CAN_ACCESS_SPSR :: "bank \<Rightarrow> bool" where
  "BANK_CAN_ACCESS_SPSR b \<longleftrightarrow> b \<noteq> USERBANK \<and> b \<noteq> DUMMYBANK"

definition ARMul_ABORTWORD :: "'m ARMul_State \<Rightarrow> ARMword" where
  "ARMul_ABORTWORD s = (if TFlag s \<noteq> 0 then 0xefffdfff else 0xefffffff)"

text \<open>
  The type invariant of the flag fields: \<open>NFlag\<close>, \<dots>, \<open>TFlag\<close> are C truth
  values and \<open>IFFlags\<close> holds two bits.  The mode occupies five bits.
\<close>

definition flags_ok :: "'m ARMul_State \<Rightarrow> bool" where
  "flags_ok s \<longleftrightarrow> NFlag s \<le> 1 \<and> ZFlag s \<le> 1 \<and> CFlag s \<le> 1 \<and> VFlag s \<le> 1 \<and> SFlag s \<le> 1
     \<and> TFlag s \<le> 1 \<and> IFFlags s \<le> 3 \<and> Mode s \<le> 31"

section \<open>A fresh state\<close>

text \<open>
  \<open>ARMul_NewState\<close> clears the whole structure and then sets the few fields
  that do not start at zero.  The argument \<open>m\<close> is the machine's own start state.
\<close>

definition ARMul_NewState :: "'m \<Rightarrow> 'm ARMul_State" where
  "ARMul_NewState m =
    \<lparr>
      Emulate = RUN, EndCondition = 0, ErrorCode = 0, Reg = \<lambda>_. 0,
      RegBank = \<lambda>_ _. 0, Cpsr = 0, Spsr = \<lambda>_. 0, Accumulator = 0, NFlag = 0,
      ZFlag = 0, CFlag = 0, VFlag = 0, IFFlags = 0, SFlag = 0, TFlag = 0, Bank = USERBANK,
      Mode = 0, st_pc = 0, st_loaded = 0, st_decoded = 0, NumScycles = 0, NumNcycles = 0,
      NumIcycles = 0, NumCcycles = 0, NumFcycles = 0, NumInstrs = 0, NextInstr = 0, EventSet = 0,
      Now = 0, EventPtr = \<lambda>_. [], NresetSig = 0, NfiqSig = 0, NirqSig = 0, abortSig = 0,
      NtransSig = 0, bigendSig = LOW, prog32Sig = HIGH, data32Sig = HIGH, lateabtSig = HIGH,
      Aborted = 0, AbortAddr = 0, Base = 0,
      mmu = \<lparr>control = 0, translation_table_base = 0, domain_access_control = 0, fault_status = 0,
        fault_address = 0, last_domain = 0, process_id = 0, cache_locked_down = 0, tlb_locked_down = 0,
        cache_type = 0, aux_control = 0, copro_access = 0\<rparr>,
      is_v4 = 0, is_v5 = 0, is_v5e = 0, is_v6 = 0, is_XScale = 0, vector_remap_flag = 0,
      vector_remap_addr = 0, vector_remap_size = 0, tea_break_ok = 0, tea_break_addr = 0,
      tea_pc = 0, isize = 0, mach = m\<rparr>"

end
