(* ===== verification/Arm_Supp.thy ===== *)
theory Arm_Supp
  imports Arm_State
begin

text \<open>
  The support routines of \<open>armsupp.c\<close>: banked registers and mode switching,
  access to PC, CPSR and SPSR, the condition flags of additions and
  subtractions, the alignment rotation and the event queue.
\<close>

section \<open>Modes and register banks\<close>

definition bankofmode :: "bank list" where
  "bankofmode =
    [USERBANK, FIQBANK, IRQBANK, SVCBANK,
     DUMMYBANK, DUMMYBANK, DUMMYBANK, DUMMYBANK,
     DUMMYBANK, DUMMYBANK, DUMMYBANK, DUMMYBANK,
     DUMMYBANK, DUMMYBANK, DUMMYBANK, DUMMYBANK,
     USERBANK, FIQBANK, IRQBANK, SVCBANK,
     DUMMYBANK, DUMMYBANK, DUMMYBANK, ABORTBANK,
     DUMMYBANK, DUMMYBANK, DUMMYBANK, UNDEFBANK,
     DUMMYBANK, DUMMYBANK, DUMMYBANK, USERBANK]"

definition ModeToBank :: "ARMword \<Rightarrow> bank" where
  "ModeToBank mode =
     (if 32 \<le> unat mode then DUMMYBANK else bankofmode ! unat mode)"

definition ARMul_GetReg :: "'m ARMul_State \<Rightarrow> ARMword \<Rightarrow> nat \<Rightarrow> ARMword" where
  "ARMul_GetReg s mode r =
     (let mode = mode AND MODEBITS in
      if mode \<noteq> Mode s then RegBank s (ModeToBank mode) r else Reg s r)"

definition ARMul_SetReg :: "'m ARMul_State \<Rightarrow> ARMword \<Rightarrow> nat \<Rightarrow> ARMword \<Rightarrow> 'm ARMul_State" where
  "ARMul_SetReg s mode r v =
     (let mode = mode AND MODEBITS; b = ModeToBank mode in
      if mode \<noteq> Mode s then s\<lparr>RegBank := (RegBank s)(b := (RegBank s b)(r := v))\<rparr>
      else s\<lparr>Reg := (Reg s)(r := v)\<rparr>)"

text \<open>The loop \<open>for (i = lo; i < hi; i++) dst[i] = src[i]\<close>.\<close>

definition copy_regs :: "nat \<Rightarrow> nat \<Rightarrow> (nat \<Rightarrow> ARMword) \<Rightarrow> (nat \<Rightarrow> ARMword) \<Rightarrow> nat \<Rightarrow> ARMword" where
  "copy_regs lo hi src dst = (\<lambda>i. if lo \<le> i \<and> i < hi then src i else dst i)"

definition save_regs :: "bank \<Rightarrow> bank \<Rightarrow> 'm ARMul_State \<Rightarrow> 'm ARMul_State" where
  "save_regs oldbank newbank s =
     (case oldbank of
        FIQBANK \<Rightarrow> s\<lparr>RegBank := (RegBank s)(FIQBANK := copy_regs 8 15 (Reg s) (RegBank s FIQBANK))\<rparr>
      | DUMMYBANK \<Rightarrow> s\<lparr>RegBank := (RegBank s)(DUMMYBANK := copy_regs 8 15 (\<lambda>_. 0) (RegBank s DUMMYBANK))\<rparr>
      | _ \<Rightarrow>
         (let s = (if newbank = FIQBANK
                   then s\<lparr>RegBank := (RegBank s)(USERBANK := copy_regs 8 13 (Reg s) (RegBank s USERBANK))\<rparr>
                   else s)
          in s\<lparr>RegBank := (RegBank s)(oldbank := (RegBank s oldbank)(13 := Reg s 13, 14 := Reg s 14))\<rparr>))"

definition restore_regs :: "bank \<Rightarrow> bank \<Rightarrow> 'm ARMul_State \<Rightarrow> 'm ARMul_State" where
  "restore_regs oldbank newbank s =
     (case newbank of
        FIQBANK \<Rightarrow> s\<lparr>Reg := copy_regs 8 15 (RegBank s FIQBANK) (Reg s)\<rparr>
      | DUMMYBANK \<Rightarrow> s\<lparr>Reg := copy_regs 8 15 (\<lambda>_. 0) (Reg s)\<rparr>
      | _ \<Rightarrow>
         (let s = (if oldbank = FIQBANK
                   then s\<lparr>Reg := copy_regs 8 13 (RegBank s USERBANK) (Reg s)\<rparr>
                   else s)
          in s\<lparr>Reg := (Reg s)(13 := RegBank s newbank 13, 14 := RegBank s newbank 14)\<rparr>))"

text \<open>Returns the new mode and the state, as the C function returns its \<open>newmode\<close>.\<close>

definition ARMul_SwitchMode ::
    "'m ARMul_State \<Rightarrow> ARMword \<Rightarrow> ARMword \<Rightarrow> ARMword \<times> 'm ARMul_State" where
  "ARMul_SwitchMode s oldmode newmode =
     (let oldbank = ModeToBank oldmode; newbank = ModeToBank newmode;
          s = s\<lparr>Bank := newbank\<rparr>
      in (newmode,
          if oldbank \<noteq> newbank then restore_regs oldbank newbank (save_regs oldbank newbank s)
          else s))"

section \<open>PC, CPSR and SPSR\<close>

definition ARMul_GetPC :: "'m ARMul_State \<Rightarrow> ARMword" where
  "ARMul_GetPC s = (if Mode s > SVC26MODE then Reg s 15 else R15PC s)"

definition ARMul_GetNextPC :: "'m ARMul_State \<Rightarrow> ARMword" where
  "ARMul_GetNextPC s =
     (if Mode s > SVC26MODE then Reg s 15 + isize s else (Reg s 15 + isize s) AND R15PCBITS)"

definition ARMul_SetPC :: "'m ARMul_State \<Rightarrow> ARMword \<Rightarrow> 'm ARMul_State" where
  "ARMul_SetPC s v =
     FLUSHPIPE (if Mode s > 3 then set_reg 15 (v AND PCBITS) s
                else set_reg 15 (R15CCINTMODE s OR (v AND R15PCBITS)) s)"

definition ARMul_GetR15 :: "'m ARMul_State \<Rightarrow> ARMword" where
  "ARMul_GetR15 s =
     (if Mode s > SVC26MODE then Reg s 15 else R15PC s OR ECC s OR ER15INT s OR EMODE s)"

definition ARMul_GetCPSR :: "'m ARMul_State \<Rightarrow> ARMword" where
  "ARMul_GetCPSR s = CPSR s"

definition assign_mode :: "ARMword \<Rightarrow> 'm ARMul_State \<Rightarrow> 'm ARMul_State" where
  "assign_mode newmode s =
     (if Mode s \<noteq> newmode then
        (let (m, s) = ARMul_SwitchMode s (Mode s) newmode;
             s = s\<lparr>Mode := m\<rparr>
         in s\<lparr>NtransSig := (if Mode s AND 3 \<noteq> 0 then HIGH else LOW)\<rparr>)
      else s)"

definition assign_flags :: "'m ARMul_State \<Rightarrow> 'm ARMul_State" where
  "assign_flags s = s\<lparr>
     IFFlags := drop_bit 6 (Cpsr s AND INTBITS) AND 3,
     NFlag := of_bool (Cpsr s AND NBIT \<noteq> 0),
     ZFlag := of_bool (Cpsr s AND ZBIT \<noteq> 0),
     CFlag := of_bool (Cpsr s AND CBIT \<noteq> 0),
     VFlag := of_bool (Cpsr s AND VBIT \<noteq> 0),
     SFlag := of_bool (Cpsr s AND SBIT \<noteq> 0),
     TFlag := of_bool (Cpsr s AND TBIT \<noteq> 0)\<rparr>"

definition fix_r15 :: "ARMword \<Rightarrow> 'm ARMul_State \<Rightarrow> 'm ARMul_State" where
  "fix_r15 oldmode s =
     (if oldmode > SVC26MODE then
        (if Mode s \<le> SVC26MODE
         then set_reg 15 (ECC s OR ER15INT s OR EMODE s OR R15PC s) (s\<lparr>Emulate := CHANGEMODE\<rparr>)
         else s)
      else if Mode s > SVC26MODE then set_reg 15 (R15PC s) (s\<lparr>Emulate := CHANGEMODE\<rparr>)
      else set_reg 15 (ECC s OR ER15INT s OR EMODE s OR R15PC s) s)"

definition ARMul_CPSRAltered :: "'m ARMul_State \<Rightarrow> 'm ARMul_State" where
  "ARMul_CPSRAltered s =
     (let s = (if prog32Sig s = LOW then s\<lparr>Cpsr := Cpsr s AND (CCBITS OR INTBITS OR R15MODEBITS)\<rparr> else s);
          oldmode = Mode s;
          s = assign_mode (Cpsr s AND MODEBITS) s;
          s = assign_flags s
      in fix_r15 oldmode s)"

definition ARMul_R15Altered :: "'m ARMul_State \<Rightarrow> 'm ARMul_State" where
  "ARMul_R15Altered s =
     (let s = assign_mode (R15MODE s) s;
          s = (if Mode s > SVC26MODE then s\<lparr>Emulate := CHANGEMODE\<rparr> else s)
      in s\<lparr>
     IFFlags := drop_bit 26 (Reg s 15 AND R15INTBITS) AND 3,
     NFlag := of_bool (Reg s 15 AND NBIT \<noteq> 0),
     ZFlag := of_bool (Reg s 15 AND ZBIT \<noteq> 0),
     CFlag := of_bool (Reg s 15 AND CBIT \<noteq> 0),
     VFlag := of_bool (Reg s 15 AND VBIT \<noteq> 0)\<rparr>)"

definition ARMul_SetR15 :: "'m ARMul_State \<Rightarrow> ARMword \<Rightarrow> 'm ARMul_State" where
  "ARMul_SetR15 s v =
     FLUSHPIPE (if Mode s > 3 then set_reg 15 (v AND PCBITS) s
                else ARMul_R15Altered (set_reg 15 v s))"

definition ARMul_SetCPSR :: "'m ARMul_State \<Rightarrow> ARMword \<Rightarrow> 'm ARMul_State" where
  "ARMul_SetCPSR s v = ARMul_CPSRAltered (s\<lparr>Cpsr := v\<rparr>)"

definition ARMul_FixCPSR :: "'m ARMul_State \<Rightarrow> ARMword \<Rightarrow> ARMword \<Rightarrow> 'm ARMul_State" where
  "ARMul_FixCPSR s instr rhs =
     (let c = ARMul_GetCPSR s;
          c = (if Mode s \<noteq> USER26MODE \<and> Mode s \<noteq> USER32MODE then
                 (let c = (if BIT instr 16 \<noteq> 0 then SETPSR_C c rhs else c);
                      c = (if BIT instr 17 \<noteq> 0 then SETPSR_X c rhs else c)
                  in if BIT instr 18 \<noteq> 0 then SETPSR_S c rhs else c)
               else c);
          c = (if BIT instr 19 \<noteq> 0 then SETPSR_F c rhs else c)
      in ARMul_CPSRAltered (s\<lparr>Cpsr := c\<rparr>))"

definition ARMul_GetSPSR :: "'m ARMul_State \<Rightarrow> ARMword \<Rightarrow> ARMword" where
  "ARMul_GetSPSR s mode =
     (let b = ModeToBank (mode AND MODEBITS) in
      if \<not> BANK_CAN_ACCESS_SPSR b then ARMul_GetCPSR s else Spsr s b)"

definition ARMul_SetSPSR :: "'m ARMul_State \<Rightarrow> ARMword \<Rightarrow> ARMword \<Rightarrow> 'm ARMul_State" where
  "ARMul_SetSPSR s mode v =
     (let b = ModeToBank (mode AND MODEBITS) in
      if BANK_CAN_ACCESS_SPSR b then s\<lparr>Spsr := (Spsr s)(b := v)\<rparr> else s)"

definition ARMul_FixSPSR :: "'m ARMul_State \<Rightarrow> ARMword \<Rightarrow> ARMword \<Rightarrow> 'm ARMul_State" where
  "ARMul_FixSPSR s instr rhs =
     (if BANK_CAN_ACCESS_SPSR (Bank s) then
        (let p = Spsr s (Bank s);
             p = (if BIT instr 16 \<noteq> 0 then SETPSR_C p rhs else p);
             p = (if BIT instr 17 \<noteq> 0 then SETPSR_X p rhs else p);
             p = (if BIT instr 18 \<noteq> 0 then SETPSR_S p rhs else p);
             p = (if BIT instr 19 \<noteq> 0 then SETPSR_F p rhs else p)
         in s\<lparr>Spsr := (Spsr s)(Bank s := p)\<rparr>)
      else s)"

section \<open>Register lists, flags and alignment\<close>

text \<open>
  \<open>ARMul_NthReg\<close> walks the bits of the instruction until it has seen
  \<open>number + 1\<close> set bits.  Once \<open>bit\<close> reaches 32 the shift in \<open>BIT\<close> is
  undefined in C: the result is \<open>None\<close> there.
\<close>

function nth_reg_loop :: "ARMword \<Rightarrow> nat \<Rightarrow> nat \<Rightarrow> nat \<Rightarrow> nat option" where
  "nth_reg_loop instr number b up =
     (if up \<le> number then
        (if b < 32 then nth_reg_loop instr number (Suc b) (if BIT instr b \<noteq> 0 then Suc up else up)
         else None)
      else Some (b - 1))"
  by pat_completeness auto
termination
  by (relation "measure (\<lambda>(instr, number, b, up). 32 - b)") auto

declare nth_reg_loop.simps [simp del]

definition ARMul_NthReg :: "ARMword \<Rightarrow> nat \<Rightarrow> nat option" where
  "ARMul_NthReg instr number = nth_reg_loop instr number 0 0"

definition ARMul_NegZero :: "'m ARMul_State \<Rightarrow> ARMword \<Rightarrow> 'm ARMul_State" where
  [arm_defs]: "ARMul_NegZero s result =
     (if NEG result \<noteq> 0 then s\<lparr>NFlag := 1, ZFlag := 0\<rparr>
      else if result = 0 then s\<lparr>NFlag := 0, ZFlag := 1\<rparr>
      else s\<lparr>NFlag := 0, ZFlag := 0\<rparr>)"

definition AddOverflow :: "ARMword \<Rightarrow> ARMword \<Rightarrow> ARMword \<Rightarrow> bool" where
  "AddOverflow a b result \<longleftrightarrow>
     NEG a \<noteq> 0 \<and> NEG b \<noteq> 0 \<and> POS result \<noteq> 0 \<or> POS a \<noteq> 0 \<and> POS b \<noteq> 0 \<and> NEG result \<noteq> 0"

definition SubOverflow :: "ARMword \<Rightarrow> ARMword \<Rightarrow> ARMword \<Rightarrow> bool" where
  "SubOverflow a b result \<longleftrightarrow>
     NEG a \<noteq> 0 \<and> POS b \<noteq> 0 \<and> POS result \<noteq> 0 \<or> POS a \<noteq> 0 \<and> NEG b \<noteq> 0 \<and> NEG result \<noteq> 0"

definition ARMul_AddCarry :: "'m ARMul_State \<Rightarrow> ARMword \<Rightarrow> ARMword \<Rightarrow> ARMword \<Rightarrow> 'm ARMul_State" where
  [arm_defs]: "ARMul_AddCarry s a b result =
     s\<lparr>CFlag := of_bool (NEG a \<noteq> 0 \<and> NEG b \<noteq> 0 \<or> NEG a \<noteq> 0 \<and> POS result \<noteq> 0
                       \<or> NEG b \<noteq> 0 \<and> POS result \<noteq> 0)\<rparr>"

definition ARMul_AddOverflow :: "'m ARMul_State \<Rightarrow> ARMword \<Rightarrow> ARMword \<Rightarrow> ARMword \<Rightarrow> 'm ARMul_State" where
  [arm_defs]: "ARMul_AddOverflow s a b result = s\<lparr>VFlag := of_bool (AddOverflow a b result)\<rparr>"

definition ARMul_SubCarry :: "'m ARMul_State \<Rightarrow> ARMword \<Rightarrow> ARMword \<Rightarrow> ARMword \<Rightarrow> 'm ARMul_State" where
  [arm_defs]: "ARMul_SubCarry s a b result =
     s\<lparr>CFlag := of_bool (NEG a \<noteq> 0 \<and> POS b \<noteq> 0 \<or> NEG a \<noteq> 0 \<and> POS result \<noteq> 0
                       \<or> POS b \<noteq> 0 \<and> POS result \<noteq> 0)\<rparr>"

definition ARMul_SubOverflow :: "'m ARMul_State \<Rightarrow> ARMword \<Rightarrow> ARMword \<Rightarrow> ARMword \<Rightarrow> 'm ARMul_State" where
  [arm_defs]: "ARMul_SubOverflow s a b result = s\<lparr>VFlag := of_bool (SubOverflow a b result)\<rparr>"

definition ARMul_Align :: "ARMword \<Rightarrow> ARMword \<Rightarrow> ARMword" where
  "ARMul_Align address data =
     (let sh = unat (push_bit 3 (address AND 3))
      in drop_bit sh data OR push_bit (32 - sh) data)"

section \<open>The event queue\<close>

abbreviation (input) EVENTLISTSIZE :: nat where "EVENTLISTSIZE \<equiv> 1024"

definition ARMul_Time :: "'m ARMul_State \<Rightarrow> ARMword" where
  "ARMul_Time s = NumScycles s + NumNcycles s + NumIcycles s + NumCcycles s + NumFcycles s"

text \<open>An event is the address of its handler; the failing \<open>malloc\<close> is not modelled.\<close>

definition ARMul_ScheduleEvent :: "'m ARMul_State \<Rightarrow> ARMword \<Rightarrow> nat \<Rightarrow> 'm ARMul_State" where
  "ARMul_ScheduleEvent s delay what =
     (let s' = (if EventSet s = 0 then s\<lparr>Now := ARMul_Time s\<rparr> else s);
          s = s'\<lparr>EventSet := EventSet s + 1\<rparr>;
          whn = unat ((Now s + delay) mod 1024)
      in s\<lparr>EventPtr := (EventPtr s)(whn := what # EventPtr s whn)\<rparr>)"

text \<open>
  \<open>call f\<close> is what the handler at address \<open>f\<close> does to the state.  The inner
  \<open>while\<close> loop walks the list it found in the slot, even if a handler prepends
  to that slot, and the slot is emptied afterwards.
\<close>

definition run_event :: "(nat \<Rightarrow> 'm ARMul_State \<Rightarrow> 'm ARMul_State) \<Rightarrow> nat \<Rightarrow> 'm ARMul_State \<Rightarrow> 'm ARMul_State" where
  "run_event call f s = (let s = call f s in s\<lparr>EventSet := EventSet s - 1\<rparr>)"

definition run_slot :: "(nat \<Rightarrow> 'm ARMul_State \<Rightarrow> 'm ARMul_State) \<Rightarrow> nat \<Rightarrow> 'm ARMul_State \<Rightarrow> 'm ARMul_State" where
  "run_slot call i s =
     (let s = fold (run_event call) (EventPtr s i) s
      in s\<lparr>EventPtr := (EventPtr s)(i := [])\<rparr>)"

definition EnvokeList ::
    "(nat \<Rightarrow> 'm ARMul_State \<Rightarrow> 'm ARMul_State) \<Rightarrow> 'm ARMul_State \<Rightarrow> nat \<Rightarrow> nat \<Rightarrow> 'm ARMul_State" where
  "EnvokeList call s frm to = fold (run_slot call) [frm..<Suc to] s"

definition ARMul_EnvokeEvent ::
    "(nat \<Rightarrow> 'm ARMul_State \<Rightarrow> 'm ARMul_State) \<Rightarrow> 'm ARMul_State \<Rightarrow> 'm ARMul_State" where
  "ARMul_EnvokeEvent call s =
     (let thn = Now s;
          s = s\<lparr>Now := ARMul_Time s mod 1024\<rparr>
      in if thn < Now s then EnvokeList call s (unat thn) (unat (Now s))
         else if thn > Now s then
           (let s = EnvokeList call s (unat thn) (EVENTLISTSIZE - 1)
            in EnvokeList call s 0 (unat (Now s)))
         else s)"

section \<open>Flags of additions and subtractions\<close>

lemma AddOverflow_sint:
  fixes a b :: ARMword
  shows "AddOverflow a b (a + b + of_bool c) \<longleftrightarrow>
    sint a + sint b + of_bool c \<notin> {- (2 ^ 31) ..< 2 ^ 31}"
proof -
  define r where "r = a + b + of_bool c"
  obtain x y z where n: "unat a = x" "unat b = y" "unat r = z" by blast
  have "z = (if x + y + of_bool c < 4294967296 then x + y + of_bool c else x + y + of_bool c - 4294967296)"
    using unat_add_carry [of "of_bool c" a b] n unfolding r_def by (cases c) (simp_all split: if_splits)
  moreover have "x < 4294967296" "y < 4294967296" using unat_less_2p32 n by blast+
  ultimately show ?thesis
    unfolding AddOverflow_def r_def [symmetric] by (cases c) (auto simp: sint_conv_unat bit31_conv_unat n split: if_splits)
qed

lemma SubOverflow_sint:
  fixes a b :: ARMword
  shows "SubOverflow a b (a - b - of_bool c) \<longleftrightarrow>
    sint a - sint b - of_bool c \<notin> {- (2 ^ 31) ..< 2 ^ 31}"
proof -
  define r where "r = a - b - of_bool c"
  obtain x y z where n: "unat a = x" "unat b = y" "unat r = z" by blast
  have "z = (if y + of_bool c \<le> x then x - y - of_bool c else x + 4294967296 - y - of_bool c)"
    using unat_sub_borrow [of "of_bool c" a b] n unfolding r_def by (cases c) (simp_all split: if_splits)
  moreover have "x < 4294967296" "y < 4294967296" using unat_less_2p32 n by blast+
  ultimately show ?thesis
    unfolding SubOverflow_def r_def [symmetric] by (cases c) (auto simp: sint_conv_unat bit31_conv_unat n split: if_splits)
qed

lemma ARMul_AddCarry_arith:
  "CFlag (ARMul_AddCarry s a b (a + b + of_bool c)) = of_bool (2 ^ 32 \<le> unat a + unat b + of_bool c)"
  unfolding arm_defs
  using unat_less_2p32 [of a] unat_less_2p32 [of b] unat_add_carry [of "of_bool c" a b]
  by (cases c) (auto simp: bit31_conv_unat split: if_splits) 

lemma ARMul_SubCarry_arith:
  "CFlag (ARMul_SubCarry s a b (a - b - of_bool c)) = of_bool (unat b + of_bool c \<le> unat a)"
  unfolding arm_defs
  using unat_less_2p32 [of a] unat_less_2p32 [of b] unat_sub_borrow [of "of_bool c" a b]
  by (cases c) (auto simp: bit31_conv_unat split: if_splits)

section \<open>Mode switches keep every banked register\<close>

text \<open>
  The abstract register file: \<open>banked_reg s b r\<close> is the value register \<open>r\<close> has,
  or would have, when the processor runs on bank \<open>b\<close>.  The registers 8 to 12
  are shared by all banks but the FIQ bank, 13 and 14 belong to each bank.
\<close>

definition banked_reg :: "'m ARMul_State \<Rightarrow> bank \<Rightarrow> nat \<Rightarrow> ARMword" where
  "banked_reg s b r =
     (if 8 \<le> r \<and> r < 13 then
        (if b = FIQBANK \<longleftrightarrow> Bank s = FIQBANK then Reg s r
         else RegBank s (if b = FIQBANK then FIQBANK else USERBANK) r)
      else if r = 13 \<or> r = 14 then
        (if b = Bank s then Reg s r else RegBank s b r)
      else Reg s r)"

lemma banked_reg_Bank: "banked_reg s (Bank s) r = Reg s r"
  by (simp add: banked_reg_def)

lemma copy_regs_8_15:
  "copy_regs 8 15 src dst r = (if 8 \<le> r \<and> r < 13 then src r else if r = 13 \<or> r = 14 then src r else dst r)"
  by (auto simp: copy_regs_def)

lemma copy_regs_8_13:
  "copy_regs 8 13 src dst r = (if 8 \<le> r \<and> r < 13 then src r else dst r)"
  by (auto simp: copy_regs_def)

lemmas switch_defs = ARMul_SwitchMode_def save_regs_def restore_regs_def
  copy_regs_8_13 copy_regs_8_15 Let_def

lemma banked_reg_SwitchMode:
  assumes "ModeToBank oldmode = Bank s" "Bank s \<noteq> DUMMYBANK" "ModeToBank newmode \<noteq> DUMMYBANK" "b \<noteq> DUMMYBANK"
  shows "banked_reg (snd (ARMul_SwitchMode s oldmode newmode)) b r = banked_reg s b r"
  using assms 
  by (cases "Bank s"; cases "ModeToBank newmode") (auto simp: banked_reg_def switch_defs)

lemma save_regs_form: "\<exists>RB. save_regs ob nb s = s\<lparr>RegBank := RB\<rparr>"
  by (cases ob) (auto simp: save_regs_def Let_def)

lemma restore_regs_form: "\<exists>R. restore_regs ob nb s = s\<lparr>Reg := R\<rparr> \<and> (\<forall>r. r < 8 \<or> 14 < r \<longrightarrow> R r = Reg s r)"
  by (cases nb) (fastforce simp: restore_regs_def copy_regs_def Let_def)+

lemma SwitchMode_form:
  "\<exists>R RB. ARMul_SwitchMode s om nm = (nm, s\<lparr>Bank := ModeToBank nm, RegBank := RB, Reg := R\<rparr>)
     \<and> (\<forall>r. r < 8 \<or> 14 < r \<longrightarrow> R r = Reg s r)"
proof (cases "ModeToBank om = ModeToBank nm")
  case True
  then have "ARMul_SwitchMode s om nm = (nm, s\<lparr>Bank := ModeToBank nm, RegBank := RegBank s, Reg := Reg s\<rparr>)"
    by (cases s) (simp add: ARMul_SwitchMode_def)
  then show ?thesis by blast
next
  case False
  let ?s1 = "s\<lparr>Bank := ModeToBank nm\<rparr>"
  obtain RB where 1: "save_regs (ModeToBank om) (ModeToBank nm) ?s1 = ?s1\<lparr>RegBank := RB\<rparr>"
    using save_regs_form by blast
  obtain R where "restore_regs (ModeToBank om) (ModeToBank nm) (?s1\<lparr>RegBank := RB\<rparr>) = ?s1\<lparr>RegBank := RB, Reg := R\<rparr>"
    "\<forall>r. r < 8 \<or> 14 < r \<longrightarrow> R r = Reg (?s1\<lparr>RegBank := RB\<rparr>) r"
    using restore_regs_form by metis
  then show ?thesis using False 1 by (auto simp: ARMul_SwitchMode_def Let_def)
qed

lemma SwitchMode_frame [simp]:
  "fst (ARMul_SwitchMode s oldmode newmode) = newmode"
  "Bank (snd (ARMul_SwitchMode s oldmode newmode)) = ModeToBank newmode"
  "Mode (snd (ARMul_SwitchMode s oldmode newmode)) = Mode s"
  "r < 8 \<or> 14 < r \<Longrightarrow> Reg (snd (ARMul_SwitchMode s oldmode newmode)) r = Reg s r"
  "Cpsr (snd (ARMul_SwitchMode s oldmode newmode)) = Cpsr s"
  "Spsr (snd (ARMul_SwitchMode s oldmode newmode)) = Spsr s"
  "prog32Sig (snd (ARMul_SwitchMode s oldmode newmode)) = prog32Sig s"
  "Emulate (snd (ARMul_SwitchMode s oldmode newmode)) = Emulate s"
  "mmu (snd (ARMul_SwitchMode s oldmode newmode)) = mmu s"
  "vector_remap_flag (snd (ARMul_SwitchMode s oldmode newmode)) = vector_remap_flag s"
  "vector_remap_addr (snd (ARMul_SwitchMode s oldmode newmode)) = vector_remap_addr s"
  "mach (snd (ARMul_SwitchMode s oldmode newmode)) = mach s"
  using SwitchMode_form [of s oldmode newmode] by auto

lemma assign_mode_simps [simp]:
  "Mode (assign_mode m s) = m"
  "ModeToBank (Mode s) = Bank s \<Longrightarrow> Bank (assign_mode m s) = ModeToBank m"
  "Reg (assign_mode m s) 15 = Reg s 15"
  "Cpsr (assign_mode m s) = Cpsr s"
  "Spsr (assign_mode m s) = Spsr s"
  "prog32Sig (assign_mode m s) = prog32Sig s"
  "mmu (assign_mode m s) = mmu s"
  "vector_remap_flag (assign_mode m s) = vector_remap_flag s"
  "vector_remap_addr (assign_mode m s) = vector_remap_addr s"
  "mach (assign_mode m s) = mach s"
  by (auto simp: assign_mode_def case_prod_beta Let_def)

lemma assign_flags_CPSR:
  assumes "Mode s = Cpsr s AND MODEBITS"
  shows "CPSR (assign_flags s) = Cpsr s AND 0xf80000ff"
  by (rule word32_eqI) (simp add: CPSR_def ECC_def EINT_def assign_flags_def assms and_flag_iff bit_simps)


lemma fix_r15_simps [simp]:
  "Mode (fix_r15 m s) = Mode s" "Bank (fix_r15 m s) = Bank s" "CPSR (fix_r15 m s) = CPSR s"
  "Spsr (fix_r15 m s) = Spsr s" "RegBank (fix_r15 m s) = RegBank s"
  "r \<noteq> 15 \<Longrightarrow> Reg (fix_r15 m s) r = Reg s r"
  "flags_ok (fix_r15 m s) = flags_ok s"
  by (auto simp: fix_r15_def set_reg_def CPSR_def ECC_def EINT_def flags_ok_def)

lemma assign_flags_simps [simp]:
  "Mode (assign_flags s) = Mode s" "Bank (assign_flags s) = Bank s" "Spsr (assign_flags s) = Spsr s"
  "Reg (assign_flags s) = Reg s" "RegBank (assign_flags s) = RegBank s"
  by (simp_all add: assign_flags_def)

lemma assign_flags_ok: "Mode s \<le> 31 \<Longrightarrow> flags_ok (assign_flags s)"
  by (simp add: assign_flags_def flags_ok_def and_mask_le)

definition bank_ok :: "'m ARMul_State \<Rightarrow> bool" where
  "bank_ok s \<longleftrightarrow> Bank s = ModeToBank (Mode s)"

definition psr_mask :: "'m ARMul_State \<Rightarrow> ARMword" where
  "psr_mask s = (if prog32Sig s = LOW then CCBITS OR INTBITS OR R15MODEBITS else NOT 0)"

lemma CPSRAltered_conv:
  "ARMul_CPSRAltered s =
     fix_r15 (Mode s) (assign_flags (assign_mode ((Cpsr s AND psr_mask s) AND MODEBITS)
        (s\<lparr>Cpsr := Cpsr s AND psr_mask s\<rparr>)))"
  by (cases s) (simp add: ARMul_CPSRAltered_def psr_mask_def Let_def)

lemma CPSR_CPSRAltered: "CPSR (ARMul_CPSRAltered s) = (Cpsr s AND psr_mask s) AND 0xf80000ff"
  by (simp add: CPSRAltered_conv assign_flags_CPSR)

lemma GetCPSR_SetCPSR:
  assumes "prog32Sig s \<noteq> LOW"
  shows "ARMul_GetCPSR (ARMul_SetCPSR s v) = v AND 0xf80000ff"
  using assms by (simp add: ARMul_GetCPSR_def ARMul_SetCPSR_def CPSR_CPSRAltered psr_mask_def)

lemma CPSRAltered_ok:
  assumes "bank_ok s"
  shows "bank_ok (ARMul_CPSRAltered s)" "flags_ok (ARMul_CPSRAltered s)"
  using assms by (simp_all add: CPSRAltered_conv bank_ok_def assign_flags_ok and_mask_le)

lemma banked_reg_cong:
  "Bank s = Bank t \<Longrightarrow> RegBank s = RegBank t \<Longrightarrow> Reg s r = Reg t r \<Longrightarrow> banked_reg s b r = banked_reg t b r"
  by (auto simp: banked_reg_def)

lemma banked_reg_assign_mode:
  assumes "bank_ok s" "Bank s \<noteq> DUMMYBANK" "ModeToBank m \<noteq> DUMMYBANK" "b \<noteq> DUMMYBANK"
  shows "banked_reg (assign_mode m s) b r = banked_reg s b r"
proof (cases "Mode s = m")
  case False
  have "banked_reg (assign_mode m s) b r = banked_reg (snd (ARMul_SwitchMode s (Mode s) m)) b r"
    using False by (auto simp: assign_mode_def case_prod_beta Let_def banked_reg_def)
  then show ?thesis using assms banked_reg_SwitchMode [of "Mode s" s m b r] by (simp add: bank_ok_def)
qed (simp add: assign_mode_def)

lemma banked_reg_SetCPSR:
  assumes "bank_ok s" "prog32Sig s \<noteq> LOW" "Bank s \<noteq> DUMMYBANK" "ModeToBank (v AND MODEBITS) \<noteq> DUMMYBANK"
    "b \<noteq> DUMMYBANK" "r \<noteq> 15"
  shows "banked_reg (ARMul_SetCPSR s v) b r = banked_reg s b r"
proof -
  let ?t = "assign_mode (v AND MODEBITS) (s\<lparr>Cpsr := v\<rparr>)"
  have "banked_reg (ARMul_SetCPSR s v) b r = banked_reg ?t b r"
    using assms by (intro banked_reg_cong) (auto simp: ARMul_SetCPSR_def CPSRAltered_conv psr_mask_def)
  also have "\<dots> = banked_reg (s\<lparr>Cpsr := v\<rparr>) b r"
    using assms by (intro banked_reg_assign_mode) (auto simp: bank_ok_def)
  finally show ?thesis by (simp add: banked_reg_def)
qed

lemma CPSR_fields:
  assumes "flags_ok s"
  shows "CPSR s AND 0xf80000ff = CPSR s" 
    "CPSR s AND 0x1f = Mode s" 
    "bit (CPSR s) 5 \<longleftrightarrow> TFlag s \<noteq> 0" "CPSR s AND 0xc0 = push_bit 6 (IFFlags s)"
    "bit (CPSR s) 31 \<longleftrightarrow> NFlag s \<noteq> 0" 
    "bit (CPSR s) 30 \<longleftrightarrow> ZFlag s \<noteq> 0" 
    "bit (CPSR s) 29 \<longleftrightarrow> CFlag s \<noteq> 0" 
    "bit (CPSR s) 28 \<longleftrightarrow> VFlag s \<noteq> 0"
proof -
  from assms have f: "NFlag s \<le> 1" "ZFlag s \<le> 1" "CFlag s \<le> 1" "VFlag s \<le> 1" "SFlag s \<le> 1"
     "TFlag s \<le> 1" "IFFlags s \<le> 3" "Mode s \<le> 31" by (simp_all add: flags_ok_def)
  note [simp] = f(1-6) [THEN bit_le_1] not_bit_le_3 [OF f(7)] not_bit_le_31 [OF f(8)] bit_simps
  show "CPSR s AND 0xf80000ff = CPSR s" "CPSR s AND 0x1f = Mode s" 
    "CPSR s AND 0xc0 = push_bit 6 (IFFlags s)"
    by (rule word32_eqI, simp add: CPSR_def ECC_def EINT_def)+
  show "bit (CPSR s) 5 \<longleftrightarrow> TFlag s \<noteq> 0" "bit (CPSR s) 31 \<longleftrightarrow> NFlag s \<noteq> 0" 
    "bit (CPSR s) 30 \<longleftrightarrow> ZFlag s \<noteq> 0" 
    "bit (CPSR s) 29 \<longleftrightarrow> CFlag s \<noteq> 0" 
    "bit (CPSR s) 28 \<longleftrightarrow> VFlag s \<noteq> 0"
    by (simp_all add: CPSR_def ECC_def EINT_def)
qed

lemma CPSRAltered_frame [simp]:
  "mmu (ARMul_CPSRAltered s) = mmu s"
  "vector_remap_flag (ARMul_CPSRAltered s) = vector_remap_flag s"
  "vector_remap_addr (ARMul_CPSRAltered s) = vector_remap_addr s"
  "mach (ARMul_CPSRAltered s) = mach s"
  "Spsr (ARMul_CPSRAltered s) = Spsr s"
  "prog32Sig (ARMul_CPSRAltered s) = prog32Sig s"
  by (simp_all add: CPSRAltered_conv fix_r15_def set_reg_def assign_flags_def)

lemma SetCPSR_frame [simp]:
  "mmu (ARMul_SetCPSR s v) = mmu s"
  "vector_remap_flag (ARMul_SetCPSR s v) = vector_remap_flag s"
  "vector_remap_addr (ARMul_SetCPSR s v) = vector_remap_addr s"
  "mach (ARMul_SetCPSR s v) = mach s"
  "Spsr (ARMul_SetCPSR s v) = Spsr s"
  "prog32Sig (ARMul_SetCPSR s v) = prog32Sig s"
  by (simp_all add: ARMul_SetCPSR_def)

lemma Mode_SetCPSR:
  "prog32Sig s \<noteq> LOW \<Longrightarrow> Mode (ARMul_SetCPSR s v) = v AND MODEBITS"
  by (simp add: ARMul_SetCPSR_def CPSRAltered_conv psr_mask_def)

lemma SetCPSR_ok:
  "bank_ok s \<Longrightarrow> bank_ok (ARMul_SetCPSR s v) \<and> flags_ok (ARMul_SetCPSR s v)"
  using CPSRAltered_ok [of "s\<lparr>Cpsr := v\<rparr>"] by (simp add: ARMul_SetCPSR_def bank_ok_def)

lemma banked_reg_set_reg_14:
  "banked_reg (set_reg 14 v s) b r = (if r = 14 \<and> b = Bank s then v else banked_reg s b r)"
  by (auto simp: banked_reg_def set_reg_def)

lemma banked_reg_set_reg_15:
  "r \<noteq> 15 \<Longrightarrow> banked_reg (set_reg 15 v s) b r = banked_reg s b r"
  by (auto simp: banked_reg_def set_reg_def)

lemma set_reg_simps [simp]:
  "Mode (set_reg r v s) = Mode s" "Bank (set_reg r v s) = Bank s" "CPSR (set_reg r v s) = CPSR s"
  "Spsr (set_reg r v s) = Spsr s" "RegBank (set_reg r v s) = RegBank s" "mmu (set_reg r v s) = mmu s"
  "prog32Sig (set_reg r v s) = prog32Sig s" "mach (set_reg r v s) = mach s"
  "vector_remap_flag (set_reg r v s) = vector_remap_flag s"
  "vector_remap_addr (set_reg r v s) = vector_remap_addr s"
  "flags_ok (set_reg r v s) = flags_ok s" "bank_ok (set_reg r v s) = bank_ok s"
  "Reg (set_reg r v s) = (Reg s)(r := v)"
  by (simp_all add: set_reg_def CPSR_def ECC_def EINT_def flags_ok_def bank_ok_def)

lemma FLUSHPIPE_simps [simp]:
  "Mode (FLUSHPIPE s) = Mode s" "Bank (FLUSHPIPE s) = Bank s" "CPSR (FLUSHPIPE s) = CPSR s"
  "Spsr (FLUSHPIPE s) = Spsr s" "Reg (FLUSHPIPE s) = Reg s" "mach (FLUSHPIPE s) = mach s"
  "flags_ok (FLUSHPIPE s) = flags_ok s" "bank_ok (FLUSHPIPE s) = bank_ok s"
  "banked_reg (FLUSHPIPE s) b r = banked_reg s b r" "bit (NextInstr (FLUSHPIPE s)) 2"
  by (simp_all add: FLUSHPIPE_def CPSR_def ECC_def EINT_def flags_ok_def bank_ok_def
      banked_reg_def bit_simps)

lemma SetR15_mode32:
  "Mode s > 3 \<Longrightarrow> ARMul_SetR15 s v = FLUSHPIPE (set_reg 15 (v AND PCBITS) s)"
  by (simp add: ARMul_SetR15_def)

section \<open>Register lists and alignment\<close>

text \<open>Counting the set bits below a position.\<close>

definition bits_below :: "ARMword \<Rightarrow> nat \<Rightarrow> nat" where
  "bits_below w n = card {i. i < n \<and> bit w i}"

lemma bits_below_0 [simp]: "bits_below w 0 = 0"
  by (simp add: bits_below_def)

lemma bits_below_Suc [simp]: "bits_below w (Suc n) = bits_below w n + of_bool (bit w n)"
proof -
  have "{i. i < Suc n \<and> bit w i} = {i. i < n \<and> bit w i} \<union> (if bit w n then {n} else {})"
    by (auto simp: less_Suc_eq)
  then show ?thesis by (simp add: bits_below_def)
qed

lemma bits_below_mono: "m \<le> n \<Longrightarrow> bits_below w m \<le> bits_below w n"
  by (induction rule: dec_induct) simp_all

lemma bits_below_le: "bits_below w n \<le> n"
  by (induction n) simp_all

lemma bits_below_less: "m < n \<Longrightarrow> bit w m \<Longrightarrow> bits_below w m < bits_below w n"
  using bits_below_mono [of "Suc m" n w] by simp

lemma nth_reg_loop_found:
  assumes "number < bits_below instr 32" "b \<le> 32" "up = bits_below instr b" "up \<le> number"
  shows "\<exists>r<32. nth_reg_loop instr number b up = Some r \<and> bit instr r \<and> bits_below instr r = number"
  using assms
proof (induction instr number b up rule: nth_reg_loop.induct)
  case (1 instr number b up)
  then have b: "b < 32" by (cases "b = 32") auto
  show ?case
  proof (cases "bit instr b \<and> up = number")
    case True
    with 1 b show ?thesis by (simp add: nth_reg_loop.simps)
  next
    case False
    with 1 b show ?thesis
      by (cases "bit instr b") (simp_all add: nth_reg_loop.simps [of instr number b])
  qed
qed

lemma nth_reg_loop_none:
  assumes "bits_below instr 32 \<le> number" "b \<le> 32" "up = bits_below instr b"
  shows "nth_reg_loop instr number b up = None"
  using assms
proof (induction instr number b up rule: nth_reg_loop.induct)
  case (1 instr number b up)
  have "up \<le> number" using 1 bits_below_mono [of b 32 instr] by simp
  with 1 show ?case
    by (cases "bit instr b") (simp_all add: nth_reg_loop.simps [of instr number b])
qed

lemma unat_and_3: "unat (push_bit 3 (a AND 3 :: ARMword)) = 8 * unat (a AND 3)"
proof -
  have "unat (a AND 3) \<le> 3" using word_and_le1 [of a 3] by (simp add: word_le_nat_alt)
  then show ?thesis by (simp add: push_bit_eq_mult unat_word_ariths unat_mod)
qed

lemma Align_rotr: "ARMul_Align a d = word_rotr (8 * unat (a AND 3)) d"
proof -
  have "unat (a AND 3) \<le> 3" using word_and_le1 [of a 3] by (simp add: word_le_nat_alt)
  then show ?thesis by (simp only: ARMul_Align_def Let_def unat_and_3) (simp add: rotate_conv)
qed

section \<open>Properties\<close>

text \<open>
  The carry and overflow flags that \<open>ARMul_AddCarry\<close> and \<open>ARMul_AddOverflow\<close>
  compute from the sign bits of the operands and the sum are the arithmetic ones:
  carry says that the unsigned sum (with carry-in \<open>c\<close>) does not fit 32 bits,
  overflow that the signed sum does not.
\<close>

theorem ARMul_add_flags:
  "let r = a + b + of_bool c; s' = ARMul_AddOverflow (ARMul_AddCarry s a b r) a b r
   in CFlag s' = of_bool (2 ^ 32 \<le> unat a + unat b + of_bool c)
      \<and> VFlag s' = of_bool (sint a + sint b + of_bool c \<notin> {- (2 ^ 31) ..< 2 ^ 31})"
  using ARMul_AddCarry_arith [of s a b c]
  by (simp only: Let_def ARMul_AddOverflow_def AddOverflow_sint) (simp add: ARMul_AddCarry_def)

text \<open>
  The same for subtraction: \<open>ARMul_SubCarry\<close> sets the carry exactly when there
  is no borrow, \<open>ARMul_SubOverflow\<close> the overflow flag exactly when the signed
  difference (less the borrow-in \<open>c\<close>) leaves the signed range.
\<close>

theorem ARMul_sub_flags:
  "let r = a - b - of_bool c; s' = ARMul_SubOverflow (ARMul_SubCarry s a b r) a b r
   in CFlag s' = of_bool (unat b + of_bool c \<le> unat a)
      \<and> VFlag s' = of_bool (sint a - sint b - of_bool c \<notin> {- (2 ^ 31) ..< 2 ^ 31})"
  using ARMul_SubCarry_arith [of s a b c]
  by (simp only: Let_def ARMul_SubOverflow_def SubOverflow_sint) (simp add: ARMul_SubCarry_def)

text \<open>
  C11: a mode switch between two modes with a register bank loses no register: the
  value every bank gives to every register is what it was, and the new current
  registers are those of the new bank.  (A switch to or from a reserved mode
  number, which has the dummy bank, does lose registers 8 to 14.)
\<close>

theorem ARMul_SwitchMode_banks:
  assumes "ModeToBank oldmode = Bank s" "Bank s \<noteq> DUMMYBANK" "ModeToBank newmode \<noteq> DUMMYBANK"
  defines "t \<equiv> snd (ARMul_SwitchMode s oldmode newmode)"
  shows "Bank t = ModeToBank newmode
    \<and> (\<forall>r. Reg t r = banked_reg s (ModeToBank newmode) r)
    \<and> (\<forall>b r. b \<noteq> DUMMYBANK \<longrightarrow> banked_reg t b r = banked_reg s b r)"
proof -
  have b: "banked_reg t b r = banked_reg s b r" if "b \<noteq> DUMMYBANK" for b r
    unfolding t_def using assms(1-3) that by (rule banked_reg_SwitchMode)
  have "Reg t r = banked_reg t (Bank t) r" for r by (simp add: banked_reg_Bank)
  then show ?thesis using b assms(3) by (simp add: t_def)
qed

theorem ARMul_SwitchMode_banks_witness:
  "Bank (snd (ARMul_SwitchMode (ARMul_NewState ()) USER26MODE FIQ32MODE)) = FIQBANK
   \<and> (\<forall>r. Reg (snd (ARMul_SwitchMode (ARMul_NewState ()) USER26MODE FIQ32MODE)) r
          = banked_reg (ARMul_NewState ()) FIQBANK r)"
  using ARMul_SwitchMode_banks [of USER26MODE "ARMul_NewState ()" FIQ32MODE]
  by (simp add: ModeToBank_def bankofmode_def ARMul_NewState_def)

text \<open>
  In the 32-bit configuration, writing the CPSR and reading it back gives the
  written value with the bits the model has no storage for (8 to 26) cleared.
\<close>

theorem ARMul_SetCPSR_roundtrip:
  assumes "prog32Sig s \<noteq> LOW"
  shows "ARMul_GetCPSR (ARMul_SetCPSR s v) = v AND 0xf80000ff"
  using assms by (rule GetCPSR_SetCPSR)

theorem ARMul_SetCPSR_roundtrip_witness:
  "ARMul_GetCPSR (ARMul_SetCPSR (ARMul_NewState ()) 0x600fff13) = 0x60000013"
  using ARMul_SetCPSR_roundtrip [of "ARMul_NewState ()" "0x600fff13"]
  by (simp add: ARMul_NewState_def)

text \<open>
  Every CPSR write, whatever the value, leaves the flags in their types and the
  current bank the one of the current mode; when both the old and the new mode have
  a register bank, no banked register but the program counter changes.
\<close>

theorem ARMul_SetCPSR_invariant:
  fixes v :: ARMword
  assumes "bank_ok s" "prog32Sig s \<noteq> LOW"
  defines "t \<equiv> ARMul_SetCPSR s v"
  shows "bank_ok t \<and> flags_ok t \<and> Mode t = v AND MODEBITS
    \<and> (Bank s \<noteq> DUMMYBANK \<and> Bank t \<noteq> DUMMYBANK \<longrightarrow>
        (\<forall>b r. b \<noteq> DUMMYBANK \<and> r \<noteq> 15 \<longrightarrow> banked_reg t b r = banked_reg s b r))"
proof -
  have ok: "bank_ok t \<and> flags_ok t" and m: "Mode t = v AND MODEBITS"
    using assms SetCPSR_ok Mode_SetCPSR by (auto simp: t_def)
  then show ?thesis
    using assms banked_reg_SetCPSR [of s v] by (auto simp: bank_ok_def)
qed

theorem ARMul_SetCPSR_invariant_witness:
  "bank_ok (ARMul_SetCPSR (ARMul_NewState ()) 0xd3) \<and> Mode (ARMul_SetCPSR (ARMul_NewState ()) 0xd3) = SVC32MODE"
  using ARMul_SetCPSR_invariant [of "ARMul_NewState ()" "0xd3"]
  by (simp add: bank_ok_def ModeToBank_def bankofmode_def ARMul_NewState_def)

text \<open>
  \<open>ARMul_NthReg\<close> finds the register with \<open>number\<close> smaller ones in the list when
  the instruction word has more than \<open>number\<close> bits set, and otherwise shifts past
  the word.
\<close>

theorem ARMul_NthReg_correct:
  "(\<forall>r. ARMul_NthReg instr number = Some r \<longleftrightarrow>
      r < 32 \<and> bit instr r \<and> card {i. i < r \<and> bit instr i} = number)
   \<and> (ARMul_NthReg instr number = None \<longleftrightarrow> card {i. i < 32 \<and> bit instr i} \<le> number)"
proof (cases "number < bits_below instr 32")
  case True
  then obtain r where r: "r < 32" "ARMul_NthReg instr number = Some r" "bit instr r"
      "bits_below instr r = number"
    using nth_reg_loop_found [of number instr 0 0] by (auto simp: ARMul_NthReg_def)
  have "q = r" if "bit instr q" "bits_below instr q = number" for q
    using that r bits_below_less [of q r instr] bits_below_less [of r q instr]
    by (cases q r rule: linorder_cases) simp_all
  then have "ARMul_NthReg instr number = Some q \<longleftrightarrow> q < 32 \<and> bit instr q \<and> bits_below instr q = number" for q
    using r by (metis option.inject)
  then show ?thesis using True r(2) unfolding bits_below_def [symmetric] by simp
next
  case False
  then have "ARMul_NthReg instr number = None"
    using nth_reg_loop_none [of instr number 0 0] by (simp add: ARMul_NthReg_def)
  moreover have "bits_below instr r < number" if "r < 32" "bit instr r" for r
    using that False bits_below_less [of r 32 instr] by simp
  then have "bits_below instr r \<noteq> number" if "r < 32" "bit instr r" for r
    using that by (metis less_irrefl)
  ultimately show ?thesis using False unfolding bits_below_def [symmetric] by auto
qed

text \<open>
  \<open>ARMul_Align\<close> rotates the loaded word right by eight bits for every byte of
  misalignment; a word loaded from an aligned address is unchanged.
\<close>

theorem ARMul_Align_rotates:
  "ARMul_Align address data = word_rotr (8 * unat (address AND 3)) data"
  by (rule Align_rotr)

end
