(* ===== verification/Arm_Mem.thy ===== *)
theory Arm_Mem
  imports Arm_Supp
begin

text \<open>
  The memory of \<open>armmem.c\<close>: the table of memory banks with its one-entry lookup
  cache, the accesses dispatched on the bank, and the word array behind RAM and ROM
  banks with its two byte orders.  A function pointer of a bank is a tag; what the
  machine's I/O and the flash devices do is a parameter (\<open>bus_ops\<close>).  The lemmas show
  that the lookup is that of the uncached search, that RAM meets the contract of a byte
  memory (locale \<open>byte_memory\<close>) in both byte orders, and that a reset loads the files.
\<close>

section \<open>Banks\<close>

datatype read_fn = real_read | io_read | flash_read | null_read
datatype write_fn = real_write | warn_write | io_write | flash_write | null_write

datatype mem_type = MEMTYPE_IO | MEMTYPE_RAM | MEMTYPE_ROM | MEMTYPE_FLASH

record mem_bank_t =
  mb_addr :: ARMword
  mb_len :: ARMword
  mb_read :: read_fn
  mb_write :: write_fn
  mb_filename :: string
  mb_type :: mem_type

text \<open>
  \<open>mem_banks\<close> is the C array, \<open>mbp\<close> the static variable of \<open>bank_ptr\<close> and
  \<open>global_mbp\<close> the global one, both as indices; \<open>rom\<close> holds the words of the banks
  and \<open>rom_size\<close> their lengths in bytes.
\<close>

record 'x mem_sys =
  current_num :: nat
  mem_banks :: "mem_bank_t list"
  mbp :: "nat option"
  global_mbp :: "nat option"
  rom :: "nat \<Rightarrow> nat \<Rightarrow> ARMword"
  rom_size :: "nat \<Rightarrow> ARMword"
  iosys :: 'x

type_synonym 'x mstate = "'x mem_sys ARMul_State"

datatype access_size = Byte | Halfword | Word

record 'x bus_ops =
  bus_io_read :: "access_size \<Rightarrow> 'x mstate \<Rightarrow> ARMword \<Rightarrow> (ARMword \<times> 'x mstate) option"
  bus_io_write :: "access_size \<Rightarrow> 'x mstate \<Rightarrow> ARMword \<Rightarrow> ARMword \<Rightarrow> 'x mstate option"
  bus_flash_read :: "access_size \<Rightarrow> 'x mstate \<Rightarrow> ARMword \<Rightarrow> (ARMword \<times> 'x mstate) option"
  bus_flash_write :: "access_size \<Rightarrow> 'x mstate \<Rightarrow> ARMword \<Rightarrow> ARMword \<Rightarrow> 'x mstate option"

definition bank_hit :: "mem_bank_t \<Rightarrow> ARMword \<Rightarrow> bool" where
  "bank_hit b addr \<longleftrightarrow> mb_addr b \<le> addr \<and> addr - mb_addr b < mb_len b"

text \<open>
  The loop \<open>for (mbp = mem_banks; mbp->len; mbp++)\<close>: the result is the bank found, if
  any, and the index at which \<open>mbp\<close> stops; \<open>None\<close> when the array ends without a
  bank of length 0.
\<close>

fun bank_search :: "mem_bank_t list \<Rightarrow> nat \<Rightarrow> ARMword \<Rightarrow> (nat option \<times> nat) option" where
  "bank_search [] i addr = None"
| "bank_search (b # bs) i addr =
     (if mb_len b = 0 then Some (None, i)
      else if bank_hit b addr then Some (Some i, i)
      else bank_search bs (Suc i) addr)"

definition bank_ptr :: "ARMword \<Rightarrow> 'x mem_sys \<Rightarrow> (nat option \<times> 'x mem_sys) option" where
  "bank_ptr addr m =
     (case mbp m of
        Some i \<Rightarrow>
          if bank_hit (mem_banks m ! i) addr then Some (Some i, m)
          else map_option (\<lambda>(r, p). (r, m\<lparr>mbp := Some p\<rparr>)) (bank_search (mem_banks m) 0 addr)
      | None \<Rightarrow> map_option (\<lambda>(r, p). (r, m\<lparr>mbp := Some p\<rparr>)) (bank_search (mem_banks m) 0 addr))"

section \<open>Words, halfwords and bytes\<close>

definition byte_offset :: "ARMword \<Rightarrow> ARMword \<Rightarrow> nat" where
  "byte_offset bigend addr = unat (push_bit 3 ((bigend * 3) XOR (addr AND 3)))"

definition half_offset :: "ARMword \<Rightarrow> ARMword \<Rightarrow> nat" where
  "half_offset bigend addr = unat (push_bit 3 ((bigend * 2) XOR (addr AND 2)))"

definition lane_read :: "ARMword \<Rightarrow> nat \<Rightarrow> ARMword \<Rightarrow> ARMword" where
  "lane_read m ofs w = drop_bit ofs w AND m"

definition lane_write :: "ARMword \<Rightarrow> nat \<Rightarrow> ARMword \<Rightarrow> ARMword \<Rightarrow> ARMword" where
  "lane_write m ofs data w = (w AND NOT (push_bit ofs m)) OR push_bit ofs (data AND m)"

definition rom_index :: "'x mem_sys \<Rightarrow> nat \<Rightarrow> ARMword \<Rightarrow> nat" where
  "rom_index m i addr = unat (drop_bit 2 (addr - mb_addr (mem_banks m ! i)))"

definition rom_get :: "'x mem_sys \<Rightarrow> nat \<Rightarrow> ARMword \<Rightarrow> ARMword" where
  "rom_get m i addr = rom m i (rom_index m i addr)"

definition rom_upd :: "nat \<Rightarrow> ARMword \<Rightarrow> (ARMword \<Rightarrow> ARMword) \<Rightarrow> 'x mem_sys \<Rightarrow> 'x mem_sys" where
  "rom_upd i addr f m =
     (let k = rom_index m i addr in m\<lparr>rom := (rom m)(i := (rom m i)(k := f (rom m i k)))\<rparr>)"

text \<open>The \<open>real_\<close> functions use \<open>global_mbp\<close>; without a bank they would dereference \<open>NULL\<close>.\<close>

definition real_read_byte :: "'x mstate \<Rightarrow> ARMword \<Rightarrow> ARMword option" where
  "real_read_byte s addr =
     map_option (\<lambda>i. lane_read 0xff (byte_offset (bigendSig s) addr) (rom_get (mach s) i addr)) (global_mbp (mach s))"

definition real_read_halfword :: "'x mstate \<Rightarrow> ARMword \<Rightarrow> ARMword option" where
  "real_read_halfword s addr =
     map_option (\<lambda>i. lane_read 0xffff (half_offset (bigendSig s) addr) (rom_get (mach s) i addr)) (global_mbp (mach s))"

definition real_read_word :: "'x mstate \<Rightarrow> ARMword \<Rightarrow> ARMword option" where
  "real_read_word s addr = map_option (\<lambda>i. rom_get (mach s) i addr) (global_mbp (mach s))"

definition real_write_byte :: "'x mstate \<Rightarrow> ARMword \<Rightarrow> ARMword \<Rightarrow> 'x mstate option" where
  "real_write_byte s addr data =
     map_option (\<lambda>i. s\<lparr>mach := rom_upd i addr (lane_write 0xff (byte_offset (bigendSig s) addr) data) (mach s)\<rparr>)
       (global_mbp (mach s))"

definition real_write_halfword :: "'x mstate \<Rightarrow> ARMword \<Rightarrow> ARMword \<Rightarrow> 'x mstate option" where
  "real_write_halfword s addr data =
     map_option (\<lambda>i. s\<lparr>mach := rom_upd i addr (lane_write 0xffff (half_offset (bigendSig s) addr) data) (mach s)\<rparr>)
       (global_mbp (mach s))"

definition real_write_word :: "'x mstate \<Rightarrow> ARMword \<Rightarrow> ARMword \<Rightarrow> 'x mstate option" where
  "real_write_word s addr data =
     map_option (\<lambda>i. s\<lparr>mach := rom_upd i addr (\<lambda>_. data) (mach s)\<rparr>) (global_mbp (mach s))"

section \<open>Accesses\<close>

definition real_read_sz :: "access_size \<Rightarrow> 'x mstate \<Rightarrow> ARMword \<Rightarrow> ARMword option" where
  "real_read_sz z = (case z of Byte \<Rightarrow> real_read_byte | Halfword \<Rightarrow> real_read_halfword | Word \<Rightarrow> real_read_word)"

definition real_write_sz :: "access_size \<Rightarrow> 'x mstate \<Rightarrow> ARMword \<Rightarrow> ARMword \<Rightarrow> 'x mstate option" where
  "real_write_sz z = (case z of Byte \<Rightarrow> real_write_byte | Halfword \<Rightarrow> real_write_halfword | Word \<Rightarrow> real_write_word)"

definition remap_addr :: "'x mstate \<Rightarrow> ARMword \<Rightarrow> ARMword" where
  "remap_addr s addr =
     (if vector_remap_flag s \<noteq> 0 \<and> addr \<le> vector_remap_size s then addr + vector_remap_addr s else addr)"

text \<open>The common body of the three reads: look the bank up, call its function, 0 if there is none.\<close>

definition mem_read_sz :: "'x bus_ops \<Rightarrow> access_size \<Rightarrow> 'x mstate \<Rightarrow> ARMword \<Rightarrow> (ARMword \<times> 'x mstate) option" where
  "mem_read_sz B z s addr =
     (let addr = remap_addr s addr in
      case bank_ptr addr (mach s) of
        None \<Rightarrow> None
      | Some (r, m) \<Rightarrow>
         (let s = s\<lparr>mach := m\<lparr>global_mbp := r\<rparr>\<rparr> in
          case r of
            None \<Rightarrow> Some (0, s)
          | Some i \<Rightarrow>
             (case mb_read (mem_banks m ! i) of
                real_read \<Rightarrow> map_option (\<lambda>d. (d, s)) (real_read_sz z s addr)
              | io_read \<Rightarrow> bus_io_read B z s addr
              | flash_read \<Rightarrow> bus_flash_read B z s addr
              | null_read \<Rightarrow> Some (0, s))))"

definition mem_read_byte :: "'x bus_ops \<Rightarrow> 'x mstate \<Rightarrow> ARMword \<Rightarrow> (ARMword \<times> 'x mstate) option" where
  "mem_read_byte B = mem_read_sz B Byte"

definition mem_read_halfword :: "'x bus_ops \<Rightarrow> 'x mstate \<Rightarrow> ARMword \<Rightarrow> (ARMword \<times> 'x mstate) option" where
  "mem_read_halfword B = mem_read_sz B Halfword"

definition mem_read_word :: "'x bus_ops \<Rightarrow> 'x mstate \<Rightarrow> ARMword \<Rightarrow> (ARMword \<times> 'x mstate) option" where
  "mem_read_word B = mem_read_sz B Word"

text \<open>
  The writes: there is no remapping, and where no bank or function is found a byte
  write ends the simulator (\<open>skyeye_exit\<close>, here \<open>None\<close>) while the others do nothing.
\<close>

definition mem_write_sz :: "'x bus_ops \<Rightarrow> access_size \<Rightarrow> 'x mstate \<Rightarrow> ARMword \<Rightarrow> ARMword \<Rightarrow> 'x mstate option" where
  "mem_write_sz B z s addr data =
     (case bank_ptr addr (mach s) of
        None \<Rightarrow> None
      | Some (r, m) \<Rightarrow>
         (let s = s\<lparr>mach := m\<lparr>global_mbp := r\<rparr>\<rparr>;
              none = (if z = Byte then None else Some s) in
          case r of
            None \<Rightarrow> none
          | Some i \<Rightarrow>
             (case mb_write (mem_banks m ! i) of
                real_write \<Rightarrow> real_write_sz z s addr data
              | warn_write \<Rightarrow> Some s
              | io_write \<Rightarrow> bus_io_write B z s addr data
              | flash_write \<Rightarrow> bus_flash_write B z s addr data
              | null_write \<Rightarrow> none)))"

definition mem_write_byte :: "'x bus_ops \<Rightarrow> 'x mstate \<Rightarrow> ARMword \<Rightarrow> ARMword \<Rightarrow> 'x mstate option" where
  "mem_write_byte B = mem_write_sz B Byte"

definition mem_write_halfword :: "'x bus_ops \<Rightarrow> 'x mstate \<Rightarrow> ARMword \<Rightarrow> ARMword \<Rightarrow> 'x mstate option" where
  "mem_write_halfword B = mem_write_sz B Halfword"

definition mem_write_word :: "'x bus_ops \<Rightarrow> 'x mstate \<Rightarrow> ARMword \<Rightarrow> ARMword \<Rightarrow> 'x mstate option" where
  "mem_write_word B = mem_write_sz B Word"

section \<open>Reset\<close>

text \<open>
  What \<open>mem_reset\<close> gets from the operating system: the bytes a \<open>malloc\<close> of a bank
  returns (\<open>None\<close> is \<open>NULL\<close>) and the contents of a file that can be opened.
\<close>

record os_env =
  os_malloc :: "nat \<Rightarrow> ARMword \<Rightarrow> (nat \<Rightarrow> 8 word) option"
  os_fopen :: "string \<Rightarrow> 8 word list option"

definition swap_word :: "ARMword \<Rightarrow> (nat \<Rightarrow> 8 word) \<Rightarrow> nat \<Rightarrow> ARMword" where
  "swap_word bigend p s =
     (if bigend = HIGH
      then ucast (p (s + 3)) OR push_bit 8 (ucast (p (s + 2))) OR push_bit 16 (ucast (p (s + 1))) OR push_bit 24 (ucast (p s))
      else ucast (p s) OR push_bit 8 (ucast (p (s + 1))) OR push_bit 16 (ucast (p (s + 2))) OR push_bit 24 (ucast (p (s + 3))))"

text \<open>
  The loop \<open>while (s < rom_size)\<close> that turns the bytes of the file into words, in place;
  each turn reads and writes only the four bytes at \<open>s\<close>.
\<close>

function swap_loop :: "ARMword \<Rightarrow> (nat \<Rightarrow> 8 word) \<Rightarrow> nat \<Rightarrow> nat \<Rightarrow> (nat \<Rightarrow> ARMword) \<Rightarrow> nat \<Rightarrow> ARMword" where
  "swap_loop bigend p sz s w =
     (if s < sz then swap_loop bigend p sz (s + 4) (w(s div 4 := swap_word bigend p s)) else w)"
  by pat_completeness auto
termination by (relation "measure (\<lambda>(_, _, sz, s, _). sz - s)") auto

declare swap_loop.simps [simp del]

text \<open>\<open>fread\<close> of at most \<open>len\<close> bytes into the block; the block keeps its bytes behind them.\<close>

definition fread_bytes :: "8 word list \<Rightarrow> nat \<Rightarrow> (nat \<Rightarrow> 8 word) \<Rightarrow> nat \<Rightarrow> 8 word" where
  "fread_bytes f len p = (\<lambda>k. if k < len \<and> k < length f then f ! k else p k)"

text \<open>One turn of the loop over the banks; \<open>None\<close> is \<open>skyeye_exit\<close>.\<close>

definition mem_reset_bank :: "os_env \<Rightarrow> nat \<Rightarrow> 'x mstate \<Rightarrow> 'x mstate option" where
  "mem_reset_bank E bank s =
     (let mb = mem_banks (mach s) ! bank;
          s = s\<lparr>mach := (mach s)\<lparr>rom_size := (rom_size (mach s))(bank := mb_len mb)\<rparr>\<rparr>;
          set_rom = (\<lambda>w. s\<lparr>mach := (mach s)\<lparr>rom := (rom (mach s))(bank := w)\<rparr>\<rparr>) in
      if mb_type mb = MEMTYPE_IO then Some s
      else case os_malloc E bank (mb_len mb) of
        None \<Rightarrow> None
      | Some p \<Rightarrow>
         (let raw = (\<lambda>k. swap_word LOW p (4 * k)) in
          case os_fopen E (mb_filename mb) of
            Some f \<Rightarrow>
              if length f = 0 \<or> mb_len mb = 0 then None
              else let p = fread_bytes f (unat (mb_len mb)) p in
                   Some (set_rom (swap_loop (bigendSig s) p (unat (mb_len mb)) 0 raw))
          | None \<Rightarrow> if mb_filename mb \<noteq> [] then None else Some (set_rom raw)))"

fun mem_reset_loop :: "os_env \<Rightarrow> nat list \<Rightarrow> 'x mstate \<Rightarrow> 'x mstate option" where
  "mem_reset_loop E [] s = Some s"
| "mem_reset_loop E (i # is) s =
     (case mem_reset_bank E i s of None \<Rightarrow> None | Some s \<Rightarrow> mem_reset_loop E is s)"

definition mem_reset :: "os_env \<Rightarrow> 'x mstate \<Rightarrow> 'x mstate option" where
  "mem_reset E s = mem_reset_loop E [0..<current_num (mach s)] s"

section \<open>Bank lookup\<close>

text \<open>
  The banks the loop visits, and a well-formed table: it ends in a bank of length 0,
  the cached index lies in it and no address is in two banks.
\<close>

definition live_banks :: "'x mem_sys \<Rightarrow> mem_bank_t list" where
  "live_banks m = takeWhile (\<lambda>b. mb_len b \<noteq> 0) (mem_banks m)"

definition mem_wf :: "'x mem_sys \<Rightarrow> bool" where
  "mem_wf m \<longleftrightarrow> length (live_banks m) < length (mem_banks m)
     \<and> (\<forall>i. mbp m = Some i \<longrightarrow> i \<le> length (live_banks m))
     \<and> (\<forall>i j a. i < length (live_banks m) \<and> j < length (live_banks m)
          \<and> bank_hit (live_banks m ! i) a \<and> bank_hit (live_banks m ! j) a \<longrightarrow> i = j)"

lemma bank_search_spec:
  assumes "length (takeWhile (\<lambda>b. mb_len b \<noteq> 0) bs) < length bs"
  defines "lv \<equiv> takeWhile (\<lambda>b. mb_len b \<noteq> 0) bs"
  shows "\<exists>r p. bank_search bs k addr = Some (r, p) \<and> p \<le> k + length lv \<and>
     (r = None \<and> (\<forall>j<length lv. \<not> bank_hit (lv ! j) addr)
      \<or> (\<exists>j<length lv. r = Some (k + j) \<and> bank_hit (lv ! j) addr))"
  using assms(1) unfolding lv_def
proof (induction bs arbitrary: k)
  case (Cons b bs)
  show ?case
  proof (cases "mb_len b = 0 \<or> bank_hit b addr")
    case True
    then show ?thesis by auto
  next
    case False
    then obtain r p where rp: "bank_search bs (Suc k) addr = Some (r, p)"
      "p \<le> Suc k + length (takeWhile (\<lambda>b. mb_len b \<noteq> 0) bs)"
      "r = None \<and> (\<forall>j<length (takeWhile (\<lambda>b. mb_len b \<noteq> 0) bs). \<not> bank_hit (takeWhile (\<lambda>b. mb_len b \<noteq> 0) bs ! j) addr)
      \<or> (\<exists>j<length (takeWhile (\<lambda>b. mb_len b \<noteq> 0) bs). r = Some (Suc k + j) \<and> bank_hit (takeWhile (\<lambda>b. mb_len b \<noteq> 0) bs ! j) addr)"
      using Cons.IH [of "Suc k"] Cons.prems by auto
    from rp(3) show ?thesis
    proof
      assume "r = None \<and> (\<forall>j<length (takeWhile (\<lambda>b. mb_len b \<noteq> 0) bs). \<not> bank_hit (takeWhile (\<lambda>b. mb_len b \<noteq> 0) bs ! j) addr)"
      then show ?thesis using False rp(1,2) by (auto simp: nth_Cons split: nat.splits)
    next
      assume "\<exists>j<length (takeWhile (\<lambda>b. mb_len b \<noteq> 0) bs). r = Some (Suc k + j) \<and> bank_hit (takeWhile (\<lambda>b. mb_len b \<noteq> 0) bs ! j) addr"
      then obtain j where "j < length (takeWhile (\<lambda>b. mb_len b \<noteq> 0) bs)" "r = Some (Suc k + j)"
         "bank_hit (takeWhile (\<lambda>b. mb_len b \<noteq> 0) bs ! j) addr" by blast
      then show ?thesis using False rp(1,2) by (intro exI [of _ r] exI [of _ p]) (auto intro!: exI [of _ "Suc j"])
    qed
  qed
qed simp

lemma live_nth: "i < length (live_banks m) \<Longrightarrow> live_banks m ! i = mem_banks m ! i"
  by (simp add: live_banks_def takeWhile_nth)

lemma dead_bank:
  assumes "length (live_banks m) < length (mem_banks m)"
  shows "mb_len (mem_banks m ! length (live_banks m)) = 0"
  using nth_length_takeWhile [of "\<lambda>b. mb_len b \<noteq> 0" "mem_banks m"] assms by (simp add: live_banks_def)

lemma bank_ptr_correct:
  assumes "mem_wf m"
  shows "\<exists>r p. bank_ptr addr m = Some (r, m\<lparr>mbp := p\<rparr>) \<and> mem_wf (m\<lparr>mbp := p\<rparr>)
     \<and> (\<forall>i. r = Some i \<longleftrightarrow> i < length (live_banks m) \<and> bank_hit (mem_banks m ! i) addr)"
proof -
  let ?lv = "live_banks m" 
  have t: "length ?lv < length (mem_banks m)"
    and u: "\<And>i j a. i < length ?lv \<Longrightarrow> j < length ?lv \<Longrightarrow> bank_hit (?lv ! i) a \<Longrightarrow> bank_hit (?lv ! j) a \<Longrightarrow> i = j"
    using assms unfolding mem_wf_def by blast+
  have wf: "mem_wf (m\<lparr>mbp := Some p\<rparr>)" if "p \<le> length ?lv" for p
    using assms that by (simp add: mem_wf_def live_banks_def)
  obtain r p where s: "bank_search (mem_banks m) 0 addr = Some (r, p)" "p \<le> length ?lv"
    "r = None \<and> (\<forall>j<length ?lv. \<not> bank_hit (?lv ! j) addr) \<or> (\<exists>j<length ?lv. r = Some j \<and> bank_hit (?lv ! j) addr)"
    using bank_search_spec [of "mem_banks m" 0 addr] t by (auto simp: live_banks_def)
  have "\<forall>i. r = Some i \<longleftrightarrow> i < length ?lv \<and> bank_hit (mem_banks m ! i) addr"
    using s(3) u live_nth [of _ m] by (metis option.distinct(1) option.inject)
  then have search: "\<exists>r p. map_option (\<lambda>(r, p). (r, m\<lparr>mbp := Some p\<rparr>)) (bank_search (mem_banks m) 0 addr) = Some (r, m\<lparr>mbp := p\<rparr>)
     \<and> mem_wf (m\<lparr>mbp := p\<rparr>) \<and> (\<forall>i. r = Some i \<longleftrightarrow> i < length ?lv \<and> bank_hit (mem_banks m ! i) addr)"
    using s wf by auto
  show ?thesis
  proof (cases "\<exists>i. mbp m = Some i \<and> bank_hit (mem_banks m ! i) addr")
    case False
    then show ?thesis using search by (auto simp: bank_ptr_def split: option.splits)
  next
    case True
    then obtain i where i: "mbp m = Some i" "bank_hit (mem_banks m ! i) addr" by blast
    have "i \<le> length ?lv" using assms i by (simp add: mem_wf_def)
    moreover have "i \<noteq> length ?lv" using i(2) dead_bank [OF t] by (auto simp: bank_hit_def)
    ultimately have il: "i < length ?lv" by simp
    have "m\<lparr>mbp := Some i\<rparr> = m" using i by simp
    then have "bank_ptr addr m = Some (Some i, m\<lparr>mbp := Some i\<rparr>)" using i by (simp add: bank_ptr_def)
    moreover have "Some i = Some j \<longleftrightarrow> j < length ?lv \<and> bank_hit (mem_banks m ! j) addr" for j
      using il i u [of i j addr] live_nth [of i m] live_nth [of j m] by auto
    ultimately show ?thesis using wf il by (intro exI [of _ "Some i"]) auto
  qed
qed

section \<open>Lanes of a word\<close>

lemma lane_read_write_same:
  assumes "ofs + k \<le> 32"
  shows "lane_read (mask k) ofs (lane_write (mask k) ofs d w) = d AND mask k"
  using assms by (intro bit_word_eqI) (auto simp: lane_read_def lane_write_def bit_simps)

lemma lane_read_write_other:
  assumes "ofs' + k \<le> ofs \<or> ofs + k \<le> ofs'"
  shows "lane_read (mask k) ofs' (lane_write (mask k) ofs d w) = lane_read (mask k) ofs' w"
  using assms by (intro bit_word_eqI) (auto simp: lane_read_def lane_write_def bit_simps dest: bit_imp_le_length)

lemma bytes_of_word:
  "lane_read 0xff 0 w OR push_bit 8 (lane_read 0xff 8 w) OR push_bit 16 (lane_read 0xff 16 w)
     OR push_bit 24 (lane_read 0xff 24 w) = w"
  by (rule word32_eqI) (simp add: lane_read_def bit_simps not_bit_ge_32)

lemma mask_8_16: "mask 8 = (0xff :: ARMword)" "mask 16 = (0xffff :: ARMword)"
  by (simp_all add: mask_eq_exp_minus_1)

lemma and_3_cases: "addr AND 3 = (0 :: ARMword) \<or> addr AND 3 = 1 \<or> addr AND 3 = 2 \<or> addr AND 3 = 3"
proof -
  have "unat (addr AND 3) \<le> 3" using word_and_le1 [of addr 3] by (simp add: word_le_nat_alt)
  then have "unat (addr AND 3) = 0 \<or> unat (addr AND 3) = 1 \<or> unat (addr AND 3) = 2 \<or> unat (addr AND 3) = 3" by linarith
  then show ?thesis by (auto simp: word_unat_eq_iff)
qed

lemma byte_offset_cases:
  assumes "be = 0 \<or> be = 1"
  shows "byte_offset be addr = 8 * (if be = 0 then unat (addr AND 3) else 3 - unat (addr AND 3))"
proof -
  obtain x where x: "addr AND 3 = x" "x = 0 \<or> x = 1 \<or> x = 2 \<or> x = 3" using and_3_cases [of addr] by blast
  show ?thesis unfolding byte_offset_def x(1) using assms x(2) by auto
qed

lemma byte_offset_le: "be = 0 \<or> be = 1 \<Longrightarrow> byte_offset be addr + 8 \<le> 32"
  using and_3_cases [of addr] by (auto simp: byte_offset_cases)

lemma byte_offset_neq:
  assumes "be = 0 \<or> be = 1" "a AND 3 \<noteq> b AND 3"
  shows "byte_offset be a + 8 \<le> byte_offset be b \<or> byte_offset be b + 8 \<le> byte_offset be a"
  using assms and_3_cases [of a] and_3_cases [of b] by (auto simp: byte_offset_cases)

lemma and_3_take_bit: "(a :: ARMword) AND 3 = take_bit 2 a"
  by (simp add: take_bit_eq_mask mask_eq_exp_minus_1)

lemma take_bit_word_diff: "n \<le> 32 \<Longrightarrow> take_bit n (take_bit n a - take_bit n c) = take_bit n (a - c :: ARMword)"
  by (transfer fixing: n) (simp add: take_bit_diff)

lemma rom_cell_inj:
  assumes "drop_bit 2 (a - c) = drop_bit 2 (b - c)" "a AND 3 = (b AND 3 :: ARMword)"
  shows "a = b"
proof -
  have t: "take_bit 2 a = take_bit 2 b" using assms(2) by (simp add: and_3_take_bit)
  have "take_bit 2 (a - c) = take_bit 2 (take_bit 2 a - take_bit 2 c)"
    by (simp add: take_bit_word_diff)
  also have "\<dots> = take_bit 2 (b - c)" unfolding t by (simp add: take_bit_word_diff)
  finally have "push_bit 2 (drop_bit 2 (a - c)) + take_bit 2 (a - c) = push_bit 2 (drop_bit 2 (b - c)) + take_bit 2 (b - c)"
    unfolding assms(1) by (rule arg_cong)
  then show ?thesis unfolding bits_ident by simp
qed

section \<open>Byte memory\<close>

text \<open>A sequence of stores, stopping at one that fails.\<close>

primrec store_seq :: "('s \<Rightarrow> 'a \<Rightarrow> 'd \<Rightarrow> 's option) \<Rightarrow> ('a \<times> 'd) list \<Rightarrow> 's \<Rightarrow> 's option" where
  "store_seq wr [] s = Some s"
| "store_seq wr (p # ps) s = (case wr s (fst p) (snd p) of None \<Rightarrow> None | Some s \<Rightarrow> store_seq wr ps s)"

text \<open>
  The contract of a byte memory: on the valid addresses loads and stores succeed, a
  load changes no byte and a store changes the one it addresses.
\<close>

locale byte_memory =
  fixes valid :: "'s \<Rightarrow> ARMword \<Rightarrow> bool"
    and val :: "'s \<Rightarrow> ARMword \<Rightarrow> ARMword"
    and rd :: "'s \<Rightarrow> ARMword \<Rightarrow> (ARMword \<times> 's) option"
    and wr :: "'s \<Rightarrow> ARMword \<Rightarrow> ARMword \<Rightarrow> 's option"
  assumes rd_law: "valid s a \<Longrightarrow> \<exists>s'. rd s a = Some (val s a, s') \<and> valid s' = valid s \<and> (\<forall>b. valid s b \<longrightarrow> val s' b = val s b)"
    and wr_law: "valid s a \<Longrightarrow> \<exists>s'. wr s a d = Some s' \<and> valid s' = valid s \<and> val s' a = d AND 0xff
                   \<and> (\<forall>b. valid s b \<longrightarrow> b \<noteq> a \<longrightarrow> val s' b = val s b)"
begin

text \<open>After a sequence of stores an address holds the last byte stored there.\<close>

lemma store_seq_last:
  assumes "\<forall>p\<in>set ps. valid s (fst p)"
  shows "\<exists>s'. store_seq wr ps s = Some s' \<and> valid s' = valid s \<and>
     (\<forall>b. valid s b \<longrightarrow> val s' b = (case map_of (rev ps) b of Some d \<Rightarrow> d AND 0xff | None \<Rightarrow> val s b))"
  using assms
proof (induction ps arbitrary: s)
  case (Cons p ps)
  obtain t where t: "wr s (fst p) (snd p) = Some t" "valid t = valid s" "val t (fst p) = snd p AND 0xff"
    "\<And>b. valid s b \<Longrightarrow> b \<noteq> fst p \<Longrightarrow> val t b = val s b"
    using wr_law [of s "fst p" "snd p"] Cons.prems by auto
  obtain s' where s': "store_seq wr ps t = Some s'" "valid s' = valid t"
    "\<And>b. valid t b \<Longrightarrow> val s' b = (case map_of (rev ps) b of Some d \<Rightarrow> d AND 0xff | None \<Rightarrow> val t b)"
    using Cons.IH [of t] Cons.prems t(2) by auto
  have "map_of (rev (p # ps)) b = (case map_of (rev ps) b of Some d \<Rightarrow> Some d | None \<Rightarrow> if b = fst p then Some (snd p) else None)" for b
    by (cases p) (auto simp: map_add_def split: option.splits)
  then show ?case using t s' by (auto split: option.splits)
qed simp

lemma store_seq_val:
  assumes "\<forall>p\<in>set ps. valid s (fst p)" "distinct (map fst ps)"
  shows "\<exists>s'. store_seq wr ps s = Some s' \<and> valid s' = valid s \<and>
     (\<forall>b. valid s b \<longrightarrow> val s' b = (case map_of ps b of Some d \<Rightarrow> d AND 0xff | None \<Rightarrow> val s b))"
proof -
  have "map_of (rev ps) = map_of ps" using assms(2) by (intro map_of_inject_set [THEN iffD2]) (simp_all add: rev_map [symmetric])
  then show ?thesis using store_seq_last [OF assms(1)] by simp
qed

lemma store_load:
  assumes "\<forall>p\<in>set ps. valid s (fst p)" "valid s b"
  shows "\<exists>s' s''. store_seq wr ps s = Some s' \<and>
     rd s' b = Some (case map_of (rev ps) b of Some d \<Rightarrow> d AND 0xff | None \<Rightarrow> val s b, s'')"
  using store_seq_last [OF assms(1)] rd_law assms(2) by metis

end

text \<open>A byte of RAM: some bank holds it, and the bank reads and writes the word array.\<close>

definition ram_bank :: "'x mem_sys \<Rightarrow> ARMword \<Rightarrow> nat \<Rightarrow> bool" where
  "ram_bank m addr i \<longleftrightarrow> i < length (live_banks m) \<and> bank_hit (mem_banks m ! i) addr
     \<and> mb_read (mem_banks m ! i) = real_read \<and> mb_write (mem_banks m ! i) = real_write"

definition ram_ok :: "'x mstate \<Rightarrow> ARMword \<Rightarrow> bool" where
  "ram_ok s addr \<longleftrightarrow> mem_wf (mach s) \<and> bigendSig s \<le> 1 \<and> remap_addr s addr = addr \<and> (\<exists>i. ram_bank (mach s) addr i)"

lemma ram_ok_wf: "ram_ok s addr \<Longrightarrow> mem_wf (mach s)"
  and ram_ok_remap: "ram_ok s addr \<Longrightarrow> remap_addr s addr = addr"
  by (simp_all add: ram_ok_def)

lemma ram_bank_live: "ram_bank m addr i \<Longrightarrow> i < length (live_banks m)"
  and ram_bank_hit: "ram_bank m addr i \<Longrightarrow> bank_hit (mem_banks m ! i) addr"
  and ram_bank_read: "ram_bank m addr i \<Longrightarrow> mb_read (mem_banks m ! i) = real_read"
  by (simp_all add: ram_bank_def)

lemma bank_ptr_ram:
  assumes "mem_wf m" "ram_bank m addr i"
  shows "\<exists>p. bank_ptr addr m = Some (Some i, m\<lparr>mbp := p\<rparr>) \<and> mem_wf (m\<lparr>mbp := p\<rparr>)"
  using bank_ptr_correct [OF assms(1), of addr] assms(2) by (auto simp: ram_bank_def)

lemma mem_read_sz_real:
  assumes "mem_wf (mach s)" "remap_addr s addr = addr" "i < length (live_banks (mach s))"
    "bank_hit (mem_banks (mach s) ! i) addr" "mb_read (mem_banks (mach s) ! i) = real_read"
  shows "\<exists>p. mem_wf ((mach s)\<lparr>mbp := p\<rparr>) \<and> mem_read_sz B z s addr =
     Some (case z of Byte \<Rightarrow> lane_read 0xff (byte_offset (bigendSig s) addr) (rom_get (mach s) i addr)
           | Halfword \<Rightarrow> lane_read 0xffff (half_offset (bigendSig s) addr) (rom_get (mach s) i addr)
           | Word \<Rightarrow> rom_get (mach s) i addr,
           s\<lparr>mach := (mach s)\<lparr>mbp := p, global_mbp := Some i\<rparr>\<rparr>)"
proof -
  obtain p where p: "bank_ptr addr (mach s) = Some (Some i, (mach s)\<lparr>mbp := p\<rparr>)" "mem_wf ((mach s)\<lparr>mbp := p\<rparr>)"
    using bank_ptr_correct [OF assms(1), of addr] assms(3,4) by auto
  show ?thesis
    using p assms(2,5) by (intro exI [of _ p]) (auto simp: mem_read_sz_def Let_def real_read_sz_def real_read_byte_def
      real_read_halfword_def real_read_word_def rom_get_def rom_index_def split: access_size.splits)
qed

lemmas mem_read_sz_ram = mem_read_sz_real [OF ram_ok_wf ram_ok_remap ram_bank_live ram_bank_hit ram_bank_read]

lemma mem_write_sz_ram:
  assumes "ram_ok s addr" "ram_bank (mach s) addr i"
  shows "\<exists>p. mem_wf ((mach s)\<lparr>mbp := p\<rparr>) \<and> mem_write_sz B z s addr d =
     Some (s\<lparr>mach := rom_upd i addr (case z of Byte \<Rightarrow> lane_write 0xff (byte_offset (bigendSig s) addr) d
           | Halfword \<Rightarrow> lane_write 0xffff (half_offset (bigendSig s) addr) d
           | Word \<Rightarrow> (\<lambda>_. d)) ((mach s)\<lparr>mbp := p, global_mbp := Some i\<rparr>)\<rparr>)"
proof -
  have wf: "mem_wf (mach s)" using assms(1) by (simp add: ram_ok_def)
  obtain p where p: "bank_ptr addr (mach s) = Some (Some i, (mach s)\<lparr>mbp := p\<rparr>)" "mem_wf ((mach s)\<lparr>mbp := p\<rparr>)"
    using bank_ptr_ram [OF wf assms(2)] by blast
  have r: "mb_write (mem_banks (mach s) ! i) = real_write" using assms(2) by (simp add: ram_bank_def)
  show ?thesis
    using p r by (intro exI [of _ p]) (auto simp: mem_write_sz_def Let_def real_write_sz_def real_write_byte_def
      real_write_halfword_def real_write_word_def split: access_size.splits)
qed

lemma live_banks_cong: "mem_banks m' = mem_banks m \<Longrightarrow> live_banks m' = live_banks m"
  by (simp add: live_banks_def)

lemma ram_bank_unique: "mem_wf m \<Longrightarrow> ram_bank m a i \<Longrightarrow> ram_bank m a j \<Longrightarrow> i = j"
  unfolding mem_wf_def ram_bank_def using live_nth by metis

text \<open>The word, the halfword and the byte that RAM holds at an address.\<close>

definition ram_index :: "'x mem_sys \<Rightarrow> ARMword \<Rightarrow> nat" where
  "ram_index m addr = the (find (\<lambda>i. bank_hit (mem_banks m ! i) addr) [0..<length (live_banks m)])"

definition ram_word :: "'x mstate \<Rightarrow> ARMword \<Rightarrow> ARMword" where
  "ram_word s addr = rom_get (mach s) (ram_index (mach s) addr) addr"

definition ram_byte :: "'x mstate \<Rightarrow> ARMword \<Rightarrow> ARMword" where
  "ram_byte s addr = lane_read 0xff (byte_offset (bigendSig s) addr) (ram_word s addr)"

lemma ram_index_bank:
  assumes "mem_wf m" "ram_bank m addr i"
  shows "ram_index m addr = i"
proof -
  let ?P = "\<lambda>i. bank_hit (mem_banks m ! i) addr"
  have "find ?P [0..<length (live_banks m)] \<noteq> None"
    using assms(2) by (auto simp: find_None_iff ram_bank_def)
  then obtain j where j: "find ?P [0..<length (live_banks m)] = Some j" by blast
  then have "?P j" "j < length (live_banks m)" by (auto simp: find_Some_iff)
  then have "i = j" using assms live_nth unfolding mem_wf_def ram_bank_def by metis
  then show ?thesis using j by (simp add: ram_index_def)
qed


text \<open>States that differ in the bank caches and the words only.\<close>

lemma mem_wf_cong:
  "mem_banks m' = mem_banks m \<Longrightarrow> mbp m' = mbp m \<Longrightarrow> mem_wf m' = mem_wf m"
  by (simp add: mem_wf_def live_banks_def)

lemma ram_bank_cong: "mem_banks m' = mem_banks m \<Longrightarrow> ram_bank m' = ram_bank m"
  by (simp add: ram_bank_def live_banks_def fun_eq_iff)

lemma ram_index_cong: "mem_banks m' = mem_banks m \<Longrightarrow> ram_index m' = ram_index m"
  by (simp add: ram_index_def live_banks_def fun_eq_iff)

lemma ram_ok_upd:
  assumes "mem_wf (mach s)" "mem_wf ((mach s)\<lparr>mbp := p\<rparr>)"
  shows "ram_ok (s\<lparr>mach := (mach s)\<lparr>mbp := p, global_mbp := g, rom := r\<rparr>\<rparr>) = ram_ok s"
proof -
  have "mem_wf ((mach s)\<lparr>mbp := p, global_mbp := g, rom := r\<rparr>)"
    using assms(2) by (simp add: mem_wf_def live_banks_def)
  then show ?thesis using assms(1)
    by (simp add: fun_eq_iff ram_ok_def remap_addr_def ram_bank_cong [of "(mach s)\<lparr>mbp := p, global_mbp := g, rom := r\<rparr>" "mach s"])
qed

lemma ram_byte_upd:
  "ram_byte (s\<lparr>mach := (mach s)\<lparr>mbp := p, global_mbp := g, rom := r\<rparr>\<rparr>) a =
     lane_read 0xff (byte_offset (bigendSig s) a) (r (ram_index (mach s) a) (rom_index (mach s) (ram_index (mach s) a) a))"
  by (simp add: ram_byte_def ram_word_def rom_get_def rom_index_def
      ram_index_cong [of "(mach s)\<lparr>mbp := p, global_mbp := g, rom := r\<rparr>" "mach s"])

lemma ram_ok_bank: "ram_ok s a \<Longrightarrow> ram_bank (mach s) a (ram_index (mach s) a)"
  by (auto simp: ram_ok_def ram_index_bank)

lemma ram_read_byte:
  assumes "ram_ok s a"
  shows "\<exists>s'. mem_read_byte B s a = Some (ram_byte s a, s') \<and> ram_ok s' = ram_ok s \<and> (\<forall>b. ram_ok s b \<longrightarrow> ram_byte s' b = ram_byte s b)"
proof -
  obtain p where p: "mem_wf ((mach s)\<lparr>mbp := p\<rparr>)"
    "mem_read_byte B s a = Some (ram_byte s a, s\<lparr>mach := (mach s)\<lparr>mbp := p, global_mbp := Some (ram_index (mach s) a)\<rparr>\<rparr>)"
    using mem_read_sz_ram [OF assms assms ram_ok_bank [OF assms] ram_ok_bank [OF assms] ram_ok_bank [OF assms], of B Byte]
    by (auto simp: mem_read_byte_def ram_byte_def ram_word_def)
  let ?s = "s\<lparr>mach := (mach s)\<lparr>mbp := p, global_mbp := Some (ram_index (mach s) a), rom := rom (mach s)\<rparr>\<rparr>"
  have "ram_ok ?s = ram_ok s" using p(1) assms by (intro ram_ok_upd) (simp_all add: ram_ok_def)
  moreover have "ram_byte ?s b = ram_byte s b" for b
    unfolding ram_byte_upd by (simp add: ram_byte_def ram_word_def rom_get_def)
  ultimately show ?thesis using p(2) by auto
qed

lemma ram_write_byte:
  assumes "ram_ok s a"
  shows "\<exists>s'. mem_write_byte B s a d = Some s' \<and> ram_ok s' = ram_ok s \<and> ram_byte s' a = d AND 0xff
           \<and> (\<forall>b. ram_ok s b \<longrightarrow> b \<noteq> a \<longrightarrow> ram_byte s' b = ram_byte s b)"
proof -
  let ?i = "ram_index (mach s) a" and ?be = "bigendSig s"
  let ?r = "(rom (mach s))(?i := (rom (mach s) ?i)(rom_index (mach s) ?i a :=
     lane_write 0xff (byte_offset ?be a) d (rom (mach s) ?i (rom_index (mach s) ?i a))))"
  have be: "?be = 0 \<or> ?be = 1" using assms by (auto simp: ram_ok_def word_le_nat_alt word_unat_eq_iff)
  obtain p where p: "mem_wf ((mach s)\<lparr>mbp := p\<rparr>)"
    "mem_write_byte B s a d = Some (s\<lparr>mach := rom_upd ?i a (lane_write 0xff (byte_offset ?be a) d) ((mach s)\<lparr>mbp := p, global_mbp := Some ?i\<rparr>)\<rparr>)"
    using mem_write_sz_ram [OF assms ram_ok_bank [OF assms], of B Byte] by (auto simp: mem_write_byte_def)
  let ?s = "s\<lparr>mach := (mach s)\<lparr>mbp := p, global_mbp := Some ?i, rom := ?r\<rparr>\<rparr>"
  have w: "mem_write_byte B s a d = Some ?s" unfolding p(2) by (simp add: rom_upd_def rom_index_def Let_def)
  have ok: "ram_ok ?s = ram_ok s" using p(1) assms by (intro ram_ok_upd) (simp_all add: ram_ok_def)
  have same: "ram_byte ?s a = d AND 0xff" unfolding ram_byte_upd
    using lane_read_write_same [OF byte_offset_le [OF be, of a]] by (simp add: mask_8_16)
  have "ram_byte ?s b = ram_byte s b" if "b \<noteq> a" for b
  proof (cases "ram_index (mach s) b = ?i \<and> rom_index (mach s) ?i b = rom_index (mach s) ?i a")
    case True
    then have "b AND 3 \<noteq> a AND 3" using that rom_cell_inj [of b "mb_addr (mem_banks (mach s) ! ?i)" a]
      by (auto simp: rom_index_def simp flip: word_unat_eq_iff)
    then show ?thesis unfolding ram_byte_upd
      using True lane_read_write_other [OF byte_offset_neq [OF be], of b a]
      by (simp add: mask_8_16 ram_byte_def ram_word_def rom_get_def)
  next
    case False
    then show ?thesis unfolding ram_byte_upd by (auto simp: ram_byte_def ram_word_def rom_get_def)
  qed
  then show ?thesis using w ok same by blast
qed

interpretation ram: byte_memory ram_ok ram_byte "mem_read_byte B" "mem_write_byte B" for B
  by unfold_locales (rule ram_read_byte, assumption, rule ram_write_byte, assumption)


section \<open>Words as bytes\<close>

lemma unat_drop_2: "unat (drop_bit 2 (x :: ARMword)) = unat x div 4"
  unfolding drop_bit_eq_div by (simp add: unat_div)

lemma unat_and_3_mod: "unat (x AND 3 :: ARMword) = unat x mod 4"
  unfolding and_3_take_bit take_bit_eq_mod by (simp add: unat_mod)

lemma unat_aligned_add:
  assumes "x AND 3 = (0 :: ARMword)" "k < 4"
  shows "unat (x + of_nat k) = unat x + k"
proof -
  have m: "unat x mod 4 = 0" using assms(1) unat_and_3_mod [of x] by simp
  have "unat x < 4294967296" using unsigned_less [of x] by simp
  then have "unat x + k < 2 ^ 32" using m assms(2) by simp presburger
  then show ?thesis using assms(2) by (simp add: unat_word_ariths unat_of_nat)
qed

lemma aligned_diff: "a AND 3 = 0 \<Longrightarrow> c AND 3 = 0 \<Longrightarrow> (a - c) AND 3 = (0 :: ARMword)"
  unfolding and_3_take_bit using take_bit_word_diff [of 2 a c] by simp

lemma rom_index_aligned:
  assumes "mb_addr (mem_banks m ! i) AND 3 = 0" "a AND 3 = 0" "k < 4"
  shows "rom_index m i (a + of_nat k) = rom_index m i a"
proof -
  let ?x = "a - mb_addr (mem_banks m ! i)"
  have x: "?x AND 3 = 0" using assms by (simp add: aligned_diff)
  then have "unat ?x mod 4 = 0" using unat_and_3_mod [of ?x] by simp
  then have "(unat ?x + k) div 4 = unat ?x div 4" using assms(3) by presburger
  moreover have e: "a + of_nat k - mb_addr (mem_banks m ! i) = ?x + of_nat k" by simp
  ultimately show ?thesis unfolding rom_index_def unat_drop_2 e unat_aligned_add [OF x assms(3)] by simp
qed

lemma byte_offset_aligned:
  assumes "be = 0 \<or> be = 1" "a AND 3 = 0" "k < 4"
  shows "byte_offset be (a + of_nat k) = 8 * (if be = 0 then k else 3 - k)"
proof -
  have "unat a mod 4 = 0" using assms(2) unat_and_3_mod [of a] by simp
  then have "unat ((a + of_nat k) AND 3) = k"
    unfolding unat_and_3_mod unat_aligned_add [OF assms(2,3)] using assms(3) by presburger
  then show ?thesis using byte_offset_cases [OF assms(1), of "a + of_nat k"] by simp
qed

lemma ram_big: "ram_ok s a \<Longrightarrow> bigendSig s = 0 \<or> bigendSig s = 1"
  by (auto simp: ram_ok_def word_le_nat_alt word_unat_eq_iff)

lemma ram_write_word:
  assumes "ram_ok s a"
  shows "\<exists>p. mem_wf ((mach s)\<lparr>mbp := p\<rparr>) \<and> mem_write_word B s a d =
     Some (s\<lparr>mach := (mach s)\<lparr>mbp := p, global_mbp := Some (ram_index (mach s) a),
       rom := (rom (mach s))(ram_index (mach s) a := (rom (mach s) (ram_index (mach s) a))
         (rom_index (mach s) (ram_index (mach s) a) a := d))\<rparr>\<rparr>)"
  using mem_write_sz_ram [OF assms ram_ok_bank [OF assms], of B Word d]
  by (auto simp: mem_write_word_def rom_upd_def rom_index_def Let_def)

lemma ram_read_word:
  assumes "ram_ok s a"
  shows "\<exists>s'. mem_read_word B s a = Some (ram_word s a, s')"
  using mem_read_sz_ram [OF assms assms ram_ok_bank [OF assms] ram_ok_bank [OF assms] ram_ok_bank [OF assms], of B Word]
  by (auto simp: mem_read_word_def ram_word_def)

text \<open>
  A word written to RAM at an aligned address is read back, and the four byte
  addresses it covers hold its bytes, lowest byte first in the little and last in the
  big byte order.
\<close>

theorem ram_word_bytes:
  assumes "ram_ok s a" "ram_ok s (a + of_nat k)" "ram_bank (mach s) a i" "ram_bank (mach s) (a + of_nat k) i"
    and "mb_addr (mem_banks (mach s) ! i) AND 3 = 0" "a AND 3 = 0" "k < 4"
  shows "\<exists>s1 s2 s3. mem_write_word B s a d = Some s1 \<and> mem_read_word B s1 a = Some (d, s2) \<and>
     mem_read_byte B s1 (a + of_nat k) = Some (lane_read 0xff (8 * (if bigendSig s = 0 then k else 3 - k)) d, s3)"
proof -
  have wf: "mem_wf (mach s)" using assms(1) by (simp add: ram_ok_def)
  have i: "ram_index (mach s) a = i" "ram_index (mach s) (a + of_nat k) = i"
    using ram_index_bank [OF wf] assms(3,4) by blast+
  have ri: "rom_index (mach s) i (a + of_nat k) = rom_index (mach s) i a"
    by (rule rom_index_aligned) (use assms in auto)
  obtain p where p: "mem_wf ((mach s)\<lparr>mbp := p\<rparr>)" "mem_write_word B s a d =
     Some (s\<lparr>mach := (mach s)\<lparr>mbp := p, global_mbp := Some i, rom := (rom (mach s))(i := (rom (mach s) i)(rom_index (mach s) i a := d))\<rparr>\<rparr>)"
    (is "_ = Some ?s")
    using ram_write_word [OF assms(1), of B d] unfolding i by blast
  have ok: "ram_ok ?s = ram_ok s" by (rule ram_ok_upd [OF wf p(1)])
  have "ram_index (mach ?s) a = i" using i(1) ram_index_cong [of "mach ?s" "mach s"] by simp
  then have "ram_word ?s a = d" unfolding ram_word_def by (simp add: rom_get_def rom_index_def)
  moreover have "ram_byte ?s (a + of_nat k) = lane_read 0xff (8 * (if bigendSig s = 0 then k else 3 - k)) d"
    unfolding ram_byte_upd i ri using byte_offset_aligned [OF ram_big [OF assms(1)] assms(6,7)] by simp
  ultimately show ?thesis
    using p(2) ram_read_word [of ?s a B] ram_read_byte [of ?s "a + of_nat k" B] assms(1,2) ok by metis
qed

section \<open>The words a reset loads\<close>

lemma swap_loop_word:
  "4 dvd s \<Longrightarrow> swap_loop be p sz s w k = (if s \<le> 4 * k \<and> 4 * k < sz then swap_word be p (4 * k) else w k)"
proof (induction be p sz s w rule: swap_loop.induct)
  case (1 be p sz s w)
  show ?case
  proof (cases "s < sz")
    case True
    have "swap_loop be p sz s w k = swap_loop be p sz (s + 4) (w(s div 4 := swap_word be p s)) k"
      using True by (simp add: swap_loop.simps [of be p sz s w])
    also have "\<dots> = (if s + 4 \<le> 4 * k \<and> 4 * k < sz then swap_word be p (4 * k) else (w(s div 4 := swap_word be p s)) k)"
      by (rule 1(1) [OF True]) (use 1(2) in simp)
    also have "\<dots> = (if s \<le> 4 * k \<and> 4 * k < sz then swap_word be p (4 * k) else w k)"
      using 1(2) True by (elim dvdE) auto
    finally show ?thesis .
  next
    case False
    then show ?thesis by (subst swap_loop.simps) auto
  qed
qed

lemma bit_ucast_byte: "bit (ucast (b :: 8 word) :: ARMword) n \<longleftrightarrow> n < 8 \<and> bit b n"
  by (auto simp: bit_simps dest: bit_imp_le_length)

lemma lane_8_eqI:
  assumes "\<And>n. n < 8 \<Longrightarrow> bit w (ofs + n) = bit b n"
  shows "lane_read 0xff ofs (w :: ARMword) = ucast (b :: 8 word)"
  unfolding mask_8_16 [symmetric] lane_read_def
  by (intro bit_word_eqI) (use assms in \<open>auto simp: bit_and_iff bit_drop_bit_eq bit_mask_iff bit_ucast_byte\<close>)

lemma swap_word_lane:
  assumes "be = 0 \<or> be = 1" "r < 4"
  shows "lane_read 0xff (8 * (if be = 0 then r else 3 - r)) (swap_word be p n) = ucast (p (n + r))"
proof (rule lane_8_eqI)
  fix k :: nat
  assume k: "k < 8"
  have r: "r = 0 \<or> r = 1 \<or> r = 2 \<or> r = 3" using assms(2) by linarith
  show "bit (swap_word be p n) (8 * (if be = 0 then r else 3 - r) + k) = bit (p (n + r)) k"
    using assms(1) r k by (elim disjE) (simp_all add: swap_word_def bit_or_iff bit_push_bit_iff bit_ucast_byte)
qed

text \<open>The words of a bank after a reset that did not exit.\<close>

definition bank_image :: "os_env \<Rightarrow> ARMword \<Rightarrow> mem_bank_t \<Rightarrow> nat \<Rightarrow> (nat \<Rightarrow> ARMword) \<Rightarrow> nat \<Rightarrow> ARMword" where
  "bank_image E be mb i w =
     (case os_malloc E i (mb_len mb) of
        Some p \<Rightarrow>
          (case os_fopen E (mb_filename mb) of
             Some f \<Rightarrow> swap_loop be (fread_bytes f (unat (mb_len mb)) p) (unat (mb_len mb)) 0 (\<lambda>k. swap_word LOW p (4 * k))
           | None \<Rightarrow> (\<lambda>k. swap_word LOW p (4 * k)))
      | None \<Rightarrow> w)"

lemma mem_reset_bank_rom:
  assumes "mem_reset_bank E j s = Some s'"
  shows "\<exists>r z. s' = s\<lparr>mach := (mach s)\<lparr>rom_size := z, rom := r\<rparr>\<rparr> \<and> (\<forall>i. i \<noteq> j \<longrightarrow> r i = rom (mach s) i)
     \<and> (mb_type (mem_banks (mach s) ! j) \<noteq> MEMTYPE_IO \<longrightarrow>
          os_malloc E j (mb_len (mem_banks (mach s) ! j)) \<noteq> None \<and>
          r j = bank_image E (bigendSig s) (mem_banks (mach s) ! j) j (rom (mach s) j))"
proof -
  let ?z = "(rom_size (mach s))(j := mb_len (mem_banks (mach s) ! j))"
  have eq: "s\<lparr>mach := (mach s)\<lparr>rom_size := ?z\<rparr>\<rparr> = s\<lparr>mach := (mach s)\<lparr>rom_size := ?z, rom := rom (mach s)\<rparr>\<rparr>"
    by simp
  show ?thesis
  proof (cases "mb_type (mem_banks (mach s) ! j) = MEMTYPE_IO")
    case True
    then have "s' = s\<lparr>mach := (mach s)\<lparr>rom_size := ?z\<rparr>\<rparr>" using assms by (simp add: mem_reset_bank_def Let_def)
    then show ?thesis unfolding eq using True by blast
  next
    case False
    let ?w = "bank_image E (bigendSig s) (mem_banks (mach s) ! j) j (rom (mach s) j)"
    have "s' = s\<lparr>mach := (mach s)\<lparr>rom_size := ?z, rom := (rom (mach s))(j := ?w)\<rparr>\<rparr>"
    proof (cases "os_malloc E j (mb_len (mem_banks (mach s) ! j))")
      case None
      then show ?thesis using assms False by (simp add: mem_reset_bank_def Let_def)
    next
      case (Some p)
      then show ?thesis
      proof (cases "os_fopen E (mb_filename (mem_banks (mach s) ! j))")
        case None
        then show ?thesis using assms False Some
          by (simp add: mem_reset_bank_def bank_image_def Let_def split: if_splits)
      next
        case (Some f)
        then show ?thesis using assms False \<open>os_malloc _ _ _ = _\<close>
          by (simp add: mem_reset_bank_def bank_image_def Let_def split: if_splits)
      qed
    qed
    moreover have "os_malloc E j (mb_len (mem_banks (mach s) ! j)) \<noteq> None"
      using assms False unfolding mem_reset_bank_def Let_def by (auto split: option.splits)
    ultimately show ?thesis by auto
  qed
qed

lemma mem_reset_loop_rom:
  assumes "mem_reset_loop E is s = Some s'" "distinct is"
  shows "\<exists>r z. s' = s\<lparr>mach := (mach s)\<lparr>rom_size := z, rom := r\<rparr>\<rparr> \<and> (\<forall>i. i \<notin> set is \<longrightarrow> r i = rom (mach s) i)
     \<and> (\<forall>i\<in>set is. mb_type (mem_banks (mach s) ! i) \<noteq> MEMTYPE_IO \<longrightarrow>
          os_malloc E i (mb_len (mem_banks (mach s) ! i)) \<noteq> None \<and>
          r i = bank_image E (bigendSig s) (mem_banks (mach s) ! i) i (rom (mach s) i))"
  using assms
proof (induction "is" arbitrary: s)
  case Nil
  then show ?case by (intro exI [of _ "rom (mach s)"] exI [of _ "rom_size (mach s)"]) simp
next
  case (Cons j js)
  obtain t where t: "mem_reset_bank E j s = Some t" "mem_reset_loop E js t = Some s'"
    using Cons.prems(1) by (auto split: option.splits)
  obtain r z where r: "t = s\<lparr>mach := (mach s)\<lparr>rom_size := z, rom := r\<rparr>\<rparr>" "\<forall>i. i \<noteq> j \<longrightarrow> r i = rom (mach s) i"
     "mb_type (mem_banks (mach s) ! j) \<noteq> MEMTYPE_IO \<Longrightarrow>
       os_malloc E j (mb_len (mem_banks (mach s) ! j)) \<noteq> None \<and> r j = bank_image E (bigendSig s) (mem_banks (mach s) ! j) j (rom (mach s) j)"
    using mem_reset_bank_rom [OF t(1)] by blast
  obtain r' z' where r': "s' = t\<lparr>mach := (mach t)\<lparr>rom_size := z', rom := r'\<rparr>\<rparr>" "\<forall>i. i \<notin> set js \<longrightarrow> r' i = rom (mach t) i"
    "\<forall>i\<in>set js. mb_type (mem_banks (mach t) ! i) \<noteq> MEMTYPE_IO \<longrightarrow>
          os_malloc E i (mb_len (mem_banks (mach t) ! i)) \<noteq> None \<and>
          r' i = bank_image E (bigendSig t) (mem_banks (mach t) ! i) i (rom (mach t) i)"
    using Cons.IH [OF t(2)] Cons.prems(2) by auto
  have "s' = s\<lparr>mach := (mach s)\<lparr>rom_size := z', rom := r'\<rparr>\<rparr>" using r(1) r'(1) by simp
  moreover have "j \<notin> set js" using Cons.prems(2) by simp
  moreover from this have "\<forall>i\<in>set js. r i = rom (mach s) i" using r(2) by auto
  ultimately show ?case using r r' by (intro exI [of _ r'] exI [of _ z']) auto
qed

lemma bank_hit_offset:
  assumes "unat (mb_addr b) + unat (mb_len b) \<le> 2 ^ 32" "k < unat (mb_len b)"
  shows "bank_hit b (mb_addr b + of_nat k)"
proof -
  have "k < 2 ^ 32" "unat (mb_addr b) + k < 2 ^ 32" using assms by simp_all
  then have "unat (of_nat k :: ARMword) = k" "unat (mb_addr b + of_nat k) = unat (mb_addr b) + k"
    by (simp_all add: unat_word_ariths unat_of_nat)
  then show ?thesis using assms(2) by (simp add: bank_hit_def word_le_nat_alt word_less_nat_alt)
qed

lemma bank_image_byte:
  assumes "os_malloc E i (mb_len mb) = Some p" "os_fopen E (mb_filename mb) = Some f"
    and "k < length f" "k < unat (mb_len mb)" "be = 0 \<or> be = 1"
  shows "lane_read 0xff (8 * (if be = 0 then k mod 4 else 3 - k mod 4)) (bank_image E be mb i w (k div 4)) = ucast (f ! k)"
proof -
  let ?p = "fread_bytes f (unat (mb_len mb)) p"
  have "4 * (k div 4) + k mod 4 = k" by simp
  then have "4 * (k div 4) < unat (mb_len mb)" using assms(4) by linarith
  then have "bank_image E be mb i w (k div 4) = swap_word be ?p (4 * (k div 4))"
    unfolding bank_image_def assms(1,2) option.case by (subst swap_loop_word) simp_all
  then show ?thesis
    using assms(3,4) swap_word_lane [OF assms(5), of "k mod 4" ?p "4 * (k div 4)"] by (simp add: fread_bytes_def)
qed

lemma and_3_of_nat: "(of_nat (4 * q) :: ARMword) AND 3 = 0"
proof -
  have "unat ((of_nat (4 * q) :: ARMword) AND 3) = 0"
    unfolding unat_and_3_mod unat_of_nat by (simp add: mod_mod_cancel)
  then show ?thesis by (simp only: unat_eq_0)
qed

lemma aligned_add: "a AND 3 = 0 \<Longrightarrow> c AND 3 = 0 \<Longrightarrow> (a + c) AND 3 = (0 :: ARMword)"
  using aligned_diff [of a "a - (a + c)"] aligned_diff [of a "a + c"] aligned_diff [of 0 c] aligned_diff [of a "- c"] by simp

text \<open>
  After a reset that succeeds, byte \<open>k\<close> of the file of a RAM or ROM bank is what
  a byte read at the bank's address plus \<open>k\<close> returns, in both byte orders.
\<close>

theorem mem_reset_loads:
  assumes "mem_reset E s = Some s'" "mem_wf (mach s)" "bigendSig s \<le> 1" "vector_remap_flag s = 0"
    and "i < length (live_banks (mach s))" "i < current_num (mach s)"
    and "mem_banks (mach s) ! i = mb" "mb_type mb \<noteq> MEMTYPE_IO" "mb_read mb = real_read"
    and "mb_addr mb AND 3 = 0" "unat (mb_addr mb) + unat (mb_len mb) \<le> 2 ^ 32"
    and "os_fopen E (mb_filename mb) = Some f" "k < length f" "k < unat (mb_len mb)"
  shows "\<exists>s''. mem_read_byte B s' (mb_addr mb + of_nat k) = Some (ucast (f ! k), s'')"
proof -
  let ?a = "mb_addr mb + of_nat k" and ?q = "k div 4"
  have be: "bigendSig s = 0 \<or> bigendSig s = 1" using assms(3) by (auto simp: word_le_nat_alt word_unat_eq_iff)
  obtain r z where s': "s' = s\<lparr>mach := (mach s)\<lparr>rom_size := z, rom := r\<rparr>\<rparr>"
    and r: "r i = bank_image E (bigendSig s) mb i (rom (mach s) i)" and m: "os_malloc E i (mb_len mb) \<noteq> None"
    using mem_reset_loop_rom [OF assms(1) [unfolded mem_reset_def] distinct_upt] assms(6-8)
    unfolding assms(7) [symmetric] by (metis atLeastLessThan_iff set_upt zero_le)
  obtain p where p: "os_malloc E i (mb_len mb) = Some p" using m by blast
  have "mem_wf (mach s')" using assms(2) s' by (simp add: mem_wf_def live_banks_def)
  moreover have "i < length (live_banks (mach s'))" using assms(5) s' by (simp add: live_banks_def)
  moreover have "bank_hit (mem_banks (mach s') ! i) ?a" using bank_hit_offset [OF assms(11,14)] s' assms(7) by simp
  ultimately obtain s'' where s'': "mem_read_byte B s' ?a =
      Some (lane_read 0xff (byte_offset (bigendSig s') ?a) (rom_get (mach s') i ?a), s'')"
    using mem_read_sz_real [of s' ?a i B Byte] assms(4,7,9) s' by (auto simp: mem_read_byte_def remap_addr_def)
  have q: "?a = (mb_addr mb + of_nat (4 * ?q)) + of_nat (k mod 4)"
    by (metis (no_types) add.assoc mult_div_mod_eq of_nat_add)
  have al: "(mb_addr mb + of_nat (4 * ?q)) AND 3 = 0" using assms(10) and_3_of_nat by (rule aligned_add)
  have "byte_offset (bigendSig s') ?a = 8 * (if bigendSig s = 0 then k mod 4 else 3 - k mod 4)"
    unfolding q using byte_offset_aligned [OF be al, of "k mod 4"] s' by simp
  moreover have "k < 4294967296" using assms(14) assms(11) by simp
  moreover from this have "rom_index (mach s') i ?a = ?q"
    using assms(7,14) s' unat_drop_2 [of "of_nat k"] by (simp add: rom_index_def unat_of_nat)
  ultimately show ?thesis using s'' r s' bank_image_byte [OF p assms(12-14) be]
    by (simp add: rom_get_def)
qed

section \<open>An example memory map\<close>

text \<open>ROM at 0, RAM at \<open>0x40000000\<close> and I/O at \<open>0xe0000000\<close>, as an LPC2300 has them.\<close>

definition ex_banks :: "mem_bank_t list" where
  "ex_banks =
     [\<lparr>mb_addr = 0, mb_len = 0x80000, mb_read = real_read, mb_write = warn_write, mb_filename = ''rom.bin'', mb_type = MEMTYPE_ROM\<rparr>,
      \<lparr>mb_addr = 0x40000000, mb_len = 0x8000, mb_read = real_read, mb_write = real_write, mb_filename = [], mb_type = MEMTYPE_RAM\<rparr>,
      \<lparr>mb_addr = 0xe0000000, mb_len = 0x1fffffff, mb_read = io_read, mb_write = io_write, mb_filename = [], mb_type = MEMTYPE_IO\<rparr>,
      \<lparr>mb_addr = 0, mb_len = 0, mb_read = null_read, mb_write = null_write, mb_filename = [], mb_type = MEMTYPE_IO\<rparr>]"

definition ex_mem :: "unit mem_sys" where
  "ex_mem = \<lparr>current_num = 3, mem_banks = ex_banks, mbp = None, global_mbp = None,
     rom = (\<lambda>_ _. 0), rom_size = (\<lambda>_. 0), iosys = ()\<rparr>"

definition ex_ms :: "unit mstate" where
  "ex_ms = ARMul_NewState ex_mem"

lemma bank_hit_bounds: "bank_hit b a \<Longrightarrow> unat (mb_addr b) \<le> unat a \<and> unat a < unat (mb_addr b) + unat (mb_len b)"
  by (auto simp: bank_hit_def word_le_nat_alt word_less_nat_alt unat_sub)

lemma mem_wf_bounds:
  assumes "length (live_banks m) < length (mem_banks m)" "mbp m = None"
    and "\<And>i j. i < j \<Longrightarrow> j < length (live_banks m) \<Longrightarrow>
           unat (mb_addr (live_banks m ! i)) + unat (mb_len (live_banks m ! i)) \<le> unat (mb_addr (live_banks m ! j))"
  shows "mem_wf m"
proof -
  have "i = j" if "i < length (live_banks m)" "j < length (live_banks m)"
     "bank_hit (live_banks m ! i) a" "bank_hit (live_banks m ! j) a" for i j a
    using bank_hit_bounds [OF that(3)] bank_hit_bounds [OF that(4)] assms(3) [of i j] assms(3) [of j i] that(1,2)
    by (cases i j rule: linorder_cases) auto
  then show ?thesis using assms(1,2) unfolding mem_wf_def by (metis option.distinct(1))
qed

lemma ex_live: "live_banks ex_mem = take 3 ex_banks"
  by (simp add: live_banks_def ex_mem_def ex_banks_def)

lemma ex_mem_wf: "mem_wf ex_mem"
proof (rule mem_wf_bounds)
  show "length (live_banks ex_mem) < length (mem_banks ex_mem)" unfolding ex_live by (simp add: ex_mem_def ex_banks_def)
  show "mbp ex_mem = None" by (simp add: ex_mem_def)
  fix i j :: nat
  assume "i < j" "j < length (live_banks ex_mem)"
  then have "i = 0 \<and> j = 1 \<or> i = 0 \<and> j = 2 \<or> i = 1 \<and> j = 2" unfolding ex_live by (auto simp: ex_banks_def)
  then show "unat (mb_addr (live_banks ex_mem ! i)) + unat (mb_len (live_banks ex_mem ! i)) \<le> unat (mb_addr (live_banks ex_mem ! j))"
    unfolding ex_live by (auto simp: ex_banks_def)
qed

lemma ex_ram: 
  assumes "a = 0x40000000 \<or> a = 0x40000001 \<or> a = 0x40000002"
  shows "ram_bank ex_mem a 1" and "ram_ok ex_ms a"
proof -
  show "ram_bank ex_mem a 1" using assms unfolding ram_bank_def ex_live
    by (auto simp: ex_mem_def ex_banks_def bank_hit_def)
  then show "ram_ok ex_ms a" using ex_mem_wf by (auto simp: ram_ok_def ex_ms_def ARMul_NewState_def remap_addr_def)
qed

text \<open>
  On a well-formed table the bank lookup, with whatever the cached bank is, returns
  what the uncached search returns, which is the one bank that holds the address, and it
  changes nothing but the cache.
\<close>

theorem bank_ptr_lookup:
  assumes "mem_wf m"
  shows "\<exists>r p. bank_ptr addr m = Some (r, m\<lparr>mbp := p\<rparr>) \<and> mem_wf (m\<lparr>mbp := p\<rparr>)
     \<and> map_option fst (bank_search (mem_banks m) 0 addr) = Some r
     \<and> (\<forall>i. r = Some i \<longleftrightarrow> i < length (live_banks m) \<and> bank_hit (mem_banks m ! i) addr)"
proof -
  have "length (takeWhile (\<lambda>b. mb_len b \<noteq> 0) (mem_banks m)) < length (mem_banks m)"
    using assms by (simp add: mem_wf_def live_banks_def)
  from bank_search_spec [OF this, of 0 addr] obtain q p where q: "bank_search (mem_banks m) 0 addr = Some (q, p)"
     "q = None \<and> (\<forall>j<length (live_banks m). \<not> bank_hit (live_banks m ! j) addr)
      \<or> (\<exists>j<length (live_banks m). q = Some j \<and> bank_hit (live_banks m ! j) addr)"
    unfolding live_banks_def by auto
  obtain r p' where r: "bank_ptr addr m = Some (r, m\<lparr>mbp := p'\<rparr>)" "mem_wf (m\<lparr>mbp := p'\<rparr>)"
     "\<forall>i. r = Some i \<longleftrightarrow> i < length (live_banks m) \<and> bank_hit (mem_banks m ! i) addr"
    using bank_ptr_correct [OF assms, of addr] by blast
  have "q = r" using q(2) r(3) live_nth by (metis not_Some_eq)
  then show ?thesis using q(1) r by auto
qed

theorem bank_ptr_lookup_witness:
  "map_option fst (bank_ptr 0x40000010 ex_mem) = Some (Some 1)"
  using bank_ptr_lookup [OF ex_mem_wf, of "0x40000010"]
  by (auto simp: ex_mem_def ex_banks_def bank_hit_def)

text \<open>
  C16: after any sequence of byte writes to RAM, a byte read returns the low byte of the last write to its address,
  or what it returned before if the address was not written, in both byte orders.
\<close>

theorem ram_store_load:
  assumes "\<forall>p\<in>set ps. ram_ok s (fst p)" "ram_ok s b"
  shows "\<exists>s' s''. store_seq (mem_write_byte B) ps s = Some s' \<and>
     mem_read_byte B s' b =
       Some (case map_of (rev ps) b of Some d \<Rightarrow> d AND 0xff | None \<Rightarrow> fst (the (mem_read_byte B s b)), s'')"
  using ram.store_load [OF assms, of B] ram_read_byte [OF assms(2), of B]
  by (metis fst_conv option.sel)

theorem ram_store_load_witness:
  "\<exists>s' s''. store_seq (mem_write_byte undefined) [(0x40000001, 9), (0x40000002, 7), (0x40000001, 0x1ab)] ex_ms = Some s' \<and>
     mem_read_byte undefined s' 0x40000001 = Some (0xab, s'')"
  using ram_store_load [of "[(0x40000001, 9), (0x40000002, 7), (0x40000001, 0x1ab)]" ex_ms "0x40000001" undefined] ex_ram(2)
  by simp

theorem ram_word_bytes_witness:
  "\<exists>s1 s3. mem_write_word undefined ex_ms 0x40000000 0x11223344 = Some s1 \<and>
     mem_read_byte undefined s1 0x40000001 = Some (0x33, s3)"
  using ram_word_bytes [of ex_ms "0x40000000" 1 1 undefined "0x11223344"] ex_ram [of "0x40000000"] ex_ram [of "0x40000001"]
  by (auto simp: ex_ms_def ARMul_NewState_def ex_mem_def ex_banks_def lane_read_def)

definition ex_os :: os_env where
  "ex_os = \<lparr>os_malloc = (\<lambda>_ _. Some (\<lambda>_. 0)), os_fopen = (\<lambda>n. if n = ''rom.bin'' then Some [1, 2, 3, 4, 5] else None)\<rparr>"

theorem mem_reset_loads_witness:
  "\<exists>s' s''. mem_reset ex_os ex_ms = Some s' \<and> mem_read_byte undefined s' 2 = Some (3, s'')"
proof -
  have m: "mach ex_ms = ex_mem" "bigendSig ex_ms = 0" "vector_remap_flag ex_ms = 0"
    by (simp_all add: ex_ms_def ARMul_NewState_def)
  have "\<exists>s'. mem_reset ex_os ex_ms = Some s'"
    by (simp add: mem_reset_def m ex_mem_def ex_banks_def upt_rec mem_reset_bank_def ex_os_def Let_def)
  then obtain s' where s': "mem_reset ex_os ex_ms = Some s'" by blast
  have b: "ex_banks ! 0 = hd ex_banks" "mem_banks ex_mem = ex_banks" "current_num ex_mem = 3"
    by (simp_all add: ex_mem_def ex_banks_def)
  have "\<exists>s''. mem_read_byte undefined s' (mb_addr (hd ex_banks) + of_nat 2) = Some (ucast ([1, 2, 3, 4, 5 :: 8 word] ! 2), s'')"
    by (rule mem_reset_loads [OF s', of 0]) (simp_all add: m b ex_mem_wf ex_live, simp_all add: ex_banks_def ex_os_def)
  then show ?thesis using s' by (simp add: ex_banks_def)
qed

end
