(* ===== verification/Arm_Tlb.thy ===== *)
theory Arm_Tlb
  imports Arm_Mem
begin

text \<open>
  Address translation (\<open>mmu/tlb.c\<close>): the translation lookaside buffer, the walk of the
  one- or two-level tables in memory, and the check of domains and permissions.  The
  buffer a C function gets as a pointer is passed and returned.
\<close>

section \<open>Faults and control bits\<close>

datatype fault_t =
    NO_FAULT | ALIGNMENT_FAULT | SECTION_TRANSLATION_FAULT | PAGE_TRANSLATION_FAULT
  | SECTION_DOMAIN_FAULT | PAGE_DOMAIN_FAULT | SECTION_PERMISSION_FAULT | SUBPAGE_PERMISSION_FAULT

fun fault_code :: "fault_t \<Rightarrow> ARMword" where
  "fault_code NO_FAULT = 0x0"
| "fault_code ALIGNMENT_FAULT = 0x1"
| "fault_code SECTION_TRANSLATION_FAULT = 0x5"
| "fault_code PAGE_TRANSLATION_FAULT = 0x7"
| "fault_code SECTION_DOMAIN_FAULT = 0x9"
| "fault_code PAGE_DOMAIN_FAULT = 0xB"
| "fault_code SECTION_PERMISSION_FAULT = 0xD"
| "fault_code SUBPAGE_PERMISSION_FAULT = 0xF"

abbreviation (input) CONTROL_MMU :: ARMword where "CONTROL_MMU \<equiv> 0x1"
abbreviation (input) CONTROL_ALIGN_FAULT :: ARMword where "CONTROL_ALIGN_FAULT \<equiv> 0x2"
abbreviation (input) CONTROL_CACHE :: ARMword where "CONTROL_CACHE \<equiv> 0x4"
abbreviation (input) CONTROL_SYSTEM :: ARMword where "CONTROL_SYSTEM \<equiv> 0x100"
abbreviation (input) CONTROL_ROM :: ARMword where "CONTROL_ROM \<equiv> 0x200"

definition control_bit :: "'m ARMul_State \<Rightarrow> ARMword \<Rightarrow> bool" where
  "control_bit s b \<longleftrightarrow> control (mmu s) AND b \<noteq> 0"

section \<open>The buffer\<close>

datatype tlb_mapping_t =
  TLB_INVALID | TLB_SMALLPAGE | TLB_LARGEPAGE | TLB_SECTION | TLB_ESMALLPAGE | TLB_TINYPAGE

fun tlb_masks :: "tlb_mapping_t \<Rightarrow> ARMword" where
  "tlb_masks TLB_INVALID = 0x00000000"
| "tlb_masks TLB_SMALLPAGE = 0xFFFFF000"
| "tlb_masks TLB_LARGEPAGE = 0xFFFF0000"
| "tlb_masks TLB_SECTION = 0xFFF00000"
| "tlb_masks TLB_ESMALLPAGE = 0xFFFFF000"
| "tlb_masks TLB_TINYPAGE = 0xFFFFFC00"

record tlb_entry_t =
  te_virt_addr :: ARMword
  te_phys_addr :: ARMword
  te_perms :: ARMword
  te_domain :: ARMword
  te_mapping :: tlb_mapping_t

text \<open>The field \<open>num\<close> of the C structure is the length of \<open>tlb_entrys\<close>.\<close>

record tlb_t =
  tlb_cycle :: nat
  tlb_entrys :: "tlb_entry_t list"

definition tlb_va_to_pa :: "tlb_entry_t \<Rightarrow> ARMword \<Rightarrow> ARMword" where
  "tlb_va_to_pa e va =
     (let m = tlb_masks (te_mapping e) in (te_phys_addr e AND m) OR (va AND NOT m))"

definition tlb_hit :: "ARMword \<Rightarrow> tlb_entry_t \<Rightarrow> bool" where
  "tlb_hit va e \<longleftrightarrow> te_mapping e \<noteq> TLB_INVALID \<and>
     va AND tlb_masks (te_mapping e) = te_virt_addr e AND tlb_masks (te_mapping e)"

definition mmu_tlb_search :: "tlb_t \<Rightarrow> ARMword \<Rightarrow> nat option" where
  "mmu_tlb_search t va = first_from (tlb_hit va) 0 (tlb_entrys t)"

text \<open>\<open>fresh\<close> is what \<open>malloc\<close> left in the entries.\<close>

definition mmu_tlb_init :: "nat \<Rightarrow> (nat \<Rightarrow> tlb_entry_t) \<Rightarrow> tlb_t" where
  "mmu_tlb_init num fresh =
     \<lparr>tlb_cycle = 0, tlb_entrys = map (\<lambda>i. (fresh i)\<lparr>te_mapping := TLB_INVALID\<rparr>) [0..<num]\<rparr>"

definition mmu_tlb_invalidate_all :: "tlb_t \<Rightarrow> tlb_t" where
  "mmu_tlb_invalidate_all t =
     t\<lparr>tlb_entrys := map (\<lambda>e. e\<lparr>te_mapping := TLB_INVALID\<rparr>) (tlb_entrys t), tlb_cycle := 0\<rparr>"

definition mmu_tlb_invalidate_entry :: "tlb_t \<Rightarrow> ARMword \<Rightarrow> tlb_t" where
  "mmu_tlb_invalidate_entry t addr =
     (case mmu_tlb_search t addr of
        None \<Rightarrow> t
      | Some i \<Rightarrow> t\<lparr>tlb_entrys := (tlb_entrys t)[i := (tlb_entrys t ! i)\<lparr>te_mapping := TLB_INVALID\<rparr>]\<rparr>)"

section \<open>Permissions\<close>

definition check_perms :: "'m ARMul_State \<Rightarrow> ARMword \<Rightarrow> bool \<Rightarrow> bool" where
  "check_perms s ap rd =
     (let sys = control_bit s CONTROL_SYSTEM;
          r = control_bit s CONTROL_ROM;
          user = (Mode s = USER32MODE \<or> Mode s = USER26MODE \<or> Mode s = SYSTEM32MODE) in
      if ap = 0 then rd \<and> ((sys \<and> \<not> user) \<or> r)
      else if ap = 1 then \<not> user
      else if ap = 2 then rd \<or> \<not> user
      else ap = 3)"

fun tlb_subpage :: "tlb_mapping_t \<Rightarrow> ARMword \<Rightarrow> ARMword option" where
  "tlb_subpage TLB_ESMALLPAGE va = Some 0"
| "tlb_subpage TLB_TINYPAGE va = Some 0"
| "tlb_subpage TLB_SMALLPAGE va = Some (drop_bit 10 va AND 3)"
| "tlb_subpage TLB_LARGEPAGE va = Some (drop_bit 14 va AND 3)"
| "tlb_subpage TLB_SECTION va = Some 3"
| "tlb_subpage TLB_INVALID va = None"

text \<open>\<open>None\<close> is the failing \<open>assert\<close> on an entry that maps nothing.\<close>

definition check_access :: "'m ARMul_State \<Rightarrow> ARMword \<Rightarrow> tlb_entry_t \<Rightarrow> bool \<Rightarrow> (fault_t \<times> 'm ARMul_State) option" where
  "check_access s va e rd =
     (let s = s\<lparr>mmu := (mmu s)\<lparr>last_domain := te_domain e\<rparr>\<rparr>;
          acc = drop_bit (unat (te_domain e * 2)) (domain_access_control (mmu s)) AND 3 in
      if acc = 0 \<or> acc = 2 then Some (SECTION_DOMAIN_FAULT, s)
      else if acc = 1 then
        (case tlb_subpage (te_mapping e) va of
           None \<Rightarrow> None
         | Some subpage \<Rightarrow>
             (let ap = drop_bit (unat (subpage * 2 + 4)) (te_perms e) AND 3 in
              if \<not> check_perms s ap rd then
                Some (if te_mapping e = TLB_SECTION then SECTION_PERMISSION_FAULT else SUBPAGE_PERMISSION_FAULT, s)
              else Some (NO_FAULT, s)))
      else Some (NO_FAULT, s))"

section \<open>The table walk\<close>

definition l1_addr :: "'m ARMul_State \<Rightarrow> ARMword \<Rightarrow> ARMword" where
  "l1_addr s va = ((translation_table_base (mmu s) AND 0xFFFFC000) OR drop_bit 18 va) AND NOT 3"

definition fine_addr :: "ARMword \<Rightarrow> ARMword \<Rightarrow> ARMword" where
  "fine_addr l1desc va = ((l1desc AND 0xFFFFF000) OR drop_bit 8 (va AND 0x000FFC00)) AND NOT 3"

definition coarse_addr :: "ARMword \<Rightarrow> ARMword \<Rightarrow> ARMword" where
  "coarse_addr l1desc va = ((l1desc AND 0xFFFFFC00) OR drop_bit 10 (va AND 0x000FF000)) AND NOT 3"

definition page_entry :: "ARMword \<Rightarrow> ARMword \<Rightarrow> ARMword \<Rightarrow> tlb_mapping_t \<Rightarrow> tlb_entry_t" where
  "page_entry va l1desc l2desc m =
     \<lparr>te_virt_addr = va, te_phys_addr = l2desc, te_perms = l2desc AND 0xFFC,
      te_domain = drop_bit 5 l1desc AND 0xF, te_mapping = m\<rparr>"

definition section_entry :: "ARMword \<Rightarrow> ARMword \<Rightarrow> tlb_entry_t" where
  "section_entry va l1desc =
     \<lparr>te_virt_addr = va, te_phys_addr = l1desc, te_perms = l1desc AND 0xC0C,
      te_domain = drop_bit 5 l1desc AND 0xF, te_mapping = TLB_SECTION\<rparr>"

text \<open>The mapping of a second-level descriptor, or \<open>None\<close> where the walk faults.\<close>

definition fine_mapping :: "ARMword \<Rightarrow> tlb_mapping_t option" where
  "fine_mapping l2desc =
     (let k = l2desc AND 3 in
      if k = 0 then None else if k = 3 then Some TLB_TINYPAGE
      else if k = 1 then Some TLB_LARGEPAGE else Some TLB_SMALLPAGE)"

definition coarse_mapping :: "bool \<Rightarrow> ARMword \<Rightarrow> tlb_mapping_t option" where
  "coarse_mapping xscale l2desc =
     (let k = l2desc AND 3 in
      if k = 0 then None
      else if k = 3 then (if xscale then Some TLB_ESMALLPAGE else None)
      else if k = 1 then Some TLB_LARGEPAGE else Some TLB_SMALLPAGE)"

text \<open>A second level: read the descriptor, build the entry or fault with its domain recorded.\<close>

definition walk_l2 :: "'x bus_ops \<Rightarrow> 'x mstate \<Rightarrow> ARMword \<Rightarrow> ARMword \<Rightarrow> ARMword \<Rightarrow> (ARMword \<Rightarrow> tlb_mapping_t option) \<Rightarrow>
    ((fault_t + tlb_entry_t) \<times> 'x mstate) option" where
  "walk_l2 B s va l1desc l2addr mapping =
     (case mem_read_word B s l2addr of
        None \<Rightarrow> None
      | Some (l2desc, s) \<Rightarrow>
          (case mapping l2desc of
             None \<Rightarrow> Some (Inl PAGE_TRANSLATION_FAULT,
                       s\<lparr>mmu := (mmu s)\<lparr>last_domain := drop_bit 5 l1desc AND 0xF\<rparr>\<rparr>)
           | Some m \<Rightarrow> Some (Inr (page_entry va l1desc l2desc m), s)))"

definition table_walk :: "'x bus_ops \<Rightarrow> 'x mstate \<Rightarrow> ARMword \<Rightarrow> ((fault_t + tlb_entry_t) \<times> 'x mstate) option" where
  "table_walk B s va =
     (case mem_read_word B s (l1_addr s va) of
        None \<Rightarrow> None
      | Some (l1desc, s) \<Rightarrow>
         (let k = l1desc AND 3 in
          if k = 0 then Some (Inl PAGE_TRANSLATION_FAULT, s)
          else if k = 3 then walk_l2 B s va l1desc (fine_addr l1desc va) fine_mapping
          else if k = 1 then walk_l2 B s va l1desc (coarse_addr l1desc va) (coarse_mapping (is_XScale s \<noteq> 0))
          else Some (Inr (section_entry va l1desc), s)))"

definition mask_entry :: "tlb_entry_t \<Rightarrow> tlb_entry_t" where
  "mask_entry e = e\<lparr>te_virt_addr := te_virt_addr e AND tlb_masks (te_mapping e),
                    te_phys_addr := te_phys_addr e AND tlb_masks (te_mapping e)\<rparr>"

definition tlb_place :: "tlb_entry_t \<Rightarrow> tlb_t \<Rightarrow> nat \<times> tlb_t" where
  "tlb_place e t =
     (tlb_cycle t,
      t\<lparr>tlb_cycle := (tlb_cycle t + 1) mod length (tlb_entrys t), tlb_entrys := (tlb_entrys t)[tlb_cycle t := e]\<rparr>)"

definition set_last_domain :: "tlb_t \<Rightarrow> nat \<Rightarrow> 'm ARMul_State \<Rightarrow> 'm ARMul_State" where
  "set_last_domain t i s = s\<lparr>mmu := (mmu s)\<lparr>last_domain := te_domain (tlb_entrys t ! i)\<rparr>\<rparr>"

text \<open>The result of \<open>translate\<close> is a fault or the index of the entry in the buffer.\<close>

definition translate :: "'x bus_ops \<Rightarrow> 'x mstate \<Rightarrow> ARMword \<Rightarrow> tlb_t \<Rightarrow> ((fault_t + nat) \<times> 'x mstate \<times> tlb_t) option" where
  "translate B s va t =
     (case mmu_tlb_search t va of
        Some i \<Rightarrow> Some (Inr i, set_last_domain t i s, t)
      | None \<Rightarrow>
         (case table_walk B s va of
            None \<Rightarrow> None
          | Some (Inl f, s) \<Rightarrow> Some (Inl f, s, t)
          | Some (Inr e, s) \<Rightarrow>
             (let (i, t) = tlb_place (mask_entry e) t in Some (Inr i, set_last_domain t i s, t))))"

section \<open>Search and placement\<close>

text \<open>A well-formed buffer: the place of the next entry is in range.\<close>

definition tlb_wf :: "tlb_t \<Rightarrow> bool" where
  "tlb_wf t \<longleftrightarrow> tlb_cycle t < length (tlb_entrys t)"

lemma tlb_search_SomeD: "mmu_tlb_search t va = Some i \<Longrightarrow> i < length (tlb_entrys t) \<and> tlb_hit va (tlb_entrys t ! i)"
  using first_from_SomeD [of "tlb_hit va" 0 "tlb_entrys t" i] by (simp add: mmu_tlb_search_def)

lemma tlb_search_place:
  assumes "mmu_tlb_search t va = None" "tlb_wf t" "tlb_hit va e"
  shows "mmu_tlb_search (snd (tlb_place e t)) va = Some (tlb_cycle t)"
  using assms first_from_update [of "tlb_hit va" "tlb_entrys t" "tlb_cycle t" e]
  by (simp add: mmu_tlb_search_def tlb_place_def tlb_wf_def)

lemma tlb_place_wf: "tlb_wf t \<Longrightarrow> tlb_wf (snd (tlb_place e t))"
  by (auto simp: tlb_wf_def tlb_place_def intro!: mod_less_divisor)

lemma tlb_init_wf: "0 < num \<Longrightarrow> tlb_wf (mmu_tlb_init num fresh)"
  by (simp add: tlb_wf_def mmu_tlb_init_def)

lemma invalidate_all_wf: "tlb_wf t \<Longrightarrow> tlb_wf (mmu_tlb_invalidate_all t)"
  by (auto simp: tlb_wf_def mmu_tlb_invalidate_all_def)

lemma invalidate_entry_wf: "tlb_wf (mmu_tlb_invalidate_entry t a) = tlb_wf t"
  by (auto simp: tlb_wf_def mmu_tlb_invalidate_entry_def split: option.splits)

lemma invalidate_all_misses: "mmu_tlb_search (mmu_tlb_invalidate_all t) va = None"
  by (simp add: mmu_tlb_search_def mmu_tlb_invalidate_all_def first_from_None tlb_hit_def)

lemma mask_entry_hit:
  "te_virt_addr e = va \<Longrightarrow> te_mapping e \<noteq> TLB_INVALID \<Longrightarrow> tlb_hit va (mask_entry e)"
  by (simp add: tlb_hit_def mask_entry_def and.assoc)

lemma fine_mapping_valid: "fine_mapping d = Some m \<Longrightarrow> m \<noteq> TLB_INVALID"
  by (auto simp: fine_mapping_def Let_def split: if_splits)

lemma coarse_mapping_valid: "coarse_mapping x d = Some m \<Longrightarrow> m \<noteq> TLB_INVALID"
  by (auto simp: coarse_mapping_def Let_def split: if_splits)

lemma walk_l2_entry:
  assumes "walk_l2 B s va d a f = Some (Inr e, s')" "\<And>d m. f d = Some m \<Longrightarrow> m \<noteq> TLB_INVALID"
  shows "te_virt_addr e = va \<and> te_mapping e \<noteq> TLB_INVALID"
  using assms by (auto simp: walk_l2_def page_entry_def split: option.splits)

lemma table_walk_entry:
  assumes "table_walk B s va = Some (Inr e, s')"
  shows "tlb_hit va (mask_entry e)"
proof -
  obtain d s1 where d: "mem_read_word B s (l1_addr s va) = Some (d, s1)"
    using assms by (auto simp: table_walk_def split: option.splits)
  consider "d AND 3 = 1" | "d AND 3 = 2" | "d AND 3 = 3"
    using assms d and_3_cases [of d] by (auto simp: table_walk_def)
  then have "te_virt_addr e = va \<and> te_mapping e \<noteq> TLB_INVALID"
  proof cases
    case 1
    then have "walk_l2 B s1 va d (coarse_addr d va) (coarse_mapping (is_XScale s1 \<noteq> 0)) = Some (Inr e, s')"
      using assms d by (simp add: table_walk_def)
    then show ?thesis by (rule walk_l2_entry) (rule coarse_mapping_valid)
  next
    case 2
    then show ?thesis using assms d by (auto simp: table_walk_def section_entry_def)
  next
    case 3
    then have "walk_l2 B s1 va d (fine_addr d va) fine_mapping = Some (Inr e, s')"
      using assms d by (simp add: table_walk_def)
    then show ?thesis by (rule walk_l2_entry) (rule fine_mapping_valid)
  qed
  then show ?thesis by (simp add: mask_entry_hit)
qed

text \<open>
  C36: a translation that succeeds leaves its entry in the buffer: translating the address
  again, from any state, returns the same entry without a read of memory and without a
  change of the buffer.
\<close>

theorem translate_cached:
  assumes "tlb_wf t" "translate B s va t = Some (Inr i, s', t')"
  shows "tlb_wf t' \<and> i < length (tlb_entrys t') \<and> last_domain (mmu s') = te_domain (tlb_entrys t' ! i)
     \<and> (\<forall>s2. translate B s2 va t' = Some (Inr i, set_last_domain t' i s2, t'))"
proof (cases "mmu_tlb_search t va")
  case None
  obtain e s1 where e: "table_walk B s va = Some (Inr e, s1)"
    using assms(2) None by (auto simp: translate_def split: option.splits sum.splits)
  have t': "t' = snd (tlb_place (mask_entry e) t)" "i = tlb_cycle t" "s' = set_last_domain t' i s1"
    using assms(2) None e by (auto simp: translate_def tlb_place_def Let_def)
  have "mmu_tlb_search t' va = Some i"
    unfolding t' by (rule tlb_search_place [OF None assms(1) table_walk_entry [OF e]])
  then show ?thesis using t' tlb_place_wf [OF assms(1)] tlb_search_SomeD [of t' va i]
    by (simp add: translate_def set_last_domain_def)
next
  case (Some j)
  then show ?thesis using assms tlb_search_SomeD [OF Some] by (auto simp: translate_def set_last_domain_def)
qed

section \<open>The walk\<close>

text \<open>The addresses of the descriptors: the table base and the index from the virtual address.\<close>

lemma l1_addr_index: "l1_addr s va = (translation_table_base (mmu s) AND 0xFFFFC000) OR push_bit 2 (drop_bit 20 va)"
  by (rule word32_eqI) (simp add: l1_addr_def bit_simps not_bit_ge_32)

lemma coarse_addr_index: "coarse_addr d va = (d AND 0xFFFFFC00) OR push_bit 2 (drop_bit 12 va AND 0xFF)"
  by (rule word32_eqI) (simp add: coarse_addr_def bit_simps not_bit_ge_32)

lemma fine_addr_index: "fine_addr d va = (d AND 0xFFFFF000) OR push_bit 2 (drop_bit 10 va AND 0x3FF)"
  by (rule word32_eqI) (simp add: fine_addr_def bit_simps not_bit_ge_32)

lemma neg_masks:
  "- 4293918721 = (0x000FFFFF :: ARMword)" "- 4294901761 = (0x0000FFFF :: ARMword)"
  "- 4294963201 = (0x00000FFF :: ARMword)" "- 4294966273 = (0x000003FF :: ARMword)"
  by simp_all

lemma tlb_va_to_pa_simps:
  "te_mapping e = TLB_SECTION \<Longrightarrow> tlb_va_to_pa e va = (te_phys_addr e AND 0xFFF00000) OR (va AND 0x000FFFFF)"
  "te_mapping e = TLB_LARGEPAGE \<Longrightarrow> tlb_va_to_pa e va = (te_phys_addr e AND 0xFFFF0000) OR (va AND 0x0000FFFF)"
  "te_mapping e = TLB_SMALLPAGE \<Longrightarrow> tlb_va_to_pa e va = (te_phys_addr e AND 0xFFFFF000) OR (va AND 0x00000FFF)"
  "te_mapping e = TLB_ESMALLPAGE \<Longrightarrow> tlb_va_to_pa e va = (te_phys_addr e AND 0xFFFFF000) OR (va AND 0x00000FFF)"
  "te_mapping e = TLB_TINYPAGE \<Longrightarrow> tlb_va_to_pa e va = (te_phys_addr e AND 0xFFFFFC00) OR (va AND 0x000003FF)"
  by (simp_all add: tlb_va_to_pa_def neg_masks)

text \<open>The physical address a successful translation stands for.\<close>

definition translate_pa :: "'x bus_ops \<Rightarrow> 'x mstate \<Rightarrow> ARMword \<Rightarrow> tlb_t \<Rightarrow> ARMword option" where
  "translate_pa B s va t =
     (case translate B s va t of
        Some (Inr i, _, t') \<Rightarrow> Some (tlb_va_to_pa (tlb_entrys t' ! i) va)
      | _ \<Rightarrow> None)"

lemma translate_pa_walk:
  assumes "mmu_tlb_search t va = None" "tlb_wf t"
  shows "translate_pa B s va t = (case table_walk B s va of Some (Inr e, _) \<Rightarrow> Some (tlb_va_to_pa e va) | _ \<Rightarrow> None)"
proof -
  have "tlb_va_to_pa (mask_entry e) va = tlb_va_to_pa e va" for e
    by (simp add: tlb_va_to_pa_def mask_entry_def Let_def and.assoc)
  then show ?thesis
    using assms by (auto simp: translate_pa_def translate_def tlb_place_def tlb_wf_def Let_def split: option.splits sum.splits)
qed

text \<open>
  C17: on a miss the walk reads the first-level descriptor at the table base indexed by bits
  31 to 20 of the address; a section maps the low 20 bits, and a second-level descriptor,
  read at the index of its coarse or fine table, maps the low 16, 12 or 10 bits; other
  descriptors fault.
\<close>

theorem translate_walk:
  assumes "mmu_tlb_search t va = None" "tlb_wf t"
    and "mem_read_word B s ((translation_table_base (mmu s) AND 0xFFFFC000) OR push_bit 2 (drop_bit 20 va)) = Some (d, s1)"
  shows "(d AND 3 = 0 \<longrightarrow> translate B s va t = Some (Inl PAGE_TRANSLATION_FAULT, s1, t))
     \<and> (d AND 3 = 2 \<longrightarrow> translate_pa B s va t = Some ((d AND 0xFFF00000) OR (va AND 0x000FFFFF)))
     \<and> (d AND 3 = 1 \<longrightarrow> mem_read_word B s1 ((d AND 0xFFFFFC00) OR push_bit 2 (drop_bit 12 va AND 0xFF)) = Some (e, s2)
          \<longrightarrow> translate_pa B s va t =
               (if e AND 3 = 1 then Some ((e AND 0xFFFF0000) OR (va AND 0x0000FFFF))
                else if e AND 3 = 2 \<or> e AND 3 = 3 \<and> is_XScale s1 \<noteq> 0 then Some ((e AND 0xFFFFF000) OR (va AND 0x00000FFF))
                else None))
     \<and> (d AND 3 = 3 \<longrightarrow> mem_read_word B s1 ((d AND 0xFFFFF000) OR push_bit 2 (drop_bit 10 va AND 0x3FF)) = Some (e, s2)
          \<longrightarrow> translate_pa B s va t =
               (if e AND 3 = 1 then Some ((e AND 0xFFFF0000) OR (va AND 0x0000FFFF))
                else if e AND 3 = 2 then Some ((e AND 0xFFFFF000) OR (va AND 0x00000FFF))
                else if e AND 3 = 3 then Some ((e AND 0xFFFFFC00) OR (va AND 0x000003FF))
                else None))"
proof -
  note rd = assms(3) [folded l1_addr_index]
  note walk = translate_pa_walk [OF assms(1,2), of B s] table_walk_def
  have k: "e AND 3 = 0 \<or> e AND 3 = 1 \<or> e AND 3 = 2 \<or> e AND 3 = 3" by (rule and_3_cases)
  show ?thesis
    unfolding fine_addr_index [symmetric] coarse_addr_index [symmetric]
  proof (intro conjI)
    show "d AND 3 = 0 \<longrightarrow> translate B s va t = Some (Inl PAGE_TRANSLATION_FAULT, s1, t)"
      using assms(1) rd by (simp add: translate_def table_walk_def)
  next
    show "d AND 3 = 2 \<longrightarrow> translate_pa B s va t = Some ((d AND 0xFFF00000) OR (va AND 0x000FFFFF))"
      unfolding walk by (simp add: rd section_entry_def tlb_va_to_pa_simps)
  qed (unfold walk, use k in \<open>auto simp: rd walk_l2_def coarse_mapping_def fine_mapping_def page_entry_def tlb_va_to_pa_simps\<close>)
qed

text \<open>An example: a table at the start of RAM that maps \<open>0x00100000\<close> to \<open>0x40000000\<close> as a section.\<close>

definition ex_vm :: "unit mstate" where
  "ex_vm = ex_ms\<lparr>mach := ex_mem\<lparr>rom := (\<lambda>i k. if i = 1 \<and> k = 1 then 0x40000C02 else 0)\<rparr>,
     mmu := (mmu ex_ms)\<lparr>control := 0x71, translation_table_base := 0x40000000, domain_access_control := 1\<rparr>\<rparr>"

definition ex_tlb :: tlb_t where
  "ex_tlb = mmu_tlb_init 64 (\<lambda>_. \<lparr>te_virt_addr = 0, te_phys_addr = 0, te_perms = 0, te_domain = 0, te_mapping = TLB_SECTION\<rparr>)"

lemma ex_tlb_ok: "mmu_tlb_search ex_tlb va = None" "tlb_wf ex_tlb"
  by (simp_all add: ex_tlb_def mmu_tlb_search_def first_from_None mmu_tlb_init_def tlb_hit_def tlb_wf_def)

lemma ex_vm_desc: "\<exists>s1. mem_read_word B ex_vm 0x40000004 = Some (0x40000C02, s1)"
proof -
  have wf: "mem_wf (mach ex_vm)" using ex_mem_wf by (simp add: ex_vm_def mem_wf_def live_banks_def)
  have b: "ram_bank (mach ex_vm) 0x40000004 1"
    unfolding ram_bank_def ex_vm_def by (simp add: live_banks_def ex_mem_def ex_banks_def bank_hit_def)
  then have "ram_ok ex_vm 0x40000004"
    using wf by (auto simp: ram_ok_def ex_vm_def ex_ms_def ARMul_NewState_def remap_addr_def)
  then have "\<exists>s1. mem_read_word B ex_vm 0x40000004 = Some (ram_word ex_vm 0x40000004, s1)" by (rule ram_read_word)
  moreover have "ram_word ex_vm 0x40000004 = 0x40000C02"
    unfolding ram_word_def ram_index_bank [OF wf b]
    by (simp add: rom_get_def rom_index_def ex_vm_def ex_mem_def ex_banks_def drop_bit_eq_div)
  ultimately show ?thesis by simp
qed

lemma ex_vm_l1: "(translation_table_base (mmu ex_vm) AND 0xFFFFC000) OR push_bit 2 (drop_bit 20 0x00100abc) = 0x40000004"
  by (simp add: ex_vm_def drop_bit_eq_div)

theorem translate_walk_witness: "translate_pa undefined ex_vm 0x00100abc ex_tlb = Some 0x40000abc"
proof -
  obtain s1 where "mem_read_word undefined ex_vm 0x40000004 = Some (0x40000C02, s1)" using ex_vm_desc by blast
  then show ?thesis
    using translate_walk [OF ex_tlb_ok, of undefined ex_vm "0x00100abc" "0x40000C02" s1] unfolding ex_vm_l1 by simp
qed

theorem translate_cached_witness:
  "\<exists>i s' t'. translate undefined ex_vm 0x00100abc ex_tlb = Some (Inr i, s', t')
     \<and> translate undefined ex_ms 0x00100abc t' = Some (Inr i, set_last_domain t' i ex_ms, t')"
proof -
  obtain s1 where "mem_read_word undefined ex_vm 0x40000004 = Some (0x40000C02, s1)" using ex_vm_desc by blast
  then have "table_walk undefined ex_vm 0x00100abc = Some (Inr (section_entry 0x00100abc 0x40000C02), s1)"
    unfolding table_walk_def l1_addr_index ex_vm_l1 by simp
  then obtain i s' t' where "translate undefined ex_vm 0x00100abc ex_tlb = Some (Inr i, s', t')"
    by (simp add: translate_def ex_tlb_ok tlb_place_def)
  then show ?thesis using translate_cached [OF ex_tlb_ok(2)] by blast
qed

section \<open>Access checks\<close>

lemma check_access_state:
  "check_access s va e rd = Some (f, t) \<Longrightarrow> t = s\<lparr>mmu := (mmu s)\<lparr>last_domain := te_domain e\<rparr>\<rparr>"
  by (auto simp: check_access_def Let_def split: if_splits option.splits)

lemma check_access_fst:
  assumes "control (mmu s') = control (mmu s)" "domain_access_control (mmu s') = domain_access_control (mmu s)" "Mode s' = Mode s"
  shows "map_option fst (check_access s' va e rd) = map_option fst (check_access s va e rd)"
  using assms by (cases "tlb_subpage (te_mapping e) va") (simp_all add: check_access_def check_perms_def control_bit_def Let_def)

end
