(* ===== verification/Arm_Cache.thy ===== *)
theory Arm_Cache
  imports Arm_Mem
begin

text \<open>
  The set-associative cache of \<open>mmu/cache.c\<close>: search, allocation in turn, write-back of
  dirty halves of a line, cleaning and invalidation.  A line that a C function gets or
  returns as a pointer is its place: the set and the way.
\<close>

section \<open>Data\<close>

abbreviation (input) TAG_VALID_FLAG :: ARMword where "TAG_VALID_FLAG \<equiv> 0x1"
abbreviation (input) TAG_FIRST_HALF_DIRTY :: ARMword where "TAG_FIRST_HALF_DIRTY \<equiv> 0x2"
abbreviation (input) TAG_LAST_HALF_DIRTY :: ARMword where "TAG_LAST_HALF_DIRTY \<equiv> 0x4"

record cache_line_t =
  cl_tag :: ARMword
  cl_pa :: ARMword
  cl_data :: "ARMword list"

record cache_set_t =
  cs_lines :: "cache_line_t list"
  cs_cycle :: nat

datatype w_mode_t = CACHE_WRITE_BACK | CACHE_WRITE_THROUGH

record cache_t =
  c_width :: ARMword
  c_way :: nat
  c_set :: ARMword
  c_w_mode :: w_mode_t
  c_sets :: "cache_set_t list"

definition va_cache_set :: "ARMword \<Rightarrow> cache_t \<Rightarrow> nat" where
  "va_cache_set va c = unat ((va div c_width c) AND (c_set c - 1))"

definition va_cache_align :: "ARMword \<Rightarrow> cache_t \<Rightarrow> ARMword" where
  "va_cache_align va c = va AND NOT (c_width c - 1)"

type_synonym place = "nat \<times> nat"

definition get_line :: "cache_t \<Rightarrow> place \<Rightarrow> cache_line_t" where
  "get_line c p = cs_lines (c_sets c ! fst p) ! snd p"

definition upd_line :: "place \<Rightarrow> (cache_line_t \<Rightarrow> cache_line_t) \<Rightarrow> cache_t \<Rightarrow> cache_t" where
  "upd_line p f c =
     (let cs = c_sets c ! fst p in
      c\<lparr>c_sets := (c_sets c)[fst p := cs\<lparr>cs_lines := (cs_lines cs)[snd p := f (cs_lines cs ! snd p)]\<rparr>]\<rparr>)"

section \<open>Initialisation and search\<close>

text \<open>\<open>fresh i j\<close> is what \<open>malloc\<close> left in line \<open>j\<close> of set \<open>i\<close>; the tag is cleared.\<close>

definition mmu_cache_init :: "ARMword \<Rightarrow> nat \<Rightarrow> ARMword \<Rightarrow> w_mode_t \<Rightarrow> (nat \<Rightarrow> nat \<Rightarrow> cache_line_t) \<Rightarrow> cache_t" where
  "mmu_cache_init width way nset w_mode fresh =
     \<lparr>c_width = width, c_way = way, c_set = nset, c_w_mode = w_mode,
      c_sets = map (\<lambda>i. \<lparr>cs_lines = map (\<lambda>j. (fresh i j)\<lparr>cl_tag := 0\<rparr>) [0..<way], cs_cycle = 0\<rparr>) [0..<unat nset]\<rparr>"

definition line_hit :: "cache_t \<Rightarrow> ARMword \<Rightarrow> cache_line_t \<Rightarrow> bool" where
  "line_hit c tag l \<longleftrightarrow> cl_tag l AND TAG_VALID_FLAG \<noteq> 0 \<and> tag = va_cache_align (cl_tag l) c"

definition mmu_cache_search :: "cache_t \<Rightarrow> ARMword \<Rightarrow> place option" where
  "mmu_cache_search c va =
     (let st = va_cache_set va c in
      map_option (\<lambda>i. (st, i)) (first_from (line_hit c (va_cache_align va c)) 0 (cs_lines (c_sets c ! st))))"

fun way_log :: "nat \<Rightarrow> nat" where
  "way_log way = (if way div 2 \<ge> 1 then Suc (way_log (way div 2)) else 0)"

declare way_log.simps [simp del]

text \<open>With one way the C code shifts a word by 32, which is undefined: \<open>None\<close>.\<close>

definition mmu_cache_search_by_index :: "cache_t \<Rightarrow> ARMword \<Rightarrow> place option" where
  "mmu_cache_search_by_index c index =
     (let i = way_log (c_way c) in
      if i = 0 then None else Some (va_cache_set index c, unat (drop_bit (32 - i) index)))"

section \<open>Write-back and allocation\<close>

fun write_words :: "'x bus_ops \<Rightarrow> 'x mstate \<Rightarrow> ARMword \<Rightarrow> ARMword list \<Rightarrow> 'x mstate option" where
  "write_words B s pa [] = Some s"
| "write_words B s pa (d # ds) =
     (case mem_write_word B s pa d of None \<Rightarrow> None | Some s \<Rightarrow> write_words B s (pa + 4) ds)"

text \<open>The words the loop of \<open>mmu_cache_write_back\<close> writes, and their address.\<close>

definition dirty_range :: "cache_t \<Rightarrow> cache_line_t \<Rightarrow> ARMword \<times> ARMword list" where
  "dirty_range c l =
     (let nw = unat (drop_bit 2 (c_width c));
          k = cl_tag l AND NOT 1 AND (TAG_FIRST_HALF_DIRTY OR TAG_LAST_HALF_DIRTY) in
      if k = TAG_FIRST_HALF_DIRTY then (cl_pa l, take (nw div 2) (cl_data l))
      else if k = TAG_LAST_HALF_DIRTY then
        (cl_pa l + push_bit 2 (of_nat (nw div 2)), take (nw div 2) (drop (nw div 2) (cl_data l)))
      else (cl_pa l, take nw (cl_data l)))"

definition mmu_cache_write_back :: "'x bus_ops \<Rightarrow> 'x mstate \<Rightarrow> cache_t \<Rightarrow> cache_line_t \<Rightarrow> ('x mstate \<times> cache_line_t) option" where
  "mmu_cache_write_back B s c l =
     (if cl_tag l AND 1 = 0 then Some (s, l)
      else if cl_tag l AND NOT 1 AND (TAG_FIRST_HALF_DIRTY OR TAG_LAST_HALF_DIRTY) = 0 then Some (s, l)
      else
        (case write_words B s (fst (dirty_range c l)) (snd (dirty_range c l)) of
           None \<Rightarrow> None
         | Some s \<Rightarrow> Some (s, l\<lparr>cl_tag := cl_tag l AND NOT (TAG_FIRST_HALF_DIRTY OR TAG_LAST_HALF_DIRTY)\<rparr>)))"

fun read_words :: "'x bus_ops \<Rightarrow> 'x mstate \<Rightarrow> ARMword \<Rightarrow> nat \<Rightarrow> (ARMword list \<times> 'x mstate) option" where
  "read_words B s t 0 = Some ([], s)"
| "read_words B s t (Suc n) =
     (case mem_read_word B s t of
        None \<Rightarrow> None
      | Some (d, s) \<Rightarrow>
          (case read_words B s (t + 4) n of None \<Rightarrow> None | Some (ds, s) \<Rightarrow> Some (d # ds, s)))"

text \<open>The part of an allocation that only a write-back cache has: write the old line back and fill it.\<close>

definition alloc_fill :: "'x bus_ops \<Rightarrow> 'x mstate \<Rightarrow> cache_t \<Rightarrow> cache_line_t \<Rightarrow> ARMword \<Rightarrow> ('x mstate \<times> cache_line_t) option" where
  "alloc_fill B s c l pa =
     (if c_w_mode c = CACHE_WRITE_BACK then
        (case (if cl_tag l AND TAG_VALID_FLAG \<noteq> 0 then mmu_cache_write_back B s c l else Some (s, l)) of
           None \<Rightarrow> None
         | Some (s, l) \<Rightarrow>
            (case read_words B s pa (unat (drop_bit 2 (c_width c))) of
               None \<Rightarrow> None
             | Some (ds, s) \<Rightarrow> Some (s, l\<lparr>cl_data := ds\<rparr>)))
      else Some (s, l))"

definition mmu_cache_alloc :: "'x bus_ops \<Rightarrow> 'x mstate \<Rightarrow> cache_t \<Rightarrow> ARMword \<Rightarrow> ARMword \<Rightarrow> (place \<times> 'x mstate \<times> cache_t) option" where
  "mmu_cache_alloc B s c va pa =
     (let va = va_cache_align va c;
          pa = va_cache_align pa c;
          st = va_cache_set va c;
          cs = c_sets c ! st;
          i = cs_cycle cs;
          c = c\<lparr>c_sets := (c_sets c)[st := cs\<lparr>cs_cycle := if i + 1 = c_way c then 0 else i + 1\<rparr>]\<rparr> in
      case alloc_fill B s c (get_line c (st, i)) pa of
        None \<Rightarrow> None
      | Some (s, l) \<Rightarrow>
          Some ((st, i), s, upd_line (st, i) (\<lambda>_. l\<lparr>cl_tag := va OR TAG_VALID_FLAG, cl_pa := pa\<rparr>) c))"

section \<open>Cleaning and invalidation\<close>

definition clean_line :: "'x bus_ops \<Rightarrow> 'x mstate \<Rightarrow> cache_t \<Rightarrow> place option \<Rightarrow> ('x mstate \<times> cache_t) option" where
  "clean_line B s c p =
     (case p of
        None \<Rightarrow> Some (s, c)
      | Some p \<Rightarrow> map_option (\<lambda>(s, l). (s, upd_line p (\<lambda>_. l) c)) (mmu_cache_write_back B s c (get_line c p)))"

definition mmu_cache_clean :: "'x bus_ops \<Rightarrow> 'x mstate \<Rightarrow> cache_t \<Rightarrow> ARMword \<Rightarrow> ('x mstate \<times> cache_t) option" where
  "mmu_cache_clean B s c va = clean_line B s c (mmu_cache_search c va)"

definition mmu_cache_clean_by_index :: "'x bus_ops \<Rightarrow> 'x mstate \<Rightarrow> cache_t \<Rightarrow> ARMword \<Rightarrow> ('x mstate \<times> cache_t) option" where
  "mmu_cache_clean_by_index B s c index =
     (case mmu_cache_search_by_index c index of None \<Rightarrow> None | Some p \<Rightarrow> clean_line B s c (Some p))"

definition invalidate_line :: "'x bus_ops \<Rightarrow> 'x mstate \<Rightarrow> cache_t \<Rightarrow> place option \<Rightarrow> ('x mstate \<times> cache_t) option" where
  "invalidate_line B s c p =
     (case p of
        None \<Rightarrow> Some (s, c)
      | Some p \<Rightarrow>
          map_option (\<lambda>(s, l). (s, upd_line p (\<lambda>_. l\<lparr>cl_tag := 0\<rparr>) c)) (mmu_cache_write_back B s c (get_line c p)))"

definition mmu_cache_invalidate :: "'x bus_ops \<Rightarrow> 'x mstate \<Rightarrow> cache_t \<Rightarrow> ARMword \<Rightarrow> ('x mstate \<times> cache_t) option" where
  "mmu_cache_invalidate B s c va = invalidate_line B s c (mmu_cache_search c va)"

definition mmu_cache_invalidate_by_index :: "'x bus_ops \<Rightarrow> 'x mstate \<Rightarrow> cache_t \<Rightarrow> ARMword \<Rightarrow> ('x mstate \<times> cache_t) option" where
  "mmu_cache_invalidate_by_index B s c index =
     (case mmu_cache_search_by_index c index of None \<Rightarrow> None | Some p \<Rightarrow> invalidate_line B s c (Some p))"

fun invalidate_lines :: "'x bus_ops \<Rightarrow> place list \<Rightarrow> 'x mstate \<Rightarrow> cache_t \<Rightarrow> ('x mstate \<times> cache_t) option" where
  "invalidate_lines B [] s c = Some (s, c)"
| "invalidate_lines B (p # ps) s c =
     (case invalidate_line B s c (Some p) of None \<Rightarrow> None | Some (s, c) \<Rightarrow> invalidate_lines B ps s c)"

definition all_places :: "cache_t \<Rightarrow> place list" where
  "all_places c = List.product [0..<unat (c_set c)] [0..<c_way c]"

definition mmu_cache_invalidate_all :: "'x bus_ops \<Rightarrow> 'x mstate \<Rightarrow> cache_t \<Rightarrow> ('x mstate \<times> cache_t) option" where
  "mmu_cache_invalidate_all B s c = invalidate_lines B (all_places c) s c"

definition mmu_cache_soft_flush :: "'x bus_ops \<Rightarrow> 'x mstate \<Rightarrow> cache_t \<Rightarrow> ARMword \<Rightarrow> ('x mstate \<times> cache_t) option" where
  "mmu_cache_soft_flush B s c pa =
     (let pa = pa div c_width c;
          way = unat (pa AND of_nat (c_way c - 1));
          st = unat ((pa div of_nat (c_way c)) AND (c_set c - 1)) in
      invalidate_line B s c (Some (st, way)))"

section \<open>Lines and places\<close>

text \<open>A place that exists.\<close>

definition place_ok :: "cache_t \<Rightarrow> place \<Rightarrow> bool" where
  "place_ok c p \<longleftrightarrow> fst p < length (c_sets c) \<and> snd p < length (cs_lines (c_sets c ! fst p))"

lemma get_upd_line_same: "place_ok c p \<Longrightarrow> get_line (upd_line p f c) p = f (get_line c p)"
  by (simp add: place_ok_def get_line_def upd_line_def Let_def)

lemma upd_line_geometry:
  "c_width (upd_line p f c) = c_width c" "c_set (upd_line p f c) = c_set c" "c_way (upd_line p f c) = c_way c"
  "c_w_mode (upd_line p f c) = c_w_mode c" "length (c_sets (upd_line p f c)) = length (c_sets c)"
  by (simp_all add: upd_line_def Let_def)

lemma va_cache_geometry:
  "va_cache_set va (upd_line p f c) = va_cache_set va c" "va_cache_align va (upd_line p f c) = va_cache_align va c"
  by (simp_all add: va_cache_set_def va_cache_align_def upd_line_geometry)

lemma line_search_cong:
  "map cl_tag ls = map cl_tag ls' \<Longrightarrow> c_width c = c_width c' \<Longrightarrow>
     first_from (line_hit c tag) i ls = first_from (line_hit c' tag) i ls'"
proof (induction ls arbitrary: i ls')
  case (Cons l ls)
  then obtain l' ls'' where "ls' = l' # ls''" "cl_tag l = cl_tag l'" "map cl_tag ls = map cl_tag ls''" by auto
  then show ?case using Cons by (simp add: line_hit_def va_cache_align_def)
qed simp

lemma map_tag_update: "cl_tag (f (ls ! j)) = cl_tag (ls ! j) \<Longrightarrow> map cl_tag (ls[j := f (ls ! j)]) = map cl_tag ls"
  by (cases "j < length ls") (auto intro!: nth_equalityI simp: nth_list_update list_update_beyond)

lemma search_upd_data:
  assumes "\<And>l. cl_tag (f l) = cl_tag l"
  shows "mmu_cache_search (upd_line p f c) va = mmu_cache_search c va"
proof -
  have "map cl_tag (cs_lines (c_sets (upd_line p f c) ! k)) = map cl_tag (cs_lines (c_sets c ! k))" for k
  proof (cases "k = fst p \<and> k < length (c_sets c)")
    case True
    then show ?thesis using map_tag_update [of f "cs_lines (c_sets c ! fst p)" "snd p"] assms by (simp add: upd_line_def Let_def)
  next
    case False
    then have "c_sets (upd_line p f c) ! k = c_sets c ! k"
      by (cases "k = fst p") (simp_all add: upd_line_def Let_def list_update_beyond)
    then show ?thesis by simp
  qed
  then show ?thesis
    using line_search_cong [of "cs_lines (c_sets (upd_line p f c) ! va_cache_set va c)" "cs_lines (c_sets c ! va_cache_set va c)" "upd_line p f c" c]
    by (simp add: mmu_cache_search_def Let_def va_cache_geometry upd_line_geometry)
qed

section \<open>Allocation\<close>

text \<open>A well-formed cache: as many sets as its geometry says, each with all its ways and a place in range.\<close>

definition cache_wf :: "cache_t \<Rightarrow> bool" where
  "cache_wf c \<longleftrightarrow> 0 < c_way c \<and> length (c_sets c) = unat (c_set c) \<and> 0 < c_set c
     \<and> (\<forall>cs\<in>set (c_sets c). length (cs_lines cs) = c_way c \<and> cs_cycle cs < c_way c)"

lemma cache_init_wf: "0 < way \<Longrightarrow> 0 < n \<Longrightarrow> cache_wf (mmu_cache_init w way n m fresh)"
  by (simp add: cache_wf_def mmu_cache_init_def)

lemma va_cache_set_less: "cache_wf c \<Longrightarrow> va_cache_set va c < length (c_sets c)"
proof -
  assume wf: "cache_wf c"
  have "unat ((va div c_width c) AND (c_set c - 1)) \<le> unat (c_set c - 1)"
    using word_and_le1 [of "va div c_width c" "c_set c - 1"] by (simp add: word_le_nat_alt)
  moreover have "unat (c_set c - 1) < unat (c_set c)"
    using wf unat_sub [of 1 "c_set c"] by (simp add: cache_wf_def word_le_nat_alt word_less_nat_alt)
  ultimately show ?thesis using wf by (simp add: va_cache_set_def cache_wf_def)
qed

lemma align_pow2:
  assumes "c_width c = 2 ^ k" "k < 32"
  shows "va_cache_align va c = va AND NOT (mask k)" "va div c_width c = drop_bit k va"
  using assms by (simp_all add: va_cache_align_def mask_eq_exp_minus_1 drop_bit_eq_div)

lemma va_cache_set_aligned:
  assumes "c_width c = 2 ^ k" "k < 32" "va_cache_align va c = va_cache_align va' c"
  shows "va_cache_set va c = va_cache_set va' c"
proof -
  have "drop_bit k va = drop_bit k (va AND NOT (mask k))" for va :: ARMword
    by (intro bit_word_eqI) (auto simp: bit_simps dest: bit_imp_le_length)
  then have "drop_bit k va = drop_bit k va'" using assms(3) unfolding align_pow2 [OF assms(1,2)] by metis
  then show ?thesis unfolding va_cache_set_def align_pow2 [OF assms(1,2)] by simp
qed

lemma align_align: "c_width c = 2 ^ k \<Longrightarrow> k < 32 \<Longrightarrow> va_cache_align (va_cache_align va c) c = va_cache_align va c"
  by (simp add: va_cache_align_def and.assoc)

lemma align_valid_tag:
  assumes "c_width c = 2 ^ k" "0 < k" "k < 32"
  shows "va_cache_align (va_cache_align va c OR 1) c = va_cache_align va c"
  unfolding align_pow2 [OF assms(1,3)]
  by (intro bit_word_eqI) (use assms(2) in \<open>auto simp: bit_simps bit_1_iff\<close>)

lemma or_1_and_1: "(x OR 1) AND 1 = (1 :: ARMword)"
  by (intro bit_word_eqI) (auto simp: bit_simps bit_1_iff)

lemma alloc_form:
  assumes "mmu_cache_alloc B s c va pa = Some (p, s', c')"
  shows "\<exists>l. c' = upd_line p (\<lambda>_. l) (c\<lparr>c_sets := (c_sets c)[fst p := (c_sets c ! fst p)
            \<lparr>cs_cycle := if cs_cycle (c_sets c ! fst p) + 1 = c_way c then 0 else cs_cycle (c_sets c ! fst p) + 1\<rparr>]\<rparr>)
     \<and> cl_tag l = va_cache_align va c OR 1
     \<and> p = (va_cache_set (va_cache_align va c) c, cs_cycle (c_sets c ! va_cache_set (va_cache_align va c) c))"
  using assms by (auto simp: mmu_cache_alloc_def Let_def split: option.splits)

text \<open>
  After an allocation for an address that missed, every address of the same line hits
  the allocated line, and the cache stays well formed.
\<close>

theorem cache_alloc_search:
  assumes "cache_wf c" "c_width c = 2 ^ k" "0 < k" "k < 32"
    and "mmu_cache_search c va = None" "mmu_cache_alloc B s c va pa = Some (p, s', c')"
    and "va_cache_align va' c = va_cache_align va c"
  shows "cache_wf c' \<and> mmu_cache_search c' va' = Some p"
proof -
  let ?st = "va_cache_set va c" and ?al = "va_cache_align va c"
  let ?cs = "c_sets c ! ?st"
  have st: "va_cache_set ?al c = ?st" "va_cache_set va' c = ?st"
    using va_cache_set_aligned [OF assms(2,4), of ?al va] va_cache_set_aligned [OF assms(2,4), of va' va]
      align_align [OF assms(2,4)] assms(7) by simp_all
  obtain l where l: "c' = upd_line p (\<lambda>_. l) (c\<lparr>c_sets := (c_sets c)[?st := ?cs\<lparr>cs_cycle :=
      if cs_cycle ?cs + 1 = c_way c then 0 else cs_cycle ?cs + 1\<rparr>]\<rparr>)" "cl_tag l = ?al OR 1" "p = (?st, cs_cycle ?cs)"
    using alloc_form [OF assms(6)] unfolding st by (metis fst_conv)
  have n: "?st < length (c_sets c)" by (rule va_cache_set_less [OF assms(1)])
  then have cs: "length (cs_lines ?cs) = c_way c" "cs_cycle ?cs < c_way c" "c_way c > 0" using assms(1) by (auto simp: cache_wf_def)
  have c': "c_sets c' = (c_sets c)[?st := ?cs\<lparr>cs_cycle := if cs_cycle ?cs + 1 = c_way c then 0 else cs_cycle ?cs + 1,
        cs_lines := (cs_lines ?cs)[cs_cycle ?cs := l]\<rparr>]"
      "c_width c' = c_width c" "c_set c' = c_set c" "c_way c' = c_way c"
    using n unfolding l(1,3) by (simp_all add: upd_line_def Let_def)
  have "cache_wf c'" using assms(1) cs by (auto simp: cache_wf_def c' dest!: set_update_subset_insert [THEN subsetD])
  moreover have "line_hit c' ?al l"
    using align_valid_tag [OF assms(2-4), of va] l(2) by (simp add: line_hit_def va_cache_align_def c' or_1_and_1)
  moreover have "line_hit c' = line_hit c" by (simp add: fun_eq_iff line_hit_def va_cache_align_def c')
  moreover have "first_from (line_hit c ?al) 0 (cs_lines ?cs) = None"
    using assms(5) by (simp add: mmu_cache_search_def Let_def)
  ultimately have "cache_wf c' \<and> first_from (line_hit c' ?al) 0 ((cs_lines ?cs)[cs_cycle ?cs := l]) = Some (cs_cycle ?cs)"
    using first_from_update [of "line_hit c ?al" "cs_lines ?cs" "cs_cycle ?cs" l] cs by simp
  moreover have "va_cache_set va' c' = ?st" "va_cache_align va' c' = ?al"
    using st(2) assms(7) by (simp_all add: va_cache_set_def va_cache_align_def c')
  ultimately show ?thesis using n l(3) by (simp add: mmu_cache_search_def Let_def c'(1))
qed

section \<open>Write-back\<close>

text \<open>The words of the halves marked dirty, with their addresses.\<close>

definition dirty_words :: "cache_t \<Rightarrow> cache_line_t \<Rightarrow> (ARMword \<times> ARMword) list" where
  "dirty_words c l =
     (let nw = unat (drop_bit 2 (c_width c)) in
      map (\<lambda>i. (cl_pa l + 4 * of_nat i, cl_data l ! i))
        (filter (\<lambda>i. cl_tag l AND (if i < nw div 2 then TAG_FIRST_HALF_DIRTY else TAG_LAST_HALF_DIRTY) \<noteq> 0) [0..<nw]))"

lemma write_words_seq:
  "write_words B s pa ds = store_seq (mem_write_word B) (map (\<lambda>i. (pa + 4 * of_nat i, ds ! i)) [0..<length ds]) s"
proof (induction ds arbitrary: s pa)
  case (Cons d ds)
  have "map (\<lambda>i. (pa + 4 * of_nat i, (d # ds) ! i)) [0..<length (d # ds)]
      = (pa, d) # map (\<lambda>i. (pa + 4 + 4 * of_nat i, ds ! i)) [0..<length ds]"
    by (simp add: upt_conv_Cons map_Suc_upt [symmetric] algebra_simps del: upt_Suc)
  then show ?case using Cons.IH [of _ "pa + 4"] by (simp split: option.splits)
qed simp

lemma take_half_words:
  "map (\<lambda>i. (pa + 4 * of_nat i, take h ds ! i)) [0..<h] = map (\<lambda>i. (pa + 4 * of_nat i, ds ! i)) [0..<h]"
  by simp

lemma drop_half_words:
  assumes "length ds = 2 * h"
  shows "map (\<lambda>i. (pa + push_bit 2 (of_nat h) + 4 * of_nat i, take h (drop h ds) ! i)) [0..<length (take h (drop h ds))]
     = map (\<lambda>i. (pa + 4 * of_nat i, ds ! i)) [h..<2 * h]"
proof -
  have "[h..<2 * h] = map (\<lambda>i. i + h) [0..<h]" using map_add_upt [of h h] by (simp add: mult_2)
  then show ?thesis using assms by (simp add: push_bit_eq_mult algebra_simps)
qed

lemma and_6_cases:
  "x AND NOT 1 AND (2 OR 4) = (if x AND 2 \<noteq> 0 then 2 else 0) OR (if x AND 4 \<noteq> 0 then 4 else (0 :: ARMword))"
proof -
  have "x AND 2 = 0 \<longleftrightarrow> \<not> bit x 1" "x AND 4 = 0 \<longleftrightarrow> \<not> bit x 2" for x :: ARMword
    using and_exp_eq_0_iff_not_bit [of x 1] and_exp_eq_0_iff_not_bit [of x 2] by simp_all
  then show ?thesis by (intro word32_eqI) (simp add: bit_simps)
qed

text \<open>
  C37: writing a valid line back writes exactly the words of its dirty halves, each at the
  line's physical address plus its offset, in order, and clears the dirty marks.
\<close>

theorem write_back_dirty:
  assumes "cl_tag l AND TAG_VALID_FLAG \<noteq> 0" "length (cl_data l) = unat (drop_bit 2 (c_width c))" "even (length (cl_data l))"
  shows "mmu_cache_write_back B s c l =
     map_option (\<lambda>s. (s, l\<lparr>cl_tag := cl_tag l AND NOT (TAG_FIRST_HALF_DIRTY OR TAG_LAST_HALF_DIRTY)\<rparr>))
       (store_seq (mem_write_word B) (dirty_words c l) s)"
proof -
  let ?nw = "length (cl_data l)" and ?g = "\<lambda>i. (cl_pa l + 4 * of_nat i, cl_data l ! i)"
  let ?a = "cl_tag l AND 2 \<noteq> 0" and ?b = "cl_tag l AND 4 \<noteq> 0"
  obtain h where h: "?nw = 2 * h" using assms(3) by (elim evenE)
  have split: "[0..<2 * h] = [0..<h] @ [h..<2 * h]" using upt_add_eq_append [of 0 h h] by (simp add: mult_2)
  have f: "filter (\<lambda>i. cl_tag l AND (if i < h then 2 else 4) \<noteq> 0) [0..<h] = (if ?a then [0..<h] else [])"
      "filter (\<lambda>i. cl_tag l AND (if i < h then 2 else 4) \<noteq> 0) [h..<2 * h] = (if ?b then [h..<2 * h] else [])"
    by (auto simp: filter_id_conv filter_empty_conv)
  have "dirty_words c l = map ?g (filter (\<lambda>i. cl_tag l AND (if i < h then 2 else 4) \<noteq> 0) [0..<2 * h])"
    by (simp add: dirty_words_def flip: assms(2)) (simp add: h)
  then have dw: "dirty_words c l = map ?g (if ?a then [0..<h] else []) @ map ?g (if ?b then [h..<2 * h] else [])"
    unfolding split filter_append f by simp
  have all: "map ?g [0..<2 * h] = map ?g [0..<h] @ map ?g [h..<2 * h]" unfolding split by simp
  note k = and_6_cases [of "cl_tag l"]
  have nw: "unat (drop_bit 2 (c_width c)) = 2 * h" using assms(2) h by simp
  have wr: "write_words B s (fst (dirty_range c l)) (snd (dirty_range c l)) = store_seq (mem_write_word B) (dirty_words c l) s"
    if ab: "?a \<or> ?b"
  proof -
    consider "?a" "?b" | "?a" "\<not> ?b" | "\<not> ?a" "?b" using ab by blast
    then show ?thesis
    proof cases
      case 1
      then show ?thesis unfolding write_words_seq dw dirty_range_def Let_def k nw using h all by simp
    next
      case 2
      then show ?thesis unfolding write_words_seq dw dirty_range_def Let_def k nw
        using h by (simp add: take_half_words)
    next
      case 3
      then show ?thesis unfolding write_words_seq dw dirty_range_def Let_def k nw
        using drop_half_words [OF h, of "cl_pa l"] h by simp
    qed
  qed
  show ?thesis
  proof (cases "?a \<or> ?b")
    case True
    then show ?thesis using assms(1) wr [OF True] unfolding mmu_cache_write_back_def k
      by (auto split: option.splits)
  next
    case False
    have "cl_tag l AND NOT (2 OR 4) = cl_tag l"
      using False and_exp_eq_0_iff_not_bit [of "cl_tag l" 1] and_exp_eq_0_iff_not_bit [of "cl_tag l" 2]
      by (intro word32_eqI) (simp add: bit_simps)
    then show ?thesis using assms(1) False unfolding mmu_cache_write_back_def k dw by simp
  qed
qed

text \<open>An example: the geometry of the ARM7100 cache.\<close>

definition ex_cache :: cache_t where
  "ex_cache = mmu_cache_init 16 4 128 CACHE_WRITE_BACK (\<lambda>_ _. \<lparr>cl_tag = 0, cl_pa = 0, cl_data = [0, 0, 0, 0]\<rparr>)"

lemma ex_line_dirty:
  "dirty_words ex_cache \<lparr>cl_tag = 0x105, cl_pa = 0x40000100, cl_data = [1, 2, 3, 4]\<rparr> = [(0x40000108, 3), (0x4000010c, 4)]"
proof -
  have "unat (drop_bit 2 (c_width ex_cache)) = 4" by (simp add: ex_cache_def mmu_cache_init_def drop_bit_eq_div)
  moreover have "[0..<4] = [0, 1, 2, 3 :: nat]" by (simp add: upt_rec)
  ultimately show ?thesis by (simp add: dirty_words_def)
qed

theorem write_back_dirty_witness:
  "mmu_cache_write_back (undefined :: unit bus_ops) (ARMul_NewState undefined) ex_cache \<lparr>cl_tag = 0x105, cl_pa = 0x40000100, cl_data = [1, 2, 3, 4]\<rparr> =
     map_option (\<lambda>s. (s, \<lparr>cl_tag = 0x101, cl_pa = 0x40000100, cl_data = [1, 2, 3, 4]\<rparr>))
       (store_seq (mem_write_word undefined) [(0x40000108, 3), (0x4000010c, 4)] (ARMul_NewState undefined))"
proof -
  have "unat (drop_bit 2 (c_width ex_cache)) = 4" by (simp add: ex_cache_def mmu_cache_init_def drop_bit_eq_div)
  then show ?thesis
    using write_back_dirty [of "\<lparr>cl_tag = 0x105, cl_pa = 0x40000100, cl_data = [1, 2, 3, 4]\<rparr>" ex_cache undefined "ARMul_NewState undefined"]
    unfolding ex_line_dirty by simp
qed

theorem cache_alloc_search_witness:
  "\<exists>p s' c'. mmu_cache_alloc (undefined :: unit bus_ops) (ARMul_NewState undefined) (ex_cache\<lparr>c_w_mode := CACHE_WRITE_THROUGH\<rparr>) 0x1234 0 = Some (p, s', c')
     \<and> mmu_cache_search c' 0x123c = Some p"
proof -
  let ?c = "ex_cache\<lparr>c_w_mode := CACHE_WRITE_THROUGH\<rparr>"
  have wf: "cache_wf ?c" using cache_init_wf [of 4 128 16 CACHE_WRITE_THROUGH] by (simp add: cache_wf_def ex_cache_def mmu_cache_init_def)
  have "\<exists>p s' c'. mmu_cache_alloc (undefined :: unit bus_ops) (ARMul_NewState undefined) ?c 0x1234 0 = Some (p, s', c')"
    by (simp add: mmu_cache_alloc_def Let_def alloc_fill_def)
  then obtain p s' c' where a: "mmu_cache_alloc (undefined :: unit bus_ops) (ARMul_NewState undefined) ?c 0x1234 0 = Some (p, s', c')" by blast
  have "mmu_cache_search ?c 0x1234 = None"
    using va_cache_set_less [OF wf, of "0x1234"]
    by (simp add: mmu_cache_search_def Let_def first_from_None ex_cache_def mmu_cache_init_def line_hit_def)
  moreover have "c_width ?c = 2 ^ 4" "va_cache_align 0x123c ?c = va_cache_align 0x1234 ?c"
    by (simp_all add: ex_cache_def mmu_cache_init_def va_cache_align_def)
  moreover have "(0::nat) < 4" "(4::nat) < 32" by simp_all
  ultimately have "mmu_cache_search c' 0x123c = Some p"
    using cache_alloc_search [OF wf _ _ _ _ a] by blast
  then show ?thesis using a by blast
qed

end
