(* ===== verification/Arm_Mmu.thy ===== *)
theory Arm_Mmu
  imports Arm_Tlb Arm_Cache
begin

text \<open>
  The memory management unit of the ARM7 cores (\<open>mmu/arm7100_mmu.c\<close>) and the dispatch to
  it (\<open>armmmu.c\<close>): accesses with the unit off, alignment faults, the write-through cache,
  translation and access checks, and the registers of coprocessor 15.
\<close>

section \<open>State\<close>

text \<open>
  The unit's cache and buffer (\<open>state->mmu.u.arm7100_mmu\<close>) and the processor it belongs to
  (\<open>state->cpu\<close>) are kept beside the machine's own devices.
\<close>

record 'y mmu_hw =
  a71_cache :: cache_t
  a71_tlb :: tlb_t
  cpu_arch_name :: string
  cpu_val :: ARMword
  cpu_mask :: ARMword
  dev :: 'y

type_synonym 'y ustate = "'y mmu_hw mstate"

definition the_cache :: "'y ustate \<Rightarrow> cache_t" where
  "the_cache s = a71_cache (iosys (mach s))"

definition the_tlb :: "'y ustate \<Rightarrow> tlb_t" where
  "the_tlb s = a71_tlb (iosys (mach s))"

definition set_cache :: "cache_t \<Rightarrow> 'y ustate \<Rightarrow> 'y ustate" where
  "set_cache c s = s\<lparr>mach := (mach s)\<lparr>iosys := (iosys (mach s))\<lparr>a71_cache := c\<rparr>\<rparr>\<rparr>"

definition set_tlb :: "tlb_t \<Rightarrow> 'y ustate \<Rightarrow> 'y ustate" where
  "set_tlb t s = s\<lparr>mach := (mach s)\<lparr>iosys := (iosys (mach s))\<lparr>a71_tlb := t\<rparr>\<rparr>\<rparr>"

section \<open>Reads\<close>

definition mem_read_type :: "'x bus_ops \<Rightarrow> access_size \<Rightarrow> 'x mstate \<Rightarrow> ARMword \<Rightarrow> (ARMword \<times> 'x mstate) option" where
  "mem_read_type B z = (case z of Byte \<Rightarrow> mem_read_byte B | Halfword \<Rightarrow> mem_read_halfword B | Word \<Rightarrow> mem_read_word B)"

definition mem_write_type :: "'x bus_ops \<Rightarrow> access_size \<Rightarrow> 'x mstate \<Rightarrow> ARMword \<Rightarrow> ARMword \<Rightarrow> 'x mstate option" where
  "mem_write_type B z = (case z of Byte \<Rightarrow> mem_write_byte B | Halfword \<Rightarrow> mem_write_halfword B | Word \<Rightarrow> mem_write_word B)"

definition misaligned :: "'m ARMul_State \<Rightarrow> access_size \<Rightarrow> ARMword \<Rightarrow> bool" where
  "misaligned s z va \<longleftrightarrow>
     va AND 3 \<noteq> 0 \<and> z = Word \<and> control_bit s CONTROL_ALIGN_FAULT
     \<or> va AND 1 \<noteq> 0 \<and> z = Halfword \<and> control_bit s CONTROL_ALIGN_FAULT"

definition line_word :: "ARMword \<Rightarrow> nat" where
  "line_word va = unat (drop_bit 2 va AND 3)"

text \<open>What an access takes out of a cached word, and what it puts into one.\<close>

definition pick :: "access_size \<Rightarrow> ARMword \<Rightarrow> ARMword \<Rightarrow> ARMword \<Rightarrow> ARMword" where
  "pick z bigend va temp =
     (case z of
        Word \<Rightarrow> temp
      | Halfword \<Rightarrow> lane_read 0xffff (half_offset bigend va) temp
      | Byte \<Rightarrow> lane_read 0xff (byte_offset bigend va) temp)"

definition put :: "access_size \<Rightarrow> ARMword \<Rightarrow> ARMword \<Rightarrow> ARMword \<Rightarrow> ARMword \<Rightarrow> ARMword" where
  "put z bigend va data temp =
     (case z of
        Word \<Rightarrow> data
      | Halfword \<Rightarrow> lane_write 0xffff (half_offset bigend va) data temp
      | Byte \<Rightarrow> lane_write 0xff (byte_offset bigend va) data temp)"

text \<open>
  Translation and access check of one access: a fault, or the physical address with the
  entry it came from.
\<close>

definition a71_translate :: "'y mmu_hw bus_ops \<Rightarrow> 'y ustate \<Rightarrow> ARMword \<Rightarrow> bool \<Rightarrow>
    ((fault_t + ARMword \<times> tlb_entry_t) \<times> 'y ustate) option" where
  "a71_translate B s va rd =
     (case translate B s va (the_tlb s) of
        None \<Rightarrow> None
      | Some (Inl f, s, t) \<Rightarrow> Some (Inl f, set_tlb t s)
      | Some (Inr i, s, t) \<Rightarrow>
         (let s = set_tlb t s; e = tlb_entrys t ! i in
          case check_access s va e rd of
            None \<Rightarrow> None
          | Some (f, s) \<Rightarrow>
              if f \<noteq> NO_FAULT then Some (Inl f, s) else Some (Inr (tlb_va_to_pa e va, e), s)))"

text \<open>A miss on a cacheable page: allocate a line and fetch its four words.\<close>

definition a71_fetch_line :: "'y mmu_hw bus_ops \<Rightarrow> 'y ustate \<Rightarrow> ARMword \<Rightarrow> ARMword \<Rightarrow> (ARMword list \<times> 'y ustate) option" where
  "a71_fetch_line B s va phys_addr =
     (case mmu_cache_alloc B s (the_cache s) va 0 of
        None \<Rightarrow> None
      | Some (p, s, c) \<Rightarrow>
         (case read_words B s (phys_addr AND 0xFFFFFFF0) 4 of
            None \<Rightarrow> None
          | Some (ds, s) \<Rightarrow>
             Some (ds, set_cache (upd_line p (\<lambda>l. l\<lparr>cl_data := ds, cl_tag := va_cache_align va c OR TAG_VALID_FLAG\<rparr>) c) s)))"

definition a71_mmu_read :: "'y mmu_hw bus_ops \<Rightarrow> access_size \<Rightarrow> 'y ustate \<Rightarrow> ARMword \<Rightarrow> ((fault_t + ARMword) \<times> 'y ustate) option" where
  "a71_mmu_read B z s va =
     (let ok = map_option (\<lambda>(d, s). (Inr d, s)) in
      if \<not> control_bit s CONTROL_MMU then ok (mem_read_type B z s va)
      else if misaligned s z va then Some (Inl ALIGNMENT_FAULT, s)
      else case (if control_bit s CONTROL_CACHE then mmu_cache_search (the_cache s) va else None) of
        Some p \<Rightarrow> Some (Inr (pick z (bigendSig s) va (cl_data (get_line (the_cache s) p) ! line_word va)), s)
      | None \<Rightarrow>
         (case a71_translate B s va True of
            None \<Rightarrow> None
          | Some (Inl f, s) \<Rightarrow> Some (Inl f, s)
          | Some (Inr (phys_addr, e), s) \<Rightarrow>
              if te_perms e AND 0x08 \<noteq> 0 \<and> control_bit s CONTROL_CACHE then
                map_option (\<lambda>(ds, s). (Inr (pick z (bigendSig s) va (ds ! line_word va)), s)) (a71_fetch_line B s va phys_addr)
              else ok (mem_read_type B z s phys_addr)))"

section \<open>Writes\<close>

definition a71_mmu_write :: "'y mmu_hw bus_ops \<Rightarrow> access_size \<Rightarrow> 'y ustate \<Rightarrow> ARMword \<Rightarrow> ARMword \<Rightarrow> (fault_t \<times> 'y ustate) option" where
  "a71_mmu_write B z s va data =
     (let ok = map_option (\<lambda>s. (NO_FAULT, s)) in
      if \<not> control_bit s CONTROL_MMU then ok (mem_write_type B z s va data)
      else if misaligned s z va then Some (ALIGNMENT_FAULT, s)
      else
       (let s = (case (if control_bit s CONTROL_CACHE then mmu_cache_search (the_cache s) va else None) of
                   None \<Rightarrow> s
                 | Some p \<Rightarrow>
                     set_cache (upd_line p (\<lambda>l. l\<lparr>cl_data := (cl_data l)
                       [line_word va := put z (bigendSig s) va data (cl_data l ! line_word va)]\<rparr>) (the_cache s)) s) in
        case a71_translate B s va False of
          None \<Rightarrow> None
        | Some (Inl f, s) \<Rightarrow> Some (f, s)
        | Some (Inr (phys_addr, e), s) \<Rightarrow> ok (mem_write_type B z s phys_addr data)))"

section \<open>Registers\<close>

abbreviation (input) MMU_ID :: nat where "MMU_ID \<equiv> 0"
abbreviation (input) MMU_CONTROL :: nat where "MMU_CONTROL \<equiv> 1"
abbreviation (input) MMU_TRANSLATION_TABLE_BASE :: nat where "MMU_TRANSLATION_TABLE_BASE \<equiv> 2"
abbreviation (input) MMU_DOMAIN_ACCESS_CONTROL :: nat where "MMU_DOMAIN_ACCESS_CONTROL \<equiv> 3"
abbreviation (input) MMU_FAULT_STATUS :: nat where "MMU_FAULT_STATUS \<equiv> 5"
abbreviation (input) MMU_FAULT_ADDRESS :: nat where "MMU_FAULT_ADDRESS \<equiv> 6"
abbreviation (input) MMU_CACHE_OPS :: nat where "MMU_CACHE_OPS \<equiv> 7"
abbreviation (input) MMU_TLB_OPS :: nat where "MMU_TLB_OPS \<equiv> 8"

definition a71_mmu_mrc :: "'y ustate \<Rightarrow> ARMword \<Rightarrow> ARMword" where
  "a71_mmu_mrc s instr =
     (let creg = unat (BITS instr 16 19 AND 15) in
      if creg = MMU_ID then cpu_val (iosys (mach s))
      else if creg = MMU_CONTROL then control (mmu s)
      else if creg = MMU_TRANSLATION_TABLE_BASE then translation_table_base (mmu s)
      else if creg = MMU_DOMAIN_ACCESS_CONTROL then domain_access_control (mmu s)
      else if creg = MMU_FAULT_STATUS then fault_status (mmu s)
      else if creg = MMU_FAULT_ADDRESS then fault_address (mmu s)
      else 0)"

definition a71_flush_cache :: "'y mmu_hw bus_ops \<Rightarrow> 'y ustate \<Rightarrow> 'y ustate option" where
  "a71_flush_cache B s = map_option (\<lambda>(s, c). set_cache c s) (mmu_cache_invalidate_all B s (the_cache s))"

definition a71_mmu_mcr :: "'y mmu_hw bus_ops \<Rightarrow> 'y ustate \<Rightarrow> ARMword \<Rightarrow> ARMword \<Rightarrow> 'y ustate option" where
  "a71_mmu_mcr B s instr value =
     (let creg = unat (BITS instr 16 19 AND 15);
          opc = BITS instr 5 7 AND 7;
          v4 = (take 5 (cpu_arch_name (iosys (mach s))) = ''armv4'');
          flush = set_tlb (mmu_tlb_invalidate_all (the_tlb s)) s;
          flush1 = set_tlb (mmu_tlb_invalidate_entry (the_tlb s) value) s in
      if creg = MMU_CONTROL then Some (s\<lparr>mmu := (mmu s)\<lparr>control := (value OR 0x70) AND 0xFFFF\<rparr>\<rparr>)
      else if creg = MMU_TRANSLATION_TABLE_BASE then
        Some (s\<lparr>mmu := (mmu s)\<lparr>translation_table_base := value AND 0xFFFFC000\<rparr>\<rparr>)
      else if creg = MMU_DOMAIN_ACCESS_CONTROL then Some (s\<lparr>mmu := (mmu s)\<lparr>domain_access_control := value\<rparr>\<rparr>)
      else if v4 then
        (if creg = MMU_FAULT_STATUS then Some (s\<lparr>mmu := (mmu s)\<lparr>fault_status := value AND 0xFF\<rparr>\<rparr>)
         else if creg = MMU_FAULT_ADDRESS then Some (s\<lparr>mmu := (mmu s)\<lparr>fault_address := value\<rparr>\<rparr>)
         else if creg = MMU_CACHE_OPS then (if opc = 0 then a71_flush_cache B s else Some s)
         else if creg = MMU_TLB_OPS then
           Some (if opc = 0 then flush else if opc = 1 then flush1 else s)
         else Some s)
      else
        (if creg = 5 then Some flush
         else if creg = 6 then Some flush1
         else if creg = 7 then a71_flush_cache B s
         else Some s))"

text \<open>The address the code translator uses; \<open>Inl\<close> is the result -1.\<close>

definition a71_mmu_v2p_dbct :: "'y mmu_hw bus_ops \<Rightarrow> 'y ustate \<Rightarrow> ARMword \<Rightarrow> ((unit + ARMword) \<times> 'y ustate) option" where
  "a71_mmu_v2p_dbct B s va =
     (if misaligned s Word va then Some (Inl (), s)
      else if \<not> control_bit s CONTROL_MMU then Some (Inr va, s)
      else case a71_translate B s va True of
        None \<Rightarrow> None
      | Some (Inl f, s) \<Rightarrow> Some (Inl (), s)
      | Some (Inr (phys_addr, e), s) \<Rightarrow> Some (Inr phys_addr, s))"

section \<open>Initialisation and dispatch\<close>

definition mmu_regs_init :: "'m ARMul_State \<Rightarrow> 'm ARMul_State" where
  "mmu_regs_init s =
     s\<lparr>mmu := (mmu s)\<lparr>control := 0x70, translation_table_base := 0xDEADC0DE,
        domain_access_control := 0xDEADC0DE, fault_status := 0, fault_address := 0\<rparr>\<rparr>"

definition a71_mmu_init :: "(nat \<Rightarrow> nat \<Rightarrow> cache_line_t) \<Rightarrow> (nat \<Rightarrow> tlb_entry_t) \<Rightarrow> 'y ustate \<Rightarrow> 'y ustate" where
  "a71_mmu_init fresh_lines fresh_entries s =
     set_tlb (mmu_tlb_init 64 fresh_entries)
       (set_cache (mmu_cache_init 16 4 128 CACHE_WRITE_THROUGH fresh_lines) (mmu_regs_init s))"

datatype mmu_kind = sa_mmu_ops | xscale_mmu_ops | arm7100_mmu | arm920t_mmu_ops | arm926ejs_mmu_ops

text \<open>
  The choice \<open>mmu_init\<close> makes; \<open>None\<close> is \<open>skyeye_exit\<close>.  The SA-1100, SA-1110, PXA250 and
  PXA270 numbers are those of \<open>armdefs.h\<close>.
\<close>

definition mmu_kind_of :: "ARMword \<Rightarrow> mmu_kind option" where
  "mmu_kind_of v =
     (if v = 0x4401a100 \<or> v = 0x6901b110 then Some sa_mmu_ops
      else if v = 0x69052100 \<or> v = 0x69054110 then Some xscale_mmu_ops
      else if v = 0x41807200 \<or> v = 0x41007700 \<or> v = 0x41007100 then Some arm7100_mmu
      else if v = 0x41009200 then Some arm920t_mmu_ops
      else if v = 0x41069260 then Some arm926ejs_mmu_ops
      else None)"

text \<open>\<open>other_init\<close> stands for the \<open>init\<close> functions of the units of other processors.\<close>

definition mmu_init :: "(nat \<Rightarrow> nat \<Rightarrow> cache_line_t) \<Rightarrow> (nat \<Rightarrow> tlb_entry_t) \<Rightarrow> (mmu_kind \<Rightarrow> 'y ustate \<Rightarrow> 'y ustate) \<Rightarrow>
    'y ustate \<Rightarrow> (mmu_kind \<times> 'y ustate) option" where
  "mmu_init fresh_lines fresh_entries other_init s =
     (let s = mmu_regs_init s; s = s\<lparr>mmu := (mmu s)\<lparr>process_id := 0\<rparr>\<rparr> in
      case mmu_kind_of (cpu_val (iosys (mach s)) AND cpu_mask (iosys (mach s))) of
        None \<Rightarrow> None
      | Some k \<Rightarrow>
          Some (k, if k = arm7100_mmu then a71_mmu_init fresh_lines fresh_entries s else other_init k s))"

text \<open>\<open>mmu_exit\<close> only frees the tables, which \<open>mmu_init\<close> allocates again.\<close>

definition mmu_reset :: "(nat \<Rightarrow> nat \<Rightarrow> cache_line_t) \<Rightarrow> (nat \<Rightarrow> tlb_entry_t) \<Rightarrow> (mmu_kind \<Rightarrow> 'y ustate \<Rightarrow> 'y ustate) \<Rightarrow>
    'y ustate \<Rightarrow> 'y ustate option" where
  "mmu_reset fresh_lines fresh_entries other_init s = map_option snd (mmu_init fresh_lines fresh_entries other_init s)"

record 'm mmu_ops =
  ops_read_byte :: "'m ARMul_State \<Rightarrow> ARMword \<Rightarrow> ((fault_t + ARMword) \<times> 'm ARMul_State) option"
  ops_write_byte :: "'m ARMul_State \<Rightarrow> ARMword \<Rightarrow> ARMword \<Rightarrow> (fault_t \<times> 'm ARMul_State) option"
  ops_read_halfword :: "'m ARMul_State \<Rightarrow> ARMword \<Rightarrow> ((fault_t + ARMword) \<times> 'm ARMul_State) option"
  ops_write_halfword :: "'m ARMul_State \<Rightarrow> ARMword \<Rightarrow> ARMword \<Rightarrow> (fault_t \<times> 'm ARMul_State) option"
  ops_read_word :: "'m ARMul_State \<Rightarrow> ARMword \<Rightarrow> ((fault_t + ARMword) \<times> 'm ARMul_State) option"
  ops_write_word :: "'m ARMul_State \<Rightarrow> ARMword \<Rightarrow> ARMword \<Rightarrow> (fault_t \<times> 'm ARMul_State) option"
  ops_load_instr :: "'m ARMul_State \<Rightarrow> ARMword \<Rightarrow> ((fault_t + ARMword) \<times> 'm ARMul_State) option"

definition arm7100_mmu_ops :: "'y mmu_hw bus_ops \<Rightarrow> ('y mmu_hw mem_sys) mmu_ops" where
  "arm7100_mmu_ops B =
     \<lparr>ops_read_byte = a71_mmu_read B Byte, ops_write_byte = a71_mmu_write B Byte,
      ops_read_halfword = a71_mmu_read B Halfword, ops_write_halfword = a71_mmu_write B Halfword,
      ops_read_word = a71_mmu_read B Word, ops_write_word = a71_mmu_write B Word,
      ops_load_instr = a71_mmu_read B Word\<rparr>"

section \<open>Refused writes\<close>

text \<open>An example: the memory map of the memory theory with a small cache and buffer.\<close>

definition ex_hw :: "unit mmu_hw" where
  "ex_hw = \<lparr>a71_cache = \<lparr>c_width = 16, c_way = 1, c_set = 1, c_w_mode = CACHE_WRITE_THROUGH,
       c_sets = [\<lparr>cs_lines = [\<lparr>cl_tag = 1, cl_pa = 0, cl_data = [1, 2, 3, 4]\<rparr>], cs_cycle = 0\<rparr>]\<rparr>,
     a71_tlb = \<lparr>tlb_cycle = 0, tlb_entrys = [\<lparr>te_virt_addr = 0, te_phys_addr = 0x40000000, te_perms = 0x80C,
        te_domain = 0, te_mapping = TLB_SECTION\<rparr>]\<rparr>,
     cpu_arch_name = ''armv4'', cpu_val = 0x41007700, cpu_mask = 0xfffffff0, dev = ()\<rparr>"

definition ex_hw_mem :: "unit mmu_hw mem_sys" where
  "ex_hw_mem = \<lparr>current_num = 3, mem_banks = ex_banks, mbp = None, global_mbp = None,
     rom = (\<lambda>_ _. 0), rom_size = (\<lambda>_. 0), iosys = ex_hw\<rparr>"

definition ex_us :: "unit ustate" where
  "ex_us = ARMul_NewState ex_hw_mem"

lemma ex_us_wf: "mem_wf (mach ex_us)"
  using ex_mem_wf by (simp add: ex_us_def ex_hw_mem_def ex_mem_def ARMul_NewState_def mem_wf_def live_banks_def)

lemma ex_us_live: "live_banks (mach ex_us) = take 3 ex_banks"
  by (simp add: ex_us_def ex_hw_mem_def ARMul_NewState_def live_banks_def ex_banks_def)

text \<open>
  A word write that hits the cache and is then refused by the access check returns its
  fault, and yet the refused data is in the cache: the next read returns it.
\<close>

theorem a71_faulting_write_cached:
  assumes "control_bit s CONTROL_MMU" "control_bit s CONTROL_CACHE" "va AND 3 = 0"
    and "mmu_cache_search (the_cache s) va = Some p" "place_ok (the_cache s) p"
    and "line_word va < length (cl_data (get_line (the_cache s) p))"
    and "mmu_tlb_search (the_tlb s) va = Some i"
    and "map_option fst (check_access s va (tlb_entrys (the_tlb s) ! i) False) = Some f" "f \<noteq> NO_FAULT"
  shows "\<exists>s'. a71_mmu_write B Word s va data = Some (f, s') \<and> a71_mmu_read B Word s' va = Some (Inr data, s')"
proof -
  let ?e = "tlb_entrys (the_tlb s) ! i"
  define c where "c = upd_line p (\<lambda>l. l\<lparr>cl_data := (cl_data l)[line_word va := data]\<rparr>) (the_cache s)"
  define s1 where "s1 = set_tlb (the_tlb s) (set_last_domain (the_tlb s) i (set_cache c s))"
  have s1: "mmu s1 = (mmu s)\<lparr>last_domain := te_domain ?e\<rparr>" "Mode s1 = Mode s" "the_cache s1 = c" "bigendSig s1 = bigendSig s"
    by (simp_all add: s1_def set_tlb_def set_last_domain_def set_cache_def the_cache_def)
  have "map_option fst (check_access s1 va ?e False) = Some f"
    using assms(8) check_access_fst [of s1 s va ?e False] s1 by simp
  then obtain t where t: "check_access s1 va ?e False = Some (f, t)" by auto
  then have "t = s1\<lparr>mmu := (mmu s1)\<lparr>last_domain := te_domain ?e\<rparr>\<rparr>" by (rule check_access_state)
  then have ts1: "t = s1" using s1(1) by simp
  have "misaligned s Word va = False" using assms(3) by (simp add: misaligned_def)
  then have "a71_mmu_write B Word s va data =
      (case a71_translate B (set_cache c s) va False of None \<Rightarrow> None | Some (Inl f, s) \<Rightarrow> Some (f, s)
        | Some (Inr (phys_addr, e), s) \<Rightarrow> map_option (\<lambda>s. (NO_FAULT, s)) (mem_write_type B Word s phys_addr data))"
    using assms(1,2,4) by (simp add: a71_mmu_write_def Let_def c_def put_def)
  also have "a71_translate B (set_cache c s) va False = Some (Inl f, s1)"
    using assms(7,9) t ts1 by (simp add: a71_translate_def translate_def the_tlb_def set_cache_def s1_def Let_def)
  finally have w: "a71_mmu_write B Word s va data = Some (f, s1)" by simp
  have "control_bit s1 CONTROL_MMU" "control_bit s1 CONTROL_CACHE" "\<not> misaligned s1 Word va"
    using assms(1-3) s1(1) by (simp_all add: control_bit_def misaligned_def)
  moreover have "mmu_cache_search c va = Some p" unfolding c_def using assms(4) by (simp add: search_upd_data)
  moreover have "cl_data (get_line c p) ! line_word va = data"
    using assms(5,6) by (simp add: c_def get_upd_line_same)
  ultimately have "a71_mmu_read B Word s1 va = Some (Inr data, s1)"
    by (simp add: a71_mmu_read_def s1(3) pick_def)
  then show ?thesis using w by blast
qed

text \<open>An example: user mode, a section that only privileged modes may write.\<close>

definition ex_user :: "unit ustate" where
  "ex_user = ex_us\<lparr>Mode := USER32MODE, mmu := (mmu ex_us)\<lparr>control := 0x75, domain_access_control := 1\<rparr>\<rparr>"

theorem a71_faulting_write_cached_witness:
  "\<exists>s'. a71_mmu_write undefined Word ex_user 4 99 = Some (SECTION_PERMISSION_FAULT, s')
     \<and> a71_mmu_read undefined Word s' 4 = Some (Inr 99, s')"
proof -
  have hw: "the_cache ex_user = a71_cache ex_hw" "the_tlb ex_user = a71_tlb ex_hw"
    by (simp_all add: ex_user_def ex_us_def ex_hw_mem_def the_cache_def the_tlb_def ARMul_NewState_def)
  have s: "mmu_cache_search (the_cache ex_user) 4 = Some (0, 0)" unfolding hw
    by (simp add: ex_hw_def mmu_cache_search_def va_cache_set_def va_cache_align_def line_hit_def Let_def)
  have t: "mmu_tlb_search (the_tlb ex_user) 4 = Some 0" unfolding hw
    by (simp add: ex_hw_def mmu_tlb_search_def tlb_hit_def)
  have p: "map_option fst (check_access ex_user 4 (tlb_entrys (the_tlb ex_user) ! 0) False) = Some SECTION_PERMISSION_FAULT" unfolding hw
    by (simp add: ex_hw_def ex_user_def check_access_def check_perms_def control_bit_def Let_def drop_bit_eq_div)
  show ?thesis
    by (rule a71_faulting_write_cached [OF _ _ _ s _ _ t p])
      (simp_all add: hw, simp_all add: ex_user_def control_bit_def place_ok_def get_line_def ex_hw_def line_word_def drop_bit_eq_div)
qed

end
