(* ===== verification/Arm_Init.thy ===== *)
theory Arm_Init
  imports Arm_Supp
begin

text \<open>
  Start-up and exceptions, from \<open>arminit.c\<close>: the immediate-operand and
  register-count tables, processor selection, reset, and the entry into an
  exception (\<open>ARMul_Abort\<close>), with the hook \<open>ARMul_OSException\<close> of \<open>armos.c\<close>
  and the interrupt poll \<open>IntPending\<close> of \<open>armsupp.c\<close>.
\<close>

section \<open>Tables\<close>

definition ARMul_MultTable :: "nat list" where
  "ARMul_MultTable =
     [1, 2, 2, 3, 3, 4, 4, 5, 5, 6, 6, 7, 7, 8, 8, 9, 9,
      10, 10, 11, 11, 12, 12, 13, 13, 14, 14, 15, 15, 16, 16, 16]"

definition ARMul_ImmedTable :: "nat \<Rightarrow> ARMword" where
  "ARMul_ImmedTable i =
     ROTATER (of_nat i AND 0xff) (unat (drop_bit 7 (of_nat i :: ARMword) AND 0x1e))"

text \<open>
  The two nested counting loops of \<open>ARMul_EmulateInit\<close>, \<open>j\<close> running over the
  powers of two below 256, and the final multiplication by 4.
\<close>

definition ARMul_BitList :: "nat \<Rightarrow> ARMbyte" where
  "ARMul_BitList i =
     fold (\<lambda>j n. if (of_nat i :: ARMword) AND j > 0 then n + 1 else n)
       [1, 2, 4, 8, 16, 32, 64, 128] 0 * 4"

section \<open>Processor selection and reset\<close>

definition ARMul_SelectProcessor :: "'m ARMul_State \<Rightarrow> ARMword \<Rightarrow> 'm ARMul_State" where
  "ARMul_SelectProcessor s properties =
     (let s = (if properties AND 0x01 \<noteq> 0 then s\<lparr>prog32Sig := LOW, data32Sig := LOW\<rparr>
               else s\<lparr>prog32Sig := HIGH, data32Sig := HIGH\<rparr>)
      in s\<lparr>is_v4 := (if properties AND (0x40 OR 0x80) \<noteq> 0 then HIGH else LOW),
           is_v5 := (if properties AND 0x80 \<noteq> 0 then HIGH else LOW),
           is_v5e := (if properties AND 0x100 \<noteq> 0 then HIGH else LOW),
           is_XScale := (if properties AND 0x200 \<noteq> 0 then HIGH else LOW),
           is_v6 := LOW\<rparr>)"

text \<open>
  \<open>mmu_reset\<close> and \<open>mem_reset\<close> act on the machine behind the processor and are
  passed in as state transformers; \<open>None\<close> is \<open>skyeye_exit\<close>.
\<close>

definition ARMul_Reset ::
    "('m ARMul_State \<Rightarrow> 'm ARMul_State option) \<Rightarrow> ('m ARMul_State \<Rightarrow> 'm ARMul_State option)
       \<Rightarrow> 'm ARMul_State \<Rightarrow> 'm ARMul_State option" where
  "ARMul_Reset mmu_reset mem_reset s =
     (let s = s\<lparr>NextInstr := 0\<rparr>;
          s = (if prog32Sig s \<noteq> 0 then
                 (set_reg 15 0 s)\<lparr>Cpsr := INTBITS OR SVC32MODE, Mode := SVC32MODE\<rparr>
               else
                 (set_reg 15 (R15INTBITS OR SVC26MODE) s)
                   \<lparr>Cpsr := INTBITS OR SVC26MODE, Mode := SVC26MODE\<rparr>);
          s = ARMul_CPSRAltered s;
          s = FLUSHPIPE (s\<lparr>Bank := SVCBANK\<rparr>);
          s = s\<lparr>EndCondition := 0, ErrorCode := 0,
                NresetSig := HIGH, NfiqSig := HIGH, NirqSig := HIGH,
                NtransSig := (if Mode s AND 3 \<noteq> 0 then HIGH else LOW),
                abortSig := LOW, AbortAddr := 1,
                NumInstrs := 0, NumNcycles := 0, NumScycles := 0, NumIcycles := 0,
                NumCcycles := 0, NumFcycles := 0\<rparr>
      in map_option (\<lambda>s. s\<lparr>tea_break_ok := 0, tea_break_addr := 0, tea_pc := 0\<rparr>)
           (Option.bind (mmu_reset s) mem_reset))"

section \<open>Exceptions\<close>

definition ARMul_OSException :: "'m ARMul_State \<Rightarrow> ARMword \<Rightarrow> ARMword \<Rightarrow> ARMword" where
  "ARMul_OSException s vector pc = 0"

definition SETABORT :: "ARMword \<Rightarrow> ARMword \<Rightarrow> ARMword \<Rightarrow> ARMword \<Rightarrow> 'm ARMul_State \<Rightarrow> 'm ARMul_State" where
  "SETABORT temp i m d s =
     (let s = ARMul_SetSPSR s m (ARMul_GetCPSR s);
          s = ARMul_SetCPSR s ((ARMul_GetCPSR s AND NOT (EMODE s OR TBIT)) OR i OR m)
      in set_reg 14 (temp - d) s)"

abbreviation (input) CONTROL_VECTOR :: ARMword where "CONTROL_VECTOR \<equiv> 0x2000"

definition abort_return_pc :: "'m ARMul_State \<Rightarrow> ARMword" where
  "abort_return_pc s =
     (if prog32Sig s \<noteq> 0 then (if Mode s \<le> 3 then R15PC s else Reg s 15)
      else R15PC s OR ECC s OR ER15INT s OR EMODE s)"

text \<open>The \<open>switch (vector)\<close> of \<open>ARMul_Abort\<close>; \<open>temp\<close> is the return address.\<close>

definition abort_switch :: "ARMword \<Rightarrow> ARMword \<Rightarrow> 'm ARMul_State \<Rightarrow> 'm ARMul_State" where
  "abort_switch vector temp s =
     (let isz = INSN_SIZE s;
          esize = (if TFlag s \<noteq> 0 then 0 else 4);
          e2size = (if TFlag s \<noteq> 0 then - 4 else 0);
          p32 = (\<lambda>m32 m26. if prog32Sig s \<noteq> 0 then m32 else m26)
      in if vector = ARMul_ResetV then SETABORT temp INTBITS (p32 SVC32MODE SVC26MODE) 0 s
         else if vector = ARMul_UndefinedInstrV then
           SETABORT temp IBIT (p32 UNDEF32MODE SVC26MODE) isz s
         else if vector = ARMul_SWIV then SETABORT temp IBIT (p32 SVC32MODE SVC26MODE) isz s
         else if vector = ARMul_PrefetchAbortV then
           SETABORT temp IBIT (p32 ABORT32MODE SVC26MODE) esize (s\<lparr>AbortAddr := 1\<rparr>)
         else if vector = ARMul_DataAbortV then
           SETABORT temp IBIT (p32 ABORT32MODE SVC26MODE) e2size s
         else if vector = ARMul_AddrExceptnV then SETABORT temp IBIT SVC26MODE isz s
         else if vector = ARMul_IRQV then SETABORT temp IBIT (p32 IRQ32MODE IRQ26MODE) esize s
         else if vector = ARMul_FIQV then SETABORT temp INTBITS (p32 FIQ32MODE FIQ26MODE) esize s
         else s)"

definition ARMul_Abort :: "'m ARMul_State \<Rightarrow> ARMword \<Rightarrow> 'm ARMul_State" where
  "ARMul_Abort s vector =
     (let s = s\<lparr>Aborted := 0\<rparr>
      in if ARMul_OSException s vector (ARMul_GetPC s) \<noteq> 0 then s
      else
       (let s = abort_switch vector (abort_return_pc s) s
        in if Mode s > 3 then
             (let vector = (if control (mmu s) AND CONTROL_VECTOR \<noteq> 0 then vector + 0xffff0000 else vector);
                  vector = (if vector_remap_flag s \<noteq> 0 then vector + vector_remap_addr s else vector)
              in ARMul_SetR15 s vector)
           else ARMul_SetR15 s (R15CCINTMODE s OR vector)))"

definition ARMul_UndefInstr :: "'m ARMul_State \<Rightarrow> ARMword \<Rightarrow> 'm ARMul_State" where
  "ARMul_UndefInstr s instr = ARMul_Abort s ARMul_UndefinedInstrV"

definition IntPending :: "'m ARMul_State \<Rightarrow> ARMword \<times> 'm ARMul_State" where
  "IntPending s =
     (if NresetSig s = LOW then (1, ARMul_Abort s ARMul_ResetV)
      else if NfiqSig s = 0 \<and> FFLAG s = 0 then (1, ARMul_Abort s ARMul_FIQV)
      else if NirqSig s = 0 \<and> IFLAG s = 0 then (1, ARMul_Abort s ARMul_IRQV)
      else (0, s))"

section \<open>The tables hold what they are meant to hold\<close>

lemma ARMul_ImmedTable_rotr:
  assumes "i < 4096"
  shows "ARMul_ImmedTable i = word_rotr (2 * (i div 256)) (of_nat (i mod 256))"
proof -
  have i: "unat (of_nat i :: ARMword) = i" using assms by (simp add: unat_of_nat)
  have "unat (drop_bit 7 (of_nat i :: ARMword) AND 0x1e) = (i div 128) AND 30"
    by (simp add: unsigned_and_eq drop_bit_eq_div unat_div_distrib i)
  also have "\<dots> = 2 * (i div 256)"
    using assms by (subst and_30) (simp_all add: div_mult2_eq [symmetric] less_mult_imp_div_less)
  finally have r: "unat (drop_bit 7 (of_nat i :: ARMword) AND 0x1e) = 2 * (i div 256)" .
  have "i AND 255 = i mod 256"
    using take_bit_eq_mask [of 8 i] by (simp add: take_bit_eq_mod mask_eq_exp_minus_1)
  then have "of_nat i AND 0xff = (of_nat (i mod 256) :: ARMword)"
    using assms by (simp add: word_unat_eq_iff unsigned_and_eq unat_of_nat)
  then show ?thesis using assms 
    by (simp add: ARMul_ImmedTable_def r ROTATER_rotr less_mult_imp_div_less)
qed

lemma fold_count_bits:
  "fold (\<lambda>j n. if w AND j > 0 then n + 1 else n) (map (\<lambda>k. 2 ^ k) [0..<m]) 0
     = (of_nat (bits_below w m) :: ARMbyte)"
  by (induction m) (auto simp: word_gt_0 and_exp_eq_0_iff_not_bit)

lemma ARMul_BitList_count: "unat (ARMul_BitList i) = 4 * bits_below (of_nat i) 8"
proof -
  have "map (\<lambda>k. 2 ^ k) [0..<8] = [1, 2, 4, 8, 16, 32, 64, 128 :: ARMword]"
    by (simp add: upt_rec)
  then have "ARMul_BitList i = of_nat (bits_below (of_nat i) 8) * 4"
    using fold_count_bits [of "of_nat i" 8] by (simp add: ARMul_BitList_def)
  then show ?thesis
    using bits_below_le [of "of_nat i" 8] by (simp add: unat_word_ariths unat_of_nat)
qed
section \<open>Entry into an exception\<close>

text \<open>
  \<open>exc_cpsr c i m\<close> is the CPSR of an exception handler: the old one with the
  mode \<open>m\<close>, the Thumb bit clear and the interrupt bits \<open>i\<close> set.
\<close>

definition exc_cpsr :: "ARMword \<Rightarrow> ARMword \<Rightarrow> ARMword \<Rightarrow> ARMword" where
  "exc_cpsr c i m = (c AND NOT 0x3f) OR i OR m"

lemma exc_mask_simps:
  "NOT 0x3f AND 31 = (0 :: ARMword)" "31 AND 0xf80000ff = (31 :: ARMword)"
  by simp_all

lemma SETABORT_cpsr:
  assumes "flags_ok s"
  shows "(CPSR s AND NOT (Mode s OR TBIT)) = CPSR s AND NOT 0x3f"
  unfolding CPSR_fields(2) [OF assms, symmetric]
  by (rule word32_eqI) (simp add: bit_simps)

lemma SETABORT_effect:
  fixes s :: "'m ARMul_State" and temp d :: ARMword
  assumes ok: "bank_ok s" "flags_ok s" "Bank s \<noteq> DUMMYBANK" "prog32Sig s \<noteq> LOW"
    and i: "i = IBIT \<or> i = INTBITS" and m: "m AND 31 = m" "BANK_CAN_ACCESS_SPSR (ModeToBank m)"
  defines "t \<equiv> SETABORT temp i m d s"
  shows "Mode t = m" "bank_ok t" "flags_ok t" "CPSR t = exc_cpsr (CPSR s) i m"
    "Spsr t = (Spsr s)(ModeToBank m := CPSR s)" "Reg t 14 = temp - d"
    "mmu t = mmu s" "vector_remap_flag t = vector_remap_flag s" "vector_remap_addr t = vector_remap_addr s"
    "mach t = mach s" "prog32Sig t = prog32Sig s"
    "b \<noteq> DUMMYBANK \<Longrightarrow> r \<noteq> 15 \<Longrightarrow> \<not> (b = ModeToBank m \<and> r = 14) \<Longrightarrow> banked_reg t b r = banked_reg s b r"
proof -
  let ?s1 = "s\<lparr>Spsr := (Spsr s)(ModeToBank m := CPSR s)\<rparr>"
  have c1: "CPSR ?s1 = CPSR s" "bank_ok ?s1" "flags_ok ?s1" using ok
    by (simp_all add: CPSR_def ECC_def EINT_def bank_ok_def flags_ok_def)
  have t: "t = set_reg 14 (temp - d) (ARMul_SetCPSR ?s1 (exc_cpsr (CPSR s) i m))"
    using m SETABORT_cpsr [OF ok(2)] c1
    by (simp add: t_def SETABORT_def ARMul_SetSPSR_def exc_cpsr_def ARMul_GetCPSR_def Let_def)
  have ei: "i AND 0xf80000ff = i" "i AND 31 = 0" using i by auto
  have "m AND 0xf80000ff = m"
    using m(1) by (metis (no_types) and.assoc exc_mask_simps)
  moreover have "(CPSR s AND NOT 0x3f) AND 0xf80000ff = (CPSR s AND 0xf80000ff) AND NOT 0x3f"
    by (simp only: ac_simps)
  ultimately have ek: "exc_cpsr (CPSR s) i m AND 0xf80000ff = exc_cpsr (CPSR s) i m"
    unfolding exc_cpsr_def bit.conj_disj_distrib2 using ei CPSR_fields(1) [OF ok(2)]
    by (simp only:)
  have em: "exc_cpsr (CPSR s) i m AND 31 = m"
    unfolding exc_cpsr_def bit.conj_disj_distrib2 using ei m(1)
    by (simp add: and.assoc exc_mask_simps)
  show "Mode t = m" using ok em by (simp add: t Mode_SetCPSR)
  show "bank_ok t" "flags_ok t" using SetCPSR_ok [OF c1(2)] by (simp_all add: t)
  show "Spsr t = (Spsr s)(ModeToBank m := CPSR s)" "Reg t 14 = temp - d"
    "mmu t = mmu s" "vector_remap_flag t = vector_remap_flag s" "vector_remap_addr t = vector_remap_addr s"
    "mach t = mach s" "prog32Sig t = prog32Sig s" by (simp_all add: t)
  show "CPSR t = exc_cpsr (CPSR s) i m"
    using GetCPSR_SetCPSR [of ?s1 "exc_cpsr (CPSR s) i m"] ok ek
    by (simp add: t ARMul_GetCPSR_def)
  show "banked_reg t b r = banked_reg s b r"
    if br: "b \<noteq> DUMMYBANK" "r \<noteq> 15" "\<not> (b = ModeToBank m \<and> r = 14)"
  proof -
    have "Bank (ARMul_SetCPSR ?s1 (exc_cpsr (CPSR s) i m)) = ModeToBank m"
      using SetCPSR_ok [OF c1(2)] ok em by (simp add: bank_ok_def Mode_SetCPSR)
    then have "banked_reg t b r = banked_reg ?s1 b r"
      using banked_reg_SetCPSR [of ?s1 "exc_cpsr (CPSR s) i m" b r] br ok c1 em m(2)
      by (auto simp: t banked_reg_set_reg_14 BANK_CAN_ACCESS_SPSR_def)
    then show ?thesis by (simp add: banked_reg_def)
  qed
qed
definition exc_table :: "ARMword \<Rightarrow> bool \<Rightarrow> (ARMword \<times> ARMword \<times> ARMword) option" where
  "exc_table vector thumb =
     (if vector = ARMul_ResetV then Some (SVC32MODE, INTBITS, 0)
      else if vector = ARMul_UndefinedInstrV then Some (UNDEF32MODE, IBIT, if thumb then 2 else 4)
      else if vector = ARMul_SWIV then Some (SVC32MODE, IBIT, if thumb then 2 else 4)
      else if vector = ARMul_PrefetchAbortV then Some (ABORT32MODE, IBIT, if thumb then 0 else 4)
      else if vector = ARMul_DataAbortV then Some (ABORT32MODE, IBIT, if thumb then - 4 else 0)
      else if vector = ARMul_IRQV then Some (IRQ32MODE, IBIT, if thumb then 0 else 4)
      else if vector = ARMul_FIQV then Some (FIQ32MODE, INTBITS, if thumb then 0 else 4)
      else None)"

definition exc_vector :: "'m ARMul_State \<Rightarrow> ARMword \<Rightarrow> ARMword" where
  "exc_vector s vector = vector + (if control (mmu s) AND CONTROL_VECTOR \<noteq> 0 then 0xffff0000 else 0)
     + (if vector_remap_flag s \<noteq> 0 then vector_remap_addr s else 0)"

lemma exc_table_mode:
  assumes "exc_table v th = Some (m, i, d)"
  shows "m > 3" "m AND 31 = m" "BANK_CAN_ACCESS_SPSR (ModeToBank m)" "i = IBIT \<or> i = INTBITS"
  using assms by (auto simp: exc_table_def ModeToBank_def bankofmode_def BANK_CAN_ACCESS_SPSR_def split: if_splits)

text \<open>What \<open>ARMul_Abort\<close> does before \<open>SETABORT\<close> touches nothing the handler sees.\<close>

definition abort_start :: "ARMword \<Rightarrow> 'm ARMul_State \<Rightarrow> 'm ARMul_State" where
  "abort_start v s = (if v = ARMul_PrefetchAbortV then s\<lparr>Aborted := 0, AbortAddr := 1\<rparr> else s\<lparr>Aborted := 0\<rparr>)"

lemma abort_start_simps [simp]:
  "bank_ok (abort_start v s) = bank_ok s" "flags_ok (abort_start v s) = flags_ok s"
  "Bank (abort_start v s) = Bank s" "prog32Sig (abort_start v s) = prog32Sig s"
  "CPSR (abort_start v s) = CPSR s" "Spsr (abort_start v s) = Spsr s" "mmu (abort_start v s) = mmu s"
  "vector_remap_flag (abort_start v s) = vector_remap_flag s"
  "vector_remap_addr (abort_start v s) = vector_remap_addr s" "mach (abort_start v s) = mach s"
  "banked_reg (abort_start v s) b r = banked_reg s b r"
  by (simp_all add: abort_start_def CPSR_def ECC_def EINT_def flags_ok_def bank_ok_def banked_reg_def)

lemma ARMul_Abort_conv:
  assumes "exc_table v (TFlag s \<noteq> 0) = Some (m, i, d)" "prog32Sig s \<noteq> LOW"
    "bank_ok s" "flags_ok s" "Bank s \<noteq> DUMMYBANK"
  shows "ARMul_Abort s v = ARMul_SetR15 (SETABORT (abort_return_pc s) i m d (abort_start v s)) (exc_vector s v)"
proof -
  note e = exc_table_mode [OF assms(1)]
  have p: "bank_ok (abort_start v s)" "flags_ok (abort_start v s)" "Bank (abort_start v s) \<noteq> DUMMYBANK"
    "prog32Sig (abort_start v s) \<noteq> LOW" using assms(2-5) by simp_all
  note se = SETABORT_effect [OF p e(4,2,3), where temp = "abort_return_pc s" and d = d]
  let ?u = "SETABORT (abort_return_pc s) i m d (abort_start v s)"
  have m: "Mode ?u > 3" "mmu ?u = mmu s" "vector_remap_flag ?u = vector_remap_flag s"
    "vector_remap_addr ?u = vector_remap_addr s"
    using e(1) by (simp_all only: se(1,7-9) abort_start_simps)
  have a: "abort_return_pc (s\<lparr>Aborted := 0\<rparr>) = abort_return_pc s"
    by (simp add: abort_return_pc_def R15PC_def ECC_def ER15INT_def)
  have "abort_switch v (abort_return_pc s) (s\<lparr>Aborted := 0\<rparr>) = ?u"
    using assms(1,2)
    by (auto simp: abort_switch_def abort_start_def exc_table_def INSN_SIZE_def split: if_splits)
  then show ?thesis
    using m a by (simp add: ARMul_Abort_def ARMul_OSException_def exc_vector_def)
qed

lemma Abort_entry:
  assumes "exc_table v (TFlag s \<noteq> 0) = Some (m, i, d)" "prog32Sig s \<noteq> LOW"
    "bank_ok s" "flags_ok s" "Bank s \<noteq> DUMMYBANK"
  defines "t \<equiv> ARMul_Abort s v"
  shows "Mode t = m \<and> CPSR t = exc_cpsr (CPSR s) i m \<and> Spsr t = (Spsr s)(ModeToBank m := CPSR s)
    \<and> Reg t 14 = abort_return_pc s - d \<and> Reg t 15 = exc_vector s v AND PCBITS
    \<and> bit (NextInstr t) 2 \<and> bank_ok t \<and> flags_ok t \<and> mach t = mach s
    \<and> (\<forall>b r. b \<noteq> DUMMYBANK \<and> r \<noteq> 15 \<and> (b, r) \<noteq> (ModeToBank m, 14)
          \<longrightarrow> banked_reg t b r = banked_reg s b r)"
proof -
  note e = exc_table_mode [OF assms(1)]
  have p: "bank_ok (abort_start v s)" "flags_ok (abort_start v s)" "Bank (abort_start v s) \<noteq> DUMMYBANK"
    "prog32Sig (abort_start v s) \<noteq> LOW" using assms(2-5) by simp_all
  note se = SETABORT_effect [OF p e(4,2,3), where temp = "abort_return_pc s" and d = d]
  let ?u = "SETABORT (abort_return_pc s) i m d (abort_start v s)"
  have "t = FLUSHPIPE (set_reg 15 (exc_vector s v AND PCBITS) ?u)"
    unfolding t_def ARMul_Abort_conv [OF assms(1-5)] using se(1) e(1) by (intro SetR15_mode32) simp
  then show ?thesis using se by (simp add: banked_reg_set_reg_15)
qed
section \<open>Properties\<close>

text \<open>
  The table of data-processing immediates holds, for every twelve-bit operand,
  its low byte rotated right by twice its high nibble.
\<close>

theorem ARMul_ImmedTable_correct:
  assumes "i < 4096"
  shows "ARMul_ImmedTable i = word_rotr (2 * (i div 256)) (of_nat (i mod 256))"
  using assms by (rule ARMul_ImmedTable_rotr)

theorem ARMul_ImmedTable_correct_witness: "ARMul_ImmedTable 0x4ff = word_rotr 8 0xff"
  using ARMul_ImmedTable_correct [of "0x4ff"] by simp

text \<open>
  The byte table holds four times the number of bits set in its index, the size
  in bytes of a load-multiple transfer.
\<close>

theorem ARMul_BitList_correct:
  "unat (ARMul_BitList i) = 4 * card {k. k < 8 \<and> bit (of_nat i :: ARMword) k}"
  using ARMul_BitList_count by (simp add: bits_below_def)

text \<open>
  C7: exception entry.  In the 32-bit configuration and from a mode with a register
  bank, \<open>ARMul_Abort\<close> for each of the seven vectors switches to the mode of the
  exception, saves the CPSR in that mode's SPSR, clears the Thumb bit and masks
  interrupts in the new CPSR, puts the return address less the exception's
  adjustment in the banked r14, jumps to the (high or remapped) vector and flushes
  the pipeline; no other banked register, no other SPSR and nothing of the machine
  changes, and the mode, bank and flag invariants hold again.
\<close>

theorem ARMul_Abort_entry:
  assumes "exc_table v (TFlag s \<noteq> 0) = Some (m, i, d)" "prog32Sig s \<noteq> LOW"
    "bank_ok s" "flags_ok s" "Bank s \<noteq> DUMMYBANK"
  defines "t \<equiv> ARMul_Abort s v"
  shows "Mode t = m \<and> CPSR t = exc_cpsr (CPSR s) i m \<and> Spsr t = (Spsr s)(ModeToBank m := CPSR s)
    \<and> Reg t 14 = abort_return_pc s - d \<and> Reg t 15 = exc_vector s v AND PCBITS
    \<and> bit (NextInstr t) 2 \<and> bank_ok t \<and> flags_ok t \<and> mach t = mach s
    \<and> (\<forall>b r. b \<noteq> DUMMYBANK \<and> r \<noteq> 15 \<and> (b, r) \<noteq> (ModeToBank m, 14)
          \<longrightarrow> banked_reg t b r = banked_reg s b r)"
  unfolding t_def using assms(1-5) by (rule Abort_entry)

theorem ARMul_Abort_entry_witness:
  "Mode (ARMul_Abort ((ARMul_NewState ())\<lparr>Mode := USER32MODE\<rparr>) ARMul_IRQV) = IRQ32MODE
   \<and> Reg (ARMul_Abort ((ARMul_NewState ())\<lparr>Mode := USER32MODE\<rparr>) ARMul_IRQV) 15 = 0x18"
  using ARMul_Abort_entry [of ARMul_IRQV "(ARMul_NewState ())\<lparr>Mode := USER32MODE\<rparr>" IRQ32MODE IBIT 4]
  by (simp add: exc_table_def exc_vector_def bank_ok_def flags_ok_def ModeToBank_def bankofmode_def
      ARMul_NewState_def)

end
