(* ===== verification/Arm_Virt.thy ===== *)
theory Arm_Virt
  imports Arm_Mmu Arm_Init
begin

text \<open>
  The memory interface of the core (\<open>armvirt.c\<close>): instruction fetch, loads, stores and
  swaps over the operations of a memory management unit, with the prefetch and data aborts
  they raise and the cycles they count.  The unit is an argument, a record of its operations;
  \<open>ch\<close> is \<open>skyeye_cachetype == INSTCACHE\<close>.
\<close>

section \<open>Aborts\<close>

definition ARMul_PREFETCHABORT :: "ARMword \<Rightarrow> 'm ARMul_State \<Rightarrow> 'm ARMul_State" where
  "ARMul_PREFETCHABORT address s =
     (if AbortAddr s = 1
      then s\<lparr>AbortAddr := address AND (if TFlag s \<noteq> 0 then NOT 1 else NOT 3)\<rparr>
      else s)"

definition ARMul_DATAABORT :: "'m ARMul_State \<Rightarrow> 'm ARMul_State" where
  "ARMul_DATAABORT s = s\<lparr>abortSig := HIGH, Aborted := ARMul_DataAbortV\<rparr>"

definition ARMul_CLEARABORT :: "'m ARMul_State \<Rightarrow> 'm ARMul_State" where
  "ARMul_CLEARABORT s = s\<lparr>abortSig := LOW\<rparr>"

text \<open>The common fault exit of the data accesses.\<close>

definition data_fault :: "fault_t \<Rightarrow> ARMword \<Rightarrow> 'm ARMul_State \<Rightarrow> 'm ARMul_State" where
  "data_fault fault address s =
     ARMul_DATAABORT (s\<lparr>mmu := (mmu s)\<lparr>
       fault_status := (fault_code fault OR push_bit 4 (last_domain (mmu s))) AND 0xFF,
       fault_address := address\<rparr>\<rparr>)"

section \<open>Instruction fetch\<close>

definition fetch :: "bool \<Rightarrow> 'm mmu_ops \<Rightarrow> 'm ARMul_State \<Rightarrow> ARMword \<Rightarrow> ((fault_t + ARMword) \<times> 'm ARMul_State) option" where
  "fetch ch M = (if \<not> ch then ops_read_word M else ops_load_instr M)"

definition ARMul_ReLoadInstr :: "bool \<Rightarrow> 'm mmu_ops \<Rightarrow> 'm ARMul_State \<Rightarrow> ARMword \<Rightarrow> ARMword \<Rightarrow> (ARMword \<times> 'm ARMul_State) option" where
  "ARMul_ReLoadInstr ch M s address isz =
     (let fault = (\<lambda>s. let s = ARMul_PREFETCHABORT address s in Some (ARMul_ABORTWORD s, s)) in
      if isz = 2 \<and> address AND 0x2 \<noteq> 0 then
        (case fetch ch M s address of
           None \<Rightarrow> None
         | Some (Inl _, s) \<Rightarrow> fault s
         | Some (Inr lo, s) \<Rightarrow>
            (case fetch ch M s (address + 4) of
               None \<Rightarrow> None
             | Some (Inl _, s) \<Rightarrow> fault s
             | Some (Inr hi, s) \<Rightarrow>
                 (let s = ARMul_CLEARABORT s in
                  if bigendSig s = HIGH then Some (push_bit 16 lo OR drop_bit 16 hi, s)
                  else Some (push_bit 16 (hi AND 0xFFFF) OR drop_bit 16 lo, s))))
      else
        (case fetch ch M s address of
           None \<Rightarrow> None
         | Some (Inl _, s) \<Rightarrow> fault s
         | Some (Inr data, s) \<Rightarrow> Some (data, ARMul_CLEARABORT s)))"

definition ARMul_LoadInstrS :: "bool \<Rightarrow> 'm mmu_ops \<Rightarrow> 'm ARMul_State \<Rightarrow> ARMword \<Rightarrow> ARMword \<Rightarrow> (ARMword \<times> 'm ARMul_State) option" where
  "ARMul_LoadInstrS ch M s = ARMul_ReLoadInstr ch M (s\<lparr>NumScycles := NumScycles s + 1\<rparr>)"

definition ARMul_LoadInstrN :: "bool \<Rightarrow> 'm mmu_ops \<Rightarrow> 'm ARMul_State \<Rightarrow> ARMword \<Rightarrow> ARMword \<Rightarrow> (ARMword \<times> 'm ARMul_State) option" where
  "ARMul_LoadInstrN ch M s = ARMul_ReLoadInstr ch M (s\<lparr>NumNcycles := NumNcycles s + 1\<rparr>)"

section \<open>Loads\<close>

text \<open>What every load does with the result of the unit.\<close>

definition data_result :: "ARMword \<Rightarrow> ((fault_t + ARMword) \<times> 'm ARMul_State) option \<Rightarrow> (ARMword \<times> 'm ARMul_State) option" where
  "data_result address r =
     (case r of
        None \<Rightarrow> None
      | Some (Inl fault, s) \<Rightarrow> (let s = data_fault fault address s in Some (ARMul_ABORTWORD s, s))
      | Some (Inr data, s) \<Rightarrow> Some (data, ARMul_CLEARABORT s))"

definition ARMul_ReadWord :: "'m mmu_ops \<Rightarrow> 'm ARMul_State \<Rightarrow> ARMword \<Rightarrow> (ARMword \<times> 'm ARMul_State) option" where
  "ARMul_ReadWord M s address = data_result address (ops_read_word M s address)"

definition ARMul_LoadWordS :: "'m mmu_ops \<Rightarrow> 'm ARMul_State \<Rightarrow> ARMword \<Rightarrow> (ARMword \<times> 'm ARMul_State) option" where
  "ARMul_LoadWordS M s = ARMul_ReadWord M (s\<lparr>NumScycles := NumScycles s + 1\<rparr>)"

definition ARMul_LoadWordN :: "'m mmu_ops \<Rightarrow> 'm ARMul_State \<Rightarrow> ARMword \<Rightarrow> (ARMword \<times> 'm ARMul_State) option" where
  "ARMul_LoadWordN M s = ARMul_ReadWord M (s\<lparr>NumNcycles := NumNcycles s + 1\<rparr>)"

definition ARMul_LoadHalfWord :: "'m mmu_ops \<Rightarrow> 'm ARMul_State \<Rightarrow> ARMword \<Rightarrow> (ARMword \<times> 'm ARMul_State) option" where
  "ARMul_LoadHalfWord M s address =
     data_result address (ops_read_halfword M (s\<lparr>NumNcycles := NumNcycles s + 1\<rparr>) address)"

definition ARMul_ReadByte :: "'m mmu_ops \<Rightarrow> 'm ARMul_State \<Rightarrow> ARMword \<Rightarrow> (ARMword \<times> 'm ARMul_State) option" where
  "ARMul_ReadByte M s address = data_result address (ops_read_byte M s address)"

definition ARMul_LoadByte :: "'m mmu_ops \<Rightarrow> 'm ARMul_State \<Rightarrow> ARMword \<Rightarrow> (ARMword \<times> 'm ARMul_State) option" where
  "ARMul_LoadByte M s = ARMul_ReadByte M (s\<lparr>NumNcycles := NumNcycles s + 1\<rparr>)"

text \<open>
  The debugger's read: the result is the C result and the word \<open>*presult\<close>, of which a
  successful read replaces the low byte only (the one at the lower address of the host,
  taken as little endian).
\<close>

definition ARMul_ICE_ReadByte :: "'m mmu_ops \<Rightarrow> 'm ARMul_State \<Rightarrow> ARMword \<Rightarrow> ARMword \<Rightarrow> (ARMword \<times> ARMword \<times> 'm ARMul_State) option" where
  "ARMul_ICE_ReadByte M s address presult =
     (case ops_read_byte M s address of
        None \<Rightarrow> None
      | Some (Inl _, s) \<Rightarrow> Some (1, - 1, s)
      | Some (Inr data, s) \<Rightarrow> Some (0, (presult AND NOT 0xff) OR (data AND 0xff), s))"

section \<open>Stores\<close>

definition store_result :: "ARMword \<Rightarrow> (fault_t \<times> 'm ARMul_State) option \<Rightarrow> 'm ARMul_State option" where
  "store_result address r =
     (case r of
        None \<Rightarrow> None
      | Some (fault, s) \<Rightarrow> Some (if fault \<noteq> NO_FAULT then data_fault fault address s else ARMul_CLEARABORT s))"

definition ARMul_WriteWord :: "'m mmu_ops \<Rightarrow> 'm ARMul_State \<Rightarrow> ARMword \<Rightarrow> ARMword \<Rightarrow> 'm ARMul_State option" where
  "ARMul_WriteWord M s address data = store_result address (ops_write_word M s address data)"

definition ARMul_StoreWordS :: "'m mmu_ops \<Rightarrow> 'm ARMul_State \<Rightarrow> ARMword \<Rightarrow> ARMword \<Rightarrow> 'm ARMul_State option" where
  "ARMul_StoreWordS M s = ARMul_WriteWord M (s\<lparr>NumScycles := NumScycles s + 1\<rparr>)"

definition ARMul_StoreWordN :: "'m mmu_ops \<Rightarrow> 'm ARMul_State \<Rightarrow> ARMword \<Rightarrow> ARMword \<Rightarrow> 'm ARMul_State option" where
  "ARMul_StoreWordN M s = ARMul_WriteWord M (s\<lparr>NumNcycles := NumNcycles s + 1\<rparr>)"

definition ARMul_StoreHalfWord :: "'m mmu_ops \<Rightarrow> 'm ARMul_State \<Rightarrow> ARMword \<Rightarrow> ARMword \<Rightarrow> 'm ARMul_State option" where
  "ARMul_StoreHalfWord M s address data =
     store_result address (ops_write_halfword M (s\<lparr>NumNcycles := NumNcycles s + 1\<rparr>) address data)"

definition ARMul_WriteByte :: "'m mmu_ops \<Rightarrow> 'm ARMul_State \<Rightarrow> ARMword \<Rightarrow> ARMword \<Rightarrow> 'm ARMul_State option" where
  "ARMul_WriteByte M s address data = store_result address (ops_write_byte M s address data)"

definition ARMul_StoreByte :: "'m mmu_ops \<Rightarrow> 'm ARMul_State \<Rightarrow> ARMword \<Rightarrow> ARMword \<Rightarrow> 'm ARMul_State option" where
  "ARMul_StoreByte M s = ARMul_WriteByte M (s\<lparr>NumNcycles := NumNcycles s + 1\<rparr>)"

definition ARMul_ICE_WriteByte :: "'m mmu_ops \<Rightarrow> 'm ARMul_State \<Rightarrow> ARMword \<Rightarrow> ARMword \<Rightarrow> (ARMword \<times> 'm ARMul_State) option" where
  "ARMul_ICE_WriteByte M s address data =
     map_option (\<lambda>(fault, s). (if fault \<noteq> NO_FAULT then 1 else 0, s)) (ops_write_byte M s address data)"

section \<open>Swaps and cycles\<close>

definition ARMul_SwapWord :: "'m mmu_ops \<Rightarrow> 'm ARMul_State \<Rightarrow> ARMword \<Rightarrow> ARMword \<Rightarrow> (ARMword \<times> 'm ARMul_State) option" where
  "ARMul_SwapWord M s address data =
     (case ARMul_ReadWord M (s\<lparr>NumNcycles := NumNcycles s + 1\<rparr>) address of
        None \<Rightarrow> None
      | Some (temp, s) \<Rightarrow>
         map_option (\<lambda>(fault, s). (temp, s)) (ops_write_word M (s\<lparr>NumNcycles := NumNcycles s + 1\<rparr>) address data))"

definition ARMul_SwapByte :: "'m mmu_ops \<Rightarrow> 'm ARMul_State \<Rightarrow> ARMword \<Rightarrow> ARMword \<Rightarrow> (ARMword \<times> 'm ARMul_State) option" where
  "ARMul_SwapByte M s address data =
     (case ARMul_LoadByte M s address of
        None \<Rightarrow> None
      | Some (temp, s) \<Rightarrow> map_option (\<lambda>s. (temp, s)) (ARMul_StoreByte M s address data))"

definition ARMul_Icycles :: "'m ARMul_State \<Rightarrow> ARMword \<Rightarrow> 'm ARMul_State" where
  "ARMul_Icycles s number = ARMul_CLEARABORT (s\<lparr>NumIcycles := NumIcycles s + number\<rparr>)"

definition ARMul_Ccycles :: "'m ARMul_State \<Rightarrow> ARMword \<Rightarrow> 'm ARMul_State" where
  "ARMul_Ccycles s number = ARMul_CLEARABORT (s\<lparr>NumCcycles := NumCcycles s + number\<rparr>)"

section \<open>Fetching Thumb instructions\<close>

lemma and_2_of_3: "(x AND 3) AND 2 = (x AND 2 :: ARMword)"
  by (simp add: and.assoc)

lemma half_offset_conv:
  assumes "be = 0 \<or> be = 1"
  shows "half_offset be a = (if (a AND 2 = 0) = (be = 0) then 0 else 16)"
proof -
  obtain x where x: "a AND 2 = x" "x = 0 \<or> x = 2" using and_3_cases [of a] and_2_of_3 [of a] by auto
  show ?thesis unfolding half_offset_def x(1) using assms x(2) by auto
qed

lemma unat_add_2_and_3: "unat ((a + 2) AND 3 :: ARMword) = (unat (a AND 3) + 2) mod 4"
proof -
  have "unat ((a + 2) AND 3) = (unat a + 2) mod 4"
    unfolding unat_and_3_mod unat_word_ariths by (simp add: mod_mod_cancel)
  then show ?thesis unfolding unat_and_3_mod by (simp only: mod_add_left_eq)
qed

lemma halfword_next:
  assumes "a AND 1 = (0 :: ARMword)"
  shows "a AND 2 = 0 \<Longrightarrow> a AND 3 = 0 \<and> (a + 2) AND 2 = 2" and "a AND 2 \<noteq> 0 \<Longrightarrow> (a + 2) AND 3 = 0"
proof -
  have one: "(a AND 3) AND 1 = 0" using assms by (simp add: and.assoc)
  have "a AND 3 \<noteq> 1" "a AND 3 \<noteq> 3" using one by auto
  then have c: "a AND 3 = 0 \<or> a AND 3 = 2" using and_3_cases [of a] by blast
  show "a AND 3 = 0 \<and> (a + 2) AND 2 = 2" if "a AND 2 = 0"
  proof -
    have "a AND 3 = 0" using c that and_2_of_3 [of a] by auto
    moreover from this have "unat ((a + 2) AND 3) = 2" by (simp add: unat_add_2_and_3)
    then have "(a + 2) AND 3 = 2" by (simp add: word_unat_eq_iff)
    ultimately show ?thesis using and_2_of_3 [of "a + 2"] by simp
  qed
  show "(a + 2) AND 3 = 0" if "a AND 2 \<noteq> 0"
  proof -
    have "a AND 3 = 2" using c that and_2_of_3 [of a] by auto
    then have "unat ((a + 2) AND 3) = 0" by (simp add: unat_add_2_and_3)
    then show ?thesis by (simp add: word_unat_eq_iff)
  qed
qed

lemma lane_halves:
  "lane_read 0xffff 0 w = w AND 0xffff" "lane_read 0xffff 16 w = drop_bit 16 w"
  "push_bit 16 (drop_bit 16 w) OR (w AND 0xffff) = (w :: ARMword)"
  "push_bit 16 w AND 0xffff0000 = (push_bit 16 w :: ARMword)"
  by (rule word32_eqI; simp add: lane_read_def bit_simps not_bit_ge_32)+

text \<open>A bank that holds an address and reads its word array.\<close>

definition code_at :: "'x mstate \<Rightarrow> nat \<Rightarrow> ARMword \<Rightarrow> bool" where
  "code_at s i a \<longleftrightarrow> mem_wf (mach s) \<and> i < length (live_banks (mach s)) \<and> bank_hit (mem_banks (mach s) ! i) a
     \<and> mb_read (mem_banks (mach s) ! i) = real_read \<and> remap_addr s a = a"

lemma code_read:
  assumes "code_at s i a"
  shows "\<exists>p. mem_wf ((mach s)\<lparr>mbp := p\<rparr>) \<and> mem_read_word B s a = Some (rom_get (mach s) i a, s\<lparr>mach := (mach s)\<lparr>mbp := p, global_mbp := Some i\<rparr>\<rparr>)"
    and "\<exists>s'. mem_read_halfword B s a = Some (lane_read 0xffff (half_offset (bigendSig s) a) (rom_get (mach s) i a), s')"
  using mem_read_sz_real [of s a i B Word] mem_read_sz_real [of s a i B Halfword] assms
  by (auto simp: code_at_def mem_read_word_def mem_read_halfword_def)

lemma code_at_cached:
  assumes "mem_wf ((mach s)\<lparr>mbp := p\<rparr>)" "code_at s i a"
  shows "code_at (s\<lparr>mach := (mach s)\<lparr>mbp := p, global_mbp := g\<rparr>\<rparr>) i a"
  using assms mem_wf_cong [of "(mach s)\<lparr>mbp := p, global_mbp := g\<rparr>" "(mach s)\<lparr>mbp := p\<rparr>"]
    live_banks_cong [of "(mach s)\<lparr>mbp := p, global_mbp := g\<rparr>" "mach s"]
  by (auto simp: code_at_def remap_addr_def split: if_splits)

lemma a71_fetch_off:
  assumes "\<not> control_bit s CONTROL_MMU"
  shows "fetch ch (arm7100_mmu_ops B) s a = map_option (\<lambda>(d, s). (Inr d, s)) (mem_read_word B s a)"
  using assms by (simp add: fetch_def arm7100_mmu_ops_def a71_mmu_read_def mem_read_type_def)

text \<open>
  With the memory management unit off, the fetch of a Thumb instruction from RAM or ROM
  returns the halfword at the address and the one after it, in the order the Thumb decoder
  expects for the byte order, whether or not the address is a multiple of four.
\<close>

theorem thumb_fetch_halfwords:
  assumes "bigendSig s \<le> 1" "\<not> control_bit s CONTROL_MMU" "a AND 1 = 0"
    and "mb_addr (mem_banks (mach s) ! i) AND 3 = 0" "code_at s i a" "code_at s i (a + 2)" "code_at s i (a + 4)"
  shows "\<exists>h1 h2 s1 s2 s3. mem_read_halfword B s a = Some (h1, s1) \<and> mem_read_halfword B s (a + 2) = Some (h2, s2)
     \<and> ARMul_ReLoadInstr ch (arm7100_mmu_ops B) s a 2 =
         Some (if bigendSig s = 0 then push_bit 16 h2 OR h1 else push_bit 16 h1 OR h2, s3)"
proof -
  let ?W = "rom_get (mach s) i"
  have be: "bigendSig s = 0 \<or> bigendSig s = 1" using assms(1) by (auto simp: word_le_nat_alt word_unat_eq_iff)
  obtain s1 s2 where h: "mem_read_halfword B s a = Some (lane_read 0xffff (half_offset (bigendSig s) a) (?W a), s1)"
      "mem_read_halfword B s (a + 2) = Some (lane_read 0xffff (half_offset (bigendSig s) (a + 2)) (?W (a + 2)), s2)"
    using code_read(2) [OF assms(5), of B] code_read(2) [OF assms(6), of B] by blast
  obtain p where p: "mem_wf ((mach s)\<lparr>mbp := p\<rparr>)" "mem_read_word B s a = Some (?W a, s\<lparr>mach := (mach s)\<lparr>mbp := p, global_mbp := Some i\<rparr>\<rparr>)"
    (is "_ = Some (_, ?t)") using code_read(1) [OF assms(5), of B] by blast
  have t: "\<not> control_bit ?t CONTROL_MMU" "bigendSig ?t = bigendSig s" "rom_get (mach ?t) i = ?W"
    using assms(2) by (simp_all add: control_bit_def rom_get_def rom_index_def fun_eq_iff)
  obtain s4 where s4: "mem_read_word B ?t (a + 4) = Some (?W (a + 4), s4)" "bigendSig s4 = bigendSig s"
    using code_read(1) [OF code_at_cached [OF p(1) assms(7), of "Some i"], of B] unfolding t(3) by auto
  show ?thesis
  proof (cases "a AND 2 = 0")
    case True
    have "?W (a + of_nat 2) = ?W a"
      unfolding rom_get_def using rom_index_aligned [of "mach s" i a 2] assms(4) halfword_next(1) [OF assms(3) True] by simp
    then have "?W (a + 2) = ?W a" by simp
    then show ?thesis using h p(2) be True halfword_next(1) [OF assms(3) True] assms(2)
      by (auto simp: ARMul_ReLoadInstr_def a71_fetch_off half_offset_conv [OF be] lane_halves)
  next
    case False
    have "?W (a + 2 + of_nat 2) = ?W (a + 2)"
      unfolding rom_get_def using rom_index_aligned [of "mach s" i "a + 2" 2] assms(4) halfword_next(2) [OF assms(3) False] by simp
    then have w: "?W (a + 4) = ?W (a + 2)" by (simp add: add.commute)
    have "(a + 2) AND 2 = 0" using halfword_next(2) [OF assms(3) False] and_2_of_3 [of "a + 2"] by simp
    then show ?thesis using h p(2) be False assms(2) s4 t(1,2)
      by (auto simp: ARMul_ReLoadInstr_def a71_fetch_off half_offset_conv [OF be] lane_halves w ARMul_CLEARABORT_def Let_def)
  qed
qed

theorem thumb_fetch_halfwords_witness:
  "\<exists>h1 h2 s1 s2 s3. mem_read_halfword undefined ex_us 0x40000002 = Some (h1, s1)
     \<and> mem_read_halfword undefined ex_us 0x40000004 = Some (h2, s2)
     \<and> ARMul_ReLoadInstr False (arm7100_mmu_ops undefined) ex_us 0x40000002 2 = Some (push_bit 16 h2 OR h1, s3)"
proof -
  have "code_at ex_us 1 a" if "a = 0x40000002 \<or> a = 0x40000004 \<or> a = 0x40000006" for a
    using that ex_us_wf unfolding code_at_def ex_us_live
    by (auto simp: ex_us_def ex_hw_mem_def ex_banks_def bank_hit_def ARMul_NewState_def remap_addr_def)
  then show ?thesis
    using thumb_fetch_halfwords [of ex_us "0x40000002" 1 undefined False]
    by (simp add: ex_us_def ex_hw_mem_def ex_banks_def ARMul_NewState_def control_bit_def)
qed

section \<open>Data aborts\<close>

text \<open>The state a faulting data access leaves.\<close>

definition aborted_at :: "fault_t \<Rightarrow> ARMword \<Rightarrow> 'm ARMul_State \<Rightarrow> bool" where
  "aborted_at f a s \<longleftrightarrow> abortSig s = HIGH \<and> Aborted s = ARMul_DataAbortV \<and> fault_address (mmu s) = a
     \<and> fault_status (mmu s) AND 0xF = fault_code f \<and> drop_bit 4 (fault_status (mmu s)) = last_domain (mmu s) AND 0xF"

lemma fault_code_15: "fault_code f AND 15 = fault_code f"
  by (cases f) simp_all

lemma fault_status_bits:
  assumes "f AND 15 = (f :: ARMword)"
  shows "((f OR push_bit 4 d) AND 0xFF) AND 15 = f" "drop_bit 4 ((f OR push_bit 4 d) AND 0xFF) = d AND 15"
proof -
  have "bit f n \<Longrightarrow> n < 4" for n
  proof -
    assume "bit f n"
    then have "bit (f AND mask 4) n" using assms by (simp add: mask_eq_exp_minus_1)
    then show "n < 4" by (simp add: bit_simps)
  qed
  then have nb: "\<not> bit f n" if "4 \<le> n" for n using that by (metis not_less)
  show "((f OR push_bit 4 d) AND 0xFF) AND 15 = f"
    by (rule word32_eqI) (simp add: bit_simps nb)
  show "drop_bit 4 ((f OR push_bit 4 d) AND 0xFF) = d AND 15"
    by (rule word32_eqI) (simp add: bit_simps nb)
qed

lemma data_fault_aborted: "aborted_at f a (data_fault f a s)"
  using fault_status_bits [OF fault_code_15, of f "last_domain (mmu s)"]
  by (simp add: aborted_at_def data_fault_def ARMul_DATAABORT_def)

text \<open>
  With alignment checking on, a load or store of a word at an address that is no multiple
  of four raises a data abort: the abort line and vector are set, the fault registers hold the
  address, the alignment code and the domain, a load returns the abort word, and memory is unchanged.
\<close>

theorem unaligned_access_aborts:
  assumes "control_bit s CONTROL_MMU" "control_bit s CONTROL_ALIGN_FAULT" "a AND 3 \<noteq> 0"
  shows "\<exists>s' s''. ARMul_LoadWordN (arm7100_mmu_ops B) s a = Some (ARMul_ABORTWORD s, s') \<and> aborted_at ALIGNMENT_FAULT a s' \<and> mach s' = mach s
     \<and> ARMul_StoreWordN (arm7100_mmu_ops B) s a d = Some s'' \<and> aborted_at ALIGNMENT_FAULT a s'' \<and> mach s'' = mach s"
proof -
  let ?s = "s\<lparr>NumNcycles := NumNcycles s + 1\<rparr>"
  have c: "control_bit ?s CONTROL_MMU" "misaligned ?s Word a" using assms by (simp_all add: control_bit_def misaligned_def)
  have "ARMul_LoadWordN (arm7100_mmu_ops B) s a = Some (ARMul_ABORTWORD s, data_fault ALIGNMENT_FAULT a ?s)"
    unfolding ARMul_LoadWordN_def ARMul_ReadWord_def using c
    by (simp add: arm7100_mmu_ops_def a71_mmu_read_def data_result_def ARMul_ABORTWORD_def data_fault_def ARMul_DATAABORT_def Let_def)
  moreover have "ARMul_StoreWordN (arm7100_mmu_ops B) s a d = Some (data_fault ALIGNMENT_FAULT a ?s)"
    unfolding ARMul_StoreWordN_def ARMul_WriteWord_def using c
    by (simp add: arm7100_mmu_ops_def a71_mmu_write_def store_result_def Let_def)
  moreover have "mach (data_fault ALIGNMENT_FAULT a ?s) = mach s" by (simp add: data_fault_def ARMul_DATAABORT_def)
  ultimately show ?thesis using data_fault_aborted by blast
qed

theorem unaligned_access_aborts_witness:
  "\<exists>s'. ARMul_LoadWordN (arm7100_mmu_ops undefined) (ex_us\<lparr>mmu := (mmu ex_us)\<lparr>control := 0x73\<rparr>\<rparr>) 0x40000002 = Some (0xefffffff, s')
     \<and> aborted_at ALIGNMENT_FAULT 0x40000002 s'"
  using unaligned_access_aborts [of "ex_us\<lparr>mmu := (mmu ex_us)\<lparr>control := 0x73\<rparr>\<rparr>" "0x40000002" undefined]
  by (auto simp: control_bit_def ARMul_ABORTWORD_def ex_us_def ARMul_NewState_def)

end
