(* ===== verification/Arm_Operand.thy ===== *)
theory Arm_Operand
  imports Arm_Virt
begin

text \<open>
  Operands and register 15 (\<open>armemu.c\<close> in its 32-bit build, with the macros of
  \<open>armemu.h\<close>): the barrel shifter with and without the carry, the offsets of loads and
  stores, and the three ways of writing the program counter.
\<close>

section \<open>Instruction fields and the pipeline\<close>

definition DESTReg :: "ARMword \<Rightarrow> nat" where "DESTReg instr = unat (BITS instr 12 15)"
definition LHSReg :: "ARMword \<Rightarrow> nat" where "LHSReg instr = unat (BITS instr 16 19)"
definition RHSReg :: "ARMword \<Rightarrow> nat" where "RHSReg instr = unat (BITS instr 0 3)"

definition LHS :: "'m ARMul_State \<Rightarrow> ARMword \<Rightarrow> ARMword" where
  "LHS s instr = (if LHSReg instr = 15 then Reg s 15 AND 0xFFFFFFFC else Reg s (LHSReg instr))"

definition RHS :: "'m ARMul_State \<Rightarrow> ARMword \<Rightarrow> ARMword" where
  "RHS s instr = (if RHSReg instr = 15 then Reg s 15 AND 0xFFFFFFFC else Reg s (RHSReg instr))"

definition INCPC :: "'m ARMul_State \<Rightarrow> 'm ARMul_State" where
  "INCPC s = (set_reg 15 (Reg s 15 + isize s) s)\<lparr>NextInstr := NextInstr s OR 2\<rparr>"

definition BUSUSEDINCPCS :: "'m ARMul_State \<Rightarrow> 'm ARMul_State" where
  "BUSUSEDINCPCS s =
     (if is_v4 s = 0 then (set_reg 15 (Reg s 15 + isize s) s)\<lparr>NextInstr := (NextInstr s AND 0xff) OR 2\<rparr> else s)"

definition BUSUSEDINCPCN :: "'m ARMul_State \<Rightarrow> 'm ARMul_State" where
  "BUSUSEDINCPCN s =
     (if is_v4 s \<noteq> 0 then s\<lparr>NextInstr := NextInstr s OR 1\<rparr>
      else (set_reg 15 (Reg s 15 + isize s) s)\<lparr>NextInstr := NextInstr s OR 3\<rparr>)"

definition TAKEABORT :: "'m ARMul_State \<Rightarrow> 'm ARMul_State" where
  "TAKEABORT s = ARMul_Abort s ARMul_DataAbortV"

section \<open>The shifter\<close>

abbreviation (input) LSL :: ARMword where "LSL \<equiv> 0"
abbreviation (input) LSR :: ARMword where "LSR \<equiv> 1"
abbreviation (input) ASR :: ARMword where "ASR \<equiv> 2"

text \<open>\<open>base << (32 - shamt) | base >> shamt\<close>, for amounts from 1 to 31.\<close>

definition ror32 :: "ARMword \<Rightarrow> nat \<Rightarrow> ARMword" where
  "ror32 base n = push_bit (32 - n) base OR drop_bit n base"

text \<open>A shift by a register's low byte; the fourth operation is the rotation.\<close>

definition dp_shift_reg :: "ARMword \<Rightarrow> ARMword \<Rightarrow> nat \<Rightarrow> ARMword" where
  "dp_shift_reg op base shamt =
     (if op = LSL then
        (if shamt = 0 then base else if shamt \<ge> 32 then 0 else push_bit shamt base)
      else if op = LSR then
        (if shamt = 0 then base else if shamt \<ge> 32 then 0 else drop_bit shamt base)
      else if op = ASR then
        (if shamt = 0 then base else if shamt \<ge> 32 then signed_drop_bit 31 base else signed_drop_bit shamt base)
      else
        (let shamt = shamt mod 32 in if shamt = 0 then base else ror32 base shamt))"

text \<open>A shift by the constant in the instruction; \<open>c\<close> is the carry flag.\<close>

definition dp_shift_imm :: "ARMword \<Rightarrow> ARMword \<Rightarrow> ARMword \<Rightarrow> nat \<Rightarrow> ARMword" where
  "dp_shift_imm c op base shamt =
     (if op = LSL then push_bit shamt base
      else if op = LSR then (if shamt = 0 then 0 else drop_bit shamt base)
      else if op = ASR then (if shamt = 0 then signed_drop_bit 31 base else signed_drop_bit shamt base)
      else if shamt = 0 then drop_bit 1 base OR push_bit 31 c
      else ror32 base shamt)"

definition GetDPRegRHS :: "'m ARMul_State \<Rightarrow> ARMword \<Rightarrow> ARMword \<times> 'm ARMul_State" where
  "GetDPRegRHS s instr =
     (if BIT instr 4 \<noteq> 0 then
        (let s = INCPC s;
             base = Reg s (RHSReg instr);
             s = ARMul_Icycles s 1;
             shamt = unat (Reg s (unat (BITS instr 8 11)) AND 0xff)
         in (dp_shift_reg (BITS instr 5 6) base shamt, s))
      else (dp_shift_imm (CFlag s) (BITS instr 5 6) (Reg s (RHSReg instr)) (unat (BITS instr 7 11)), s))"

text \<open>The shifts that also give the new carry flag; \<open>c\<close> is the old one.\<close>

definition dps_shift_reg :: "ARMword \<Rightarrow> ARMword \<Rightarrow> ARMword \<Rightarrow> nat \<Rightarrow> ARMword \<times> ARMword" where
  "dps_shift_reg c op base shamt =
     (if op = LSL then
        (if shamt = 0 then (base, c)
         else if shamt = 32 then (0, base AND 1)
         else if shamt > 32 then (0, 0)
         else (push_bit shamt base, drop_bit (32 - shamt) base AND 1))
      else if op = LSR then
        (if shamt = 0 then (base, c)
         else if shamt = 32 then (0, drop_bit 31 base)
         else if shamt > 32 then (0, 0)
         else (drop_bit shamt base, drop_bit (shamt - 1) base AND 1))
      else if op = ASR then
        (if shamt = 0 then (base, c)
         else if shamt \<ge> 32 then (signed_drop_bit 31 base, drop_bit 31 base)
         else (signed_drop_bit shamt base, signed_drop_bit (shamt - 1) base AND 1))
      else
        (if shamt = 0 then (base, c)
         else (let shamt = shamt mod 32 in
               if shamt = 0 then (base, drop_bit 31 base)
               else (ror32 base shamt, drop_bit (shamt - 1) base AND 1))))"

definition dps_shift_imm :: "ARMword \<Rightarrow> ARMword \<Rightarrow> ARMword \<Rightarrow> nat \<Rightarrow> ARMword \<times> ARMword" where
  "dps_shift_imm c op base shamt =
     (if op = LSL then (push_bit shamt base, drop_bit (32 - shamt) base AND 1)
      else if op = LSR then
        (if shamt = 0 then (0, drop_bit 31 base) else (drop_bit shamt base, drop_bit (shamt - 1) base AND 1))
      else if op = ASR then
        (if shamt = 0 then (signed_drop_bit 31 base, drop_bit 31 base)
         else (signed_drop_bit shamt base, signed_drop_bit (shamt - 1) base AND 1))
      else if shamt = 0 then (drop_bit 1 base OR push_bit 31 c, base AND 1)
      else (ror32 base shamt, drop_bit (shamt - 1) base AND 1))"

definition GetDPSRegRHS :: "'m ARMul_State \<Rightarrow> ARMword \<Rightarrow> ARMword \<times> 'm ARMul_State" where
  "GetDPSRegRHS s instr =
     (if BIT instr 4 \<noteq> 0 then
        (let s = INCPC s;
             base = Reg s (RHSReg instr);
             s = ARMul_Icycles s 1;
             shamt = unat (Reg s (unat (BITS instr 8 11)) AND 0xff);
             (v, c) = dps_shift_reg (CFlag s) (BITS instr 5 6) base shamt
         in (v, s\<lparr>CFlag := c\<rparr>))
      else
        (let (v, c) = dps_shift_imm (CFlag s) (BITS instr 5 6) (Reg s (RHSReg instr)) (unat (BITS instr 7 11))
         in (v, s\<lparr>CFlag := c\<rparr>)))"

definition DPRegRHS :: "'m ARMul_State \<Rightarrow> ARMword \<Rightarrow> ARMword \<times> 'm ARMul_State" where
  "DPRegRHS s instr = (if BITS instr 4 11 = 0 then (Reg s (RHSReg instr), s) else GetDPRegRHS s instr)"

definition DPSRegRHS :: "'m ARMul_State \<Rightarrow> ARMword \<Rightarrow> ARMword \<times> 'm ARMul_State" where
  "DPSRegRHS s instr = (if BITS instr 4 11 = 0 then (Reg s (RHSReg instr), s) else GetDPSRegRHS s instr)"

definition DPImmRHS :: "ARMword \<Rightarrow> ARMword" where
  "DPImmRHS instr = ARMul_ImmedTable (unat (BITS instr 0 11))"

definition DPSImmRHS :: "'m ARMul_State \<Rightarrow> ARMword \<Rightarrow> ARMword \<times> 'm ARMul_State" where
  "DPSImmRHS s instr =
     (let temp = BITS instr 0 11; rhs = ARMul_ImmedTable (unat temp) in
      (rhs, if temp > 255 then s\<lparr>CFlag := drop_bit 31 rhs\<rparr> else s))"

definition GetLSRegRHS :: "'m ARMul_State \<Rightarrow> ARMword \<Rightarrow> ARMword" where
  "GetLSRegRHS s instr = dp_shift_imm (CFlag s) (BITS instr 5 6) (Reg s (RHSReg instr)) (unat (BITS instr 7 11))"

definition LSRegRHS :: "'m ARMul_State \<Rightarrow> ARMword \<Rightarrow> ARMword" where
  "LSRegRHS s instr = (if BITS instr 4 11 = 0 then Reg s (RHSReg instr) else GetLSRegRHS s instr)"

definition GetLS7RHS :: "'m ARMul_State \<Rightarrow> ARMword \<Rightarrow> ARMword" where
  "GetLS7RHS s instr =
     (if BIT instr 22 = 0 then Reg s (RHSReg instr) else BITS instr 0 3 OR push_bit 4 (BITS instr 8 11))"

section \<open>Writing register 15\<close>

definition pc_align :: "'m ARMul_State \<Rightarrow> ARMword \<Rightarrow> ARMword" where
  "pc_align s src = (if TFlag s \<noteq> 0 then src AND 0xfffffffe else src AND 0xfffffffc)"

definition WriteR15 :: "'m ARMul_State \<Rightarrow> ARMword \<Rightarrow> 'm ARMul_State" where
  "WriteR15 s src = FLUSHPIPE (set_reg 15 (pc_align s src AND PCBITS32) s)"

definition WriteSR15 :: "'m ARMul_State \<Rightarrow> ARMword \<Rightarrow> 'm ARMul_State" where
  "WriteSR15 s src =
     (let s = (if Bank s \<noteq> USERBANK then ARMul_CPSRAltered (s\<lparr>Cpsr := Spsr s (Bank s)\<rparr>) else s)
      in FLUSHPIPE (set_reg 15 (pc_align s src AND PCBITS32) s))"

definition WriteR15Branch :: "'m ARMul_State \<Rightarrow> ARMword \<Rightarrow> 'm ARMul_State" where
  "WriteR15Branch s src =
     (let s = (if src AND 1 \<noteq> 0 then set_reg 15 (src AND 0xfffffffe) (s\<lparr>TFlag := 1\<rparr>)
               else set_reg 15 (src AND 0xfffffffc) (s\<lparr>TFlag := 0\<rparr>))
      in FLUSHPIPE (s\<lparr>Cpsr := ARMul_GetCPSR s\<rparr>))"

definition WRITEDEST :: "ARMword \<Rightarrow> ARMword \<Rightarrow> 'm ARMul_State \<Rightarrow> 'm ARMul_State" where
  "WRITEDEST instr d s = (if DESTReg instr = 15 then WriteR15 s d else set_reg (DESTReg instr) d s)"

definition WRITESDEST :: "ARMword \<Rightarrow> ARMword \<Rightarrow> 'm ARMul_State \<Rightarrow> 'm ARMul_State" where
  "WRITESDEST instr d s =
     (if DESTReg instr = 15 then WriteSR15 s d else ARMul_NegZero (set_reg (DESTReg instr) d s) d)"

definition WRITEDESTB :: "ARMword \<Rightarrow> ARMword \<Rightarrow> 'm ARMul_State \<Rightarrow> 'm ARMul_State" where
  "WRITEDESTB instr d s = (if DESTReg instr = 15 then WriteR15Branch s d else set_reg (DESTReg instr) d s)"

section \<open>The shifter against its arithmetic specification\<close>

text \<open>
  The five shifts of the architecture.  Their values and carries are given by arithmetic on
  the unbounded integers: the product or the quotient by a power of two, and the last bit
  shifted out.
\<close>

datatype shift = Lsl nat | Lsr nat | Asr nat | Ror nat | Rrx

definition shift_of :: "'m ARMul_State \<Rightarrow> ARMword \<Rightarrow> shift" where
  "shift_of s instr =
     (let op = BITS instr 5 6; imm = unat (BITS instr 7 11);
          n = (if BIT instr 4 \<noteq> 0 then unat (Reg (INCPC s) (unat (BITS instr 8 11))) mod 256
               else if imm = 0 \<and> op \<noteq> 0 then 32 else imm)
      in if op = 0 then Lsl n else if op = 1 then Lsr n else if op = 2 then Asr n
         else if BIT instr 4 = 0 \<and> imm = 0 then Rrx else Ror n)"

fun shift_value :: "bool \<Rightarrow> ARMword \<Rightarrow> shift \<Rightarrow> ARMword" where
  "shift_value c w (Lsl n) = word_of_nat (unat w * 2 ^ n)"
| "shift_value c w (Lsr n) = word_of_nat (unat w div 2 ^ n)"
| "shift_value c w (Asr n) = word_of_int (sint w div 2 ^ n)"
| "shift_value c w (Ror n) = word_rotr n w"
| "shift_value c w Rrx = word_of_nat ((of_bool c * 2 ^ 32 + unat w) div 2)"

fun shift_carry :: "bool \<Rightarrow> ARMword \<Rightarrow> shift \<Rightarrow> bool" where
  "shift_carry c w (Lsl n) = (if n = 0 then c else odd (unat w * 2 ^ n div 2 ^ 32))"
| "shift_carry c w (Lsr n) = (if n = 0 then c else odd (unat w div 2 ^ (n - 1)))"
| "shift_carry c w (Asr n) = (if n = 0 then c else odd (sint w div 2 ^ (n - 1)))"
| "shift_carry c w (Ror n) = (if n = 0 then c else bit (word_rotr n w) 31)"
| "shift_carry c w Rrx = odd (unat w)"

lemma push_bit_arith: "word_of_nat (unat w * 2 ^ n) = push_bit n (w :: ARMword)"
  by (simp add: push_bit_eq_mult)

lemma drop_bit_arith: "word_of_nat (unat w div 2 ^ n) = drop_bit n (w :: ARMword)"
proof -
  have "unat w div 2 ^ n = unat (drop_bit n w)"
    by (subst unat_drop_bit_eq) (simp add: drop_bit_eq_div)
  then show ?thesis by simp
qed

lemma sint_drop: "drop_bit n (sint (w :: ARMword)) = sint (signed_drop_bit n w)"
  by (simp add: sint_signed_drop_bit_eq)

lemma asr_arith: "word_of_int (sint w div 2 ^ n) = signed_drop_bit n (w :: ARMword)"
  by (simp add: drop_bit_eq_div [symmetric] sint_drop)

lemma asr_ge_31: "31 \<le> n \<Longrightarrow> signed_drop_bit n (w :: ARMword) = signed_drop_bit 31 w"
  by (rule bit_word_eqI) (auto simp: bit_signed_drop_bit_iff not_less_eq_eq le_Suc_eq)

lemma odd_unat_div: "odd (unat (w :: ARMword) div 2 ^ n) \<longleftrightarrow> bit w n"
  by (simp add: bit_iff_odd [symmetric] bit_unsigned_iff)

lemma odd_sint_div: "odd (sint (w :: ARMword) div 2 ^ n) \<longleftrightarrow> bit w (min n 31)"
  by (simp add: bit_iff_odd [symmetric] bit_sint_iff min_def) (auto dest: bit_imp_le_length)

lemma odd_unat_mult: "odd (unat (w :: ARMword) * 2 ^ n div 2 ^ 32) \<longleftrightarrow> n \<le> 32 \<and> bit w (32 - n)"
proof -
  have "odd (unat w * 2 ^ n div 2 ^ 32) \<longleftrightarrow> bit (push_bit n (unat w)) 32"
    by (simp add: bit_iff_odd push_bit_eq_mult)
  also have "\<dots> \<longleftrightarrow> n \<le> 32 \<and> bit w (32 - n)" by (auto simp: bit_simps)
  finally show ?thesis .
qed

lemma ror32_rotr: "n \<le> 32 \<Longrightarrow> ror32 w n = word_rotr n w"
  using rotate_conv [of n w] by (simp add: ror32_def or.commute)

lemma word_rotr_mod: "word_rotr (n mod 32) w = word_rotr n (w :: ARMword)"
  by (rule bit_word_eqI) (simp add: bit_word_rotr_iff mod_simps)

lemma rotr_carry: "0 < n \<Longrightarrow> n < 32 \<Longrightarrow> bit (word_rotr n (w :: ARMword)) 31 \<longleftrightarrow> bit w (n - 1)"
  using mod_once [of "31 + n" 32] by (simp add: bit_word_rotr_iff add.commute)

lemma drop31_bit: "drop_bit 31 (w :: ARMword) = of_bool (bit w 31)"
  using NEG_conv_bit [of w] by (simp add: NEG_def)

lemma shift_value_words:
  "shift_value c w (Lsl n) = push_bit n w" "shift_value c w (Lsr n) = drop_bit n w"
  "shift_value c w (Asr n) = signed_drop_bit n w" "shift_value c w (Ror n) = word_rotr n w"
  by (simp_all only: shift_value.simps push_bit_arith drop_bit_arith asr_arith)

lemma shift_carry_words:
  "shift_carry c w (Lsl n) = (if n = 0 then c else n \<le> 32 \<and> bit w (32 - n))"
  "shift_carry c w (Lsr n) = (if n = 0 then c else bit w (n - 1))"
  "shift_carry c w (Asr n) = (if n = 0 then c else bit w (min (n - 1) 31))"
  "shift_carry c w (Ror n) = (if n = 0 then c else bit (word_rotr n w) 31)"
  by (simp_all only: shift_carry.simps odd_unat_div odd_sint_div odd_unat_mult)

lemma shift_words_Rrx:
  "shift_value c w Rrx = drop_bit 1 w OR push_bit 31 (of_bool c)" "shift_carry c w Rrx = bit w 0"
proof -
  have *: "word_of_nat ((of_bool c * 2 ^ 32 + unat w) div 2) = drop_bit 1 w OR push_bit 31 (of_bool c :: ARMword)"
  proof (rule bit_word_eqI)
    fix k assume k: "k < LENGTH(32)"
    have "push_bit 32 (of_bool c) + unat w = push_bit 32 (of_bool c) OR unat w"
      by (rule disjunctive_add) (auto simp: bit_push_bit_iff bit_unsigned_iff not_bit_ge_32)
    then have "of_bool c * 2 ^ 32 + unat w = push_bit 32 (of_bool c) OR unat w"
      by (simp only: push_bit_eq_mult)
    then have "bit (word_of_nat ((of_bool c * 2 ^ 32 + unat w) div 2) :: ARMword) k
        \<longleftrightarrow> bit (push_bit 32 (of_bool c) OR unat w) (Suc k)"
      using k by (simp add: bit_simps bit_Suc)
    then show "bit (word_of_nat ((of_bool c * 2 ^ 32 + unat w) div 2) :: ARMword) k
        \<longleftrightarrow> bit (drop_bit 1 w OR push_bit 31 (of_bool c :: ARMword)) k"
      using k by (auto simp: bit_simps bit_unsigned_iff)
  qed
  show "shift_value c w Rrx = drop_bit 1 w OR push_bit 31 (of_bool c)" using * by (simp only: shift_value.simps)
  show "shift_carry c w Rrx = bit w 0" by (simp add: bit_0 odd_unat_div [of w 0, simplified])
qed

lemmas shift_words = shift_value_words shift_carry_words shift_words_Rrx
declare shift_value.simps [simp del] shift_carry.simps [simp del]

lemmas shift_bits = word_and_1_conv_bit bit_drop_bit_eq drop31_bit ror32_rotr bit_signed_drop_bit_iff

lemma push_ge_32: "32 \<le> n \<Longrightarrow> push_bit n (w :: ARMword) = 0"
  by (rule bit_word_eqI) (auto simp: bit_simps)

lemma drop_ge_32: "32 \<le> n \<Longrightarrow> drop_bit n (w :: ARMword) = 0"
  by (rule bit_word_eqI) (auto simp: bit_simps dest: bit_imp_le_length)

lemma word_rotr_0: "word_rotr 0 w = (w :: ARMword)"
  by (rule bit_word_eqI) (simp add: bit_word_rotr_iff)

lemma mod32_rotate:
  assumes "n \<noteq> 0" shows "(let k = n mod 32 in if k = 0 then (w, drop_bit 31 w) else (ror32 w k, drop_bit (k - 1) w AND 1))
     = (word_rotr n w, of_bool (bit (word_rotr n w) 31))"
proof (cases "n mod 32 = 0")
  case True
  then have "word_rotr n w = word_rotr 0 w" using word_rotr_mod [of n w] by simp
  also have "\<dots> = w" by (rule word_rotr_0)
  finally have "word_rotr n w = w" .
  then show ?thesis using True by (simp add: drop31_bit)
next
  case False
  then show ?thesis using rotr_carry [of "n mod 32" w] by (simp add: shift_words shift_bits word_rotr_mod)
qed

lemma le_1_of_bool: "(c :: ARMword) \<le> 1 \<Longrightarrow> \<exists>b. c = of_bool b"
  using bit_le_1 [of c] by (intro exI [of _ "c \<noteq> 0"] bit_word_eqI) (simp add: bit_of_bool_iff)

lemma dps_shift_reg_spec:
  assumes "c \<le> 1"
  shows "dps_shift_reg c op w n =
    (let sh = (if op = 0 then Lsl n else if op = 1 then Lsr n else if op = 2 then Asr n else Ror n)
     in (shift_value (c \<noteq> 0) w sh, of_bool (shift_carry (c \<noteq> 0) w sh)))"
proof -
  obtain b where c: "c = of_bool b" using le_1_of_bool [OF assms] by blast
  note d = dps_shift_reg_def Let_def
  consider "op = 0" | "op = 1" | "op = 2" | "op \<noteq> 0" "op \<noteq> 1" "op \<noteq> 2" by blast
  then show ?thesis
  proof cases
    case 1 then show ?thesis by (simp add: d c shift_words shift_bits push_ge_32)
  next
    case 2 then show ?thesis by (simp add: d c shift_words shift_bits drop_ge_32 not_bit_ge_32)
  next
    case 3 then show ?thesis by (simp add: d c shift_words shift_bits asr_ge_31 [of n])
  next
    case 4 then show ?thesis
      using mod32_rotate [of n w] by (simp add: d c shift_words word_rotr_0 del: One_nat_def)
  qed
qed


lemma dps_shift_imm_spec:
  assumes "c \<le> 1" "n < 32" "op \<noteq> 0 \<or> n \<noteq> 0"
  shows "dps_shift_imm c op w n =
    (let k = (if n = 0 then 32 else n);
         sh = (if op = 0 then Lsl n else if op = 1 then Lsr k else if op = 2 then Asr k
               else if n = 0 then Rrx else Ror n)
     in (shift_value (c \<noteq> 0) w sh, of_bool (shift_carry (c \<noteq> 0) w sh)))"
proof -
  obtain b where c: "c = of_bool b" using le_1_of_bool [OF assms(1)] by blast
  show ?thesis
    using assms(2,3) rotr_carry [of n w]
    by (cases "n = 0") (simp_all add: dps_shift_imm_def Let_def c shift_words shift_bits drop_ge_32 asr_ge_31 [of 32])
qed

lemma dp_shift_reg_value: "dp_shift_reg op w n = fst (dps_shift_reg c op w n)"
  by (simp add: dp_shift_reg_def dps_shift_reg_def Let_def)

lemma dp_shift_imm_value: "dp_shift_imm c op w n = fst (dps_shift_imm c op w n)"
  by (simp add: dp_shift_imm_def dps_shift_imm_def)

lemma DPRegRHS_value:
  "DPRegRHS s instr = (fst (DPSRegRHS s instr), (snd (DPSRegRHS s instr))\<lparr>CFlag := CFlag s\<rparr>)"
  by (simp add: DPRegRHS_def DPSRegRHS_def GetDPRegRHS_def GetDPSRegRHS_def Let_def split_beta
      dp_shift_imm_value dp_shift_reg_value [where c = "CFlag s"] INCPC_def set_reg_def ARMul_Icycles_def ARMul_CLEARABORT_def)

lemma BITS_4_11_0:
  assumes "BITS instr 4 11 = 0"
  shows "\<not> bit instr 4" "BITS instr 5 6 = 0" "BITS instr 7 11 = 0"
proof -
  have b: "\<not> bit instr k" if "4 \<le> k" "k \<le> 11" for k
    using assms that bit_BITS_iff [of 11 instr 4 "k - 4"] by simp
  show "\<not> bit instr 4" by (rule b) simp_all
  show "BITS instr 5 6 = 0" "BITS instr 7 11 = 0"
    by (rule bit_word_eqI, auto simp: bit_BITS_iff b)+
qed

lemma BITS_4_11_n0:
  assumes "BITS instr 4 11 \<noteq> 0" "\<not> bit instr 4"
  shows "BITS instr 5 6 \<noteq> 0 \<or> unat (BITS instr 7 11) \<noteq> 0"
proof (rule ccontr)
  assume "\<not> ?thesis"
  then have z: "BITS instr 5 6 = 0" "BITS instr 7 11 = 0" by (auto simp: unsigned_eq_0_iff)
  have "\<not> bit instr (4 + k)" if "4 + k \<le> 11" for k
    using assms(2) bit_BITS_iff [of 6 instr 5 "k - 1"] bit_BITS_iff [of 11 instr 7 "k - 3"] z that
    by (cases "k = 0"; cases "k < 3") auto
  then have "BITS instr 4 11 = 0" by (intro bit_word_eqI) (auto simp: bit_BITS_iff)
  then show False using assms(1) by simp
qed

definition shift_operand :: "'m ARMul_State \<Rightarrow> ARMword \<Rightarrow> ARMword" where
  "shift_operand s instr = Reg (if BIT instr 4 \<noteq> 0 then INCPC s else s) (RHSReg instr)"

lemma DPSRegRHS_spec:
  assumes "CFlag s \<le> 1"
  shows "fst (DPSRegRHS s instr) = shift_value (CFlag s \<noteq> 0) (shift_operand s instr) (shift_of s instr)"
    and "CFlag (snd (DPSRegRHS s instr)) = of_bool (shift_carry (CFlag s \<noteq> 0) (shift_operand s instr) (shift_of s instr))"
proof -
  have n: "unat (BITS instr 7 11) < 32" using unat_BITS_less [of 7 11 instr] by simp
  have m: "unat (w AND 0xff) = unat w mod 256" for w :: ARMword
  proof -
    have "w AND 0xff = take_bit 8 w" by (simp add: take_bit_eq_mask mask_eq_exp_minus_1)
    then show ?thesis by (simp add: unsigned_take_bit_eq) (simp add: take_bit_eq_mod)
  qed
  consider (none) "BITS instr 4 11 = 0" | (reg) "BITS instr 4 11 \<noteq> 0" "bit instr 4"
    | (imm) "BITS instr 4 11 \<noteq> 0" "\<not> bit instr 4" by blast
  then have "(fst (DPSRegRHS s instr), CFlag (snd (DPSRegRHS s instr))) =
    (shift_value (CFlag s \<noteq> 0) (shift_operand s instr) (shift_of s instr),
      of_bool (shift_carry (CFlag s \<noteq> 0) (shift_operand s instr) (shift_of s instr)))"
  proof cases
    case none
    obtain b where c: "CFlag s = of_bool b" using le_1_of_bool [OF assms] by blast
    show ?thesis using BITS_4_11_0 [OF none] none
      by (simp add: DPSRegRHS_def shift_operand_def shift_of_def shift_words c)
  next
    case reg
    then show ?thesis using dps_shift_reg_spec [OF assms]
      by (simp add: DPSRegRHS_def GetDPSRegRHS_def shift_operand_def shift_of_def Let_def split_beta m
         INCPC_def set_reg_def ARMul_Icycles_def ARMul_CLEARABORT_def)
  next
    case imm
    then show ?thesis using dps_shift_imm_spec [OF assms n BITS_4_11_n0 [OF imm], of "Reg s (RHSReg instr)"] BITS_4_11_n0 [OF imm]
      by (simp add: DPSRegRHS_def GetDPSRegRHS_def shift_operand_def shift_of_def Let_def split_beta)
  qed
  then show "fst (DPSRegRHS s instr) = shift_value (CFlag s \<noteq> 0) (shift_operand s instr) (shift_of s instr)"
    and "CFlag (snd (DPSRegRHS s instr)) = of_bool (shift_carry (CFlag s \<noteq> 0) (shift_operand s instr) (shift_of s instr))"
    by simp_all
qed


text \<open>
  C12: The shifter operand of a data-processing instruction is the arithmetic shift of the register it names: the product or quotient by a power of two, the rotation, or the rotation through the carry; the carry flag becomes the last bit shifted out, and stays when nothing is shifted. The variant without the carry gives the same operand and leaves the flag. Amounts of 32 and more and the special meanings of a constant 0 are included.
\<close>

theorem barrel_shifter:
  assumes "flags_ok s"
  shows "let w = shift_operand s instr; sh = shift_of s instr; c = CFlag s \<noteq> 0 in
      fst (DPSRegRHS s instr) = shift_value c w sh
    \<and> CFlag (snd (DPSRegRHS s instr)) = of_bool (shift_carry c w sh)
    \<and> DPRegRHS s instr = (shift_value c w sh, (snd (DPSRegRHS s instr))\<lparr>CFlag := CFlag s\<rparr>)"
proof -
  have "CFlag s \<le> 1" using assms by (simp add: flags_ok_def)
  then show ?thesis using DPSRegRHS_spec [of s instr] DPRegRHS_value [of s instr] by (simp add: Let_def)
qed

theorem barrel_shifter_witness:
  "let s = set_reg 2 0x80000001 ((ARMul_NewState ())\<lparr>CFlag := 1\<rparr>) in
     shift_of s 0xe1b00062 = Rrx \<and> fst (DPSRegRHS s 0xe1b00062) = 0xc0000000 \<and> CFlag (snd (DPSRegRHS s 0xe1b00062)) = 1"
proof -
  let ?s = "set_reg 2 0x80000001 ((ARMul_NewState ())\<lparr>CFlag := 1\<rparr>)"
  have f: "flags_ok ?s" by (simp add: flags_ok_def set_reg_def ARMul_NewState_def)
  have sh: "shift_of ?s 0xe1b00062 = Rrx" by (simp add: shift_of_def BITS_def BIT_def Let_def)
  have w: "shift_operand ?s 0xe1b00062 = 0x80000001"
    by (simp add: shift_operand_def RHSReg_def BITS_def BIT_def set_reg_def)
  have c: "CFlag ?s = 1" by (simp add: set_reg_def)
  show ?thesis using barrel_shifter [OF f, of "0xe1b00062"] by (simp add: Let_def sh w c shift_words_Rrx)
qed

section \<open>Return from an exception\<close>

lemma WriteSR15_SetCPSR:
  assumes "Bank t \<noteq> USERBANK"
  shows "WriteSR15 t src = (let u = ARMul_SetCPSR t (Spsr t (Bank t)) in FLUSHPIPE (set_reg 15 (pc_align u src AND PCBITS32) u))"
  using assms by (simp add: WriteSR15_def ARMul_SetCPSR_def)

lemma SPSR_restored:
  assumes "bank_ok t" "prog32Sig t \<noteq> LOW" "Bank t \<noteq> DUMMYBANK" "flags_ok s" "bank_ok s" "Bank s \<noteq> DUMMYBANK"
  defines "u \<equiv> ARMul_SetCPSR t (CPSR s)"
  shows "CPSR u = CPSR s" "Mode u = Mode s" "Bank u = Bank s" "bank_ok u" "flags_ok u" "TFlag u = TFlag s"
    "b \<noteq> DUMMYBANK \<Longrightarrow> r \<noteq> 15 \<Longrightarrow> banked_reg u b r = banked_reg t b r"
proof -
  note f = CPSR_fields [OF assms(4)]
  show c: "CPSR u = CPSR s" using GetCPSR_SetCPSR [OF assms(2), of "CPSR s"] f(1) by (simp add: u_def ARMul_GetCPSR_def)
  show m: "Mode u = Mode s" using Mode_SetCPSR [OF assms(2), of "CPSR s"] f(2) by (simp add: u_def)
  have o: "bank_ok u \<and> flags_ok u" unfolding u_def by (rule SetCPSR_ok [OF assms(1)])
  then show "bank_ok u" "flags_ok u" by simp_all
  show "Bank u = Bank s" using o m assms(5) by (simp add: bank_ok_def)
  show "TFlag u = TFlag s"
  proof -
    have "TFlag u \<noteq> 0 \<longleftrightarrow> TFlag s \<noteq> 0" using CPSR_fields(3) [of u] o f(3) c by simp
    moreover have "TFlag u \<le> 1" "TFlag s \<le> 1" using o assms(4) by (simp_all add: flags_ok_def)
    ultimately show ?thesis using le_1_of_bool [of "TFlag u"] le_1_of_bool [of "TFlag s"] by (auto split: if_splits)
  qed
  show "banked_reg u b r = banked_reg t b r" if "b \<noteq> DUMMYBANK" "r \<noteq> 15"
    unfolding u_def using assms(1-3,5,6) that f(2) by (intro banked_reg_SetCPSR) (simp_all add: bank_ok_def)
qed

lemma Abort_prog32: "exc_table v (TFlag s \<noteq> 0) = Some (m, i, d) \<Longrightarrow> prog32Sig s \<noteq> LOW \<Longrightarrow> bank_ok s \<Longrightarrow> flags_ok s \<Longrightarrow> Bank s \<noteq> DUMMYBANK
   \<Longrightarrow> prog32Sig (ARMul_Abort s v) = prog32Sig s"
  using SETABORT_effect(11) [of "abort_start v s" i m "abort_return_pc s" d] exc_table_mode [of v "TFlag s \<noteq> 0" m i d]
    SETABORT_effect(1) [of "abort_start v s" i m "abort_return_pc s" d]
  by (simp add: ARMul_Abort_conv SetR15_mode32) (simp add: FLUSHPIPE_def)

lemma Abort_return:
  fixes s :: "'m ARMul_State" and ret :: ARMword
  assumes "exc_table v (TFlag s \<noteq> 0) = Some (m, i, d)" "prog32Sig s \<noteq> LOW"
    "bank_ok s" "flags_ok s" "Bank s \<noteq> DUMMYBANK" "ModeToBank m \<noteq> Bank s"
  defines "u \<equiv> WriteSR15 (ARMul_Abort s v) ret"
  shows "CPSR u = CPSR s \<and> Mode u = Mode s \<and> Bank u = Bank s \<and> bank_ok u \<and> flags_ok u
    \<and> (\<forall>r<15. Reg u r = Reg s r)
    \<and> Reg u 15 = (if TFlag s \<noteq> 0 then ret AND 0xfffffffe else ret AND 0xfffffffc)
    \<and> bit (NextInstr u) 2"
proof -
  let ?t = "ARMul_Abort s v"
  note e = Abort_entry [OF assms(1-5)] and x = exc_table_mode [OF assms(1)]
  have bt: "Bank ?t = ModeToBank m" "bank_ok ?t" "Bank ?t \<noteq> USERBANK" "Bank ?t \<noteq> DUMMYBANK"
    using e x(3) by (auto simp: bank_ok_def BANK_CAN_ACCESS_SPSR_def)
  have pt: "prog32Sig ?t \<noteq> LOW" using Abort_prog32 [OF assms(1-5)] assms(2) by simp
  let ?w = "ARMul_SetCPSR ?t (CPSR s)"
  have sp: "Spsr ?t (Bank ?t) = CPSR s" using e bt(1) by simp
  have u: "u = FLUSHPIPE (set_reg 15 (pc_align ?w ret AND PCBITS32) ?w)"
    unfolding u_def WriteSR15_SetCPSR [OF bt(3)] sp by (simp only: Let_def)
  note r = SPSR_restored [OF bt(2) pt bt(4) assms(4,3,5)]
  have "Reg u q = Reg s q" if "q < 15" for q
  proof -
    have "Reg u q = banked_reg ?w (Bank ?w) q" unfolding banked_reg_Bank using that by (simp add: u)
    also have "\<dots> = banked_reg ?t (Bank s) q" using r(7) [of "Bank s" q] r(3) assms(5) that by simp
    also have "\<dots> = banked_reg s (Bank s) q" using e assms(5,6) that by auto
    finally show ?thesis by (simp add: banked_reg_Bank)
  qed
  moreover have "Reg u 15 = (if TFlag s \<noteq> 0 then ret AND 0xfffffffe else ret AND 0xfffffffc)"
  proof -
    have "Reg u 15 = pc_align ?w ret AND PCBITS32" by (simp add: u)
    then show ?thesis by (simp add: pc_align_def r(6) and.assoc)
  qed
  ultimately show ?thesis using r by (simp add: u)
qed

text \<open>
  C8: Leaving an exception.  From any mode and any of the vectors that switch to another bank, a data-processing instruction with the S bit that writes the PC in the handler undoes the entry: the CPSR with its mode, flags, interrupt masks and Thumb bit, the bank and registers 0 to 14 are those before the exception, the PC is the value written, aligned for the restored instruction set, and the pipeline is flushed.
\<close>

theorem exception_return:
  fixes s :: "'m ARMul_State" and ret :: ARMword
  assumes "exc_table v (TFlag s \<noteq> 0) = Some (m, i, d)" "prog32Sig s \<noteq> LOW"
    "bank_ok s" "flags_ok s" "Bank s \<noteq> DUMMYBANK" "ModeToBank m \<noteq> Bank s"
  defines "u \<equiv> WriteSR15 (ARMul_Abort s v) ret"
  shows "CPSR u = CPSR s \<and> Mode u = Mode s \<and> Bank u = Bank s \<and> bank_ok u \<and> flags_ok u
    \<and> (\<forall>r<15. Reg u r = Reg s r)
    \<and> Reg u 15 = (if TFlag s \<noteq> 0 then ret AND 0xfffffffe else ret AND 0xfffffffc)
    \<and> bit (NextInstr u) 2"
  unfolding u_def using assms(1-6) by (rule Abort_return)

theorem exception_return_witness:
  "let s = set_reg 13 0x40001000 ((ARMul_NewState ())\<lparr>Mode := USER32MODE, TFlag := 1\<rparr>);
       u = WriteSR15 (ARMul_Abort s ARMul_IRQV) 0x1236
   in Mode u = USER32MODE \<and> Reg u 13 = 0x40001000 \<and> Reg u 15 = 0x1236"
proof -
  let ?s = "set_reg 13 0x40001000 ((ARMul_NewState ())\<lparr>Mode := USER32MODE, TFlag := 1\<rparr>)"
  have s: "TFlag ?s = 1" "prog32Sig ?s = HIGH" "Mode ?s = USER32MODE" "Bank ?s = USERBANK" "Reg ?s 13 = 0x40001000"
    "bank_ok ?s" "flags_ok ?s"
    by (simp_all add: set_reg_def ARMul_NewState_def bank_ok_def flags_ok_def ModeToBank_def bankofmode_def)
  have "ModeToBank IRQ32MODE = IRQBANK" by (simp add: ModeToBank_def bankofmode_def)
  then show ?thesis
    using exception_return [of ARMul_IRQV ?s IRQ32MODE IBIT 0 "0x1236"] s by (simp add: exc_table_def Let_def)
qed

end
