(* ===== verification/Arm_Mul.thy ===== *)
theory Arm_Mul
  imports Arm_Operand
begin

text \<open>
  The long multiplications of \<open>armemu.c\<close>: \<open>Add32\<close>, \<open>Multiply64\<close> and \<open>MultiplyAdd64\<close>, and the
  proof that the 16-bit partial products, the carries and the sign fix-up give the 64-bit product.
\<close>

section \<open>The multiplier\<close>

definition Add32 :: "ARMword \<Rightarrow> ARMword \<Rightarrow> ARMword \<times> ARMword" where
  "Add32 a1 a2 = (let result = a1 + a2
     in (result, of_bool (if result = a1 then a2 \<noteq> 0 else result < a1)))"

text \<open>The four 16-bit products and their sum, low word first.\<close>

definition mul_parts :: "ARMword \<Rightarrow> ARMword \<Rightarrow> ARMword \<times> ARMword" where
  "mul_parts Rs Rm =
     (let lo = (Rs AND 0xFFFF) * (Rm AND 0xFFFF);
          mid1 = (Rs AND 0xFFFF) * (drop_bit 16 Rm AND 0xFFFF);
          mid2 = (drop_bit 16 Rs AND 0xFFFF) * (Rm AND 0xFFFF);
          hi = (drop_bit 16 Rs AND 0xFFFF) * (drop_bit 16 Rm AND 0xFFFF);
          (RdLo, carry) = Add32 lo (push_bit 16 mid1);
          RdHi = carry;
          (RdLo, carry) = Add32 RdLo (push_bit 16 mid2);
          RdHi = RdHi + (carry + (drop_bit 16 mid1 AND 0xFFFF) + (drop_bit 16 mid2 AND 0xFFFF) + hi)
      in (RdLo, RdHi))"

definition mul_negate :: "ARMword \<times> ARMword \<Rightarrow> ARMword \<times> ARMword" where
  "mul_negate = (\<lambda>(RdLo, RdHi).
     let RdLo = NOT RdLo; RdHi = NOT RdHi
     in if RdLo = 0xFFFFFFFF then (0, RdHi + 1) else (RdLo + 1, RdHi))"

definition mul_scount :: "bool \<Rightarrow> ARMword \<Rightarrow> nat" where
  "mul_scount msigned Rm =
     (let Rm = (if msigned \<and> Rm AND 0x80000000 \<noteq> 0 then NOT Rm else Rm)
      in if Rm AND 0xFFFFFF00 = 0 then 1 else if Rm AND 0xFFFF0000 = 0 then 2
         else if Rm AND 0xFF000000 = 0 then 3 else 4)"

text \<open>The flags see both words, without the sign bit of the low one.\<close>

definition mul_flags :: "bool \<Rightarrow> ARMword \<Rightarrow> ARMword \<Rightarrow> 'm ARMul_State \<Rightarrow> 'm ARMul_State" where
  "mul_flags scc RdHi RdLo s =
     (if scc then ARMul_NegZero s (RdHi OR drop_bit 16 RdLo OR (RdLo AND 0xFFFF)) else s)"

definition Multiply64 :: "'m ARMul_State \<Rightarrow> ARMword \<Rightarrow> bool \<Rightarrow> bool \<Rightarrow> nat \<times> 'm ARMul_State" where
  "Multiply64 s instr msigned scc =
     (let nRdHi = unat (BITS instr 16 19); nRdLo = unat (BITS instr 12 15);
          nRs = unat (BITS instr 8 11); nRm = unat (BITS instr 0 3);
          Rm = Reg s nRm
      in if nRdHi \<noteq> 15 \<and> nRdLo \<noteq> 15 \<and> nRs \<noteq> 15 \<and> nRm \<noteq> 15 \<and> nRdHi \<noteq> nRdLo then
        (let Rs = Reg s nRs;
             sign = msigned \<and> (Rm XOR Rs) AND 0x80000000 \<noteq> 0;
             Rm = (if msigned \<and> sint Rm < 0 then - Rm else Rm);
             Rs = (if msigned \<and> sint Rs < 0 then - Rs else Rs);
             (RdLo, RdHi) = (if sign then mul_negate (mul_parts Rs Rm) else mul_parts Rs Rm);
             s = set_reg nRdHi RdHi (set_reg nRdLo RdLo s)
         in (2 + mul_scount msigned Rm, mul_flags scc RdHi RdLo s))
      else (2 + mul_scount msigned Rm, mul_flags scc 0 0 s))"

definition MultiplyAdd64 :: "'m ARMul_State \<Rightarrow> ARMword \<Rightarrow> bool \<Rightarrow> bool \<Rightarrow> nat \<times> 'm ARMul_State" where
  "MultiplyAdd64 s instr msigned scc =
     (let nRdHi = unat (BITS instr 16 19); nRdLo = unat (BITS instr 12 15);
          RdHi = Reg s nRdHi; RdLo = Reg s nRdLo;
          (scount, s) = Multiply64 s instr msigned False;
          (RdLo, carry) = Add32 RdLo (Reg s nRdLo);
          RdHi = (RdHi + Reg s nRdHi) + carry;
          s = set_reg nRdHi RdHi (set_reg nRdLo RdLo s)
      in (scount + 1, mul_flags scc RdHi RdLo s))"

section \<open>Correctness of the multiplier\<close>

definition dword :: "ARMword \<Rightarrow> ARMword \<Rightarrow> ARMdword" where
  "dword hi lo = ucast lo + 2 ^ 32 * ucast hi"

lemma ucast_nat: "(ucast (w :: ARMword) :: ARMdword) = word_of_nat (unat w)"
  by simp

lemmas to_nat = of_nat_add of_nat_mult of_nat_power of_nat_numeral ucast_nat

lemma unat_drop16: "unat (drop_bit 16 (w :: ARMword)) = unat w div 2 ^ 16"
  by (subst unat_drop_bit_eq) (simp add: drop_bit_eq_div)

lemma unat_and_ffff: "unat (w AND 0xFFFF :: ARMword) = unat w mod 2 ^ 16"
proof -
  have "w AND 0xFFFF = take_bit 16 w" by (simp add: take_bit_eq_mask mask_eq_exp_minus_1)
  then show ?thesis by (simp add: unsigned_take_bit_eq) (simp add: take_bit_eq_mod)
qed

lemma dw_eqI: "m = n \<Longrightarrow> (word_of_nat m :: ARMdword) = word_of_nat n"
  by simp

lemma dw_Add32:
  "(ucast (fst (Add32 a b)) :: ARMdword) + 2 ^ 32 * ucast (snd (Add32 a b)) = ucast a + ucast b"
proof -
  have "unat (fst (Add32 a b)) + 2 ^ 32 * unat (snd (Add32 a b)) = unat a + unat b"
    using unat_add_carry [of 0 a b] unat_less_2p32 [of a] unat_less_2p32 [of b]
    by (auto simp: Add32_def Let_def word_less_nat_alt word_unat_eq_iff split: if_splits)
  from dw_eqI [OF this] show ?thesis by (simp only: to_nat)
qed

lemma dw_shift16: "(ucast (push_bit 16 m) :: ARMdword) + 2 ^ 32 * ucast (drop_bit 16 (m :: ARMword)) = 2 ^ 16 * ucast m"
proof -
  have 1: "unat (push_bit 16 m) = (unat m * 2 ^ 16) mod 2 ^ 32"
    by (subst unsigned_push_bit_eq) (simp add: take_bit_eq_mod push_bit_eq_mult)
  have k: "a * k mod (k * k) + (k * k) * (a div k) = k * a" for a k :: nat
    by (simp only: mod_mult_mult2 mult.assoc mult.commute [of "a mod k"] distrib_left [symmetric] mod_mult_div_eq)
  have "unat (push_bit 16 m) + 2 ^ 32 * unat (drop_bit 16 m) = 2 ^ 16 * unat m"
    unfolding 1 unat_drop16 using k [of "unat m" "2 ^ 16"] by simp
  from dw_eqI [OF this] show ?thesis by (simp only: to_nat)
qed

lemma dw_high_0: "(2 ^ 32 :: ARMdword) * (2 ^ 32 * x) = 0"
proof -
  have "(2 ^ 32 :: ARMdword) * (2 ^ 32 * x) = 2 ^ 64 * x" by (simp add: mult.assoc [symmetric])
  also have "\<dots> = push_bit 64 x" by (simp only: push_bit_eq_mult mult.commute)
  also have "\<dots> = 0" by (rule bit_word_eqI) (simp add: bit_push_bit_iff)
  finally show ?thesis .
qed

lemma dw_add: "(2 ^ 32 :: ARMdword) * ucast (a + b :: ARMword) = 2 ^ 32 * (ucast a + ucast b)"
proof -
  have "(2 ^ 32 :: ARMdword) * (ucast a + ucast b)
      = 2 ^ 32 * ucast (fst (Add32 a b)) + 2 ^ 32 * (2 ^ 32 * ucast (snd (Add32 a b)))"
    by (simp only: dw_Add32 [symmetric] distrib_left)
  also have "\<dots> = 2 ^ 32 * ucast (a + b)" by (simp only: dw_high_0) (simp add: Add32_def Let_def)
  finally show ?thesis ..
qed

lemma drop16_mask: "drop_bit 16 (m :: ARMword) AND 0xFFFF = drop_bit 16 m"
  using unat_less_2p32 [of m] by (simp add: word_unat_eq_iff unat_and_ffff unat_drop16 del: word_unat_eq_iff [symmetric])

lemma dw_halves: "(ucast w :: ARMdword) = ucast (w AND 0xFFFF) + 2 ^ 16 * ucast (drop_bit 16 (w :: ARMword) AND 0xFFFF)"
proof -
  have "unat w = unat (w AND 0xFFFF) + 2 ^ 16 * unat (drop_bit 16 w)"
    unfolding unat_and_ffff unat_drop16 by simp
  from dw_eqI [OF this] show ?thesis unfolding drop16_mask by (simp only: to_nat)
qed

lemma dw_prod: "(ucast ((a AND 0xFFFF) * (b AND 0xFFFF) :: ARMword) :: ARMdword) = ucast (a AND 0xFFFF) * ucast (b AND 0xFFFF)"
proof -
  let ?a = "a AND 0xFFFF" and ?b = "b AND 0xFFFF"
  have "unat ?a * unat ?b < 2 ^ 16 * 2 ^ 16"
    unfolding unat_and_ffff by (intro mult_strict_mono) auto
  then have "unat (?a * ?b) = unat ?a * unat ?b" by (simp add: unat_word_ariths)
  from dw_eqI [OF this] show ?thesis by (simp only: to_nat)
qed

lemma mul_parts_product: "dword (snd (mul_parts Rs Rm)) (fst (mul_parts Rs Rm)) = ucast Rs * ucast Rm"
proof -
  define a0 a1 b0 b1 where "a0 = Rs AND 0xFFFF" "a1 = drop_bit 16 Rs AND 0xFFFF"
    "b0 = Rm AND 0xFFFF" "b1 = drop_bit 16 Rm AND 0xFFFF"
  note d = this
  define lo mid1 mid2 hi where "lo = a0 * b0" "mid1 = a0 * b1" "mid2 = a1 * b0" "hi = a1 * b1"
  note e = this
  define l1 c1 l2 c2 where "l1 = fst (Add32 lo (push_bit 16 mid1))" "c1 = snd (Add32 lo (push_bit 16 mid1))"
    "l2 = fst (Add32 l1 (push_bit 16 mid2))" "c2 = snd (Add32 l1 (push_bit 16 mid2))"
  note f = this
  let ?u = "ucast :: ARMword \<Rightarrow> ARMdword"
  have "mul_parts Rs Rm = (l2, c1 + (c2 + drop_bit 16 mid1 + drop_bit 16 mid2 + hi))"
    by (simp add: mul_parts_def Let_def split_beta d e f drop16_mask)
  then have "dword (snd (mul_parts Rs Rm)) (fst (mul_parts Rs Rm)) =
      ?u l2 + 2 ^ 32 * (?u c1 + (?u c2 + ?u (drop_bit 16 mid1) + ?u (drop_bit 16 mid2) + ?u hi))"
    by (simp only: dword_def fst_conv snd_conv dw_add distrib_left)
  also have "\<dots> = (?u l2 + 2 ^ 32 * ?u c2) + 2 ^ 32 * ?u c1 + 2 ^ 32 * ?u (drop_bit 16 mid1) + 2 ^ 32 * ?u (drop_bit 16 mid2) + 2 ^ 32 * ?u hi"
    by (simp only: distrib_left ac_simps)
  also have "?u l2 + 2 ^ 32 * ?u c2 = ?u l1 + ?u (push_bit 16 mid2)" unfolding f(3,4) by (rule dw_Add32)
  also have "?u l1 + ?u (push_bit 16 mid2) + 2 ^ 32 * ?u c1 + 2 ^ 32 * ?u (drop_bit 16 mid1) + 2 ^ 32 * ?u (drop_bit 16 mid2) + 2 ^ 32 * ?u hi
     = (?u l1 + 2 ^ 32 * ?u c1) + 2 ^ 32 * ?u (drop_bit 16 mid1) + (?u (push_bit 16 mid2) + 2 ^ 32 * ?u (drop_bit 16 mid2)) + 2 ^ 32 * ?u hi"
    by (simp only: ac_simps)
  also have "?u l1 + 2 ^ 32 * ?u c1 = ?u lo + ?u (push_bit 16 mid1)" unfolding f(1,2) by (rule dw_Add32)
  also have "?u lo + ?u (push_bit 16 mid1) + 2 ^ 32 * ?u (drop_bit 16 mid1) = ?u lo + 2 ^ 16 * ?u mid1"
    by (simp only: add.assoc dw_shift16)
  also have "?u (push_bit 16 mid2) + 2 ^ 32 * ?u (drop_bit 16 mid2) = 2 ^ 16 * ?u mid2" by (rule dw_shift16)
  also have "?u lo + 2 ^ 16 * ?u mid1 + 2 ^ 16 * ?u mid2 + 2 ^ 32 * ?u hi
     = (?u a0 + 2 ^ 16 * ?u a1) * (?u b0 + 2 ^ 16 * ?u b1)"
    unfolding e unfolding d dw_prod by (simp add: algebra_simps)
  also have "\<dots> = ?u Rs * ?u Rm" unfolding d using dw_halves [of Rs] dw_halves [of Rm] by simp
  finally show ?thesis .
qed


lemma dw_not: "(ucast (NOT (w :: ARMword)) :: ARMdword) = 2 ^ 32 - 1 - ucast w"
proof -
  have "unat (NOT w) + unat w + 1 = 2 ^ 32"
  proof -
    have "(0xFFFFFFFF :: ARMword) = - 1" by simp
    then have "NOT w = 0xFFFFFFFF - w - 0" by (simp only: not_eq_complement) simp
    then show ?thesis using unat_less_2p32 [of w] unat_sub_borrow [of 0 "0xFFFFFFFF" w] by simp
  qed
  from dw_eqI [OF this] show ?thesis by (simp only: to_nat of_nat_1) (simp add: algebra_simps)
qed

lemma no_wrap_succ: "w \<noteq> 0xFFFFFFFF \<Longrightarrow> \<not> w + 1 < (w :: ARMword)"
  using unat_add_carry [of 0 w 1] unat_less_2p32 [of w] by (auto simp: word_less_nat_alt word_unat_eq_iff split: if_splits)

lemma mul_negate_dword: "dword (snd (mul_negate p)) (fst (mul_negate p)) = - dword (snd p) (fst p)"
proof -
  obtain lo hi where p: "p = (lo, hi)" by (cases p)
  let ?u = "ucast :: ARMword \<Rightarrow> ARMdword"
  have "dword (snd (mul_negate p)) (fst (mul_negate p)) = ?u (NOT lo) + 1 + 2 ^ 32 * ?u (NOT hi)"
  proof (cases "NOT lo = 0xFFFFFFFF")
    case True
    then show ?thesis by (simp add: mul_negate_def p dword_def dw_add distrib_left dw_add [simplified])
  next
    case False
    have "?u (NOT lo + 1) = ?u (NOT lo) + 1"
      using False dw_Add32 [of "NOT lo" 1] no_wrap_succ [of "NOT lo"] by (simp add: Add32_def Let_def)
    then show ?thesis using False by (simp add: mul_negate_def p dword_def)
  qed
  also have "\<dots> = - dword (snd p) (fst p)"
    using dw_high_0 [of 1] by (simp add: p dword_def dw_not algebra_simps)
  finally show ?thesis .
qed


lemma dw_scast: "(scast (w :: ARMword) :: ARMdword) = (if sint w < 0 then - ucast (- w) else ucast w)"
proof (cases "sint w < 0")
  case True
  then have u: "unat w \<noteq> 0" "sint w = int (unat w) - 4294967296" by (simp_all add: sint_conv_unat split: if_splits)
  then have "unat (- w) + unat w = 4294967296"
    using unat_sub_borrow [of 0 0 w] unat_less_2p32 [of w] by simp
  then have "sint w = - int (unat (- w))" using u(2) by linarith
  then have "(word_of_int (sint w) :: ARMdword) = - word_of_nat (unat (- w))" by simp
  then show ?thesis using True by simp
next
  case False
  then have "\<not> 2147483648 \<le> unat w" using bit31_conv_sint [of w] bit31_conv_unat [of w] by simp
  then have "sint w = int (unat w)" using sint_conv_unat [of w] by (simp only: if_False)
  then have "(word_of_int (sint w) :: ARMdword) = word_of_nat (unat w)" by simp
  then show ?thesis using False by simp
qed

text \<open>What the flags of a 64-bit result must be.\<close>

lemma dword_0_iff: "dword hi lo = 0 \<longleftrightarrow> hi = 0 \<and> lo = 0"
proof -
  have b: "unat lo + 2 ^ 32 * unat hi < 2 ^ 64" using unat_less_2p32 [of hi] unat_less_2p32 [of lo] by simp
  have "dword hi lo = word_of_nat (unat lo + 2 ^ 32 * unat hi)" by (simp add: dword_def)
  then have "unat (dword hi lo) = unat lo + 2 ^ 32 * unat hi"
    using b by (simp only: unat_of_nat) simp
  then show ?thesis by (metis add_is_0 mult_is_0 power_not_zero unat_0 unat_eq_zero zero_neq_numeral)
qed


lemma dword_bit_63: "bit (dword hi lo) 63 \<longleftrightarrow> bit hi 31"
proof -
  have "ucast lo + push_bit 32 (ucast hi) = (ucast lo OR push_bit 32 (ucast hi) :: ARMdword)"
    by (rule disjunctive_add) (auto simp: bit_simps not_bit_ge_32)
  then have "dword hi lo = ucast lo OR push_bit 32 (ucast hi)"
    by (simp only: dword_def push_bit_eq_mult mult.commute)
  then show ?thesis by (simp add: bit_simps not_bit_ge_32)
qed

lemma mul_flags_dword:
  "NFlag (mul_flags True hi lo s) = of_bool (sint (dword hi lo) < 0)"
  "ZFlag (mul_flags True hi lo s) = of_bool (dword hi lo = 0)"
proof -
  let ?v = "hi OR drop_bit 16 lo OR (lo AND 0xFFFF)"
  have n: "bit ?v 31 \<longleftrightarrow> sint (dword hi lo) < 0"
    using bit_last_iff [of "dword hi lo"] dword_bit_63 [of hi lo] by (simp add: bit_simps not_bit_ge_32)
  have "drop_bit 16 lo = 0 \<and> lo AND 0xFFFF = 0 \<longleftrightarrow> lo = 0"
    using dw_halves [of lo] dword_0_iff [of 0 lo] by (auto simp: drop16_mask dword_def)
  then have z: "?v = 0 \<longleftrightarrow> dword hi lo = 0" by (auto simp: dword_0_iff or_eq_0_iff)
  show "NFlag (mul_flags True hi lo s) = of_bool (sint (dword hi lo) < 0)"
    using n by (simp add: mul_flags_def ARMul_NegZero_def)
  show "ZFlag (mul_flags True hi lo s) = of_bool (dword hi lo = 0)"
    using n z by (auto simp: mul_flags_def ARMul_NegZero_def)
qed


text \<open>The product of two registers in 64 bits.\<close>

definition product64 :: "bool \<Rightarrow> ARMword \<Rightarrow> ARMword \<Rightarrow> ARMdword" where
  "product64 msigned x y = (if msigned then word_of_int (sint x * sint y) else word_of_nat (unat x * unat y))"

definition mul_args_ok :: "ARMword \<Rightarrow> bool" where
  "mul_args_ok instr \<longleftrightarrow> 15 \<notin> unat ` {BITS instr 16 19, BITS instr 12 15, BITS instr 8 11, BITS instr 0 3}
     \<and> BITS instr 16 19 \<noteq> BITS instr 12 15"

definition mul_result :: "'m ARMul_State \<Rightarrow> ARMword \<Rightarrow> ARMdword" where
  "mul_result s instr = dword (Reg s (unat (BITS instr 16 19))) (Reg s (unat (BITS instr 12 15)))"

lemma mul_signs: "(Rm XOR Rs) AND 0x80000000 \<noteq> 0 \<longleftrightarrow> (sint Rm < 0) \<noteq> (sint (Rs :: ARMword) < 0)"
  by (simp add: and_flag_iff bit_simps flip: bit31_conv_sint)

lemma mul_core:
  fixes Rs Rm :: ARMword and g :: bool
  defines "p \<equiv> mul_parts (if g \<and> sint Rs < 0 then - Rs else Rs) (if g \<and> sint Rm < 0 then - Rm else Rm)"
  defines "q \<equiv> (if g \<and> (Rm XOR Rs) AND 0x80000000 \<noteq> 0 then mul_negate p else p)"
  shows "dword (snd q) (fst q) = product64 g Rs Rm"
proof -
  have "product64 g Rs Rm = (if g then scast Rs * scast Rm else ucast Rs * ucast Rm)"
    by (simp add: product64_def)
  moreover have "dword (snd p) (fst p) = ucast (if g \<and> sint Rs < 0 then - Rs else Rs) * ucast (if g \<and> sint Rm < 0 then - Rm else Rm)"
    unfolding p_def by (rule mul_parts_product)
  ultimately show ?thesis
    unfolding q_def mul_signs by (simp add: mul_negate_dword dw_scast)
qed

lemma Multiply64_step:
  assumes "mul_args_ok instr"
  shows "mul_result (snd (Multiply64 s instr g scc)) instr
     = product64 g (Reg s (unat (BITS instr 8 11))) (Reg s (unat (BITS instr 0 3)))"
    and "scc \<Longrightarrow> NFlag (snd (Multiply64 s instr g scc)) = of_bool (sint (mul_result (snd (Multiply64 s instr g scc)) instr) < 0)"
    and "scc \<Longrightarrow> ZFlag (snd (Multiply64 s instr g scc)) = of_bool (mul_result (snd (Multiply64 s instr g scc)) instr = 0)"
    and "\<not> scc \<Longrightarrow> \<exists>lo hi. snd (Multiply64 s instr g scc) = set_reg (unat (BITS instr 16 19)) hi (set_reg (unat (BITS instr 12 15)) lo s)"
proof -
  let ?Rs = "Reg s (unat (BITS instr 8 11))" and ?Rm = "Reg s (unat (BITS instr 0 3))"
  define p where "p = mul_parts (if g \<and> sint ?Rs < 0 then - ?Rs else ?Rs) (if g \<and> sint ?Rm < 0 then - ?Rm else ?Rm)"
  define q where "q = (if g \<and> (?Rm XOR ?Rs) AND 0x80000000 \<noteq> 0 then mul_negate p else p)"
  define h l where "h = unat (BITS instr 16 19)" "l = unat (BITS instr 12 15)"
  have ok: "h \<noteq> 15" "l \<noteq> 15" "unat (BITS instr 8 11) \<noteq> 15" "unat (BITS instr 0 3) \<noteq> 15" "h \<noteq> l"
    using assms by (auto simp: mul_args_ok_def h_l_def word_unat_eq_iff)
  have eq: "snd (Multiply64 s instr g scc) = mul_flags scc (snd q) (fst q) (set_reg h (snd q) (set_reg l (fst q) s))"
    using ok by (simp add: Multiply64_def Let_def split_beta h_l_def p_def q_def)
  have "Reg (mul_flags scc a b t) = Reg t" for a b and t :: "'a ARMul_State"
    by (simp add: mul_flags_def ARMul_NegZero_def)
  then have r: "mul_result (snd (Multiply64 s instr g scc)) instr = dword (snd q) (fst q)"
    using ok(5) unfolding eq mul_result_def by (simp add: set_reg_def h_l_def)
  show "mul_result (snd (Multiply64 s instr g scc)) instr = product64 g ?Rs ?Rm"
    unfolding r q_def p_def by (rule mul_core)
  show "scc \<Longrightarrow> NFlag (snd (Multiply64 s instr g scc)) = of_bool (sint (mul_result (snd (Multiply64 s instr g scc)) instr) < 0)"
    and "scc \<Longrightarrow> ZFlag (snd (Multiply64 s instr g scc)) = of_bool (mul_result (snd (Multiply64 s instr g scc)) instr = 0)"
    unfolding r unfolding eq by (simp_all add: mul_flags_dword)
  show "\<not> scc \<Longrightarrow> \<exists>lo hi. snd (Multiply64 s instr g scc) = set_reg (unat (BITS instr 16 19)) hi (set_reg (unat (BITS instr 12 15)) lo s)"
    unfolding eq by (auto simp: mul_flags_def h_l_def)
qed


lemma MultiplyAdd64_step:
  fixes s :: "'a ARMul_State" and g scc :: bool
  assumes "mul_args_ok instr"
  defines "t \<equiv> snd (MultiplyAdd64 s instr g scc)"
  shows "mul_result t instr
       = mul_result s instr + product64 g (Reg s (unat (BITS instr 8 11))) (Reg s (unat (BITS instr 0 3)))"
    and "scc \<Longrightarrow> NFlag t = of_bool (sint (mul_result t instr) < 0) \<and> ZFlag t = of_bool (mul_result t instr = 0)"
proof -
  define h l where "h = unat (BITS instr 16 19)" "l = unat (BITS instr 12 15)"
  have ne: "h \<noteq> l" using assms(1) by (auto simp: mul_args_ok_def h_l_def word_unat_eq_iff)
  define u where "u = snd (Multiply64 s instr g False)"
  let ?a = "Add32 (Reg s l) (Reg u l)"
  let ?hi = "Reg s h + Reg u h + snd ?a"
  have eq: "t = mul_flags scc ?hi (fst ?a) (set_reg h ?hi (set_reg l (fst ?a) u))"
    by (simp add: t_def MultiplyAdd64_def Let_def split_beta h_l_def u_def)
  have "Reg (mul_flags scc a b v) = Reg v" for a b and v :: "'a ARMul_State"
    by (simp add: mul_flags_def ARMul_NegZero_def)
  then have r: "mul_result t instr = dword ?hi (fst ?a)"
    using ne unfolding eq mul_result_def by (simp add: set_reg_def h_l_def)
  also have "\<dots> = (ucast (fst ?a) + 2 ^ 32 * ucast (snd ?a)) + 2 ^ 32 * (ucast (Reg s h) + ucast (Reg u h))"
    by (simp only: dword_def dw_add distrib_left distrib_right ac_simps)
  also have "\<dots> = mul_result s instr + mul_result u instr"
    unfolding dw_Add32 by (simp only: mul_result_def dword_def h_l_def distrib_left distrib_right ac_simps)
  finally show "mul_result t instr
       = mul_result s instr + product64 g (Reg s (unat (BITS instr 8 11))) (Reg s (unat (BITS instr 0 3)))"
    using Multiply64_step(1) [OF assms(1), where s = s and g = g and scc = False] by (simp only: u_def)
  show "scc \<Longrightarrow> NFlag t = of_bool (sint (mul_result t instr) < 0) \<and> ZFlag t = of_bool (mul_result t instr = 0)"
    unfolding r unfolding eq by (simp add: mul_flags_dword)
qed

text \<open>
  C19: The long multiplications, computed from four 16-bit products with explicit carries and a sign fix-up, give the exact 64-bit product of the two source registers, signed or unsigned, in the destination pair; the accumulating forms add it to the old value of the pair modulo 2^64; and the N and Z flags are those of the 64-bit result. Destinations that overlap the sources are included.
\<close>

theorem multiply64_product:
  assumes "mul_args_ok instr"
  shows "let prod = product64 msigned (Reg s (unat (BITS instr 8 11))) (Reg s (unat (BITS instr 0 3)));
             t = snd (Multiply64 s instr msigned True); u = snd (MultiplyAdd64 s instr msigned True)
    in mul_result t instr = prod
     \<and> NFlag t = of_bool (sint prod < 0) \<and> ZFlag t = of_bool (prod = 0)
     \<and> mul_result u instr = mul_result s instr + prod
     \<and> NFlag u = of_bool (sint (mul_result s instr + prod) < 0) \<and> ZFlag u = of_bool (mul_result s instr + prod = 0)"
  using Multiply64_step(1-3) [OF assms, where s = s and g = msigned and scc = True] MultiplyAdd64_step [OF assms, where s = s and g = msigned and scc = True]
  by (simp add: Let_def)

theorem multiply64_product_witness:
  "let s = set_reg 3 0xfffffffe (set_reg 2 5 (ARMul_NewState ())) in
     mul_result (snd (Multiply64 s 0xe0d54392 True True)) 0xe0d54392 = - 10"
proof -
  have ok: "mul_args_ok 0xe0d54392" by (simp add: mul_args_ok_def BITS_def)
  show ?thesis
    using multiply64_product [OF ok, where msigned = True and s = "set_reg 3 0xfffffffe (set_reg 2 5 (ARMul_NewState ()))"]
    by (simp add: Let_def BITS_def set_reg_def product64_def)
qed

end
