(* ===== verification/Arm_LdSt.thy ===== *)
theory Arm_LdSt
  imports Arm_Operand
begin

text \<open>
  Loads and stores (\<open>armemu.c\<close>, 32-bit build): words, halfwords, bytes, double words and the
  four kinds of multiple transfers, over the operations of a memory management unit.  The locale
  \<open>word_memory\<close> is what the multiple transfers need of the unit; it is interpreted on
  the ARM7 unit over RAM.
\<close>

section \<open>Fault registers of the XScale\<close>

abbreviation (input) ARMul_CP15_R5_ST_ALIGN :: ARMword where "ARMul_CP15_R5_ST_ALIGN \<equiv> 1"

definition XScale_set_fsr_far :: "ARMword \<Rightarrow> ARMword \<Rightarrow> 'm ARMul_State \<Rightarrow> 'm ARMul_State" where
  "XScale_set_fsr_far fsr far s =
     (if is_XScale s = 0 then s
      else s\<lparr>mmu := (mmu s)\<lparr>fault_status := fsr AND 0x6FF, fault_address := far\<rparr>\<rparr>)"

section \<open>Single loads\<close>

text \<open>
  Each function returns whether the base register may be written back.  \<open>dest_of\<close> is what
  the load makes of the word it got; \<open>wr\<close> writes the destination.
\<close>

definition load_common :: "(ARMword \<Rightarrow> ARMword) \<Rightarrow> (ARMword \<Rightarrow> ARMword \<Rightarrow> 'm ARMul_State \<Rightarrow> 'm ARMul_State) \<Rightarrow>
    ARMword \<Rightarrow> (ARMword \<times> 'm ARMul_State) option \<Rightarrow> (bool \<times> 'm ARMul_State) option" where
  "load_common dest_of wr instr r =
     (case r of
        None \<Rightarrow> None
      | Some (dest, s) \<Rightarrow>
         if Aborted s \<noteq> 0 then (let s = TAKEABORT s in Some (lateabtSig s \<noteq> 0, s))
         else Some (DESTReg instr \<noteq> LHSReg instr, ARMul_Icycles (wr instr (dest_of dest) s) 1))"

definition LoadWord :: "'m mmu_ops \<Rightarrow> 'm ARMul_State \<Rightarrow> ARMword \<Rightarrow> ARMword \<Rightarrow> (bool \<times> 'm ARMul_State) option" where
  "LoadWord M s instr address =
     load_common (\<lambda>dest. if address AND 3 \<noteq> 0 then ARMul_Align address dest else dest)
       WRITEDESTB instr (ARMul_LoadWordN M (BUSUSEDINCPCS s) address)"

definition LoadHalfWord :: "'m mmu_ops \<Rightarrow> 'm ARMul_State \<Rightarrow> ARMword \<Rightarrow> ARMword \<Rightarrow> bool \<Rightarrow> (bool \<times> 'm ARMul_State) option" where
  "LoadHalfWord M s instr address signextend =
     load_common (\<lambda>dest. if signextend \<and> dest AND 0x8000 \<noteq> 0 then (dest AND 0xffff) - 0x10000 else dest)
       WRITEDEST instr (ARMul_LoadHalfWord M (BUSUSEDINCPCS s) address)"

definition LoadByte :: "'m mmu_ops \<Rightarrow> 'm ARMul_State \<Rightarrow> ARMword \<Rightarrow> ARMword \<Rightarrow> bool \<Rightarrow> (bool \<times> 'm ARMul_State) option" where
  "LoadByte M s instr address signextend =
     load_common (\<lambda>dest. if signextend \<and> dest AND 0x80 \<noteq> 0 then (dest AND 0xff) - 0x100 else dest)
       WRITEDEST instr (ARMul_LoadByte M (BUSUSEDINCPCS s) address)"

section \<open>Single stores\<close>

definition store_common :: "'m ARMul_State option \<Rightarrow> (bool \<times> 'm ARMul_State) option" where
  "store_common r =
     map_option (\<lambda>s. if Aborted s \<noteq> 0 then (let s = TAKEABORT s in (lateabtSig s \<noteq> 0, s)) else (True, s)) r"

definition StoreWord :: "'m mmu_ops \<Rightarrow> 'm ARMul_State \<Rightarrow> ARMword \<Rightarrow> ARMword \<Rightarrow> (bool \<times> 'm ARMul_State) option" where
  "StoreWord M s instr address =
     (let s = BUSUSEDINCPCN s in store_common (ARMul_StoreWordN M s address (Reg s (DESTReg instr))))"

definition StoreHalfWord :: "'m mmu_ops \<Rightarrow> 'm ARMul_State \<Rightarrow> ARMword \<Rightarrow> ARMword \<Rightarrow> (bool \<times> 'm ARMul_State) option" where
  "StoreHalfWord M s instr address =
     (let s = BUSUSEDINCPCN s in store_common (ARMul_StoreHalfWord M s address (Reg s (DESTReg instr))))"

definition StoreByte :: "'m mmu_ops \<Rightarrow> 'm ARMul_State \<Rightarrow> ARMword \<Rightarrow> ARMword \<Rightarrow> (bool \<times> 'm ARMul_State) option" where
  "StoreByte M s instr address =
     (let s = BUSUSEDINCPCN s in store_common (ARMul_StoreByte M s address (Reg s (DESTReg instr))))"

section \<open>Double words\<close>

text \<open>The offset of the two, and the sum of base and offset.\<close>

definition double_offset :: "'m ARMul_State \<Rightarrow> ARMword \<Rightarrow> ARMword" where
  "double_offset s instr =
     (if BIT instr 22 \<noteq> 0 then push_bit 4 (BITS instr 8 11) OR BITS instr 0 3 else Reg s (RHSReg instr))"

definition double_sum :: "'m ARMul_State \<Rightarrow> ARMword \<Rightarrow> ARMword" where
  "double_sum s instr =
     (let base = Reg s (LHSReg instr); offset = double_offset s instr
      in if BIT instr 23 \<noteq> 0 then base + offset else base - offset)"

definition Handle_Load_Double :: "'m mmu_ops \<Rightarrow> 'm ARMul_State \<Rightarrow> ARMword \<Rightarrow> 'm ARMul_State option" where
  "Handle_Load_Double M s instr =
     (let write_back = BIT instr 21 \<noteq> 0; pre_indexed = BIT instr 24 \<noteq> 0;
          s = BUSUSEDINCPCS s;
          addr_reg = LHSReg instr; dest_reg = DESTReg instr
      in if write_back \<and> \<not> pre_indexed then Some (ARMul_UndefInstr s instr)
         else if odd dest_reg \<or> dest_reg = 14 then Some (ARMul_UndefInstr s instr)
         else
          (let base = Reg s addr_reg; sum = double_sum s instr;
               addr = (if pre_indexed then sum else base)
           in if addr AND 0x7 \<noteq> 0 then Some (ARMul_UndefInstr s instr)
              else if (\<not> pre_indexed \<or> write_back) \<and> (addr_reg = dest_reg \<or> addr_reg = dest_reg + 1)
              then Some (ARMul_UndefInstr s instr)
              else do {
                (value1, s) \<leftarrow> ARMul_LoadWordN M s addr;
                (value2, s) \<leftarrow> ARMul_LoadWordN M s (addr + 4);
                if Aborted s \<noteq> 0 then Some (TAKEABORT s)
                else
                 (let s = ARMul_Icycles s 2;
                      s = set_reg (dest_reg + 1) value2 (set_reg dest_reg value1 s)
                  in Some (if \<not> pre_indexed \<or> write_back then set_reg addr_reg sum s else s))
              }))"

definition Handle_Store_Double :: "'m mmu_ops \<Rightarrow> 'm ARMul_State \<Rightarrow> ARMword \<Rightarrow> 'm ARMul_State option" where
  "Handle_Store_Double M s instr =
     (let write_back = BIT instr 21 \<noteq> 0; pre_indexed = BIT instr 24 \<noteq> 0;
          s = BUSUSEDINCPCS s;
          addr_reg = LHSReg instr; src_reg = DESTReg instr
      in if write_back \<and> \<not> pre_indexed then Some (ARMul_UndefInstr s instr)
         else if addr_reg = 15 then Some (ARMul_UndefInstr s instr)
         else if odd src_reg then Some (ARMul_UndefInstr s instr)
         else
          (let base = Reg s addr_reg; sum = double_sum s instr;
               addr = (if pre_indexed then sum else base)
           in if addr AND 0x7 \<noteq> 0 then Some (ARMul_UndefInstr s instr)
              else if (\<not> pre_indexed \<or> write_back) \<and> (addr_reg = src_reg \<or> addr_reg = src_reg + 1)
              then Some (ARMul_UndefInstr s instr)
              else do {
                s \<leftarrow> ARMul_StoreWordN M s addr (Reg s src_reg);
                s \<leftarrow> ARMul_StoreWordN M s (addr + 4) (Reg s (src_reg + 1));
                if Aborted s \<noteq> 0 then Some (TAKEABORT s)
                else Some (if \<not> pre_indexed \<or> write_back then set_reg addr_reg sum s else s)
              }))"

section \<open>Multiple loads\<close>

text \<open>
  The first register of the list: \<open>for (temp = 0; !BIT (temp); temp++)\<close>.  The loop does not
  stop at 15, and with an empty list the next access would be outside \<open>Reg\<close>: that is None.
\<close>

definition lsm_first :: "ARMword \<Rightarrow> nat option" where
  "lsm_first instr = find (\<lambda>n. BIT instr n \<noteq> 0) [0..<16]"

definition ldm_abort :: "ARMword \<Rightarrow> 'm ARMul_State \<Rightarrow> 'm ARMul_State" where
  "ldm_abort address s =
     (if Aborted s = 0 then (XScale_set_fsr_far ARMul_CP15_R5_ST_ALIGN address s)\<lparr>Aborted := ARMul_DataAbortV\<rparr> else s)"

definition ldm_put :: "nat \<Rightarrow> ARMword \<Rightarrow> ARMword \<Rightarrow> 'm ARMul_State \<Rightarrow> 'm ARMul_State" where
  "ldm_put temp dest address s =
     (if abortSig s = 0 \<and> Aborted s = 0 then set_reg temp dest s else ldm_abort address s)"

text \<open>The S cycles, for the registers that are left; an abort ends them.\<close>

fun ldm_loop :: "'m mmu_ops \<Rightarrow> ARMword \<Rightarrow> nat list \<Rightarrow> ARMword \<Rightarrow> 'm ARMul_State \<Rightarrow> 'm ARMul_State option" where
  "ldm_loop M instr [] address s = Some s"
| "ldm_loop M instr (temp # ts) address s =
     (if BIT instr temp \<noteq> 0 then
        (case ARMul_LoadWordS M s (address + 4) of
           None \<Rightarrow> None
         | Some (dest, s) \<Rightarrow>
            (let s = ldm_put temp dest (address + 4) s
             in if Aborted s \<noteq> 0 then Some s else ldm_loop M instr ts (address + 4) s))
      else ldm_loop M instr ts address s)"

definition lsm_writeback :: "ARMword \<Rightarrow> ARMword \<Rightarrow> 'm ARMul_State \<Rightarrow> 'm ARMul_State" where
  "lsm_writeback instr WBBase s =
     (if BIT instr 21 \<noteq> 0 \<and> LHSReg instr \<noteq> 15 then set_reg (LHSReg instr) WBBase s else s)"

definition LoadMult :: "'m mmu_ops \<Rightarrow> 'm ARMul_State \<Rightarrow> ARMword \<Rightarrow> ARMword \<Rightarrow> ARMword \<Rightarrow> 'm ARMul_State option" where
  "LoadMult M s instr address WBBase =
     do {
       let s = BUSUSEDINCPCS s;
       temp \<leftarrow> lsm_first instr;
       (dest, s) \<leftarrow> ARMul_LoadWordN M s address;
       let s = ldm_put temp dest address s;
       s \<leftarrow> (if Aborted s \<noteq> 0 then Some s else ldm_loop M instr [temp + 1..<16] address s);
       let s = (if BIT instr 15 \<noteq> 0 \<and> Aborted s = 0 then WriteR15Branch s (Reg s 15 AND PCBITS32) else s);
       let s = ARMul_Icycles s 1;
       Some (if Aborted s \<noteq> 0 then TAKEABORT s else lsm_writeback instr WBBase s)
     }"

text \<open>The late or early abort models: whether an aborted transfer still writes the base back.\<close>

definition late_writeback :: "ARMword \<Rightarrow> ARMword \<Rightarrow> 'm ARMul_State \<Rightarrow> 'm ARMul_State" where
  "late_writeback instr WBBase s =
     (if \<not> (abortSig s \<noteq> 0 \<and> Aborted s \<noteq> 0 \<and> lateabtSig s = LOW) then lsm_writeback instr WBBase s else s)"

definition user_mode :: "'m ARMul_State \<Rightarrow> bool" where
  "user_mode s \<longleftrightarrow> Mode s = USER26MODE \<or> Mode s = USER32MODE"

definition LoadSMult :: "'m mmu_ops \<Rightarrow> 'm ARMul_State \<Rightarrow> ARMword \<Rightarrow> ARMword \<Rightarrow> ARMword \<Rightarrow> 'm ARMul_State option" where
  "LoadSMult M s instr address WBBase =
     do {
       let s = BUSUSEDINCPCS s;
       let s = (if BIT instr 15 = 0 \<and> Bank s \<noteq> USERBANK then snd (ARMul_SwitchMode s (Mode s) USER26MODE) else s);
       temp \<leftarrow> lsm_first instr;
       (dest, s) \<leftarrow> ARMul_LoadWordN M s address;
       let s = (if abortSig s = 0 then set_reg temp dest s else ldm_abort address s);
       s \<leftarrow> (if Aborted s \<noteq> 0 then Some s else ldm_loop M instr [temp + 1..<16] address s);
       let s = (if Aborted s \<noteq> 0 then TAKEABORT (late_writeback instr WBBase s) else lsm_writeback instr WBBase s);
       let s = (if BIT instr 15 \<noteq> 0 \<and> Aborted s = 0 then
                  (let s = (if user_mode s then s
                            else ARMul_CPSRAltered (s\<lparr>Cpsr := ARMul_GetSPSR s (EMODE s)\<rparr>))
                   in WriteR15 s (Reg s 15 AND PCBITS32))
                else s);
       let s = (if BIT instr 15 = 0 \<and> \<not> user_mode s then snd (ARMul_SwitchMode s USER26MODE (Mode s)) else s);
       Some (ARMul_Icycles s 1)
     }"

section \<open>Multiple stores\<close>

definition stm_check :: "ARMword \<Rightarrow> 'm ARMul_State \<Rightarrow> 'm ARMul_State" where
  "stm_check address s = (if abortSig s \<noteq> 0 then ldm_abort address s else s)"

fun stm_loop :: "'m mmu_ops \<Rightarrow> ARMword \<Rightarrow> nat list \<Rightarrow> ARMword \<Rightarrow> 'm ARMul_State \<Rightarrow> 'm ARMul_State option" where
  "stm_loop M instr [] address s = Some s"
| "stm_loop M instr (temp # ts) address s =
     (if BIT instr temp \<noteq> 0 then
        (case ARMul_StoreWordS M s (address + 4) (Reg s temp) of
           None \<Rightarrow> None
         | Some s \<Rightarrow>
            (let s = stm_check (address + 4) s
             in if Aborted s \<noteq> 0 then Some s else stm_loop M instr ts (address + 4) s))
      else stm_loop M instr ts address s)"

text \<open>The transfers of a multiple store: the N cycle, then the S cycles.\<close>

definition stm_transfer :: "'m mmu_ops \<Rightarrow> ARMword \<Rightarrow> ARMword \<Rightarrow> 'm ARMul_State \<Rightarrow> 'm ARMul_State option" where
  "stm_transfer M instr address s =
     do {
       temp \<leftarrow> lsm_first instr;
       s \<leftarrow> ARMul_StoreWordN M s address (Reg s temp);
       let s = stm_check address s;
       if Aborted s \<noteq> 0 then Some s else stm_loop M instr [temp + 1..<16] address s
     }"

definition stm_finish :: "ARMword \<Rightarrow> ARMword \<Rightarrow> 'm ARMul_State \<Rightarrow> 'm ARMul_State" where
  "stm_finish instr WBBase s =
     (let s = late_writeback instr WBBase s in if Aborted s \<noteq> 0 then TAKEABORT s else s)"

definition StoreMult :: "'m mmu_ops \<Rightarrow> 'm ARMul_State \<Rightarrow> ARMword \<Rightarrow> ARMword \<Rightarrow> ARMword \<Rightarrow> 'm ARMul_State option" where
  "StoreMult M s instr address WBBase =
     map_option (stm_finish instr WBBase)
       (stm_transfer M instr address (if TFlag s = 0 then BUSUSEDINCPCN s else s))"

text \<open>An abort jumps over the switch back to the bank of the mode.\<close>

definition StoreSMult :: "'m mmu_ops \<Rightarrow> 'm ARMul_State \<Rightarrow> ARMword \<Rightarrow> ARMword \<Rightarrow> ARMword \<Rightarrow> 'm ARMul_State option" where
  "StoreSMult M s instr address WBBase =
     do {
       let s = BUSUSEDINCPCN s;
       let s = (if Bank s \<noteq> USERBANK then snd (ARMul_SwitchMode s (Mode s) USER26MODE) else s);
       s \<leftarrow> stm_transfer M instr address s;
       let s = (if Aborted s = 0 \<and> \<not> user_mode s then snd (ARMul_SwitchMode s USER26MODE (Mode s)) else s);
       Some (stm_finish instr WBBase s)
     }"

section \<open>What a multiple transfer does to registers and memory\<close>

text \<open>
  The effect of the loops on plain functions: the registers after loading from a memory \<open>v\<close>,
  the memory after storing from registers \<open>R\<close>.  The address is that of the word before.
\<close>

fun ldm_regs :: "(ARMword \<Rightarrow> ARMword) \<Rightarrow> ARMword \<Rightarrow> nat list \<Rightarrow> ARMword \<Rightarrow> (nat \<Rightarrow> ARMword) \<Rightarrow> nat \<Rightarrow> ARMword" where
  "ldm_regs v instr [] a R = R"
| "ldm_regs v instr (t # ts) a R =
     (if bit instr t then ldm_regs v instr ts (a + 4) (R(t := v (a + 4))) else ldm_regs v instr ts a R)"

fun stm_mem :: "(nat \<Rightarrow> ARMword) \<Rightarrow> ARMword \<Rightarrow> nat list \<Rightarrow> ARMword \<Rightarrow> (ARMword \<Rightarrow> ARMword) \<Rightarrow> ARMword \<Rightarrow> ARMword" where
  "stm_mem R instr [] a v = v"
| "stm_mem R instr (t # ts) a v =
     (if bit instr t then stm_mem R instr ts (a + 4) (v(a + 4 := R t)) else stm_mem R instr ts a v)"

text \<open>The address of the word that belongs to register \<open>r\<close> of the list.\<close>

definition lsm_addr :: "ARMword \<Rightarrow> ARMword \<Rightarrow> nat \<Rightarrow> ARMword" where
  "lsm_addr instr address r = address + 4 * of_nat (bits_below instr r)"

lemma lsm_addr_Suc: "lsm_addr instr a (Suc r) = (if bit instr r then lsm_addr instr a r + 4 else lsm_addr instr a r)"
  by (simp add: lsm_addr_def algebra_simps)

lemma ldm_regs_upt:
  "ldm_regs v instr [j..<n] (lsm_addr instr a j - 4) R r
     = (if j \<le> r \<and> r < n \<and> bit instr r then v (lsm_addr instr a r) else R r)"
proof (induction "n - j" arbitrary: j R)
  case 0
  then show ?case by auto
next
  case (Suc k)
  then have j: "j < n" "k = n - Suc j" by simp_all
  have c: "[j..<n] = j # [Suc j..<n]" using j(1) by (rule upt_conv_Cons)
  show ?case using Suc.hyps(1) [OF j(2)] j(1) unfolding c
    by (cases "r = j"; cases "bit instr j") (auto simp: lsm_addr_Suc Suc_le_eq)
qed

lemma ldm_regs_cong:
  assumes "\<forall>k<length (filter (bit instr) ts). v (a + 4 * of_nat (Suc k)) = w (a + 4 * of_nat (Suc k))"
  shows "ldm_regs v instr ts a R = ldm_regs w instr ts a R"
  using assms
proof (induction ts arbitrary: a R)
  case (Cons t ts)
  show ?case
  proof (cases "bit instr t")
    case True
    have "v (a + 4) = w (a + 4)" using Cons.prems True by force
    moreover have "v (a + 4 + 4 * of_nat (Suc k)) = w (a + 4 + 4 * of_nat (Suc k))" if "k < length (filter (bit instr) ts)" for k
      using Cons.prems True that by (auto simp: algebra_simps dest: spec [of _ "Suc k"])
    ultimately show ?thesis using Cons.IH [of "a + 4"] True by simp
  qed (use Cons in simp)
qed simp

lemma stm_mem_cong: "v b = w b \<Longrightarrow> stm_mem R instr ts a v b = stm_mem R instr ts a w b"
proof (induction ts arbitrary: a v w)
  case (Cons t ts)
  have "stm_mem R instr ts (a + 4) (v(a + 4 := R t)) b = stm_mem R instr ts (a + 4) (w(a + 4 := R t)) b"
    by (rule Cons.IH) (use Cons.prems in simp)
  then show ?case using Cons.IH [of v w a] Cons.prems by simp
qed simp

lemma length_filter_upt: "j \<le> n \<Longrightarrow> length (filter (bit instr) [j..<n]) = bits_below instr n - bits_below instr j"
proof (induction n)
  case (Suc n)
  then show ?case using bits_below_mono [of j n instr] by (cases "j = Suc n") simp_all
qed simp

lemma lsm_first_Some:
  assumes "\<exists>r<16. bit instr r"
  shows "\<exists>f<16. lsm_first instr = Some f \<and> bit instr f \<and> bits_below instr f = 0 \<and> 0 < bits_below instr 16"
proof -
  obtain r where r: "r < 16" "bit instr r" using assms by blast
  have "lsm_first instr \<noteq> None" using r by (auto simp: lsm_first_def find_None_iff)
  then obtain f where f: "lsm_first instr = Some f" by blast
  then have "f < 16" "bit instr f" "\<forall>j<f. \<not> bit instr j" by (auto simp: lsm_first_def find_Some_iff)
  moreover from this have "{i. i < f \<and> bit instr i} = {}" by auto
  then have "bits_below instr f = 0" unfolding bits_below_def by (simp only: card.empty)
  moreover have "0 < bits_below instr 16" using bits_below_less [of r 16 instr] r by simp
  ultimately show ?thesis using f by blast
qed

lemma lsm_first_least: "lsm_first instr = Some f \<Longrightarrow> j < f \<Longrightarrow> \<not> bit instr j"
  by (auto simp: lsm_first_def find_Some_iff)

lemma stm_mem_skip:
  "\<forall>j<f. \<not> bit instr j \<Longrightarrow> bit instr f \<Longrightarrow>
     stm_mem R instr ([0..<f] @ f # ts) a v = stm_mem R instr ts (a + 4) (v(a + 4 := R f))"
proof -
  have "\<forall>j\<in>set xs. \<not> bit instr j \<Longrightarrow> stm_mem R instr (xs @ ys) a v = stm_mem R instr ys a v" for xs ys
    by (induction xs) simp_all
  then show "\<forall>j<f. \<not> bit instr j \<Longrightarrow> bit instr f \<Longrightarrow> ?thesis" by simp
qed

lemma lsm_addr_first: "bits_below instr f = 0 \<Longrightarrow> bit instr f \<Longrightarrow> lsm_addr instr a f = a \<and> a = lsm_addr instr a (Suc f) - 4"
  by (simp add: lsm_addr_def)

lemma lsm_addr_inj:
  assumes "lsm_addr instr a r = lsm_addr instr a q" "bit instr r" "bit instr q" "r \<le> 16" "q \<le> 16"
  shows "r = q"
proof -
  let ?x = "bits_below instr r" and ?y = "bits_below instr q"
  have le: "?x \<le> 16" "?y \<le> 16" using bits_below_le [of instr r] bits_below_le [of instr q] assms(4,5) by simp_all
  have "(of_nat (4 * ?x) :: ARMword) = of_nat (4 * ?y)" using assms(1) by (simp add: lsm_addr_def)
  then have "unat (of_nat (4 * ?x) :: ARMword) = unat (of_nat (4 * ?y) :: ARMword)" by (simp only:)
  then have "?x = ?y" using le by (simp only: unat_of_nat) simp
  then show ?thesis using bits_below_less [of r q instr] bits_below_less [of q r instr] assms(2,3)
    by (cases rule: linorder_cases [of r q]) auto
qed

lemma stm_mem_upt:
  assumes "n \<le> 16"
  shows "j \<le> r \<Longrightarrow> r < n \<Longrightarrow> bit instr r \<Longrightarrow> stm_mem R instr [j..<n] (lsm_addr instr a j - 4) v (lsm_addr instr a r) = R r"
    and "\<forall>r. j \<le> r \<and> r < n \<and> bit instr r \<longrightarrow> b \<noteq> lsm_addr instr a r \<Longrightarrow> stm_mem R instr [j..<n] (lsm_addr instr a j - 4) v b = v b"
proof (induction "n - j" arbitrary: j v b r)
  case 0
  {
    case 1 then show ?case using 0 by simp
  next
    case 2 then show ?case using 0 by simp
  }
next
  case (Suc k)
  then have j: "j < n" "k = n - Suc j" by simp_all
  have c: "[j..<n] = j # [Suc j..<n]" using j(1) by (rule upt_conv_Cons)
  {
    case 1
    show ?case
    proof (cases "r = j")
      case True
      have "\<forall>q. Suc j \<le> q \<and> q < n \<and> bit instr q \<longrightarrow> lsm_addr instr a j \<noteq> lsm_addr instr a q"
        using lsm_addr_inj [of instr a j] 1 True assms by fastforce
      from Suc.hyps(2) [OF j(2) this] show ?thesis unfolding c using True 1(3) by (simp add: lsm_addr_Suc)
    next
      case False
      then show ?thesis unfolding c using 1 Suc.hyps(1) [OF j(2), of r]
        by (cases "bit instr j") (simp_all add: lsm_addr_Suc)
    qed
  next
    case 2
    then have "\<forall>r. Suc j \<le> r \<and> r < n \<and> bit instr r \<longrightarrow> b \<noteq> lsm_addr instr a r" by simp
    from Suc.hyps(2) [OF j(2) this] 2 j(1) show ?case unfolding c
      by (cases "bit instr j") (simp_all add: lsm_addr_Suc)
  }
qed


section \<open>Word accesses that cannot fault\<close>

lemma set_reg_more [simp]:
  "abortSig (set_reg r v s) = abortSig s" "bigendSig (set_reg r v s) = bigendSig s" "vector_remap_size (set_reg r v s) = vector_remap_size s"
  "Aborted (set_reg r v s) = Aborted s" "is_XScale (set_reg r v s) = is_XScale s" "lateabtSig (set_reg r v s) = lateabtSig s"
  by (simp_all add: set_reg_def)

text \<open>The part of the state on which the memory operations depend.\<close>

definition mem_view :: "'m ARMul_State \<Rightarrow> mmu_state_t \<times> 'm \<times> ARMword \<times> ARMword \<times> ARMword \<times> ARMword" where
  "mem_view s = (mmu s, mach s, bigendSig s, vector_remap_flag s, vector_remap_addr s, vector_remap_size s)"

lemma BUSUSED_simps [simp]:
  "mem_view (BUSUSEDINCPCS s) = mem_view s" "mem_view (BUSUSEDINCPCN s) = mem_view s"
  "Aborted (BUSUSEDINCPCS s) = Aborted s" "Aborted (BUSUSEDINCPCN s) = Aborted s"
  "r \<noteq> 15 \<Longrightarrow> Reg (BUSUSEDINCPCS s) r = Reg s r" "r \<noteq> 15 \<Longrightarrow> Reg (BUSUSEDINCPCN s) r = Reg s r"
  by (simp_all add: BUSUSEDINCPCS_def BUSUSEDINCPCN_def mem_view_def set_reg_def)

lemma mem_view_simps [simp]:
  "mem_view (set_reg r v s) = mem_view s" "mem_view (ARMul_Icycles s n) = mem_view s" "mem_view (lsm_writeback instr wb s) = mem_view s"
  "mem_view (WriteR15Branch s v) = mem_view s"
  by (simp_all add: mem_view_def ARMul_Icycles_def ARMul_CLEARABORT_def lsm_writeback_def WriteR15Branch_def FLUSHPIPE_def Let_def)

text \<open>The state after an access: its cycles and the abort line, which is cleared.\<close>

locale word_memory =
  fixes M :: "'m mmu_ops"
    and ok :: "'m ARMul_State \<Rightarrow> ARMword \<Rightarrow> bool"
    and val :: "'m ARMul_State \<Rightarrow> ARMword \<Rightarrow> ARMword"
  assumes view: "mem_view s = mem_view t \<Longrightarrow> ok s = ok t \<and> val s = val t"
    and rd: "ok s a \<Longrightarrow> \<exists>m. ops_read_word M s a = Some (Inr (val s a), s\<lparr>mach := m\<rparr>)
               \<and> ok (s\<lparr>mach := m\<rparr>) = ok s \<and> (\<forall>b. ok s b \<longrightarrow> val (s\<lparr>mach := m\<rparr>) b = val s b)"
    and wr: "ok s a \<Longrightarrow> \<exists>m. ops_write_word M s a d = Some (NO_FAULT, s\<lparr>mach := m\<rparr>)
               \<and> ok (s\<lparr>mach := m\<rparr>) = ok s \<and> (\<forall>b. ok s b \<longrightarrow> val (s\<lparr>mach := m\<rparr>) b = ((val s)(a := d)) b)"
begin

text \<open>\<open>t\<close> is \<open>s\<close> with other registers, cycles, abort line and memory.\<close>

definition moved :: "'m ARMul_State \<Rightarrow> 'm ARMul_State \<Rightarrow> bool" where
  "moved s t \<longleftrightarrow> (\<exists>R ns nn ab m. t = s\<lparr>Reg := R, NumScycles := ns, NumNcycles := nn, abortSig := ab, mach := m\<rparr>)"

lemma moved_refl: "moved s s"
  unfolding moved_def by (intro exI [of _ "Reg s"] exI [of _ "NumScycles s"] exI [of _ "NumNcycles s"] exI [of _ "abortSig s"] exI [of _ "mach s"]) simp

lemma moved_trans: "moved s t \<Longrightarrow> moved t u \<Longrightarrow> moved s u"
  unfolding moved_def by (elim exE, simp, blast)

lemma moved_set_reg: "moved s (set_reg r v s)"
  unfolding moved_def set_reg_def
  by (rule exI [of _ "(Reg s)(r := v)"], rule exI [of _ "NumScycles s"], rule exI [of _ "NumNcycles s"], rule exI [of _ "abortSig s"],
      rule exI [of _ "mach s"], rule ARMul_State.equality; simp)

lemma moved_access:
  "moved s (s\<lparr>NumNcycles := n, mach := m, abortSig := ab\<rparr>)" "moved s (s\<lparr>NumScycles := n, mach := m, abortSig := ab\<rparr>)"
  unfolding moved_def
  by (rule exI [of _ "Reg s"], rule exI [of _ "NumScycles s"], rule exI [of _ n], rule exI [of _ ab], rule exI [of _ m],
      rule ARMul_State.equality; simp)
     (rule exI [of _ "Reg s"], rule exI [of _ n], rule exI [of _ "NumNcycles s"], rule exI [of _ ab], rule exI [of _ m],
      rule ARMul_State.equality; simp)

text \<open>What a word access promises of the state it leaves; \<open>v\<close> is the memory after it.\<close>

definition accessed :: "'m ARMul_State \<Rightarrow> 'm ARMul_State \<Rightarrow> (ARMword \<Rightarrow> ARMword) \<Rightarrow> bool" where
  "accessed s t v \<longleftrightarrow> moved s t \<and> abortSig t = 0 \<and> ok t = ok s \<and> (\<forall>b. ok s b \<longrightarrow> val t b = v b)"

lemma accessed_via:
  assumes "mem_view u = mem_view s" "ok (u\<lparr>mach := m\<rparr>) = ok u" "\<forall>b. ok u b \<longrightarrow> val (u\<lparr>mach := m\<rparr>) b = v b"
    "moved s (ARMul_CLEARABORT (u\<lparr>mach := m\<rparr>))"
  shows "accessed s (ARMul_CLEARABORT (u\<lparr>mach := m\<rparr>)) v"
proof -
  have "mem_view (ARMul_CLEARABORT (u\<lparr>mach := m\<rparr>)) = mem_view (u\<lparr>mach := m\<rparr>)" by (simp add: mem_view_def ARMul_CLEARABORT_def)
  then show ?thesis using assms view [OF assms(1)] view [of "ARMul_CLEARABORT (u\<lparr>mach := m\<rparr>)" "u\<lparr>mach := m\<rparr>"]
    by (simp add: accessed_def) (simp add: ARMul_CLEARABORT_def)
qed

lemma loads:
  assumes "ok s a"
  shows "\<exists>t. ARMul_LoadWordN M s a = Some (val s a, t) \<and> accessed s t (val s) \<and> Reg t = Reg s"
    and "\<exists>t. ARMul_LoadWordS M s a = Some (val s a, t) \<and> accessed s t (val s) \<and> Reg t = Reg s"
proof -
  let ?n = "s\<lparr>NumNcycles := NumNcycles s + 1\<rparr>" and ?s = "s\<lparr>NumScycles := NumScycles s + 1\<rparr>"
  have v: "mem_view ?n = mem_view s" "mem_view ?s = mem_view s" by (simp_all add: mem_view_def)
  note vs = view [OF v(1)] view [OF v(2)]
  obtain m where "ops_read_word M ?n a = Some (Inr (val ?n a), ?n\<lparr>mach := m\<rparr>)" "ok (?n\<lparr>mach := m\<rparr>) = ok ?n" "\<forall>b. ok ?n b \<longrightarrow> val (?n\<lparr>mach := m\<rparr>) b = val ?n b"
    using rd [of ?n a] assms vs by metis
  then show "\<exists>t. ARMul_LoadWordN M s a = Some (val s a, t) \<and> accessed s t (val s) \<and> Reg t = Reg s"
    using accessed_via [OF v(1), of m "val s"] moved_access(1) vs
    by (auto simp: ARMul_LoadWordN_def ARMul_ReadWord_def data_result_def ARMul_CLEARABORT_def)
  obtain m where "ops_read_word M ?s a = Some (Inr (val ?s a), ?s\<lparr>mach := m\<rparr>)" "ok (?s\<lparr>mach := m\<rparr>) = ok ?s" "\<forall>b. ok ?s b \<longrightarrow> val (?s\<lparr>mach := m\<rparr>) b = val ?s b"
    using rd [of ?s a] assms vs by metis
  then show "\<exists>t. ARMul_LoadWordS M s a = Some (val s a, t) \<and> accessed s t (val s) \<and> Reg t = Reg s"
    using accessed_via [OF v(2), of m "val s"] moved_access(2) vs
    by (auto simp: ARMul_LoadWordS_def ARMul_ReadWord_def data_result_def ARMul_CLEARABORT_def)
qed

lemma stores:
  assumes "ok s a"
  shows "\<exists>t. ARMul_StoreWordN M s a d = Some t \<and> accessed s t ((val s)(a := d)) \<and> Reg t = Reg s"
    and "\<exists>t. ARMul_StoreWordS M s a d = Some t \<and> accessed s t ((val s)(a := d)) \<and> Reg t = Reg s"
proof -
  let ?n = "s\<lparr>NumNcycles := NumNcycles s + 1\<rparr>" and ?s = "s\<lparr>NumScycles := NumScycles s + 1\<rparr>"
  have v: "mem_view ?n = mem_view s" "mem_view ?s = mem_view s" by (simp_all add: mem_view_def)
  note vs = view [OF v(1)] view [OF v(2)]
  obtain m where "ops_write_word M ?n a d = Some (NO_FAULT, ?n\<lparr>mach := m\<rparr>)" "ok (?n\<lparr>mach := m\<rparr>) = ok ?n" "\<forall>b. ok ?n b \<longrightarrow> val (?n\<lparr>mach := m\<rparr>) b = ((val ?n)(a := d)) b"
    using wr [of ?n a d] assms vs by metis
  then show "\<exists>t. ARMul_StoreWordN M s a d = Some t \<and> accessed s t ((val s)(a := d)) \<and> Reg t = Reg s"
    using accessed_via [OF v(1), of m "(val s)(a := d)"] moved_access(1) vs
    by (auto simp: ARMul_StoreWordN_def ARMul_WriteWord_def store_result_def ARMul_CLEARABORT_def)
  obtain m where "ops_write_word M ?s a d = Some (NO_FAULT, ?s\<lparr>mach := m\<rparr>)" "ok (?s\<lparr>mach := m\<rparr>) = ok ?s" "\<forall>b. ok ?s b \<longrightarrow> val (?s\<lparr>mach := m\<rparr>) b = ((val ?s)(a := d)) b"
    using wr [of ?s a d] assms vs by metis
  then show "\<exists>t. ARMul_StoreWordS M s a d = Some t \<and> accessed s t ((val s)(a := d)) \<and> Reg t = Reg s"
    using accessed_via [OF v(2), of m "(val s)(a := d)"] moved_access(2) vs
    by (auto simp: ARMul_StoreWordS_def ARMul_WriteWord_def store_result_def ARMul_CLEARABORT_def)
qed

lemma moved_fields:
  assumes "moved s t"
  shows "Aborted t = Aborted s" "Mode t = Mode s" "Bank t = Bank s" "TFlag t = TFlag s" "lateabtSig t = lateabtSig s"
    "is_XScale t = is_XScale s" "mmu t = mmu s" "bigendSig t = bigendSig s" "RegBank t = RegBank s" "Cpsr t = Cpsr s" "Spsr t = Spsr s"
    "vector_remap_flag t = vector_remap_flag s" "vector_remap_addr t = vector_remap_addr s" "vector_remap_size t = vector_remap_size s"
  using assms by (auto simp: moved_def)

lemma accessed_trans:
  assumes "accessed s t v" "accessed t u w" "\<forall>b. ok s b \<longrightarrow> w b = w' b"
  shows "accessed s u w'"
  using assms moved_trans by (auto simp: accessed_def)

lemma accessed_set_reg: "accessed s t v \<Longrightarrow> accessed s (set_reg r d t) v"
  using view [of "set_reg r d t" t] moved_set_reg [of t r d] moved_trans [of s t "set_reg r d t"]
  by (auto simp: accessed_def mem_view_def)

text \<open>The loop of a multiple load, when no access faults.\<close>

lemma ldm_loop_ok:
  assumes "\<forall>k<length (filter (bit instr) ts). ok s (address + 4 * of_nat (Suc k))" "Aborted s = 0"
  shows "abortSig s = 0 \<Longrightarrow> \<exists>t. ldm_loop M instr ts address s = Some t \<and> accessed s t (val s) \<and> Reg t = ldm_regs (val s) instr ts address (Reg s)"
  using assms
proof (induction ts arbitrary: s address)
  case Nil
  then show ?case by (simp add: accessed_def moved_refl)
next
  case (Cons r ts)
  show ?case
  proof (cases "bit instr r")
    case True
    have ok: "ok s (address + 4)" using Cons.prems(2) True by force
    obtain u where u: "ARMul_LoadWordS M s (address + 4) = Some (val s (address + 4), u)" "accessed s u (val s)" "Reg u = Reg s"
      using loads(2) [OF ok] by blast
    let ?u = "set_reg r (val s (address + 4)) u"
    have au: "accessed s ?u (val s)" using accessed_set_reg [OF u(2)] .
    have z: "Aborted u = 0" "abortSig u = 0" "Aborted ?u = 0" "abortSig ?u = 0"
      using u(2) Cons.prems(3) moved_fields(1) [of s u] by (auto simp: accessed_def)
    have oku: "\<forall>k<length (filter (bit instr) ts). ok ?u (address + 4 + 4 * of_nat (Suc k))"
    proof (intro allI impI)
      fix k assume "k < length (filter (bit instr) ts)"
      then have "ok s (address + 4 * of_nat (Suc (Suc k)))" using Cons.prems(2) [rule_format, of "Suc k"] True by simp
      then show "ok ?u (address + 4 + 4 * of_nat (Suc k))" using au by (simp add: accessed_def algebra_simps)
    qed
    obtain t where t: "ldm_loop M instr ts (address + 4) ?u = Some t" "accessed ?u t (val ?u)"
        "Reg t = ldm_regs (val ?u) instr ts (address + 4) (Reg ?u)"
      using Cons.IH [OF z(4) oku z(3)] by blast
    have vu: "val ?u b = val s b" if "ok s b" for b using au that by (simp add: accessed_def)
    have "ldm_regs (val ?u) instr ts (address + 4) R = ldm_regs (val s) instr ts (address + 4) R" for R
      using oku vu au by (intro ldm_regs_cong) (simp add: accessed_def)
    then show ?thesis
      using t u z True accessed_trans [OF au t(2), of "val s"] vu by (simp add: ldm_put_def Let_def set_reg_def)
  next
    case False
    then show ?thesis using Cons.IH [of s address] Cons.prems by simp
  qed
qed

lemma stm_loop_ok:
  assumes "\<forall>k<length (filter (bit instr) ts). ok s (address + 4 * of_nat (Suc k))" "Aborted s = 0"
  shows "abortSig s = 0 \<Longrightarrow> \<exists>t. stm_loop M instr ts address s = Some t \<and> accessed s t (stm_mem (Reg s) instr ts address (val s)) \<and> Reg t = Reg s"
  using assms
proof (induction ts arbitrary: s address)
  case Nil
  then show ?case by (simp add: accessed_def moved_refl)
next
  case (Cons r ts)
  show ?case
  proof (cases "bit instr r")
    case True
    have ok: "ok s (address + 4)" using Cons.prems(2) True by force
    obtain u where u: "ARMul_StoreWordS M s (address + 4) (Reg s r) = Some u" "accessed s u ((val s)(address + 4 := Reg s r))" "Reg u = Reg s"
      using stores(2) [OF ok] by blast
    have z: "Aborted u = 0" "abortSig u = 0"
      using u(2) Cons.prems(3) moved_fields(1) [of s u] by (auto simp: accessed_def)
    have "\<forall>k<length (filter (bit instr) ts). ok u (address + 4 + 4 * of_nat (Suc k))"
    proof (intro allI impI)
      fix k assume "k < length (filter (bit instr) ts)"
      then have "ok s (address + 4 * of_nat (Suc (Suc k)))" using Cons.prems(2) [rule_format, of "Suc k"] True by simp
      then show "ok u (address + 4 + 4 * of_nat (Suc k))" using u(2) by (simp add: accessed_def algebra_simps)
    qed
    then obtain t where t: "stm_loop M instr ts (address + 4) u = Some t"
        "accessed u t (stm_mem (Reg u) instr ts (address + 4) (val u))" "Reg t = Reg u"
      using Cons.IH [OF z(2) _ z(1), of "address + 4"] by blast
    have "stm_mem (Reg s) instr ts (address + 4) (val u) b = stm_mem (Reg s) instr ts (address + 4) ((val s)(address + 4 := Reg s r)) b" if "ok s b" for b
      using u(2) that by (intro stm_mem_cong) (simp add: accessed_def)
    then show ?thesis
      using t u z True accessed_trans [OF u(2) t(2), of "stm_mem (Reg s) instr (r # ts) address (val s)"] by (simp add: stm_check_def Let_def)
  next
    case False
    then show ?thesis using Cons.IH [of s address] Cons.prems by simp
  qed
qed

text \<open>All the words of a transfer can be accessed.\<close>

definition block_ok :: "'m ARMul_State \<Rightarrow> ARMword \<Rightarrow> ARMword \<Rightarrow> bool" where
  "block_ok s instr address \<longleftrightarrow> (\<exists>r<16. bit instr r) \<and> (\<forall>k<bits_below instr 16. ok s (address + 4 * of_nat k))"

lemma block_tail:
  assumes "block_ok s instr address" "bits_below instr f = 0" "bit instr f" "f < 16"
  shows "ok s address" "\<forall>k<length (filter (bit instr) [Suc f..<16]). ok s (address + 4 * of_nat (Suc k))"
proof -
  have p: "0 < bits_below instr 16" using assms(3,4) bits_below_less [of f 16 instr] by simp
  show "ok s address" using assms(1) p unfolding block_ok_def by force
  have "length (filter (bit instr) [Suc f..<16]) = bits_below instr 16 - 1"
    using length_filter_upt [of "Suc f" 16 instr] assms(2-4) by simp
  then show "\<forall>k<length (filter (bit instr) [Suc f..<16]). ok s (address + 4 * of_nat (Suc k))"
    using assms(1) by (auto simp: block_ok_def simp del: of_nat_Suc)
qed

lemma ldm_transfer_ok:
  assumes "block_ok s instr address" "Aborted s = 0"
  shows "\<exists>f u t. lsm_first instr = Some f \<and> ARMul_LoadWordN M s address = Some (val s address, u)
     \<and> abortSig u = 0 \<and> Aborted u = 0 \<and> ldm_loop M instr [f + 1..<16] address (set_reg f (val s address) u) = Some t
     \<and> accessed s t (val s) \<and> Reg t = (\<lambda>r. if r < 16 \<and> bit instr r then val s (lsm_addr instr address r) else Reg s r)"
proof -
  obtain f where f: "f < 16" "lsm_first instr = Some f" "bit instr f" "bits_below instr f = 0"
    using assms(1) lsm_first_Some [of instr] unfolding block_ok_def by blast
  note b = block_tail [OF assms(1) f(4,3,1)] and a = lsm_addr_first [OF f(4,3), of address]
  obtain u where u: "ARMul_LoadWordN M s address = Some (val s address, u)" "accessed s u (val s)" "Reg u = Reg s"
    using loads(1) [OF b(1)] by blast
  let ?u = "set_reg f (val s address) u"
  have au: "accessed s ?u (val s)" using accessed_set_reg [OF u(2)] .
  have z: "Aborted u = 0" "abortSig u = 0" "Aborted ?u = 0" "abortSig ?u = 0"
    using u(2) assms(2) moved_fields(1) [of s u] by (auto simp: accessed_def)
  have b': "\<forall>k<length (filter (bit instr) [Suc f..<16]). ok ?u (address + 4 * of_nat (Suc k))"
    using b(2) au by (simp add: accessed_def)
  obtain t where t: "ldm_loop M instr [Suc f..<16] address ?u = Some t" "accessed ?u t (val ?u)"
      "Reg t = ldm_regs (val ?u) instr [Suc f..<16] address (Reg ?u)"
    using ldm_loop_ok [OF b' z(3,4)] by blast
  have vu: "val ?u b = val s b" if "ok s b" for b using au that by (simp add: accessed_def)
  have "Reg t = ldm_regs (val s) instr [Suc f..<16] address (Reg ?u)"
    unfolding t(3) using b(2) vu by (intro ldm_regs_cong) simp
  also have "\<dots> = ldm_regs (val s) instr [Suc f..<16] (lsm_addr instr address (Suc f) - 4) (Reg ?u)"
    using a by simp
  finally have "Reg t = (\<lambda>r. if r < 16 \<and> bit instr r then val s (lsm_addr instr address r) else Reg s r)"
    unfolding ldm_regs_upt fun_eq_iff using f(1,3,4) a u(3) lsm_first_least [OF f(2)] by (auto simp: Suc_le_eq not_less)
  moreover have "accessed s t (val s)" using accessed_trans [OF au t(2)] vu by blast
  ultimately show ?thesis using f(2) u(1) z(1,2) t(1) by auto
qed

lemma LoadMult_ok:
  assumes "block_ok s instr address" "Aborted s = 0"
  shows "\<exists>t. LoadMult M s instr address wb = Some t \<and> ok t = ok s \<and> (\<forall>b. ok s b \<longrightarrow> val t b = val s b)
     \<and> (\<forall>r<15. Reg t r = (if bit instr 21 \<and> LHSReg instr = r then wb
                          else if bit instr r then val s (lsm_addr instr address r) else Reg s r))"
proof -
  let ?s = "BUSUSEDINCPCS s"
  have v: "ok ?s = ok s" "val ?s = val s" using view [of ?s s] by simp_all
  have b: "block_ok ?s instr address" "Aborted ?s = 0" using assms v by (simp_all add: block_ok_def)
  obtain f u t where t: "lsm_first instr = Some f" "ARMul_LoadWordN M ?s address = Some (val s address, u)" "abortSig u = 0" "Aborted u = 0"
     "ldm_loop M instr [f + 1..<16] address (set_reg f (val s address) u) = Some t" "accessed ?s t (val s)"
     "Reg t = (\<lambda>r. if r < 16 \<and> bit instr r then val s (lsm_addr instr address r) else Reg ?s r)"
    using ldm_transfer_ok [OF b] unfolding v(2) by blast
  have ab: "Aborted t = 0" using t(6) b(2) moved_fields(1) [of ?s t] by (simp add: accessed_def)
  define w where "w = (if bit instr 15 then WriteR15Branch t (Reg t 15 AND PCBITS32) else t)"
  have w: "Aborted w = 0" "mem_view w = mem_view t" "\<And>r. r < 15 \<Longrightarrow> Reg w r = Reg t r"
    using ab by (simp_all add: w_def) (simp_all add: WriteR15Branch_def FLUSHPIPE_def Let_def set_reg_def)
  let ?t = "lsm_writeback instr wb (ARMul_Icycles w 1)"
  have "LoadMult M s instr address wb = Some ?t"
    unfolding LoadMult_def using t(1-5) ab w(1)
    by (simp add: ldm_put_def w_def ARMul_Icycles_def ARMul_CLEARABORT_def Let_def)
  moreover have "ok ?t = ok s \<and> (\<forall>b. ok s b \<longrightarrow> val ?t b = val s b)"
    using view [of ?t t] w(2) t(6) v by (simp add: accessed_def)
  moreover have "Reg ?t r = (if bit instr 21 \<and> LHSReg instr = r then wb
      else if bit instr r then val s (lsm_addr instr address r) else Reg s r)" if "r < 15" for r
    using w(3) [OF that] that t(7) by (auto simp: lsm_writeback_def ARMul_Icycles_def ARMul_CLEARABORT_def)
  ultimately show ?thesis by blast
qed

lemma stm_transfer_ok:
  assumes "block_ok s instr address" "Aborted s = 0"
  shows "\<exists>t. stm_transfer M instr address s = Some t \<and> accessed s t (stm_mem (Reg s) instr [0..<16] (address - 4) (val s)) \<and> Reg t = Reg s"
proof -
  obtain f where f: "f < 16" "lsm_first instr = Some f" "bit instr f" "bits_below instr f = 0"
    using assms(1) lsm_first_Some [of instr] unfolding block_ok_def by blast
  note b = block_tail [OF assms(1) f(4,3,1)]
  obtain u where u: "ARMul_StoreWordN M s address (Reg s f) = Some u" "accessed s u ((val s)(address := Reg s f))" "Reg u = Reg s"
    using stores(1) [OF b(1)] by blast
  have z: "Aborted u = 0" "abortSig u = 0"
    using u(2) assms(2) moved_fields(1) [of s u] by (auto simp: accessed_def)
  have b': "\<forall>k<length (filter (bit instr) [Suc f..<16]). ok u (address + 4 * of_nat (Suc k))"
    using b(2) u(2) by (simp add: accessed_def)
  obtain t where t: "stm_loop M instr [Suc f..<16] address u = Some t"
      "accessed u t (stm_mem (Reg u) instr [Suc f..<16] address (val u))" "Reg t = Reg u"
    using stm_loop_ok [OF b' z] by blast
  have "[0..<16] = [0..<f] @ [f..<16]" using upt_add_eq_append [of 0 f "16 - f"] f(1) by (simp del: upt_Suc)
  then have e: "[0..<16] = [0..<f] @ f # [Suc f..<16]" using f(1) by (simp only: upt_conv_Cons)
  have "stm_mem (Reg s) instr [Suc f..<16] address (val u) b = stm_mem (Reg s) instr [0..<16] (address - 4) (val s) b" if "ok s b" for b
  proof -
    have "stm_mem (Reg s) instr [Suc f..<16] address (val u) b = stm_mem (Reg s) instr [Suc f..<16] address ((val s)(address := Reg s f)) b"
      using u(2) that by (intro stm_mem_cong) (simp add: accessed_def)
    also have "\<dots> = stm_mem (Reg s) instr [0..<16] (address - 4) (val s) b"
      using stm_mem_skip [of f instr "Reg s" "[Suc f..<16]" "address - 4" "val s"] lsm_first_least [OF f(2)] f(3) e by simp
    finally show ?thesis .
  qed
  then have "accessed s t (stm_mem (Reg s) instr [0..<16] (address - 4) (val s))"
    using accessed_trans [OF u(2) t(2)] u(3) by simp
  then show ?thesis using f(2) u t(1,3) z by (auto simp: stm_transfer_def stm_check_def)
qed

lemma StoreMult_ok:
  assumes "block_ok s instr address" "Aborted s = 0"
  shows "\<exists>t. StoreMult M s instr address wb = Some t \<and> ok t = ok s \<and> Aborted t = 0
     \<and> (\<forall>r<15. bit instr r \<longrightarrow> val t (lsm_addr instr address r) = Reg s r)
     \<and> (\<forall>b. ok s b \<and> (\<forall>r<16. bit instr r \<longrightarrow> b \<noteq> lsm_addr instr address r) \<longrightarrow> val t b = val s b)
     \<and> (\<forall>r<15. Reg t r = (if bit instr 21 \<and> LHSReg instr = r then wb else Reg s r))"
proof -
  let ?s = "if TFlag s = 0 then BUSUSEDINCPCN s else s"
  have v: "ok ?s = ok s" "val ?s = val s" using view [of ?s s] by simp_all
  have b: "block_ok ?s instr address" "Aborted ?s = 0" using assms v by (simp_all add: block_ok_def)
  obtain t where t: "stm_transfer M instr address ?s = Some t"
      "accessed ?s t (stm_mem (Reg ?s) instr [0..<16] (address - 4) (val s))" "Reg t = Reg ?s"
    using stm_transfer_ok [OF b] v by auto
  have z: "Aborted t = 0" "abortSig t = 0" using t(2) b(2) moved_fields(1) [of ?s t] by (auto simp: accessed_def)
  let ?t = "lsm_writeback instr wb t"
  have "StoreMult M s instr address wb = Some ?t"
    using t(1) z by (simp add: StoreMult_def stm_finish_def late_writeback_def Let_def) (simp add: lsm_writeback_def)
  moreover have vt: "ok ?t = ok s" "val ?t b = stm_mem (Reg ?s) instr [0..<16] (address - 4) (val s) b" if "ok s b" for b
    using view [of ?t t] t(2) v that by (simp_all add: accessed_def)
  moreover have "Aborted ?t = 0" using z by (simp add: lsm_writeback_def)
  moreover have "val ?t (lsm_addr instr address r) = Reg s r" if "r < 15" "bit instr r" for r
  proof -
    have "bits_below instr r < bits_below instr 16" using that by (intro bits_below_less) simp_all
    then have "ok s (lsm_addr instr address r)" using assms(1) by (simp add: block_ok_def lsm_addr_def)
    then show ?thesis using vt(2) that stm_mem_upt(1) [of 16 0 r instr "Reg ?s" address "val s"] by (simp add: lsm_addr_def)
  qed
  moreover have "val ?t b = val s b" if "ok s b" "\<forall>r<16. bit instr r \<longrightarrow> b \<noteq> lsm_addr instr address r" for b
    using vt(2) [OF that(1)] stm_mem_upt(2) [of 16 0 instr b address "Reg ?s" "val s"] that(2) by (simp add: lsm_addr_def)
  moreover have "Reg ?t r = (if bit instr 21 \<and> LHSReg instr = r then wb else Reg s r)" if "r < 15" for r
    using that t(3) by (auto simp: lsm_writeback_def)
  moreover have "ok s address"
    using block_tail(1) [OF assms(1)] lsm_first_Some [of instr] assms(1) by (auto simp: block_ok_def)
  ultimately show ?thesis by blast
qed

end

section \<open>RAM behind the ARM7 unit\<close>

text \<open>An aligned word of RAM, with the memory management unit off.\<close>

definition flat_ok :: "'y ustate \<Rightarrow> ARMword \<Rightarrow> bool" where
  "flat_ok s a \<longleftrightarrow> \<not> control_bit s CONTROL_MMU \<and> a AND 3 = 0 \<and> ram_ok s a"

lemma flat_upd:
  assumes "flat_ok s a" "mem_wf ((mach s)\<lparr>mbp := p\<rparr>)"
  shows "flat_ok (s\<lparr>mach := (mach s)\<lparr>mbp := p, global_mbp := g, rom := r\<rparr>\<rparr>) = flat_ok s"
    and "ram_word (s\<lparr>mach := (mach s)\<lparr>mbp := p, global_mbp := g, rom := r\<rparr>\<rparr>) b =
       r (ram_index (mach s) b) (rom_index (mach s) (ram_index (mach s) b) b)"
proof -
  have "mem_wf (mach s)" using assms(1) by (simp add: flat_ok_def ram_ok_def)
  from ram_ok_upd [OF this assms(2)]
  show "flat_ok (s\<lparr>mach := (mach s)\<lparr>mbp := p, global_mbp := g, rom := r\<rparr>\<rparr>) = flat_ok s"
    by (simp add: flat_ok_def fun_eq_iff control_bit_def)
  show "ram_word (s\<lparr>mach := (mach s)\<lparr>mbp := p, global_mbp := g, rom := r\<rparr>\<rparr>) b =
       r (ram_index (mach s) b) (rom_index (mach s) (ram_index (mach s) b) b)"
    by (simp add: ram_word_def rom_get_def rom_index_def
      ram_index_cong [of "(mach s)\<lparr>mbp := p, global_mbp := g, rom := r\<rparr>" "mach s"])
qed

lemma flat_read:
  assumes "flat_ok s a"
  shows "\<exists>m. ops_read_word (arm7100_mmu_ops B) s a = Some (Inr (ram_word s a), s\<lparr>mach := m\<rparr>)
     \<and> flat_ok (s\<lparr>mach := m\<rparr>) = flat_ok s \<and> (\<forall>b. flat_ok s b \<longrightarrow> ram_word (s\<lparr>mach := m\<rparr>) b = ram_word s b)"
proof -
  have ram: "ram_ok s a" "\<not> control_bit s CONTROL_MMU" using assms by (simp_all add: flat_ok_def)
  note bank = ram_ok_bank [OF ram(1)]
  obtain p where p: "mem_wf ((mach s)\<lparr>mbp := p\<rparr>)"
    "mem_read_word B s a = Some (ram_word s a, s\<lparr>mach := (mach s)\<lparr>mbp := p, global_mbp := Some (ram_index (mach s) a), rom := rom (mach s)\<rparr>\<rparr>)"
    using mem_read_sz_ram [OF ram(1) ram(1) bank bank bank, of B Word] by (auto simp: mem_read_word_def ram_word_def)
  define m where "m = (mach s)\<lparr>mbp := p, global_mbp := Some (ram_index (mach s) a), rom := rom (mach s)\<rparr>"
  have "flat_ok (s\<lparr>mach := m\<rparr>) = flat_ok s" unfolding m_def by (rule flat_upd(1) [OF assms p(1)])
  moreover have "ram_word (s\<lparr>mach := m\<rparr>) b = ram_word s b" for b
    unfolding m_def flat_upd(2) [OF assms p(1)] by (simp add: ram_word_def rom_get_def)
  moreover have "ops_read_word (arm7100_mmu_ops B) s a = Some (Inr (ram_word s a), s\<lparr>mach := m\<rparr>)"
    using p(2) ram(2) unfolding m_def [symmetric] by (simp add: arm7100_mmu_ops_def a71_mmu_read_def mem_read_type_def)
  ultimately show ?thesis by blast
qed

lemma flat_write:
  assumes "flat_ok s a"
  shows "\<exists>m. ops_write_word (arm7100_mmu_ops B) s a d = Some (NO_FAULT, s\<lparr>mach := m\<rparr>)
     \<and> flat_ok (s\<lparr>mach := m\<rparr>) = flat_ok s \<and> (\<forall>b. flat_ok s b \<longrightarrow> ram_word (s\<lparr>mach := m\<rparr>) b = ((ram_word s)(a := d)) b)"
proof -
  have ram: "ram_ok s a" "\<not> control_bit s CONTROL_MMU" using assms by (simp_all add: flat_ok_def)
  let ?i = "ram_index (mach s) a"
  let ?r = "(rom (mach s))(?i := (rom (mach s) ?i)(rom_index (mach s) ?i a := d))"
  obtain p where p: "mem_wf ((mach s)\<lparr>mbp := p\<rparr>)"
    "mem_write_word B s a d = Some (s\<lparr>mach := (mach s)\<lparr>mbp := p, global_mbp := Some ?i, rom := ?r\<rparr>\<rparr>)"
    using ram_write_word [OF ram(1), of B d] by blast
  have "?r (ram_index (mach s) b) (rom_index (mach s) (ram_index (mach s) b) b) = ((ram_word s)(a := d)) b" if "flat_ok s b" for b
  proof (cases "ram_index (mach s) b = ?i \<and> rom_index (mach s) ?i b = rom_index (mach s) ?i a")
    case True
    then have "b = a" using that assms rom_cell_inj [of b "mb_addr (mem_banks (mach s) ! ?i)" a]
      by (auto simp: rom_index_def flat_ok_def simp flip: word_unat_eq_iff)
    then show ?thesis by simp
  next
    case False
    then show ?thesis by (auto simp: ram_word_def rom_get_def)
  qed
  note upd = this
  define m where "m = (mach s)\<lparr>mbp := p, global_mbp := Some ?i, rom := ?r\<rparr>"
  have "flat_ok (s\<lparr>mach := m\<rparr>) = flat_ok s" unfolding m_def by (rule flat_upd(1) [OF assms p(1)])
  moreover have "ram_word (s\<lparr>mach := m\<rparr>) b = ((ram_word s)(a := d)) b" if "flat_ok s b" for b
    unfolding m_def flat_upd(2) [OF assms p(1)] by (rule upd [OF that])
  moreover have "ops_write_word (arm7100_mmu_ops B) s a d = Some (NO_FAULT, s\<lparr>mach := m\<rparr>)"
    using p(2) ram(2) unfolding m_def [symmetric] by (simp add: arm7100_mmu_ops_def a71_mmu_write_def mem_write_type_def)
  ultimately show ?thesis by blast
qed

lemma flat_view: "mem_view s = mem_view t \<Longrightarrow> flat_ok s = flat_ok t \<and> ram_word s = ram_word t"
  by (simp add: mem_view_def fun_eq_iff flat_ok_def ram_ok_def ram_word_def control_bit_def remap_addr_def)

interpretation flat: word_memory "arm7100_mmu_ops B" flat_ok ram_word for B
  by unfold_locales (rule flat_view, assumption, rule flat_read, assumption, rule flat_write, assumption)

text \<open>
  A store-multiple to RAM stores each listed register at the address for its position in the list, leaves every other word alone, and changes no register but a written-back base.
\<close>

theorem stm_stores:
  assumes "Aborted s = 0" "\<exists>r<16. bit instr r" "\<forall>k<bits_below instr 16. flat_ok s (address + 4 * of_nat k)"
  shows "\<exists>t. StoreMult (arm7100_mmu_ops B) s instr address wb = Some t \<and> Aborted t = 0
     \<and> (\<forall>r<15. bit instr r \<longrightarrow> ram_word t (lsm_addr instr address r) = Reg s r)
     \<and> (\<forall>b. flat_ok s b \<and> (\<forall>r<16. bit instr r \<longrightarrow> b \<noteq> lsm_addr instr address r) \<longrightarrow> ram_word t b = ram_word s b)
     \<and> (\<forall>r<15. Reg t r = (if bit instr 21 \<and> LHSReg instr = r then wb else Reg s r))"
  using flat.StoreMult_ok [of s instr address B wb] assms unfolding flat.block_ok_def by blast

text \<open>
  C13: Registers saved by a store-multiple are restored by a load-multiple with the same list and address, whatever the registers hold in between; registers not in the list keep their values, but for a written-back base.
\<close>

theorem stm_ldm_roundtrip:
  assumes "Aborted s = 0" "\<exists>r<16. bit instr r" "\<forall>k<bits_below instr 16. flat_ok s (address + 4 * of_nat k)"
    and "\<forall>r<16. bit instr' r = bit instr r"
  shows "\<exists>t. StoreMult (arm7100_mmu_ops B) s instr address wb = Some t
     \<and> (\<forall>R. \<exists>u. LoadMult (arm7100_mmu_ops B) (t\<lparr>Reg := R\<rparr>) instr' address wb' = Some u
           \<and> (\<forall>r<15. Reg u r = (if bit instr' 21 \<and> LHSReg instr' = r then wb' else if bit instr r then Reg s r else R r)))"
proof -
  have b: "flat.block_ok s instr address" using assms(2,3) by (simp add: flat.block_ok_def)
  have bb: "bits_below instr' r = bits_below instr r" if "r \<le> 16" for r
    unfolding bits_below_def using that assms(4) by (intro arg_cong [where f = card]) auto
  then have la: "lsm_addr instr' address r = lsm_addr instr address r" if "r < 16" for r
    using that by (simp add: lsm_addr_def)
  obtain t where t: "StoreMult (arm7100_mmu_ops B) s instr address wb = Some t" "flat_ok t = flat_ok s" "Aborted t = 0"
     "\<forall>r<15. bit instr r \<longrightarrow> ram_word t (lsm_addr instr address r) = Reg s r"
    using flat.StoreMult_ok [OF b assms(1), of B wb] by blast
  have "\<exists>u. LoadMult (arm7100_mmu_ops B) (t\<lparr>Reg := R\<rparr>) instr' address wb' = Some u
      \<and> (\<forall>r<15. Reg u r = (if bit instr' 21 \<and> LHSReg instr' = r then wb' else if bit instr r then Reg s r else R r))" for R
  proof -
    have v: "flat_ok (t\<lparr>Reg := R\<rparr>) = flat_ok t" "ram_word (t\<lparr>Reg := R\<rparr>) = ram_word t"
      using flat_view [of "t\<lparr>Reg := R\<rparr>" t] by (simp_all add: mem_view_def)
    have "flat.block_ok (t\<lparr>Reg := R\<rparr>) instr' address"
      using assms(2-4) t(2) bb [of 16] unfolding flat.block_ok_def v by auto
    from flat.LoadMult_ok [OF this, of B wb'] show ?thesis
      using t(3,4) assms(4) la unfolding v by fastforce
  qed
  then show ?thesis using t(1) by blast
qed

section \<open>An aborted return\<close>

text \<open>
  The abort inside \<open>LoadSMult\<close> clears \<open>Aborted\<close>, so that with the PC in the list the code
  after it restores the CPSR from the SPSR that the abort has just saved.
\<close>

lemma SetCPSR_Aborted [simp]: "Aborted (ARMul_SetCPSR s v) = Aborted s"
proof -
  have "Aborted (snd (ARMul_SwitchMode t om nm)) = Aborted t" for t :: "'a ARMul_State" and om nm
    using SwitchMode_form [of t om nm] by auto
  then show ?thesis
    by (simp add: ARMul_SetCPSR_def CPSRAltered_conv fix_r15_def assign_flags_def assign_mode_def case_prod_beta Let_def)
qed


lemma Abort_Aborted:
  assumes "exc_table v (TFlag s \<noteq> 0) = Some (m, i, d)" "prog32Sig s \<noteq> LOW" "bank_ok s" "flags_ok s" "Bank s \<noteq> DUMMYBANK"
  shows "Aborted (ARMul_Abort s v) = 0"
proof -
  note x = exc_table_mode [OF assms(1)]
  have p: "bank_ok (abort_start v s)" "flags_ok (abort_start v s)" "Bank (abort_start v s) \<noteq> DUMMYBANK"
    "prog32Sig (abort_start v s) \<noteq> LOW" using assms(2-5) by simp_all
  have "Aborted (SETABORT c i m d (abort_start v s)) = 0" for c
    by (simp add: SETABORT_def ARMul_SetSPSR_def Let_def) (simp add: abort_start_def)
  then show ?thesis
    unfolding ARMul_Abort_conv [OF assms]
    using SETABORT_effect(1) [OF p x(4,2,3), where temp = "abort_return_pc s" and d = d] x(1)
    by (simp add: SetR15_mode32) (simp add: FLUSHPIPE_def)
qed

lemma psr_frame_simps:
  "bank_ok (late_writeback instr wb s) = bank_ok s" "flags_ok (late_writeback instr wb s) = flags_ok s" "CPSR (late_writeback instr wb s) = CPSR s"
  "Bank (late_writeback instr wb s) = Bank s" "prog32Sig (late_writeback instr wb s) = prog32Sig s" "TFlag (late_writeback instr wb s) = TFlag s"
  "mmu (late_writeback instr wb s) = mmu s" "vector_remap_flag (late_writeback instr wb s) = vector_remap_flag s"
  "vector_remap_addr (late_writeback instr wb s) = vector_remap_addr s" "Mode (late_writeback instr wb s) = Mode s"
  "Mode (ARMul_Icycles s 1) = Mode s" "CPSR (ARMul_Icycles s 1) = CPSR s" "Reg (ARMul_Icycles s 1) = Reg s"
  by (simp_all add: late_writeback_def lsm_writeback_def ARMul_Icycles_def ARMul_CLEARABORT_def CPSR_def ECC_def EINT_def)
     (simp_all add: set_reg_def)

lemma Icycles_simps:
  "bank_ok (ARMul_Icycles s n) = bank_ok s" "flags_ok (ARMul_Icycles s n) = flags_ok s" "Bank (ARMul_Icycles s n) = Bank s"
  "prog32Sig (ARMul_Icycles s n) = prog32Sig s" "Aborted (ARMul_Icycles s n) = Aborted s"
  by (simp_all add: ARMul_Icycles_def ARMul_CLEARABORT_def bank_ok_def flags_ok_def)

lemma data_fault_simps:
  "bank_ok (data_fault f a s) = bank_ok s" "flags_ok (data_fault f a s) = flags_ok s" "CPSR (data_fault f a s) = CPSR s"
  "Bank (data_fault f a s) = Bank s" "prog32Sig (data_fault f a s) = prog32Sig s" "TFlag (data_fault f a s) = TFlag s"
  "control (mmu (data_fault f a s)) = control (mmu s)" "vector_remap_flag (data_fault f a s) = vector_remap_flag s"
  "vector_remap_addr (data_fault f a s) = vector_remap_addr s" "Mode (data_fault f a s) = Mode s" "Aborted (data_fault f a s) = 16"
  "abortSig (data_fault f a s) = 1"
  by (simp_all add: data_fault_def ARMul_DATAABORT_def bank_ok_def flags_ok_def CPSR_def ECC_def EINT_def)

lemma BUSUSEDINCPCS_simps:
  "bank_ok (BUSUSEDINCPCS s) = bank_ok s" "flags_ok (BUSUSEDINCPCS s) = flags_ok s" "CPSR (BUSUSEDINCPCS s) = CPSR s"
  "Bank (BUSUSEDINCPCS s) = Bank s" "prog32Sig (BUSUSEDINCPCS s) = prog32Sig s" "TFlag (BUSUSEDINCPCS s) = TFlag s"
  "mmu (BUSUSEDINCPCS s) = mmu s" "vector_remap_flag (BUSUSEDINCPCS s) = vector_remap_flag s"
  "vector_remap_addr (BUSUSEDINCPCS s) = vector_remap_addr s" "Mode (BUSUSEDINCPCS s) = Mode s"
  by (simp_all add: BUSUSEDINCPCS_def set_reg_def bank_ok_def flags_ok_def CPSR_def ECC_def EINT_def)


lemma SetCPSR_r15:
  "prog32Sig t \<noteq> LOW \<Longrightarrow> Mode t > 3 \<Longrightarrow> v AND 31 > 3 \<Longrightarrow> Reg (ARMul_SetCPSR t v) 15 = Reg t 15"
  by (auto simp: ARMul_SetCPSR_def CPSRAltered_conv psr_mask_def fix_r15_def dest: leD)

text \<open>
  C38: An aborted load-multiple with the S bit and the PC in its list does not stay in abort mode: the abort is entered and its saved CPSR is restored at once, so that the code at the abort vector runs in the mode of the aborted instruction.  The same access by a load-multiple without the S bit leaves the core in abort mode.
\<close>

theorem ldm_pc_abort_returns:
  assumes "control_bit s CONTROL_MMU" "control_bit s CONTROL_ALIGN_FAULT" "a AND 3 \<noteq> 0" "bit instr 15"
    "prog32Sig s \<noteq> LOW" "bank_ok s" "flags_ok s" "Bank s \<noteq> DUMMYBANK" "Mode s > SVC26MODE"
  shows "\<exists>u w. LoadSMult (arm7100_mmu_ops B) s instr a wb = Some u \<and> CPSR u = CPSR s \<and> Mode u = Mode s
     \<and> Reg u 15 AND 0xfffffffc = exc_vector s ARMul_DataAbortV AND 0xfffffffc
     \<and> LoadMult (arm7100_mmu_ops B) s instr a wb = Some w \<and> Mode w = ABORT32MODE"
proof -
  let ?s = "BUSUSEDINCPCS s"
  let ?f = "data_fault ALIGNMENT_FAULT a (?s\<lparr>NumNcycles := NumNcycles ?s + 1\<rparr>)"
  have c: "control_bit ?s CONTROL_MMU" "control_bit ?s CONTROL_ALIGN_FAULT" using assms(1,2) by (simp_all add: control_bit_def BUSUSEDINCPCS_simps)
  have ld: "ARMul_LoadWordN (arm7100_mmu_ops B) ?s a = Some (ARMul_ABORTWORD ?s, ?f)"
    using c assms(3) by (simp add: ARMul_LoadWordN_def ARMul_ReadWord_def arm7100_mmu_ops_def a71_mmu_read_def misaligned_def control_bit_def
       data_result_def ARMul_ABORTWORD_def data_fault_def ARMul_DATAABORT_def Let_def)
  have "\<exists>r<16. bit instr r" using assms(4) by (intro exI [of _ 15]) simp
  then obtain n where n: "lsm_first instr = Some n" using lsm_first_Some [of instr] by blast
  define g where "g = late_writeback instr wb ?f"
  have ncyc: "bank_ok (t\<lparr>NumNcycles := k\<rparr>) = bank_ok t" "flags_ok (t\<lparr>NumNcycles := k\<rparr>) = flags_ok t" "CPSR (t\<lparr>NumNcycles := k\<rparr>) = CPSR t"
    for t :: "'a ustate" and k by (simp_all add: bank_ok_def flags_ok_def CPSR_def ECC_def EINT_def)
  note frame = psr_frame_simps data_fault_simps BUSUSEDINCPCS_simps ncyc
  have g: "bank_ok g" "flags_ok g" "CPSR g = CPSR s" "Bank g = Bank s" "prog32Sig g = prog32Sig s" "TFlag g = TFlag s"
    "control (mmu g) = control (mmu s)" "vector_remap_flag g = vector_remap_flag s" "vector_remap_addr g = vector_remap_addr s" "Mode g = Mode s"
    unfolding g_def frame by (simp_all add: frame assms(6,7))
  obtain d where d: "exc_table ARMul_DataAbortV (TFlag g \<noteq> 0) = Some (ABORT32MODE, IBIT, d)" by (simp add: exc_table_def)
  have p: "prog32Sig g \<noteq> LOW" "bank_ok g" "flags_ok g" "Bank g \<noteq> DUMMYBANK" using g assms(5,8) by simp_all
  let ?t = "ARMul_Abort g ARMul_DataAbortV"
  note e = Abort_entry [OF d p]
  have mb: "ModeToBank ABORT32MODE = ABORTBANK" by (simp add: ModeToBank_def bankofmode_def)
  have bt: "Bank ?t = ABORTBANK" "bank_ok ?t" "Bank ?t \<noteq> DUMMYBANK" using e mb by (auto simp: bank_ok_def)
  have pt: "prog32Sig ?t \<noteq> LOW" using Abort_prog32 [OF d p] p(1) by simp
  have ab: "Aborted ?t = 0" by (rule Abort_Aborted [OF d p])
  have sp: "ARMul_GetSPSR ?t (EMODE ?t) = CPSR s"
    using e g(3) mb by (simp add: ARMul_GetSPSR_def BANK_CAN_ACCESS_SPSR_def Let_def)
  let ?w = "ARMul_SetCPSR ?t (CPSR s)"
  note r = SPSR_restored [OF bt(2) pt bt(3) assms(7,6,8)]
  have nu: "\<not> user_mode ?t" using e by (simp add: user_mode_def)
  have "Reg ?w 15 = Reg ?t 15"
    using SetCPSR_r15 [of ?t "CPSR s"] e pt CPSR_fields(2) [OF assms(7)] assms(9) by simp
  then have r15: "Reg ?w 15 = exc_vector s 16 AND PCBITS" using e g(7-9) by (simp add: exc_vector_def)
  let ?u = "ARMul_Icycles (WriteR15 ?w (Reg ?w 15 AND PCBITS32)) 1"
  have L: "LoadSMult (arm7100_mmu_ops B) s instr a wb = Some ?u"
    unfolding LoadSMult_def using assms(4) n ld nu ab sp
    by (simp add: data_fault_simps ldm_abort_def g_def [symmetric] TAKEABORT_def ARMul_SetCPSR_def Let_def)
  have u: "CPSR ?u = CPSR s" "Mode ?u = Mode s" using r by (simp_all add: psr_frame_simps WriteR15_def)
  have "Reg ?u 15 = pc_align ?w (Reg ?w 15 AND PCBITS32) AND PCBITS32" by (simp add: psr_frame_simps WriteR15_def)
  then have u15: "Reg ?u 15 AND 0xfffffffc = exc_vector s 16 AND 0xfffffffc" by (simp add: pc_align_def r15 and.assoc)
  let ?h = "ARMul_Icycles ?f 1"
  have h: "bank_ok ?h" "flags_ok ?h" "Bank ?h \<noteq> DUMMYBANK" "prog32Sig ?h \<noteq> LOW" "Aborted ?h = 16"
    using assms(5-8) by (simp_all add: Icycles_simps frame)
  have W: "LoadMult (arm7100_mmu_ops B) s instr a wb = Some (TAKEABORT ?h)"
    unfolding LoadMult_def using n ld h(5) by (simp add: ldm_put_def data_fault_simps ldm_abort_def)
  obtain d' where "exc_table ARMul_DataAbortV (TFlag ?h \<noteq> 0) = Some (ABORT32MODE, IBIT, d')" by (simp add: exc_table_def)
  from Abort_entry [OF this h(4,1,2,3)] have "Mode (TAKEABORT ?h) = ABORT32MODE" by (simp add: TAKEABORT_def)
  then show ?thesis using L W u u15 by blast
qed


theorem ldm_pc_abort_returns_witness:
  "\<exists>u w. LoadSMult (arm7100_mmu_ops undefined) (ex_us\<lparr>Mode := USER32MODE, mmu := (mmu ex_us)\<lparr>control := 0x73\<rparr>\<rparr>) 0xe8fd8000 0x40000002 0 = Some u
     \<and> Mode u = USER32MODE
     \<and> LoadMult (arm7100_mmu_ops undefined) (ex_us\<lparr>Mode := USER32MODE, mmu := (mmu ex_us)\<lparr>control := 0x73\<rparr>\<rparr>) 0xe8fd8000 0x40000002 0 = Some w
     \<and> Mode w = ABORT32MODE"
  using ldm_pc_abort_returns [of "ex_us\<lparr>Mode := USER32MODE, mmu := (mmu ex_us)\<lparr>control := 0x73\<rparr>\<rparr>" "0x40000002" "0xe8fd8000" undefined 0]
  by (auto simp: control_bit_def ex_us_def ARMul_NewState_def bank_ok_def flags_ok_def ModeToBank_def bankofmode_def)

lemma ex_flat: "k < 4 \<Longrightarrow> flat_ok ex_us (0x40000000 + 4 * of_nat k)"
proof -
  assume "k < 4"
  then have a: "k = 0 \<or> k = 1 \<or> k = 2 \<or> k = 3" by auto
  have "ram_bank (mach ex_us) (0x40000000 + 4 * of_nat k) 1"
    using a unfolding ram_bank_def ex_us_live by (auto simp: ex_us_def ex_hw_mem_def ARMul_NewState_def ex_banks_def bank_hit_def)
  then show ?thesis using a ex_us_wf unfolding flat_ok_def ram_ok_def
    by (auto simp: ex_us_def ARMul_NewState_def remap_addr_def control_bit_def)
qed

theorem stm_stores_witness:
  "\<exists>t. StoreMult (arm7100_mmu_ops undefined) (set_reg 2 7 ex_us) 0xe8ad0006 0x40000000 0 = Some t \<and> ram_word t 0x40000004 = 7"
proof -
  have bb: "bits_below 0xe8ad0006 16 = 2" "bits_below 0xe8ad0006 2 = 1" by (simp_all add: numeral_eq_Suc)
  have "flat_ok (set_reg 2 7 ex_us) (0x40000000 + 4 * of_nat k)" if "k < 2" for k
    using ex_flat [of k] that flat_view [of "set_reg 2 7 ex_us" ex_us] by simp
  then have k: "\<forall>k<bits_below 0xe8ad0006 16. flat_ok (set_reg 2 7 ex_us) (0x40000000 + 4 * of_nat k)" by (simp only: bb) simp
  have e: "\<exists>r<16. bit (0xe8ad0006 :: ARMword) r" by (intro exI [of _ 2]) simp
  have ab: "Aborted (set_reg 2 7 ex_us) = 0" by (simp add: ex_us_def ARMul_NewState_def)
  have l: "lsm_addr 0xe8ad0006 0x40000000 2 = 0x40000004" by (simp add: lsm_addr_def bb)
  obtain t where t: "StoreMult (arm7100_mmu_ops undefined) (set_reg 2 7 ex_us) 0xe8ad0006 0x40000000 0 = Some t"
     "\<forall>r<15. bit (0xe8ad0006 :: ARMword) r \<longrightarrow> ram_word t (lsm_addr 0xe8ad0006 0x40000000 r) = Reg (set_reg 2 7 ex_us) r"
    using stm_stores [OF ab e k, of undefined 0] by blast
  have "ram_word t 0x40000004 = 7" using t(2) [rule_format, of 2] l by simp
  then show ?thesis using t(1) by blast
qed

theorem stm_ldm_roundtrip_witness:
  "\<exists>t. StoreMult (arm7100_mmu_ops undefined) (set_reg 2 7 ex_us) 0xe8ad0006 0x40000000 0 = Some t
     \<and> (\<exists>u. LoadMult (arm7100_mmu_ops undefined) (t\<lparr>Reg := \<lambda>_. 9\<rparr>) 0xe8bd0006 0x40000000 0 = Some u \<and> Reg u 2 = 7 \<and> Reg u 3 = 9)"
proof -
  have bb: "bits_below 0xe8ad0006 16 = 2" by (simp add: numeral_eq_Suc)
  have "flat_ok (set_reg 2 7 ex_us) (0x40000000 + 4 * of_nat k)" if "k < 2" for k
    using ex_flat [of k] that flat_view [of "set_reg 2 7 ex_us" ex_us] by simp
  then have k: "\<forall>k<bits_below 0xe8ad0006 16. flat_ok (set_reg 2 7 ex_us) (0x40000000 + 4 * of_nat k)" by (simp only: bb) simp
  have e: "\<exists>r<16. bit (0xe8ad0006 :: ARMword) r" by (intro exI [of _ 2]) simp
  have ab: "Aborted (set_reg 2 7 ex_us) = 0" by (simp add: ex_us_def ARMul_NewState_def)
  have s: "\<forall>r<16. bit (0xe8bd0006 :: ARMword) r = bit (0xe8ad0006 :: ARMword) r"
    by (simp add: numeral_eq_Suc All_less_Suc)
  have "LHSReg 0xe8bd0006 = 13" by (simp add: LHSReg_def BITS_def)
  moreover have "bit (0xe8ad0006 :: ARMword) 2" "\<not> bit (0xe8ad0006 :: ARMword) 3" by simp_all
  ultimately show ?thesis using stm_ldm_roundtrip [OF ab e k s, of undefined 0 0] by fastforce
qed

end
