(* ===== verification/Arm_Alu.thy ===== *)
theory Arm_Alu
  imports Arm_Mul Arm_LdSt
begin

text \<open>
  The data-processing instructions of \<^verbatim>\<open>arch/arm/common/armemu.c\<close>: the cases 0x00 to 0x3f of the
  main switch of \<^verbatim>\<open>ARMul_Emulate32\<close>, one definition per case of the register group and one
  per eight cases of the immediate group, with the instructions that share their opcodes
  (multiplications, halfword and double transfers, swaps, status register moves, the
  ARMv5E signal processing instructions), and the condition codes.  The comment on a case
  names the instruction; \<open>M\<close> are the memory operations, \<open>None\<close> means that the emulator exits.
  The lemmas relate the flags to the arithmetic of the operands.
\<close>

section \<open>Fields and flags\<close>

definition MULDESTReg :: "ARMword \<Rightarrow> nat" where "MULDESTReg instr = unat (BITS instr 16 19)"
definition MULLHSReg :: "ARMword \<Rightarrow> nat" where "MULLHSReg instr = unat (BITS instr 0 3)"
definition MULRHSReg :: "ARMword \<Rightarrow> nat" where "MULRHSReg instr = unat (BITS instr 8 11)"
definition MULACCReg :: "ARMword \<Rightarrow> nat" where "MULACCReg instr = unat (BITS instr 12 15)"

text \<open>The flags of an addition and of a subtraction, with the shortcuts for small operands.\<close>

definition add_flags :: "ARMword \<Rightarrow> ARMword \<Rightarrow> ARMword \<Rightarrow> 'm ARMul_State \<Rightarrow> 'm ARMul_State" where
  "add_flags lhs rhs dest s =
     (let s = s\<lparr>ZFlag := of_bool (dest = 0)\<rparr> in
      if drop_bit 30 (lhs OR rhs) \<noteq> 0
      then ARMul_AddOverflow (ARMul_AddCarry (s\<lparr>NFlag := NEG dest\<rparr>) lhs rhs dest) lhs rhs dest
      else s\<lparr>NFlag := 0, CFlag := 0, VFlag := 0\<rparr>)"

definition sub_flags :: "ARMword \<Rightarrow> ARMword \<Rightarrow> ARMword \<Rightarrow> 'm ARMul_State \<Rightarrow> 'm ARMul_State" where
  "sub_flags lhs rhs dest s =
     (if lhs \<ge> rhs \<or> drop_bit 31 (rhs OR lhs) \<noteq> 0
      then ARMul_SubOverflow (ARMul_SubCarry s lhs rhs dest) lhs rhs dest
      else s\<lparr>CFlag := 0, VFlag := 0\<rparr>)"

section \<open>Data processing, register operand\<close>

text \<open>
  Without the S bit the operand is evaluated first, then \<open>LHS\<close>; \<open>f\<close> gets the carry flag.
  The logical operations with the S bit take the carry from the shifter.
\<close>

definition dp_reg :: "(ARMword \<Rightarrow> ARMword \<Rightarrow> ARMword \<Rightarrow> ARMword) \<Rightarrow> ARMword \<Rightarrow> 'm ARMul_State \<Rightarrow> 'm ARMul_State" where
  "dp_reg f instr s =
     (let (rhs, s) = DPRegRHS s instr; dest = f (CFlag s) (LHS s instr) rhs in WRITEDEST instr dest s)"

definition dps_reg :: "(ARMword \<Rightarrow> ARMword \<Rightarrow> ARMword) \<Rightarrow> ARMword \<Rightarrow> 'm ARMul_State \<Rightarrow> 'm ARMul_State" where
  "dps_reg f instr s =
     (let (rhs, s) = DPSRegRHS s instr; dest = f (LHS s instr) rhs in WRITESDEST instr dest s)"

text \<open>The arithmetic operations with the S bit read \<open>LHS\<close> first; \<open>c\<close> is the carry or borrow they use.\<close>

definition adds :: "(ARMword \<Rightarrow> ARMword) \<Rightarrow> ARMword \<Rightarrow> ARMword \<Rightarrow> ARMword \<Rightarrow> 'm ARMul_State \<Rightarrow> 'm ARMul_State" where
  "adds c instr lhs rhs s =
     (let dest = lhs + rhs + c (CFlag s) in WRITESDEST instr dest (add_flags lhs rhs dest s))"

definition subs :: "(ARMword \<Rightarrow> ARMword) \<Rightarrow> ARMword \<Rightarrow> ARMword \<Rightarrow> ARMword \<Rightarrow> 'm ARMul_State \<Rightarrow> 'm ARMul_State" where
  "subs c instr lhs rhs s =
     (let dest = lhs - rhs - c (CFlag s) in WRITESDEST instr dest (sub_flags lhs rhs dest s))"

definition no_carry :: "ARMword \<Rightarrow> ARMword" where "no_carry c = 0"
definition with_carry :: "ARMword \<Rightarrow> ARMword" where "with_carry c = c"
definition not_carry :: "ARMword \<Rightarrow> ARMword" where "not_carry c = of_bool (c = 0)"

definition adds_reg :: "(ARMword \<Rightarrow> ARMword) \<Rightarrow> ARMword \<Rightarrow> 'm ARMul_State \<Rightarrow> 'm ARMul_State" where
  "adds_reg c instr s = (let lhs = LHS s instr; (rhs, s) = DPRegRHS s instr in adds c instr lhs rhs s)"

definition subs_reg :: "(ARMword \<Rightarrow> ARMword) \<Rightarrow> ARMword \<Rightarrow> 'm ARMul_State \<Rightarrow> 'm ARMul_State" where
  "subs_reg c instr s = (let lhs = LHS s instr; (rhs, s) = DPRegRHS s instr in subs c instr lhs rhs s)"

definition rsbs_reg :: "(ARMword \<Rightarrow> ARMword) \<Rightarrow> ARMword \<Rightarrow> 'm ARMul_State \<Rightarrow> 'm ARMul_State" where
  "rsbs_reg c instr s = (let lhs = LHS s instr; (rhs, s) = DPRegRHS s instr in subs c instr rhs lhs s)"

text \<open>The comparisons, which write no register; with the PC as destination they restore the CPSR.\<close>

definition psr_return :: "'m ARMul_State \<Rightarrow> 'm ARMul_State" where
  "psr_return s = ARMul_CPSRAltered (s\<lparr>Cpsr := ARMul_GetSPSR s (EMODE s)\<rparr>)"

definition test_reg :: "(ARMword \<Rightarrow> ARMword \<Rightarrow> ARMword) \<Rightarrow> ARMword \<Rightarrow> 'm ARMul_State \<Rightarrow> 'm ARMul_State" where
  "test_reg f instr s =
     (if DESTReg instr = 15 then psr_return s
      else (let (rhs, s) = DPSRegRHS s instr; dest = f (LHS s instr) rhs in ARMul_NegZero s dest))"

definition cmp :: "ARMword \<Rightarrow> ARMword \<Rightarrow> 'm ARMul_State \<Rightarrow> 'm ARMul_State" where
  "cmp lhs rhs s = (let dest = lhs - rhs in sub_flags lhs rhs dest (ARMul_NegZero s dest))"

definition cmn :: "ARMword \<Rightarrow> ARMword \<Rightarrow> 'm ARMul_State \<Rightarrow> 'm ARMul_State" where
  "cmn lhs rhs s = (let dest = lhs + rhs in add_flags lhs rhs dest s)"

definition cmp_reg :: "(ARMword \<Rightarrow> ARMword \<Rightarrow> 'm ARMul_State \<Rightarrow> 'm ARMul_State) \<Rightarrow> ARMword \<Rightarrow> 'm ARMul_State \<Rightarrow> 'm ARMul_State" where
  "cmp_reg f instr s =
     (if DESTReg instr = 15 then psr_return s
      else (let lhs = LHS s instr; (rhs, s) = DPRegRHS s instr in f lhs rhs s))"

section \<open>Multiplications\<close>

text \<open>The highest bit set, 0 when there is none.\<close>

definition mul_top :: "ARMword \<Rightarrow> nat" where
  "mul_top rhs = fold (\<lambda>dest temp. if rhs AND push_bit dest 1 \<noteq> 0 then dest else temp) [0..<32] 0"

definition mul_cycles :: "ARMword \<Rightarrow> 'm ARMul_State \<Rightarrow> 'm ARMul_State" where
  "mul_cycles rhs s = ARMul_Icycles s (of_nat (ARMul_MultTable ! mul_top rhs))"

definition MUL_insn :: "ARMword \<Rightarrow> 'm ARMul_State \<Rightarrow> 'm ARMul_State" where
  "MUL_insn instr s =
     (let rhs = Reg s (MULRHSReg instr) in
      mul_cycles rhs
       (if MULLHSReg instr = MULDESTReg instr then set_reg (MULDESTReg instr) 0 s
        else if MULDESTReg instr \<noteq> 15 then set_reg (MULDESTReg instr) (Reg s (MULLHSReg instr) * rhs) s
        else s))"

definition MULS_insn :: "ARMword \<Rightarrow> 'm ARMul_State \<Rightarrow> 'm ARMul_State" where
  "MULS_insn instr s =
     (let rhs = Reg s (MULRHSReg instr) in
      mul_cycles rhs
       (if MULLHSReg instr = MULDESTReg instr then (set_reg (MULDESTReg instr) 0 s)\<lparr>NFlag := 0, ZFlag := 1\<rparr>
        else if MULDESTReg instr \<noteq> 15 then
          (let dest = Reg s (MULLHSReg instr) * rhs in set_reg (MULDESTReg instr) dest (ARMul_NegZero s dest))
        else s))"

definition MLA_insn :: "ARMword \<Rightarrow> 'm ARMul_State \<Rightarrow> 'm ARMul_State" where
  "MLA_insn instr s =
     (let rhs = Reg s (MULRHSReg instr) in
      mul_cycles rhs
       (if MULLHSReg instr = MULDESTReg instr then set_reg (MULDESTReg instr) (Reg s (MULACCReg instr)) s
        else if MULDESTReg instr \<noteq> 15 then
          set_reg (MULDESTReg instr) (Reg s (MULLHSReg instr) * rhs + Reg s (MULACCReg instr)) s
        else s))"

definition MLAS_insn :: "ARMword \<Rightarrow> 'm ARMul_State \<Rightarrow> 'm ARMul_State" where
  "MLAS_insn instr s =
     (let rhs = Reg s (MULRHSReg instr) in
      mul_cycles rhs
       (if MULLHSReg instr = MULDESTReg instr then
          (let dest = Reg s (MULACCReg instr) in set_reg (MULDESTReg instr) dest (ARMul_NegZero s dest))
        else if MULDESTReg instr \<noteq> 15 then
          (let dest = Reg s (MULLHSReg instr) * rhs + Reg s (MULACCReg instr)
           in set_reg (MULDESTReg instr) dest (ARMul_NegZero s dest))
        else s))"

definition mull :: "bool \<Rightarrow> bool \<Rightarrow> ARMword \<Rightarrow> 'm ARMul_State \<Rightarrow> 'm ARMul_State" where
  "mull msigned scc instr s = (let (n, s) = Multiply64 s instr msigned scc in ARMul_Icycles s (of_nat n))"

definition mlal :: "bool \<Rightarrow> bool \<Rightarrow> ARMword \<Rightarrow> 'm ARMul_State \<Rightarrow> 'm ARMul_State" where
  "mlal msigned scc instr s = (let (n, s) = MultiplyAdd64 s instr msigned scc in ARMul_Icycles s (of_nat n))"

section \<open>Halfword and signed transfers\<close>

definition upd_base :: "ARMword \<Rightarrow> ARMword \<Rightarrow> bool \<times> 'm ARMul_State \<Rightarrow> 'm ARMul_State" where
  "upd_base instr temp = (\<lambda>(wb, s). if wb then set_reg (LHSReg instr) temp s else s)"

definition offset_addr :: "bool \<Rightarrow> ARMword \<Rightarrow> ARMword \<Rightarrow> ARMword" where
  "offset_addr up base ofs = (if up then base + ofs else base - ofs)"

text \<open>The macros come in pairs, down and up; the argument \<open>up\<close> selects the one.\<close>

definition SHPOST :: "bool \<Rightarrow> 'm mmu_ops \<Rightarrow> ARMword \<Rightarrow> 'm ARMul_State \<Rightarrow> 'm ARMul_State option" where
  "SHPOST up M instr s =
     (let lhs = LHS s instr in
      map_option (\<lambda>(wb, s). upd_base instr (offset_addr up lhs (GetLS7RHS s instr)) (wb, s)) (StoreHalfWord M s instr lhs))"

definition SHPRE :: "bool \<Rightarrow> 'm mmu_ops \<Rightarrow> ARMword \<Rightarrow> 'm ARMul_State \<Rightarrow> 'm ARMul_State option" where
  "SHPRE up M instr s =
     map_option snd (StoreHalfWord M s instr (offset_addr up (LHS s instr) (GetLS7RHS s instr)))"

definition SHPREWB :: "bool \<Rightarrow> 'm mmu_ops \<Rightarrow> ARMword \<Rightarrow> 'm ARMul_State \<Rightarrow> 'm ARMul_State option" where
  "SHPREWB up M instr s =
     (let temp = offset_addr up (LHS s instr) (GetLS7RHS s instr)
      in map_option (upd_base instr temp) (StoreHalfWord M s instr temp))"

text \<open>The three loads; with 0 in bits 5 and 6 the macros do nothing and decoding goes on.\<close>

definition lh_load :: "'m mmu_ops \<Rightarrow> ARMword \<Rightarrow> ARMword \<Rightarrow> 'm ARMul_State \<Rightarrow> (bool \<times> 'm ARMul_State) option" where
  "lh_load M instr address s =
     (let op = BITS instr 5 6 in
      if op = 1 then LoadHalfWord M s instr address False
      else if op = 2 then LoadByte M s instr address True
      else LoadHalfWord M s instr address True)"

definition LHPOST :: "bool \<Rightarrow> 'm mmu_ops \<Rightarrow> ARMword \<Rightarrow> 'm ARMul_State \<Rightarrow> 'm ARMul_State option" where
  "LHPOST up M instr s =
     (let lhs = LHS s instr; temp = offset_addr up lhs (GetLS7RHS s instr)
      in map_option (upd_base instr temp) (lh_load M instr lhs s))"

definition LHPRE :: "bool \<Rightarrow> 'm mmu_ops \<Rightarrow> ARMword \<Rightarrow> 'm ARMul_State \<Rightarrow> 'm ARMul_State option" where
  "LHPRE up M instr s =
     map_option snd (lh_load M instr (offset_addr up (LHS s instr) (GetLS7RHS s instr)) s)"

definition LHPREWB :: "bool \<Rightarrow> 'm mmu_ops \<Rightarrow> ARMword \<Rightarrow> 'm ARMul_State \<Rightarrow> 'm ARMul_State option" where
  "LHPREWB up M instr s =
     (let temp = offset_addr up (LHS s instr) (GetLS7RHS s instr)
      in map_option (upd_base instr temp) (lh_load M instr temp s))"

text \<open>When a case of the switch takes the macro: register and immediate offsets.\<close>

definition is_lh_reg :: "ARMword \<Rightarrow> bool" where
  "is_lh_reg instr \<longleftrightarrow> BITS instr 4 11 AND 0xF9 = 0x9 \<and> BITS instr 5 6 \<noteq> 0"

definition is_lh_imm :: "ARMword \<Rightarrow> bool" where
  "is_lh_imm instr \<longleftrightarrow> BITS instr 4 7 AND 0x9 = 0x9 \<and> BITS instr 5 6 \<noteq> 0"

text \<open>The double-word transfers share bits 4 to 7 with these; \<open>k\<close> is the rest of the case.\<close>

definition double_or :: "'m mmu_ops \<Rightarrow> ARMword \<Rightarrow> 'm ARMul_State \<Rightarrow> 'm ARMul_State option \<Rightarrow> 'm ARMul_State option" where
  "double_or M instr s k =
     (if BITS instr 4 7 = 0xD then Handle_Load_Double M s instr
      else if BITS instr 4 7 = 0xF then Handle_Store_Double M s instr
      else k)"

section \<open>The register cases of the main switch\<close>

definition op_00 :: "'m mmu_ops \<Rightarrow> ARMword \<Rightarrow> 'm ARMul_State \<Rightarrow> 'm ARMul_State option" where
  "op_00 M instr s =
     (if BITS instr 4 11 = 0xB then SHPOST False M instr s
      else double_or M instr s
       (Some (if BITS instr 4 7 = 9 then MUL_insn instr s else dp_reg (\<lambda>c lhs rhs. lhs AND rhs) instr s)))"

definition op_01 :: "'m mmu_ops \<Rightarrow> ARMword \<Rightarrow> 'm ARMul_State \<Rightarrow> 'm ARMul_State option" where
  "op_01 M instr s =
     (if is_lh_reg instr then LHPOST False M instr s
      else Some (if BITS instr 4 7 = 9 then MULS_insn instr s else dps_reg (\<lambda>lhs rhs. lhs AND rhs) instr s))"

definition op_02 :: "'m mmu_ops \<Rightarrow> ARMword \<Rightarrow> 'm ARMul_State \<Rightarrow> 'm ARMul_State option" where
  "op_02 M instr s =
     (if BITS instr 4 11 = 0xB then SHPOST False M instr s
      else Some (if BITS instr 4 7 = 9 then MLA_insn instr s else dp_reg (\<lambda>c lhs rhs. lhs XOR rhs) instr s))"

definition op_03 :: "'m mmu_ops \<Rightarrow> ARMword \<Rightarrow> 'm ARMul_State \<Rightarrow> 'm ARMul_State option" where
  "op_03 M instr s =
     (if is_lh_reg instr then LHPOST False M instr s
      else Some (if BITS instr 4 7 = 9 then MLAS_insn instr s else dps_reg (\<lambda>lhs rhs. lhs XOR rhs) instr s))"

definition op_04 :: "'m mmu_ops \<Rightarrow> ARMword \<Rightarrow> 'm ARMul_State \<Rightarrow> 'm ARMul_State option" where
  "op_04 M instr s =
     (if BITS instr 4 7 = 0xB then SHPOST False M instr s
      else double_or M instr s (Some (dp_reg (\<lambda>c lhs rhs. lhs - rhs) instr s)))"

definition op_05 :: "'m mmu_ops \<Rightarrow> ARMword \<Rightarrow> 'm ARMul_State \<Rightarrow> 'm ARMul_State option" where
  "op_05 M instr s =
     (if is_lh_imm instr then LHPOST False M instr s else Some (subs_reg no_carry instr s))"

definition op_06 :: "'m mmu_ops \<Rightarrow> ARMword \<Rightarrow> 'm ARMul_State \<Rightarrow> 'm ARMul_State option" where
  "op_06 M instr s =
     (if BITS instr 4 7 = 0xB then SHPOST False M instr s else Some (dp_reg (\<lambda>c lhs rhs. rhs - lhs) instr s))"

definition op_07 :: "'m mmu_ops \<Rightarrow> ARMword \<Rightarrow> 'm ARMul_State \<Rightarrow> 'm ARMul_State option" where
  "op_07 M instr s =
     (if is_lh_imm instr then LHPOST False M instr s else Some (rsbs_reg no_carry instr s))"

definition op_08 :: "'m mmu_ops \<Rightarrow> ARMword \<Rightarrow> 'm ARMul_State \<Rightarrow> 'm ARMul_State option" where
  "op_08 M instr s =
     (if BITS instr 4 11 = 0xB then SHPOST True M instr s
      else double_or M instr s
       (Some (if BITS instr 4 7 = 0x9 then mull False False instr s else dp_reg (\<lambda>c lhs rhs. lhs + rhs) instr s)))"

definition op_09 :: "'m mmu_ops \<Rightarrow> ARMword \<Rightarrow> 'm ARMul_State \<Rightarrow> 'm ARMul_State option" where
  "op_09 M instr s =
     (if is_lh_reg instr then LHPOST True M instr s
      else Some (if BITS instr 4 7 = 0x9 then mull False True instr s else adds_reg no_carry instr s))"

definition op_0a :: "'m mmu_ops \<Rightarrow> ARMword \<Rightarrow> 'm ARMul_State \<Rightarrow> 'm ARMul_State option" where
  "op_0a M instr s =
     (if BITS instr 4 11 = 0xB then SHPOST True M instr s
      else Some (if BITS instr 4 7 = 0x9 then mlal False False instr s else dp_reg (\<lambda>c lhs rhs. lhs + rhs + c) instr s))"

definition op_0b :: "'m mmu_ops \<Rightarrow> ARMword \<Rightarrow> 'm ARMul_State \<Rightarrow> 'm ARMul_State option" where
  "op_0b M instr s =
     (if is_lh_reg instr then LHPOST True M instr s
      else Some (if BITS instr 4 7 = 0x9 then mlal False True instr s else adds_reg with_carry instr s))"

definition op_0c :: "'m mmu_ops \<Rightarrow> ARMword \<Rightarrow> 'm ARMul_State \<Rightarrow> 'm ARMul_State option" where
  "op_0c M instr s =
     (if BITS instr 4 7 = 0xB then SHPOST True M instr s
      else double_or M instr s
       (Some (if BITS instr 4 7 = 0x9 then mull True False instr s
              else dp_reg (\<lambda>c lhs rhs. lhs - rhs - not_carry c) instr s)))"

definition op_0d :: "'m mmu_ops \<Rightarrow> ARMword \<Rightarrow> 'm ARMul_State \<Rightarrow> 'm ARMul_State option" where
  "op_0d M instr s =
     (if is_lh_imm instr then LHPOST True M instr s
      else Some (if BITS instr 4 7 = 0x9 then mull True True instr s else subs_reg not_carry instr s))"

definition op_0e :: "'m mmu_ops \<Rightarrow> ARMword \<Rightarrow> 'm ARMul_State \<Rightarrow> 'm ARMul_State option" where
  "op_0e M instr s =
     (if BITS instr 4 7 = 0xB then SHPOST True M instr s
      else Some (if BITS instr 4 7 = 0x9 then mlal True False instr s
                 else dp_reg (\<lambda>c lhs rhs. rhs - lhs - not_carry c) instr s))"

definition op_0f :: "'m mmu_ops \<Rightarrow> ARMword \<Rightarrow> 'm ARMul_State \<Rightarrow> 'm ARMul_State option" where
  "op_0f M instr s =
     (if is_lh_imm instr then LHPOST True M instr s
      else Some (if BITS instr 4 7 = 0x9 then mlal True True instr s else rsbs_reg not_carry instr s))"

subsection \<open>Signal processing instructions of ARMv5E\<close>

definition half_operand :: "bool \<Rightarrow> ARMword \<Rightarrow> ARMword" where
  "half_operand hi w =
     (let w = (if hi then drop_bit 16 w else w) AND 0xFFFF
      in if w AND 0x8000 \<noteq> 0 then w - 65536 else w)"

definition saturate :: "ARMword \<Rightarrow> ARMword" where
  "saturate result = (if POS result \<noteq> 0 then 0x80000000 else 0x7fffffff)"

definition set_s :: "bool \<Rightarrow> 'm ARMul_State \<Rightarrow> 'm ARMul_State" where
  "set_s v s = (if v then s\<lparr>SFlag := 1\<rparr> else s)"

definition SMLAxy :: "ARMword \<Rightarrow> 'm ARMul_State \<Rightarrow> 'm ARMul_State" where
  "SMLAxy instr s =
     (let op1 = half_operand (BIT instr 5 \<noteq> 0) (Reg s (unat (BITS instr 0 3)));
          op2 = half_operand (BIT instr 6 \<noteq> 0) (Reg s (unat (BITS instr 8 11)));
          Rn = Reg s (unat (BITS instr 12 15));
          op1 = op1 * op2
      in set_reg (unat (BITS instr 16 19)) (op1 + Rn) (set_s (AddOverflow op1 Rn (op1 + Rn)) s))"

definition QADD :: "ARMword \<Rightarrow> 'm ARMul_State \<Rightarrow> 'm ARMul_State" where
  "QADD instr s =
     (let op1 = Reg s (unat (BITS instr 0 3)); op2 = Reg s (unat (BITS instr 16 19)); result = op1 + op2;
          v = AddOverflow op1 op2 result
      in set_reg (unat (BITS instr 12 15)) (if v then saturate result else result) (set_s v s))"

definition QSUB :: "ARMword \<Rightarrow> 'm ARMul_State \<Rightarrow> 'm ARMul_State" where
  "QSUB instr s =
     (let op1 = Reg s (unat (BITS instr 0 3)); op2 = Reg s (unat (BITS instr 16 19)); result = op1 - op2;
          v = SubOverflow op1 op2 result
      in set_reg (unat (BITS instr 12 15)) (if v then saturate result else result) (set_s v s))"

text \<open>The sums are of type \<open>unsigned long long\<close>, so the shift brings in zeroes.\<close>

definition SMLAWy :: "ARMword \<Rightarrow> 'm ARMul_State \<Rightarrow> 'm ARMul_State" where
  "SMLAWy instr s =
     (let op1 = (ucast (Reg s (unat (BITS instr 0 3))) :: ARMdword);
          op2 = (ucast (Reg s (unat (BITS instr 8 11))) :: ARMdword);
          op2 = (if BIT instr 6 \<noteq> 0 then drop_bit 16 op2 else op2);
          op1 = (if op1 AND 0x80000000 \<noteq> 0 then op1 - push_bit 32 1 else op1);
          op2 = op2 AND 0xFFFF;
          op2 = (if op2 AND 0x8000 \<noteq> 0 then op2 - 65536 else op2);
          result = drop_bit 16 (op1 * op2)
      in if BIT instr 5 = 0 then
           (let Rn = Reg s (unat (BITS instr 12 15))
            in set_reg (unat (BITS instr 16 19)) (ucast (result + ucast Rn))
                 (set_s (AddOverflow (ucast result) Rn (ucast (result + ucast Rn))) s))
         else set_reg (unat (BITS instr 16 19)) (ucast result) s)"

definition SMLALxy :: "ARMword \<Rightarrow> 'm ARMul_State \<Rightarrow> 'm ARMul_State" where
  "SMLALxy instr s =
     (let half = (\<lambda>hi w. let w = (if hi then drop_bit 16 w else w) AND 0xFFFF
                    in if w AND 0x8000 \<noteq> 0 then w - 65536 else (w :: ARMdword));
          op1 = half (BIT instr 5 \<noteq> 0) (ucast (Reg s (unat (BITS instr 0 3))));
          op2 = half (BIT instr 6 \<noteq> 0) (ucast (Reg s (unat (BITS instr 8 11))));
          dest = push_bit 32 (ucast (Reg s (unat (BITS instr 16 19)))) OR ucast (Reg s (unat (BITS instr 12 15)));
          dest = dest + op1 * op2
      in set_reg (unat (BITS instr 16 19)) (ucast (drop_bit 32 dest))
           (set_reg (unat (BITS instr 12 15)) (ucast dest) s))"

text \<open>\<open>QDADD\<close> and \<open>QDSUB\<close>: the doubled operand saturates first.\<close>

definition QD_insn :: "(ARMword \<Rightarrow> ARMword \<Rightarrow> ARMword) \<Rightarrow> (ARMword \<Rightarrow> ARMword \<Rightarrow> ARMword \<Rightarrow> bool) \<Rightarrow> ARMword \<Rightarrow> 'm ARMul_State \<Rightarrow> 'm ARMul_State" where
  "QD_insn f ov instr s =
     (let op1 = Reg s (unat (BITS instr 0 3)); op2 = Reg s (unat (BITS instr 16 19)); op2d = op2 + op2;
          v1 = AddOverflow op2 op2 op2d;
          op2d = (if v1 then saturate op2d else op2d);
          result = f op1 op2d;
          v2 = ov op1 op2d result;
          result = (if v2 then saturate result else result)
      in set_reg (unat (BITS instr 12 15)) result (set_s (v1 \<or> v2) s))"

definition SMULxy :: "ARMword \<Rightarrow> 'm ARMul_State \<Rightarrow> 'm ARMul_State" where
  "SMULxy instr s =
     (let op1 = half_operand (BIT instr 5 \<noteq> 0) (Reg s (unat (BITS instr 0 3)));
          op2 = half_operand (BIT instr 6 \<noteq> 0) (Reg s (unat (BITS instr 8 11)))
      in set_reg (unat (BITS instr 16 19)) (op1 * op2) s)"

lemma unat_double:
  assumes "w AND 0x80000000 = 0" "w \<noteq> (0 :: ARMword)"
  shows "unat w < unat (push_bit 1 w)"
proof -
  have "unat w < 2 ^ 31" using assms(1) bit31_conv_unat [of w] by (simp add: and_flag_iff)
  then have "unat (push_bit 1 w) = 2 * unat w"
    by (subst unsigned_push_bit_eq) (simp add: push_bit_eq_mult take_bit_eq_mod)
  then show ?thesis using assms(2) unsigned_eq_0_iff [of w] by (simp add: word_unat_eq_iff)
qed

text \<open>The loop of \<open>CLZ\<close>, entered with a word that is not 0.\<close>

function clz_loop :: "ARMword \<Rightarrow> nat \<Rightarrow> nat" where
  "clz_loop op1 result =
     (if op1 AND 0x80000000 = 0 \<and> op1 \<noteq> 0 then clz_loop (push_bit 1 op1) (result + 1) else result)"
  by auto
termination
proof (relation "measure (\<lambda>(w, n). 2 ^ 32 - unat w)", goal_cases)
  case 1 then show ?case by simp
next
  case (2 w n)
  then have "unat w < unat (push_bit 1 w)" by (intro unat_double) auto
  then show ?case using unat_less_2p32 [of "push_bit 1 w"] by (simp del: push_bit_eq_mult)
qed

declare clz_loop.simps [simp del]

definition CLZ :: "ARMword \<Rightarrow> 'm ARMul_State \<Rightarrow> 'm ARMul_State" where
  "CLZ instr s =
     (let op1 = Reg s (unat (BITS instr 0 3))
      in set_reg (unat (BITS instr 12 15)) (of_nat (if op1 \<noteq> 0 then clz_loop op1 0 else 32)) s)"

subsection \<open>Swaps, status register moves and breakpoints\<close>

definition SWP :: "'m mmu_ops \<Rightarrow> ARMword \<Rightarrow> 'm ARMul_State \<Rightarrow> 'm ARMul_State option" where
  "SWP M instr s =
     (let temp = LHS s instr; s = BUSUSEDINCPCS s in
      map_option
        (\<lambda>(dest, s).
           let s = set_reg (DESTReg instr) (if temp AND 3 \<noteq> 0 then ARMul_Align temp dest else dest) s
           in if abortSig s \<noteq> 0 \<or> Aborted s \<noteq> 0 then TAKEABORT s else s)
        (ARMul_SwapWord M s temp (Reg s (RHSReg instr))))"

definition SWPB :: "'m mmu_ops \<Rightarrow> ARMword \<Rightarrow> 'm ARMul_State \<Rightarrow> 'm ARMul_State option" where
  "SWPB M instr s =
     (let temp = LHS s instr; s = BUSUSEDINCPCS s in
      map_option
        (\<lambda>(dest, s).
           let s = set_reg (DESTReg instr) dest s
           in if abortSig s \<noteq> 0 \<or> Aborted s \<noteq> 0 then TAKEABORT s else s)
        (ARMul_SwapByte M s temp (Reg s (RHSReg instr))))"

definition is_mrs :: "ARMword \<Rightarrow> bool" where
  "is_mrs instr \<longleftrightarrow> BITS instr 0 11 = 0 \<and> LHSReg instr = 15"

text \<open>\<open>ARMul_OSHandleSWI\<close> with the number \<open>SWI_Breakpoint\<close>, the only one the emulator passes.\<close>

definition OSHandleSWI_breakpoint :: "'m ARMul_State \<Rightarrow> 'm ARMul_State" where
  "OSHandleSWI_breakpoint s = s\<lparr>EndCondition := 0, Emulate := STOP\<rparr>"

text \<open>\<open>SWI_vector_installed\<close> is never set, so a breakpoint instruction stops the emulation.\<close>

definition BKPT :: "'m ARMul_State \<Rightarrow> 'm ARMul_State" where
  "BKPT s = (OSHandleSWI_breakpoint s)\<lparr>NextInstr := RESUME\<rparr>"

definition BLX2 :: "ARMword \<Rightarrow> ARMword \<Rightarrow> 'm ARMul_State \<Rightarrow> 'm ARMul_State" where
  "BLX2 pc instr s =
     (let temp = (if TFlag s \<noteq> 0 then (pc + 2) OR 1 else pc + 4)
      in set_reg 14 temp (WriteR15Branch s (Reg s (RHSReg instr))))"

definition MSR_reg :: "ARMword \<Rightarrow> 'm ARMul_State \<Rightarrow> 'm ARMul_State" where
  "MSR_reg instr s = (let (temp, s) = DPRegRHS s instr in ARMul_FixCPSR s instr (temp AND NOT TBIT))"

definition MSR_spsr_reg :: "ARMword \<Rightarrow> 'm ARMul_State \<Rightarrow> 'm ARMul_State" where
  "MSR_spsr_reg instr s = (let (rhs, s) = DPRegRHS s instr in ARMul_FixSPSR s instr rhs)"

definition op_10 :: "'m mmu_ops \<Rightarrow> ARMword \<Rightarrow> 'm ARMul_State \<Rightarrow> 'm ARMul_State option" where
  "op_10 M instr s =
     (if is_v5e s \<noteq> 0 \<and> BIT instr 4 = 0 \<and> BIT instr 7 = 1 then Some (SMLAxy instr s)
      else if is_v5e s \<noteq> 0 \<and> BITS instr 4 11 = 5 then Some (QADD instr s)
      else if BITS instr 4 11 = 0xB then SHPRE False M instr s
      else double_or M instr s
       (if BITS instr 4 11 = 9 then SWP M instr s
        else if is_mrs instr then Some (set_reg (DESTReg instr) (ECC s OR EINT s OR EMODE s) s)
        else Some s))"

definition op_11 :: "'m mmu_ops \<Rightarrow> ARMword \<Rightarrow> 'm ARMul_State \<Rightarrow> 'm ARMul_State option" where
  "op_11 M instr s =
     (if is_lh_reg instr then LHPRE False M instr s else Some (test_reg (\<lambda>lhs rhs. lhs AND rhs) instr s))"

definition op_12 :: "ARMword \<Rightarrow> 'm mmu_ops \<Rightarrow> ARMword \<Rightarrow> 'm ARMul_State \<Rightarrow> 'm ARMul_State option" where
  "op_12 pc M instr s =
     (if is_v5 s \<noteq> 0 \<and> BITS instr 4 7 = 3 then Some (BLX2 pc instr s)
      else if is_v5e s \<noteq> 0 \<and> BIT instr 4 = 0 \<and> BIT instr 7 = 1 \<and> (BIT instr 5 = 0 \<or> BITS instr 12 15 = 0)
      then Some (SMLAWy instr s)
      else if is_v5e s \<noteq> 0 \<and> BITS instr 4 11 = 5 then Some (QSUB instr s)
      else if BITS instr 4 11 = 0xB then SHPREWB False M instr s
      else if BITS instr 4 27 = 0x12FFF1 then Some (WriteR15Branch s (Reg s (RHSReg instr)))
      else double_or M instr s
       (Some (if is_v5 s \<noteq> 0 \<and> BITS instr 4 7 = 7 then BKPT s
              else if DESTReg instr = 15 then MSR_reg instr s
              else s)))"

definition op_13 :: "'m mmu_ops \<Rightarrow> ARMword \<Rightarrow> 'm ARMul_State \<Rightarrow> 'm ARMul_State option" where
  "op_13 M instr s =
     (if is_lh_reg instr then LHPREWB False M instr s else Some (test_reg (\<lambda>lhs rhs. lhs XOR rhs) instr s))"

definition op_14 :: "'m mmu_ops \<Rightarrow> ARMword \<Rightarrow> 'm ARMul_State \<Rightarrow> 'm ARMul_State option" where
  "op_14 M instr s =
     (if is_v5e s \<noteq> 0 \<and> BIT instr 4 = 0 \<and> BIT instr 7 = 1 then Some (SMLALxy instr s)
      else if is_v5e s \<noteq> 0 \<and> BITS instr 4 11 = 5 then Some (QD_insn (\<lambda>a b. a + b) AddOverflow instr s)
      else if BITS instr 4 7 = 0xB then SHPRE False M instr s
      else double_or M instr s
       (if BITS instr 4 11 = 9 then SWPB M instr s
        else if is_mrs instr then Some (set_reg (DESTReg instr) (ARMul_GetSPSR s (EMODE s)) s)
        else Some s))"

definition op_15 :: "'m mmu_ops \<Rightarrow> ARMword \<Rightarrow> 'm ARMul_State \<Rightarrow> 'm ARMul_State option" where
  "op_15 M instr s =
     (if is_lh_imm instr then LHPRE False M instr s else Some (cmp_reg cmp instr s))"

definition op_16 :: "'m mmu_ops \<Rightarrow> ARMword \<Rightarrow> 'm ARMul_State \<Rightarrow> 'm ARMul_State option" where
  "op_16 M instr s =
     (if is_v5e s \<noteq> 0 \<and> BIT instr 4 = 0 \<and> BIT instr 7 = 1 \<and> BITS instr 12 15 = 0 then Some (SMULxy instr s)
      else if is_v5e s \<noteq> 0 \<and> BITS instr 4 11 = 5 then Some (QD_insn (\<lambda>a b. a - b) SubOverflow instr s)
      else if is_v5 s \<noteq> 0 \<and> BITS instr 4 11 = 0xF1 \<and> BITS instr 16 19 = 0xF then Some (CLZ instr s)
      else if BITS instr 4 7 = 0xB then SHPREWB False M instr s
      else double_or M instr s (Some (if DESTReg instr = 15 then MSR_spsr_reg instr s else s)))"

definition op_17 :: "'m mmu_ops \<Rightarrow> ARMword \<Rightarrow> 'm ARMul_State \<Rightarrow> 'm ARMul_State option" where
  "op_17 M instr s =
     (if is_lh_imm instr then LHPREWB False M instr s else Some (cmp_reg cmn instr s))"

definition op_18 :: "'m mmu_ops \<Rightarrow> ARMword \<Rightarrow> 'm ARMul_State \<Rightarrow> 'm ARMul_State option" where
  "op_18 M instr s =
     (if BITS instr 4 11 = 0xB then SHPRE True M instr s
      else double_or M instr s (Some (dp_reg (\<lambda>c lhs rhs. lhs OR rhs) instr s)))"

definition op_19 :: "'m mmu_ops \<Rightarrow> ARMword \<Rightarrow> 'm ARMul_State \<Rightarrow> 'm ARMul_State option" where
  "op_19 M instr s =
     (if is_lh_reg instr then LHPRE True M instr s else Some (dps_reg (\<lambda>lhs rhs. lhs OR rhs) instr s))"

definition op_1a :: "'m mmu_ops \<Rightarrow> ARMword \<Rightarrow> 'm ARMul_State \<Rightarrow> 'm ARMul_State option" where
  "op_1a M instr s =
     (if BITS instr 4 11 = 0xB then SHPREWB True M instr s
      else double_or M instr s (Some (dp_reg (\<lambda>c lhs rhs. rhs) instr s)))"

definition op_1b :: "'m mmu_ops \<Rightarrow> ARMword \<Rightarrow> 'm ARMul_State \<Rightarrow> 'm ARMul_State option" where
  "op_1b M instr s =
     (if is_lh_reg instr then LHPREWB True M instr s else Some (dps_reg (\<lambda>lhs rhs. rhs) instr s))"

definition op_1c :: "'m mmu_ops \<Rightarrow> ARMword \<Rightarrow> 'm ARMul_State \<Rightarrow> 'm ARMul_State option" where
  "op_1c M instr s =
     (if BITS instr 4 7 = 0xB then SHPRE True M instr s
      else double_or M instr s (Some (dp_reg (\<lambda>c lhs rhs. lhs AND NOT rhs) instr s)))"

definition op_1d :: "'m mmu_ops \<Rightarrow> ARMword \<Rightarrow> 'm ARMul_State \<Rightarrow> 'm ARMul_State option" where
  "op_1d M instr s =
     (if is_lh_imm instr then LHPRE True M instr s else Some (dps_reg (\<lambda>lhs rhs. lhs AND NOT rhs) instr s))"

definition op_1e :: "'m mmu_ops \<Rightarrow> ARMword \<Rightarrow> 'm ARMul_State \<Rightarrow> 'm ARMul_State option" where
  "op_1e M instr s =
     (if BITS instr 4 7 = 0xB then SHPREWB True M instr s
      else double_or M instr s (Some (dp_reg (\<lambda>c lhs rhs. NOT rhs) instr s)))"

definition op_1f :: "'m mmu_ops \<Rightarrow> ARMword \<Rightarrow> 'm ARMul_State \<Rightarrow> 'm ARMul_State option" where
  "op_1f M instr s =
     (if is_lh_imm instr then LHPREWB True M instr s else Some (dps_reg (\<lambda>lhs rhs. NOT rhs) instr s))"

section \<open>Data processing, immediate operand\<close>

definition dp_imm :: "(ARMword \<Rightarrow> ARMword \<Rightarrow> ARMword \<Rightarrow> ARMword) \<Rightarrow> ARMword \<Rightarrow> 'm ARMul_State \<Rightarrow> 'm ARMul_State" where
  "dp_imm f instr s = WRITEDEST instr (f (CFlag s) (LHS s instr) (DPImmRHS instr)) s"

definition dps_imm :: "(ARMword \<Rightarrow> ARMword \<Rightarrow> ARMword) \<Rightarrow> ARMword \<Rightarrow> 'm ARMul_State \<Rightarrow> 'm ARMul_State" where
  "dps_imm f instr s = (let (rhs, s) = DPSImmRHS s instr in WRITESDEST instr (f (LHS s instr) rhs) s)"

definition test_imm :: "(ARMword \<Rightarrow> ARMword \<Rightarrow> ARMword) \<Rightarrow> ARMword \<Rightarrow> 'm ARMul_State \<Rightarrow> 'm ARMul_State" where
  "test_imm f instr s =
     (if DESTReg instr = 15 then psr_return s
      else (let (rhs, s) = DPSImmRHS s instr in ARMul_NegZero s (f (LHS s instr) rhs)))"

definition cmp_imm :: "(ARMword \<Rightarrow> ARMword \<Rightarrow> 'm ARMul_State \<Rightarrow> 'm ARMul_State) \<Rightarrow> ARMword \<Rightarrow> 'm ARMul_State \<Rightarrow> 'm ARMul_State" where
  "cmp_imm f instr s =
     (if DESTReg instr = 15 then psr_return s else f (LHS s instr) (DPImmRHS instr) s)"

definition op_20_27 :: "ARMword \<Rightarrow> 'm ARMul_State \<Rightarrow> 'm ARMul_State" where
  "op_20_27 instr s =
     (let op = BITS instr 20 27 in
      if op = 0x20 then dp_imm (\<lambda>c lhs rhs. lhs AND rhs) instr s
      else if op = 0x21 then dps_imm (\<lambda>lhs rhs. lhs AND rhs) instr s
      else if op = 0x22 then dp_imm (\<lambda>c lhs rhs. lhs XOR rhs) instr s
      else if op = 0x23 then dps_imm (\<lambda>lhs rhs. lhs XOR rhs) instr s
      else if op = 0x24 then dp_imm (\<lambda>c lhs rhs. lhs - rhs) instr s
      else if op = 0x25 then subs no_carry instr (LHS s instr) (DPImmRHS instr) s
      else if op = 0x26 then dp_imm (\<lambda>c lhs rhs. rhs - lhs) instr s
      else subs no_carry instr (DPImmRHS instr) (LHS s instr) s)"

definition op_28_2f :: "ARMword \<Rightarrow> 'm ARMul_State \<Rightarrow> 'm ARMul_State" where
  "op_28_2f instr s =
     (let op = BITS instr 20 27 in
      if op = 0x28 then dp_imm (\<lambda>c lhs rhs. lhs + rhs) instr s
      else if op = 0x29 then adds no_carry instr (LHS s instr) (DPImmRHS instr) s
      else if op = 0x2a then dp_imm (\<lambda>c lhs rhs. lhs + rhs + c) instr s
      else if op = 0x2b then adds with_carry instr (LHS s instr) (DPImmRHS instr) s
      else if op = 0x2c then dp_imm (\<lambda>c lhs rhs. lhs - rhs - not_carry c) instr s
      else if op = 0x2d then subs not_carry instr (LHS s instr) (DPImmRHS instr) s
      else if op = 0x2e then dp_imm (\<lambda>c lhs rhs. rhs - lhs - not_carry c) instr s
      else subs not_carry instr (DPImmRHS instr) (LHS s instr) s)"

definition op_30_37 :: "ARMword \<Rightarrow> 'm ARMul_State \<Rightarrow> 'm ARMul_State" where
  "op_30_37 instr s =
     (let op = BITS instr 20 27 in
      if op = 0x30 then s
      else if op = 0x31 then test_imm (\<lambda>lhs rhs. lhs AND rhs) instr s
      else if op = 0x32 then (if DESTReg instr = 15 then ARMul_FixCPSR s instr (DPImmRHS instr) else s)
      else if op = 0x33 then test_imm (\<lambda>lhs rhs. lhs XOR rhs) instr s
      else if op = 0x34 then s
      else if op = 0x35 then cmp_imm cmp instr s
      else if op = 0x36 then (if DESTReg instr = 15 then ARMul_FixSPSR s instr (DPImmRHS instr) else s)
      else cmp_imm cmn instr s)"

definition op_38_3f :: "ARMword \<Rightarrow> 'm ARMul_State \<Rightarrow> 'm ARMul_State" where
  "op_38_3f instr s =
     (let op = BITS instr 20 27 in
      if op = 0x38 then dp_imm (\<lambda>c lhs rhs. lhs OR rhs) instr s
      else if op = 0x39 then dps_imm (\<lambda>lhs rhs. lhs OR rhs) instr s
      else if op = 0x3a then dp_imm (\<lambda>c lhs rhs. rhs) instr s
      else if op = 0x3b then dps_imm (\<lambda>lhs rhs. rhs) instr s
      else if op = 0x3c then dp_imm (\<lambda>c lhs rhs. lhs AND NOT rhs) instr s
      else if op = 0x3d then dps_imm (\<lambda>lhs rhs. lhs AND NOT rhs) instr s
      else if op = 0x3e then dp_imm (\<lambda>c lhs rhs. NOT rhs) instr s
      else dps_imm (\<lambda>lhs rhs. NOT rhs) instr s)"

section \<open>The cases 0x00 to 0x3f of the main switch\<close>

definition data_processing :: "ARMword \<Rightarrow> 'm mmu_ops \<Rightarrow> ARMword \<Rightarrow> 'm ARMul_State \<Rightarrow> 'm ARMul_State option" where
  "data_processing pc M instr s =
     (let op = BITS instr 20 27 in
      if op = 0x00 then op_00 M instr s
      else if op = 0x01 then op_01 M instr s
      else if op = 0x02 then op_02 M instr s
      else if op = 0x03 then op_03 M instr s
      else if op = 0x04 then op_04 M instr s
      else if op = 0x05 then op_05 M instr s
      else if op = 0x06 then op_06 M instr s
      else if op = 0x07 then op_07 M instr s
      else if op = 0x08 then op_08 M instr s
      else if op = 0x09 then op_09 M instr s
      else if op = 0x0a then op_0a M instr s
      else if op = 0x0b then op_0b M instr s
      else if op = 0x0c then op_0c M instr s
      else if op = 0x0d then op_0d M instr s
      else if op = 0x0e then op_0e M instr s
      else if op = 0x0f then op_0f M instr s
      else if op = 0x10 then op_10 M instr s
      else if op = 0x11 then op_11 M instr s
      else if op = 0x12 then op_12 pc M instr s
      else if op = 0x13 then op_13 M instr s
      else if op = 0x14 then op_14 M instr s
      else if op = 0x15 then op_15 M instr s
      else if op = 0x16 then op_16 M instr s
      else if op = 0x17 then op_17 M instr s
      else if op = 0x18 then op_18 M instr s
      else if op = 0x19 then op_19 M instr s
      else if op = 0x1a then op_1a M instr s
      else if op = 0x1b then op_1b M instr s
      else if op = 0x1c then op_1c M instr s
      else if op = 0x1d then op_1d M instr s
      else if op = 0x1e then op_1e M instr s
      else if op = 0x1f then op_1f M instr s
      else Some (if op \<le> 0x27 then op_20_27 instr s
                 else if op \<le> 0x2f then op_28_2f instr s
                 else if op \<le> 0x37 then op_30_37 instr s
                 else op_38_3f instr s))"

section \<open>Condition codes\<close>

text \<open>The condition check of the loop for the codes below \<open>AL\<close>; the code 15 is decoded apart.\<close>

definition cond_passed :: "ARMword \<Rightarrow> 'm ARMul_State \<Rightarrow> bool" where
  "cond_passed cc s =
     (let n = NFlag s \<noteq> 0; z = ZFlag s \<noteq> 0; c = CFlag s \<noteq> 0; v = VFlag s \<noteq> 0 in
      if cc = 0 then z
      else if cc = 1 then \<not> z
      else if cc = 2 then c
      else if cc = 3 then \<not> c
      else if cc = 4 then n
      else if cc = 5 then \<not> n
      else if cc = 6 then v
      else if cc = 7 then \<not> v
      else if cc = 8 then c \<and> \<not> z
      else if cc = 9 then \<not> c \<or> z
      else if cc = 10 then \<not> n \<and> \<not> v \<or> n \<and> v
      else if cc = 11 then n \<and> \<not> v \<or> \<not> n \<and> v
      else if cc = 12 then \<not> n \<and> \<not> v \<and> \<not> z \<or> n \<and> v \<and> \<not> z
      else if cc = 13 then n \<and> \<not> v \<or> \<not> n \<and> v \<or> z
      else cc = 14)"

section \<open>Flags and arithmetic\<close>

lemma drop_bit_eq_0_unat: "drop_bit n (a :: ARMword) = 0 \<longleftrightarrow> unat a < 2 ^ n"
proof -
  have "drop_bit n a = 0 \<longleftrightarrow> unat (drop_bit n a) = 0" by (rule unsigned_eq_0_iff [symmetric])
  also have "\<dots> \<longleftrightarrow> unat a < 2 ^ n" by (simp only: unsigned_drop_bit_eq) (simp add: drop_bit_eq_div div_eq_0_iff take_bit_nat_eq_self unat_less_2p32 [simplified])
  finally show ?thesis .
qed

lemma drop_bit_or_eq_0:
  fixes a b :: ARMword
  shows "drop_bit n a OR drop_bit n b = 0 \<longleftrightarrow> unat a < 2 ^ n \<and> unat b < 2 ^ n"
  by (simp add: or_eq_0_iff drop_bit_eq_0_unat)

lemma sint_less_pow:
  assumes "unat (w :: ARMword) < 2 ^ n" "n \<le> 31"
  shows "0 \<le> sint w" "sint w < 2 ^ n"
proof -
  obtain x where x: "unat w = x" by blast
  have "(2 :: nat) ^ n \<le> 2 ^ 31" using assms(2) by (intro power_increasing) auto
  then have "sint w = int x" using assms(1) by (simp add: sint_conv_unat x)
  moreover have "int x < 2 ^ n" using assms(1) unfolding x by (metis of_nat_less_iff of_nat_numeral of_nat_power)
  ultimately show "0 \<le> sint w" "sint w < 2 ^ n" by simp_all
qed

lemma flag_frames:
  "CFlag (ARMul_AddOverflow s a b r) = CFlag s" "CFlag (ARMul_SubOverflow s a b r) = CFlag s"
  by (simp_all add: ARMul_AddOverflow_def ARMul_SubOverflow_def)

lemma add_flags_arith:
  fixes lhs rhs :: ARMword
  assumes "dest = lhs + rhs + of_bool c"
  shows "ZFlag (add_flags lhs rhs dest s) = of_bool (dest = 0)"
    and "NFlag (add_flags lhs rhs dest s) = of_bool (bit dest 31)"
    and "CFlag (add_flags lhs rhs dest s) = of_bool (2 ^ 32 \<le> unat lhs + unat rhs + of_bool c)"
    and "VFlag (add_flags lhs rhs dest s) = of_bool (sint lhs + sint rhs + of_bool c \<notin> {- (2 ^ 31) ..< 2 ^ 31})"
proof -
  let ?short = "drop_bit 30 (lhs OR rhs) = 0"
  have b: "unat lhs < 2 ^ 30" "unat rhs < 2 ^ 30" if ?short
    using that unfolding drop_bit_or drop_bit_or_eq_0 by simp_all
  have pos: "\<not> bit dest 31" if ?short
    using b [OF that] unat_add_carry [of "of_bool c" lhs rhs] assms by (cases c) (auto simp: bit31_conv_unat)
  show "ZFlag (add_flags lhs rhs dest s) = of_bool (dest = 0)"
    by (simp add: add_flags_def ARMul_AddOverflow_def ARMul_AddCarry_def Let_def)
  show "NFlag (add_flags lhs rhs dest s) = of_bool (bit dest 31)"
    using pos by (auto simp: add_flags_def ARMul_AddOverflow_def ARMul_AddCarry_def Let_def NEG_conv_bit)
  show "CFlag (add_flags lhs rhs dest s) = of_bool (2 ^ 32 \<le> unat lhs + unat rhs + of_bool c)"
  proof (cases ?short)
    case True then show ?thesis using b by (cases c) (simp_all add: add_flags_def)
  next
    case False then show ?thesis unfolding add_flags_def Let_def assms by (simp only: if_P if_not_P flag_frames ARMul_AddCarry_arith simp_thms)
  qed
  show "VFlag (add_flags lhs rhs dest s) = of_bool (sint lhs + sint rhs + of_bool c \<notin> {- (2 ^ 31) ..< 2 ^ 31})"
  proof (cases ?short)
    case True
    then have "0 \<le> sint lhs" "sint lhs < 2 ^ 30" "0 \<le> sint rhs" "sint rhs < 2 ^ 30"
      using b sint_less_pow [of _ 30] by simp_all
    then show ?thesis using True by (cases c) (auto simp: add_flags_def)
  next
    case False then show ?thesis
      using AddOverflow_sint [of lhs rhs c] assms by (simp add: add_flags_def ARMul_AddOverflow_def Let_def)
  qed
qed

lemma sub_flags_arith:
  fixes lhs rhs :: ARMword
  assumes "dest = lhs - rhs - of_bool b"
  shows "CFlag (sub_flags lhs rhs dest s) = of_bool (unat rhs + of_bool b \<le> unat lhs)"
    and "VFlag (sub_flags lhs rhs dest s) = of_bool (sint lhs - sint rhs - of_bool b \<notin> {- (2 ^ 31) ..< 2 ^ 31})"
proof -
  let ?short = "\<not> (lhs \<ge> rhs \<or> drop_bit 31 (rhs OR lhs) \<noteq> 0)"
  have short: "unat lhs < unat rhs" "unat lhs < 2 ^ 31" "unat rhs < 2 ^ 31" if ?short
    using that unfolding drop_bit_or drop_bit_or_eq_0 de_Morgan_disj not_not by (simp_all add: word_le_nat_alt)
  show "CFlag (sub_flags lhs rhs dest s) = of_bool (unat rhs + of_bool b \<le> unat lhs)"
  proof (cases ?short)
    case True then show ?thesis using short(1) by (simp add: sub_flags_def)
  next
    case False
    then have "CFlag (sub_flags lhs rhs dest s) = CFlag (ARMul_SubCarry s lhs rhs dest)"
      by (simp add: sub_flags_def flag_frames)
    then show ?thesis by (simp only: assms ARMul_SubCarry_arith)
  qed
  show "VFlag (sub_flags lhs rhs dest s) = of_bool (sint lhs - sint rhs - of_bool b \<notin> {- (2 ^ 31) ..< 2 ^ 31})"
  proof (cases ?short)
    case True
    then have "0 \<le> sint lhs" "sint lhs < 2 ^ 31" "0 \<le> sint rhs" "sint rhs < 2 ^ 31"
      using short sint_less_pow [of _ 31] by simp_all
    then show ?thesis using True by (cases b) (auto simp: sub_flags_def)
  next
    case False then show ?thesis
      using SubOverflow_sint [of lhs rhs b] assms by (simp add: sub_flags_def ARMul_SubOverflow_def)
  qed
qed

lemma sub_flags_frame:
  "ZFlag (sub_flags lhs rhs dest s) = ZFlag s" "NFlag (sub_flags lhs rhs dest s) = NFlag s"
  by (simp_all add: sub_flags_def ARMul_SubOverflow_def ARMul_SubCarry_def)

lemma NegZero_flags:
  "ZFlag (ARMul_NegZero s r) = of_bool (r = 0)" "NFlag (ARMul_NegZero s r) = of_bool (bit r 31)"
  "CFlag (ARMul_NegZero s r) = CFlag s" "VFlag (ARMul_NegZero s r) = VFlag s" "Reg (ARMul_NegZero s r) = Reg s"
  by (auto simp: ARMul_NegZero_def)

lemma flags_set_reg:
  "ZFlag (set_reg r v s) = ZFlag s" "NFlag (set_reg r v s) = NFlag s" "CFlag (set_reg r v s) = CFlag s"
  "VFlag (set_reg r v s) = VFlag s"
  by (simp_all add: set_reg_def)

lemmas arith_flag_simps = sub_flags_frame NegZero_flags flags_set_reg

lemma carry_cases: "no_carry x = of_bool False" "not_carry x = of_bool (x = 0)" "with_carry (of_bool b) = of_bool b"
  by (simp_all add: no_carry_def not_carry_def with_carry_def)

lemma unat_add_mod: "unat (a + b + of_bool c :: ARMword) = (unat a + unat b + of_bool c) mod 2 ^ 32"
  using unat_add_carry [of "of_bool c" a b] unat_less_2p32 [of a] unat_less_2p32 [of b] by (cases c) (auto simp: le_mod_geq)

lemma unat_sub_mod: "unat (a - b - of_bool c :: ARMword) = (unat a + 2 ^ 32 - unat b - of_bool c) mod 2 ^ 32"
  using unat_sub_borrow [of "of_bool c" a b] unat_less_2p32 [of a] unat_less_2p32 [of b] by (cases c) (auto simp: le_mod_geq)

lemma sint_neg_bit: "sint (w :: ARMword) < 0 \<longleftrightarrow> bit w 31"
proof -
  obtain x where "unat w = x" by blast
  then show ?thesis using unat_less_2p32 [of w] by (auto simp: sint_conv_unat bit31_conv_unat)
qed

lemma WRITESDEST_reg:
  assumes "DESTReg instr \<noteq> 15"
  shows "Reg (WRITESDEST instr d s) (DESTReg instr) = d" "ZFlag (WRITESDEST instr d s) = of_bool (d = 0)"
    "NFlag (WRITESDEST instr d s) = of_bool (sint d < 0)" "CFlag (WRITESDEST instr d s) = CFlag s"
    "VFlag (WRITESDEST instr d s) = VFlag s"
  unfolding WRITESDEST_def if_not_P [OF assms] by (simp_all only: arith_flag_simps sint_neg_bit) (simp add: set_reg_def)

text \<open>
  C9: ADDS and ADCS (and with them CMN) with a destination other than the PC: the result
  is the sum modulo 2^32, N and Z describe it, C is the carry out of the unsigned sum
  and V says that the signed sum does not fit in 32 bits.  This includes the shortcut
  that skips the carry computation when both operands are below 2^30.
\<close>

theorem adds_correct:
  fixes lhs rhs :: ARMword
  assumes "CFlag s \<le> 1" "DESTReg instr \<noteq> 15" "c \<in> {no_carry, with_carry}"
  defines "t \<equiv> adds c instr lhs rhs s" and "k \<equiv> unat (c (CFlag s))"
  shows "unat (Reg t (DESTReg instr)) = (unat lhs + unat rhs + k) mod 2 ^ 32
    \<and> ZFlag t = of_bool (Reg t (DESTReg instr) = 0) \<and> NFlag t = of_bool (sint (Reg t (DESTReg instr)) < 0)
    \<and> CFlag t = of_bool (2 ^ 32 \<le> unat lhs + unat rhs + k)
    \<and> VFlag t = of_bool (sint lhs + sint rhs + int k \<notin> {- (2 ^ 31) ..< 2 ^ 31})"
proof -
  obtain b where b: "c (CFlag s) = of_bool b"
    using assms(1,3) le_1_of_bool [of "CFlag s"] by (elim insertE) (metis carry_cases(1), metis carry_cases(3), simp)
  have k: "k = of_bool b" by (simp add: k_def b)
  show ?thesis
    unfolding t_def k of_nat_of_bool adds_def Let_def b WRITESDEST_reg [OF assms(2)] add_flags_arith [OF refl] unat_add_mod by blast
qed

theorem adds_correct_witness:
  "let t = adds with_carry 0xe0b10002 0xffffffff 0 ((ARMul_NewState ())\<lparr>CFlag := 1\<rparr>)
   in CFlag t = 1 \<and> VFlag t = 0"
  using adds_correct [of "(ARMul_NewState ())\<lparr>CFlag := 1\<rparr>" "0xe0b10002" with_carry "0xffffffff" 0]
  by (simp add: with_carry_def DESTReg_def BITS_conv take_bit_eq_mod drop_bit_eq_div)

text \<open>
  C10: SUBS, SBCS, RSBS and RSCS: the result is the difference modulo 2^32, C says that no
  borrow occurs and V that the signed difference does not fit, also on the shortcut
  for an unsigned smaller non-negative left operand.
\<close>

theorem subs_correct:
  fixes lhs rhs :: ARMword and s :: "'m ARMul_State"
  assumes "DESTReg instr \<noteq> 15" "c \<in> {no_carry, not_carry}"
  defines "t \<equiv> subs c instr lhs rhs s" and "k \<equiv> unat (c (CFlag s))"
  shows "unat (Reg t (DESTReg instr)) = (unat lhs + 2 ^ 32 - unat rhs - k) mod 2 ^ 32
    \<and> ZFlag t = of_bool (Reg t (DESTReg instr) = 0) \<and> NFlag t = of_bool (sint (Reg t (DESTReg instr)) < 0)
    \<and> CFlag t = of_bool (unat rhs + k \<le> unat lhs)
    \<and> VFlag t = of_bool (sint lhs - sint rhs - int k \<notin> {- (2 ^ 31) ..< 2 ^ 31})"
proof -
  obtain b where b: "c (CFlag s) = of_bool b"
    using assms(2) by (elim insertE) (metis carry_cases(1), metis carry_cases(2), simp)
  have k: "k = of_bool b" by (simp add: k_def b)
  show ?thesis
    unfolding t_def k of_nat_of_bool subs_def Let_def b WRITESDEST_reg [OF assms(1)] sub_flags_arith [OF refl] unat_sub_mod by blast
qed

theorem subs_correct_witness:
  "let t = subs no_carry 0xe0510002 3 5 (ARMul_NewState ())
   in unat (Reg t 0) = 4294967294 \<and> CFlag t = 0 \<and> VFlag t = 0"
  using subs_correct [of "0xe0510002" no_carry 3 5 "ARMul_NewState ()"]
  by (simp add: no_carry_def DESTReg_def BITS_conv take_bit_eq_mod drop_bit_eq_div)

text \<open>What each condition code says of two operands that were compared.\<close>

definition compare_holds :: "ARMword \<Rightarrow> ARMword \<Rightarrow> ARMword \<Rightarrow> bool" where
  "compare_holds cc a b =
     (if cc = 0 then a = b
      else if cc = 1 then a \<noteq> b
      else if cc = 2 then unat a \<ge> unat b
      else if cc = 3 then unat a < unat b
      else if cc = 8 then unat a > unat b
      else if cc = 9 then unat a \<le> unat b
      else if cc = 10 then sint a \<ge> sint b
      else if cc = 11 then sint a < sint b
      else if cc = 12 then sint a > sint b
      else if cc = 13 then sint a \<le> sint b
      else cc = 14)"

lemma cmp_flags:
  fixes a b :: ARMword and s :: "'m ARMul_State"
  defines "t \<equiv> cmp a b s"
  shows "ZFlag t = of_bool (a = b)" "NFlag t = of_bool (bit (a - b) 31)" "CFlag t = of_bool (unat b \<le> unat a)"
    "VFlag t = of_bool (sint a - sint b \<notin> {- (2 ^ 31) ..< 2 ^ 31})"
proof -
  let ?s = "ARMul_NegZero s (a - b)"
  have d: "a - b = a - b - of_bool False" by simp
  show "ZFlag t = of_bool (a = b)" "NFlag t = of_bool (bit (a - b) 31)"
    unfolding t_def cmp_def Let_def by (simp_all only: arith_flag_simps) simp
  show "CFlag t = of_bool (unat b \<le> unat a)"
    "VFlag t = of_bool (sint a - sint b \<notin> {- (2 ^ 31) ..< 2 ^ 31})"
    using sub_flags_arith [OF d, of ?s] unfolding t_def cmp_def Let_def of_bool_eq(1) add_0_right diff_0_right by blast+
qed

lemma sub_sign:
  fixes a b :: ARMword
  shows "(bit (a - b) 31 \<longleftrightarrow> sint a - sint b \<notin> {- (2 ^ 31) ..< 2 ^ 31}) \<longleftrightarrow> sint b \<le> sint a"
proof -
  obtain x y z where n: "unat a = x" "unat b = y" "unat (a - b) = z" by blast
  have "z = (if y \<le> x then x - y else x + 4294967296 - y)"
    using unat_sub_borrow [of 0 a b] n by (simp split: if_splits)
  moreover have "x < 4294967296" "y < 4294967296" using unat_less_2p32 n by blast+
  ultimately show ?thesis by (auto simp: sint_conv_unat bit31_conv_unat n split: if_splits)
qed

text \<open>
  C5: after CMP, every condition code that speaks of the comparison holds exactly when its
  relation holds of the operands: equality, the unsigned and the signed orders.
\<close>

theorem cmp_conditions:
  assumes "cc \<in> {0, 1, 2, 3, 8, 9, 10, 11, 12, 13, 14}"
  shows "cond_passed cc (cmp a b s) \<longleftrightarrow> compare_holds cc a b"
proof -
  have eq: "a = b \<longleftrightarrow> unat a = unat b" "a = b \<longleftrightarrow> sint a = sint b"
    by (rule word_unat_eq_iff, rule word_eq_iff_signed)
  obtain N V where "NFlag (cmp a b s) = of_bool N" "VFlag (cmp a b s) = of_bool V" and sg: "(N \<longleftrightarrow> V) \<longleftrightarrow> sint b \<le> sint a"
    using cmp_flags(2,4) sub_sign by blast
  then have "NFlag (cmp a b s) \<noteq> 0 \<longleftrightarrow> N" "VFlag (cmp a b s) \<noteq> 0 \<longleftrightarrow> V"
    "ZFlag (cmp a b s) \<noteq> 0 \<longleftrightarrow> a = b" "CFlag (cmp a b s) \<noteq> 0 \<longleftrightarrow> unat b \<le> unat a"
    unfolding cmp_flags by simp_all
  note f = this
  from assms show ?thesis
    unfolding cond_passed_def compare_holds_def Let_def f
    apply (elim insertE emptyE)
    subgoal by simp
    subgoal by simp
    subgoal by simp
    subgoal by (simp add: not_le)
    subgoal using eq(1) by (simp add: less_le) metis
    subgoal using eq(1) by (simp add: not_le) (metis le_less)
    subgoal using sg by simp blast
    subgoal using sg by (simp add: not_le [symmetric]) blast
    subgoal using sg eq(2) by (simp add: less_le) metis
    subgoal using sg eq(2) by (cases "sint a = sint b") (auto simp: not_le)
    subgoal by simp
    done
qed

theorem cmp_conditions_witness:
  "cond_passed 11 (cmp 0xffffffff 1 (ARMul_NewState ())) \<and> cond_passed 8 (cmp 0xffffffff 1 (ARMul_NewState ()))"
  using cmp_conditions [of 11 "0xffffffff" 1 "ARMul_NewState ()"] cmp_conditions [of 8 "0xffffffff" 1 "ARMul_NewState ()"]
  by (simp add: compare_holds_def)

lemma unat_push_bit_1:
  assumes "w AND 0x80000000 = (0 :: ARMword)"
  shows "unat (push_bit 1 w) = 2 * unat w"
proof -
  have "unat w < 2 ^ 31" using assms bit31_conv_unat [of w] by (simp add: and_flag_iff)
  then show ?thesis by (subst unsigned_push_bit_eq) (simp add: push_bit_eq_mult take_bit_eq_mod)
qed

lemma clz_loop_bounds:
  assumes "w \<noteq> 0"
  shows "\<exists>n < 32. clz_loop w r = r + n \<and> 2 ^ (31 - n) \<le> unat w \<and> unat w < 2 ^ (32 - n)"
  using assms
proof (induction w r rule: clz_loop.induct)
  case (1 w r)
  show ?case
  proof (cases "w AND 0x80000000 = 0")
    case True
    have "push_bit 1 w \<noteq> 0"
      using unat_double [OF True "1.prems"] unsigned_eq_0_iff [of "push_bit 1 w"] by (metis not_less_zero)
    with "1.IH" True "1.prems" obtain n where n: "n < 32" "clz_loop (push_bit 1 w) (r + 1) = r + 1 + n"
      "2 ^ (31 - n) \<le> 2 * unat w" "2 * unat w < 2 ^ (32 - n)"
      unfolding unat_push_bit_1 [OF True] by blast
    have "unat w > 0" using "1.prems" by (simp add: unat_gt_0)
    then have "n \<noteq> 31" using n(4) by (intro notI) simp
    then obtain m where m: "31 - n = Suc m" "32 - n = Suc (Suc m)" "31 - Suc n = m" "32 - Suc n = Suc m" "Suc n < 32"
      using n(1) by (intro that [of "30 - n"]) auto
    have "clz_loop w r = r + Suc n" using n(2) True "1.prems" by (subst clz_loop.simps) simp
    then show ?thesis using n(3,4) m by (intro exI [of _ "Suc n"]) simp
  next
    case False
    then have "clz_loop w r = r" by (simp add: clz_loop.simps)
    moreover have "2 ^ 31 \<le> unat w" using False by (simp add: and_flag_iff bit31_conv_unat)
    ultimately show ?thesis using unat_less_2p32 [of w] by (intro exI [of _ 0]) simp
  qed
qed

text \<open>
  The loop of CLZ ends and counts the leading zeroes: the result n is 32 for 0, and
  otherwise 2^(31-n) is the highest power of two not above the operand.
\<close>

theorem CLZ_correct:
  "let x = Reg s (unat (BITS instr 0 3)); n = unat (Reg (CLZ instr s) (unat (BITS instr 12 15)))
   in if x = 0 then n = 32 else n < 32 \<and> 2 ^ (31 - n) \<le> unat x \<and> unat x < 2 ^ (32 - n)"
proof (cases "Reg s (unat (BITS instr 0 3)) = 0")
  case True then show ?thesis by (simp add: CLZ_def set_reg_def)
next
  case False
  from clz_loop_bounds [OF False, of 0] obtain n where n: "n < 32" "clz_loop (Reg s (unat (BITS instr 0 3))) 0 = n"
    "2 ^ (31 - n) \<le> unat (Reg s (unat (BITS instr 0 3)))" "unat (Reg s (unat (BITS instr 0 3))) < 2 ^ (32 - n)" by auto
  have "unat (of_nat n :: ARMword) = n" using n(1) by (simp add: unsigned_of_nat take_bit_nat_eq_self)
  then show ?thesis using False n by (simp add: CLZ_def set_reg_def)
qed

text \<open>Saturation to 32 signed bits.\<close>

definition sat32 :: "int \<Rightarrow> int" where
  "sat32 i = max (- (2 ^ 31)) (min (2 ^ 31 - 1) i)"

lemma sint_saturate:
  fixes a b :: ARMword
  shows "sint (if AddOverflow a b (a + b) then saturate (a + b) else a + b) = sat32 (sint a + sint b)"
    and "sint (if SubOverflow a b (a - b) then saturate (a - b) else a - b) = sat32 (sint a - sint b)"
proof -
  obtain x y z where n: "unat a = x" "unat b = y" "unat (a + b) = z" by blast
  have "z = (if x + y < 4294967296 then x + y else x + y - 4294967296)"
    using unat_add_carry [of 0 a b] n by (simp split: if_splits)
  moreover have "x < 4294967296" "y < 4294967296" using unat_less_2p32 n by blast+
  ultimately show "sint (if AddOverflow a b (a + b) then saturate (a + b) else a + b) = sat32 (sint a + sint b)"
    using AddOverflow_sint [of a b False] sint_conv_unat [of a, unfolded n] sint_conv_unat [of b, unfolded n]
      sint_conv_unat [of "a + b", unfolded n]
    by (auto simp: bit31_conv_unat n sat32_def saturate_def split: if_splits)
next
  obtain x y z where n: "unat a = x" "unat b = y" "unat (a - b) = z" by blast
  have "z = (if y \<le> x then x - y else x + 4294967296 - y)"
    using unat_sub_borrow [of 0 a b] n by (simp split: if_splits)
  moreover have "x < 4294967296" "y < 4294967296" using unat_less_2p32 n by blast+
  ultimately show "sint (if SubOverflow a b (a - b) then saturate (a - b) else a - b) = sat32 (sint a - sint b)"
    using SubOverflow_sint [of a b False] sint_conv_unat [of a, unfolded n] sint_conv_unat [of b, unfolded n]
      sint_conv_unat [of "a - b", unfolded n]
    by (auto simp: bit31_conv_unat n sat32_def saturate_def split: if_splits)
qed

lemma AddOverflow_sat: "AddOverflow a b (a + b) \<longleftrightarrow> sat32 (sint a + sint b) \<noteq> sint a + sint b"
  using AddOverflow_sint [of a b False] by (auto simp: sat32_def)

lemma SubOverflow_sat: "SubOverflow a b (a - b) \<longleftrightarrow> sat32 (sint a - sint b) \<noteq> sint a - sint b"
  using SubOverflow_sint [of a b False] by (auto simp: sat32_def)

text \<open>
  C28: QADD, QSUB, QDADD and QDSUB compute the exact sum or difference, saturated to 32
  signed bits (the doubling saturates on its own), and QADD and QSUB set the sticky
  flag exactly when the result saturates.
\<close>

theorem saturating_arithmetic:
  fixes s :: "'m ARMul_State" and i :: ARMword
  defines "d \<equiv> (\<lambda>t :: 'm ARMul_State. sint (Reg t (unat (BITS i 12 15))))"
    and "a \<equiv> sint (Reg s (unat (BITS i 0 3)))" and "b \<equiv> sint (Reg s (unat (BITS i 16 19)))"
  shows "d (QADD i s) = sat32 (a + b) \<and> d (QSUB i s) = sat32 (a - b)
    \<and> d (QD_insn (\<lambda>a b. a + b) AddOverflow i s) = sat32 (a + sat32 (b + b))
    \<and> d (QD_insn (\<lambda>a b. a - b) SubOverflow i s) = sat32 (a - sat32 (b + b))
    \<and> SFlag (QADD i s) = (if sat32 (a + b) = a + b then SFlag s else 1)
    \<and> SFlag (QSUB i s) = (if sat32 (a - b) = a - b then SFlag s else 1)"
proof (intro conjI)
  show "d (QADD i s) = sat32 (a + b)" "d (QSUB i s) = sat32 (a - b)"
    unfolding d_def a_def b_def QADD_def QSUB_def Let_def set_reg_def sint_saturate [symmetric] by simp_all
  show "d (QD_insn (\<lambda>a b. a + b) AddOverflow i s) = sat32 (a + sat32 (b + b))"
    "d (QD_insn (\<lambda>a b. a - b) SubOverflow i s) = sat32 (a - sat32 (b + b))"
    unfolding d_def a_def b_def QD_insn_def Let_def set_reg_def sint_saturate [symmetric] by simp_all
  show "SFlag (QADD i s) = (if sat32 (a + b) = a + b then SFlag s else 1)"
    "SFlag (QSUB i s) = (if sat32 (a - b) = a - b then SFlag s else 1)"
    unfolding a_def b_def QADD_def QSUB_def Let_def set_reg_def AddOverflow_sat SubOverflow_sat
    by (simp_all add: set_s_def)
qed

end
