(* ===== verification/Arm_V6.thy ===== *)
theory Arm_V6
  imports Arm_Operand
begin

text \<open>
  The ARMv6 instructions that \<open>handle_v6_insn\<close> of \<open>armemu.c\<close> emulates: sign and zero
  extensions with their additions, and the byte reversals.
\<close>

section \<open>The ARMv6 instructions\<close>

text \<open>The rotation that bits 4 to 11 ask for; \<open>-1\<close> in the code is None.\<close>

definition v6_ror :: "ARMword \<Rightarrow> nat option" where
  "v6_ror instr =
     (let b = BITS instr 4 11 in
      if b = 0x07 then Some 0 else if b = 0x47 then Some 8
      else if b = 0x87 then Some 16 else if b = 0xc7 then Some 24 else None)"

definition v6_6a :: "ARMword \<Rightarrow> 'm ARMul_State \<Rightarrow> bool \<times> 'm ARMul_State" where
  "v6_6a instr s =
     (let nRd = unat (BITS instr 12 15) in
      case v6_ror instr of None \<Rightarrow> (False, s)
      | Some ror \<Rightarrow>
         (let Rm = drop_bit ror (Reg s (unat (BITS instr 0 3))) AND 0xFF;
              Rm = (if Rm AND 0x80 \<noteq> 0 then Rm OR 0xffffff00 else Rm)
          in (True, set_reg nRd (if BITS instr 16 19 = 0xf then Rm else Reg s nRd + Rm) s)))"

definition v6_6b :: "ARMword \<Rightarrow> 'm ARMul_State \<Rightarrow> bool \<times> 'm ARMul_State" where
  "v6_6b instr s =
     (let nRd = unat (BITS instr 12 15) in
      if BITS instr 4 11 = 0xf3 then
        (True, set_reg (DESTReg instr)
           (push_bit 24 (RHS s instr AND 0xFF) OR push_bit 8 (RHS s instr AND 0xFF00)
            OR drop_bit 8 (RHS s instr AND 0xFF0000) OR drop_bit 24 (RHS s instr AND 0xFF000000)) s)
      else if BITS instr 4 11 = 0xfb then
        (True, set_reg (DESTReg instr)
           (push_bit 8 (RHS s instr AND 0xFF) OR drop_bit 8 (RHS s instr AND 0xFF00)
            OR push_bit 8 (RHS s instr AND 0xFF0000) OR drop_bit 8 (RHS s instr AND 0xFF000000)) s)
      else case v6_ror instr of None \<Rightarrow> (False, s)
      | Some ror \<Rightarrow>
         (let Rm = drop_bit ror (Reg s (unat (BITS instr 0 3))) AND 0xFFFF;
              Rm = (if Rm AND 0x8000 \<noteq> 0 then Rm OR 0xffff0000 else Rm)
          in (True, set_reg nRd (if BITS instr 16 19 = 0xf then Rm
                                 else Reg s (unat (BITS instr 16 19)) + Rm) s)))"

definition v6_6e :: "ARMword \<Rightarrow> 'm ARMul_State \<Rightarrow> bool \<times> 'm ARMul_State" where
  "v6_6e instr s =
     (let nRd = unat (BITS instr 12 15) in
      case v6_ror instr of None \<Rightarrow> (False, s)
      | Some ror \<Rightarrow>
         (let Rm = drop_bit ror (Reg s (unat (BITS instr 0 3))) AND 0xFF
          in (True, set_reg nRd (if BITS instr 16 19 = 0xf then Rm
                                 else Reg s (unat (BITS instr 16 19)) + Rm) s)))"

definition v6_6f :: "ARMword \<Rightarrow> 'm ARMul_State \<Rightarrow> bool \<times> 'm ARMul_State" where
  "v6_6f instr s =
     (let nRd = unat (BITS instr 12 15); n = unat (8 * BITS instr 10 11) in
      case v6_ror instr of None \<Rightarrow> (False, s)
      | Some ror \<Rightarrow>
         (let Rm = drop_bit ror (Reg s (unat (BITS instr 0 3))) AND 0xFFFF
          in (True, set_reg nRd (if BITS instr 16 19 = 0xf then drop_bit n Rm AND 0x0000FFFF
                                 else drop_bit n (Reg s (unat (BITS instr 16 19))) + Rm) s)))"

text \<open>The Boolean says that the instruction was handled; every other case only prints.\<close>

definition handle_v6_insn :: "'m ARMul_State \<Rightarrow> ARMword \<Rightarrow> bool \<times> 'm ARMul_State" where
  "handle_v6_insn s instr =
     (let op = BITS instr 20 27 in
      if op = 0x6a then v6_6a instr s
      else if op = 0x6b then v6_6b instr s
      else if op = 0x6e then v6_6e instr s
      else if op = 0x6f then v6_6f instr s
      else (False, s))"

end
