(* ===== verification/Arm_Transfer.thy ===== *)
theory Arm_Transfer
  imports Arm_Alu Arm_V6
begin

text \<open>
  The data transfers of the main switch of \<^verbatim>\<open>ARMul_Emulate32\<close> (\<^verbatim>\<open>arch/arm/common/armemu.c\<close>): the
  cases 0x40 to 0x9f, eight to a definition, on top of the transfer functions of \<open>Arm_LdSt\<close>.
\<close>

section \<open>Single transfers\<close>

definition LSImmRHS :: "ARMword \<Rightarrow> ARMword" where
  "LSImmRHS instr = BITS instr 0 11"

definition load_ubyte :: "'m mmu_ops \<Rightarrow> 'm ARMul_State \<Rightarrow> ARMword \<Rightarrow> ARMword \<Rightarrow> (bool \<times> 'm ARMul_State) option" where
  "load_ubyte M s instr address = LoadByte M s instr address False"

text \<open>The user-mode forms lower \<open>NtransSig\<close> for the transfer; afterwards it follows the mode.\<close>

definition translated :: "('m ARMul_State \<Rightarrow> 'm ARMul_State option) \<Rightarrow> 'm ARMul_State \<Rightarrow> 'm ARMul_State option" where
  "translated f s =
     map_option (\<lambda>s. s\<lparr>NtransSig := if Mode s AND 3 \<noteq> 0 then HIGH else LOW\<rparr>) (f (s\<lparr>NtransSig := LOW\<rparr>))"

definition post_imm :: "bool \<Rightarrow> ('m mmu_ops \<Rightarrow> 'm ARMul_State \<Rightarrow> ARMword \<Rightarrow> ARMword \<Rightarrow> (bool \<times> 'm ARMul_State) option) \<Rightarrow> 'm mmu_ops \<Rightarrow> ARMword \<Rightarrow> 'm ARMul_State \<Rightarrow> 'm ARMul_State option" where
  "post_imm up f M instr s =
     (let lhs = LHS s instr
      in map_option (upd_base instr (offset_addr up lhs (LSImmRHS instr))) (f M s instr lhs))"

definition pre_imm :: "bool \<Rightarrow> ('m mmu_ops \<Rightarrow> 'm ARMul_State \<Rightarrow> ARMword \<Rightarrow> ARMword \<Rightarrow> (bool \<times> 'm ARMul_State) option) \<Rightarrow> 'm mmu_ops \<Rightarrow> ARMword \<Rightarrow> 'm ARMul_State \<Rightarrow> 'm ARMul_State option" where
  "pre_imm up f M instr s = map_option snd (f M s instr (offset_addr up (LHS s instr) (LSImmRHS instr)))"

definition prewb_imm :: "bool \<Rightarrow> ('m mmu_ops \<Rightarrow> 'm ARMul_State \<Rightarrow> ARMword \<Rightarrow> ARMword \<Rightarrow> (bool \<times> 'm ARMul_State) option) \<Rightarrow> 'm mmu_ops \<Rightarrow> ARMword \<Rightarrow> 'm ARMul_State \<Rightarrow> 'm ARMul_State option" where
  "prewb_imm up f M instr s =
     (let temp = offset_addr up (LHS s instr) (LSImmRHS instr)
      in map_option (upd_base instr temp) (f M s instr temp))"

text \<open>With a register offset the stores read the offset after the transfer, the loads before it.\<close>

definition post_reg_store :: "bool \<Rightarrow> ('m mmu_ops \<Rightarrow> 'm ARMul_State \<Rightarrow> ARMword \<Rightarrow> ARMword \<Rightarrow> (bool \<times> 'm ARMul_State) option) \<Rightarrow> 'm mmu_ops \<Rightarrow> ARMword \<Rightarrow> 'm ARMul_State \<Rightarrow> 'm ARMul_State option" where
  "post_reg_store up f M instr s =
     (let lhs = LHS s instr
      in map_option (\<lambda>(wb, s). upd_base instr (offset_addr up lhs (LSRegRHS s instr)) (wb, s)) (f M s instr lhs))"

definition post_reg_load :: "bool \<Rightarrow> ('m mmu_ops \<Rightarrow> 'm ARMul_State \<Rightarrow> ARMword \<Rightarrow> ARMword \<Rightarrow> (bool \<times> 'm ARMul_State) option) \<Rightarrow> 'm mmu_ops \<Rightarrow> ARMword \<Rightarrow> 'm ARMul_State \<Rightarrow> 'm ARMul_State option" where
  "post_reg_load up f M instr s =
     (let lhs = LHS s instr; temp = offset_addr up lhs (LSRegRHS s instr)
      in map_option (upd_base instr temp) (f M s instr lhs))"

definition pre_reg :: "bool \<Rightarrow> ('m mmu_ops \<Rightarrow> 'm ARMul_State \<Rightarrow> ARMword \<Rightarrow> ARMword \<Rightarrow> (bool \<times> 'm ARMul_State) option) \<Rightarrow> 'm mmu_ops \<Rightarrow> ARMword \<Rightarrow> 'm ARMul_State \<Rightarrow> 'm ARMul_State option" where
  "pre_reg up f M instr s = map_option snd (f M s instr (offset_addr up (LHS s instr) (LSRegRHS s instr)))"

definition prewb_reg :: "bool \<Rightarrow> ('m mmu_ops \<Rightarrow> 'm ARMul_State \<Rightarrow> ARMword \<Rightarrow> ARMword \<Rightarrow> (bool \<times> 'm ARMul_State) option) \<Rightarrow> 'm mmu_ops \<Rightarrow> ARMword \<Rightarrow> 'm ARMul_State \<Rightarrow> 'm ARMul_State option" where
  "prewb_reg up f M instr s =
     (let temp = offset_addr up (LHS s instr) (LSRegRHS s instr)
      in map_option (upd_base instr temp) (f M s instr temp))"

subsection \<open>Immediate offsets, 0x40 to 0x5f\<close>

definition op_40_47 :: "'m mmu_ops \<Rightarrow> ARMword \<Rightarrow> 'm ARMul_State \<Rightarrow> 'm ARMul_State option" where
  "op_40_47 M instr s =
     (let op = BITS instr 20 27 in
      if op = 0x40 then post_imm False StoreWord M instr s
      else if op = 0x41 then post_imm False LoadWord M instr s
      else if op = 0x42 then translated (post_imm False StoreWord M instr) s
      else if op = 0x43 then translated (post_imm False LoadWord M instr) s
      else if op = 0x44 then post_imm False StoreByte M instr s
      else if op = 0x45 then post_imm False load_ubyte M instr s
      else if op = 0x46 then translated (post_imm False StoreByte M instr) s
      else translated (post_imm False load_ubyte M instr) s)"

definition op_48_4f :: "'m mmu_ops \<Rightarrow> ARMword \<Rightarrow> 'm ARMul_State \<Rightarrow> 'm ARMul_State option" where
  "op_48_4f M instr s =
     (let op = BITS instr 20 27 in
      if op = 0x48 then post_imm True StoreWord M instr s
      else if op = 0x49 then post_imm True LoadWord M instr s
      else if op = 0x4a then translated (post_imm True StoreWord M instr) s
      else if op = 0x4b then translated (post_imm True LoadWord M instr) s
      else if op = 0x4c then post_imm True StoreByte M instr s
      else if op = 0x4d then post_imm True load_ubyte M instr s
      else if op = 0x4e then translated (post_imm True StoreByte M instr) s
      else translated (post_imm True load_ubyte M instr) s)"

definition op_50_57 :: "'m mmu_ops \<Rightarrow> ARMword \<Rightarrow> 'm ARMul_State \<Rightarrow> 'm ARMul_State option" where
  "op_50_57 M instr s =
     (let op = BITS instr 20 27 in
      if op = 0x50 then pre_imm False StoreWord M instr s
      else if op = 0x51 then pre_imm False LoadWord M instr s
      else if op = 0x52 then prewb_imm False StoreWord M instr s
      else if op = 0x53 then prewb_imm False LoadWord M instr s
      else if op = 0x54 then pre_imm False StoreByte M instr s
      else if op = 0x55 then pre_imm False load_ubyte M instr s
      else if op = 0x56 then prewb_imm False StoreByte M instr s
      else prewb_imm False load_ubyte M instr s)"

definition op_58_5f :: "'m mmu_ops \<Rightarrow> ARMword \<Rightarrow> 'm ARMul_State \<Rightarrow> 'm ARMul_State option" where
  "op_58_5f M instr s =
     (let op = BITS instr 20 27 in
      if op = 0x58 then pre_imm True StoreWord M instr s
      else if op = 0x59 then pre_imm True LoadWord M instr s
      else if op = 0x5a then prewb_imm True StoreWord M instr s
      else if op = 0x5b then prewb_imm True LoadWord M instr s
      else if op = 0x5c then pre_imm True StoreByte M instr s
      else if op = 0x5d then pre_imm True load_ubyte M instr s
      else if op = 0x5e then prewb_imm True StoreByte M instr s
      else prewb_imm True load_ubyte M instr s)"

subsection \<open>Register offsets, 0x60 to 0x7f\<close>

text \<open>
  Bit 4 marks the media instructions; the cases marked with \<open>v6\<close> try the ARMv6 instructions
  before they take the undefined instruction exception.
\<close>

definition undef_v6 :: "bool \<Rightarrow> ARMword \<Rightarrow> 'm ARMul_State \<Rightarrow> 'm ARMul_State" where
  "undef_v6 v6 instr s =
     (let (done, s) = (if v6 \<and> is_v6 s \<noteq> 0 then handle_v6_insn s instr else (False, s))
      in if done then s else ARMul_UndefInstr s instr)"

definition op_60_67 :: "'m mmu_ops \<Rightarrow> ARMword \<Rightarrow> 'm ARMul_State \<Rightarrow> 'm ARMul_State option" where
  "op_60_67 M instr s =
     (let op = BITS instr 20 27 in
      if BIT instr 4 \<noteq> 0 then Some (undef_v6 (op \<in> {0x61, 0x62, 0x63, 0x65, 0x66, 0x67}) instr s)
      else if op = 0x60 then post_reg_store False StoreWord M instr s
      else if op = 0x61 then post_reg_load False LoadWord M instr s
      else if op = 0x62 then translated (post_reg_store False StoreWord M instr) s
      else if op = 0x63 then translated (post_reg_load False LoadWord M instr) s
      else if op = 0x64 then post_reg_store False StoreByte M instr s
      else if op = 0x65 then post_reg_load False load_ubyte M instr s
      else if op = 0x66 then translated (post_reg_store False StoreByte M instr) s
      else translated (post_reg_load False load_ubyte M instr) s)"

definition op_68_6f :: "'m mmu_ops \<Rightarrow> ARMword \<Rightarrow> 'm ARMul_State \<Rightarrow> 'm ARMul_State option" where
  "op_68_6f M instr s =
     (let op = BITS instr 20 27 in
      if BIT instr 4 \<noteq> 0 then Some (undef_v6 (op \<in> {0x68, 0x6a, 0x6b, 0x6c, 0x6e, 0x6f}) instr s)
      else if op = 0x68 then post_reg_store True StoreWord M instr s
      else if op = 0x69 then post_reg_load True LoadWord M instr s
      else if op = 0x6a then translated (post_reg_store True StoreWord M instr) s
      else if op = 0x6b then translated (post_reg_load True LoadWord M instr) s
      else if op = 0x6c then post_reg_store True StoreByte M instr s
      else if op = 0x6d then post_reg_load True load_ubyte M instr s
      else if op = 0x6e then translated (post_reg_store True StoreByte M instr) s
      else translated (post_reg_load True load_ubyte M instr) s)"

definition op_70_77 :: "'m mmu_ops \<Rightarrow> ARMword \<Rightarrow> 'm ARMul_State \<Rightarrow> 'm ARMul_State option" where
  "op_70_77 M instr s =
     (let op = BITS instr 20 27 in
      if BIT instr 4 \<noteq> 0 then Some (undef_v6 (op \<in> {0x70, 0x74, 0x75}) instr s)
      else if op = 0x70 then pre_reg False StoreWord M instr s
      else if op = 0x71 then pre_reg False LoadWord M instr s
      else if op = 0x72 then prewb_reg False StoreWord M instr s
      else if op = 0x73 then prewb_reg False LoadWord M instr s
      else if op = 0x74 then pre_reg False StoreByte M instr s
      else if op = 0x75 then pre_reg False load_ubyte M instr s
      else if op = 0x76 then prewb_reg False StoreByte M instr s
      else prewb_reg False load_ubyte M instr s)"

definition op_78_7f :: "'m mmu_ops \<Rightarrow> ARMword \<Rightarrow> 'm ARMul_State \<Rightarrow> 'm ARMul_State option" where
  "op_78_7f M instr s =
     (let op = BITS instr 20 27 in
      if BIT instr 4 \<noteq> 0 then
        Some (if op = 0x7f \<and> BITS instr 0 19 = 0xfdefe then OSHandleSWI_breakpoint s
              else undef_v6 (op \<in> {0x78, 0x7a, 0x7c}) instr s)
      else if op = 0x78 then pre_reg True StoreWord M instr s
      else if op = 0x79 then pre_reg True LoadWord M instr s
      else if op = 0x7a then prewb_reg True StoreWord M instr s
      else if op = 0x7b then prewb_reg True LoadWord M instr s
      else if op = 0x7c then pre_reg True StoreByte M instr s
      else if op = 0x7d then pre_reg True load_ubyte M instr s
      else if op = 0x7e then prewb_reg True StoreByte M instr s
      else prewb_reg True load_ubyte M instr s)"

section \<open>Block transfers, 0x80 to 0x9f\<close>

text \<open>The number of bytes of the registers in the list, and the base register.\<close>

definition LSMNumRegs :: "ARMword \<Rightarrow> ARMword" where
  "LSMNumRegs instr =
     ucast (ARMul_BitList (unat (BITS instr 0 7))) + ucast (ARMul_BitList (unat (BITS instr 8 15)))"

abbreviation LSBase :: "'m ARMul_State \<Rightarrow> ARMword \<Rightarrow> ARMword" where
  "LSBase s instr \<equiv> Reg s (LHSReg instr)"

definition op_80_87 :: "'m mmu_ops \<Rightarrow> ARMword \<Rightarrow> 'm ARMul_State \<Rightarrow> 'm ARMul_State option" where
  "op_80_87 M instr s =
     (let op = BITS instr 20 27 in
      if op = 0x80 then StoreMult M s instr (LSBase s instr - LSMNumRegs instr + 4) 0
      else if op = 0x81 then LoadMult M s instr (LSBase s instr - LSMNumRegs instr + 4) 0
      else if op = 0x82 then StoreMult M s instr (LSBase s instr - LSMNumRegs instr + 4) (LSBase s instr - LSMNumRegs instr)
      else if op = 0x83 then LoadMult M s instr (LSBase s instr - LSMNumRegs instr + 4) (LSBase s instr - LSMNumRegs instr)
      else if op = 0x84 then StoreSMult M s instr (LSBase s instr - LSMNumRegs instr + 4) 0
      else if op = 0x85 then LoadSMult M s instr (LSBase s instr - LSMNumRegs instr + 4) 0
      else if op = 0x86 then StoreSMult M s instr (LSBase s instr - LSMNumRegs instr + 4) (LSBase s instr - LSMNumRegs instr)
      else LoadSMult M s instr (LSBase s instr - LSMNumRegs instr + 4) (LSBase s instr - LSMNumRegs instr))"

definition op_88_8f :: "'m mmu_ops \<Rightarrow> ARMword \<Rightarrow> 'm ARMul_State \<Rightarrow> 'm ARMul_State option" where
  "op_88_8f M instr s =
     (let op = BITS instr 20 27 in
      if op = 0x88 then StoreMult M s instr (LSBase s instr) 0
      else if op = 0x89 then LoadMult M s instr (LSBase s instr) 0
      else if op = 0x8a then StoreMult M s instr (LSBase s instr) (LSBase s instr + LSMNumRegs instr)
      else if op = 0x8b then LoadMult M s instr (LSBase s instr) (LSBase s instr + LSMNumRegs instr)
      else if op = 0x8c then StoreSMult M s instr (LSBase s instr) 0
      else if op = 0x8d then LoadSMult M s instr (LSBase s instr) 0
      else if op = 0x8e then StoreSMult M s instr (LSBase s instr) (LSBase s instr + LSMNumRegs instr)
      else LoadSMult M s instr (LSBase s instr) (LSBase s instr + LSMNumRegs instr))"

definition op_90_97 :: "'m mmu_ops \<Rightarrow> ARMword \<Rightarrow> 'm ARMul_State \<Rightarrow> 'm ARMul_State option" where
  "op_90_97 M instr s =
     (let op = BITS instr 20 27 in
      if op = 0x90 then StoreMult M s instr (LSBase s instr - LSMNumRegs instr) 0
      else if op = 0x91 then LoadMult M s instr (LSBase s instr - LSMNumRegs instr) 0
      else if op = 0x92 then StoreMult M s instr (LSBase s instr - LSMNumRegs instr) (LSBase s instr - LSMNumRegs instr)
      else if op = 0x93 then LoadMult M s instr (LSBase s instr - LSMNumRegs instr) (LSBase s instr - LSMNumRegs instr)
      else if op = 0x94 then StoreSMult M s instr (LSBase s instr - LSMNumRegs instr) 0
      else if op = 0x95 then LoadSMult M s instr (LSBase s instr - LSMNumRegs instr) 0
      else if op = 0x96 then StoreSMult M s instr (LSBase s instr - LSMNumRegs instr) (LSBase s instr - LSMNumRegs instr)
      else LoadSMult M s instr (LSBase s instr - LSMNumRegs instr) (LSBase s instr - LSMNumRegs instr))"

definition op_98_9f :: "'m mmu_ops \<Rightarrow> ARMword \<Rightarrow> 'm ARMul_State \<Rightarrow> 'm ARMul_State option" where
  "op_98_9f M instr s =
     (let op = BITS instr 20 27 in
      if op = 0x98 then StoreMult M s instr (LSBase s instr + 4) 0
      else if op = 0x99 then LoadMult M s instr (LSBase s instr + 4) 0
      else if op = 0x9a then StoreMult M s instr (LSBase s instr + 4) (LSBase s instr + LSMNumRegs instr)
      else if op = 0x9b then LoadMult M s instr (LSBase s instr + 4) (LSBase s instr + LSMNumRegs instr)
      else if op = 0x9c then StoreSMult M s instr (LSBase s instr + 4) 0
      else if op = 0x9d then LoadSMult M s instr (LSBase s instr + 4) 0
      else if op = 0x9e then StoreSMult M s instr (LSBase s instr + 4) (LSBase s instr + LSMNumRegs instr)
      else LoadSMult M s instr (LSBase s instr + 4) (LSBase s instr + LSMNumRegs instr))"

section \<open>The cases 0x40 to 0x9f of the main switch\<close>

definition data_transfer :: "'m mmu_ops \<Rightarrow> ARMword \<Rightarrow> 'm ARMul_State \<Rightarrow> 'm ARMul_State option" where
  "data_transfer M instr s =
     (let op = BITS instr 20 27 in
      if op \<le> 0x47 then op_40_47 M instr s
      else if op \<le> 0x4f then op_48_4f M instr s
      else if op \<le> 0x57 then op_50_57 M instr s
      else if op \<le> 0x5f then op_58_5f M instr s
      else if op \<le> 0x67 then op_60_67 M instr s
      else if op \<le> 0x6f then op_68_6f M instr s
      else if op \<le> 0x77 then op_70_77 M instr s
      else if op \<le> 0x7f then op_78_7f M instr s
      else if op \<le> 0x87 then op_80_87 M instr s
      else if op \<le> 0x8f then op_88_8f M instr s
      else if op \<le> 0x97 then op_90_97 M instr s
      else op_98_9f M instr s)"

end
