(* ===== verification/Arm_Coproc.thy ===== *)
theory Arm_Coproc
  imports Arm_LdSt
begin

text \<open>
  The coprocessor interface: the handshake of \<^verbatim>\<open>ARMul_LDC\<close>, \<^verbatim>\<open>ARMul_STC\<close>, \<^verbatim>\<open>ARMul_MCR\<close>, \<^verbatim>\<open>ARMul_MRC\<close>
  and \<^verbatim>\<open>ARMul_CDP\<close> (\<^verbatim>\<open>arch/arm/common/armsupp.c\<close>) with the handlers in the tables of the state, and
  the handlers of \<^verbatim>\<open>arch/arm/common/armcopro.c\<close>: the empty coprocessor, the MMU registers of the ARM7
  and the validation coprocessor, with the functions that install them.  The locale
  \<open>busy_coprocessor\<close> is what a handler owes the waiting loop; the two handlers that make the
  processor wait are shown to keep it.
\<close>

section \<open>The interface\<close>

abbreviation (input) ARMul_FIRST :: ARMword where "ARMul_FIRST \<equiv> 0"
abbreviation (input) ARMul_TRANSFER :: ARMword where "ARMul_TRANSFER \<equiv> 1"
abbreviation (input) ARMul_BUSY :: ARMword where "ARMul_BUSY \<equiv> 2"
abbreviation (input) ARMul_DATA :: ARMword where "ARMul_DATA \<equiv> 3"
abbreviation (input) ARMul_INTERRUPT :: ARMword where "ARMul_INTERRUPT \<equiv> 4"
abbreviation (input) ARMul_DONE :: ARMword where "ARMul_DONE \<equiv> 0"
abbreviation (input) ARMul_CANT :: ARMword where "ARMul_CANT \<equiv> 1"
abbreviation (input) ARMul_INC :: ARMword where "ARMul_INC \<equiv> 3"

text \<open>
  The handler tables of the state, indexed by the coprocessor number.  A handler gets the
  type of the call and the instruction; those that return data through a pointer get the
  value at the pointer and return the new one.  \<open>None\<close> means that the emulator exits.
  \<open>CPAccess\<close> is \<open>xscale_cp15_cp_access_allowed\<close>, asked on the XScale only.
\<close>

record 'm cp_ops =
  LDC :: "nat \<Rightarrow> ARMword \<Rightarrow> ARMword \<Rightarrow> ARMword \<Rightarrow> 'm ARMul_State \<Rightarrow> (ARMword \<times> 'm ARMul_State) option"
  STC :: "nat \<Rightarrow> ARMword \<Rightarrow> ARMword \<Rightarrow> ARMword \<Rightarrow> 'm ARMul_State \<Rightarrow> (ARMword \<times> ARMword \<times> 'm ARMul_State) option"
  MRC :: "nat \<Rightarrow> ARMword \<Rightarrow> ARMword \<Rightarrow> ARMword \<Rightarrow> 'm ARMul_State \<Rightarrow> (ARMword \<times> ARMword \<times> 'm ARMul_State) option"
  MCR :: "nat \<Rightarrow> ARMword \<Rightarrow> ARMword \<Rightarrow> ARMword \<Rightarrow> 'm ARMul_State \<Rightarrow> (ARMword \<times> 'm ARMul_State) option"
  CDP :: "nat \<Rightarrow> ARMword \<Rightarrow> ARMword \<Rightarrow> 'm ARMul_State \<Rightarrow> (ARMword \<times> 'm ARMul_State) option"
  CPAccess :: "'m ARMul_State \<Rightarrow> nat \<Rightarrow> bool"

definition CPNum :: "ARMword \<Rightarrow> nat" where
  "CPNum instr = unat (BITS instr 8 11)"

definition LSCOff :: "ARMword \<Rightarrow> ARMword" where
  "LSCOff instr = push_bit 2 (BITS instr 0 7)"

definition CP_ACCESS_ALLOWED :: "'m cp_ops \<Rightarrow> 'm ARMul_State \<Rightarrow> nat \<Rightarrow> bool" where
  "CP_ACCESS_ALLOWED C s cp \<longleftrightarrow> cp \<ge> 14 \<or> is_XScale s = 0 \<or> CPAccess C s cp"

text \<open>The macros of the file \<open>armsupp.c\<close>, which is compiled without \<open>MODE32\<close>.\<close>

definition VECTORACCESS :: "ARMword \<Rightarrow> 'm ARMul_State \<Rightarrow> bool" where
  "VECTORACCESS address s \<longleftrightarrow> address < 0x20 \<and> Mode s \<le> 3 \<and> prog32Sig s \<noteq> 0"

definition ADDREXCEPT :: "ARMword \<Rightarrow> 'm ARMul_State \<Rightarrow> bool" where
  "ADDREXCEPT address s \<longleftrightarrow> address > 0x03ffffff \<and> data32Sig s = 0"

definition INTERNALABORT :: "ARMword \<Rightarrow> 'm ARMul_State \<Rightarrow> 'm ARMul_State" where
  "INTERNALABORT address s =
     s\<lparr>Aborted := if address < 0x20 then ARMul_DataAbortV else ARMul_AddrExceptnV\<rparr>"

definition supp_TAKEABORT :: "'m ARMul_State \<Rightarrow> 'm ARMul_State" where
  "supp_TAKEABORT s =
     (if Aborted s = ARMul_AddrExceptnV then ARMul_Abort s ARMul_AddrExceptnV else ARMul_Abort s ARMul_DataAbortV)"

definition CPTAKEABORT :: "'m ARMul_State \<Rightarrow> 'm ARMul_State" where
  "CPTAKEABORT s =
     (if Aborted s = 0 then ARMul_Abort s ARMul_UndefinedInstrV
      else if Aborted s = ARMul_AddrExceptnV then ARMul_Abort s ARMul_AddrExceptnV
      else ARMul_Abort s ARMul_DataAbortV)"

section \<open>Busy-waiting\<close>

text \<open>
  The loop the five functions share: \<open>h\<close> is the handler with its instruction.  The result
  carries \<open>True\<close> when an interrupt ended the wait.  A coprocessor that stays busy without an
  interrupt keeps the loop going for ever, which is \<open>None\<close>.
\<close>

partial_function (option) busy_wait ::
    "(ARMword \<Rightarrow> 'd \<Rightarrow> 'm ARMul_State \<Rightarrow> (ARMword \<times> 'd \<times> 'm ARMul_State) option) \<Rightarrow>
     ARMword \<Rightarrow> 'd \<Rightarrow> 'm ARMul_State \<Rightarrow> (bool \<times> ARMword \<times> 'd \<times> 'm ARMul_State) option" where
  "busy_wait h cpab d s =
     (if cpab \<noteq> ARMul_BUSY then Some (False, cpab, d, s)
      else
       (let (p, s) = IntPending (ARMul_Icycles s 1) in
        if p \<noteq> 0 then map_option (\<lambda>(cpab, d', s). (True, cpab, d, s)) (h ARMul_INTERRUPT d s)
        else Option.bind (h ARMul_BUSY d s) (\<lambda>(cpab, d, s). busy_wait h cpab d s)))"

definition cp_start ::
    "(ARMword \<Rightarrow> 'd \<Rightarrow> 'm ARMul_State \<Rightarrow> (ARMword \<times> 'd \<times> 'm ARMul_State) option) \<Rightarrow>
     'd \<Rightarrow> 'm ARMul_State \<Rightarrow> (bool \<times> ARMword \<times> 'd \<times> 'm ARMul_State) option" where
  "cp_start h d s = Option.bind (h ARMul_FIRST d s) (\<lambda>(cpab, d, s). busy_wait h cpab d s)"

text \<open>A handler that gets its data by value.\<close>

definition by_value ::
    "(ARMword \<Rightarrow> ARMword \<Rightarrow> 'm ARMul_State \<Rightarrow> (ARMword \<times> 'm ARMul_State) option) \<Rightarrow>
     ARMword \<Rightarrow> ARMword \<Rightarrow> 'm ARMul_State \<Rightarrow> (ARMword \<times> ARMword \<times> 'm ARMul_State) option" where
  "by_value h type d s = map_option (\<lambda>(cpab, s). (cpab, d, s)) (h type (if type = ARMul_INTERRUPT then 0 else d) s)"

text \<open>A handler without data.\<close>

definition no_data :: "(ARMword \<Rightarrow> 'm ARMul_State \<Rightarrow> (ARMword \<times> 'm ARMul_State) option) \<Rightarrow>
    ARMword \<Rightarrow> unit \<Rightarrow> 'm ARMul_State \<Rightarrow> (ARMword \<times> unit \<times> 'm ARMul_State) option" where
  "no_data h type d s = map_option (\<lambda>(c, s). (c, d, s)) (h type s)"

section \<open>Transfers between memory and a coprocessor\<close>

definition faulted :: "'m ARMul_State \<Rightarrow> bool" where
  "faulted s \<longleftrightarrow> abortSig s \<noteq> 0 \<or> Aborted s \<noteq> 0"

definition cp_finish :: "ARMword \<Rightarrow> 'm ARMul_State \<Rightarrow> 'm ARMul_State" where
  "cp_finish instr s =
     (let s = (if BIT instr 21 \<noteq> 0 \<and> \<not> (faulted s \<and> lateabtSig s = LOW) then set_reg (LHSReg instr) (Base s) s else s)
      in if faulted s then supp_TAKEABORT s else s)"

partial_function (option) ldc_loop ::
    "'m mmu_ops \<Rightarrow> (ARMword \<Rightarrow> 'm ARMul_State \<Rightarrow> (ARMword \<times> 'm ARMul_State) option) \<Rightarrow>
     ARMword \<Rightarrow> ARMword \<Rightarrow> 'm ARMul_State \<Rightarrow> 'm ARMul_State option" where
  "ldc_loop M h cpab address s =
     (if cpab \<noteq> ARMul_INC then Some s
      else Option.bind (ARMul_LoadWordN M s (address + 4)) (\<lambda>(data, s).
        if faulted s then Some s
        else Option.bind (h data s) (\<lambda>(cpab, s). ldc_loop M h cpab (address + 4) s)))"

definition ARMul_LDC :: "'m cp_ops \<Rightarrow> 'm mmu_ops \<Rightarrow> ARMword \<Rightarrow> ARMword \<Rightarrow> 'm ARMul_State \<Rightarrow> 'm ARMul_State option" where
  "ARMul_LDC C M instr address s =
     (if \<not> CP_ACCESS_ALLOWED C s (CPNum instr) then Some (ARMul_UndefInstr s instr)
      else
       (let h = (\<lambda>type d. LDC C (CPNum instr) type instr d);
            s = (if ADDREXCEPT address s then INTERNALABORT address s else s) in
        do {
          (irq, cpab, d, s) \<leftarrow> cp_start (by_value h) 0 s;
          if irq then Some s
          else if cpab = ARMul_CANT then Some (CPTAKEABORT s)
          else do {
            (cpab, s) \<leftarrow> h ARMul_TRANSFER 0 s;
            (data, s) \<leftarrow> ARMul_LoadWordN M s address;
            s \<leftarrow> (if faulted s then Some s
                  else do {
                    (cpab, s) \<leftarrow> h ARMul_DATA data (BUSUSEDINCPCN s);
                    ldc_loop M (h ARMul_DATA) cpab address s });
            Some (cp_finish instr s) } }))"

partial_function (option) stc_loop ::
    "'m mmu_ops \<Rightarrow> (ARMword \<Rightarrow> 'm ARMul_State \<Rightarrow> (ARMword \<times> ARMword \<times> 'm ARMul_State) option) \<Rightarrow>
     ARMword \<Rightarrow> ARMword \<Rightarrow> ARMword \<Rightarrow> 'm ARMul_State \<Rightarrow> 'm ARMul_State option" where
  "stc_loop M h cpab data address s =
     (if cpab \<noteq> ARMul_INC then Some s
      else Option.bind (h data s) (\<lambda>(cpab, data, s).
        Option.bind (ARMul_StoreWordN M s (address + 4) data) (\<lambda>s.
          if faulted s then Some s else stc_loop M h cpab data (address + 4) s)))"

text \<open>\<open>data\<close> is not initialised in the code; \<open>junk\<close> is the value it happens to have.\<close>

definition ARMul_STC :: "ARMword \<Rightarrow> 'm cp_ops \<Rightarrow> 'm mmu_ops \<Rightarrow> ARMword \<Rightarrow> ARMword \<Rightarrow> 'm ARMul_State \<Rightarrow> 'm ARMul_State option" where
  "ARMul_STC junk C M instr address s =
     (if \<not> CP_ACCESS_ALLOWED C s (CPNum instr) then Some (ARMul_UndefInstr s instr)
      else
       (let h = (\<lambda>type d. STC C (CPNum instr) type instr d);
            abt = (\<lambda>s. if ADDREXCEPT address s \<or> VECTORACCESS address s then INTERNALABORT address s else s) in
        do {
          (irq, cpab, data, s) \<leftarrow> cp_start h junk (abt s);
          if irq then Some s
          else if cpab = ARMul_CANT then Some (CPTAKEABORT s)
          else do {
            (cpab, data, s) \<leftarrow> h ARMul_DATA data (BUSUSEDINCPCN (abt s));
            s \<leftarrow> ARMul_StoreWordN M s address data;
            s \<leftarrow> (if faulted s then Some s else stc_loop M (h ARMul_DATA) cpab data address s);
            Some (cp_finish instr s) } }))"

section \<open>Register transfers and operations\<close>

definition ARMul_MCR :: "'m cp_ops \<Rightarrow> ARMword \<Rightarrow> ARMword \<Rightarrow> 'm ARMul_State \<Rightarrow> 'm ARMul_State option" where
  "ARMul_MCR C instr source s =
     (if \<not> CP_ACCESS_ALLOWED C s (CPNum instr) then Some (ARMul_UndefInstr s instr)
      else do {
        (irq, cpab, d, s) \<leftarrow> cp_start (by_value (\<lambda>type d. MCR C (CPNum instr) type instr d)) source s;
        Some (if irq then s
              else if cpab = ARMul_CANT then ARMul_Abort s ARMul_UndefinedInstrV
              else ARMul_Ccycles (BUSUSEDINCPCN s) 1) })"

definition ARMul_MRC :: "'m cp_ops \<Rightarrow> ARMword \<Rightarrow> 'm ARMul_State \<Rightarrow> (ARMword \<times> 'm ARMul_State) option" where
  "ARMul_MRC C instr s =
     (if \<not> CP_ACCESS_ALLOWED C s (CPNum instr) then Some (0xffffffff, ARMul_UndefInstr s instr)
      else do {
        (irq, cpab, result, s) \<leftarrow> cp_start (\<lambda>type d. MRC C (CPNum instr) type instr d) 0 s;
        Some (if irq then (0, s)
              else if cpab = ARMul_CANT then (let s = ARMul_Abort s ARMul_UndefinedInstrV in (ECC s, s))
              else (result, ARMul_Icycles (ARMul_Ccycles (BUSUSEDINCPCN s) 1) 1)) })"

definition ARMul_CDP :: "'m cp_ops \<Rightarrow> ARMword \<Rightarrow> 'm ARMul_State \<Rightarrow> 'm ARMul_State option" where
  "ARMul_CDP C instr s =
     (if \<not> CP_ACCESS_ALLOWED C s (CPNum instr) then Some (ARMul_UndefInstr s instr)
      else do {
        (irq, cpab, d, s) \<leftarrow> cp_start (no_data (\<lambda>type. CDP C (CPNum instr) type instr)) () s;
        Some (if irq then s
              else if cpab = ARMul_CANT then ARMul_Abort s ARMul_UndefinedInstrV
              else s\<lparr>NextInstr := NextInstr s OR 1\<rparr>) })"

section \<open>The handlers of \<open>armcopro.c\<close>\<close>

text \<open>The static variables of the file; \<open>board\<close> are the devices of the machine.\<close>

record 'z cp_hw =
  MMUReg :: "nat \<Rightarrow> ARMword"
  ValReg :: "nat \<Rightarrow> ARMword"
  ldc_words :: ARMword
  stc_words :: ARMword
  val_finish :: ARMword
  int_finish :: ARMword
  board :: 'z

type_synonym 'z cstate = "'z cp_hw ustate"

definition cp_hw_of :: "'z cstate \<Rightarrow> 'z cp_hw" where
  "cp_hw_of s = dev (iosys (mach s))"

definition upd_cp :: "('z cp_hw \<Rightarrow> 'z cp_hw) \<Rightarrow> 'z cstate \<Rightarrow> 'z cstate" where
  "upd_cp f s = s\<lparr>mach := (mach s)\<lparr>iosys := (iosys (mach s))\<lparr>dev := f (dev (iosys (mach s)))\<rparr>\<rparr>\<rparr>"

definition NoCoPro3R :: "ARMword \<Rightarrow> ARMword \<Rightarrow> 'm ARMul_State \<Rightarrow> (ARMword \<times> 'm ARMul_State) option" where
  "NoCoPro3R type instr s = Some (ARMul_CANT, s)"

definition NoCoPro4R :: "ARMword \<Rightarrow> ARMword \<Rightarrow> ARMword \<Rightarrow> 'm ARMul_State \<Rightarrow> (ARMword \<times> 'm ARMul_State) option" where
  "NoCoPro4R type instr data s = Some (ARMul_CANT, s)"

definition NoCoPro4W :: "ARMword \<Rightarrow> ARMword \<Rightarrow> ARMword \<Rightarrow> 'm ARMul_State \<Rightarrow> (ARMword \<times> ARMword \<times> 'm ARMul_State) option" where
  "NoCoPro4W type instr data s = Some (ARMul_CANT, data, s)"

definition MMUInit :: "'z cstate \<Rightarrow> 'z cstate option" where
  "MMUInit s =
     Some (upd_cp (\<lambda>c. c\<lparr>MMUReg := (MMUReg c)(1 := push_bit 4 (prog32Sig s) OR push_bit 5 (data32Sig s)
       OR push_bit 6 1 OR push_bit 7 (bigendSig s))\<rparr>) s)"

definition MMUMRC :: "ARMword \<Rightarrow> ARMword \<Rightarrow> ARMword \<Rightarrow> 'z cstate \<Rightarrow> (ARMword \<times> ARMword \<times> 'z cstate) option" where
  "MMUMRC type instr value s = Some (ARMul_DONE, a71_mmu_mrc s instr, s)"

definition MMUMCR :: "'z cp_hw mmu_hw bus_ops \<Rightarrow> ARMword \<Rightarrow> ARMword \<Rightarrow> ARMword \<Rightarrow> 'z cstate \<Rightarrow> (ARMword \<times> 'z cstate) option" where
  "MMUMCR B type instr value s = map_option (\<lambda>s. (ARMul_DONE, s)) (a71_mmu_mcr B s instr value)"

subsection \<open>The validation coprocessor\<close>

definition ValLDC :: "ARMword \<Rightarrow> ARMword \<Rightarrow> ARMword \<Rightarrow> 'z cstate \<Rightarrow> (ARMword \<times> 'z cstate) option" where
  "ValLDC type instr data s =
     Some
      (if type \<noteq> ARMul_DATA then (ARMul_DONE, upd_cp (\<lambda>c. c\<lparr>ldc_words := 0\<rparr>) s)
       else
        (let s = upd_cp (\<lambda>c. c\<lparr>ValReg := (ValReg c)(unat (BITS instr 12 15) := data)\<rparr>) s;
             words = ldc_words (cp_hw_of s) in
         if BIT instr 22 \<noteq> 0
         then (if words \<noteq> 4 then ARMul_INC else ARMul_DONE, upd_cp (\<lambda>c. c\<lparr>ldc_words := words + 1\<rparr>) s)
         else (ARMul_DONE, s)))"

definition ValSTC :: "ARMword \<Rightarrow> ARMword \<Rightarrow> ARMword \<Rightarrow> 'z cstate \<Rightarrow> (ARMword \<times> ARMword \<times> 'z cstate) option" where
  "ValSTC type instr data s =
     Some
      (if type \<noteq> ARMul_DATA then (ARMul_DONE, data, upd_cp (\<lambda>c. c\<lparr>stc_words := 0\<rparr>) s)
       else
        (let data = ValReg (cp_hw_of s) (unat (BITS instr 12 15)); words = stc_words (cp_hw_of s) in
         if BIT instr 22 \<noteq> 0
         then (if words \<noteq> 4 then ARMul_INC else ARMul_DONE, data, upd_cp (\<lambda>c. c\<lparr>stc_words := words + 1\<rparr>) s)
         else (ARMul_DONE, data, s)))"

definition ValMRC :: "ARMword \<Rightarrow> ARMword \<Rightarrow> ARMword \<Rightarrow> 'z cstate \<Rightarrow> (ARMword \<times> ARMword \<times> 'z cstate) option" where
  "ValMRC type instr value s = Some (ARMul_DONE, ValReg (cp_hw_of s) (unat (BITS instr 16 19)), s)"

definition ValMCR :: "ARMword \<Rightarrow> ARMword \<Rightarrow> ARMword \<Rightarrow> 'z cstate \<Rightarrow> (ARMword \<times> 'z cstate) option" where
  "ValMCR type instr value s =
     Some (ARMul_DONE, upd_cp (\<lambda>c. c\<lparr>ValReg := (ValReg c)(unat (BITS instr 16 19) := value)\<rparr>) s)"

definition ValCDP :: "ARMword \<Rightarrow> ARMword \<Rightarrow> 'z cstate \<Rightarrow> (ARMword \<times> 'z cstate) option" where
  "ValCDP type instr s =
     Some
      (if BITS instr 20 23 \<noteq> 0 then (ARMul_CANT, s)
       else if type = ARMul_FIRST then
         (let howlong = ValReg (cp_hw_of s) (unat (BITS instr 0 3))
          in (if howlong = 0 then ARMul_DONE else ARMul_BUSY, upd_cp (\<lambda>c. c\<lparr>val_finish := ARMul_Time s + howlong\<rparr>) s))
       else if type = ARMul_BUSY then
         (if ARMul_Time s \<ge> val_finish (cp_hw_of s) then ARMul_DONE else ARMul_BUSY, s)
       else (ARMul_CANT, s))"

text \<open>The two event handlers; the numbers stand for their addresses.\<close>

definition DoAFIQ :: "'m ARMul_State \<Rightarrow> 'm ARMul_State" where
  "DoAFIQ s = s\<lparr>NfiqSig := LOW\<rparr>"

definition DoAIRQ :: "'m ARMul_State \<Rightarrow> 'm ARMul_State" where
  "DoAIRQ s = s\<lparr>NirqSig := LOW\<rparr>"

abbreviation (input) DoAFIQ_addr :: nat where "DoAFIQ_addr \<equiv> 1"
abbreviation (input) DoAIRQ_addr :: nat where "DoAIRQ_addr \<equiv> 2"

definition event_handler :: "nat \<Rightarrow> 'm ARMul_State \<Rightarrow> 'm ARMul_State" where
  "event_handler f s = (if f = DoAFIQ_addr then DoAFIQ s else if f = DoAIRQ_addr then DoAIRQ s else s)"

definition IntCDP :: "ARMword \<Rightarrow> ARMword \<Rightarrow> 'z cstate \<Rightarrow> (ARMword \<times> 'z cstate) option" where
  "IntCDP type instr s =
     (let howlong = ValReg (cp_hw_of s) (unat (BITS instr 0 3)); op = BITS instr 20 23 in
      Some
       (if op = 0 then
          (if type = ARMul_FIRST
           then (if howlong = 0 then ARMul_DONE else ARMul_BUSY, upd_cp (\<lambda>c. c\<lparr>int_finish := ARMul_Time s + howlong\<rparr>) s)
           else if type = ARMul_BUSY
           then (if ARMul_Time s \<ge> int_finish (cp_hw_of s) then ARMul_DONE else ARMul_BUSY, s)
           else (ARMul_DONE, s))
        else if op = 1 then
          (ARMul_DONE, if howlong = 0 then ARMul_Abort s ARMul_FIQV else ARMul_ScheduleEvent s howlong DoAFIQ_addr)
        else if op = 2 then
          (ARMul_DONE, if howlong = 0 then ARMul_Abort s ARMul_IRQV else ARMul_ScheduleEvent s howlong DoAIRQ_addr)
        else if op = 3 then (ARMul_DONE, s\<lparr>NfiqSig := HIGH\<rparr>)
        else if op = 4 then (ARMul_DONE, s\<lparr>NirqSig := HIGH\<rparr>)
        else if op = 5 then
          (ARMul_DONE, upd_cp (\<lambda>c. c\<lparr>ValReg := (ValReg c)(unat (BITS instr 0 3) := ARMul_Time s)\<rparr>) s)
        else (ARMul_CANT, s)))"

section \<open>Installing the handlers\<close>

text \<open>
  What \<open>ARMul_CoProAttach\<close> is given for one coprocessor; \<open>None\<close> is a null pointer.  The
  tables \<open>CPExit\<close>, \<open>CPRead\<close> and \<open>CPWrite\<close>, which only the XScale fills, are not modelled.
\<close>

record 'm cp_unit =
  u_init :: "('m ARMul_State \<Rightarrow> 'm ARMul_State option) option"
  u_ldc :: "(ARMword \<Rightarrow> ARMword \<Rightarrow> ARMword \<Rightarrow> 'm ARMul_State \<Rightarrow> (ARMword \<times> 'm ARMul_State) option) option"
  u_stc :: "(ARMword \<Rightarrow> ARMword \<Rightarrow> ARMword \<Rightarrow> 'm ARMul_State \<Rightarrow> (ARMword \<times> ARMword \<times> 'm ARMul_State) option) option"
  u_mrc :: "(ARMword \<Rightarrow> ARMword \<Rightarrow> ARMword \<Rightarrow> 'm ARMul_State \<Rightarrow> (ARMword \<times> ARMword \<times> 'm ARMul_State) option) option"
  u_mcr :: "(ARMword \<Rightarrow> ARMword \<Rightarrow> ARMword \<Rightarrow> 'm ARMul_State \<Rightarrow> (ARMword \<times> 'm ARMul_State) option) option"
  u_cdp :: "(ARMword \<Rightarrow> ARMword \<Rightarrow> 'm ARMul_State \<Rightarrow> (ARMword \<times> 'm ARMul_State) option) option"

type_synonym 'm cp_tables = "'m cp_ops \<times> (nat \<Rightarrow> ('m ARMul_State \<Rightarrow> 'm ARMul_State option) option)"

definition install :: "nat \<Rightarrow> 'f option \<Rightarrow> (nat \<Rightarrow> 'f) \<Rightarrow> nat \<Rightarrow> 'f" where
  "install n f t = (case f of None \<Rightarrow> t | Some g \<Rightarrow> t(n := g))"

definition ARMul_CoProAttach :: "nat \<Rightarrow> 'm cp_unit \<Rightarrow> 'm cp_tables \<Rightarrow> 'm cp_tables" where
  "ARMul_CoProAttach n u = (\<lambda>(C, CPInit).
     (C\<lparr>LDC := install n (u_ldc u) (LDC C), STC := install n (u_stc u) (STC C),
        MRC := install n (u_mrc u) (MRC C), MCR := install n (u_mcr u) (MCR C),
        CDP := install n (u_cdp u) (CDP C)\<rparr>,
      case u_init u of None \<Rightarrow> CPInit | Some f \<Rightarrow> CPInit(n := Some f)))"

definition ARMul_CoProDetach :: "nat \<Rightarrow> 'm cp_tables \<Rightarrow> 'm cp_tables" where
  "ARMul_CoProDetach n T =
     (let (C, CPInit) = ARMul_CoProAttach n
            \<lparr>u_init = None, u_ldc = Some NoCoPro4R, u_stc = Some NoCoPro4W, u_mrc = Some NoCoPro4W,
             u_mcr = Some NoCoPro4R, u_cdp = Some NoCoPro3R\<rparr> T
      in (C, CPInit(n := None)))"

definition no_unit :: "'m cp_unit" where
  "no_unit = \<lparr>u_init = None, u_ldc = None, u_stc = None, u_mrc = None, u_mcr = None, u_cdp = None\<rparr>"

text \<open>
  The tables \<open>ARMul_CoProInit\<close> builds.  \<open>D\<close> are the units of the EP9312 (numbers 4 to 6) and
  \<open>X\<close> those of the XScale (6 and 13 to 15), whose handlers are in other files.
\<close>

definition coproc_tables ::
    "bool \<Rightarrow> bool \<Rightarrow> bool \<Rightarrow> (nat \<Rightarrow> 'z cp_hw mmu_hw mem_sys cp_unit) \<Rightarrow> (nat \<Rightarrow> 'z cp_hw mmu_hw mem_sys cp_unit) \<Rightarrow>
     'z cp_hw mmu_hw bus_ops \<Rightarrow> 'z cp_hw mmu_hw mem_sys cp_tables \<Rightarrow> 'z cp_hw mmu_hw mem_sys cp_tables" where
  "coproc_tables ep9312 xscale pxa27x D X B T =
     (let T = fold ARMul_CoProDetach [0..<16] T;
          T = (if ep9312 then fold (\<lambda>n. ARMul_CoProAttach n (D n)) [4, 5, 6] T
               else
                 ARMul_CoProAttach 5 (no_unit\<lparr>u_mrc := Some ValMRC, u_mcr := Some ValMCR, u_cdp := Some IntCDP\<rparr>)
                  (ARMul_CoProAttach 4 (no_unit\<lparr>u_ldc := Some ValLDC, u_stc := Some ValSTC, u_mrc := Some ValMRC,
                     u_mcr := Some ValMCR, u_cdp := Some ValCDP\<rparr>) T));
          T = (if xscale then
                 fold (\<lambda>n. ARMul_CoProAttach n (X n)) ((if pxa27x then [6] else []) @ [13, 14, 15]) T
               else ARMul_CoProAttach 15 (no_unit\<lparr>u_init := Some MMUInit, u_mrc := Some MMUMRC, u_mcr := Some (MMUMCR B)\<rparr>) T);
          T = ARMul_CoProAttach 1 (no_unit\<lparr>u_mrc := Some ValMRC, u_mcr := Some ValMCR\<rparr>) T
      in ARMul_CoProAttach 2 (no_unit\<lparr>u_ldc := Some ValLDC, u_stc := Some ValSTC\<rparr>) T)"

definition ARMul_CoProInit ::
    "bool \<Rightarrow> bool \<Rightarrow> (nat \<Rightarrow> 'z cp_hw mmu_hw mem_sys cp_unit) \<Rightarrow> (nat \<Rightarrow> 'z cp_hw mmu_hw mem_sys cp_unit) \<Rightarrow>
     'z cp_hw mmu_hw bus_ops \<Rightarrow> 'z cp_hw mmu_hw mem_sys cp_tables \<Rightarrow> 'z cstate \<Rightarrow>
     ('z cp_hw mmu_hw mem_sys cp_tables \<times> 'z cstate) option" where
  "ARMul_CoProInit ep9312 pxa27x D X B T s =
     (let T = coproc_tables ep9312 (is_XScale s \<noteq> 0) pxa27x D X B T;
          call = (\<lambda>n s. case snd T n of None \<Rightarrow> Some s | Some f \<Rightarrow> f s)
      in map_option (Pair T) (fold (\<lambda>n r. Option.bind r (call n)) [0..<16] (Some s)))"

section \<open>Busy-waiting ends\<close>

lemma IntPending_none:
  assumes "fst (IntPending s) = 0"
  shows "IntPending s = (0, s)"
  using assms by (auto simp: IntPending_def split: if_splits)

text \<open>What a handler has to promise: it answers, and each busy answer brings it closer to the end.\<close>

locale busy_coprocessor =
  fixes h :: "ARMword \<Rightarrow> 'd \<Rightarrow> 'm ARMul_State \<Rightarrow> (ARMword \<times> 'd \<times> 'm ARMul_State) option"
    and waiting :: "'m ARMul_State \<Rightarrow> bool"
    and remaining :: "'m ARMul_State \<Rightarrow> nat"
  assumes answers: "h type d s \<noteq> None"
    and starts: "h ARMul_FIRST d s = Some (ARMul_BUSY, d', s') \<Longrightarrow> waiting s'"
    and progress: "waiting s \<Longrightarrow> h ARMul_BUSY d (ARMul_Icycles s 1) = Some (ARMul_BUSY, d', s')
      \<Longrightarrow> waiting s' \<and> remaining s' < remaining s"
begin

lemma busy_wait_ends:
  assumes "cpab = ARMul_BUSY \<longrightarrow> waiting s"
  shows "\<exists>irq c d' s'. busy_wait h cpab d s = Some (irq, c, d', s') \<and> (irq \<or> c \<noteq> ARMul_BUSY)"
  using assms
proof (induction "remaining s" arbitrary: cpab d s rule: less_induct)
  case less
  show ?case
  proof (cases "cpab = ARMul_BUSY")
    case False then show ?thesis by (subst busy_wait.simps) auto
  next
    case True
    obtain p t where p: "IntPending (ARMul_Icycles s 1) = (p, t)" by fastforce
    show ?thesis
    proof (cases "p = 0")
      case False
      with answers [of ARMul_INTERRUPT d t] True show ?thesis by (subst busy_wait.simps) (auto simp: p)
    next
      case p0: True
      then have t: "t = ARMul_Icycles s 1" using IntPending_none [of "ARMul_Icycles s 1"] p by simp
      obtain c d' s' where r: "h ARMul_BUSY d t = Some (c, d', s')"
        using answers [of ARMul_BUSY d t] by (cases "h ARMul_BUSY d t") auto
      have "\<exists>irq c' d'' s''. busy_wait h c d' s' = Some (irq, c', d'', s'') \<and> (irq \<or> c' \<noteq> ARMul_BUSY)"
      proof (cases "c = ARMul_BUSY")
        case True
        with progress [of s d d' s'] less.prems \<open>cpab = ARMul_BUSY\<close> r t have "waiting s'" "remaining s' < remaining s" by auto
        then show ?thesis by (intro less.hyps) auto
      next
        case False then show ?thesis by (subst busy_wait.simps) auto
      qed
      moreover have "busy_wait h cpab d s = busy_wait h c d' s'"
        using True p0 by (subst busy_wait.simps) (simp add: p r)
      ultimately show ?thesis by simp
    qed
  qed
qed

lemma cp_start_ends:
  "\<exists>irq c d' s'. cp_start h d s = Some (irq, c, d', s') \<and> (irq \<or> c \<noteq> ARMul_BUSY)"
proof -
  obtain c d' s' where f: "h ARMul_FIRST d s = Some (c, d', s')"
    using answers [of ARMul_FIRST d s] by (cases "h ARMul_FIRST d s") auto
  then have "c = ARMul_BUSY \<longrightarrow> waiting s'" using starts by blast
  from busy_wait_ends [OF this, of d'] show ?thesis by (simp add: cp_start_def f)
qed

end

lemma Time_Icycles [simp]: "ARMul_Time (ARMul_Icycles s n) = ARMul_Time s + n"
  by (simp add: ARMul_Time_def ARMul_Icycles_def ARMul_CLEARABORT_def)

lemma mach_Icycles [simp]: "mach (ARMul_Icycles s n) = mach s"
  by (simp add: ARMul_Icycles_def ARMul_CLEARABORT_def)

lemma cp_hw_Icycles [simp]: "cp_hw_of (ARMul_Icycles s n) = cp_hw_of s"
  by (simp add: cp_hw_of_def)

lemma cp_hw_upd [simp]: "cp_hw_of (upd_cp f s) = f (cp_hw_of s)" "ARMul_Time (upd_cp f s) = ARMul_Time s"
  by (simp_all add: cp_hw_of_def upd_cp_def ARMul_Time_def)

lemma distance_decreases:
  fixes t f :: ARMword
  assumes "t \<noteq> f"
  shows "unat (f - (t + 1)) < unat (f - t)"
proof -
  have "f - t \<noteq> 0" using assms by simp
  then have "unat (f - t - 1) < unat (f - t)" by (metis measure_unat)
  then show ?thesis by (simp add: algebra_simps)
qed

interpretation val_cdp: busy_coprocessor "no_data (\<lambda>type. ValCDP type instr)"
    "\<lambda>s. ARMul_Time s \<noteq> val_finish (cp_hw_of s)" "\<lambda>s. unat (val_finish (cp_hw_of s) - ARMul_Time s)" for instr
  by unfold_locales
    (auto simp: no_data_def ValCDP_def Let_def distance_decreases split: if_splits)

interpretation int_cdp: busy_coprocessor "no_data (\<lambda>type. IntCDP type instr)"
    "\<lambda>s. ARMul_Time s \<noteq> int_finish (cp_hw_of s)" "\<lambda>s. unat (int_finish (cp_hw_of s) - ARMul_Time s)" for instr
  by unfold_locales
    (auto simp: no_data_def IntCDP_def Let_def distance_decreases split: if_splits)

lemma CPNum_less: "CPNum instr < 16"
proof -
  have "BITS instr 8 11 = take_bit 4 (drop_bit 8 instr)" by (simp add: BITS_conv)
  then have "unat (BITS instr 8 11) < 2 ^ 4" by (simp only: unsigned_take_bit_eq) (rule take_bit_nat_less_exp)
  then show ?thesis by (simp add: CPNum_def)
qed

lemma detach_all:
  defines "T \<equiv> (\<lambda>n T. fold ARMul_CoProDetach [0..<n] T)"
  assumes "k < n"
  shows "LDC (fst (T n U)) k = NoCoPro4R" "STC (fst (T n U)) k = NoCoPro4W" "MRC (fst (T n U)) k = NoCoPro4W"
    "MCR (fst (T n U)) k = NoCoPro4R" "CDP (fst (T n U)) k = NoCoPro3R"
  using assms(2)
  by (induction n)
    (auto simp: T_def ARMul_CoProDetach_def ARMul_CoProAttach_def install_def Let_def less_Suc_eq split: prod.split)

lemma attach_simps:
  "LDC (fst (ARMul_CoProAttach n u T)) k = (case u_ldc u of None \<Rightarrow> LDC (fst T) k | Some f \<Rightarrow> if k = n then f else LDC (fst T) k)"
  "STC (fst (ARMul_CoProAttach n u T)) k = (case u_stc u of None \<Rightarrow> STC (fst T) k | Some f \<Rightarrow> if k = n then f else STC (fst T) k)"
  "MRC (fst (ARMul_CoProAttach n u T)) k = (case u_mrc u of None \<Rightarrow> MRC (fst T) k | Some f \<Rightarrow> if k = n then f else MRC (fst T) k)"
  "MCR (fst (ARMul_CoProAttach n u T)) k = (case u_mcr u of None \<Rightarrow> MCR (fst T) k | Some f \<Rightarrow> if k = n then f else MCR (fst T) k)"
  "CDP (fst (ARMul_CoProAttach n u T)) k = (case u_cdp u of None \<Rightarrow> CDP (fst T) k | Some f \<Rightarrow> if k = n then f else CDP (fst T) k)"
  by (auto simp: ARMul_CoProAttach_def install_def split: prod.split option.split)

text \<open>The tables of a machine that has neither the EP9312 nor the XScale coprocessors.\<close>

abbreviation plain_tables where
  "plain_tables p D X B U \<equiv> fst (coproc_tables False False p D X B U)"

lemma plain_tables_simps:
  assumes "k < 16"
  shows "CDP (plain_tables p D X B U) k = (if k = 4 then ValCDP else if k = 5 then IntCDP else NoCoPro3R)"
    "MRC (plain_tables p D X B U) k = (if k \<in> {1, 4, 5} then ValMRC else if k = 15 then MMUMRC else NoCoPro4W)"
    "MCR (plain_tables p D X B U) k = (if k \<in> {1, 4, 5} then ValMCR else if k = 15 then MMUMCR B else NoCoPro4R)"
    "LDC (plain_tables p D X B U) k = (if k \<in> {2, 4} then ValLDC else NoCoPro4R)"
    "STC (plain_tables p D X B U) k = (if k \<in> {2, 4} then ValSTC else NoCoPro4W)"
  using detach_all [OF assms, of U] by (auto simp: coproc_tables_def Let_def attach_simps no_unit_def)

text \<open>
  C30: every CDP instruction ends, whatever the coprocessor number and the state, also when
  the cycle counters wrap around: the waiting loop of the validation coprocessor stops.
\<close>

theorem cdp_wait_ends:
  "\<exists>t. ARMul_CDP (plain_tables p D X B U) instr s = Some t"
proof -
  let ?C = "plain_tables p D X B U"
  have "\<exists>irq c d t. cp_start (no_data (\<lambda>type. CDP ?C (CPNum instr) type instr)) () s = Some (irq, c, d, t)"
  proof -
    consider "CPNum instr = 4" | "CPNum instr = 5" | "CPNum instr \<noteq> 4" "CPNum instr \<noteq> 5" by blast
    then show ?thesis
    proof cases
      case 1 with val_cdp.cp_start_ends [of instr "()" s] show ?thesis by (auto simp: plain_tables_simps)
    next
      case 2 with int_cdp.cp_start_ends [of instr "()" s] show ?thesis by (auto simp: plain_tables_simps)
    next
      case 3 then show ?thesis
        using CPNum_less [of instr]
        by (auto simp: plain_tables_simps cp_start_def no_data_def NoCoPro3R_def busy_wait.simps)
    qed
  qed
  then show ?thesis by (auto simp: ARMul_CDP_def)
qed

lemma IntPending_Icycles: "fst (IntPending (ARMul_Icycles s n)) = fst (IntPending s)"
  by (simp add: IntPending_def FFLAG_def IFLAG_def ARMul_Icycles_def ARMul_CLEARABORT_def)

lemma Icycles_Icycles: "ARMul_Icycles (ARMul_Icycles s m) n = ARMul_Icycles s (m + n)"
  by (rule ARMul_State.equality) (simp_all add: ARMul_Icycles_def ARMul_CLEARABORT_def)

lemma val_wait:
  fixes s :: "'z cstate"
  assumes "BITS instr 20 23 = 0" "fst (IntPending s) = 0"
    and "unat (val_finish (cp_hw_of s)) = unat (ARMul_Time s) + Suc n"
  shows "busy_wait (no_data (\<lambda>type. ValCDP type instr)) ARMul_BUSY () s
    = Some (False, ARMul_DONE, (), ARMul_Icycles s (of_nat (Suc n)))"
  using assms
proof (induction n arbitrary: s)
  case 0
  have i: "IntPending (ARMul_Icycles s 1) = (0, ARMul_Icycles s 1)"
    using "0.prems"(2) by (intro IntPending_none) (simp add: IntPending_Icycles)
  have "val_finish (cp_hw_of s) = ARMul_Time s + 1"
    using "0.prems"(3) unat_less_2p32 [of "val_finish (cp_hw_of s)"] by (simp add: word_unat_eq_iff unat_word_ariths)
  then show ?case using "0.prems"(1)
    by (subst busy_wait.simps) (simp add: i no_data_def ValCDP_def busy_wait.simps)
next
  case (Suc n)
  have i: "IntPending (ARMul_Icycles s 1) = (0, ARMul_Icycles s 1)"
    using Suc.prems(2) by (intro IntPending_none) (simp add: IntPending_Icycles)
  have t: "unat (ARMul_Time s + 1) = unat (ARMul_Time s) + 1"
    using Suc.prems(3) unat_less_2p32 [of "val_finish (cp_hw_of s)"] by (simp add: unat_word_ariths)
  then have "ARMul_Time s + 1 < val_finish (cp_hw_of s)" using Suc.prems(3) by (simp add: word_less_nat_alt)
  then have "busy_wait (no_data (\<lambda>type. ValCDP type instr)) ARMul_BUSY () s
      = busy_wait (no_data (\<lambda>type. ValCDP type instr)) ARMul_BUSY () (ARMul_Icycles s 1)"
    using Suc.prems(1) by (subst busy_wait.simps) (simp add: i no_data_def ValCDP_def not_le [symmetric])
  also have "\<dots> = Some (False, ARMul_DONE, (), ARMul_Icycles (ARMul_Icycles s 1) (of_nat (Suc n)))"
    using Suc.prems t by (intro Suc.IH) (simp_all add: IntPending_Icycles)
  finally show ?case by (simp add: Icycles_Icycles)
qed

text \<open>
  A CDP 0 of coprocessor 4 keeps the processor waiting for exactly the number of cycles
  in the named coprocessor register, when no interrupt is pending and the time does
  not wrap around, and changes no register.
\<close>

theorem val_cdp_duration:
  fixes s :: "'z cstate"
  defines "howlong \<equiv> \<lambda>instr s :: 'z cstate. ValReg (cp_hw_of s) (unat (BITS instr 0 3))"
  assumes "CPNum instr = 4" "BITS instr 20 23 = 0" "is_XScale s = 0" "fst (IntPending s) = 0"
    and "unat (ARMul_Time s) + unat (howlong instr s) < 2 ^ 32"
  shows "\<exists>t. ARMul_CDP (plain_tables p D X B U) instr s = Some t
    \<and> ARMul_Time t = ARMul_Time s + howlong instr s \<and> Reg t = Reg s \<and> NextInstr t = NextInstr s OR 1"
proof -
  let ?w = "howlong instr s" and ?s = "upd_cp (\<lambda>c. c\<lparr>val_finish := ARMul_Time s + ValReg (cp_hw_of s) (unat (BITS instr 0 3))\<rparr>) s"
  have C: "CDP (plain_tables p D X B U) 4 = ValCDP" by (simp add: plain_tables_simps)
  have f: "no_data (\<lambda>type. ValCDP type instr) ARMul_FIRST () s = Some (if ?w = 0 then ARMul_DONE else ARMul_BUSY, (), ?s)"
    using assms(3) by (simp add: no_data_def ValCDP_def howlong_def)
  have "cp_start (no_data (\<lambda>type. ValCDP type instr)) () s = Some (False, ARMul_DONE, (), if ?w = 0 then ?s else ARMul_Icycles ?s ?w)"
  proof (cases "?w = 0")
    case True then show ?thesis by (simp add: cp_start_def f busy_wait.simps)
  next
    case False
    then obtain n where n: "unat ?w = Suc n" by (metis not0_implies_Suc unsigned_eq_0_iff)
    have "IntPending ?s = (0, ?s)"
      using assms(5) by (intro IntPending_none) (auto simp: IntPending_def FFLAG_def IFLAG_def upd_cp_def split: if_splits)
    moreover have "unat (ARMul_Time s + ?w) = unat (ARMul_Time s) + Suc n" using assms(6) n by (simp add: unat_word_ariths)
    ultimately have "busy_wait (no_data (\<lambda>type. ValCDP type instr)) ARMul_BUSY () ?s
        = Some (False, ARMul_DONE, (), ARMul_Icycles ?s (of_nat (Suc n)))"
      using assms(3) by (intro val_wait) (simp_all add: howlong_def)
    moreover have "(of_nat (Suc n) :: ARMword) = ?w" unfolding n [symmetric] by simp
    ultimately show ?thesis using False by (simp add: cp_start_def f)
  qed
  then show ?thesis
    using assms(2,4) C by (auto simp: ARMul_CDP_def CP_ACCESS_ALLOWED_def upd_cp_def ARMul_Time_def ARMul_Icycles_def ARMul_CLEARABORT_def)
qed

text \<open>
  A value written to a register of the validation coprocessor is read back, also
  through another of its coprocessor numbers.
\<close>

theorem val_mcr_mrc:
  assumes "CPNum i \<in> {1, 4, 5}" "CPNum j \<in> {1, 4, 5}" "BITS j 16 19 = BITS i 16 19" "is_XScale s = 0"
  shows "\<exists>t u. ARMul_MCR (plain_tables p D X B U) i v s = Some t \<and> ARMul_MRC (plain_tables p D X B U) j t = Some (v, u)"
proof -
  let ?C = "plain_tables p D X B U"
  have C: "MCR ?C (CPNum i) = ValMCR" "MRC ?C (CPNum j) = ValMRC" using assms(1,2) by (auto simp: plain_tables_simps)
  let ?s = "upd_cp (\<lambda>c. c\<lparr>ValReg := (ValReg c)(unat (BITS i 16 19) := v)\<rparr>) s"
  have m: "ARMul_MCR ?C i v s = Some (ARMul_Ccycles (BUSUSEDINCPCN ?s) 1)"
    using assms(4) C(1) by (simp add: ARMul_MCR_def CP_ACCESS_ALLOWED_def cp_start_def by_value_def ValMCR_def busy_wait.simps)
  let ?t = "ARMul_Ccycles (BUSUSEDINCPCN ?s) 1"
  have t: "is_XScale ?t = 0" "cp_hw_of ?t = cp_hw_of ?s"
    using assms(4) by (simp_all add: ARMul_Ccycles_def ARMul_CLEARABORT_def BUSUSEDINCPCN_def set_reg_def upd_cp_def cp_hw_of_def)
  have "\<exists>u. ARMul_MRC ?C j ?t = Some (v, u)"
    using t C(2) assms(3) by (simp add: ARMul_MRC_def CP_ACCESS_ALLOWED_def cp_start_def ValMRC_def busy_wait.simps)
  then show ?thesis using m by blast
qed

text \<open>The answers to the data calls of one transfer.\<close>

fun val_answers :: "ARMword \<Rightarrow> ARMword list \<Rightarrow> 'z cstate \<Rightarrow> ARMword list" where
  "val_answers instr [] s = []"
| "val_answers instr (d # ds) s =
     (case ValLDC ARMul_DATA instr d s of None \<Rightarrow> [] | Some (c, s) \<Rightarrow> c # val_answers instr ds s)"

text \<open>
  In a long load the validation coprocessor asks for five words, where the comment in
  the code says two.
\<close>

theorem val_long_transfer_five_words:
  assumes "BIT instr 22 \<noteq> 0"
  shows "val_answers instr [d1, d2, d3, d4, d5] (snd (the (ValLDC ARMul_TRANSFER instr 0 s))) = [ARMul_INC, ARMul_INC, ARMul_INC, ARMul_INC, ARMul_DONE]"
  using assms by (auto simp: ValLDC_def Let_def)

definition ex_cp :: "unit cp_hw" where
  "ex_cp = \<lparr>MMUReg = (\<lambda>_. 0), ValReg = (\<lambda>_. 0)(3 := 7), ldc_words = 0, stc_words = 0, val_finish = 0, int_finish = 0, board = ()\<rparr>"

definition ex_cs :: "unit cstate" where
  "ex_cs = (ARMul_NewState
     \<lparr>current_num = 0, mem_banks = [], mbp = None, global_mbp = None, rom = (\<lambda>_ _. 0), rom_size = (\<lambda>_. 0),
      iosys = \<lparr>a71_cache = undefined, a71_tlb = undefined, cpu_arch_name = [], cpu_val = 0, cpu_mask = 0, dev = ex_cp\<rparr>\<rparr>)
     \<lparr>NresetSig := HIGH, NfiqSig := HIGH, NirqSig := HIGH\<rparr>"

theorem val_cdp_duration_witness:
  "\<exists>t. ARMul_CDP (plain_tables False undefined undefined undefined undefined) 0xee000403 ex_cs = Some t \<and> ARMul_Time t = 7"
  using val_cdp_duration [of "0xee000403" ex_cs False undefined undefined undefined undefined]
  by (auto simp: ex_cs_def ex_cp_def ARMul_NewState_def CPNum_def BITS_conv take_bit_eq_mod drop_bit_eq_div cp_hw_of_def
        IntPending_def ARMul_Time_def)

theorem val_mcr_mrc_witness:
  "\<exists>t u. ARMul_MCR (plain_tables False undefined undefined undefined undefined) 0xee020410 99 ex_cs = Some t
     \<and> ARMul_MRC (plain_tables False undefined undefined undefined undefined) 0xee120510 t = Some (99, u)"
  by (rule val_mcr_mrc) (simp_all add: CPNum_def BITS_conv take_bit_eq_mod drop_bit_eq_div ex_cs_def ARMul_NewState_def)

theorem val_long_transfer_five_words_witness:
  "val_answers 0xedd00400 [1, 2, 3, 4, 5] (snd (the (ValLDC ARMul_TRANSFER 0xedd00400 0 ex_cs)))
   = [ARMul_INC, ARMul_INC, ARMul_INC, ARMul_INC, ARMul_DONE]"
  by (rule val_long_transfer_five_words) (simp add: BIT_def drop_bit_eq_div)

end
