(* ===== verification/Arm_Thumb.thy ===== *)
theory Arm_Thumb
  imports Arm_Supp
begin

text \<open>
  The Thumb decoder \<open>ARMul_ThumbDecode\<close> of \<open>thumbemu.c\<close>, which translates a
  16-bit instruction into the ARM instruction that the emulator then executes, or
  performs a branch itself.  One definition per instruction format; \<open>t\<close> is the
  16-bit instruction in a 32-bit word.
\<close>

datatype tdstate = t_undefined | t_decoded | t_branch

abbreviation (input) SWI_Breakpoint :: ARMword where "SWI_Breakpoint \<equiv> 0x180000"

section \<open>Formats\<close>

text \<open>\<open>(t & m) << k\<close> and \<open>(t & m) >> k\<close>.\<close>

definition fieldl :: "ARMword \<Rightarrow> ARMword \<Rightarrow> nat \<Rightarrow> ARMword" where
  "fieldl t m k = push_bit k (t AND m)"

definition fieldr :: "ARMword \<Rightarrow> ARMword \<Rightarrow> nat \<Rightarrow> ARMword" where
  "fieldr t m k = drop_bit k (t AND m)"

definition thumb_fmt1 :: "ARMword \<Rightarrow> ARMword" where
  "thumb_fmt1 t = 0xE1B00000 OR fieldr t 0x1800 6 OR fieldl t 0x07C0 1 OR fieldr t 0x0038 3
     OR fieldl t 0x0007 12"

definition thumb_fmt2 :: "ARMword \<Rightarrow> ARMword" where
  "thumb_fmt2 t = [0xE0900000, 0xE0500000, 0xE2900000, 0xE2500000] ! unat (fieldr t 0x0600 9)
     OR fieldr t 0x01C0 6 OR fieldl t 0x0038 13 OR fieldl t 0x0007 12"

definition thumb_fmt3 :: "ARMword \<Rightarrow> ARMword" where
  "thumb_fmt3 t = [0xE3B00000, 0xE3500000, 0xE2900000, 0xE2500000] ! unat (fieldr t 0x1800 11)
     OR fieldr t 0x00FF 0 OR fieldl t 0x0700 8 OR fieldl t 0x0700 4"

datatype otype = t_norm | t_shift | t_neg | t_mul

definition fmt4_subset :: "(ARMword \<times> otype) list" where
  "fmt4_subset =
     [(0xE0100000, t_norm), (0xE0300000, t_norm), (0xE1B00010, t_shift), (0xE1B00030, t_shift),
      (0xE1B00050, t_shift), (0xE0B00000, t_norm), (0xE0D00000, t_norm), (0xE1B00070, t_shift),
      (0xE1100000, t_norm), (0xE2700000, t_neg), (0xE1500000, t_norm), (0xE1700000, t_norm),
      (0xE1900000, t_norm), (0xE0100090, t_mul), (0xE1D00000, t_norm), (0xE1F00000, t_norm)]"

definition thumb_fmt4 :: "ARMword \<Rightarrow> ARMword" where
  "thumb_fmt4 t =
     (let (opcode, oty) = fmt4_subset ! unat (fieldr t 0x03C0 6) in
      case oty of
        t_norm \<Rightarrow> opcode OR fieldl t 0x0007 16 OR fieldl t 0x0007 12 OR fieldr t 0x0038 3
      | t_shift \<Rightarrow> opcode OR fieldl t 0x0007 12 OR fieldr t 0x0007 0 OR fieldl t 0x0038 5
      | t_neg \<Rightarrow> opcode OR fieldl t 0x0007 12 OR fieldl t 0x0038 13
      | t_mul \<Rightarrow> opcode OR fieldl t 0x0007 16 OR fieldl t 0x0007 8 OR fieldr t 0x0038 3)"

definition fmt5_regs :: "ARMword \<Rightarrow> ARMword \<times> ARMword" where
  "fmt5_regs t =
     (fieldr t 0x0007 0 + (if t AND 0x80 \<noteq> 0 then 8 else 0),
      fieldr t 0x0038 3 + (if t AND 0x40 \<noteq> 0 then 8 else 0))"

text \<open>\<open>None\<close> is \<open>t_undefined\<close>; \<open>v5\<close> is \<open>state->is_v5\<close>.\<close>

definition thumb_fmt5 :: "ARMword \<Rightarrow> ARMword \<Rightarrow> ARMword option" where
  "thumb_fmt5 v5 t =
     (let (Rd, Rs) = fmt5_regs t; c = unat (fieldr t 0x03C0 6);
          dp = (\<lambda>base. base OR push_bit 16 Rd OR push_bit 12 Rd OR Rs)
      in if c \<in> {1, 2, 3} then Some (dp 0xE0800000)
         else if c \<in> {5, 6, 7} then Some (dp 0xE1500000)
         else if c \<in> {9, 10, 11} then Some (dp 0xE1A00000)
         else if c \<in> {12, 13} then Some (0xE12FFF10 OR fieldr t 0x0078 3)
         else if c \<in> {14, 15} then (if v5 \<noteq> 0 then Some (0xE1200030 OR Rs) else None)
         else None)"

definition thumb_fmt6 :: "ARMword \<Rightarrow> ARMword" where
  "thumb_fmt6 t = 0xE59F0000 OR fieldl t 0x0700 4 OR fieldl t 0x00FF 2"

definition thumb_fmt7_8 :: "ARMword \<Rightarrow> ARMword" where
  "thumb_fmt7_8 t =
     (if t AND 0x200 = 0 then [0xE7800000, 0xE7C00000, 0xE7900000, 0xE7D00000]
      else [0xE18000B0, 0xE19000D0, 0xE19000B0, 0xE19000F0]) ! unat (fieldr t 0x0C00 10)
     OR fieldl t 0x0007 12 OR fieldl t 0x0038 13 OR fieldr t 0x01C0 6"

definition thumb_fmt9 :: "ARMword \<Rightarrow> ARMword" where
  "thumb_fmt9 t =
     [0xE5800000, 0xE5900000, 0xE5C00000, 0xE5D00000] ! unat (fieldr t 0x1800 11)
     OR fieldl t 0x0007 12 OR fieldl t 0x0038 13
     OR fieldr t 0x07C0 (6 - (if t AND 0x1000 \<noteq> 0 then 0 else 2))"

definition thumb_fmt10 :: "ARMword \<Rightarrow> ARMword" where
  "thumb_fmt10 t =
     (if t AND 0x800 \<noteq> 0 then 0xE1D000B0 else 0xE1C000B0)
     OR fieldl t 0x0007 12 OR fieldl t 0x0038 13 OR fieldr t 0x01C0 5 OR fieldr t 0x0600 1"

definition thumb_fmt11 :: "ARMword \<Rightarrow> ARMword" where
  "thumb_fmt11 t =
     (if t AND 0x800 \<noteq> 0 then 0xE59D0000 else 0xE58D0000) OR fieldl t 0x0700 4 OR fieldl t 0x00FF 2"

definition thumb_fmt12 :: "ARMword \<Rightarrow> ARMword" where
  "thumb_fmt12 t =
     (if t AND 0x800 = 0 then 0xE28F0F00 else 0xE28D0F00) OR fieldl t 0x0700 4 OR (t AND 0x00FF)"

definition thumb_fmt13_14 :: "ARMword \<Rightarrow> ARMword" where
  "thumb_fmt13_14 t =
     (if t AND 0x0F00 = 0 then (if t AND 0x80 \<noteq> 0 then 0xE24DDF00 else 0xE28DDF00) OR (t AND 0x007F)
      else if t AND 0x0F00 = 0x0E00 then 0xEF000000 OR SWI_Breakpoint
      else [0xE92D0000, 0xE92D4000, 0xE8BD0000, 0xE8BD8000]
             ! unat (fieldr t 0x800 10 OR fieldr t 0x100 8) OR (t AND 0x00FF))"

definition thumb_fmt15 :: "ARMword \<Rightarrow> ARMword" where
  "thumb_fmt15 t =
     (if t AND 0x800 \<noteq> 0 then 0xE8B00000 else 0xE8A00000) OR fieldl t 0x0700 8 OR (t AND 0x00FF)"

definition thumb_swi :: "ARMword \<Rightarrow> ARMword" where
  "thumb_swi t =
     0xEF000000 OR (if t AND 0x00FF = 0x18 then push_bit 16 (t AND 0x00FF)
                    else if t AND 0x00FF = 0xFE then SWI_Breakpoint
                    else t AND 0x00FF)"

section \<open>Branches\<close>

text \<open>The condition of format 16: the cases EQ to LE of the inner \<open>switch\<close>.\<close>

definition thumb_cond :: "'m ARMul_State \<Rightarrow> nat \<Rightarrow> bool" where
  "thumb_cond s c =
     (let N = NFlag s \<noteq> 0; Z = ZFlag s \<noteq> 0; C = CFlag s \<noteq> 0; V = VFlag s \<noteq> 0 in
      if c = 0 then Z
      else if c = 1 then \<not> Z
      else if c = 6 then V
      else if c = 7 then \<not> V
      else if c = 4 then N
      else if c = 5 then \<not> N
      else if c = 2 then C
      else if c = 3 then \<not> C
      else if c = 8 then C \<and> \<not> Z
      else if c = 9 then \<not> C \<or> Z
      else if c = 10 then \<not> N \<and> \<not> V \<or> N \<and> V
      else if c = 11 then N \<and> \<not> V \<or> \<not> N \<and> V
      else if c = 12 then \<not> N \<and> \<not> V \<and> \<not> Z \<or> N \<and> V \<and> \<not> Z
      else if c = 13 then N \<and> \<not> V \<or> \<not> N \<and> V \<or> Z
      else False)"

definition thumb_fmt16 :: "'m ARMul_State \<Rightarrow> ARMword \<Rightarrow> ARMword \<Rightarrow> 'm ARMul_State" where
  "thumb_fmt16 s pc t =
     (if thumb_cond s (unat (fieldr t 0x0F00 8))
      then FLUSHPIPE (set_reg 15 (pc + 4 + (fieldl t 0x7F 1 OR (if t AND 0x80 \<noteq> 0 then 0xFFFFFF00 else 0))) s)
      else s)"

definition thumb_fmt18 :: "'m ARMul_State \<Rightarrow> ARMword \<Rightarrow> ARMword \<Rightarrow> 'm ARMul_State" where
  "thumb_fmt18 s pc t =
     FLUSHPIPE (set_reg 15 (pc + 4 + (fieldl t 0x3FF 1 OR (if t AND 0x400 \<noteq> 0 then 0xFFFFF800 else 0))) s)"

definition thumb_bl1 :: "'m ARMul_State \<Rightarrow> ARMword \<Rightarrow> 'm ARMul_State" where
  "thumb_bl1 s t =
     set_reg 14 (Reg s 15 + (fieldl t 0x07FF 12 OR (if t AND 0x400 \<noteq> 0 then 0xFF800000 else 0))) s"

definition thumb_bl2 :: "'m ARMul_State \<Rightarrow> ARMword \<Rightarrow> ARMword \<Rightarrow> 'm ARMul_State" where
  "thumb_bl2 s pc t =
     (let tmp = pc + 2
      in FLUSHPIPE (set_reg 14 (tmp OR 1) (set_reg 15 (Reg s 14 + fieldl t 0x07FF 1) s)))"

section \<open>The decoder\<close>

text \<open>The result is the C result, the word written to \<open>*ainstr\<close>, and the state.\<close>

definition ARMul_ThumbDecode ::
    "'m ARMul_State \<Rightarrow> ARMword \<Rightarrow> ARMword \<Rightarrow> tdstate \<times> ARMword \<times> 'm ARMul_State" where
  "ARMul_ThumbDecode s pc tinstr =
     (let (next_instr, t) = (if bigendSig s \<noteq> 0 then (tinstr AND 0xFFFF, drop_bit 16 tinstr)
                             else (drop_bit 16 tinstr, tinstr AND 0xFFFF));
          c = unat (fieldr t 0xF800 11);
          dec = (\<lambda>a. (t_decoded, a, s));
          dead = 0xDEADC0DE
      in if c \<in> {0, 1, 2} then dec (thumb_fmt1 t)
         else if c = 3 then dec (thumb_fmt2 t)
         else if c \<in> {4, 5, 6, 7} then dec (thumb_fmt3 t)
         else if c = 8 then
           (if t AND 0x400 = 0 then dec (thumb_fmt4 t)
            else (case thumb_fmt5 (is_v5 s) t of Some a \<Rightarrow> dec a | None \<Rightarrow> (t_undefined, dead, s)))
         else if c = 9 then dec (thumb_fmt6 t)
         else if c \<in> {10, 11} then dec (thumb_fmt7_8 t)
         else if c \<in> {12, 13, 14, 15} then dec (thumb_fmt9 t)
         else if c \<in> {16, 17} then dec (thumb_fmt10 t)
         else if c \<in> {18, 19} then dec (thumb_fmt11 t)
         else if c \<in> {20, 21} then dec (thumb_fmt12 t)
         else if c \<in> {22, 23} then dec (thumb_fmt13_14 t)
         else if c \<in> {24, 25} then dec (thumb_fmt15 t)
         else if c \<in> {26, 27} then
           (if t AND 0x0F00 = 0x0F00 then
              (if t = ARMul_ABORTWORD s AND 0xffff \<and> AbortAddr s = pc then dec (ARMul_ABORTWORD s)
               else dec (thumb_swi t))
            else if t AND 0x0F00 \<noteq> 0x0E00 then (t_branch, dead, thumb_fmt16 s pc t)
            else (t_undefined, dead, s))
         else if c = 28 then (t_branch, dead, thumb_fmt18 s pc t)
         else if c = 29 then (t_undefined, dead, s)
         else if c = 30 then
           (let s = thumb_bl1 s t; t = next_instr in
            if unat (fieldr t 0xF800 11) \<noteq> 31 then (t_branch, dead, s)
            else (t_branch, dead, thumb_bl2 s (pc + 2) t))
         else (t_branch, dead, thumb_bl2 s pc t))"

section \<open>Decoded instructions are unconditional\<close>

text \<open>The condition field AL, and the words that leave the condition field alone.\<close>

definition cond_AL :: "ARMword \<Rightarrow> bool" where
  "cond_AL a \<longleftrightarrow> \<not> bit a 28 \<and> bit a 29 \<and> bit a 30 \<and> bit a 31"

definition low28 :: "ARMword \<Rightarrow> bool" where
  "low28 a \<longleftrightarrow> \<not> bit a 28 \<and> \<not> bit a 29 \<and> \<not> bit a 30 \<and> \<not> bit a 31"

lemma cond_AL_or [intro]: "cond_AL a \<Longrightarrow> low28 b \<Longrightarrow> cond_AL (a OR b)"
  by (simp add: cond_AL_def low28_def bit_simps)

lemma low28_or [intro]: "low28 a \<Longrightarrow> low28 b \<Longrightarrow> low28 (a OR b)"
  by (simp add: low28_def bit_simps)

lemma cond_AL_conv: "cond_AL a \<longleftrightarrow> TOPBITS a 28 = 14"
proof
  assume a: "cond_AL a"
  show "TOPBITS a 28 = 14"
    by (rule word32_eqI) (use a in \<open>simp add: cond_AL_def TOPBITS_def bit_simps not_bit_ge_32\<close>)
next
  assume "TOPBITS a 28 = 14"
  then have "bit (drop_bit 28 a) n = bit (14 :: ARMword) n" for n by (simp add: TOPBITS_def)
  from this [of 0] this [of 1] this [of 2] this [of 3] show "cond_AL a"
    by (simp add: cond_AL_def bit_simps)
qed

lemma low28_fields:
  "low28 (fieldr t 0x1800 6)" "low28 (fieldl t 0x07C0 1)" "low28 (fieldr t 0x0038 3)"
  "low28 (fieldl t 0x0007 12)" "low28 (fieldr t 0x01C0 6)" "low28 (fieldl t 0x0038 13)"
  "low28 (fieldr t 0x00FF 0)" "low28 (fieldl t 0x0700 8)" "low28 (fieldl t 0x0700 4)"
  "low28 (fieldl t 0x0007 16)" "low28 (fieldr t 0x0007 0)" "low28 (fieldl t 0x0038 5)"
  "low28 (fieldl t 0x0007 8)" "low28 (fieldr t 0x0078 3)" "low28 (fieldl t 0x00FF 2)"
  "low28 (fieldr t 0x07C0 (6 - (if b then 0 else 2)))" "low28 (fieldr t 0x01C0 5)"
  "low28 (fieldr t 0x0600 1)" "low28 (t AND 0x00FF)" "low28 (t AND 0x007F)" "low28 SWI_Breakpoint"
  "low28 (push_bit 16 (t AND 0x00FF))" "low28 (fieldr t 0x07C0 6)" "low28 (fieldr t 0x07C0 4)"
  "low28 (fieldr t 0x0600 (Suc 0))" "low28 (fieldl t 0x07C0 (Suc 0))"
  by (simp_all add: low28_def fieldl_def fieldr_def bit_simps not_bit_ge_32)

lemma cond_AL_nth: "list_all cond_AL xs \<Longrightarrow> i < length xs \<Longrightarrow> cond_AL (xs ! i)"
  by (simp add: list_all_length)

lemma fieldr_le: "unat (fieldr t m k) \<le> unat (drop_bit k m)"
proof -
  have "unat (t AND m) \<le> unat m" using word_and_le1 [of t m] by (simp add: word_le_nat_alt)
  then show ?thesis by (simp add: fieldr_def drop_bit_eq_div unat_div_distrib div_le_mono)
qed

lemma unat_fieldr_bounds:
  "unat (fieldr t 0x0600 9) < 4" "unat (fieldr t 0x1800 11) < 4" "unat (fieldr t 0x03C0 6) < 16"
  "unat (fieldr t 0x0C00 10) < 4" "unat (fieldr t 0xF800 11) < 32" "unat (fieldr t 0x0F00 8) < 16"
  using fieldr_le [of t "0x0600" 9] fieldr_le [of t "0x1800" 11] fieldr_le [of t "0x03C0" 6]
    fieldr_le [of t "0x0C00" 10] fieldr_le [of t "0xF800" 11] fieldr_le [of t "0x0F00" 8]
  by simp_all

lemmas cond_AL_rules = cond_AL_or low28_or low28_fields cond_AL_nth

lemma low28_index_14: "unat (fieldr t 0x800 10 OR fieldr t 0x100 8) < 4"
proof -
  have "fieldr t 0x800 10 OR fieldr t 0x100 8 = (fieldr t 0x800 10 OR fieldr t 0x100 8) AND 3"
    by (rule word32_eqI) (simp add: fieldr_def bit_simps not_bit_ge_32)
  then have "fieldr t 0x800 10 OR fieldr t 0x100 8 \<le> 3" by (metis word_and_le1)
  then show ?thesis by (simp add: word_le_nat_alt)
qed

lemma cond_AL_simps [simp]:
  "cond_AL 0xE1B00000" "cond_AL 0xE0900000" "cond_AL 0xE0500000" "cond_AL 0xE2900000" "cond_AL 0xE2500000"
  "cond_AL 0xE3B00000" "cond_AL 0xE3500000" "cond_AL 0xE59F0000" "cond_AL 0xE7800000" "cond_AL 0xE7C00000"
  "cond_AL 0xE7900000" "cond_AL 0xE7D00000" "cond_AL 0xE18000B0" "cond_AL 0xE19000D0" "cond_AL 0xE19000B0"
  "cond_AL 0xE19000F0" "cond_AL 0xE5800000" "cond_AL 0xE5900000" "cond_AL 0xE5C00000" "cond_AL 0xE5D00000"
  "cond_AL 0xE1D000B0" "cond_AL 0xE1C000B0" "cond_AL 0xE59D0000" "cond_AL 0xE58D0000" "cond_AL 0xE28F0F00"
  "cond_AL 0xE28D0F00" "cond_AL 0xE24DDF00" "cond_AL 0xEF000000" "cond_AL 0xE28DDF00" "cond_AL 0xE92D0000"
  "cond_AL 0xE92D4000" "cond_AL 0xE8BD0000" "cond_AL 0xE8BD8000" "cond_AL 0xE8B00000" "cond_AL 0xE8A00000"
  "cond_AL 0xE12FFF10" "cond_AL 0xE1200030" "cond_AL 0xE0800000" "cond_AL 0xE1500000" "cond_AL 0xE1A00000"
  "cond_AL 0xEF180000"
  by (simp_all add: cond_AL_def)

lemma cond_AL_formats:
  "cond_AL (thumb_fmt1 t)" "cond_AL (thumb_fmt2 t)" "cond_AL (thumb_fmt3 t)" "cond_AL (thumb_fmt6 t)"
  "cond_AL (thumb_fmt7_8 t)" "cond_AL (thumb_fmt9 t)" "cond_AL (thumb_fmt10 t)" "cond_AL (thumb_fmt11 t)"
  "cond_AL (thumb_fmt12 t)" "cond_AL (thumb_fmt13_14 t)" "cond_AL (thumb_fmt15 t)" "cond_AL (thumb_swi t)"
  unfolding thumb_fmt1_def thumb_fmt2_def thumb_fmt3_def thumb_fmt6_def thumb_fmt7_8_def thumb_fmt9_def
    thumb_fmt10_def thumb_fmt11_def thumb_fmt12_def thumb_fmt13_14_def thumb_fmt15_def thumb_swi_def
  using unat_fieldr_bounds [of t] low28_index_14 [of t]
  by (auto intro!: cond_AL_rules simp del: nth_Cons_numeral)

lemma cond_AL_fmt4: "cond_AL (thumb_fmt4 t)"
proof -
  obtain op oty where o: "fmt4_subset ! unat (fieldr t 0x03C0 6) = (op, oty)" by fastforce
  have "list_all (\<lambda>p. cond_AL (fst p)) fmt4_subset" by (simp add: fmt4_subset_def cond_AL_def)
  moreover have "unat (fieldr t 0x03C0 6) < length fmt4_subset"
    using unat_fieldr_bounds(3) [of t] by (simp add: fmt4_subset_def)
  ultimately have "cond_AL op" using o by (metis list_all_length fst_conv)
  then show ?thesis unfolding thumb_fmt4_def using o
    by (auto intro!: cond_AL_rules split: otype.splits)
qed

lemma low28_regs: "w \<le> 15 \<Longrightarrow> low28 w \<and> low28 (push_bit 12 w) \<and> low28 (push_bit 16 w)"
proof -
  assume "w \<le> 15"
  then have "\<not> bit w n" if "4 \<le> n" for n
    using bit_le_imp_less [of w n 4] that by (auto simp: word_le_nat_alt)
  then show ?thesis by (simp add: low28_def bit_simps)
qed

lemma fmt5_regs_le: "fst (fmt5_regs t) \<le> 15" "snd (fmt5_regs t) \<le> 15"
proof -
  have "x + (if b then 8 else 0) \<le> 15" if "unat (x :: ARMword) \<le> 7" for x b
    using that by (simp add: word_le_nat_alt unat_word_ariths)
  then show "fst (fmt5_regs t) \<le> 15" "snd (fmt5_regs t) \<le> 15"
    using fieldr_le [of t 7 0] fieldr_le [of t "0x38" 3] by (simp_all add: fmt5_regs_def)
qed

lemma cond_AL_fmt5: "thumb_fmt5 v t = Some a \<Longrightarrow> cond_AL a"
proof -
  assume a: "thumb_fmt5 v t = Some a"
  obtain d r where dr: "fmt5_regs t = (d, r)" by fastforce
  then have "d \<le> 15" "r \<le> 15" using fmt5_regs_le [of t] by simp_all
  then show ?thesis using a low28_regs [of d] low28_regs [of r]
    unfolding thumb_fmt5_def dr Let_def
    by (auto intro!: cond_AL_rules split: if_splits)
qed

text \<open>A decoder result whose instruction, if there is one, is unconditional.\<close>

definition decode_AL :: "'m ARMul_State \<Rightarrow> tdstate \<times> ARMword \<times> 'm ARMul_State \<Rightarrow> bool" where
  "decode_AL s r \<longleftrightarrow> (fst r = t_decoded \<longrightarrow> cond_AL (fst (snd r)) \<and> snd (snd r) = s)"

lemma ThumbDecode_AL: "decode_AL s (ARMul_ThumbDecode s pc tinstr)"
proof -
  have l: "decode_AL s (t_decoded, a, s) = cond_AL a" "decode_AL s (t_branch, a, s')" "decode_AL s (t_undefined, a, s')" for a s'
    by (simp_all add: decode_AL_def)
  have "cond_AL (ARMul_ABORTWORD s)" by (simp add: ARMul_ABORTWORD_def cond_AL_def)
  moreover have "decode_AL s (case thumb_fmt5 v t of Some a \<Rightarrow> (t_decoded, a, s) | None \<Rightarrow> (t_undefined, d, s))" for v t d
    using cond_AL_fmt5 [of v t] by (auto simp: l split: option.splits)
  ultimately show ?thesis
    unfolding ARMul_ThumbDecode_def Let_def case_prod_beta if_distrib [of "decode_AL s"]
    by (simp only: l cond_AL_formats cond_AL_fmt4 if_cancel simp_thms)
qed

lemma sext_offset:
  "fieldl t 0x7F 1 OR (if t AND 0x80 \<noteq> 0 then 0xFFFFFF00 else 0) = push_bit 1 (scast (ucast t :: 8 word))"
  "fieldl t 0x3FF 1 OR (if t AND 0x400 \<noteq> 0 then 0xFFFFF800 else 0) = push_bit 1 (scast (ucast t :: 11 word))"
  "fieldl t 0x07FF 12 OR (if t AND 0x400 \<noteq> 0 then 0xFF800000 else 0) = push_bit 12 (scast (ucast t :: 11 word))"
proof -
  have n: "(t AND 0x80 \<noteq> 0) = bit t 7" "(t AND 0x400 \<noteq> 0) = bit t 10"
    using and_exp_eq_0_iff_not_bit [of t 7] and_exp_eq_0_iff_not_bit [of t 10] by simp_all
  show "fieldl t 0x7F 1 OR (if t AND 0x80 \<noteq> 0 then 0xFFFFFF00 else 0) = push_bit 1 (scast (ucast t :: 8 word))"
    "fieldl t 0x3FF 1 OR (if t AND 0x400 \<noteq> 0 then 0xFFFFF800 else 0) = push_bit 1 (scast (ucast t :: 11 word))"
    "fieldl t 0x07FF 12 OR (if t AND 0x400 \<noteq> 0 then 0xFF800000 else 0) = push_bit 12 (scast (ucast t :: 11 word))"
    unfolding n by (rule word32_eqI, simp add: fieldl_def bit_simps not_bit_ge_32 bit_times_2)+
qed

lemma ucast_low16: "(ucast (t AND 0xFFFF) :: 8 word) = ucast t" "(ucast (t AND 0xFFFF) :: 11 word) = ucast t"
  for t :: ARMword
  by (rule bit_word_eqI, auto simp: bit_simps bit_ffff)+

lemma branch_target_fmt18:
  assumes "bigendSig s = 0" "tinstr AND 0xF800 = 0xE000"
  shows "ARMul_ThumbDecode s pc tinstr = (t_branch, 0xDEADC0DE,
     FLUSHPIPE (set_reg 15 (pc + 4 + push_bit 1 (scast (ucast tinstr :: 11 word))) s))"
proof -
  have f: "fieldr (tinstr AND 0xFFFF) 0xF800 11 = 28" using assms(2) by (simp add: fieldr_def and.assoc)
  show ?thesis using assms(1)
    by (simp add: ARMul_ThumbDecode_def f, simp only: thumb_fmt18_def sext_offset(2) ucast_low16, simp)
qed

lemma BL_pair:
  assumes "bigendSig s = 0" "tinstr AND 0xF800 = 0xF000" "drop_bit 16 tinstr AND 0xF800 = 0xF800"
  shows "ARMul_ThumbDecode s pc tinstr = (t_branch, 0xDEADC0DE,
     FLUSHPIPE (set_reg 14 ((pc + 4) OR 1)
       (set_reg 15 (Reg s 15 + push_bit 12 (scast (ucast tinstr :: 11 word)) + push_bit 1 (drop_bit 16 tinstr AND 0x7FF)) s)))"
proof -
  have f: "fieldr (tinstr AND 0xFFFF) 0xF800 11 = 30" "fieldr (drop_bit 16 tinstr) 0xF800 11 = 31"
    using assms(2,3) by (simp_all add: fieldr_def and.assoc)
  have r: "set_reg 14 x (set_reg 15 y (set_reg 14 z s)) = set_reg 14 x (set_reg 15 y s)" for x y z
    by (simp add: set_reg_def fun_upd_twist)
  show ?thesis using assms(1)
    by (simp add: ARMul_ThumbDecode_def f thumb_bl1_def thumb_bl2_def sext_offset(3) ucast_low16 r fieldl_def [of "drop_bit 16 tinstr"] add.assoc)
qed

lemma branch_target_fmt16:
  assumes "bigendSig s = 0" "tinstr AND 0xF000 = 0xD000" "unat (fieldr tinstr 0x0F00 8) < 14"
  shows "ARMul_ThumbDecode s pc tinstr = (t_branch, 0xDEADC0DE,
     if thumb_cond s (unat (fieldr tinstr 0x0F00 8))
     then FLUSHPIPE (set_reg 15 (pc + 4 + push_bit 1 (scast (ucast tinstr :: 8 word))) s) else s)"
proof -
  have "(tinstr AND 0xFFFF) AND 0xF800 = (tinstr AND 0xF000) OR (tinstr AND 0x800)"
    by (rule word32_eqI) (simp add: bit_simps)
  moreover have "tinstr AND 0x800 = (if bit tinstr 11 then 0x800 else 0)"
    by (rule word32_eqI) (simp add: bit_simps)
  ultimately have f: "unat (fieldr (tinstr AND 0xFFFF) 0xF800 11) \<in> {26, 27}"
    using assms(2) by (simp add: fieldr_def)
  have g: "fieldr (tinstr AND 0xFFFF) 0x0F00 8 = fieldr tinstr 0x0F00 8" by (simp add: fieldr_def and.assoc)
  have h: "(tinstr AND 0xFFFF) AND 0x0F00 \<noteq> 0x0F00" "(tinstr AND 0xFFFF) AND 0x0F00 \<noteq> 0x0E00"
  proof -
    have "fieldr tinstr 0x0F00 8 = 15" if "tinstr AND 0x0F00 = 0x0F00" unfolding fieldr_def that by simp
    moreover have "fieldr tinstr 0x0F00 8 = 14" if "tinstr AND 0x0F00 = 0x0E00" unfolding fieldr_def that by simp
    ultimately show "(tinstr AND 0xFFFF) AND 0x0F00 \<noteq> 0x0F00" "(tinstr AND 0xFFFF) AND 0x0F00 \<noteq> 0x0E00"
      using assms(3) by (auto simp: and.assoc)
  qed
  have "ARMul_ThumbDecode s pc tinstr = (t_branch, 0xDEADC0DE, thumb_fmt16 s pc (tinstr AND 0xFFFF))"
    using assms(1) f h by (auto simp: ARMul_ThumbDecode_def)
  then show ?thesis by (simp only: thumb_fmt16_def g sext_offset(1) ucast_low16)
qed

lemma thumb_fmt3_fields:
  "BITS (thumb_fmt3 t) 12 15 = BITS t 8 10 \<and> BITS (thumb_fmt3 t) 16 19 = BITS t 8 10
   \<and> BITS (thumb_fmt3 t) 0 7 = BITS t 0 7 \<and> BITS (thumb_fmt3 t) 8 11 = 0
   \<and> BITS (thumb_fmt3 t) 20 27 = [0x3b, 0x35, 0x29, 0x25] ! unat (fieldr t 0x1800 11)"
proof -
  have "unat (fieldr t 0x1800 11) = 0 \<or> unat (fieldr t 0x1800 11) = 1 \<or> unat (fieldr t 0x1800 11) = 2
      \<or> unat (fieldr t 0x1800 11) = 3"
    using unat_fieldr_bounds(2) [of t] by linarith
  then show ?thesis
    by - (elim disjE; intro conjI; rule word32_eqI; simp add: thumb_fmt3_def bit_BITS_iff;
      simp add: fieldl_def fieldr_def bit_simps not_bit_ge_32)
qed
section \<open>Properties\<close>

text \<open>
  Whatever the sixteen bits are, a Thumb instruction that the decoder translates
  becomes an ARM instruction with the condition field AL, so it is always executed,
  and the translation itself changes no state.
\<close>

theorem ThumbDecode_unconditional:
  assumes "ARMul_ThumbDecode s pc tinstr = (t_decoded, a, s')"
  shows "TOPBITS a 28 = 14 \<and> s' = s"
  using ThumbDecode_AL [of s pc tinstr] assms by (simp add: decode_AL_def cond_AL_conv)

theorem ThumbDecode_unconditional_witness:
  "\<exists>a s'. ARMul_ThumbDecode (ARMul_NewState ()) 0 0x2005 = (t_decoded, a, s') \<and> TOPBITS a 28 = 14"
proof -
  have "ARMul_ThumbDecode (ARMul_NewState ()) 0 0x2005 = (t_decoded, thumb_fmt3 0x2005, ARMul_NewState ())"
    by (simp add: ARMul_ThumbDecode_def fieldr_def ARMul_NewState_def)
  then show ?thesis using ThumbDecode_unconditional by blast
qed

text \<open>
  Branches.  The unconditional branch goes to the address of the instruction plus
  4 plus twice its signed 11-bit offset, a conditional one to that of its signed
  8-bit offset if its condition holds, and falls through otherwise; taken branches
  flush the pipeline and no branch changes anything else.
\<close>

theorem ThumbDecode_branches:
  assumes "bigendSig s = 0"
  shows "(tinstr AND 0xF800 = 0xE000 \<longrightarrow> ARMul_ThumbDecode s pc tinstr = (t_branch, 0xDEADC0DE,
        FLUSHPIPE (set_reg 15 (pc + 4 + push_bit 1 (scast (ucast tinstr :: 11 word))) s)))
    \<and> (tinstr AND 0xF000 = 0xD000 \<and> unat (fieldr tinstr 0x0F00 8) < 14 \<longrightarrow>
        ARMul_ThumbDecode s pc tinstr = (t_branch, 0xDEADC0DE,
          if thumb_cond s (unat (fieldr tinstr 0x0F00 8))
          then FLUSHPIPE (set_reg 15 (pc + 4 + push_bit 1 (scast (ucast tinstr :: 8 word))) s) else s))"
  using branch_target_fmt18 [OF assms] branch_target_fmt16 [OF assms] by blast

theorem ThumbDecode_branches_witness:
  "Reg (snd (snd (ARMul_ThumbDecode (ARMul_NewState ()) 0x100 0xE7FE))) 15 = 0x100"
  using ThumbDecode_branches [of "ARMul_NewState ()" "0xE7FE" "0x100"]
  by (simp add: ARMul_NewState_def FLUSHPIPE_def set_reg_def)

text \<open>
  C20: the two halves of a long branch with link, fetched together, jump to the base
  plus the signed high offset times 4096 plus twice the low offset, and leave in r14
  the address of the instruction after the pair with the Thumb bit set.
\<close>

theorem ThumbDecode_BL:
  assumes "bigendSig s = 0" "tinstr AND 0xF800 = 0xF000" "drop_bit 16 tinstr AND 0xF800 = 0xF800"
  shows "ARMul_ThumbDecode s pc tinstr = (t_branch, 0xDEADC0DE,
     FLUSHPIPE (set_reg 14 ((pc + 4) OR 1)
       (set_reg 15 (Reg s 15 + push_bit 12 (scast (ucast tinstr :: 11 word))
                    + push_bit 1 (drop_bit 16 tinstr AND 0x7FF)) s)))"
  using assms by (rule BL_pair)

theorem ThumbDecode_BL_witness:
  "Reg (snd (snd (ARMul_ThumbDecode (ARMul_NewState ()) 0x100 0xF802F001))) 15 = 0x1004"
  using ThumbDecode_BL [of "ARMul_NewState ()" "0xF802F001" "0x100"]
  by (simp add: ARMul_NewState_def FLUSHPIPE_def set_reg_def)

text \<open>
  The immediate instructions MOV, CMP, ADD and SUB translate field by field:
  both register fields of the ARM instruction are the Thumb register, the immediate
  is the Thumb immediate with no rotation, and the opcode bits are those of MOVS,
  CMPS, ADDS and SUBS.
\<close>

theorem thumb_fmt3_translation:
  "BITS (thumb_fmt3 t) 12 15 = BITS t 8 10 \<and> BITS (thumb_fmt3 t) 16 19 = BITS t 8 10
   \<and> BITS (thumb_fmt3 t) 0 7 = BITS t 0 7 \<and> BITS (thumb_fmt3 t) 8 11 = 0
   \<and> BITS (thumb_fmt3 t) 20 27 = [0x3b, 0x35, 0x29, 0x25] ! unat (fieldr t 0x1800 11)"
  by (rule thumb_fmt3_fields)

end
