(* ===== verification/Arm_Exec.thy ===== *)
theory Arm_Exec
  imports Arm_Transfer Arm_Coproc Arm_Thumb
begin

text \<open>
  The emulation loop of \<^verbatim>\<open>arch/arm/common/armemu.c\<close> (\<^verbatim>\<open>ARMul_Emulate32\<close>): the rest of the main switch
  (branches, coprocessor instructions, software interrupts), the condition check, the
  pipeline, the interrupt poll and the Thumb stage, put together into one round of the loop,
  and the functions of \<^verbatim>\<open>arminit.c\<close> and \<^verbatim>\<open>arm_arch_interface.c\<close> that call it.
  The lemmas show where branches go, that the pipeline delivers the instructions of memory in
  order, and that an interrupt handler returns to the instruction that was not executed.
\<close>

section \<open>What the loop runs on\<close>

text \<open>
  The function pointers and globals the loop reaches: the memory operations, the coprocessor
  handlers, the event handlers and \<open>io_do_cycle\<close> of the machine.  \<open>env_ch\<close> is the switch of the
  instruction fetch, \<open>env_junk\<close> the uninitialised word of \<open>ARMul_STC\<close>.
\<close>

record 'm env =
  env_ch :: bool
  env_mmu :: "'m mmu_ops"
  env_cp :: "'m cp_ops"
  env_event :: "nat \<Rightarrow> 'm ARMul_State \<Rightarrow> 'm ARMul_State"
  env_io :: "'m ARMul_State \<Rightarrow> 'm ARMul_State option"
  env_junk :: ARMword

text \<open>The pipeline, in local variables of the function.\<close>

record pipe =
  p_pc :: ARMword
  p_decoded :: ARMword
  p_loaded :: ARMword

section \<open>Branches and software interrupts\<close>

definition POSBRANCH :: "ARMword \<Rightarrow> ARMword" where
  "POSBRANCH instr = push_bit 2 (instr AND 0x7fffff)"

definition NEGBRANCH :: "ARMword \<Rightarrow> ARMword" where
  "NEGBRANCH instr = push_bit 2 (0xff000000 OR (instr AND 0xffffff))"

definition branch_offset :: "ARMword \<Rightarrow> ARMword" where
  "branch_offset instr = (if BIT instr 23 \<noteq> 0 then NEGBRANCH instr else POSBRANCH instr)"

definition op_branch :: "ARMword \<Rightarrow> ARMword \<Rightarrow> 'm ARMul_State \<Rightarrow> 'm ARMul_State" where
  "op_branch pc instr s = FLUSHPIPE (set_reg 15 (pc + 8 + branch_offset instr) s)"

definition op_branch_link :: "ARMword \<Rightarrow> ARMword \<Rightarrow> 'm ARMul_State \<Rightarrow> 'm ARMul_State" where
  "op_branch_link pc instr s = op_branch pc instr (set_reg 14 (pc + 4) s)"

definition op_swi :: "ARMword \<Rightarrow> ARMword \<Rightarrow> 'm ARMul_State \<Rightarrow> 'm ARMul_State" where
  "op_swi pc instr s =
     (if instr = ARMul_ABORTWORD s \<and> AbortAddr s = pc
      then ARMul_Abort (XScale_set_fsr_far 0x400 pc s) ARMul_PrefetchAbortV
      else ARMul_Abort s ARMul_SWIV)"

section \<open>Coprocessor instructions\<close>

text \<open>The accumulator moves of the XScale, which take the opcodes 0xc4 and 0xc5 on ARMv5.\<close>

definition mar_allowed :: "'m cp_ops \<Rightarrow> ARMword \<Rightarrow> 'm ARMul_State \<Rightarrow> bool" where
  "mar_allowed C instr s \<longleftrightarrow>
     BITS instr 12 15 \<noteq> 15 \<and> BITS instr 16 19 \<noteq> 15 \<and> CP_ACCESS_ALLOWED C s (CPNum instr) \<and> is_XScale s \<noteq> 0
     \<and> BITS instr 4 7 = 0 \<and> CPNum instr = 0 \<and> BITS instr 0 3 = 0"

definition MAR :: "ARMword \<Rightarrow> 'm ARMul_State \<Rightarrow> 'm ARMul_State" where
  "MAR instr s =
     s\<lparr>Accumulator := ucast (Reg s (unat (BITS instr 12 15))) + push_bit 32 (ucast (Reg s (unat (BITS instr 16 19))))\<rparr>"

definition MRA :: "ARMword \<Rightarrow> 'm ARMul_State \<Rightarrow> 'm ARMul_State" where
  "MRA instr s =
     (let t1 = (ucast (drop_bit 32 (Accumulator s) AND 255) :: ARMword);
          t1 = (if t1 AND 128 \<noteq> 0 then t1 - 256 else t1)
      in set_reg (unat (BITS instr 16 19)) t1 (set_reg (unat (BITS instr 12 15)) (ucast (Accumulator s)) s))"

definition op_c0_cf :: "'m env \<Rightarrow> ARMword \<Rightarrow> 'm ARMul_State \<Rightarrow> 'm ARMul_State option" where
  "op_c0_cf E instr s =
     (let op = BITS instr 20 27; lhs = LHS s instr;
          stc = (\<lambda>a s. ARMul_STC (env_junk E) (env_cp E) (env_mmu E) instr a s);
          ldc = (\<lambda>a s. ARMul_LDC (env_cp E) (env_mmu E) instr a s) in
      if op = 0xc4 \<and> is_v5 s \<noteq> 0 then
        Some (if mar_allowed (env_cp E) instr s then MAR instr s else ARMul_UndefInstr s instr)
      else if op = 0xc5 \<and> is_v5 s \<noteq> 0 then
        Some (if mar_allowed (env_cp E) instr s then MRA instr s else ARMul_UndefInstr s instr)
      else if op \<in> {0xc0, 0xc4} then stc lhs s
      else if op \<in> {0xc1, 0xc5} then ldc lhs s
      else if op \<in> {0xc2, 0xc6} then stc lhs (s\<lparr>Base := lhs - LSCOff instr\<rparr>)
      else if op \<in> {0xc3, 0xc7} then ldc lhs (s\<lparr>Base := lhs - LSCOff instr\<rparr>)
      else if op \<in> {0xc8, 0xcc} then stc lhs s
      else if op \<in> {0xc9, 0xcd} then ldc lhs s
      else if op \<in> {0xca, 0xce} then stc lhs (s\<lparr>Base := lhs + LSCOff instr\<rparr>)
      else ldc lhs (s\<lparr>Base := lhs + LSCOff instr\<rparr>))"

definition op_d0_df :: "'m env \<Rightarrow> ARMword \<Rightarrow> 'm ARMul_State \<Rightarrow> 'm ARMul_State option" where
  "op_d0_df E instr s =
     (let op = BITS instr 20 27; down = LHS s instr - LSCOff instr; up = LHS s instr + LSCOff instr;
          stc = (\<lambda>a s. ARMul_STC (env_junk E) (env_cp E) (env_mmu E) instr a s);
          ldc = (\<lambda>a s. ARMul_LDC (env_cp E) (env_mmu E) instr a s) in
      if op \<in> {0xd0, 0xd4} then stc down s
      else if op \<in> {0xd1, 0xd5} then ldc down s
      else if op \<in> {0xd2, 0xd6} then stc down (s\<lparr>Base := down\<rparr>)
      else if op \<in> {0xd3, 0xd7} then ldc down (s\<lparr>Base := down\<rparr>)
      else if op \<in> {0xd8, 0xdc} then stc up s
      else if op \<in> {0xd9, 0xdd} then ldc up s
      else if op \<in> {0xda, 0xde} then stc up (s\<lparr>Base := up\<rparr>)
      else ldc up (s\<lparr>Base := up\<rparr>))"

text \<open>
  The multiply-accumulate instructions of the XScale (opcode 0xe2); \<open>None\<close> when the
  instruction is none of them and decoding goes on.
\<close>

definition sign_ext :: "ARMword \<Rightarrow> ARMdword" where
  "sign_ext w = (let d = (ucast w :: ARMdword) in if bit w 31 then d - push_bit 32 1 else d)"

definition half_sx :: "ARMword \<Rightarrow> ARMword" where
  "half_sx t = (if t AND push_bit 15 1 \<noteq> 0 then t - push_bit 16 1 else t)"

definition mia :: "ARMword \<Rightarrow> 'm ARMul_State \<Rightarrow> 'm ARMul_State option" where
  "mia instr s =
     (let Rm = Reg s (MULLHSReg instr); Rs = Reg s (MULACCReg instr); sel = BITS instr 18 19 in
      if BITS instr 4 11 \<noteq> 1 then None
      else if sel = 0 \<and> BITS instr 16 17 = 0 then
        Some (s\<lparr>Accumulator := Accumulator s + sign_ext Rm * sign_ext Rs\<rparr>)
      else if sel = 2 \<and> BITS instr 16 17 = 0 then
        (let hi = half_sx (drop_bit 16 Rm) * half_sx (drop_bit 16 Rs);
             lo = half_sx (Rm AND 0xffff) * half_sx (Rs AND 0xffff)
         in Some (s\<lparr>Accumulator := Accumulator s + sign_ext hi + sign_ext lo\<rparr>))
      else if sel = 3 then
        (let t1 = half_sx (if BIT instr 17 \<noteq> 0 then drop_bit 16 Rm else Rm AND 0xffff);
             t2 = half_sx (if BIT instr 16 \<noteq> 0 then drop_bit 16 Rs else Rs AND 0xffff)
         in Some (s\<lparr>Accumulator := Accumulator s + sign_ext (t1 * t2)\<rparr>))
      else None)"

definition op_mcr_cdp :: "'m env \<Rightarrow> ARMword \<Rightarrow> 'm ARMul_State \<Rightarrow> 'm ARMul_State option" where
  "op_mcr_cdp E instr s =
     (if BIT instr 4 \<noteq> 0
      then ARMul_MCR (env_cp E) instr (if DESTReg instr = 15 then Reg s 15 + isize s else Reg s (DESTReg instr)) s
      else ARMul_CDP (env_cp E) instr s)"

definition op_e2 :: "'m env \<Rightarrow> ARMword \<Rightarrow> 'm ARMul_State \<Rightarrow> 'm ARMul_State option" where
  "op_e2 E instr s =
     (if \<not> CP_ACCESS_ALLOWED (env_cp E) s (CPNum instr) then Some (ARMul_UndefInstr s instr)
      else case (if is_XScale s \<noteq> 0 then mia instr s else None) of
        Some t \<Rightarrow> Some t
      | None \<Rightarrow> op_mcr_cdp E instr s)"

definition op_mrc_cdp :: "'m env \<Rightarrow> ARMword \<Rightarrow> 'm ARMul_State \<Rightarrow> 'm ARMul_State option" where
  "op_mrc_cdp E instr s =
     (if BIT instr 4 \<noteq> 0 then
        map_option (\<lambda>(temp, s).
          if DESTReg instr = 15 then
            s\<lparr>NFlag := of_bool (temp AND NBIT \<noteq> 0), ZFlag := of_bool (temp AND ZBIT \<noteq> 0),
              CFlag := of_bool (temp AND CBIT \<noteq> 0), VFlag := of_bool (temp AND VBIT \<noteq> 0)\<rparr>
          else set_reg (DESTReg instr) temp s) (ARMul_MRC (env_cp E) instr s)
      else ARMul_CDP (env_cp E) instr s)"

definition op_e0_ef :: "'m env \<Rightarrow> ARMword \<Rightarrow> 'm ARMul_State \<Rightarrow> 'm ARMul_State option" where
  "op_e0_ef E instr s =
     (if BITS instr 20 27 = 0xe2 then op_e2 E instr s
      else if BIT instr 20 = 0 then op_mcr_cdp E instr s
      else op_mrc_cdp E instr s)"

section \<open>The main switch\<close>

text \<open>The double transfers of the XScale, decoded before the switch.\<close>

definition xscale_ldrd :: "'m mmu_ops \<Rightarrow> ARMword \<Rightarrow> ARMword \<Rightarrow> ARMword \<Rightarrow> 'm ARMul_State \<Rightarrow> 'm ARMul_State option" where
  "xscale_ldrd M instr addr temp2 s =
     do {
       let rd = unat (BITS instr 12 15);
       (v, s) \<leftarrow> ARMul_LoadWordN M s addr;
       (w, s) \<leftarrow> ARMul_LoadWordN M (set_reg rd v s) (addr + 4);
       let s = set_reg (rd + 1) w s;
       Some (if BIT instr 21 \<noteq> 0 \<or> BIT instr 24 = 0 then set_reg (LHSReg instr) temp2 s else s) }"

definition xscale_strd :: "'m mmu_ops \<Rightarrow> ARMword \<Rightarrow> ARMword \<Rightarrow> ARMword \<Rightarrow> 'm ARMul_State \<Rightarrow> 'm ARMul_State option" where
  "xscale_strd M instr addr temp2 s =
     do {
       let rd = unat (BITS instr 12 15);
       s \<leftarrow> ARMul_StoreWordN M s addr (Reg s rd);
       s \<leftarrow> ARMul_StoreWordN M s (addr + 4) (Reg s (rd + 1));
       Some (if BIT instr 21 \<noteq> 0 \<or> BIT instr 24 = 0 then set_reg (LHSReg instr) temp2 s else s) }"

definition xscale_double :: "'m mmu_ops \<Rightarrow> ARMword \<Rightarrow> 'm ARMul_State \<Rightarrow> 'm ARMul_State option" where
  "xscale_double M instr s =
     (let temp = GetLS7RHS s instr;
          temp2 = offset_addr (BIT instr 23 \<noteq> 0) (LHS s instr) temp;
          addr = (if BIT instr 24 \<noteq> 0 then temp2 else LHS s instr) in
      if BIT instr 12 \<noteq> 0 then Some (ARMul_UndefInstr s instr)
      else if addr AND 7 \<noteq> 0 then Some (ARMul_Abort s ARMul_DataAbortV)
      else if BITS instr 4 7 = 0xD then xscale_ldrd M instr addr temp2 s
      else xscale_strd M instr addr temp2 s)"

definition mainswitch :: "'m env \<Rightarrow> ARMword \<Rightarrow> ARMword \<Rightarrow> 'm ARMul_State \<Rightarrow> 'm ARMul_State option" where
  "mainswitch E pc instr s =
     (let op = BITS instr 20 27 in
      if is_XScale s \<noteq> 0 \<and> BIT instr 20 = 0 \<and> BITS instr 25 27 = 0 \<and> BITS instr 4 7 \<in> {0xD, 0xF}
      then xscale_double (env_mmu E) instr s
      else if op \<le> 0x3f then data_processing pc (env_mmu E) instr s
      else if op \<le> 0x9f then data_transfer (env_mmu E) instr s
      else if op \<le> 0xaf then Some (op_branch pc instr s)
      else if op \<le> 0xbf then Some (op_branch_link pc instr s)
      else if op \<le> 0xcf then op_c0_cf E instr s
      else if op \<le> 0xdf then op_d0_df E instr s
      else if op \<le> 0xef then op_e0_ef E instr s
      else Some (op_swi pc instr s))"

text \<open>The condition field 15, which ARMv5 uses for unconditional instructions.\<close>

definition BLX1 :: "ARMword \<Rightarrow> ARMword \<Rightarrow> 'm ARMul_State \<Rightarrow> 'm ARMul_State" where
  "BLX1 pc instr s =
     WriteR15Branch (set_reg 14 (pc + 4) s) (pc + 8 + 1 + (branch_offset instr + push_bit 1 (BIT instr 24)))"

definition exec_NV :: "'m env \<Rightarrow> ARMword \<Rightarrow> ARMword \<Rightarrow> 'm ARMul_State \<Rightarrow> 'm ARMul_State option" where
  "exec_NV E pc instr s =
     (if is_v5 s = 0 then Some s
      else if BITS instr 25 27 = 5 then Some (BLX1 pc instr s)
      else if instr AND 0xFC70F000 = 0xF450F000 then Some s
      else if instr AND 0xfe500f00 = 0xfc100100 \<or> instr AND 0xfe500f00 = 0xfc000100 then mainswitch E pc instr s
      else Some (ARMul_UndefInstr s instr))"

definition execute :: "'m env \<Rightarrow> ARMword \<Rightarrow> ARMword \<Rightarrow> 'm ARMul_State \<Rightarrow> 'm ARMul_State option" where
  "execute E pc instr s =
     (let cc = drop_bit 28 instr in
      if cc = 14 then mainswitch E pc instr s
      else if cc = 15 then exec_NV E pc instr s
      else if cond_passed cc s then mainswitch E pc instr s
      else Some s)"

section \<open>The pipeline\<close>

text \<open>
  Filling the pipeline, by what the last instruction left in \<open>NextInstr\<close>.  The result is the
  instruction to execute.  (\<open>ARMul_ICE_debug\<close> has an empty body and always returns 0.)
\<close>

definition advance :: "bool \<Rightarrow> bool \<Rightarrow> 'm env \<Rightarrow> pipe \<Rightarrow> 'm ARMul_State \<Rightarrow> (ARMword \<times> pipe \<times> 'm ARMul_State) option" where
  "advance nonseq inced E p s =
     (let s = (if inced then s else set_reg 15 (Reg s 15 + isize s) s);
          a = p_pc p + isize s;
          load = (if nonseq then ARMul_LoadInstrN else ARMul_LoadInstrS)
      in map_option (\<lambda>(w, s). (p_decoded p, \<lparr>p_pc = a, p_decoded = p_loaded p, p_loaded = w\<rparr>, s\<lparr>NextInstr := 0\<rparr>))
           (load (env_ch E) (env_mmu E) s (a + isize s * 2) (isize s)))"

definition refill :: "bool \<Rightarrow> 'm env \<Rightarrow> 'm ARMul_State \<Rightarrow> (ARMword \<times> pipe \<times> 'm ARMul_State) option" where
  "refill resume E s =
     (let a = Reg s 15;
          s = (set_reg 15 (a + isize s * 2) s)\<lparr>Aborted := 0, AbortAddr := 1\<rparr>;
          first = (if resume then ARMul_ReLoadInstr else ARMul_LoadInstrN);
          next = (if resume then ARMul_ReLoadInstr else ARMul_LoadInstrS) in
      do {
        (i, s) \<leftarrow> first (env_ch E) (env_mmu E) s a (isize s);
        (d, s) \<leftarrow> next (env_ch E) (env_mmu E) s (a + isize s) (isize s);
        (l, s) \<leftarrow> next (env_ch E) (env_mmu E) s (a + isize s * 2) (isize s);
        Some (i, \<lparr>p_pc = a, p_decoded = d, p_loaded = l\<rparr>, s\<lparr>NextInstr := 0\<rparr>) })"

definition next_instr :: "'m env \<Rightarrow> pipe \<Rightarrow> 'm ARMul_State \<Rightarrow> (ARMword \<times> pipe \<times> 'm ARMul_State) option" where
  "next_instr E p s =
     (let n = NextInstr s in
      if n = SEQ then advance False False E p s
      else if n = NONSEQ then advance True False E p s
      else if n = PCINCEDSEQ then advance False True E p s
      else if n = PCINCEDNONSEQ then advance True True E p s
      else refill (n = RESUME) E s)"

section \<open>The emulation loop\<close>

text \<open>Decoding a Thumb instruction; \<open>None\<close> in the first component when there is nothing left to execute.\<close>

definition thumb_stage :: "ARMword \<Rightarrow> ARMword \<Rightarrow> 'm ARMul_State \<Rightarrow> ARMword option \<times> 'm ARMul_State" where
  "thumb_stage pc instr s =
     (if TFlag s = 0 then (Some instr, s)
      else case ARMul_ThumbDecode s pc instr of
        (t_undefined, _, s) \<Rightarrow> (None, ARMul_UndefInstr s instr)
      | (t_branch, _, s) \<Rightarrow> (None, s)
      | (t_decoded, new, s) \<Rightarrow> (Some new, s))"

definition tea_break :: "ARMword \<Rightarrow> 'm ARMul_State \<Rightarrow> 'm ARMul_State" where
  "tea_break pc s = s\<lparr>tea_break_ok := of_bool (\<not> (tea_break_ok s \<noteq> 0 \<and> pc = tea_break_addr s))\<rparr>"

text \<open>
  One round of the loop, from the fetch to the test of \<open>Emulate\<close>, outside of the debugger
  (\<open>debugmode\<close> and \<open>CallDebug\<close> are 0) and without the log.  The result says whether the loop goes on.
\<close>

definition run_instr :: "'m env \<Rightarrow> ARMword \<Rightarrow> ARMword \<Rightarrow> 'm ARMul_State \<Rightarrow> 'm ARMul_State option" where
  "run_instr E pc instr s =
     do {
       s \<leftarrow> env_io E s;
       let s = s\<lparr>NumInstrs := NumInstrs s + 1\<rparr>;
       s \<leftarrow> (case thumb_stage pc instr s of (None, s) \<Rightarrow> Some s | (Some i, s) \<Rightarrow> execute E pc i s);
       Some (tea_break pc s) }"

definition emulate_round :: "'m env \<Rightarrow> pipe \<Rightarrow> 'm ARMul_State \<Rightarrow> (bool \<times> pipe \<times> 'm ARMul_State) option" where
  "emulate_round E p s =
     do {
       (instr, p, s) \<leftarrow> next_instr E p (s\<lparr>isize := INSN_SIZE s\<rparr>);
       let s = (if EventSet s \<noteq> 0 then ARMul_EnvokeEvent (env_event E) s else s);
       let (pending, s) = IntPending s;
       if pending \<noteq> 0 then Some (False, p, s)
       else do {
         let s = (if tea_pc s \<noteq> 0 then s\<lparr>Cpsr := ARMul_GetCPSR s\<rparr> else s);
         if Emulate s < ONCE then Some (False, p, s\<lparr>NextInstr := RESUME\<rparr>)
         else do {
           s \<leftarrow> run_instr E (p_pc p) instr s;
           Some (if Emulate s = ONCE then (True, p, s\<lparr>Emulate := STOP\<rparr>)
                 else (Emulate s = RUN, p, s)) } } }"

text \<open>The loop itself, which need not end; \<open>stop_simulator\<close>, which the debugger sets, is 0.\<close>

partial_function (option) emulate_loop :: "'m env \<Rightarrow> pipe \<Rightarrow> 'm ARMul_State \<Rightarrow> (pipe \<times> 'm ARMul_State) option" where
  "emulate_loop E p s =
     Option.bind (emulate_round E p s) (\<lambda>(go, p, s). if go then emulate_loop E p s else Some (p, s))"

definition ARMul_Emulate32 :: "'m env \<Rightarrow> 'm ARMul_State \<Rightarrow> (ARMword \<times> 'm ARMul_State) option" where
  "ARMul_Emulate32 E s =
     (let p = (if NextInstr s < PRIMEPIPE then \<lparr>p_pc = st_pc s, p_decoded = st_decoded s, p_loaded = st_loaded s\<rparr>
               else \<lparr>p_pc = 0, p_decoded = 0, p_loaded = 0\<rparr>)
      in map_option (\<lambda>(p, s). (p_pc p, s\<lparr>st_decoded := p_decoded p, st_loaded := p_loaded p, st_pc := p_pc p\<rparr>)) (emulate_loop E p s))"

text \<open>
  Running a program and a single instruction (\<open>arminit.c\<close>).  \<open>e26\<close> is the loop for the 26-bit
  modes, the same source compiled without \<open>MODE32\<close>.
\<close>

definition emulate :: "('m ARMul_State \<Rightarrow> (ARMword \<times> 'm ARMul_State) option) \<Rightarrow> 'm env \<Rightarrow>
    'm ARMul_State \<Rightarrow> (ARMword \<times> 'm ARMul_State) option" where
  "emulate e26 E s = (if prog32Sig s \<noteq> 0 \<and> Mode s > 3 then ARMul_Emulate32 E s else e26 s)"

partial_function (option) do_prog_loop :: "('m ARMul_State \<Rightarrow> (ARMword \<times> 'm ARMul_State) option) \<Rightarrow> 'm env \<Rightarrow>
    ARMword \<Rightarrow> 'm ARMul_State \<Rightarrow> (ARMword \<times> 'm ARMul_State) option" where
  "do_prog_loop e26 E pc s =
     (if Emulate s = STOP then Some (pc, s)
      else Option.bind (emulate e26 E (s\<lparr>Emulate := RUN\<rparr>)) (\<lambda>(pc, s). do_prog_loop e26 E pc s))"

definition ARMul_DoProg :: "('m ARMul_State \<Rightarrow> (ARMword \<times> 'm ARMul_State) option) \<Rightarrow> 'm env \<Rightarrow>
    'm ARMul_State \<Rightarrow> (ARMword \<times> 'm ARMul_State) option" where
  "ARMul_DoProg e26 E s = do_prog_loop e26 E 0 (s\<lparr>Emulate := RUN\<rparr>)"

definition ARMul_DoInstr :: "('m ARMul_State \<Rightarrow> (ARMword \<times> 'm ARMul_State) option) \<Rightarrow> 'm env \<Rightarrow>
    'm ARMul_State \<Rightarrow> (ARMword \<times> 'm ARMul_State) option" where
  "ARMul_DoInstr e26 E s = emulate e26 E (s\<lparr>Emulate := ONCE\<rparr>)"

text \<open>The step function of \<open>arm_arch_interface.c\<close>.\<close>

definition arm_step_once :: "('m ARMul_State \<Rightarrow> (ARMword \<times> 'm ARMul_State) option) \<Rightarrow> 'm env \<Rightarrow>
    'm ARMul_State \<Rightarrow> 'm ARMul_State option" where
  "arm_step_once e26 E s =
     map_option (\<lambda>(pc, s). FLUSHPIPE (set_reg 15 pc s)) (ARMul_DoProg e26 E (s\<lparr>NextInstr := RESUME\<rparr>))"

section \<open>Branch targets\<close>

lemma sint_range_bits:
  fixes w :: ARMword
  assumes "sint w \<in> {- (2 ^ m) ..< 2 ^ m}" "m \<le> n" "n < 32"
  shows "bit w n = bit w m"
proof -
  have "signed_take_bit m (sint w) = sint w" using assms(1) by (intro signed_take_bit_int_eq_self) auto
  then have "bit (sint w) n = bit (sint w) (min m n)" by (metis bit_signed_take_bit_iff possible_bit_int)
  then show ?thesis using assms(2,3) by (simp add: bit_sint_iff min_def)
qed

lemma bit_branch_offset:
  assumes "n < 32"
  shows "bit (branch_offset instr) n = (2 \<le> n \<and> bit instr (min (n - 2) 23))"
proof -
  have m: "(0x7fffff :: ARMword) = mask 23" "(0xffffff :: ARMword) = mask 24" "(0xff000000 :: ARMword) = push_bit 24 (mask 8)"
    by (simp_all add: mask_eq_exp_minus_1)
  have n: "bit (NEGBRANCH instr) n = (2 \<le> n \<and> (26 \<le> n \<or> n < 26 \<and> bit instr (n - 2)))"
    using assms unfolding NEGBRANCH_def m by (simp only: bit_push_bit_iff bit_or_iff bit_and_iff bit_mask_iff) auto
  have p: "bit (POSBRANCH instr) n = (2 \<le> n \<and> n < 25 \<and> bit instr (n - 2))"
    using assms unfolding POSBRANCH_def m by (simp only: bit_push_bit_iff bit_and_iff bit_mask_iff) auto
  show ?thesis
  proof (cases "bit instr 23")
    case True
    then have "n < 26 \<or> min (n - 2) 23 = 23" "n < 26 \<Longrightarrow> min (n - 2) 23 = n - 2" by auto
    then show ?thesis using True n by (auto simp: branch_offset_def)
  next
    case False
    then have "n \<ge> 25 \<Longrightarrow> min (n - 2) 23 = 23" "n < 25 \<Longrightarrow> min (n - 2) 23 = n - 2" by auto
    then show ?thesis using False p by (cases "n < 25") (auto simp: branch_offset_def)
  qed
qed

lemma branch_offset_eq:
  assumes "sint off \<in> {- (2 ^ 25) ..< 2 ^ 25}" "off AND 3 = 0" "instr AND 0xffffff = drop_bit 2 off AND 0xffffff"
  shows "branch_offset instr = off"
proof (rule bit_word_eqI)
  fix n :: nat assume "n < LENGTH(32)"
  then have n: "n < 32" by simp
  have m: "(0xffffff :: ARMword) = mask 24" "(3 :: ARMword) = mask 2" by (simp_all add: mask_eq_exp_minus_1)
  have i: "bit instr k = bit off (k + 2)" if "k < 24" for k
    using arg_cong [OF assms(3), of "\<lambda>w. bit w k"] that unfolding m
    by (simp add: bit_and_iff bit_mask_iff bit_drop_bit_eq)
  have low: "\<not> bit off n" if "n < 2"
  proof -
    have "bit (off AND mask 2) n = bit off n" using that by (simp add: bit_and_iff bit_mask_iff n)
    then show ?thesis using assms(2) unfolding m by simp
  qed
  show "bit (branch_offset instr) n = bit off n"
  proof (cases "n < 2")
    case True then show ?thesis using low n by (simp add: bit_branch_offset)
  next
    case False
    then have "bit (branch_offset instr) n = bit off (min (n - 2) 23 + 2)"
      using n i [of "min (n - 2) 23"] by (simp add: bit_branch_offset)
    also have "\<dots> = bit off n"
    proof (cases "n \<le> 25")
      case True
      then have "min (n - 2) 23 + 2 = n" using False by simp
      then show ?thesis by (simp only:)
    next
      case f: False
      then have "min (n - 2) 23 + 2 = 25" by simp
      then show ?thesis using sint_range_bits [OF assms(1), of n] n f by simp
    qed
    finally show ?thesis .
  qed
qed

text \<open>
  C29: a branch whose 24-bit field holds a quarter of the distance from pc + 8 to the target
  jumps to that target, for every target within 32 MB in both directions, and the form
  with link leaves the address of the next instruction in R14.
\<close>

theorem branch_reaches:
  fixes pc target :: ARMword
  assumes "sint (target - (pc + 8)) \<in> {- (2 ^ 25) ..< 2 ^ 25}" "(target - (pc + 8)) AND 3 = 0"
    and "instr AND 0xffffff = drop_bit 2 (target - (pc + 8)) AND 0xffffff"
  shows "Reg (op_branch pc instr s) 15 = target \<and> Reg (op_branch_link pc instr s) 15 = target
    \<and> Reg (op_branch_link pc instr s) 14 = pc + 4 \<and> bit (NextInstr (op_branch pc instr s)) 2"
  using branch_offset_eq [OF assms]
  by (simp add: op_branch_def op_branch_link_def FLUSHPIPE_def set_reg_def bit_or_iff)

theorem branch_reaches_witness:
  "Reg (op_branch 0x8000 0xeafffffe (ARMul_NewState ())) 15 = 0x8000"
  using branch_reaches [of "0x8000" "0x8000" "0xeafffffe" "ARMul_NewState ()"]
  by (simp add: drop_bit_eq_div)

section \<open>Coprocessor reads that fail\<close>

text \<open>
  An MRC from a coprocessor that is not there takes the undefined instruction exception
  and then still writes its destination register, with the condition codes: when the
  destination is R14, the return address the exception has just stored is lost.
\<close>

theorem mrc_undefined_overwrites:
  fixes instr :: ARMword and s :: "'z cstate"
  assumes "BIT instr 4 \<noteq> 0" "CPNum instr \<notin> {1, 4, 5, 15}" "DESTReg instr \<noteq> 15" "is_XScale s = 0"
    and "env_cp E = plain_tables p D X B U"
  defines "u \<equiv> ARMul_Abort s ARMul_UndefinedInstrV"
  shows "op_mrc_cdp E instr s = Some (set_reg (DESTReg instr) (ECC u) u)"
proof -
  have "MRC (env_cp E) (CPNum instr) = NoCoPro4W"
    using assms(2,5) CPNum_less [of instr] by (simp add: plain_tables_simps)
  then have "ARMul_MRC (env_cp E) instr s = Some (ECC u, u)"
    using assms(4) by (simp add: ARMul_MRC_def CP_ACCESS_ALLOWED_def cp_start_def NoCoPro4W_def busy_wait.simps u_def Let_def)
  then show ?thesis using assms(1,3) by (simp add: op_mrc_cdp_def)
qed

definition ex_env :: "unit cp_hw mmu_hw mem_sys env" where
  "ex_env = \<lparr>env_ch = False, env_mmu = arm7100_mmu_ops undefined,
     env_cp = plain_tables False undefined undefined undefined undefined,
     env_event = event_handler, env_io = Some, env_junk = 0\<rparr>"

theorem mrc_undefined_overwrites_witness:
  "op_mrc_cdp ex_env 0xee10e010 ex_cs
   = Some (set_reg 14 (ECC (ARMul_Abort ex_cs ARMul_UndefinedInstrV)) (ARMul_Abort ex_cs ARMul_UndefinedInstrV))"
proof -
  have "DESTReg 0xee10e010 = 14" by (simp add: DESTReg_def BITS_conv take_bit_eq_mod drop_bit_eq_div)
  then show ?thesis
    using mrc_undefined_overwrites [of "0xee10e010" ex_cs ex_env False undefined undefined undefined undefined]
    by (simp add: ex_env_def CPNum_def BITS_conv BIT_def take_bit_eq_mod drop_bit_eq_div ex_cs_def ARMul_NewState_def)
qed

section \<open>The pipeline\<close>

text \<open>Memory from which instructions can be fetched as well.\<close>

locale instr_memory = word_memory +
  assumes li: "ops_load_instr M = ops_read_word M"
begin

lemma val_frame:
  "val (s\<lparr>Reg := R\<rparr>) = val s" "ok (s\<lparr>Reg := R\<rparr>) = ok s"
  "val (s\<lparr>NextInstr := n\<rparr>) = val s" "ok (s\<lparr>NextInstr := n\<rparr>) = ok s"
  "val (s\<lparr>NumScycles := c\<rparr>) = val s" "ok (s\<lparr>NumScycles := c\<rparr>) = ok s"
  "val (s\<lparr>NumNcycles := c\<rparr>) = val s" "ok (s\<lparr>NumNcycles := c\<rparr>) = ok s"
  "val (s\<lparr>abortSig := c\<rparr>) = val s" "ok (s\<lparr>abortSig := c\<rparr>) = ok s"
  "val (s\<lparr>Aborted := c\<rparr>) = val s" "ok (s\<lparr>Aborted := c\<rparr>) = ok s"
  "val (s\<lparr>AbortAddr := c\<rparr>) = val s" "ok (s\<lparr>AbortAddr := c\<rparr>) = ok s"
  using view [of "s\<lparr>Reg := R\<rparr>" s] view [of "s\<lparr>NextInstr := n\<rparr>" s] view [of "s\<lparr>NumScycles := c\<rparr>" s]
    view [of "s\<lparr>NumNcycles := c\<rparr>" s] view [of "s\<lparr>abortSig := c\<rparr>" s] view [of "s\<lparr>Aborted := c\<rparr>" s] view [of "s\<lparr>AbortAddr := c\<rparr>" s]
  by (simp_all add: mem_view_def)

text \<open>\<open>t\<close> has the registers and the fetchable memory of \<open>s\<close>.\<close>

definition same :: "'a ARMul_State \<Rightarrow> 'a ARMul_State \<Rightarrow> bool" where
  "same s t \<longleftrightarrow> Reg t = Reg s \<and> isize t = isize s \<and> ok t = ok s \<and> (\<forall>b. ok s b \<longrightarrow> val t b = val s b)"

lemma same_trans: "same s t \<Longrightarrow> same t u \<Longrightarrow> same s u"
  by (simp add: same_def)

lemma reload_ok:
  assumes "ok s a" "isz = 4"
  shows "\<exists>t. ARMul_ReLoadInstr ch M s a isz = Some (val s a, t) \<and> same s t"
proof -
  obtain m where m: "ops_read_word M s a = Some (Inr (val s a), s\<lparr>mach := m\<rparr>)" "ok (s\<lparr>mach := m\<rparr>) = ok s"
    "\<forall>b. ok s b \<longrightarrow> val (s\<lparr>mach := m\<rparr>) b = val s b" using rd [OF assms(1)] by blast
  have "fetch ch M s a = Some (Inr (val s a), s\<lparr>mach := m\<rparr>)" using m(1) by (simp add: fetch_def li)
  then show ?thesis
    using assms(2) m(2,3) by (auto simp: ARMul_ReLoadInstr_def same_def ARMul_CLEARABORT_def val_frame)
qed

lemma load_ok:
  assumes "ok s a" "isz = 4"
  shows "\<exists>t. ARMul_LoadInstrS ch M s a isz = Some (val s a, t) \<and> same s t"
    and "\<exists>t. ARMul_LoadInstrN ch M s a isz = Some (val s a, t) \<and> same s t"
  using reload_ok [of "s\<lparr>NumScycles := NumScycles s + 1\<rparr>" a isz ch] reload_ok [of "s\<lparr>NumNcycles := NumNcycles s + 1\<rparr>" a isz ch] assms
  by (auto simp: ARMul_LoadInstrS_def ARMul_LoadInstrN_def val_frame same_def)

text \<open>The pipeline is in step: R15 is two instructions ahead and the latches hold the next two.\<close>

definition in_step :: "pipe \<Rightarrow> 'a ARMul_State \<Rightarrow> bool" where
  "in_step p s \<longleftrightarrow> isize s = 4 \<and> Reg s 15 = p_pc p + 8 \<and> ok s (p_pc p + 4) \<and> ok s (p_pc p + 8)
     \<and> p_decoded p = val s (p_pc p + 4) \<and> p_loaded p = val s (p_pc p + 8)"

lemma refill_ok:
  assumes "env_mmu E = M" "isize s = 4" "Reg s 15 = a" "ok s a" "ok s (a + 4)" "ok s (a + 8)"
  shows "\<exists>q t. refill resume E s = Some (val s a, q, t) \<and> p_pc q = a \<and> in_step q t \<and> NextInstr t = 0"
proof -
  let ?s = "(set_reg 15 (a + 8) s)\<lparr>Aborted := 0, AbortAddr := 1\<rparr>"
  have s: "ok ?s = ok s" "val ?s = val s" "isize ?s = 4" using assms(2) by (simp_all add: set_reg_def val_frame)
  let ?f = "if resume then ARMul_ReLoadInstr else ARMul_LoadInstrN" and ?n = "if resume then ARMul_ReLoadInstr else ARMul_LoadInstrS"
  have f: "\<exists>u. ?f (env_ch E) M t b 4 = Some (val t b, u) \<and> same t u" if "ok t b" for t b
    using reload_ok [OF that refl] load_ok(2) [OF that refl] by auto
  have n: "\<exists>u. ?n (env_ch E) M t b 4 = Some (val t b, u) \<and> same t u" if "ok t b" for t b
    using reload_ok [OF that refl] load_ok(1) [OF that refl] by auto
  obtain t1 where t1: "?f (env_ch E) M ?s a 4 = Some (val s a, t1)" "same ?s t1" using f [of ?s a] assms(4) s by auto
  have o1: "ok t1 = ok s" "isize t1 = 4" "val t1 (a + 4) = val s (a + 4)" "val t1 (a + 8) = val s (a + 8)"
    using t1(2) s assms(5,6) by (auto simp: same_def)
  obtain t2 where t2: "?n (env_ch E) M t1 (a + 4) 4 = Some (val s (a + 4), t2)" "same t1 t2" using n [of t1 "a + 4"] assms(5) o1 by auto
  have o2: "ok t2 = ok s" "isize t2 = 4" "val t2 (a + 8) = val s (a + 8)" using t2(2) o1 assms(6) by (auto simp: same_def)
  obtain t3 where t3: "?n (env_ch E) M t2 (a + 8) 4 = Some (val s (a + 8), t3)" "same t2 t3" using n [of t2 "a + 8"] assms(6) o2 by auto
  have r: "refill resume E s = Some (val s a, \<lparr>p_pc = a, p_decoded = val s (a + 4), p_loaded = val s (a + 8)\<rparr>, t3\<lparr>NextInstr := 0\<rparr>)"
    using assms(1-3) t1(1) t2(1) t3(1) o1(2) o2(2) s(3) by (simp add: refill_def Let_def split del: if_split)
  have "same ?s t3" using t1(2) t2(2) t3(2) by (blast intro: same_trans)
  then have "in_step \<lparr>p_pc = a, p_decoded = val s (a + 4), p_loaded = val s (a + 8)\<rparr> (t3\<lparr>NextInstr := 0\<rparr>)"
    using s assms(5,6) by (simp add: in_step_def same_def val_frame set_reg_def)
  with r show ?thesis by auto
qed

lemma advance_ok:
  assumes "env_mmu E = M" "in_step p (if inced then set_reg 15 (Reg s 15 - 4) s else s)" "ok s (p_pc p + 12)"
  shows "\<exists>q t. advance nonseq inced E p s = Some (val s (p_pc p + 4), q, t) \<and> p_pc q = p_pc p + 4 \<and> in_step q t \<and> NextInstr t = 0"
proof -
  let ?s = "if inced then s else set_reg 15 (Reg s 15 + 4) s" and ?a = "p_pc p + 4"
  have p: "isize s = 4" "Reg ?s 15 = ?a + 8" "ok s ?a" "ok s (?a + 4)" "p_decoded p = val s ?a" "p_loaded p = val s (?a + 4)"
    using assms(2) by (auto simp: in_step_def set_reg_def val_frame algebra_simps split: if_splits)
  have s: "ok ?s = ok s" "val ?s = val s" "isize ?s = 4" using p(1) by (simp_all add: set_reg_def val_frame)
  let ?l = "if nonseq then ARMul_LoadInstrN else ARMul_LoadInstrS"
  have k: "ok ?s (?a + 8)" using assms(3) s by (simp add: algebra_simps)
  have "\<exists>t. ?l (env_ch E) M ?s (?a + 8) 4 = Some (val ?s (?a + 8), t) \<and> same ?s t"
    using load_ok [OF k refl, of "env_ch E"] by (cases nonseq) simp_all
  then obtain t where t: "?l (env_ch E) M ?s (?a + 8) 4 = Some (val s (?a + 8), t)" "same ?s t" unfolding s(2) by blast
  have "advance nonseq inced E p s = Some (val s ?a, \<lparr>p_pc = ?a, p_decoded = val s (?a + 4), p_loaded = val s (?a + 8)\<rparr>, t\<lparr>NextInstr := 0\<rparr>)"
    unfolding advance_def p(1) Let_def s(3) assms(1) using t(1) p(5,6) by (simp add: add.assoc)
  moreover have "in_step \<lparr>p_pc = ?a, p_decoded = val s (?a + 4), p_loaded = val s (?a + 8)\<rparr> (t\<lparr>NextInstr := 0\<rparr>)"
    using t(2) p s k by (simp add: in_step_def same_def val_frame)
  ultimately show ?thesis by auto
qed

end


interpretation flat_fetch: instr_memory "arm7100_mmu_ops B" flat_ok ram_word for B
  by unfold_locales (simp add: arm7100_mmu_ops_def)

text \<open>
  After a change of the program counter the pipeline is filled from RAM: the instruction
  at the new address is executed next, R15 is 8 ahead of it, and the two latches hold
  the next two words.
\<close>

theorem pipeline_refilled:
  fixes s :: "'y ustate" and E :: "'y mmu_hw mem_sys env"
  assumes "env_mmu E = arm7100_mmu_ops B" "isize s = 4" "NextInstr s \<ge> PRIMEPIPE"
    and "flat_ok s (Reg s 15)" "flat_ok s (Reg s 15 + 4)" "flat_ok s (Reg s 15 + 8)"
  shows "\<exists>q t. next_instr E p s = Some (ram_word s (Reg s 15), q, t) \<and> p_pc q = Reg s 15 \<and> NextInstr t = 0
    \<and> Reg t 15 = p_pc q + 8 \<and> p_decoded q = ram_word t (p_pc q + 4) \<and> p_loaded q = ram_word t (p_pc q + 8)"
proof -
  have "NextInstr s \<noteq> 0" "NextInstr s \<noteq> 1" "NextInstr s \<noteq> 2" "NextInstr s \<noteq> 3"
    using assms(3) by (auto simp: word_le_nat_alt)
  then have n: "next_instr E p s = refill (NextInstr s = RESUME) E s" by (simp add: next_instr_def Let_def)
  show ?thesis
    using flat_fetch.refill_ok [OF assms(1,2) refl assms(4-6), of "NextInstr s = RESUME"]
    unfolding n flat_fetch.in_step_def by blast
qed

text \<open>
  C6: with the pipeline filled, whichever kind of bus cycle the last instruction left, the
  instruction executed next is the word after the last one, and the pipeline is in
  step again: straight-line code is executed in the order of the addresses.
\<close>

theorem pipeline_advances:
  fixes s :: "'y ustate" and E :: "'y mmu_hw mem_sys env"
  assumes "env_mmu E = arm7100_mmu_ops B" "isize s = 4" "NextInstr s < PRIMEPIPE"
    and "Reg s 15 = p_pc p + (if NextInstr s < PCINCEDSEQ then 8 else 12)"
    and "\<forall>k \<in> {4, 8, 12}. flat_ok s (p_pc p + k)"
    and "p_decoded p = ram_word s (p_pc p + 4)" "p_loaded p = ram_word s (p_pc p + 8)"
  shows "\<exists>q t. next_instr E p s = Some (ram_word s (p_pc p + 4), q, t) \<and> p_pc q = p_pc p + 4 \<and> NextInstr t = 0
    \<and> Reg t 15 = p_pc q + 8 \<and> p_decoded q = ram_word t (p_pc q + 4) \<and> p_loaded q = ram_word t (p_pc q + 8)"
proof -
  let ?i = "\<not> NextInstr s < PCINCEDSEQ" and ?n = "NextInstr s \<in> {NONSEQ, PCINCEDNONSEQ}"
  have "unat (NextInstr s) < 4" using assms(3) by (simp add: word_less_nat_alt)
  then have "unat (NextInstr s) \<in> {unat (0 :: ARMword), unat (1 :: ARMword), unat (2 :: ARMword), unat (3 :: ARMword)}" by auto
  then have "NextInstr s \<in> {0, 1, 2, 3}" by (simp only: insert_iff empty_iff word_unat_eq_iff)
  then have n: "next_instr E p s = advance ?n ?i E p s" by (auto simp: next_instr_def Let_def)
  have i: "flat_fetch.in_step p (if ?i then set_reg 15 (Reg s 15 - 4) s else s)"
    using assms(2,4-7) by (auto simp: flat_fetch.in_step_def set_reg_def flat_fetch.val_frame)
  have k: "flat_ok s (p_pc p + 12)" using assms(5) by simp
  show ?thesis using flat_fetch.advance_ok [OF assms(1) i k, of ?n] unfolding n flat_fetch.in_step_def by blast
qed

section \<open>Interrupts\<close>

definition pending_vector :: "'m ARMul_State \<Rightarrow> ARMword option" where
  "pending_vector s =
     (if NresetSig s = LOW then Some ARMul_ResetV
      else if NfiqSig s = 0 \<and> FFLAG s = 0 then Some ARMul_FIQV
      else if NirqSig s = 0 \<and> IFLAG s = 0 then Some ARMul_IRQV
      else None)"

lemma IntPending_vector:
  "IntPending s = (case pending_vector s of None \<Rightarrow> (0, s) | Some v \<Rightarrow> (1, ARMul_Abort s v))"
  by (simp add: IntPending_def pending_vector_def)

lemma aligned_clear:
  fixes a :: ARMword
  shows "a AND 1 = 0 \<Longrightarrow> a AND 0xfffffffe = a" "a AND 3 = 0 \<Longrightarrow> a AND 0xfffffffc = a"
proof -
  have n: "(0xfffffffe :: ARMword) = NOT 1" "(0xfffffffc :: ARMword) = NOT 3" by simp_all
  have "a AND NOT m = a" if "a AND m = 0" for m :: ARMword
    using that by (auto simp: bit_eq_iff bit_simps)
  then show "a AND 1 = 0 \<Longrightarrow> a AND 0xfffffffe = a" "a AND 3 = 0 \<Longrightarrow> a AND 0xfffffffc = a" unfolding n by blast+
qed

text \<open>
  C2: when an interrupt is pending, the round executes no instruction and enters the handler
  with R14 four after the instruction that was about to be executed, in ARM and Thumb
  state; the usual return (SUBS PC, LR, 4) goes back to exactly that instruction with
  the mode, the flags and all registers as they were: no instruction is lost or repeated.  The
  interrupted program is outside the banks of the IRQ and FIQ modes, whose R14 the entry may overwrite.
\<close>

theorem interrupt_resumes:
  assumes "next_instr E p (s\<lparr>isize := INSN_SIZE s\<rparr>) = Some (instr, q, t)"
    and "pending_vector t = Some v" "v \<noteq> ARMul_ResetV" "EventSet t = 0"
    and "Reg t 15 = p_pc q + 2 * INSN_SIZE t" "p_pc q AND (INSN_SIZE t - 1) = 0"
    and "prog32Sig t \<noteq> LOW" "Mode t > 3" "bank_ok t" "flags_ok t" "Bank t \<noteq> DUMMYBANK"
    and "Bank t \<noteq> FIQBANK" "Bank t \<noteq> IRQBANK"
  shows "\<exists>u. emulate_round E p s = Some (False, q, u) \<and> Mode u = (if v = ARMul_FIQV then FIQ32MODE else IRQ32MODE)
    \<and> Reg u 15 = exc_vector t v AND PCBITS \<and> Reg u 14 = p_pc q + 4
    \<and> (let w = WriteSR15 u (Reg u 14 - 4) in
         Reg w 15 = p_pc q \<and> CPSR w = CPSR t \<and> Mode w = Mode t \<and> (\<forall>r<15. Reg w r = Reg t r))"
proof -
  define m where "m = (if v = ARMul_FIQV then FIQ32MODE else IRQ32MODE)"
  have v: "v = ARMul_FIQV \<or> v = ARMul_IRQV" using assms(2,3) by (auto simp: pending_vector_def split: if_splits)
  then obtain i where x: "exc_table v (TFlag t \<noteq> 0) = Some (m, i, if TFlag t \<noteq> 0 then 0 else 4)"
    by (auto simp: exc_table_def m_def)
  have b: "ModeToBank m \<noteq> Bank t" using v assms(12,13) by (auto simp: m_def ModeToBank_def bankofmode_def)
  note e = Abort_entry [OF x assms(7,9-11)] and r = Abort_return [OF x assms(7,9-11) b]
  have "abort_return_pc t = Reg t 15" using assms(7,8) by (auto simp: abort_return_pc_def)
  then have l: "Reg (ARMul_Abort t v) 14 = p_pc q + 4" using e assms(5) by (simp add: INSN_SIZE_def)
  have a: "emulate_round E p s = Some (False, q, ARMul_Abort t v)"
    using assms(1,2,4) by (simp add: emulate_round_def IntPending_vector)
  have "(if TFlag t \<noteq> 0 then p_pc q AND 0xfffffffe else p_pc q AND 0xfffffffc) = p_pc q"
    using assms(6) aligned_clear [of "p_pc q"] by (auto simp: INSN_SIZE_def split: if_splits)
  then have "Reg (WriteSR15 (ARMul_Abort t v) (p_pc q)) 15 = p_pc q" using r [of "p_pc q"] by simp
  moreover have l4: "Reg (ARMul_Abort t v) 14 - 4 = p_pc q" by (simp add: l)
  moreover have "Mode (ARMul_Abort t v) = m" "Reg (ARMul_Abort t v) 15 = exc_vector t v AND PCBITS" using e by blast+
  moreover have "CPSR (WriteSR15 (ARMul_Abort t v) (p_pc q)) = CPSR t" "Mode (WriteSR15 (ARMul_Abort t v) (p_pc q)) = Mode t"
    "\<forall>r<15. Reg (WriteSR15 (ARMul_Abort t v) (p_pc q)) r = Reg t r" using r [of "p_pc q"] by blast+
  ultimately show ?thesis
    unfolding Let_def m_def by (intro exI [of _ "ARMul_Abort t v"] conjI) (rule a, (simp only: l l4)+)
qed

definition ex_fetch_env :: "unit mmu_hw mem_sys env" where
  "ex_fetch_env = \<lparr>env_ch = False, env_mmu = arm7100_mmu_ops undefined, env_cp = undefined,
     env_event = event_handler, env_io = Some, env_junk = 0\<rparr>"

definition ex_fetch :: "ARMword \<Rightarrow> ARMword \<Rightarrow> unit ustate" where
  "ex_fetch r15 n = (set_reg 15 r15 ex_us)\<lparr>isize := 4, NextInstr := n\<rparr>"

lemma ex_fetch_flat: "k < 4 \<Longrightarrow> flat_ok (ex_fetch r n) (0x40000000 + 4 * of_nat k)" "isize (ex_fetch r n) = 4" "Reg (ex_fetch r n) 15 = r"
    "NextInstr (ex_fetch r n) = n"
  using ex_flat [of k] flat_view [of "ex_fetch r n" ex_us] by (simp_all add: ex_fetch_def mem_view_def set_reg_def)

theorem pipeline_refilled_witness:
  "\<exists>q t. next_instr ex_fetch_env undefined (ex_fetch 0x40000000 PRIMEPIPE) = Some (ram_word (ex_fetch 0x40000000 PRIMEPIPE) 0x40000000, q, t)
     \<and> p_pc q = 0x40000000 \<and> Reg t 15 = 0x40000008"
  using pipeline_refilled [of ex_fetch_env undefined "ex_fetch 0x40000000 PRIMEPIPE" undefined]
    ex_fetch_flat(1) [of 0] ex_fetch_flat(1) [of 1] ex_fetch_flat(1) [of 2]
  by (auto simp: ex_fetch_flat(2-4) ex_fetch_env_def)

theorem pipeline_advances_witness:
  "let s = ex_fetch 0x40000008 SEQ; p = \<lparr>p_pc = 0x40000000, p_decoded = ram_word s 0x40000004, p_loaded = ram_word s 0x40000008\<rparr>
   in \<exists>q t. next_instr ex_fetch_env p s = Some (ram_word s 0x40000004, q, t) \<and> p_pc q = 0x40000004"
  using pipeline_advances [of ex_fetch_env undefined "ex_fetch 0x40000008 SEQ"
      "\<lparr>p_pc = 0x40000000, p_decoded = ram_word (ex_fetch 0x40000008 SEQ) 0x40000004, p_loaded = ram_word (ex_fetch 0x40000008 SEQ) 0x40000008\<rparr>"]
    ex_fetch_flat(1) [of 1] ex_fetch_flat(1) [of 2] ex_fetch_flat(1) [of 3]
  by (auto simp: ex_fetch_flat(2-4) ex_fetch_env_def Let_def)

definition ex_nop_env :: "unit env" where
  "ex_nop_env = \<lparr>env_ch = False,
     env_mmu = \<lparr>ops_read_byte = (\<lambda>s a. Some (Inr 0, s)), ops_write_byte = (\<lambda>s a d. Some (NO_FAULT, s)),
       ops_read_halfword = (\<lambda>s a. Some (Inr 0, s)), ops_write_halfword = (\<lambda>s a d. Some (NO_FAULT, s)),
       ops_read_word = (\<lambda>s a. Some (Inr 0xe1a00000, s)), ops_write_word = (\<lambda>s a d. Some (NO_FAULT, s)),
       ops_load_instr = (\<lambda>s a. Some (Inr 0xe1a00000, s))\<rparr>,
     env_cp = undefined, env_event = event_handler, env_io = Some, env_junk = 0\<rparr>"

definition ex_irq :: "unit ARMul_State" where
  "ex_irq = (set_reg 15 0x8000 (ARMul_NewState ()))\<lparr>Mode := USER32MODE, NresetSig := HIGH, NfiqSig := HIGH, NirqSig := LOW, NextInstr := PRIMEPIPE\<rparr>"

theorem interrupt_resumes_witness:
  "\<exists>q u. emulate_round ex_nop_env undefined ex_irq = Some (False, q, u) \<and> Mode u = IRQ32MODE \<and> Reg u 14 = 0x8004
     \<and> Reg (WriteSR15 u (Reg u 14 - 4)) 15 = 0x8000"
proof -
  obtain q t where n: "next_instr ex_nop_env undefined (ex_irq\<lparr>isize := INSN_SIZE ex_irq\<rparr>) = Some (0xe1a00000, q, t)"
    and f: "p_pc q = 0x8000" "Reg t 15 = 0x8008" "TFlag t = 0" "EventSet t = 0" "NresetSig t = HIGH" "NfiqSig t = HIGH" "NirqSig t = LOW"
      "IFFlags t = 0" "prog32Sig t = HIGH" "Mode t = USER32MODE" "bank_ok t" "flags_ok t" "Bank t = USERBANK"
    by (simp add: ex_nop_env_def ex_irq_def next_instr_def refill_def ARMul_LoadInstrN_def ARMul_LoadInstrS_def ARMul_ReLoadInstr_def
        fetch_def INSN_SIZE_def ARMul_NewState_def ARMul_CLEARABORT_def set_reg_def bank_ok_def flags_ok_def ModeToBank_def bankofmode_def)
  then show ?thesis
    using interrupt_resumes [OF n, of ARMul_IRQV]
    by (auto simp: pending_vector_def IFLAG_def INSN_SIZE_def Let_def)
qed

end
