(* ===== verification/Arm_Inv.thy ===== *)
theory Arm_Inv
  imports Arm_Exec
begin

text \<open>
  The invariant of the status bits and the register bank, through the whole emulation loop
  (\<^verbatim>\<open>arch/arm/common/\<close>): the flags are single bits, and the bank in use is the bank of the mode, with one
  exception, an aborted store of the user registers.  An operation is followed by \<open>keeps\<close>, which says that every
  state it returns has the invariant.  What the loop calls through function pointers enters as two interfaces: \<open>psr_memory\<close>
  (the memory operations leave the status bits alone) and \<open>psr_env\<close> (so do the coprocessors, the events and
  the machine); the memory management unit of \<^verbatim>\<open>arm7100_mmu.c\<close> meets the first on every bus of the locale \<open>psr_bus\<close>.
\<close>

section \<open>The invariant\<close>

text \<open>The set \<open>X\<close> holds the modes in which the user bank may be left in use.\<close>

definition psr_ok :: "ARMword set \<Rightarrow> 'm ARMul_State \<Rightarrow> bool" where
  "psr_ok X s \<longleftrightarrow> flags_ok s \<and> (bank_ok s \<or> Bank s = USERBANK \<and> Mode s \<in> X)"

abbreviation ABORTMODES :: "ARMword set" where "ABORTMODES \<equiv> {SVC26MODE, ABORT32MODE}"

text \<open>What the invariant speaks about; an operation that leaves the view alone keeps the invariant.\<close>

definition psr_view :: "'m ARMul_State \<Rightarrow> ARMword \<times> bank \<times> ARMword \<times> ARMword \<times> ARMword \<times> ARMword \<times> ARMword \<times> ARMword \<times> ARMword" where
  "psr_view s = (Mode s, Bank s, NFlag s, ZFlag s, CFlag s, VFlag s, SFlag s, TFlag s, IFFlags s)"

abbreviation keeps :: "ARMword set \<Rightarrow> 'm ARMul_State option \<Rightarrow> bool" where
  "keeps X r \<equiv> pred_option (psr_ok X) r"

abbreviation keeps2 :: "ARMword set \<Rightarrow> ('a \<times> 'm ARMul_State) option \<Rightarrow> bool" where
  "keeps2 X r \<equiv> pred_option (\<lambda>p. psr_ok X (snd p)) r"

abbreviation keeps3 :: "ARMword set \<Rightarrow> ('a \<times> 'b \<times> 'm ARMul_State) option \<Rightarrow> bool" where
  "keeps3 X r \<equiv> pred_option (\<lambda>p. psr_ok X (snd (snd p))) r"

abbreviation keeps4 :: "ARMword set \<Rightarrow> ('a \<times> 'b \<times> 'c \<times> 'm ARMul_State) option \<Rightarrow> bool" where
  "keeps4 X r \<equiv> pred_option (\<lambda>p. psr_ok X (snd (snd (snd p)))) r"

text \<open>A multiple store of the user registers: the cases 0x84, 0x86, 0x8c, 0x8e, 0x94, 0x96, 0x9c and 0x9e.\<close>

definition stm_user :: "ARMword \<Rightarrow> bool" where
  "stm_user instr \<longleftrightarrow> BITS instr 20 27 \<in> {0x84, 0x86, 0x8c, 0x8e, 0x94, 0x96, 0x9c, 0x9e}"

named_theorems psr "operations that keep the invariant"

section \<open>Status registers and exceptions\<close>

lemma psr_ok_frame [simp]:
  "psr_ok X (s\<lparr>Emulate := v0\<rparr>) = psr_ok X s"
  "psr_ok X (s\<lparr>EndCondition := v1\<rparr>) = psr_ok X s"
  "psr_ok X (s\<lparr>ErrorCode := v2\<rparr>) = psr_ok X s"
  "psr_ok X (s\<lparr>Reg := v3\<rparr>) = psr_ok X s"
  "psr_ok X (s\<lparr>RegBank := v4\<rparr>) = psr_ok X s"
  "psr_ok X (s\<lparr>Cpsr := v5\<rparr>) = psr_ok X s"
  "psr_ok X (s\<lparr>Spsr := v6\<rparr>) = psr_ok X s"
  "psr_ok X (s\<lparr>Accumulator := v7\<rparr>) = psr_ok X s"
  "psr_ok X (s\<lparr>st_pc := v8\<rparr>) = psr_ok X s"
  "psr_ok X (s\<lparr>st_loaded := v9\<rparr>) = psr_ok X s"
  "psr_ok X (s\<lparr>st_decoded := v10\<rparr>) = psr_ok X s"
  "psr_ok X (s\<lparr>NumScycles := v11\<rparr>) = psr_ok X s"
  "psr_ok X (s\<lparr>NumNcycles := v12\<rparr>) = psr_ok X s"
  "psr_ok X (s\<lparr>NumIcycles := v13\<rparr>) = psr_ok X s"
  "psr_ok X (s\<lparr>NumCcycles := v14\<rparr>) = psr_ok X s"
  "psr_ok X (s\<lparr>NumFcycles := v15\<rparr>) = psr_ok X s"
  "psr_ok X (s\<lparr>NumInstrs := v16\<rparr>) = psr_ok X s"
  "psr_ok X (s\<lparr>NextInstr := v17\<rparr>) = psr_ok X s"
  "psr_ok X (s\<lparr>EventSet := v18\<rparr>) = psr_ok X s"
  "psr_ok X (s\<lparr>Now := v19\<rparr>) = psr_ok X s"
  "psr_ok X (s\<lparr>EventPtr := v20\<rparr>) = psr_ok X s"
  "psr_ok X (s\<lparr>NresetSig := v21\<rparr>) = psr_ok X s"
  "psr_ok X (s\<lparr>NfiqSig := v22\<rparr>) = psr_ok X s"
  "psr_ok X (s\<lparr>NirqSig := v23\<rparr>) = psr_ok X s"
  "psr_ok X (s\<lparr>abortSig := v24\<rparr>) = psr_ok X s"
  "psr_ok X (s\<lparr>NtransSig := v25\<rparr>) = psr_ok X s"
  "psr_ok X (s\<lparr>Aborted := v26\<rparr>) = psr_ok X s"
  "psr_ok X (s\<lparr>AbortAddr := v27\<rparr>) = psr_ok X s"
  "psr_ok X (s\<lparr>Base := v28\<rparr>) = psr_ok X s"
  "psr_ok X (s\<lparr>mmu := v29\<rparr>) = psr_ok X s"
  "psr_ok X (s\<lparr>tea_break_ok := v30\<rparr>) = psr_ok X s"
  "psr_ok X (s\<lparr>tea_break_addr := v31\<rparr>) = psr_ok X s"
  "psr_ok X (s\<lparr>tea_pc := v32\<rparr>) = psr_ok X s"
  "psr_ok X (s\<lparr>isize := v33\<rparr>) = psr_ok X s"
  "psr_ok X (s\<lparr>mach := v34\<rparr>) = psr_ok X s"
  by (simp_all add: psr_ok_def bank_ok_def flags_ok_def)

lemma psr_ok_flags [simp]:
  "psr_ok X s \<Longrightarrow> v \<le> 1 \<Longrightarrow> psr_ok X (s\<lparr>NFlag := v\<rparr>)" "psr_ok X s \<Longrightarrow> v \<le> 1 \<Longrightarrow> psr_ok X (s\<lparr>ZFlag := v\<rparr>)"
  "psr_ok X s \<Longrightarrow> v \<le> 1 \<Longrightarrow> psr_ok X (s\<lparr>CFlag := v\<rparr>)" "psr_ok X s \<Longrightarrow> v \<le> 1 \<Longrightarrow> psr_ok X (s\<lparr>VFlag := v\<rparr>)"
  "psr_ok X s \<Longrightarrow> v \<le> 1 \<Longrightarrow> psr_ok X (s\<lparr>SFlag := v\<rparr>)" "psr_ok X s \<Longrightarrow> v \<le> 1 \<Longrightarrow> psr_ok X (s\<lparr>TFlag := v\<rparr>)"
  "psr_ok X s \<Longrightarrow> v \<le> 3 \<Longrightarrow> psr_ok X (s\<lparr>IFFlags := v\<rparr>)"
  by (simp_all add: psr_ok_def bank_ok_def flags_ok_def)

lemma psr_CFlag: "psr_ok X s \<Longrightarrow> CFlag s \<le> 1"
  by (simp add: psr_ok_def flags_ok_def)

lemma of_bool_le_1 [simp]: "(of_bool b :: ARMword) \<le> 1"
  by (cases b) simp_all

lemma psr_set_reg [psr]: "psr_ok X (set_reg r v s) = psr_ok X s" "psr_ok X (FLUSHPIPE s) = psr_ok X s"
  by (simp_all add: set_reg_def FLUSHPIPE_def)

lemma psr_flag_ops [psr]:
  assumes "psr_ok X s"
  shows "psr_ok X (ARMul_NegZero s v)" "psr_ok X (ARMul_AddCarry s a b c)" "psr_ok X (ARMul_AddOverflow s a b c)"
    "psr_ok X (ARMul_SubCarry s a b c)" "psr_ok X (ARMul_SubOverflow s a b c)"
  using assms unfolding ARMul_NegZero_def ARMul_AddCarry_def ARMul_AddOverflow_def ARMul_SubCarry_def ARMul_SubOverflow_def
  by (simp_all del: split_of_bool split_of_bool_asm)

lemma psr_assign_mode:
  assumes "psr_ok X s" "m \<le> 31"
  shows "psr_ok X (assign_mode m s)"
proof (cases "Mode s = m")
  case True then show ?thesis using assms by (simp add: assign_mode_def)
next
  case False
  obtain R RB where "ARMul_SwitchMode s (Mode s) m = (m, s\<lparr>Bank := ModeToBank m, RegBank := RB, Reg := R\<rparr>)"
    using SwitchMode_form by blast
  then show ?thesis using False assms by (simp add: assign_mode_def psr_ok_def bank_ok_def flags_ok_def Let_def)
qed

lemma psr_assign_flags: "psr_ok X s \<Longrightarrow> psr_ok X (assign_flags s)"
  by (simp add: assign_flags_def and_mask_le del: split_of_bool split_of_bool_asm)

lemma psr_fix_r15: "psr_ok X (fix_r15 m s) = psr_ok X s"
  by (simp add: fix_r15_def psr)

lemma psr_status [psr]:
  assumes "psr_ok X s"
  shows "psr_ok X (ARMul_CPSRAltered s)" "psr_ok X (ARMul_R15Altered s)" "psr_ok X (ARMul_SetCPSR s v)" "psr_ok X (ARMul_SetR15 s v)"
    "psr_ok X (ARMul_FixCPSR s instr v)" "psr_ok X (ARMul_FixSPSR s instr v)" "psr_ok X (ARMul_SetSPSR s m v)"
proof -
  have c: "psr_ok X (ARMul_CPSRAltered t)" if "psr_ok X t" for t :: "'a ARMul_State"
    using that by (simp add: CPSRAltered_conv psr_fix_r15 psr_assign_flags psr_assign_mode and_mask_le)
  have r: "psr_ok X (ARMul_R15Altered t)" if "psr_ok X t" for t :: "'a ARMul_State"
  proof -
    have "R15MODE t \<le> 31" unfolding R15MODE_def by (rule order_trans [OF and_mask_le(1)]) simp
    then have "psr_ok X (assign_mode (R15MODE t) t)" using that by (rule psr_assign_mode [rotated])
    then show ?thesis by (simp add: ARMul_R15Altered_def and_mask_le Let_def del: split_of_bool split_of_bool_asm)
  qed
  show "psr_ok X (ARMul_CPSRAltered s)" "psr_ok X (ARMul_R15Altered s)" using assms by (blast intro: c r)+
  show "psr_ok X (ARMul_SetCPSR s v)" "psr_ok X (ARMul_SetR15 s v)" using assms by (simp_all add: ARMul_SetCPSR_def ARMul_SetR15_def c r psr)
  show "psr_ok X (ARMul_FixCPSR s instr v)" using assms unfolding ARMul_FixCPSR_def Let_def by (intro c) simp
  show "psr_ok X (ARMul_FixSPSR s instr v)" "psr_ok X (ARMul_SetSPSR s m v)" using assms by (simp_all add: ARMul_FixSPSR_def ARMul_SetSPSR_def Let_def)
qed

lemma psr_exceptions [psr]:
  assumes "psr_ok X s"
  shows "psr_ok X (ARMul_Abort s v)" "psr_ok X (ARMul_UndefInstr s instr)" "psr_ok X (TAKEABORT s)"
    "psr_ok X (supp_TAKEABORT s)" "psr_ok X (CPTAKEABORT s)" "psr_ok X (snd (IntPending s))"
proof -
  have s: "psr_ok X (SETABORT t i m d u)" if "psr_ok X u" for t i m d and u :: "'a ARMul_State"
    using that by (simp add: SETABORT_def psr Let_def)
  have w: "psr_ok X (abort_switch v t u)" if "psr_ok X u" for v t and u :: "'a ARMul_State"
    using that by (simp add: abort_switch_def s Let_def)
  have a: "psr_ok X (ARMul_Abort u v)" if "psr_ok X u" for v and u :: "'a ARMul_State"
    using that by (simp add: ARMul_Abort_def psr w Let_def)
  show "psr_ok X (ARMul_Abort s v)" "psr_ok X (ARMul_UndefInstr s instr)" "psr_ok X (TAKEABORT s)"
    "psr_ok X (supp_TAKEABORT s)" "psr_ok X (CPTAKEABORT s)" "psr_ok X (snd (IntPending s))"
    using assms by (simp_all add: a ARMul_UndefInstr_def TAKEABORT_def supp_TAKEABORT_def CPTAKEABORT_def IntPending_def)
qed

section \<open>Memory operations\<close>

lemma psr_view_ok: "psr_view t = psr_view s \<Longrightarrow> psr_ok X s \<Longrightarrow> psr_ok X t"
  by (simp add: psr_view_def psr_ok_def bank_ok_def flags_ok_def)

lemma psr_view_frame [simp]:
  "psr_view (s\<lparr>Emulate := v0\<rparr>) = psr_view s"
  "psr_view (s\<lparr>EndCondition := v1\<rparr>) = psr_view s"
  "psr_view (s\<lparr>ErrorCode := v2\<rparr>) = psr_view s"
  "psr_view (s\<lparr>Reg := v3\<rparr>) = psr_view s"
  "psr_view (s\<lparr>RegBank := v4\<rparr>) = psr_view s"
  "psr_view (s\<lparr>Cpsr := v5\<rparr>) = psr_view s"
  "psr_view (s\<lparr>Spsr := v6\<rparr>) = psr_view s"
  "psr_view (s\<lparr>NumScycles := v7\<rparr>) = psr_view s"
  "psr_view (s\<lparr>NumNcycles := v8\<rparr>) = psr_view s"
  "psr_view (s\<lparr>NumIcycles := v9\<rparr>) = psr_view s"
  "psr_view (s\<lparr>NumCcycles := v10\<rparr>) = psr_view s"
  "psr_view (s\<lparr>EventSet := v11\<rparr>) = psr_view s"
  "psr_view (s\<lparr>EventPtr := v12\<rparr>) = psr_view s"
  "psr_view (s\<lparr>Now := v13\<rparr>) = psr_view s"
  "psr_view (s\<lparr>NfiqSig := v14\<rparr>) = psr_view s"
  "psr_view (s\<lparr>NirqSig := v15\<rparr>) = psr_view s"
  "psr_view (s\<lparr>abortSig := v16\<rparr>) = psr_view s"
  "psr_view (s\<lparr>Aborted := v17\<rparr>) = psr_view s"
  "psr_view (s\<lparr>AbortAddr := v18\<rparr>) = psr_view s"
  "psr_view (s\<lparr>mmu := v19\<rparr>) = psr_view s"
  "psr_view (s\<lparr>mach := v20\<rparr>) = psr_view s"
  by (simp_all add: psr_view_def)

lemma bind_keeps:
  "keeps X r \<Longrightarrow> (\<And>s. psr_ok X s \<Longrightarrow> pred_option P (f s)) \<Longrightarrow> pred_option P (Option.bind r f)"
  "keeps2 X r2 \<Longrightarrow> (\<And>v s. psr_ok X s \<Longrightarrow> pred_option P (f2 (v, s))) \<Longrightarrow> pred_option P (Option.bind r2 f2)"
  "keeps3 X r3 \<Longrightarrow> (\<And>v w s. psr_ok X s \<Longrightarrow> pred_option P (f3 (v, w, s))) \<Longrightarrow> pred_option P (Option.bind r3 f3)"
  subgoal by (cases r) auto
  subgoal by (cases r2) auto
  subgoal by (cases r3) auto
  done

lemma map_keeps:
  "keeps X r \<Longrightarrow> (\<And>s. psr_ok X s \<Longrightarrow> P (f s)) \<Longrightarrow> pred_option P (map_option f r)"
  "keeps2 X r2 \<Longrightarrow> (\<And>v s. psr_ok X s \<Longrightarrow> P (f2 (v, s))) \<Longrightarrow> pred_option P (map_option f2 r2)"
  "keeps3 X r3 \<Longrightarrow> (\<And>v w s. psr_ok X s \<Longrightarrow> P (f3 (v, w, s))) \<Longrightarrow> pred_option P (map_option f3 r3)"
  subgoal by (cases r) auto
  subgoal by (cases r2) auto
  subgoal by (cases r3) auto
  done

lemma keeps_case:
  "pred_option P (case r of None \<Rightarrow> None | Some x \<Rightarrow> f x) = pred_option P (Option.bind r f)"
  by (cases r) simp_all

lemmas keeps_rules = bind_keeps map_keeps

lemmas keeps_steps =
  bind_keeps [where P = "psr_ok X" and X = X for X] bind_keeps [where P = "\<lambda>p. psr_ok X (snd p)" and X = X for X]
  bind_keeps [where P = "\<lambda>p. psr_ok X (snd (snd p))" and X = X for X]
  map_keeps [where P = "psr_ok X" and X = X for X] map_keeps [where P = "\<lambda>p. psr_ok X (snd p)" and X = X for X]
  map_keeps [where P = "\<lambda>p. psr_ok X (snd (snd p))" and X = X for X]

lemma psr_small [psr]:
  assumes "psr_ok X s"
  shows "psr_ok X (ARMul_Icycles s n)" "psr_ok X (ARMul_Ccycles s n)" "psr_ok X (ARMul_CLEARABORT s)" "psr_ok X (data_fault f a s)"
    "psr_ok X (ARMul_PREFETCHABORT a s)" "psr_ok X (INCPC s)" "psr_ok X (BUSUSEDINCPCS s)" "psr_ok X (BUSUSEDINCPCN s)"
    "psr_ok X (XScale_set_fsr_far v w s)" "psr_ok X (WriteR15 s v)" "psr_ok X (WriteSR15 s v)" "psr_ok X (WriteR15Branch s v)"
  using assms by (simp_all add: ARMul_Icycles_def ARMul_Ccycles_def ARMul_CLEARABORT_def data_fault_def ARMul_DATAABORT_def
     ARMul_PREFETCHABORT_def INCPC_def BUSUSEDINCPCS_def BUSUSEDINCPCN_def XScale_set_fsr_far_def WriteR15_def WriteSR15_def
     WriteR15Branch_def psr Let_def)

lemma psr_dest [psr]:
  assumes "psr_ok X s"
  shows "psr_ok X (WRITEDEST instr d s)" "psr_ok X (WRITESDEST instr d s)" "psr_ok X (WRITEDESTB instr d s)"
  using assms by (simp_all add: WRITEDEST_def WRITESDEST_def WRITEDESTB_def psr)

locale psr_memory =
  fixes M :: "'m mmu_ops"
  assumes reads: "ops_read_byte M s a = Some (r, t) \<Longrightarrow> psr_view t = psr_view s" "ops_read_halfword M s a = Some (r, t) \<Longrightarrow> psr_view t = psr_view s"
      "ops_read_word M s a = Some (r, t) \<Longrightarrow> psr_view t = psr_view s" "ops_load_instr M s a = Some (r, t) \<Longrightarrow> psr_view t = psr_view s"
    and writes: "ops_write_byte M s a d = Some (f, t) \<Longrightarrow> psr_view t = psr_view s" "ops_write_halfword M s a d = Some (f, t) \<Longrightarrow> psr_view t = psr_view s"
      "ops_write_word M s a d = Some (f, t) \<Longrightarrow> psr_view t = psr_view s"
begin

lemma keeps_ops:
  assumes "psr_ok X s"
  shows "keeps2 X (ops_read_byte M s a)" "keeps2 X (ops_read_halfword M s a)" "keeps2 X (ops_read_word M s a)"
    "keeps2 X (ops_load_instr M s a)" "keeps2 X (ops_write_byte M s a d)" "keeps2 X (ops_write_halfword M s a d)"
    "keeps2 X (ops_write_word M s a d)"
  using assms by (auto simp: option.pred_set elim!: psr_view_ok [rotated] dest: reads writes)

lemma keeps_data_result: "keeps2 X r \<Longrightarrow> keeps2 X (data_result a r)"
  by (auto simp: data_result_def psr Let_def split: option.splits sum.splits)

lemma keeps_store_result: "keeps2 X r \<Longrightarrow> keeps X (store_result a r)"
  by (auto simp: store_result_def psr Let_def split: option.splits)

lemma keeps_loads:
  assumes "psr_ok X s"
  shows "keeps2 X (ARMul_ReadWord M s a)" "keeps2 X (ARMul_LoadWordS M s a)" "keeps2 X (ARMul_LoadWordN M s a)"
    "keeps2 X (ARMul_LoadHalfWord M s a)" "keeps2 X (ARMul_ReadByte M s a)" "keeps2 X (ARMul_LoadByte M s a)"
  unfolding ARMul_ReadWord_def ARMul_LoadWordS_def ARMul_LoadWordN_def ARMul_LoadHalfWord_def ARMul_ReadByte_def ARMul_LoadByte_def
  by (rule keeps_data_result, rule keeps_ops, simp add: assms)+

lemma keeps_stores:
  assumes "psr_ok X s"
  shows "keeps X (ARMul_WriteWord M s a d)" "keeps X (ARMul_StoreWordS M s a d)" "keeps X (ARMul_StoreWordN M s a d)"
    "keeps X (ARMul_StoreHalfWord M s a d)" "keeps X (ARMul_WriteByte M s a d)" "keeps X (ARMul_StoreByte M s a d)"
  unfolding ARMul_WriteWord_def ARMul_StoreWordS_def ARMul_StoreWordN_def ARMul_StoreHalfWord_def ARMul_WriteByte_def ARMul_StoreByte_def
  by (rule keeps_store_result, rule keeps_ops, simp add: assms)+

lemma keeps_swaps:
  assumes "psr_ok X s"
  shows "keeps2 X (ARMul_SwapWord M s a d)" "keeps2 X (ARMul_SwapByte M s a d)"
  unfolding ARMul_SwapWord_def ARMul_SwapByte_def keeps_case
  by (rule keeps_rules, rule keeps_loads, use assms in simp, simp, rule map_keeps, (rule keeps_ops | rule keeps_stores), simp, simp)+

lemma keeps_fetch:
  assumes "psr_ok X s"
  shows "keeps2 X (ARMul_ReLoadInstr ch M s a i)" 
proof -
  have f: "keeps2 X (fetch ch M t b)" if "psr_ok X t" for t b using that by (simp add: fetch_def keeps_ops)
  show ?thesis unfolding ARMul_ReLoadInstr_def keeps_case Let_def
    by (rule f [OF assms, THEN bind_keeps(2)] 
      | (simp add: psr keeps_case split: sum.splits if_splits) | (intro allI impI conjI) | (rule bind_keeps(2) [OF f]))+
qed

end

section \<open>Multiple transfers\<close>

lemma psr_ldst [psr]:
  assumes "psr_ok X s"
  shows "psr_ok X (ldm_abort a s)" "psr_ok X (ldm_put r v a s)" "psr_ok X (lsm_writeback instr v s)" "psr_ok X (late_writeback instr v s)"
    "psr_ok X (stm_check a s)" "psr_ok X (stm_finish instr v s)"
  using assms by (simp_all add: ldm_abort_def ldm_put_def lsm_writeback_def late_writeback_def stm_check_def stm_finish_def psr Let_def)

lemma bind_data [simp]: "pred_option P (Option.bind (x :: nat option) f) = (\<forall>n. x = Some n \<longrightarrow> pred_option P (f n))"
  by (cases x) auto

lemma psr_in_user_bank:
  assumes "psr_ok X s"
  shows "psr_ok UNIV (snd (ARMul_SwitchMode s m USER26MODE))"
  using SwitchMode_form [of s m USER26MODE] assms by (auto simp: psr_ok_def flags_ok_def bank_ok_def ModeToBank_def bankofmode_def)

lemma psr_UNIV: "psr_ok X s \<Longrightarrow> psr_ok UNIV s"
  by (auto simp: psr_ok_def)

lemma psr_switch_back:
  assumes "psr_ok UNIV s"
  shows "psr_ok X (snd (ARMul_SwitchMode s m (Mode s)))"
  using SwitchMode_form [of s m "Mode s"] assms by (auto simp: psr_ok_def flags_ok_def bank_ok_def)

context psr_memory
begin

lemma keeps_load_common:
  assumes "keeps2 X r" "\<And>i d s. psr_ok X s \<Longrightarrow> psr_ok X (wr i d s)"
  shows "keeps2 X (load_common f wr instr r)"
  using assms by (auto simp: load_common_def psr Let_def split: option.splits)

lemma keeps_store_common: "keeps X r \<Longrightarrow> keeps2 X (store_common r)"
  unfolding store_common_def by (erule map_keeps) (simp add: psr Let_def)

lemma keeps_single:
  assumes "psr_ok X s"
  shows "keeps2 X (LoadWord M s instr a)" "keeps2 X (LoadHalfWord M s instr a sx)" "keeps2 X (LoadByte M s instr a sx)"
    "keeps2 X (StoreWord M s instr a)" "keeps2 X (StoreHalfWord M s instr a)" "keeps2 X (StoreByte M s instr a)"
  using assms unfolding LoadWord_def LoadHalfWord_def LoadByte_def StoreWord_def StoreHalfWord_def StoreByte_def Let_def
  by (simp_all add: keeps_load_common keeps_store_common keeps_loads keeps_stores psr)

lemma keeps_double:
  assumes "psr_ok X s"
  shows "keeps X (Handle_Load_Double M s instr)" "keeps X (Handle_Store_Double M s instr)"
  using assms unfolding Handle_Load_Double_def Handle_Store_Double_def Let_def
  by (simp_all add: keeps_steps keeps_loads keeps_stores psr)

lemma keeps_ldm_loop: "psr_ok X s \<Longrightarrow> keeps X (ldm_loop M instr ts a s)"
proof (induction ts arbitrary: a s)
  case (Cons t ts)
  then show ?case by (simp add: keeps_case keeps_steps keeps_loads psr Let_def)
qed simp

lemma keeps_stm_loop: "psr_ok X s \<Longrightarrow> keeps X (stm_loop M instr ts a s)"
proof (induction ts arbitrary: a s)
  case (Cons t ts)
  then show ?case by (simp add: keeps_case keeps_steps keeps_stores psr Let_def)
qed simp

lemma keeps_stm_transfer: "psr_ok X s \<Longrightarrow> keeps X (stm_transfer M instr a s)"
  by (simp add: stm_transfer_def keeps_steps keeps_stores keeps_stm_loop psr Let_def)

lemma keeps_mult:
  assumes "psr_ok X s"
  shows "keeps X (LoadMult M s instr a w)" "keeps X (StoreMult M s instr a w)"
  using assms unfolding LoadMult_def StoreMult_def Let_def
  by (simp_all add: keeps_steps keeps_loads keeps_ldm_loop keeps_stm_transfer psr)

end

section \<open>Multiple transfers of the user registers\<close>

lemma psr_user_mode: "psr_ok UNIV s \<Longrightarrow> user_mode s \<Longrightarrow> psr_ok X s"
  by (auto simp: psr_ok_def bank_ok_def user_mode_def ModeToBank_def bankofmode_def)

lemma psr_SetCPSR_mode:
  assumes "psr_ok UNIV s" "(v AND psr_mask s) AND MODEBITS \<in> X"
  shows "psr_ok X (ARMul_SetCPSR s v)"
proof -
  have "psr_ok UNIV (ARMul_SetCPSR s v)" using assms(1) by (rule psr)
  moreover have "Mode (ARMul_SetCPSR s v) = (v AND psr_mask s) AND MODEBITS"
    by (simp add: ARMul_SetCPSR_def CPSRAltered_conv psr_mask_def)
  ultimately show ?thesis using assms(2) by (auto simp: psr_ok_def)
qed

lemma exc_mode_bits: "((x AND NOT (x AND 31 OR 32)) OR 128 OR m) AND 31 = m AND (31 :: ARMword)"
  by (rule word32_eqI) (auto simp: bit_simps)

lemma psr_data_abort:
  assumes "psr_ok UNIV s" "ABORTMODES \<subseteq> X"
  shows "psr_ok X (TAKEABORT s)"
proof -
  define m where "m = (if prog32Sig s \<noteq> 0 then ABORT32MODE else SVC26MODE)"
  define d :: ARMword where "d = (if TFlag s \<noteq> 0 then - 4 else 0)"
  define s1 where "s1 = s\<lparr>Aborted := 0\<rparr>"
  let ?t = "ARMul_SetSPSR s1 m (ARMul_GetCPSR s1)"
  have u: "psr_ok UNIV ?t" using assms(1) by (simp add: s1_def psr)
  then have f: "flags_ok ?t" by (simp add: psr_ok_def)
  have p: "psr_mask ?t = psr_mask s" "Mode ?t = Mode s" by (simp_all add: ARMul_SetSPSR_def psr_mask_def s1_def Let_def)
  let ?v = "(ARMul_GetCPSR ?t AND NOT (EMODE ?t OR TBIT)) OR IBIT OR m"
  have "?v AND MODEBITS = m AND 31" 
    using exc_mode_bits [of "CPSR ?t" m] unfolding ARMul_GetCPSR_def CPSR_fields(2) [OF f, unfolded ARMul_GetCPSR_def] .
  moreover have "(v AND p) AND MODEBITS = (v AND MODEBITS) AND p" for v p :: ARMword by (simp only: and.assoc and.commute)
  ultimately have "(?v AND psr_mask s) AND MODEBITS = (m AND 31) AND psr_mask s" by (simp only:)
  also have "\<dots> = m" by (simp add: m_def psr_mask_def)
  finally have "(?v AND psr_mask ?t) AND MODEBITS \<in> X" using assms(2) unfolding p by (simp add: m_def)
  then have "psr_ok X (ARMul_SetCPSR ?t ?v)" by (rule psr_SetCPSR_mode [OF u])
  then have "psr_ok X (SETABORT (abort_return_pc s1) IBIT m d s1)" by (simp add: SETABORT_def psr Let_def)
  moreover have "abort_switch ARMul_DataAbortV (abort_return_pc s1) s1 = SETABORT (abort_return_pc s1) IBIT m d s1"
    by (simp add: abort_switch_def m_def d_def s1_def Let_def)
  ultimately show ?thesis
    unfolding TAKEABORT_def ARMul_Abort_def s1_def [symmetric] by (simp add: ARMul_OSException_def psr Let_def)
qed

context psr_memory
begin

lemma keeps_LoadSMult:
  assumes "psr_ok X s"
  shows "keeps X (LoadSMult M s instr a w)"
proof (cases "BIT instr 15 = 0")
  case False
  then show ?thesis using assms unfolding LoadSMult_def Let_def
    by (simp add: keeps_steps keeps_loads keeps_ldm_loop psr)
next
  case True
  have b: "psr_ok X (ARMul_Icycles (if \<not> user_mode t then snd (ARMul_SwitchMode t USER26MODE (Mode t)) else t) 1)"
    if "psr_ok UNIV t" for t :: "'a ARMul_State"
    using that by (simp add: psr psr_switch_back psr_user_mode)
  let ?s = "if Bank (BUSUSEDINCPCS s) \<noteq> USERBANK then snd (ARMul_SwitchMode (BUSUSEDINCPCS s) (Mode (BUSUSEDINCPCS s)) USER26MODE) else BUSUSEDINCPCS s"
  have u: "psr_ok UNIV ?s" using assms psr_small(7) [of X s] by (auto intro: psr_in_user_bank psr_UNIV)
  show ?thesis unfolding LoadSMult_def Let_def True simp_thms if_True if_False bind_data
    by (intro allI impI bind_keeps(2) [OF keeps_loads(3) [OF u]], unfold prod.case)
      (rule bind_keeps(1) [of UNIV], simp_all add: keeps_ldm_loop psr b)
qed

lemma keeps_StoreSMult:
  assumes "psr_ok X s" "ABORTMODES \<subseteq> X"
  shows "keeps X (StoreSMult M s instr a w)"
proof -
  have b: "psr_ok X (stm_finish instr w (if Aborted t = 0 \<and> \<not> user_mode t then snd (ARMul_SwitchMode t USER26MODE (Mode t)) else t))"
    if "psr_ok UNIV t" for t :: "'a ARMul_State"
  proof (cases "Aborted t = 0")
    case True
    then show ?thesis using that by (cases "user_mode t") (auto intro: psr psr_switch_back psr_user_mode)
  next
    case False
    then have "Aborted (late_writeback instr w t) \<noteq> 0" by (simp add: late_writeback_def lsm_writeback_def set_reg_def)
    then show ?thesis using False psr_data_abort [OF psr_ldst(4) [OF that] assms(2)] by (simp add: stm_finish_def Let_def)
  qed
  let ?s = "if Bank (BUSUSEDINCPCN s) \<noteq> USERBANK then snd (ARMul_SwitchMode (BUSUSEDINCPCN s) (Mode (BUSUSEDINCPCN s)) USER26MODE) else BUSUSEDINCPCN s"
  have u: "psr_ok UNIV ?s" using assms psr_small(8) [of X s] by (auto intro: psr_in_user_bank psr_UNIV)
  show ?thesis unfolding StoreSMult_def Let_def
    by (rule bind_keeps(1) [OF keeps_stm_transfer [OF u]]) (simp add: b del: if_split)
qed

end

section \<open>Data processing\<close>

lemma flag_le_1 [simp]: "x AND 1 \<le> (1 :: ARMword)" "drop_bit 31 (x :: ARMword) \<le> 1" "NEG x \<le> 1"
  by (simp_all add: word_and_le1 NEG_def drop31_bit)

lemma dps_shift_carry:
  "c \<le> 1 \<Longrightarrow> snd (dps_shift_reg c op base n) \<le> 1" "snd (dps_shift_imm c op base n) \<le> 1"
  by (simp_all add: dps_shift_reg_def dps_shift_imm_def Let_def del: and_one_eq)

lemma psr_operands [psr]:
  assumes "psr_ok X s"
  shows "psr_ok X (snd (DPRegRHS s instr))" "psr_ok X (snd (DPSRegRHS s instr))" "psr_ok X (snd (DPSImmRHS s instr))"
proof -
  let ?s = "ARMul_Icycles (INCPC s) 1"
  have i: "psr_ok X ?s" using assms by (simp add: psr)
  then show "psr_ok X (snd (DPRegRHS s instr))" using assms by (simp add: DPRegRHS_def GetDPRegRHS_def Let_def)
  show "psr_ok X (snd (DPSRegRHS s instr))"
    using assms i by (simp add: DPSRegRHS_def GetDPSRegRHS_def dps_shift_carry psr_CFlag case_prod_beta Let_def)
  show "psr_ok X (snd (DPSImmRHS s instr))" using assms by (simp add: DPSImmRHS_def Let_def)
qed

lemma psr_add_sub_flags [psr]:
  assumes "psr_ok X s"
  shows "psr_ok X (add_flags a b c s)" "psr_ok X (sub_flags a b c s)" "psr_ok X (psr_return s)"
  using assms by (simp_all add: add_flags_def sub_flags_def psr_return_def psr Let_def del: split_of_bool split_of_bool_asm)

lemma psr_alu [psr]:
  assumes "psr_ok X s"
  shows "psr_ok X (dp_reg f instr s)" "psr_ok X (dps_reg g instr s)" "psr_ok X (adds h instr a b s)" "psr_ok X (subs h instr a b s)"
    "psr_ok X (adds_reg h instr s)" "psr_ok X (subs_reg h instr s)" "psr_ok X (rsbs_reg h instr s)"
    "psr_ok X (test_reg g instr s)" "psr_ok X (cmp a b s)" "psr_ok X (cmn a b s)" 
    "psr_ok X (cmp_reg cmp instr s)" "psr_ok X (cmp_reg cmn instr s)" "psr_ok X (dp_imm f instr s)" "psr_ok X (dps_imm g instr s)"
    "psr_ok X (test_imm g instr s)" "psr_ok X (cmp_imm cmp instr s)" "psr_ok X (cmp_imm cmn instr s)"
  using assms by (simp_all add: dp_reg_def dps_reg_def adds_def subs_def adds_reg_def subs_reg_def rsbs_reg_def test_reg_def
      cmp_def cmn_def cmp_reg_def dp_imm_def dps_imm_def test_imm_def cmp_imm_def psr case_prod_beta Let_def)

lemma psr_mul_flags [psr]: "psr_ok X s \<Longrightarrow> psr_ok X (mul_flags scc a b s)"
  by (simp add: mul_flags_def psr)

lemma psr_Multiply64 [psr]: "psr_ok X s \<Longrightarrow> psr_ok X (snd (Multiply64 s instr sg scc))"
  by (simp add: Multiply64_def psr case_prod_beta Let_def)

lemma psr_MultiplyAdd64 [psr]: "psr_ok X s \<Longrightarrow> psr_ok X (snd (MultiplyAdd64 s instr sg scc))"
  by (simp add: MultiplyAdd64_def psr case_prod_beta Let_def)

lemma psr_multiplier [psr]:
  assumes "psr_ok X s"
  shows "psr_ok X (mull sg scc instr s)" "psr_ok X (mlal sg scc instr s)" "psr_ok X (MUL_insn instr s)"
    "psr_ok X (MULS_insn instr s)" "psr_ok X (MLA_insn instr s)" "psr_ok X (MLAS_insn instr s)"
  using assms by (simp_all add: mull_def mlal_def mul_cycles_def MUL_insn_def MULS_insn_def MLA_insn_def MLAS_insn_def psr case_prod_beta Let_def)

lemma psr_set_s [psr]: "psr_ok X s \<Longrightarrow> psr_ok X (set_s v s)"
  by (simp add: set_s_def)

lemma psr_dsp [psr]:
  assumes "psr_ok X s"
  shows "psr_ok X (SMLAxy instr s)" "psr_ok X (QADD instr s)" "psr_ok X (QSUB instr s)" "psr_ok X (SMLAWy instr s)"
    "psr_ok X (SMLALxy instr s)" "psr_ok X (QD_insn f g instr s)" "psr_ok X (SMULxy instr s)" "psr_ok X (CLZ instr s)"
  using assms unfolding SMLAxy_def QADD_def QSUB_def SMLAWy_def SMLALxy_def QD_insn_def SMULxy_def CLZ_def Let_def
  by (simp_all add: psr split del: if_split) (simp add: psr)

lemma psr_misc [psr]:
  assumes "psr_ok X s"
  shows "psr_ok X (OSHandleSWI_breakpoint s)" "psr_ok X (BKPT s)" "psr_ok X (BLX2 pc instr s)" "psr_ok X (MSR_reg instr s)"
    "psr_ok X (MSR_spsr_reg instr s)" "psr_ok X (upd_base instr v (wb, s))" 
  using assms by (simp_all add: OSHandleSWI_breakpoint_def BKPT_def BLX2_def MSR_reg_def MSR_spsr_reg_def upd_base_def psr case_prod_beta Let_def)

lemma psr_imm_cases [psr]:
  assumes "psr_ok X s"
  shows "psr_ok X (op_20_27 instr s)" "psr_ok X (op_28_2f instr s)" "psr_ok X (op_30_37 instr s)" "psr_ok X (op_38_3f instr s)"
  using assms unfolding op_20_27_def op_28_2f_def op_30_37_def op_38_3f_def Let_def by (simp_all add: psr)

lemma psr_v6 [psr]: "psr_ok X s \<Longrightarrow> psr_ok X (snd (handle_v6_insn s instr))" 
  by (simp add: handle_v6_insn_def v6_6a_def v6_6b_def v6_6e_def v6_6f_def psr Let_def split: option.splits)

lemma psr_undef_v6 [psr]: "psr_ok X s \<Longrightarrow> psr_ok X (undef_v6 b instr s)"
  by (simp add: undef_v6_def psr case_prod_beta Let_def)

section \<open>Cases of the main switch\<close>

context psr_memory
begin

lemma keeps_half_transfers:
  assumes "psr_ok X s"
  shows "keeps X (SHPOST up M instr s)" "keeps X (SHPRE up M instr s)" "keeps X (SHPREWB up M instr s)"
    "keeps X (LHPOST up M instr s)" "keeps X (LHPRE up M instr s)" "keeps X (LHPREWB up M instr s)"
  using assms by (simp_all add: SHPOST_def SHPRE_def SHPREWB_def LHPOST_def LHPRE_def LHPREWB_def lh_load_def keeps_steps keeps_single psr Let_def)

lemma keeps_double_or: "psr_ok X s \<Longrightarrow> keeps X k \<Longrightarrow> keeps X (double_or M instr s k)"
  by (simp add: double_or_def keeps_double)

lemma keeps_swap_insns:
  assumes "psr_ok X s"
  shows "keeps X (SWP M instr s)" "keeps X (SWPB M instr s)"
  using assms by (simp_all add: SWP_def SWPB_def keeps_steps keeps_swaps psr Let_def)

lemma keeps_op_00_0f:
  assumes "psr_ok X s"
  shows "keeps X (op_00 M instr s)" "keeps X (op_01 M instr s)" "keeps X (op_02 M instr s)" "keeps X (op_03 M instr s)"
    "keeps X (op_04 M instr s)" "keeps X (op_05 M instr s)" "keeps X (op_06 M instr s)" "keeps X (op_07 M instr s)"
    "keeps X (op_08 M instr s)" "keeps X (op_09 M instr s)" "keeps X (op_0a M instr s)" "keeps X (op_0b M instr s)"
    "keeps X (op_0c M instr s)" "keeps X (op_0d M instr s)" "keeps X (op_0e M instr s)" "keeps X (op_0f M instr s)"
  unfolding op_00_def op_01_def op_02_def op_03_def op_04_def op_05_def op_06_def op_07_def
    op_08_def op_09_def op_0a_def op_0b_def op_0c_def op_0d_def op_0e_def op_0f_def
  using assms by (simp_all add: keeps_half_transfers keeps_double_or psr)

lemma keeps_op_10_1f:
  assumes "psr_ok X s"
  shows "keeps X (op_10 M instr s)" "keeps X (op_11 M instr s)" "keeps X (op_12 pc M instr s)" "keeps X (op_13 M instr s)"
    "keeps X (op_14 M instr s)" "keeps X (op_15 M instr s)" "keeps X (op_16 M instr s)" "keeps X (op_17 M instr s)"
    "keeps X (op_18 M instr s)" "keeps X (op_19 M instr s)" "keeps X (op_1a M instr s)" "keeps X (op_1b M instr s)"
    "keeps X (op_1c M instr s)" "keeps X (op_1d M instr s)" "keeps X (op_1e M instr s)" "keeps X (op_1f M instr s)"
  unfolding op_10_def op_11_def op_12_def op_13_def op_14_def op_15_def op_16_def op_17_def
    op_18_def op_19_def op_1a_def op_1b_def op_1c_def op_1d_def op_1e_def op_1f_def
  using assms by (simp_all add: keeps_half_transfers keeps_double_or keeps_swap_insns psr)

lemma keeps_data_processing: "psr_ok X s \<Longrightarrow> keeps X (data_processing pc M instr s)"
  unfolding data_processing_def Let_def
  by (simp only: keeps_op_00_0f keeps_op_10_1f psr option.pred_inject if_bool_eq_conj simp_thms split: if_splits)

lemma keeps_transfer_forms:
  assumes "psr_ok X s" "\<And>s a. psr_ok X s \<Longrightarrow> keeps2 X (f M s instr a)"
  shows "keeps X (post_imm up f M instr s)" "keeps X (pre_imm up f M instr s)" "keeps X (prewb_imm up f M instr s)"
    "keeps X (post_reg_store up f M instr s)" "keeps X (post_reg_load up f M instr s)" "keeps X (pre_reg up f M instr s)"
    "keeps X (prewb_reg up f M instr s)"
  using assms by (simp_all add: post_imm_def pre_imm_def prewb_imm_def post_reg_store_def post_reg_load_def pre_reg_def prewb_reg_def
      keeps_steps psr Let_def)

lemma keeps_translated:
  assumes "psr_ok X s" "\<And>s. psr_ok X s \<Longrightarrow> keeps X (f s)"
  shows "keeps X (translated f s)"
  using assms by (simp add: translated_def keeps_steps)

lemma keeps_load_ubyte: "psr_ok X s \<Longrightarrow> keeps2 X (load_ubyte M s instr a)"
  by (simp add: load_ubyte_def keeps_single)

lemma keeps_op_40_7f:
  assumes "psr_ok X s"
  shows "keeps X (op_40_47 M instr s)" "keeps X (op_48_4f M instr s)" "keeps X (op_50_57 M instr s)" "keeps X (op_58_5f M instr s)"
    "keeps X (op_60_67 M instr s)" "keeps X (op_68_6f M instr s)" "keeps X (op_70_77 M instr s)" "keeps X (op_78_7f M instr s)"
  unfolding op_40_47_def op_48_4f_def op_50_57_def op_58_5f_def op_60_67_def op_68_6f_def op_70_77_def op_78_7f_def Let_def
  using assms by (simp_all add: keeps_transfer_forms keeps_translated keeps_single keeps_load_ubyte psr)

lemma keeps_op_80_9f:
  assumes "psr_ok X s" "stm_user instr \<Longrightarrow> ABORTMODES \<subseteq> X"
  shows "keeps X (op_80_87 M instr s)" "keeps X (op_88_8f M instr s)"
    "keeps X (op_90_97 M instr s)" "keeps X (op_98_9f M instr s)"
  using assms unfolding op_80_87_def op_88_8f_def op_90_97_def op_98_9f_def Let_def stm_user_def
  by (auto simp: keeps_mult keeps_LoadSMult keeps_StoreSMult)

lemma keeps_data_transfer:
  assumes "psr_ok X s" "stm_user instr \<Longrightarrow> ABORTMODES \<subseteq> X"
  shows "keeps X (data_transfer M instr s)"
  using assms(1) keeps_op_40_7f keeps_op_80_9f [OF assms] unfolding data_transfer_def Let_def by simp

end

section \<open>Branches and the Thumb stage\<close>

lemma psr_cp_small [psr]:
  assumes "psr_ok X s"
  shows "psr_ok X (INTERNALABORT a s)" "psr_ok X (cp_finish instr s)" "psr_ok X (op_branch pc instr s)" "psr_ok X (op_branch_link pc instr s)"
    "psr_ok X (op_swi pc instr s)" "psr_ok X (MAR instr s)" "psr_ok X (MRA instr s)" "psr_ok X (BLX1 pc instr s)" "psr_ok X (tea_break pc s)"
  using assms by (simp_all add: INTERNALABORT_def cp_finish_def op_branch_def op_branch_link_def op_swi_def MAR_def MRA_def BLX1_def tea_break_def psr Let_def)

lemma keeps_mia: "psr_ok X s \<Longrightarrow> keeps X (mia instr s)"
  by (simp add: mia_def Let_def)

lemma psr_thumb_stage:
  fixes s :: "'a ARMul_State"
  assumes ok: "psr_ok X s"
  shows "psr_ok X (snd (thumb_stage pc instr s))"
proof -
  have f: "psr_ok X (thumb_fmt16 s a t)" "psr_ok X (thumb_fmt18 s a t)" "psr_ok X (thumb_bl1 s t)" "psr_ok X (thumb_bl2 s a t)"
      "psr_ok X (thumb_bl2 (thumb_bl1 s t) a u)" for a t u
    using ok by (simp_all add: thumb_fmt16_def thumb_fmt18_def thumb_bl1_def thumb_bl2_def psr Let_def)
  define Q :: "tdstate \<times> ARMword \<times> 'a ARMul_State \<Rightarrow> bool" where "Q = (\<lambda>p. psr_ok X (snd (snd p)))"
  have q: "Q x \<Longrightarrow> Q y \<Longrightarrow> Q (if b then x else y)" "(\<And>a b. Q (g a b)) \<Longrightarrow> Q (case p of (a, b) \<Rightarrow> g a b)"
      "Q n \<Longrightarrow> (\<And>a. Q (h a)) \<Longrightarrow> Q (case r of None \<Rightarrow> n | Some a \<Rightarrow> h a)" "psr_ok X u \<Longrightarrow> Q (d, w, u)"
    for x y g p n h r b d w and u :: "'a ARMul_State"
    by (auto simp: Q_def split: option.split prod.split)
  have "Q (ARMul_ThumbDecode s pc instr)"
    unfolding ARMul_ThumbDecode_def
    by (subst Let_def, rule q(2), unfold Let_def) (intro q f ok)
  then have "psr_ok X (snd (snd (ARMul_ThumbDecode s pc instr)))" by (simp add: Q_def)
  then show ?thesis using ok by (auto simp: thumb_stage_def psr split: tdstate.splits prod.splits)
qed

section \<open>Coprocessor transfers\<close>

lemma keeps_Some: "(\<And>x. r = Some x \<Longrightarrow> P x) \<Longrightarrow> pred_option P r"
  by (cases r) auto

lemma if_keeps: "pred_option P x \<Longrightarrow> pred_option P y \<Longrightarrow> pred_option P (if b then x else y)"
  by simp

lemma bind_keeps4:
  "keeps4 X r \<Longrightarrow> (\<And>u v w s. psr_ok X s \<Longrightarrow> pred_option P (f (u, v, w, s))) \<Longrightarrow> pred_option P (Option.bind r f)"
  by (cases r) auto

lemma keeps_busy_wait:
  assumes h: "\<And>t d s. psr_ok X s \<Longrightarrow> keeps3 X (h t d s)" and ok: "psr_ok X s"
  shows "keeps4 X (busy_wait h c d s)"
proof (rule keeps_Some)
  fix r assume "busy_wait h c d s = Some r"
  moreover have "busy_wait h' c d s = Some r \<Longrightarrow> h' = h \<longrightarrow> psr_ok X s \<longrightarrow> psr_ok X (snd (snd (snd r)))" for h'
  proof (rule busy_wait.raw_induct [where P = "\<lambda>h' c d s r. h' = h \<longrightarrow> psr_ok X s \<longrightarrow> psr_ok X (snd (snd (snd r)))"])
    fix rec g c d s r
    assume 1: "\<And>g c d s r. rec g c d s = Some r \<Longrightarrow> g = h \<longrightarrow> psr_ok X s \<longrightarrow> psr_ok X (snd (snd (snd r)))"
      "(if c \<noteq> ARMul_BUSY then Some (False, c, d, s)
        else
         (let (p, s) = IntPending (ARMul_Icycles s 1) in
          if p \<noteq> 0 then map_option (\<lambda>(cpab, d', s). (True, cpab, d, s)) (g ARMul_INTERRUPT d s)
          else Option.bind (g ARMul_BUSY d s) (\<lambda>(cpab, d, s). rec g cpab d s))) = Some r"
    show "g = h \<longrightarrow> psr_ok X s \<longrightarrow> psr_ok X (snd (snd (snd r)))"
    proof (intro impI)
      assume g: "g = h" and s: "psr_ok X s"
      let ?t = "snd (IntPending (ARMul_Icycles s 1))"
      have t: "psr_ok X ?t" using s by (simp add: psr)
      have i: "keeps4 X (rec h c d t)" if "psr_ok X t" for c d t
        using 1(1) [of h c d t] that by (intro keeps_Some) blast
      have "keeps4 X (Some r)" unfolding 1(2) [symmetric] g using s t
        by (auto simp: case_prod_beta Let_def intro!: bind_keeps(3) [OF h] map_keeps(3) [OF h] i)
      then show "psr_ok X (snd (snd (snd r)))" by simp
    qed
  qed
  ultimately show "psr_ok X (snd (snd (snd r)))" using ok by blast
qed

lemma keeps_cp_start:
  assumes "\<And>t d s. psr_ok X s \<Longrightarrow> keeps3 X (h t d s)" "psr_ok X s"
  shows "keeps4 X (cp_start h d s)"
  unfolding cp_start_def by (rule bind_keeps(3) [OF assms(1) [OF assms(2)]]) (simp add: keeps_busy_wait assms(1))

locale psr_env = psr_memory "env_mmu E" for E :: "'m env" +
  assumes cp: "n < 16 \<Longrightarrow> psr_ok X s \<Longrightarrow> keeps2 X (LDC (env_cp E) n t i d s)" "n < 16 \<Longrightarrow> psr_ok X s \<Longrightarrow> keeps3 X (STC (env_cp E) n t i d s)"
      "n < 16 \<Longrightarrow> psr_ok X s \<Longrightarrow> keeps3 X (MRC (env_cp E) n t i d s)" "n < 16 \<Longrightarrow> psr_ok X s \<Longrightarrow> keeps2 X (MCR (env_cp E) n t i d s)"
      "n < 16 \<Longrightarrow> psr_ok X s \<Longrightarrow> keeps2 X (CDP (env_cp E) n t i s)"
    and event: "psr_ok X s \<Longrightarrow> psr_ok X (env_event E f s)"
    and io: "psr_ok X s \<Longrightarrow> keeps X (env_io E s)"
begin

lemma keeps_start:
  assumes "n < 16" "psr_ok X s"
  shows "keeps4 X (cp_start (by_value (\<lambda>t d. LDC (env_cp E) n t i d)) v s)" "keeps4 X (cp_start (\<lambda>t d. STC (env_cp E) n t i d) v s)"
    "keeps4 X (cp_start (\<lambda>t d. MRC (env_cp E) n t i d) v s)" "keeps4 X (cp_start (by_value (\<lambda>t d. MCR (env_cp E) n t i d)) v s)"
    "keeps4 X (cp_start (no_data (\<lambda>t. CDP (env_cp E) n t i)) u s)"
  using assms by (intro keeps_cp_start, simp_all add: by_value_def no_data_def map_keeps cp keeps_steps)+

lemma keeps_ldc_loop:
  assumes n: "n < 16" and "psr_ok X s"
  shows "keeps X (ldc_loop (env_mmu E) (\<lambda>d. LDC (env_cp E) n t i d) c a s)"
proof (rule keeps_Some)
  fix r assume "ldc_loop (env_mmu E) (\<lambda>d. LDC (env_cp E) n t i d) c a s = Some r"
  moreover have "ldc_loop M' h c a s = Some r \<Longrightarrow> M' = env_mmu E \<and> h = (\<lambda>d. LDC (env_cp E) n t i d) \<longrightarrow> psr_ok X s \<longrightarrow> psr_ok X r" for M' h
  proof (rule ldc_loop.raw_induct [where P = "\<lambda>M' h c a s r. M' = env_mmu E \<and> h = (\<lambda>d. LDC (env_cp E) n t i d) \<longrightarrow> psr_ok X s \<longrightarrow> psr_ok X r"])
    fix rec M' h c a s r
    assume 1: "\<And>M' h c a s r. rec M' h c a s = Some r \<Longrightarrow> M' = env_mmu E \<and> h = (\<lambda>d. LDC (env_cp E) n t i d) \<longrightarrow> psr_ok X s \<longrightarrow> psr_ok X r"
      "(if c \<noteq> ARMul_INC then Some s
       else Option.bind (ARMul_LoadWordN M' s (a + 4)) (\<lambda>(data, s).
         if faulted s then Some s
         else Option.bind (h data s) (\<lambda>(cpab, s). rec M' h cpab (a + 4) s))) = Some r"
    show "M' = env_mmu E \<and> h = (\<lambda>d. LDC (env_cp E) n t i d) \<longrightarrow> psr_ok X s \<longrightarrow> psr_ok X r"
    proof (intro impI, elim conjE)
      assume g: "M' = env_mmu E" "h = (\<lambda>d. LDC (env_cp E) n t i d)" and s: "psr_ok X s"
      have j: "keeps X (rec M' h c a u)" if "psr_ok X u" for c a u
        by (rule keeps_Some, drule 1(1)) (simp add: that g)
      have "keeps X (Some r)" unfolding 1(2) [symmetric] using s j by (simp add: g n keeps_steps keeps_loads cp)
      then show "psr_ok X r" by simp
    qed
  qed
  ultimately show "psr_ok X r" using assms by blast
qed

lemma keeps_stc_loop:
  assumes n: "n < 16" and "psr_ok X s"
  shows "keeps X (stc_loop (env_mmu E) (\<lambda>d. STC (env_cp E) n t i d) c v a s)"
proof (rule keeps_Some)
  fix r assume "stc_loop (env_mmu E) (\<lambda>d. STC (env_cp E) n t i d) c v a s = Some r"
  moreover have "stc_loop M' h c v a s = Some r \<Longrightarrow> M' = env_mmu E \<and> h = (\<lambda>d. STC (env_cp E) n t i d) \<longrightarrow> psr_ok X s \<longrightarrow> psr_ok X r" for M' h
  proof (rule stc_loop.raw_induct [where P = "\<lambda>M' h c v a s r. M' = env_mmu E \<and> h = (\<lambda>d. STC (env_cp E) n t i d) \<longrightarrow> psr_ok X s \<longrightarrow> psr_ok X r"])
    fix rec M' h c v a s r
    assume 1: "\<And>M' h c v a s r. rec M' h c v a s = Some r \<Longrightarrow> M' = env_mmu E \<and> h = (\<lambda>d. STC (env_cp E) n t i d) \<longrightarrow> psr_ok X s \<longrightarrow> psr_ok X r"
      "(if c \<noteq> ARMul_INC then Some s
       else Option.bind (h v s) (\<lambda>(cpab, data, s).
         Option.bind (ARMul_StoreWordN M' s (a + 4) data) (\<lambda>s.
           if faulted s then Some s else rec M' h cpab data (a + 4) s))) = Some r"
    show "M' = env_mmu E \<and> h = (\<lambda>d. STC (env_cp E) n t i d) \<longrightarrow> psr_ok X s \<longrightarrow> psr_ok X r"
    proof (intro impI, elim conjE)
      assume g: "M' = env_mmu E" "h = (\<lambda>d. STC (env_cp E) n t i d)" and s: "psr_ok X s"
      have j: "keeps X (rec M' h c v a u)" if "psr_ok X u" for c v a u
        by (rule keeps_Some, drule 1(1)) (simp add: that g)
      have "keeps X (Some r)" unfolding 1(2) [symmetric] using s j by (simp add: g n keeps_steps keeps_stores cp)
      then show "psr_ok X r" by simp
    qed
  qed
  ultimately show "psr_ok X r" using assms by blast
qed

end

section \<open>The emulation loop\<close>

lemmas keeps_start_steps =
  bind_keeps4 [where P = "psr_ok X" and X = X for X] bind_keeps4 [where P = "\<lambda>p. psr_ok X (snd p)" and X = X for X]

declare CPNum_less [simp]

lemma psr_events:
  assumes "\<And>f s. psr_ok X s \<Longrightarrow> psr_ok X (call f s)" "psr_ok X s"
  shows "psr_ok X (ARMul_EnvokeEvent call s)"
proof -
  have e: "psr_ok X (fold (run_event call) fs t)" if "psr_ok X t" for fs t
    using that by (induction fs arbitrary: t) (simp_all add: run_event_def assms(1) Let_def)
  have "psr_ok X (run_slot call i t)" if "psr_ok X t" for i t using that by (simp add: run_slot_def e Let_def)
  then have f: "psr_ok X (fold (run_slot call) is t)" if "psr_ok X t" for "is" t
    using that by (induction "is" arbitrary: t) simp_all
  have "psr_ok X (EnvokeList call t a b)" if "psr_ok X t" for t a b unfolding EnvokeList_def using that by (rule f)
  then show ?thesis using assms(2) by (simp add: ARMul_EnvokeEvent_def Let_def)
qed

context psr_env
begin

lemma keeps_coproc:
  assumes "psr_ok X s"
  shows "keeps X (ARMul_LDC (env_cp E) (env_mmu E) instr a s)" "keeps X (ARMul_STC j (env_cp E) (env_mmu E) instr a s)"
    "keeps X (ARMul_MCR (env_cp E) instr v s)" "keeps2 X (ARMul_MRC (env_cp E) instr s)" "keeps X (ARMul_CDP (env_cp E) instr s)"
  using assms unfolding ARMul_LDC_def ARMul_STC_def ARMul_MCR_def ARMul_MRC_def ARMul_CDP_def Let_def
  by (simp_all add: keeps_start keeps_start_steps keeps_steps keeps_loads keeps_stores keeps_ldc_loop keeps_stc_loop cp psr)

lemma keeps_coproc_cases:
  assumes "psr_ok X s"
  shows "keeps X (op_c0_cf E instr s)" "keeps X (op_d0_df E instr s)" "keeps X (op_mcr_cdp E instr s)" "keeps X (op_mrc_cdp E instr s)"
    "keeps X (op_e2 E instr s)" "keeps X (op_e0_ef E instr s)"
proof -
  show c: "keeps X (op_c0_cf E instr s)" "keeps X (op_d0_df E instr s)" and m: "keeps X (op_mcr_cdp E instr s)"
    using assms unfolding op_c0_cf_def op_d0_df_def op_mcr_cdp_def Let_def by (simp_all add: keeps_coproc psr)
  show r: "keeps X (op_mrc_cdp E instr s)"
    using assms unfolding op_mrc_cdp_def by (simp add: keeps_coproc keeps_steps psr del: split_of_bool split_of_bool_asm)
  have "keeps X (mia instr s)" using assms by (rule keeps_mia)
  then show e: "keeps X (op_e2 E instr s)" using assms m by (auto simp: op_e2_def psr split: option.splits)
  then show "keeps X (op_e0_ef E instr s)" using m r by (simp add: op_e0_ef_def)
qed

lemma keeps_xscale_double: "psr_ok X s \<Longrightarrow> keeps X (xscale_double (env_mmu E) instr s)"
  by (simp add: xscale_double_def xscale_ldrd_def xscale_strd_def keeps_steps keeps_loads keeps_stores psr Let_def)

lemma keeps_mainswitch:
  assumes "psr_ok X s" "stm_user instr \<Longrightarrow> ABORTMODES \<subseteq> X"
  shows "keeps X (mainswitch E pc instr s)"
  unfolding mainswitch_def Let_def
  using assms by (simp add: keeps_xscale_double keeps_data_processing keeps_data_transfer keeps_coproc_cases psr)

lemma keeps_execute:
  assumes "psr_ok X s" "stm_user instr \<Longrightarrow> ABORTMODES \<subseteq> X"
  shows "keeps X (execute E pc instr s)"
  using assms by (simp add: execute_def exec_NV_def keeps_mainswitch psr Let_def)

lemma keeps_next_instr:
  assumes "psr_ok X s"
  shows "keeps3 X (next_instr E p s)"
proof -
  have "keeps2 X (ARMul_LoadInstrS ch (env_mmu E) t a i)" "keeps2 X (ARMul_LoadInstrN ch (env_mmu E) t a i)" if "psr_ok X t" for ch t a i
    using that by (simp_all add: ARMul_LoadInstrS_def ARMul_LoadInstrN_def keeps_fetch)
  then have l: "keeps3 X (advance b c E p t)" "keeps3 X (refill b E t)" if "psr_ok X t" for b c t
    using that by (simp_all add: advance_def refill_def keeps_steps keeps_fetch psr Let_def)
  show ?thesis using assms by (simp add: next_instr_def l Let_def)
qed

lemma keeps_round:
  assumes "psr_ok X s" "ABORTMODES \<subseteq> X"
  shows "keeps3 X (emulate_round E p s)"
proof -
  have r: "keeps X (run_instr E pc i t)" if "psr_ok X t" for pc i t
  proof -
    have x: "keeps X (case thumb_stage pc i u of (None, s) \<Rightarrow> Some s | (Some i, s) \<Rightarrow> execute E pc i s)" if "psr_ok X u" for u
      using psr_thumb_stage [OF that, of pc i] assms(2) by (auto simp: keeps_execute split: prod.split option.split)
    show ?thesis using that unfolding run_instr_def Let_def by (simp add: keeps_steps io x psr)
  qed
  have e: "psr_ok X (ARMul_EnvokeEvent (env_event E) t)" if "psr_ok X t" for t
    using event that by (intro psr_events) simp_all
  have n: "keeps3 X (next_instr E p (s\<lparr>isize := INSN_SIZE s\<rparr>))" using assms(1) by (simp add: keeps_next_instr)
  show ?thesis unfolding emulate_round_def Let_def
    by (rule bind_keeps(3) [OF n]) (simp add: keeps_steps r e psr case_prod_beta)
qed

end

section \<open>The memory management unit\<close>

lemma bank_ptr_state: "bank_ptr a (mach s) = Some (r, m) \<Longrightarrow> psr_view (s\<lparr>mach := m\<lparr>global_mbp := r\<rparr>\<rparr>) = psr_view s"
  by simp

locale psr_bus =
  fixes B :: "'x bus_ops"
  assumes bus_reads: "bus_io_read B z s a = Some (v, t) \<Longrightarrow> psr_view t = psr_view s" "bus_flash_read B z s a = Some (v, t) \<Longrightarrow> psr_view t = psr_view s"
    and bus_writes: "bus_io_write B z s a d = Some t \<Longrightarrow> psr_view t = psr_view s" "bus_flash_write B z s a d = Some t \<Longrightarrow> psr_view t = psr_view s"
begin

lemma mem_read_view:
  assumes "mem_read_sz B z s a = Some (v, t)"
  shows "psr_view t = psr_view s"
  using assms by (auto simp: mem_read_sz_def Let_def split: option.splits read_fn.splits dest!: bus_reads)

lemma mem_write_view:
  assumes "mem_write_sz B z s a d = Some t"
  shows "psr_view t = psr_view s"
proof -
  have "psr_view u = psr_view r" if "real_write_sz z r a d = Some u" for r u :: "'a mstate"
    using that by (auto simp: real_write_sz_def real_write_byte_def real_write_halfword_def real_write_word_def split: access_size.splits)
  with assms show ?thesis
    by (fastforce simp: mem_write_sz_def Let_def split: option.splits write_fn.splits if_splits dest: bus_writes)
qed

lemmas mem_views = mem_read_view [of Byte, folded mem_read_byte_def] mem_read_view [of Halfword, folded mem_read_halfword_def]
  mem_read_view [of Word, folded mem_read_word_def] mem_write_view [of Byte, folded mem_write_byte_def]
  mem_write_view [of Halfword, folded mem_write_halfword_def] mem_write_view [of Word, folded mem_write_word_def]

lemma mem_type_views: "mem_read_type B z s a = Some (v, t) \<Longrightarrow> psr_view t = psr_view s" "mem_write_type B z s a d = Some t \<Longrightarrow> psr_view t = psr_view s"
  by (auto simp: mem_read_type_def mem_write_type_def split: access_size.splits dest: mem_views)

lemma walk_l2_view: "walk_l2 B s va l1 l2 m = Some (r, t) \<Longrightarrow> psr_view t = psr_view s"
  by (auto simp: walk_l2_def split: option.splits dest!: mem_views)

lemma table_walk_view: "table_walk B s va = Some (r, t) \<Longrightarrow> psr_view t = psr_view s"
  by (auto simp: table_walk_def Let_def split: option.splits if_splits dest!: mem_views walk_l2_view)

lemma translate_view: "translate B s va tlb = Some (r, t, tlb') \<Longrightarrow> psr_view t = psr_view s"
  by (auto simp: translate_def tlb_place_def set_last_domain_def split: option.splits sum.splits dest!: table_walk_view)

lemma check_access_view: "check_access s va e rd = Some (f, t) \<Longrightarrow> psr_view t = psr_view s"
  by (auto simp: check_access_def Let_def split: option.splits if_splits)

lemma write_words_view: "write_words B s pa ds = Some t \<Longrightarrow> psr_view t = psr_view s"
  by (induction ds arbitrary: s pa) (auto split: option.splits dest!: mem_views)

lemma read_words_view: "read_words B s pa n = Some (ds, t) \<Longrightarrow> psr_view t = psr_view s"
proof (induction n arbitrary: s pa ds)
  case (Suc n)
  then obtain d u where "mem_read_word B s pa = Some (d, u)" "\<exists>ds. read_words B u (pa + 4) n = Some (ds, t)" by (auto split: option.splits)
  then show ?case using Suc.IH mem_views(3) by metis
qed simp

lemma write_back_view: "mmu_cache_write_back B s c l = Some (t, l') \<Longrightarrow> psr_view t = psr_view s"
  by (auto simp: mmu_cache_write_back_def split: option.splits if_splits dest!: write_words_view)

lemma alloc_view: "mmu_cache_alloc B s c va pa = Some (p, t, c') \<Longrightarrow> psr_view t = psr_view s"
  by (auto simp: mmu_cache_alloc_def alloc_fill_def Let_def split: option.splits if_splits dest!: read_words_view write_back_view)

lemma invalidate_line_view: "invalidate_line B s c p = Some (t, c') \<Longrightarrow> psr_view t = psr_view s"
  by (auto simp: invalidate_line_def split: option.splits dest!: write_back_view)

lemma invalidate_lines_view: "invalidate_lines B ps s c = Some (t, c') \<Longrightarrow> psr_view t = psr_view s"
  by (induction ps arbitrary: s c) (auto split: option.splits dest!: invalidate_line_view)

end

locale psr_hw_bus = psr_bus B for B :: "'y mmu_hw bus_ops"
begin

lemma set_views: "psr_view (set_tlb b s) = psr_view s" "psr_view (set_cache c s) = psr_view s"
  by (simp_all add: set_tlb_def set_cache_def)

lemma a71_translate_view: "a71_translate B s va rd = Some (r, t) \<Longrightarrow> psr_view t = psr_view s"
  by (auto simp: a71_translate_def set_views Let_def split: option.splits sum.splits if_splits dest!: translate_view check_access_view)

lemma a71_fetch_line_view: "a71_fetch_line B s va pa = Some (ds, t) \<Longrightarrow> psr_view t = psr_view s"
  by (auto simp: a71_fetch_line_def set_views split: option.splits dest!: alloc_view read_words_view)

lemma a71_read_view: "a71_mmu_read B z s va = Some (r, t) \<Longrightarrow> psr_view t = psr_view s"
  by (auto simp: a71_mmu_read_def Let_def split: option.splits sum.splits if_splits
      dest!: a71_translate_view a71_fetch_line_view mem_type_views)

lemma a71_write_view:
  assumes "a71_mmu_write B z s va d = Some (f, t)"
  shows "psr_view t = psr_view s"
proof -
  define u where "u = (case (if control_bit s CONTROL_CACHE then mmu_cache_search (the_cache s) va else None) of
                   None \<Rightarrow> s
                 | Some p \<Rightarrow>
                     set_cache (upd_line p (\<lambda>l. l\<lparr>cl_data := (cl_data l)
                       [line_word va := put z (bigendSig s) va d (cl_data l ! line_word va)]\<rparr>) (the_cache s)) s)"
  have "psr_view u = psr_view s" unfolding u_def by (simp add: set_views split: option.split)
  with assms show ?thesis unfolding a71_mmu_write_def Let_def u_def [symmetric]
    by (auto split: option.splits sum.splits if_splits dest!: a71_translate_view mem_type_views)
qed

lemma a71_mcr_view: "a71_mmu_mcr B s instr v = Some t \<Longrightarrow> psr_view t = psr_view s"
  by (auto simp: a71_mmu_mcr_def a71_flush_cache_def mmu_cache_invalidate_all_def set_views Let_def split: if_splits dest!: invalidate_lines_view)

end

sublocale psr_hw_bus \<subseteq> psr_memory "arm7100_mmu_ops B"
  by unfold_locales (auto simp: arm7100_mmu_ops_def dest: a71_read_view a71_write_view)

context psr_hw_bus
begin

lemma core_memory: "psr_memory (arm7100_mmu_ops B)"
  by unfold_locales

end

section \<open>The exception: an aborted store of the user registers\<close>

lemma TAKEABORT_in_abort_mode:
  assumes "prog32Sig s \<noteq> LOW" "Mode s = ABORT32MODE" "flags_ok s"
  shows "Mode (TAKEABORT s) = ABORT32MODE" "Bank (TAKEABORT s) = Bank s"
proof -
  define d :: ARMword where "d = (if TFlag s \<noteq> 0 then - 4 else 0)"
  define s1 where "s1 = s\<lparr>Aborted := 0\<rparr>"
  let ?t = "ARMul_SetSPSR s1 ABORT32MODE (ARMul_GetCPSR s1)"
  let ?v = "(ARMul_GetCPSR ?t AND NOT (EMODE ?t OR TBIT)) OR IBIT OR ABORT32MODE"
  have t: "prog32Sig ?t \<noteq> LOW" "Mode ?t = ABORT32MODE" "Bank ?t = Bank s" "flags_ok ?t"
    using assms by (simp_all add: ARMul_SetSPSR_def s1_def Let_def flags_ok_def)
  have "?v AND MODEBITS = ABORT32MODE"
    using exc_mode_bits [of "CPSR ?t" ABORT32MODE] unfolding ARMul_GetCPSR_def CPSR_fields(2) [OF t(4), unfolded ARMul_GetCPSR_def] by simp
  then have c: "Mode (ARMul_SetCPSR ?t ?v) = ABORT32MODE" "Bank (ARMul_SetCPSR ?t ?v) = Bank s"
    using t by (simp_all add: ARMul_SetCPSR_def CPSRAltered_conv psr_mask_def assign_mode_def fix_r15_def assign_flags_def)
  then have a: "Mode (SETABORT p IBIT ABORT32MODE d s1) = ABORT32MODE" "Bank (SETABORT p IBIT ABORT32MODE d s1) = Bank s" for p
    by (simp_all add: SETABORT_def Let_def)
  have "abort_switch ARMul_DataAbortV p s1 = SETABORT p IBIT ABORT32MODE d s1" for p
    using assms(1) by (simp add: abort_switch_def d_def s1_def Let_def)
  then show "Mode (TAKEABORT s) = ABORT32MODE" "Bank (TAKEABORT s) = Bank s"
    using a unfolding TAKEABORT_def ARMul_Abort_def s1_def [symmetric] by (simp_all add: ARMul_OSException_def SetR15_mode32 Let_def)
qed

text \<open>
  An STM of the user registers in abort mode to a misaligned address, with the unit of the ARM7 on and its
  alignment check enabled, so that the first store is refused, takes the data abort with the user bank in use and never switches back: the core is left in abort mode on
  the user registers, the one way to break the rule that the bank is that of the mode.
\<close>

theorem stm_user_abort_leaves_user_bank:
  assumes "control_bit s CONTROL_MMU" "control_bit s CONTROL_ALIGN_FAULT" "a AND 3 \<noteq> 0"
    and "prog32Sig s \<noteq> LOW" "Mode s = ABORT32MODE" "bank_ok s" "flags_ok s" "lsm_first instr = Some r"
  shows "\<exists>t. StoreSMult (arm7100_mmu_ops B) s instr a w = Some t \<and> Mode t = ABORT32MODE \<and> Bank t = USERBANK"
proof -
  define q where "q = BUSUSEDINCPCN s"
  have q: "Mode q = ABORT32MODE" "prog32Sig q \<noteq> LOW" "flags_ok q" "Bank q \<noteq> USERBANK"
    using assms(4-7) by (auto simp: q_def bank_ok_def ModeToBank_def bankofmode_def BUSUSEDINCPCN_def INCPC_def set_reg_def flags_ok_def)
  define z where "z = snd (ARMul_SwitchMode q (Mode q) USER26MODE)"
  obtain R RB where zf: "z = q\<lparr>Bank := USERBANK, RegBank := RB, Reg := R\<rparr>"
    using SwitchMode_form [of q "Mode q" USER26MODE] by (auto simp: z_def ModeToBank_def bankofmode_def)
  then have z: "Mode z = ABORT32MODE" "prog32Sig z \<noteq> LOW" "flags_ok z" "Bank z = USERBANK" using q by (simp_all add: flags_ok_def)
  have "mmu z = mmu s" unfolding zf by (simp add: q_def BUSUSEDINCPCN_def INCPC_def set_reg_def)
  then have fault: "ops_write_word (arm7100_mmu_ops B) (z\<lparr>NumNcycles := n\<rparr>) a d = Some (ALIGNMENT_FAULT, z\<lparr>NumNcycles := n\<rparr>)" for n d
    using assms(1-3) by (simp add: arm7100_mmu_ops_def a71_mmu_write_def misaligned_def control_bit_def)
  define u where "u = stm_check a (data_fault ALIGNMENT_FAULT a (z\<lparr>NumNcycles := NumNcycles z + 1\<rparr>))"
  have x: "stm_transfer (arm7100_mmu_ops B) instr a z = Some u"
    using fault assms(8) by (simp add: stm_transfer_def ARMul_StoreWordN_def ARMul_WriteWord_def store_result_def u_def stm_check_def
       ldm_abort_def data_fault_def ARMul_DATAABORT_def Let_def)
  have u: "Aborted u \<noteq> 0" "Mode u = ABORT32MODE" "prog32Sig u \<noteq> LOW" "flags_ok u" "Bank u = USERBANK"
    using z by (simp_all add: u_def stm_check_def ldm_abort_def data_fault_def ARMul_DATAABORT_def XScale_set_fsr_far_def flags_ok_def)
  define v where "v = late_writeback instr w u"
  have "Mode v = ABORT32MODE" "prog32Sig v \<noteq> LOW" "flags_ok v" "Bank v = USERBANK" "Aborted v \<noteq> 0"
    using u by (simp_all add: v_def late_writeback_def lsm_writeback_def set_reg_def flags_ok_def)
  then show ?thesis
    using q u x TAKEABORT_in_abort_mode [of v] unfolding StoreSMult_def Let_def q_def [symmetric] z_def [symmetric]
    by (simp add: stm_finish_def v_def [symmetric])
qed

definition ex_abort_mode :: "unit ustate" where
  "ex_abort_mode = ex_us\<lparr>Mode := ABORT32MODE, Bank := ABORTBANK, mmu := (mmu ex_us)\<lparr>control := 0x73\<rparr>\<rparr>"

theorem stm_user_abort_leaves_user_bank_witness:
  "\<exists>t. StoreSMult (arm7100_mmu_ops undefined) ex_abort_mode 0xe8c00006 0x40000002 0 = Some t \<and> Mode t = ABORT32MODE \<and> Bank t = USERBANK"
proof -
  have "lsm_first 0xe8c00006 = Some 1" by (simp add: lsm_first_def BIT_def upt_rec)
  then show ?thesis
    by (intro stm_user_abort_leaves_user_bank [of ex_abort_mode "0x40000002" "0xe8c00006" 1])
      (simp_all add: ex_abort_mode_def ex_us_def ARMul_NewState_def bank_ok_def flags_ok_def ModeToBank_def bankofmode_def control_bit_def)
qed

end
