(* ===== verification/Arm_Io.thy ===== *)
theory Arm_Io
  imports Arm_Mem
begin

text \<open>
  The dispatch of I/O accesses and cycles (\<^verbatim>\<open>arch/arm/common/armio.c\<close>): the devices of the
  configuration are asked first, then the functions of the machine.  The lemmas show how often
  the machine runs, which addresses a device is asked for, and that the character functions
  meet the contract of a byte memory (locale \<open>byte_memory\<close>).
\<close>

section \<open>Devices and machines\<close>

text \<open>
  A device of the configuration and the machine, as tables of functions on the state \<open>'s\<close>; a
  null pointer is \<open>None\<close>.  The three functions of a kind are indexed by the size of the access.
  A read gives the data, or \<open>None\<close> for \<open>ADDR_NOHIT\<close>; a write says whether it hit.  The devices
  themselves (\<^verbatim>\<open>device/\<close>) are parameters.
\<close>

record 's device_desc =
  dd_base :: ARMword
  dd_size :: ARMword
  dd_reset :: "('s \<Rightarrow> 's) option"
  dd_update :: "('s \<Rightarrow> 's) option"
  dd_read :: "access_size \<Rightarrow> (ARMword \<Rightarrow> 's \<Rightarrow> ARMword option \<times> 's) option"
  dd_write :: "access_size \<Rightarrow> (ARMword \<Rightarrow> ARMword \<Rightarrow> 's \<Rightarrow> bool \<times> 's) option"

record 's machine_config =
  devices :: "'s device_desc option list"
  mach_io_reset :: "('s \<Rightarrow> 's) option"
  mach_io_do_cycle :: "'s \<Rightarrow> 's option"
  mach_io_read :: "access_size \<Rightarrow> 's \<Rightarrow> ARMword \<Rightarrow> (ARMword \<times> 's) option"
  mach_io_write :: "access_size \<Rightarrow> 's \<Rightarrow> ARMword \<Rightarrow> ARMword \<Rightarrow> 's option"

section \<open>Reset and cycles\<close>

text \<open>The loops over the devices that do not test for a null pointer.\<close>

fun each_device :: "('s device_desc \<Rightarrow> ('s \<Rightarrow> 's) option) \<Rightarrow> 's device_desc option list \<Rightarrow> 's \<Rightarrow> 's option" where
  "each_device sel [] s = Some s"
| "each_device sel (None # ds) s = None"
| "each_device sel (Some d # ds) s = each_device sel ds (case sel d of None \<Rightarrow> s | Some f \<Rightarrow> f s)"

definition io_reset :: "'s machine_config \<Rightarrow> 's \<Rightarrow> 's option" where
  "io_reset C s =
     map_option (\<lambda>s. case mach_io_reset C of None \<Rightarrow> s | Some f \<Rightarrow> f s) (each_device dd_reset (devices C) s)"

abbreviation (input) DIVISOR :: int where "DIVISOR \<equiv> 10"

text \<open>The static variable \<open>prescale\<close> is passed along with the state.\<close>

definition io_do_cycle :: "'s machine_config \<Rightarrow> int \<times> 's \<Rightarrow> (int \<times> 's) option" where
  "io_do_cycle C = (\<lambda>(prescale, s).
     let prescale = prescale - 1 in
     if prescale < 0
     then map_option (Pair DIVISOR) (Option.bind (each_device dd_update (devices C) s) (mach_io_do_cycle C))
     else Some (prescale, s))"

section \<open>Reads and writes\<close>

definition dev_in_range :: "'s device_desc \<Rightarrow> ARMword \<Rightarrow> bool" where
  "dev_in_range d addr \<longleftrightarrow> dd_size d = 0 \<or> addr \<ge> dd_base d \<and> addr < dd_base d + dd_size d"

definition size_mask :: "access_size \<Rightarrow> ARMword" where
  "size_mask z = (case z of Byte \<Rightarrow> 0xff | Halfword \<Rightarrow> 0xffff | Word \<Rightarrow> 0xffffffff)"

text \<open>The first device in range that takes the access; otherwise the access is the machine's.\<close>

fun dev_read :: "access_size \<Rightarrow> ARMword \<Rightarrow> 's device_desc option list \<Rightarrow> 's \<Rightarrow> ARMword option \<times> 's" where
  "dev_read z addr [] s = (None, s)"
| "dev_read z addr (None # ds) s = dev_read z addr ds s"
| "dev_read z addr (Some d # ds) s =
     (case dd_read d z of
        None \<Rightarrow> dev_read z addr ds s
      | Some f \<Rightarrow>
         if dev_in_range d addr
         then (case f addr s of (Some data, s) \<Rightarrow> (Some (data AND size_mask z), s) | (None, s) \<Rightarrow> dev_read z addr ds s)
         else dev_read z addr ds s)"

fun dev_write :: "access_size \<Rightarrow> ARMword \<Rightarrow> ARMword \<Rightarrow> 's device_desc option list \<Rightarrow> 's \<Rightarrow> bool \<times> 's" where
  "dev_write z addr data [] s = (False, s)"
| "dev_write z addr data (None # ds) s = dev_write z addr data ds s"
| "dev_write z addr data (Some d # ds) s =
     (case dd_write d z of
        None \<Rightarrow> dev_write z addr data ds s
      | Some f \<Rightarrow>
         if dev_in_range d addr
         then (case f addr (data AND size_mask z) s of (True, s) \<Rightarrow> (True, s) | (False, s) \<Rightarrow> dev_write z addr data ds s)
         else dev_write z addr data ds s)"

definition io_read_sz :: "'s machine_config \<Rightarrow> access_size \<Rightarrow> 's \<Rightarrow> ARMword \<Rightarrow> (ARMword \<times> 's) option" where
  "io_read_sz C z s addr =
     (case dev_read z addr (devices C) s of (Some data, s) \<Rightarrow> Some (data, s) | (None, s) \<Rightarrow> mach_io_read C z s addr)"

definition io_write_sz :: "'s machine_config \<Rightarrow> access_size \<Rightarrow> 's \<Rightarrow> ARMword \<Rightarrow> ARMword \<Rightarrow> 's option" where
  "io_write_sz C z s addr data =
     (case dev_write z addr data (devices C) s of (True, s) \<Rightarrow> Some s | (False, s) \<Rightarrow> mach_io_write C z s addr data)"

definition io_read_byte :: "'s machine_config \<Rightarrow> 's \<Rightarrow> ARMword \<Rightarrow> (ARMword \<times> 's) option" where
  "io_read_byte C = io_read_sz C Byte"

definition io_read_halfword :: "'s machine_config \<Rightarrow> 's \<Rightarrow> ARMword \<Rightarrow> (ARMword \<times> 's) option" where
  "io_read_halfword C = io_read_sz C Halfword"

definition io_read_word :: "'s machine_config \<Rightarrow> 's \<Rightarrow> ARMword \<Rightarrow> (ARMword \<times> 's) option" where
  "io_read_word C = io_read_sz C Word"

definition io_write_byte :: "'s machine_config \<Rightarrow> 's \<Rightarrow> ARMword \<Rightarrow> ARMword \<Rightarrow> 's option" where
  "io_write_byte C = io_write_sz C Byte"

definition io_write_halfword :: "'s machine_config \<Rightarrow> 's \<Rightarrow> ARMword \<Rightarrow> ARMword \<Rightarrow> 's option" where
  "io_write_halfword C = io_write_sz C Halfword"

definition io_write_word :: "'s machine_config \<Rightarrow> 's \<Rightarrow> ARMword \<Rightarrow> ARMword \<Rightarrow> 's option" where
  "io_write_word C = io_write_sz C Word"

section \<open>Characters in memory\<close>

text \<open>
  The union of a word and four bytes, on a little-endian host: \<open>buf_get w k\<close> is \<open>tmp.buf[k]\<close>.
\<close>

definition buf_get :: "ARMword \<Rightarrow> nat \<Rightarrow> ARMbyte" where
  "buf_get w k = ucast (drop_bit (8 * k) w)"

definition buf_set :: "ARMword \<Rightarrow> nat \<Rightarrow> ARMbyte \<Rightarrow> ARMword" where
  "buf_set w k c = (w AND NOT (push_bit (8 * k) 0xff)) OR push_bit (8 * k) (ucast c)"

definition buf_index :: "'m ARMul_State \<Rightarrow> ARMword \<Rightarrow> nat" where
  "buf_index s addr = unat (if bigendSig s = HIGH then 3 - (addr AND 3) else addr AND 3)"

definition mem_read_char :: "'x bus_ops \<Rightarrow> 'x mstate \<Rightarrow> ARMword \<Rightarrow> (ARMbyte \<times> 'x mstate) option" where
  "mem_read_char B s addr =
     map_option (\<lambda>(w, t). (buf_get w (buf_index t addr), t)) (mem_read_word B s (addr AND NOT 3))"

definition mem_write_char :: "'x bus_ops \<Rightarrow> 'x mstate \<Rightarrow> ARMword \<Rightarrow> ARMbyte \<Rightarrow> 'x mstate option" where
  "mem_write_char B s addr c =
     Option.bind (mem_read_word B s (addr AND NOT 3)) (\<lambda>(w, t).
       mem_write_word B t (addr AND NOT 3) (buf_set w (buf_index t addr) c))"


section \<open>The machine runs every eleventh cycle\<close>

fun io_cycles :: "'s machine_config \<Rightarrow> nat \<Rightarrow> int \<times> 's \<Rightarrow> (int \<times> 's) option" where
  "io_cycles C 0 x = Some x"
| "io_cycles C (Suc n) x = Option.bind (io_do_cycle C x) (io_cycles C n)"

definition machine_cycle :: "'s machine_config \<Rightarrow> 's \<Rightarrow> 's option" where
  "machine_cycle C s = Option.bind (each_device dd_update (devices C) s) (mach_io_do_cycle C)"

fun machine_cycles :: "'s machine_config \<Rightarrow> nat \<Rightarrow> 's \<Rightarrow> 's option" where
  "machine_cycles C 0 s = Some s"
| "machine_cycles C (Suc n) s = Option.bind (machine_cycle C s) (machine_cycles C n)"

lemma io_do_cycle_cases:
  "p > 0 \<Longrightarrow> io_do_cycle C (p, s) = Some (p - 1, s)"
  "p \<le> 0 \<Longrightarrow> io_do_cycle C (p, s) = map_option (Pair DIVISOR) (machine_cycle C s)"
  by (simp_all add: io_do_cycle_def machine_cycle_def)

lemma io_cycles_wait: "io_cycles C (k + n) (int k + p, s) = io_cycles C n (p, s)" if "p \<ge> 0"
proof (induction k)
  case (Suc k)
  have "io_do_cycle C (int (Suc k) + p, s) = Some (int k + p, s)" using that by (simp add: io_do_cycle_cases(1))
  then show ?case using Suc by simp
qed simp

lemma io_cycles_period:
  assumes "k \<le> 10"
  shows "io_cycles C (11 * n + k) (DIVISOR, s) = map_option (Pair (DIVISOR - int k)) (machine_cycles C n s)"
proof (induction n arbitrary: s)
  case 0
  have "io_cycles C (k + 0) (int k + (DIVISOR - int k), s) = io_cycles C 0 (DIVISOR - int k, s)"
    by (rule io_cycles_wait) (use assms in simp)
  then show ?case by simp
next
  case (Suc n)
  have "io_cycles C (10 + Suc (11 * n + k)) (int 10 + 0, s) = io_cycles C (Suc (11 * n + k)) (0, s)" by (rule io_cycles_wait) simp
  moreover have "11 * Suc n + k = 10 + Suc (11 * n + k)" by simp
  ultimately have "io_cycles C (11 * Suc n + k) (DIVISOR, s) = Option.bind (io_do_cycle C (0, s)) (io_cycles C (11 * n + k))"
    by (simp add: add.assoc)
  then show ?case using Suc.IH by (cases "machine_cycle C s") (simp_all add: io_do_cycle_cases(2))
qed

text \<open>
  Started with a full prescaler the machine runs exactly every eleventh cycle of the core:
  after n calls of \<open>io_do_cycle\<close> the devices and the machine have run n div 11 times, and
  the prescaler has counted down by the rest.
\<close>

theorem io_cycle_rate:
  "io_cycles C n (DIVISOR, s) = map_option (Pair (DIVISOR - int (n mod 11))) (machine_cycles C (n div 11) s)"
proof -
  have k: "n mod 11 \<le> 10" and n: "11 * (n div 11) + n mod 11 = n" by presburger+
  show ?thesis using io_cycles_period [OF k, of C "n div 11" s] unfolding n .
qed

section \<open>The range of a device\<close>

text \<open>
  The range test of a device with a size is that of the interval from its base, except
  that no address at all is in range when the interval reaches the end of the address space,
  because the sum of base and size wraps around.
\<close>

theorem device_range:
  "dev_in_range d addr \<longleftrightarrow> dd_size d = 0 \<or>
     unat (dd_base d) \<le> unat addr \<and> unat addr < unat (dd_base d) + unat (dd_size d) \<and> unat (dd_base d) + unat (dd_size d) < 2 ^ 32"
proof -
  obtain b z a where n: "unat (dd_base d) = b" "unat (dd_size d) = z" "unat addr = a" by blast
  have l: "b < 4294967296" "z < 4294967296" "a < 4294967296" using unat_less_2p32 n by auto
  have "unat (dd_base d + dd_size d) = (b + z) mod 4294967296" by (simp add: unat_word_ariths n)
  also have "\<dots> = (if b + z < 4294967296 then b + z else b + z - 4294967296)" using l by (simp add: mod_if)
  finally have "dev_in_range d addr \<longleftrightarrow> dd_size d = 0 \<or> b \<le> a \<and> a < (if b + z < 4294967296 then b + z else b + z - 4294967296)"
    by (simp add: dev_in_range_def word_le_nat_alt word_less_nat_alt n)
  then show ?thesis using l n by auto
qed

section \<open>Characters and bytes of memory\<close>

lemma ram_read_word_state:
  assumes "ram_ok s a"
  shows "\<exists>p. mem_wf ((mach s)\<lparr>mbp := p\<rparr>) \<and> mem_read_word B s a
     = Some (ram_word s a, s\<lparr>mach := (mach s)\<lparr>mbp := p, global_mbp := Some (ram_index (mach s) a)\<rparr>\<rparr>)"
  using mem_read_sz_ram [OF assms assms ram_ok_bank [OF assms] ram_ok_bank [OF assms] ram_ok_bank [OF assms], of B Word]
  by (auto simp: mem_read_word_def ram_word_def)


text \<open>The byte and its word are in the same RAM bank, and the bank starts at a word.\<close>

definition char_ok :: "'x mstate \<Rightarrow> ARMword \<Rightarrow> bool" where
  "char_ok s a \<longleftrightarrow> ram_ok s a \<and> ram_ok s (a AND NOT 3) \<and> ram_index (mach s) (a AND NOT 3) = ram_index (mach s) a
     \<and> mb_addr (mem_banks (mach s) ! ram_index (mach s) a) AND 3 = 0"

lemma split_word_addr: "\<exists>k<4. a = (a AND NOT 3) + of_nat k \<and> unat (a AND 3) = k" for a :: ARMword
proof (intro exI conjI)
  have "(a AND NOT 3) AND (a AND 3) = 0" by (auto simp: bit_eq_iff bit_simps)
  then have "(a AND NOT 3) + (a AND 3) = (a AND NOT 3) OR (a AND 3)" by (rule disjunctive_add_eq_or)
  also have "\<dots> = a" by (auto simp: bit_eq_iff bit_simps)
  finally have "(a AND NOT 3) + (a AND 3) = a" .
  then show "a = (a AND NOT 3) + of_nat (unat (a AND 3))" by simp
  show "unat (a AND 3) < 4" using unat_and_3_mod [of a] by simp
qed simp

lemma char_word:
  assumes "char_ok s a"
  shows "rom_index (mach s) (ram_index (mach s) a) (a AND NOT 3) = rom_index (mach s) (ram_index (mach s) a) a"
    and "ram_word s (a AND NOT 3) = ram_word s a"
    and "byte_offset (bigendSig s) a = 8 * buf_index s a"
proof -
  obtain k where k: "k < 4" "a = (a AND NOT 3) + of_nat k" "unat (a AND 3) = k" using split_word_addr [of a] by blast
  show r: "rom_index (mach s) (ram_index (mach s) a) (a AND NOT 3) = rom_index (mach s) (ram_index (mach s) a) a"
    using rom_index_aligned [of "mach s" "ram_index (mach s) a" "a AND NOT 3" k] assms k by (simp add: char_ok_def and.assoc)
  show "ram_word s (a AND NOT 3) = ram_word s a" using assms r by (simp add: ram_word_def rom_get_def char_ok_def)
  have b: "bigendSig s = 0 \<or> bigendSig s = 1" using assms ram_big by (auto simp: char_ok_def)
  have "unat (3 - (a AND 3)) = 3 - k" using k(1,3) by (simp add: unat_sub word_le_nat_alt)
  then show "byte_offset (bigendSig s) a = 8 * buf_index s a" using byte_offset_cases [OF b] b k(3) by (auto simp: buf_index_def)
qed

lemma buf_lane: "ucast (buf_get w k) = lane_read 0xff (8 * k) w" "buf_set w k c = lane_write 0xff (8 * k) (ucast c) w"
  for w :: ARMword
proof -
  have m: "(0xff :: ARMword) = mask 8" by (simp add: mask_eq_exp_minus_1)
  show "ucast (buf_get w k) = lane_read 0xff (8 * k) w" unfolding buf_get_def lane_read_def m
    by (rule bit_word_eqI) (auto simp: bit_ucast_iff bit_and_iff bit_mask_iff bit_simps)
  have "(ucast c :: ARMword) AND 0xff = ucast c" unfolding m by (rule bit_word_eqI) (auto simp: bit_simps dest: bit_imp_le_length)
  then show "buf_set w k c = lane_write 0xff (8 * k) (ucast c) w" by (simp add: buf_set_def lane_write_def)
qed

lemma char_read:
  assumes "char_ok s a"
  shows "\<exists>s'. map_option (\<lambda>(c, t). (ucast c, t)) (mem_read_char B s a) = Some (ram_byte s a, s') \<and> char_ok s' = char_ok s
     \<and> (\<forall>b. char_ok s b \<longrightarrow> ram_byte s' b = ram_byte s b)"
proof -
  let ?a = "a AND NOT 3"
  have o: "ram_ok s ?a" using assms by (simp add: char_ok_def)
  obtain p where p: "mem_wf ((mach s)\<lparr>mbp := p\<rparr>)"
    "mem_read_word B s ?a = Some (ram_word s ?a, s\<lparr>mach := (mach s)\<lparr>mbp := p, global_mbp := Some (ram_index (mach s) ?a)\<rparr>\<rparr>)"
    using ram_read_word_state [OF o] by blast
  let ?s = "s\<lparr>mach := (mach s)\<lparr>mbp := p, global_mbp := Some (ram_index (mach s) ?a), rom := rom (mach s)\<rparr>\<rparr>"
  have k: "ram_ok ?s = ram_ok s" by (rule ram_ok_upd [OF ram_ok_wf [OF o] p(1)])
  have c: "char_ok ?s = char_ok s" unfolding char_ok_def fun_eq_iff k using ram_index_cong [of "mach ?s" "mach s"] by simp
  have b: "ram_byte ?s b = ram_byte s b" for b unfolding ram_byte_upd by (simp add: ram_byte_def ram_word_def rom_get_def)
  have "mem_read_char B s a = Some (buf_get (ram_word s ?a) (buf_index s a), ?s)"
    using p(2) by (simp add: mem_read_char_def buf_index_def)
  then have "map_option (\<lambda>(c, t). (ucast c, t)) (mem_read_char B s a) = Some (ram_byte s a, ?s)"
    by (simp only: option.map prod.case buf_lane(1) char_word(2) [OF assms] char_word(3) [OF assms, symmetric] ram_byte_def)
  then show ?thesis using c b by blast
qed


lemma char_write:
  assumes "char_ok s a"
  shows "\<exists>s'. mem_write_char B s a (ucast d) = Some s' \<and> char_ok s' = char_ok s \<and> ram_byte s' a = d AND 0xff
     \<and> (\<forall>b. char_ok s b \<longrightarrow> b \<noteq> a \<longrightarrow> ram_byte s' b = ram_byte s b)"
proof -
  let ?a = "a AND NOT 3" and ?i = "ram_index (mach s) a" and ?be = "bigendSig s"
  have o: "ram_ok s ?a" "ram_ok s a" and i: "ram_index (mach s) ?a = ?i" using assms by (simp_all add: char_ok_def)
  have be: "?be = 0 \<or> ?be = 1" by (rule ram_big [OF o(1)])
  obtain p where p: "mem_wf ((mach s)\<lparr>mbp := p\<rparr>)"
    "mem_read_word B s ?a = Some (ram_word s ?a, s\<lparr>mach := (mach s)\<lparr>mbp := p, global_mbp := Some ?i\<rparr>\<rparr>)"
    using ram_read_word_state [OF o(1)] unfolding i by blast
  let ?t = "s\<lparr>mach := (mach s)\<lparr>mbp := p, global_mbp := Some ?i, rom := rom (mach s)\<rparr>\<rparr>"
  have t: "ram_ok ?t = ram_ok s" by (rule ram_ok_upd [OF ram_ok_wf [OF o(1)] p(1)])
  have ti: "ram_index (mach ?t) = ram_index (mach s)" "rom_index (mach ?t) = rom_index (mach s)"
    using ram_index_cong [of "mach ?t" "mach s"] by (simp_all add: rom_index_def fun_eq_iff)
  define v where "v = lane_write 0xff (byte_offset ?be a) d (ram_word s a)"
  have "(ucast (ucast d :: ARMbyte) :: ARMword) = d AND mask 8"
    by (rule bit_word_eqI) (auto simp: bit_simps)
  then have "(ucast (ucast d :: ARMbyte) :: ARMword) = d AND 0xff" by (simp add: mask_8_16)
  then have bv: "buf_set (ram_word s ?a) (buf_index s a) (ucast d) = v"
    unfolding v_def buf_lane(2) char_word(2) [OF assms] char_word(3) [OF assms] by (simp add: lane_write_def and.assoc)
  obtain q where q: "mem_wf ((mach ?t)\<lparr>mbp := q\<rparr>)" "mem_write_word B ?t ?a v = Some (?t\<lparr>mach := (mach ?t)\<lparr>mbp := q, global_mbp := Some ?i,
       rom := (rom (mach ?t))(?i := (rom (mach ?t) ?i)(rom_index (mach s) ?i a := v))\<rparr>\<rparr>)"
    using ram_write_word [of ?t ?a B v] o(1) unfolding t ti i char_word(1) [OF assms] by blast
  let ?r = "(rom (mach s))(?i := (rom (mach s) ?i)(rom_index (mach s) ?i a := v))"
  let ?u = "s\<lparr>mach := (mach s)\<lparr>mbp := q, global_mbp := Some ?i, rom := ?r\<rparr>\<rparr>"
  have w: "mem_write_char B s a (ucast d) = Some ?u"
    using p(2) q(2) bv by (simp add: mem_write_char_def buf_index_def)
  have u: "ram_ok ?u = ram_ok s" by (rule ram_ok_upd [OF ram_ok_wf [OF o(1)]]) (use q(1) in \<open>simp add: mem_wf_def live_banks_def\<close>)
  have c: "char_ok ?u = char_ok s" unfolding char_ok_def fun_eq_iff u using ram_index_cong [of "mach ?u" "mach s"] by simp
  obtain s' where s': "mem_write_byte B s a d = Some s'" "ram_byte s' a = d AND 0xff" "\<forall>b. ram_ok s b \<longrightarrow> b \<noteq> a \<longrightarrow> ram_byte s' b = ram_byte s b"
    using ram_write_byte [OF o(2)] by blast
  obtain p' where "mem_write_byte B s a d = Some (s\<lparr>mach := (mach s)\<lparr>mbp := p', global_mbp := Some ?i, rom := ?r\<rparr>\<rparr>)"
    using mem_write_sz_ram [OF o(2) ram_ok_bank [OF o(2)], of B Byte d]
    by (auto simp: mem_write_byte_def rom_upd_def rom_index_def Let_def v_def ram_word_def rom_get_def)
  then have "ram_byte s' b = ram_byte ?u b" for b using s'(1) by (simp only: option.inject) (metis ram_byte_upd)
  then show ?thesis using w c s'(2,3) by (auto simp: char_ok_def)
qed

interpretation ram_char: byte_memory char_ok ram_byte "\<lambda>s a. map_option (\<lambda>(c, t). (ucast c, t)) (mem_read_char B s a)"
    "\<lambda>s a d. mem_write_char B s a (ucast d)" for B
  by unfold_locales (rule char_read, assumption, rule char_write, assumption)

text \<open>
  The character functions, which read and write whole words, agree with the byte accesses:
  after any sequence of characters written to distinct RAM addresses, in both byte orders,
  the character and the byte at an address are those last written, or those of before.
\<close>

theorem ram_char_store_load:
  assumes "\<forall>p\<in>set ps. char_ok s (fst p)" "distinct (map fst ps)" "char_ok s b"
  shows "\<exists>t u v. store_seq (\<lambda>s a d. mem_write_char B s a (ucast d)) ps s = Some t \<and>
     mem_read_char B t b = Some (ucast (case map_of ps b of Some d \<Rightarrow> d | None \<Rightarrow> ram_byte s b), u) \<and>
     mem_read_byte B t b = Some (case map_of ps b of Some d \<Rightarrow> d AND 0xff | None \<Rightarrow> ram_byte s b, v)"
proof -
  let ?v = "case map_of ps b of Some d \<Rightarrow> d AND 0xff | None \<Rightarrow> ram_byte s b"
  obtain t where t: "store_seq (\<lambda>s a d. mem_write_char B s a (ucast d)) ps s = Some t" "char_ok t = char_ok s" "ram_byte t b = ?v"
    using ram_char.store_seq_val [OF assms(1,2), of B] assms(3) by blast
  obtain u where u: "map_option (\<lambda>(c, t). (ucast c, t)) (mem_read_char B t b) = Some (?v, u)"
    using char_read [of t b B] t(2,3) assms(3) by auto
  then obtain c where c: "mem_read_char B t b = Some (c, u)" "(ucast c :: ARMword) = ?v" by auto
  have low: "(ucast (d AND 0xff :: ARMword) :: ARMbyte) = ucast d" for d
    unfolding mask_8_16(1) [symmetric] by (rule bit_word_eqI) (auto simp: bit_simps)
  have "c = ucast (ucast c :: ARMword)" by (rule bit_word_eqI) (auto simp: bit_simps)
  also have "\<dots> = ucast (case map_of ps b of Some d \<Rightarrow> d | None \<Rightarrow> ram_byte s b)" unfolding c(2)
    by (cases "map_of ps b") (simp_all add: low)
  finally have r: "mem_read_char B t b = Some (ucast (case map_of ps b of Some d \<Rightarrow> d | None \<Rightarrow> ram_byte s b), u)" using c(1) by simp
  have "ram_ok t b" using t(2) assms(3) by (metis char_ok_def)
  then show ?thesis using t(1,3) r ram_read_byte [of t b B] by auto
qed

theorem ram_char_store_load_witness:
  "\<exists>t u v. store_seq (\<lambda>s a d. mem_write_char undefined s a (ucast d)) [(0x40000001, 0x41 :: ARMword)] ex_ms = Some t \<and>
     mem_read_char undefined t 0x40000001 = Some (0x41, u) \<and> mem_read_byte undefined t 0x40000001 = Some (0x41, v)"
proof -
  have b: "ram_bank ex_mem 0x40000000 1" "ram_bank ex_mem 0x40000001 1" using ex_ram(1) by simp_all
  have "char_ok ex_ms 0x40000001"
    using ex_ram(2) [of "0x40000000"] ex_ram(2) [of "0x40000001"] ram_index_bank [OF ex_mem_wf b(1)] ram_index_bank [OF ex_mem_wf b(2)]
    by (simp add: char_ok_def ex_ms_def ARMul_NewState_def) (simp add: ex_mem_def ex_banks_def)
  then show ?thesis using ram_char_store_load [of "[(0x40000001, 0x41)]" ex_ms "0x40000001" undefined] by simp
qed

end
