(* ===== verification/Lpc_State.thy ===== *)
theory Lpc_State
  imports Prelude
begin

text \<open>
  The peripheral state of the LPC2300 machine (\<open>skyeye_mach_lpc2300.c\<close>): the
  C structures as records, the C arrays as functions from the index.  A value of
  type \<open>lpc_sys\<close> is what the machine's routines read and write: the static
  variable \<open>lpc2300_io\<close>, the two interrupt inputs of the processor (fields of
  \<open>ARMul_State\<close>), the static counter \<open>uartcnt\<close>, and the host side of the serial
  lines, of an arbitrary type.  What the host does when a byte is read or written
  (\<open>skyeye_uart_read\<close>, \<open>skyeye_uart_write\<close>) is a parameter.
\<close>

record lpc2300_timer_t =
  t_ir :: ARMword
  t_tcr :: ARMword
  t_tc :: ARMword
  t_pr :: ARMword
  t_pc :: ARMword
  t_mcr :: ARMword
  t_mr :: "nat \<Rightarrow> ARMword"
  t_ctcr :: ARMword

text \<open>
  \<open>t_fifolen\<close> and \<open>t_fifotop\<close> are signed characters in C; they stay in 0 to 16
  and 0 to 15 (\<open>fifo_ok\<close> below), so no narrowing takes place and they are integers.
\<close>

record lpc2300_uart_t =
  u_rbr :: ARMword
  u_thr :: ARMword
  u_ier :: ARMword
  u_iir :: ARMword
  u_fcr :: ARMword
  u_lcr :: ARMword
  u_lsr :: ARMword
  u_msr :: ARMword
  u_scr :: ARMword
  u_dll :: ARMword
  u_dlm :: ARMword
  t_fifo :: "nat \<Rightarrow> ARMbyte"
  t_fifolen :: int
  t_fifotop :: int

record lpc2300_pll_t =
  pll_con :: ARMword
  pll_cfg :: ARMword
  pll_stat :: ARMword
  pll_feed :: ARMword

record lpc2300_vic_t =
  IRQStatus :: ARMword
  FIQStatus :: ARMword
  RawIntr :: ARMword
  IntSelect :: ARMword
  IntEnable :: ARMword
  IntEnClr :: ARMword
  SoftInt :: ARMword
  SoftIntClear :: ARMword
  Protection :: ARMword
  Vect_Addr :: ARMword
  SWPrioMask :: ARMword
  HWPrioMask :: ARMword
  VectAddr :: "nat \<Rightarrow> ARMword"
  VectPrio :: "nat \<Rightarrow> ARMword"
  INTSOURCE :: ARMword
  IRQNumber :: "nat \<Rightarrow> int"

record lpc2300_io_t =
  syscon :: ARMword
  pll :: lpc2300_pll_t
  timer :: "nat \<Rightarrow> lpc2300_timer_t"
  vic :: lpc2300_vic_t
  pconp :: ARMword
  pinsel :: "nat \<Rightarrow> ARMword"
  pinmode :: "nat \<Rightarrow> ARMword"
  FIO :: "nat \<Rightarrow> ARMword"
  bcfg :: "nat \<Rightarrow> ARMword"
  uart :: "nat \<Rightarrow> lpc2300_uart_t"
  mmcr :: ARMword
  vibdiv :: ARMword
  pclksel0 :: ARMword
  pclksel1 :: ARMword
  rtc_sec :: ARMword
  rtc_min :: ARMword
  rtc_hour :: ARMword
  rtc_dom :: ARMword
  rtc_dow :: ARMword
  rtc_doy :: ARMword
  rtc_month :: ARMword
  rtc_year :: ARMword
  rtc_preint :: ARMword
  rtc_prefrac :: ARMword
  rtc_ccr :: ARMword
  mamcr :: ARMword
  mamtim :: ARMword

record 'e lpc_sys =
  lio :: lpc2300_io_t
  nirq :: ARMword
  nfiq :: ARMword
  uartcnt :: int
  host :: 'e

text \<open>
  The host side of the serial lines: reading gives a byte or nothing, writing says
  whether the byte was taken (the C functions return a positive count).
\<close>

record 'e uart_host =
  uart_host_read :: "nat \<Rightarrow> 'e \<Rightarrow> ARMbyte option \<times> 'e"
  uart_host_write :: "nat \<Rightarrow> ARMbyte \<Rightarrow> 'e \<Rightarrow> bool \<times> 'e"

section \<open>Start state\<close>

text \<open>The static variable \<open>lpc2300_io\<close> starts as zero, the static counter \<open>uartcnt\<close> at 128.\<close>

definition timer_zero :: lpc2300_timer_t where
  "timer_zero = \<lparr>t_ir = 0, t_tcr = 0, t_tc = 0, t_pr = 0, t_pc = 0, t_mcr = 0, t_mr = (\<lambda>_. 0), t_ctcr = 0\<rparr>"

definition uart_zero :: lpc2300_uart_t where
  "uart_zero = \<lparr>u_rbr = 0, u_thr = 0, u_ier = 0, u_iir = 0, u_fcr = 0, u_lcr = 0, u_lsr = 0, u_msr = 0,
     u_scr = 0, u_dll = 0, u_dlm = 0, t_fifo = (\<lambda>_. 0), t_fifolen = 0, t_fifotop = 0\<rparr>"

definition vic_zero :: lpc2300_vic_t where
  "vic_zero = \<lparr>IRQStatus = 0, FIQStatus = 0, RawIntr = 0, IntSelect = 0, IntEnable = 0, IntEnClr = 0,
     SoftInt = 0, SoftIntClear = 0, Protection = 0, Vect_Addr = 0, SWPrioMask = 0, HWPrioMask = 0,
     VectAddr = (\<lambda>_. 0), VectPrio = (\<lambda>_. 0), INTSOURCE = 0, IRQNumber = (\<lambda>_. 0)\<rparr>"

definition lpc2300_io_zero :: lpc2300_io_t where
  "lpc2300_io_zero = \<lparr>syscon = 0, pll = \<lparr>pll_con = 0, pll_cfg = 0, pll_stat = 0, pll_feed = 0\<rparr>,
     timer = (\<lambda>_. timer_zero), vic = vic_zero, pconp = 0, pinsel = (\<lambda>_. 0), pinmode = (\<lambda>_. 0),
     FIO = (\<lambda>_. 0), bcfg = (\<lambda>_. 0), uart = (\<lambda>_. uart_zero), mmcr = 0, vibdiv = 0,
     pclksel0 = 0, pclksel1 = 0, rtc_sec = 0, rtc_min = 0, rtc_hour = 0, rtc_dom = 0, rtc_dow = 0,
     rtc_doy = 0, rtc_month = 0, rtc_year = 0, rtc_preint = 0, rtc_prefrac = 0, rtc_ccr = 0,
     mamcr = 0, mamtim = 0\<rparr>"

definition lpc_sys_zero :: "'e \<Rightarrow> 'e lpc_sys" where
  "lpc_sys_zero h = \<lparr>lio = lpc2300_io_zero, nirq = 0, nfiq = 0, uartcnt = 128, host = h\<rparr>"

section \<open>Access\<close>

definition BITMSK :: "nat \<Rightarrow> ARMword" where
  "BITMSK n = push_bit n 1"

definition IRQTIMER :: "nat \<Rightarrow> ARMword" where
  "IRQTIMER i = push_bit (if i < 2 then i + 4 else i + 24) 1"

definition IRQUART :: "nat \<Rightarrow> ARMword" where
  "IRQUART i = push_bit (if i < 2 then i + 6 else i + 26) 1"

definition upd_vic :: "(lpc2300_vic_t \<Rightarrow> lpc2300_vic_t) \<Rightarrow> 'e lpc_sys \<Rightarrow> 'e lpc_sys" where
  "upd_vic f s = s\<lparr>lio := (lio s)\<lparr>vic := f (vic (lio s))\<rparr>\<rparr>"

definition upd_uart :: "nat \<Rightarrow> (lpc2300_uart_t \<Rightarrow> lpc2300_uart_t) \<Rightarrow> 'e lpc_sys \<Rightarrow> 'e lpc_sys" where
  "upd_uart i f s = s\<lparr>lio := (lio s)\<lparr>uart := (uart (lio s))(i := f (uart (lio s) i))\<rparr>\<rparr>"

definition upd_timer :: "nat \<Rightarrow> (lpc2300_timer_t \<Rightarrow> lpc2300_timer_t) \<Rightarrow> 'e lpc_sys \<Rightarrow> 'e lpc_sys" where
  "upd_timer i f s = s\<lparr>lio := (lio s)\<lparr>timer := (timer (lio s))(i := f (timer (lio s) i))\<rparr>\<rparr>"

abbreviation the_vic :: "'e lpc_sys \<Rightarrow> lpc2300_vic_t" where
  "the_vic s \<equiv> vic (lio s)"

abbreviation the_uart :: "'e lpc_sys \<Rightarrow> nat \<Rightarrow> lpc2300_uart_t" where
  "the_uart s \<equiv> uart (lio s)"

abbreviation the_timer :: "'e lpc_sys \<Rightarrow> nat \<Rightarrow> lpc2300_timer_t" where
  "the_timer s \<equiv> timer (lio s)"

lemma upd_vic_simps [simp]:
  "the_vic (upd_vic f s) = f (the_vic s)" "the_uart (upd_vic f s) = the_uart s"
  "the_timer (upd_vic f s) = the_timer s" "nirq (upd_vic f s) = nirq s" "nfiq (upd_vic f s) = nfiq s"
  "uartcnt (upd_vic f s) = uartcnt s" "host (upd_vic f s) = host s" "pconp (lio (upd_vic f s)) = pconp (lio s)"
  by (simp_all add: upd_vic_def)

lemma upd_uart_simps [simp]:
  "the_vic (upd_uart i f s) = the_vic s" "the_uart (upd_uart i f s) = (the_uart s)(i := f (the_uart s i))"
  "the_timer (upd_uart i f s) = the_timer s" "nirq (upd_uart i f s) = nirq s" "nfiq (upd_uart i f s) = nfiq s"
  "uartcnt (upd_uart i f s) = uartcnt s" "host (upd_uart i f s) = host s" "pconp (lio (upd_uart i f s)) = pconp (lio s)"
  by (simp_all add: upd_uart_def)

lemma upd_timer_simps [simp]:
  "the_vic (upd_timer i f s) = the_vic s" "the_uart (upd_timer i f s) = the_uart s"
  "the_timer (upd_timer i f s) = (the_timer s)(i := f (the_timer s i))"
  "nirq (upd_timer i f s) = nirq s" "nfiq (upd_timer i f s) = nfiq s"
  "uartcnt (upd_timer i f s) = uartcnt s" "host (upd_timer i f s) = host s"
  "pconp (lio (upd_timer i f s)) = pconp (lio s)"
  by (simp_all add: upd_timer_def)

lemma BITMSK_and_iff [simp]: "w AND BITMSK n = 0 \<longleftrightarrow> \<not> bit w n"
  by (simp add: BITMSK_def and_exp_eq_0_iff_not_bit)

lemma bit_BITMSK_iff: "bit (BITMSK n) k \<longleftrightarrow> k = n \<and> n < 32"
  by (auto simp: BITMSK_def bit_simps dest: bit_imp_le_length)

lemma upd_timer_upd_timer [simp]: "upd_timer i f (upd_timer i g s) = upd_timer i (\<lambda>t. f (g t)) s"
  by (simp add: upd_timer_def)

lemma upd_timer_same: "f (the_timer s i) = g (the_timer s i) \<Longrightarrow> upd_timer i f s = upd_timer i g s"
  by (simp add: upd_timer_def)

lemma upd_timer_id: "f (the_timer s i) = the_timer s i \<Longrightarrow> upd_timer i f s = s"
  by (simp add: upd_timer_def)

end
