(* ===== verification/Lpc_Vic.thy ===== *)
theory Lpc_Vic
  imports Lpc_State
begin

text \<open>
  The vectored interrupt controller: \<open>lpc2300_update_int\<close>, which recomputes the
  interrupt lines and selects the interrupt to serve, and the acknowledge that a
  write to \<open>VICVectAddr\<close> makes.  The C code shifts by a priority it reads from a
  register as a signed number; where the shift is undefined the result is \<open>None\<close>.
\<close>

section \<open>Selection of the interrupt to serve\<close>

text \<open>The search with \<open>break\<close> for the highest priority in service; 16 if none is.\<close>

definition servicing_prio :: "ARMword \<Rightarrow> int" where
  "servicing_prio hwmask =
     (case find (\<lambda>i. hwmask AND BITMSK i = 0) [0..<16] of Some i \<Rightarrow> int i | None \<Rightarrow> 16)"

text \<open>One round of the search for the next interrupt: \<open>(ServicingPrio, NextIRQ)\<close>.\<close>

definition next_irq_step :: "lpc2300_vic_t \<Rightarrow> ARMword \<Rightarrow> nat \<Rightarrow> int \<times> int \<Rightarrow> (int \<times> int) option" where
  "next_irq_step v PrioMask irq_no sn =
     (let (ServicingPrio, NextIRQ) = sn in
      if IRQStatus v AND BITMSK irq_no \<noteq> 0 then
        (let prio = sint (VectPrio v irq_no) in
         if ServicingPrio > prio then
           (if prio < 0 then None
            else if PrioMask AND BITMSK (nat prio) \<noteq> 0 then Some (prio, int irq_no)
            else Some sn)
         else Some sn)
      else Some sn)"

fun next_irq_loop :: "lpc2300_vic_t \<Rightarrow> ARMword \<Rightarrow> nat list \<Rightarrow> int \<times> int \<Rightarrow> (int \<times> int) option" where
  "next_irq_loop v PrioMask [] sn = Some sn"
| "next_irq_loop v PrioMask (irq_no # is) sn =
     (case next_irq_step v PrioMask irq_no sn of
        None \<Rightarrow> None | Some sn \<Rightarrow> next_irq_loop v PrioMask is sn)"

definition vic_status :: "lpc2300_vic_t \<Rightarrow> lpc2300_vic_t" where
  "vic_status v =
     (let v = v\<lparr>RawIntr := INTSOURCE v OR SoftInt v\<rparr>;
          irq = RawIntr v AND IntEnable v
      in v\<lparr>IRQStatus := irq AND NOT (IntSelect v), FIQStatus := irq AND IntSelect v\<rparr>)"

definition lpc2300_update_int :: "'e lpc_sys \<Rightarrow> 'e lpc_sys option" where
  "lpc2300_update_int s =
     (let s = upd_vic vic_status s;
          v = the_vic s;
          s = s\<lparr>nfiq := (if FIQStatus v \<noteq> 0 then LOW else HIGH)\<rparr>;
          PrioMask = (SWPrioMask v AND HWPrioMask v) AND 0xffff
      in case next_irq_loop v PrioMask [0..<32] (servicing_prio (HWPrioMask v), - 1) of
           None \<Rightarrow> None
         | Some (ServicingPrio, NextIRQ) \<Rightarrow>
            (let s = s\<lparr>nirq := (if IRQStatus v \<noteq> 0 then LOW else HIGH)\<rparr> in
             Some (if FIQStatus v \<noteq> 0 then s\<lparr>nirq := HIGH\<rparr>
                   else if NextIRQ \<ge> 0 \<and> ServicingPrio < 16 then
                     (upd_vic (\<lambda>v. v\<lparr>
                        HWPrioMask := HWPrioMask v AND NOT (BITMSK (nat ServicingPrio)),
                        IRQNumber := (IRQNumber v)(nat ServicingPrio := NextIRQ),
                        Vect_Addr := VectAddr v (nat NextIRQ)\<rparr>) s)\<lparr>nirq := LOW\<rparr>
                   else s)))"

section \<open>Acknowledge\<close>

text \<open>
  The case \<open>0xffffff00\<close> of \<open>lpc2300_io_write_word\<close>.  \<open>BITMSK(nIRQNum)\<close> needs
  \<open>nIRQNum\<close> to be between 0 and 31.
\<close>

definition clear_uart_iir :: "int \<Rightarrow> 'e lpc_sys \<Rightarrow> 'e lpc_sys" where
  "clear_uart_iir n s =
     (if n = 6 then upd_uart 0 (\<lambda>u. u\<lparr>u_iir := (u_iir u AND NOT 0xf) OR 1\<rparr>) s
      else if n = 7 then upd_uart 1 (\<lambda>u. u\<lparr>u_iir := (u_iir u AND NOT 0xf) OR 1\<rparr>) s
      else s)"

definition vic_write_VAR :: "'e lpc_sys \<Rightarrow> 'e lpc_sys option" where
  "vic_write_VAR s =
     (let v = the_vic s in
      if FIQStatus v \<noteq> 0 then Some (upd_vic (\<lambda>v. v\<lparr>FIQStatus := 0\<rparr>) s)
      else
        (let nHighestPrio = servicing_prio (HWPrioMask v) in
         if nHighestPrio < 16 then
           (let n = IRQNumber v (nat nHighestPrio) in
            if 0 \<le> n \<and> n < 32 then
              lpc2300_update_int (clear_uart_iir n
                (upd_vic (\<lambda>v. v\<lparr>HWPrioMask := HWPrioMask v OR BITMSK (nat nHighestPrio),
                               INTSOURCE := INTSOURCE v AND NOT (BITMSK (nat n))\<rparr>) s))
            else None)
         else Some s))"

section \<open>The abstract controller\<close>

text \<open>
  An interrupt is a candidate when it is pending, its priority is below \<open>S\<close> (the
  priority in service) and the mask \<open>m\<close> lets the priority through.
\<close>

definition irq_prio :: "lpc2300_vic_t \<Rightarrow> nat \<Rightarrow> int" where
  "irq_prio v i = sint (VectPrio v i)"

definition irq_cand :: "lpc2300_vic_t \<Rightarrow> ARMword \<Rightarrow> int \<Rightarrow> nat \<Rightarrow> bool" where
  "irq_cand v m S i \<longleftrightarrow> bit (IRQStatus v) i \<and> irq_prio v i < S \<and> bit m (nat (irq_prio v i))"

text \<open>The best candidate of a list: lowest priority number, then lowest interrupt number.\<close>

definition irq_best :: "lpc2300_vic_t \<Rightarrow> ARMword \<Rightarrow> int \<Rightarrow> nat set \<Rightarrow> nat \<Rightarrow> bool" where
  "irq_best v m S A i \<longleftrightarrow> i \<in> A \<and> irq_cand v m S i \<and>
     (\<forall>j\<in>A. irq_cand v m S j \<longrightarrow> irq_prio v i < irq_prio v j \<or> irq_prio v i = irq_prio v j \<and> i \<le> j)"

lemma next_irq_step_conv:
  assumes "0 \<le> irq_prio v i"
  shows "next_irq_step v m i (S, n) = Some (if irq_cand v m S i then (irq_prio v i, int i) else (S, n))"
  using assms by (auto simp: next_irq_step_def irq_cand_def irq_prio_def Let_def)

lemma irq_cand_mono: "irq_cand v m T i \<Longrightarrow> T \<le> S \<Longrightarrow> irq_cand v m S i"
  by (auto simp: irq_cand_def)

lemma next_irq_loop_spec:
  assumes "\<forall>i\<in>set is. 0 \<le> irq_prio v i" "sorted is" "distinct is"
  shows "\<exists>S' n'. next_irq_loop v m is (S, n) = Some (S', n') \<and>
    ((\<forall>i\<in>set is. \<not> irq_cand v m S i) \<and> S' = S \<and> n' = n
     \<or> (\<exists>i. irq_best v m S (set is) i \<and> n' = int i \<and> S' = irq_prio v i))"
  using assms
proof (induction "is" arbitrary: S n)
  case (Cons i "is")
  then have i: "0 \<le> irq_prio v i" by simp
  show ?case
  proof (cases "irq_cand v m S i")
    case False
    then have "irq_best v m S (set (i # is)) k \<longleftrightarrow> irq_best v m S (set is) k" for k
      by (auto simp: irq_best_def)
    then show ?thesis using Cons False by (simp add: next_irq_step_conv [OF i])
  next
    case True
    from Cons obtain S' n' where l: "next_irq_loop v m is (irq_prio v i, int i) = Some (S', n')"
      and r: "(\<forall>j\<in>set is. \<not> irq_cand v m (irq_prio v i) j) \<and> S' = irq_prio v i \<and> n' = int i
       \<or> (\<exists>j. irq_best v m (irq_prio v i) (set is) j \<and> n' = int j \<and> S' = irq_prio v j)"
      by (metis distinct.simps(2) list.set_intros(2) sorted_simps(2))
    have lt: "irq_prio v i < S" using True by (simp add: irq_cand_def)
    have c: "irq_cand v m (irq_prio v i) j \<longleftrightarrow> irq_cand v m S j \<and> irq_prio v j < irq_prio v i" for j
      using lt by (auto simp: irq_cand_def)
    have le: "\<forall>j\<in>set is. i \<le> j" using Cons.prems by simp
    have "\<exists>k. irq_best v m S (set (i # is)) k \<and> n' = int k \<and> S' = irq_prio v k"
      using r
    proof
      assume "(\<forall>j\<in>set is. \<not> irq_cand v m (irq_prio v i) j) \<and> S' = irq_prio v i \<and> n' = int i"
      then have "irq_best v m S (set (i # is)) i" using True le by (auto simp: irq_best_def c not_less order_le_less)
      then show ?thesis using \<open>_ \<and> S' = irq_prio v i \<and> n' = int i\<close> by blast
    next
      assume "\<exists>j. irq_best v m (irq_prio v i) (set is) j \<and> n' = int j \<and> S' = irq_prio v j"
      then obtain j where j: "irq_best v m (irq_prio v i) (set is) j" "n' = int j" "S' = irq_prio v j" by blast
      then have "irq_best v m S (set (i # is)) j" unfolding irq_best_def c
        by auto
      then show ?thesis using j by blast
    qed
    then show ?thesis using l True by (simp add: next_irq_step_conv [OF i])
  qed
qed simp


lemma servicing_prio_range: "0 \<le> servicing_prio m \<and> servicing_prio m \<le> 16"
  by (auto simp: servicing_prio_def find_Some_iff split: option.splits)

lemma servicing_prio_iff:
  "servicing_prio m = p \<longleftrightarrow>
     0 \<le> p \<and> p \<le> 16 \<and> (p < 16 \<longrightarrow> \<not> bit m (nat p)) \<and> (\<forall>q. int q < p \<longrightarrow> bit m q)"
proof (cases "find (\<lambda>i. m AND BITMSK i = 0) [0..<16]")
  case None
  then have "\<forall>q<16. bit m q" by (simp add: find_None_iff)
  moreover have "p = 16" if "0 \<le> p" "p \<le> 16" "p < 16 \<longrightarrow> \<not> bit m (nat p)"
    using that \<open>\<forall>q<16. bit m q\<close> [rule_format, of "nat p"] by (cases "p < 16") (auto simp: nat_less_iff)
  ultimately show ?thesis using None by (auto simp: servicing_prio_def)
next
  case (Some i)
  then have i: "i < 16" "\<not> bit m i" "\<forall>q<i. bit m q"
    by (auto simp: find_Some_iff)
  have "p = int i" if "0 \<le> p" "p \<le> 16" "p < 16 \<longrightarrow> \<not> bit m (nat p)" "\<forall>q. int q < p \<longrightarrow> bit m q"
  proof (rule ccontr)
    assume "p \<noteq> int i"
    then consider "p < int i" | "int i < p" by linarith
    then show False using that i by cases (auto simp: nat_less_iff)
  qed
  then show ?thesis using Some i by (auto simp: servicing_prio_def)
qed

lemma servicing_prio_clear:
  assumes "0 \<le> p" "p < servicing_prio m"
  shows "servicing_prio (m AND NOT (BITMSK (nat p))) = p"
proof -
  have "p < 16" and "\<forall>q. int q < servicing_prio m \<longrightarrow> bit m q"
    using assms servicing_prio_range [of m] servicing_prio_iff [of m "servicing_prio m"] by auto
  then show ?thesis using assms
    by (auto simp: servicing_prio_iff bit_simps bit_BITMSK_iff dest: bit_imp_le_length split: if_splits)
qed

lemma HWPrioMask_restore:
  assumes "0 \<le> p" "p < servicing_prio m"
  shows "(m AND NOT (BITMSK (nat p))) OR BITMSK (nat p) = m"
proof -
  have "bit m (nat p)" using assms servicing_prio_iff [of m "servicing_prio m"] by auto
  then show ?thesis by (intro bit_word_eqI) (auto simp: bit_simps bit_BITMSK_iff)
qed

lemma irq_best_unique: "irq_best v m S A i \<Longrightarrow> irq_best v m S A j \<Longrightarrow> i = j"
  unfolding irq_best_def by (metis order_antisym order_less_asym order_less_irrefl)

definition vic_ok :: "lpc2300_vic_t \<Rightarrow> bool" where
  "vic_ok v \<longleftrightarrow> (\<forall>i<32. 0 \<le> sint (VectPrio v i)) \<and>
     (\<forall>p<16. \<not> bit (HWPrioMask v) p \<longrightarrow> 0 \<le> IRQNumber v p \<and> IRQNumber v p < 32)"

definition prio_mask :: "lpc2300_vic_t \<Rightarrow> ARMword" where
  "prio_mask v = (SWPrioMask v AND HWPrioMask v) AND 0xffff"

text \<open>The abstract controller: which interrupt is served next, if any.\<close>

definition vic_next :: "lpc2300_vic_t \<Rightarrow> nat \<Rightarrow> bool" where
  "vic_next v i \<longleftrightarrow> irq_best v (prio_mask v) (servicing_prio (HWPrioMask v)) {0..<32} i"

definition vic_serve :: "nat \<Rightarrow> lpc2300_vic_t \<Rightarrow> lpc2300_vic_t" where
  "vic_serve i v = v\<lparr>
     HWPrioMask := HWPrioMask v AND NOT (BITMSK (nat (irq_prio v i))),
     IRQNumber := (IRQNumber v)(nat (irq_prio v i) := int i),
     Vect_Addr := VectAddr v i\<rparr>"

lemma vic_ok_status [simp]: "vic_ok (vic_status v) = vic_ok v"
  by (simp add: vic_ok_def vic_status_def Let_def)

lemma vic_next_prio:
  assumes "vic_ok v" "vic_next v i"
  shows "i < 32" "0 \<le> irq_prio v i" "irq_prio v i < servicing_prio (HWPrioMask v)" "irq_prio v i < 16"
  using assms servicing_prio_range [of "HWPrioMask v"]
  by (auto simp: vic_next_def irq_best_def irq_cand_def vic_ok_def irq_prio_def)

lemma vic_ok_serve:
  assumes "vic_ok v" "vic_next v i"
  shows "vic_ok (vic_serve i v)"
  using assms vic_next_prio [OF assms] by (auto simp: vic_ok_def vic_serve_def bit_simps bit_BITMSK_iff)

lemma update_int_none:
  assumes "vic_ok (the_vic s)" "FIQStatus (vic_status (the_vic s)) = 0 \<longrightarrow> (\<nexists>i. vic_next (vic_status (the_vic s)) i)"
  shows "lpc2300_update_int s = Some ((upd_vic vic_status s)\<lparr>
     nfiq := (if FIQStatus (vic_status (the_vic s)) \<noteq> 0 then LOW else HIGH),
     nirq := (if FIQStatus (vic_status (the_vic s)) = 0 \<and> IRQStatus (vic_status (the_vic s)) \<noteq> 0 then LOW else HIGH)\<rparr>)"
proof -
  let ?v = "vic_status (the_vic s)" 
  have "\<forall>i\<in>set [0..<32]. 0 \<le> irq_prio ?v i"
    using assms(1) vic_ok_status [of "the_vic s"] unfolding vic_ok_def irq_prio_def by auto
  from next_irq_loop_spec [OF this, of "prio_mask ?v" "servicing_prio (HWPrioMask ?v)" "-1"]
  obtain S' n' where l: "next_irq_loop ?v (prio_mask ?v) [0..<32] (servicing_prio (HWPrioMask ?v), - 1) = Some (S', n')"
    and r: "n' = -1 \<or> (\<exists>i. vic_next ?v i)"
    by (auto simp: vic_next_def)
  show ?thesis
    using l r assms(2) by (auto simp: lpc2300_update_int_def prio_mask_def Let_def)
qed

lemma update_int_serve:
  assumes "vic_ok (the_vic s)" "FIQStatus (vic_status (the_vic s)) = 0" "vic_next (vic_status (the_vic s)) i"
  shows "lpc2300_update_int s = Some ((upd_vic (\<lambda>v. vic_serve i (vic_status v)) s)\<lparr>nfiq := HIGH, nirq := LOW\<rparr>)"
proof -
  let ?v = "vic_status (the_vic s)"
  have "vic_ok ?v" using assms(1) by simp
  note p = vic_next_prio [OF this assms(3)]
  have "\<forall>i\<in>set [0..<32]. 0 \<le> irq_prio ?v i"
    using assms(1) vic_ok_status [of "the_vic s"] unfolding vic_ok_def irq_prio_def by auto
  from next_irq_loop_spec [OF this, of "prio_mask ?v" "servicing_prio (HWPrioMask ?v)" "-1"]
  obtain S' n' where l: "next_irq_loop ?v (prio_mask ?v) [0..<32] (servicing_prio (HWPrioMask ?v), - 1) = Some (S', n')"
    and r: "(\<forall>k\<in>{0..<32}. \<not> irq_cand ?v (prio_mask ?v) (servicing_prio (HWPrioMask ?v)) k)
       \<or> (\<exists>k. vic_next ?v k \<and> n' = int k \<and> S' = irq_prio ?v k)"
    by (auto simp: vic_next_def)
  have "\<exists>k. vic_next ?v k \<and> n' = int k \<and> S' = irq_prio ?v k"
    using r assms(3) unfolding vic_next_def irq_best_def by blast
  then have n: "n' = int i" "S' = irq_prio ?v i"
    using assms(3) irq_best_unique unfolding vic_next_def by blast+
  show ?thesis
    using l n p assms(2) by (simp add: lpc2300_update_int_def prio_mask_def Let_def vic_serve_def upd_vic_def)
qed

lemma update_int_total:
  assumes "vic_ok (the_vic s)"
  shows "\<exists>t. lpc2300_update_int s = Some t \<and> vic_ok (the_vic t)"
proof (cases "FIQStatus (vic_status (the_vic s)) = 0 \<and> (\<exists>i. vic_next (vic_status (the_vic s)) i)")
  case True
  then obtain i where "vic_next (vic_status (the_vic s)) i" by blast
  then show ?thesis
    using True update_int_serve [OF assms] vic_ok_serve [of "vic_status (the_vic s)" i] assms by auto
next
  case False
  then show ?thesis using update_int_none [OF assms] assms by auto
qed

lemma VAR_after_serve:
  assumes "vic_ok (the_vic s)" "FIQStatus (vic_status (the_vic s)) = 0" "vic_next (vic_status (the_vic s)) i"
    "lpc2300_update_int s = Some t"
  shows "vic_write_VAR t = lpc2300_update_int (clear_uart_iir (int i)
     (upd_vic (\<lambda>v. v\<lparr>HWPrioMask := HWPrioMask (the_vic s), INTSOURCE := INTSOURCE v AND NOT (BITMSK i)\<rparr>) t))"
proof -
  let ?v = "vic_status (the_vic s)" 
  let ?p = "irq_prio ?v i" 
  have "vic_ok ?v" using assms(1) by simp
  note p = vic_next_prio [OF this assms(3)]
  have t: "the_vic t = vic_serve i ?v" using assms(4) update_int_serve [OF assms(1-3)] by auto
  have h: "HWPrioMask ?v = HWPrioMask (the_vic s)" by (simp add: vic_status_def Let_def)
  have "servicing_prio (HWPrioMask (the_vic t)) = ?p"
    using p servicing_prio_clear [of ?p "HWPrioMask ?v"] by (simp add: t vic_serve_def)
  moreover have "HWPrioMask (the_vic t) OR BITMSK (nat ?p) = HWPrioMask (the_vic s)"
    using p HWPrioMask_restore [of ?p "HWPrioMask ?v"] h by (simp add: t vic_serve_def)
  moreover have "FIQStatus (the_vic t) = 0" "IRQNumber (the_vic t) (nat ?p) = int i"
    using assms(2) by (simp_all add: t vic_serve_def)
  ultimately show ?thesis
    using p by (simp add: vic_write_VAR_def Let_def upd_vic_def)
qed

lemma write_VAR_total:
  assumes "vic_ok (the_vic s)"
  shows "\<exists>t. vic_write_VAR s = Some t \<and> vic_ok (the_vic t)"
proof (cases "FIQStatus (the_vic s) = 0 \<and> servicing_prio (HWPrioMask (the_vic s)) < 16")
  case True
  let ?p = "servicing_prio (HWPrioMask (the_vic s))"
  have p: "0 \<le> ?p" "\<not> bit (HWPrioMask (the_vic s)) (nat ?p)" "nat ?p < 16"
    using True servicing_prio_iff [of "HWPrioMask (the_vic s)" ?p] by auto
  then have n: "0 \<le> IRQNumber (the_vic s) (nat ?p)" "IRQNumber (the_vic s) (nat ?p) < 32"
    using assms by (auto simp: vic_ok_def)
  let ?u = "clear_uart_iir (IRQNumber (the_vic s) (nat ?p))
    (upd_vic (\<lambda>v. v\<lparr>HWPrioMask := HWPrioMask v OR BITMSK (nat ?p),
       INTSOURCE := INTSOURCE v AND NOT (BITMSK (nat (IRQNumber (the_vic s) (nat ?p))))\<rparr>) s)"
  have "vic_ok (the_vic ?u)"
    using assms by (auto simp: clear_uart_iir_def vic_ok_def bit_simps)
  then show ?thesis
    using update_int_total [of ?u] True n by (simp add: vic_write_VAR_def Let_def)
next
  case False
  then show ?thesis using assms by (auto simp: vic_write_VAR_def Let_def vic_ok_def)
qed

lemma next_irq_loop_None:
  "0 \<le> S \<Longrightarrow> next_irq_loop v m is (S, n) = None \<longleftrightarrow>
     (\<exists>i\<in>set is. bit (IRQStatus v) i \<and> irq_prio v i < 0)"
proof (induction "is" arbitrary: S n)
  case (Cons i "is")
  show ?case
  proof (cases "bit (IRQStatus v) i \<and> irq_prio v i < 0")
    case True
    then show ?thesis using Cons.prems by (auto simp: next_irq_step_def irq_prio_def Let_def)
  next
    case False
    then have "\<exists>S' n'. next_irq_step v m i (S, n) = Some (S', n') \<and> 0 \<le> S'"
      using Cons.prems by (auto simp: next_irq_step_def irq_prio_def Let_def)
    then obtain S' n' where "next_irq_step v m i (S, n) = Some (S', n')" "0 \<le> S'" by blast
    then show ?thesis using Cons.IH [of S' n'] False by auto
  qed
qed simp

lemma next_irq_loop_idle: "IRQStatus v = 0 \<Longrightarrow> next_irq_loop v m is sn = Some sn"
  by (induction "is") (simp_all add: next_irq_step_def Let_def case_prod_beta)

section \<open>Properties\<close>

text \<open>A controller with one pending interrupt (timer 0, number 4), for the examples.\<close>

definition vic_example :: "unit lpc_sys" where
  "vic_example = upd_vic (\<lambda>v. v\<lparr>INTSOURCE := BITMSK 4, IntEnable := BITMSK 4,
     SWPrioMask := 0xffff, HWPrioMask := 0xffff, VectPrio := (\<lambda>_. 15)\<rparr>) (lpc_sys_zero ())"

lemma vic_example_ok: "vic_ok (the_vic vic_example)"
proof -
  have "bit (0xffff :: ARMword) p" if "p < 16" for p
    using that by (rule bit_ffff)
  then show ?thesis
    by (simp add: vic_example_def vic_ok_def lpc_sys_zero_def lpc2300_io_zero_def vic_zero_def)
qed

lemma vic_example_servicing: "servicing_prio 0xffff = 16"
  by (simp add: servicing_prio_def upt_rec find_def)

lemma vic_example_fiq: "FIQStatus (vic_status (the_vic vic_example)) = 0"
  by (simp add: vic_example_def vic_status_def lpc_sys_zero_def lpc2300_io_zero_def vic_zero_def)

lemma vic_example_best: "vic_next (vic_status (the_vic vic_example)) 4"
  by (auto simp: vic_next_def irq_best_def irq_cand_def irq_prio_def vic_example_def vic_status_def Let_def
    lpc_sys_zero_def lpc2300_io_zero_def vic_zero_def prio_mask_def bit_BITMSK_iff vic_example_servicing)


text \<open>
  C14: interrupt selection.  When no fast interrupt is pending and some interrupt is
  eligible (enabled, not masked by software or hardware, of a higher priority than
  the one in service), \<open>lpc2300_update_int\<close> serves the one with the smallest
  priority number and, among equals, the smallest interrupt number: it clears that
  priority's bit of the hardware mask, records the number, offers its vector and
  pulls the interrupt line low.
\<close>

theorem lpc2300_update_int_selects:
  assumes "vic_ok (the_vic s)" "FIQStatus (vic_status (the_vic s)) = 0"
    "irq_best (vic_status (the_vic s)) (prio_mask (the_vic s)) (servicing_prio (HWPrioMask (the_vic s))) {0..<32} i"
  shows "lpc2300_update_int s =
    Some ((upd_vic (\<lambda>v. vic_serve i (vic_status v)) s)\<lparr>nfiq := HIGH, nirq := LOW\<rparr>)"
  using assms by (intro update_int_serve) (simp_all add: vic_next_def vic_status_def prio_mask_def Let_def)

theorem lpc2300_update_int_selects_witness:
  "lpc2300_update_int vic_example =
    Some ((upd_vic (\<lambda>v. vic_serve 4 (vic_status v)) vic_example)\<lparr>nfiq := HIGH, nirq := LOW\<rparr>)"
  using lpc2300_update_int_selects [OF vic_example_ok vic_example_fiq, of 4] vic_example_best
  by (simp add: vic_next_def vic_status_def prio_mask_def Let_def)

text \<open>
  The VIC invariant (priorities are non-negative, the numbers recorded for the
  priorities in service are interrupt numbers) makes both VIC operations defined,
  and both keep it.
\<close>

theorem lpc2300_vic_invariant:
  assumes "vic_ok (the_vic s)"
  shows "(\<exists>t. lpc2300_update_int s = Some t \<and> vic_ok (the_vic t))
    \<and> (\<exists>t. vic_write_VAR s = Some t \<and> vic_ok (the_vic t))"
  using update_int_total [OF assms] write_VAR_total [OF assms] by blast

theorem lpc2300_vic_invariant_witness: "\<exists>t. vic_write_VAR vic_example = Some t \<and> vic_ok (the_vic t)"
  using lpc2300_vic_invariant [OF vic_example_ok] by blast

text \<open>
  C31: acknowledging an interrupt undoes its selection: after \<open>lpc2300_update_int\<close>
  has chosen interrupt \<open>i\<close>, the write to \<open>VICVectAddr\<close> restores the hardware
  priority mask, clears the interrupt source of \<open>i\<close> and selects anew.
\<close>

theorem vic_VAR_undoes_selection:
  assumes "vic_ok (the_vic s)" "FIQStatus (vic_status (the_vic s)) = 0"
    "vic_next (vic_status (the_vic s)) i" "lpc2300_update_int s = Some t"
  shows "vic_write_VAR t = lpc2300_update_int (clear_uart_iir (int i)
     (upd_vic (\<lambda>v. v\<lparr>HWPrioMask := HWPrioMask (the_vic s), INTSOURCE := INTSOURCE v AND NOT (BITMSK i)\<rparr>) t))"
  using assms by (rule VAR_after_serve)

theorem vic_VAR_undoes_selection_witness:
  "\<exists>t. lpc2300_update_int vic_example = Some t \<and> vic_write_VAR t = lpc2300_update_int (clear_uart_iir 4
     (upd_vic (\<lambda>v. v\<lparr>HWPrioMask := HWPrioMask (the_vic vic_example), INTSOURCE := INTSOURCE v AND NOT (BITMSK 4)\<rparr>) t))"
proof -
  obtain t where "lpc2300_update_int vic_example = Some t"
    using update_int_total [OF vic_example_ok] by blast
  then show ?thesis
    using vic_VAR_undoes_selection [OF vic_example_ok vic_example_fiq vic_example_best] by simp
qed

text \<open>
  The interrupt request line depends on the pending interrupts only: it is low
  exactly when an enabled interrupt is pending and no fast interrupt is, whatever
  the priority masks and the priority in service.
\<close>

theorem lpc2300_irq_line_ignores_masks:
  assumes "lpc2300_update_int s = Some t"
  shows "nirq t = (if FIQStatus (vic_status (the_vic s)) = 0 \<and> IRQStatus (vic_status (the_vic s)) \<noteq> 0
                   then LOW else HIGH)"
  using assms next_irq_loop_idle [of "vic_status (the_vic s)"]
  by (auto simp: lpc2300_update_int_def Let_def upd_vic_def split: option.splits if_splits)

theorem lpc2300_irq_line_ignores_masks_witness:
  "\<exists>t. lpc2300_update_int (upd_vic (\<lambda>v. v\<lparr>SWPrioMask := 0\<rparr>) vic_example) = Some t \<and> nirq t = LOW"
proof -
  let ?s = "upd_vic (\<lambda>v. v\<lparr>SWPrioMask := 0\<rparr>) vic_example"
  have "vic_ok (the_vic ?s)" using vic_example_ok by (simp add: vic_ok_def)
  then obtain t where t: "lpc2300_update_int ?s = Some t" using update_int_total by blast
  have "BITMSK 4 \<noteq> 0" by (simp add: BITMSK_def)
  then show ?thesis using lpc2300_irq_line_ignores_masks [OF t] t
    by (simp add: vic_example_def vic_status_def lpc_sys_zero_def lpc2300_io_zero_def vic_zero_def)
qed

text \<open>
  \<open>lpc2300_update_int\<close> shifts by a negative amount exactly when an enabled
  pending interrupt has a priority register with the sign bit set, which a guest
  program can write.
\<close>

theorem lpc2300_update_int_undefined_iff:
  "lpc2300_update_int s = None \<longleftrightarrow>
     (\<exists>i<32. bit (IRQStatus (vic_status (the_vic s))) i \<and> sint (VectPrio (the_vic s) i) < 0)"
  using next_irq_loop_None [of "servicing_prio (HWPrioMask (vic_status (the_vic s)))" "vic_status (the_vic s)"
      "prio_mask (vic_status (the_vic s))" "[0..<32]" "-1"] servicing_prio_range
  by (auto simp: lpc2300_update_int_def prio_mask_def irq_prio_def Let_def vic_status_def split: option.splits)



end
