(* ===== verification/Lpc_Uart.thy ===== *)
theory Lpc_Uart
  imports Lpc_Vic
begin

text \<open>
  The four serial ports of the LPC2300: the transmit FIFO (a ring buffer of 16
  bytes), the transmitter, the register reads and writes, and the part of
  \<open>lpc2300_io_do_cycle\<close> that polls the ports.  The ring buffer refines a list: the
  bounded-queue interface is a locale, interpreted on the C operations.
\<close>

section \<open>The transmit FIFO\<close>

text \<open>
  \<open>TxFIFO_enq\<close> returns the C result as a truth value (-1 is true, 0 is false).
  The indices are the C expressions \<open>(top + len) & 0xf\<close> and \<open>top\<close>.
\<close>

definition TxFIFO_enq :: "lpc2300_uart_t \<Rightarrow> ARMbyte \<Rightarrow> bool \<times> lpc2300_uart_t" where
  "TxFIFO_enq u c =
     (if t_fifolen u \<ge> 16 then (False, u)
      else (True, u\<lparr>t_fifo := (t_fifo u)(nat ((t_fifotop u + t_fifolen u) AND 0xf) := c),
                    t_fifolen := t_fifolen u + 1\<rparr>))"

definition TxFIFO_deq :: "lpc2300_uart_t \<Rightarrow> ARMbyte \<times> lpc2300_uart_t" where
  "TxFIFO_deq u =
     (let c = t_fifo u (nat (t_fifotop u)) in
      if t_fifolen u > 0
      then (c, u\<lparr>t_fifolen := t_fifolen u - 1, t_fifotop := (t_fifotop u + 1) AND 0xf\<rparr>)
      else (c, u))"

section \<open>The transmitter\<close>

definition transmit_enq :: "lpc2300_uart_t \<Rightarrow> int \<times> lpc2300_uart_t" where
  "transmit_enq u =
     (let n = t_fifolen u in
      if n < 16 \<and> u_lsr u AND 0x20 = 0 then
        (case TxFIFO_enq u (ucast (u_thr u)) of
           (True, u) \<Rightarrow> (n + 1, u\<lparr>u_lsr := u_lsr u OR 0x20\<rparr>)
         | (False, u) \<Rightarrow> (n, u))
      else (n, u))"

text \<open>Returns whether FIFO and THR are both empty now.\<close>

definition lpc2300_uart_transmit :: "'e uart_host \<Rightarrow> nat \<Rightarrow> 'e lpc_sys \<Rightarrow> bool \<times> 'e lpc_sys" where
  "lpc2300_uart_transmit H i s =
     (let (n, u) = transmit_enq (the_uart s i);
          s = upd_uart i (\<lambda>_. u) s
      in if n > 0 then
           (let c = t_fifo u (nat (t_fifotop u));
                (taken, h) = uart_host_write H i c (host s);
                s = s\<lparr>host := h\<rparr>
            in if taken then
                 (let (_, u) = TxFIFO_deq u in
                  if t_fifolen u = 0 \<and> u_lsr u AND 0x20 \<noteq> 0
                  then (True, upd_uart i (\<lambda>_. u\<lparr>u_lsr := u_lsr u OR 0x40\<rparr>) s)
                  else (False, upd_uart i (\<lambda>_. u) s))
               else (False, s))
         else (False, s))"

section \<open>Register access\<close>

definition clear_source :: "ARMword \<Rightarrow> 'e lpc_sys \<Rightarrow> 'e lpc_sys" where
  "clear_source m s = upd_vic (\<lambda>v. v\<lparr>INTSOURCE := INTSOURCE v AND NOT m\<rparr>) s"

text \<open>The recurring end of a register access: reset the IIR when it names this cause, and update.\<close>

definition uart_int_reset :: "nat \<Rightarrow> (ARMword \<Rightarrow> bool) \<Rightarrow> 'e lpc_sys \<Rightarrow> 'e lpc_sys option" where
  "uart_int_reset i pat s =
     (if IntEnable (the_vic s) AND IRQUART i \<noteq> 0 \<and> pat (u_iir (the_uart s i))
      then lpc2300_update_int (upd_uart i (\<lambda>u. u\<lparr>u_iir := (u_iir u AND NOT 0xe) OR 1\<rparr>) s)
      else Some s)"

definition uart_poll_rx :: "'e uart_host \<Rightarrow> nat \<Rightarrow> 'e lpc_sys \<Rightarrow> 'e lpc_sys" where
  "uart_poll_rx H i s =
     (case uart_host_read H i (host s) of
        (None, h) \<Rightarrow> s\<lparr>host := h\<rparr>
      | (Some b, h) \<Rightarrow> upd_uart i (\<lambda>u. u\<lparr>u_rbr := ucast b, u_lsr := u_lsr u OR 1\<rparr>) (s\<lparr>host := h\<rparr>))"

definition lpc2300_uart_read :: "'e uart_host \<Rightarrow> 'e lpc_sys \<Rightarrow> ARMword \<Rightarrow> nat \<Rightarrow> (ARMword \<times> 'e lpc_sys) option" where
  "lpc2300_uart_read H s addr i =
     (let r = drop_bit 2 (addr AND 0xfff); u = the_uart s i; irq = IRQUART i in
      if r = 0 then
        (if u_lcr u AND 0x80 \<noteq> 0 then Some (u_dll u, s)
         else map_option (\<lambda>s. (u_rbr (the_uart s i), s))
           (uart_int_reset i (\<lambda>iir. iir AND 6 = 4)
             (clear_source irq (upd_uart i (\<lambda>u. u\<lparr>u_lsr := u_lsr u AND NOT 1\<rparr>) s))))
      else if r = 1 then Some (if u_lcr u AND 0x80 \<noteq> 0 then u_dlm u else u_ier u, s)
      else if r = 2 then
        map_option (\<lambda>s. (u_iir u, s)) (uart_int_reset i (\<lambda>iir. iir AND 0xf = 2) (clear_source irq s))
      else if r = 3 then Some (u_lcr u, s)
      else if r = 5 then
        (let s = (if u_ier u AND 1 = 0 \<and> u_lsr u AND 1 = 0 then uart_poll_rx H i s else s) in
         map_option (\<lambda>s. (u_lsr (the_uart s i), s))
           (uart_int_reset i (\<lambda>iir. iir AND 0xf = 6) (clear_source irq s)))
      else if r = 6 then
        map_option (\<lambda>s. (u_msr u, s)) (uart_int_reset i (\<lambda>iir. iir AND 0xf = 0) (clear_source irq s))
      else if r = 7 then Some (u_scr u, s)
      else Some (0, s))"

definition uart_write_thr :: "'e uart_host \<Rightarrow> 'e lpc_sys \<Rightarrow> ARMword \<Rightarrow> nat \<Rightarrow> 'e lpc_sys option" where
  "uart_write_thr H s data i =
     (let c = ucast data :: ARMbyte;
          s = upd_uart i (\<lambda>u. u\<lparr>u_thr := ucast c\<rparr>) s
      in if u_ier (the_uart s i) AND 2 = 0 then
           (let (_, h) = uart_host_write H i c (host s)
            in Some (upd_uart i (\<lambda>u. u\<lparr>u_lsr := u_lsr u OR 0x20\<rparr>) (s\<lparr>host := h\<rparr>)))
         else
           uart_int_reset i (\<lambda>iir. iir AND 0xf = 2)
             (upd_uart i (\<lambda>u. u\<lparr>u_lsr := u_lsr u AND NOT 0x20\<rparr>) (clear_source (IRQUART i) s)))"

definition lpc2300_uart_write :: "'e uart_host \<Rightarrow> 'e lpc_sys \<Rightarrow> ARMword \<Rightarrow> ARMword \<Rightarrow> nat \<Rightarrow> 'e lpc_sys option" where
  "lpc2300_uart_write H s addr data i =
     (let r = drop_bit 2 (addr AND 0xfff); dlab = u_lcr (the_uart s i) AND 0x80 \<noteq> 0 in
      if r = 0 then
        (if dlab then Some (upd_uart i (\<lambda>u. u\<lparr>u_dll := data\<rparr>) s) else uart_write_thr H s data i)
      else if r = 1 then
        Some (upd_uart i (\<lambda>u. if dlab then u\<lparr>u_dlm := data\<rparr> else u\<lparr>u_ier := data\<rparr>) s)
      else if r = 2 then Some (upd_uart i (\<lambda>u. u\<lparr>u_fcr := data\<rparr>) s)
      else if r = 3 then Some (upd_uart i (\<lambda>u. u\<lparr>u_lcr := data\<rparr>) s)
      else if r = 7 then Some (upd_uart i (\<lambda>u. u\<lparr>u_scr := data\<rparr>) s)
      else Some s)"

section \<open>Polling the ports\<close>

definition uart_powered :: "ARMword \<Rightarrow> nat \<Rightarrow> bool" where
  "uart_powered pcon i \<longleftrightarrow>
     pcon AND push_bit (if i = 0 then 3 else if i = 1 then 4 else if i = 2 then 24 else 25) 1 \<noteq> 0"

text \<open>One round of the UART loop of \<open>lpc2300_io_do_cycle\<close>; \<open>UART_INT_CYCLE\<close> is 128.\<close>

definition uart_cycle :: "'e uart_host \<Rightarrow> nat \<Rightarrow> 'e lpc_sys \<Rightarrow> 'e lpc_sys option" where
  "uart_cycle H i s =
     (if \<not> uart_powered (pconp (lio s)) i then Some s
      else if IntEnable (the_vic s) AND IRQUART i \<noteq> 0 \<and> RawIntr (the_vic s) AND IRQUART i = 0
              \<and> u_iir (the_uart s i) AND 1 \<noteq> 0 then
        (if uartcnt s = int i \<and> u_ier (the_uart s i) AND 1 \<noteq> 0 then
           lpc2300_update_int
             (case uart_host_read H i (host s) of
                (None, h) \<Rightarrow> s\<lparr>host := h\<rparr>
              | (Some b, h) \<Rightarrow>
                  upd_vic (\<lambda>v. v\<lparr>INTSOURCE := INTSOURCE v OR IRQUART i\<rparr>)
                    (upd_uart i (\<lambda>u. u\<lparr>u_rbr := ucast b, u_lsr := u_lsr u OR 1,
                                      u_iir := (u_iir u AND NOT 0xf) OR 4\<rparr>) (s\<lparr>host := h\<rparr>)))
         else if uartcnt s = int i + 64 then
           (case lpc2300_uart_transmit H i s of
              (True, s) \<Rightarrow>
                (if u_ier (the_uart s i) AND 2 \<noteq> 0 then
                   lpc2300_update_int
                     (upd_vic (\<lambda>v. v\<lparr>INTSOURCE := INTSOURCE v OR IRQUART i\<rparr>)
                       (upd_uart i (\<lambda>u. u\<lparr>u_iir := (u_iir u AND NOT 0xf) OR 2\<rparr>) s))
                 else Some s)
            | (False, s) \<Rightarrow> Some s)
         else Some s)
      else Some s)"

definition uartcnt_step :: "'e lpc_sys \<Rightarrow> 'e lpc_sys" where
  "uartcnt_step s = s\<lparr>uartcnt := (if uartcnt s = 0 then 128 else uartcnt s - 1)\<rparr>"

section \<open>A bounded queue\<close>

primrec fill :: "('q \<Rightarrow> 'a \<Rightarrow> bool \<times> 'q) \<Rightarrow> 'a list \<Rightarrow> 'q \<Rightarrow> 'q" where
  "fill enq [] q = q"
| "fill enq (x # xs) q = fill enq xs (snd (enq q x))"

primrec drain :: "('q \<Rightarrow> 'a \<times> 'q) \<Rightarrow> nat \<Rightarrow> 'q \<Rightarrow> 'a list \<times> 'q" where
  "drain deq 0 q = ([], q)"
| "drain deq (Suc n) q = (let (x, q) = deq q; (xs, q) = drain deq n q in (x # xs, q))"

locale bounded_queue =
  fixes enq :: "'q \<Rightarrow> 'a \<Rightarrow> bool \<times> 'q"
    and deq :: "'q \<Rightarrow> 'a \<times> 'q"
    and items :: "'q \<Rightarrow> 'a list"
    and inv :: "'q \<Rightarrow> bool"
    and cap :: nat
  assumes enq_room: "inv q \<Longrightarrow> length (items q) < cap \<Longrightarrow>
      fst (enq q x) \<and> inv (snd (enq q x)) \<and> items (snd (enq q x)) = items q @ [x]"
    and enq_full: "inv q \<Longrightarrow> length (items q) = cap \<Longrightarrow> enq q x = (False, q)"
    and deq_item: "inv q \<Longrightarrow> items q = x # xs \<Longrightarrow>
      fst (deq q) = x \<and> inv (snd (deq q)) \<and> items (snd (deq q)) = xs"
    and items_bound: "inv q \<Longrightarrow> length (items q) \<le> cap"
begin

lemma fill_items:
  "inv q \<Longrightarrow> length (items q) + length xs \<le> cap \<Longrightarrow>
     inv (fill enq xs q) \<and> items (fill enq xs q) = items q @ xs"
proof (induction xs arbitrary: q)
  case (Cons x xs)
  then show ?case using enq_room [of q x] by simp
qed simp

lemma drain_items:
  "inv q \<Longrightarrow> items q = xs @ ys \<Longrightarrow>
     fst (drain deq (length xs) q) = xs \<and> inv (snd (drain deq (length xs) q))
     \<and> items (snd (drain deq (length xs) q)) = ys"
proof (induction xs arbitrary: q)
  case (Cons x xs)
  then show ?case using deq_item [of q x "xs @ ys"] by (simp add: case_prod_beta Let_def)
qed simp

lemma fifo_order:
  assumes "inv q" "length (items q) + length xs \<le> cap"
  shows "fst (drain deq (length (items q) + length xs) (fill enq xs q)) = items q @ xs"
  using fill_items [OF assms] drain_items [of "fill enq xs q" "items q @ xs" "[]"] by simp

end

section \<open>The ring buffer is a bounded queue\<close>

definition fifo_ok :: "lpc2300_uart_t \<Rightarrow> bool" where
  "fifo_ok u \<longleftrightarrow> 0 \<le> t_fifolen u \<and> t_fifolen u \<le> 16 \<and> 0 \<le> t_fifotop u \<and> t_fifotop u < 16"

definition fifo_items :: "lpc2300_uart_t \<Rightarrow> ARMbyte list" where
  "fifo_items u = map (\<lambda>k. t_fifo u (nat ((t_fifotop u + int k) mod 16))) [0..<nat (t_fifolen u)]"

lemma and_15_mod: "(x :: int) AND 0xf = x mod 16"
  using take_bit_eq_mask [of 4 x] by (simp add: take_bit_eq_mod mask_eq_exp_minus_1)

lemma ring_slot_neq:
  assumes "(k :: int) \<noteq> l" "0 \<le> k" "k < 16" "0 \<le> l" "l < 16"
  shows "nat ((t + k) mod 16) \<noteq> nat ((t + l) mod 16)"
proof
  assume "nat ((t + k) mod 16) = nat ((t + l) mod 16)"
  then have "(t + k) mod 16 = (t + l) mod 16" by (simp add: eq_nat_nat_iff)
  then have "k mod 16 = l mod 16" by (simp add: mod_eq_dvd_iff)
  then show False using assms by simp
qed

lemma TxFIFO_enq_items:
  assumes "fifo_ok u" "t_fifolen u < 16"
  shows "fst (TxFIFO_enq u c) \<and> fifo_ok (snd (TxFIFO_enq u c)) \<and>
    fifo_items (snd (TxFIFO_enq u c)) = fifo_items u @ [c]"
proof -
  have l: "nat (t_fifolen u + 1) = Suc (nat (t_fifolen u))" using assms by (simp add: fifo_ok_def nat_add_distrib)
  have "nat ((t_fifotop u + int k) mod 16) \<noteq> nat ((t_fifotop u + t_fifolen u) mod 16)" if "k < nat (t_fifolen u)" for k
    using that assms by (intro ring_slot_neq) (auto simp: fifo_ok_def)
  then show ?thesis using assms by (auto simp: TxFIFO_enq_def fifo_items_def fifo_ok_def and_15_mod l)
qed

lemma upt_Suc_Cons: "[0..<Suc n] = 0 # map Suc [0..<n]"
  by (simp add: map_Suc_upt upt_conv_Cons del: upt_Suc)

lemma TxFIFO_deq_items:
  assumes "fifo_ok u" "fifo_items u = x # xs"
  shows "fst (TxFIFO_deq u) = x \<and> fifo_ok (snd (TxFIFO_deq u)) \<and> fifo_items (snd (TxFIFO_deq u)) = xs"
proof -
  have len: "0 < t_fifolen u"
    using assms by (cases "t_fifolen u = 0") (auto simp: fifo_items_def fifo_ok_def)
  then have l: "nat (t_fifolen u) = Suc (nat (t_fifolen u - 1))" by simp
  have "fifo_items u = t_fifo u (nat (t_fifotop u mod 16)) #
      map (\<lambda>k. t_fifo u (nat ((t_fifotop u + int (Suc k)) mod 16))) [0..<nat (t_fifolen u - 1)]"
    unfolding fifo_items_def l upt_Suc_Cons by (simp add: comp_def)
  moreover have "t_fifotop u mod 16 = t_fifotop u" using assms by (simp add: fifo_ok_def)
  moreover have "((t_fifotop u + 1) mod 16 + int k) mod 16 = (t_fifotop u + int (Suc k)) mod 16" for k
    by (simp add: mod_simps algebra_simps)
  ultimately show ?thesis using assms len
    by (auto simp: TxFIFO_deq_def fifo_items_def fifo_ok_def and_15_mod Let_def)
qed

interpretation txfifo: bounded_queue TxFIFO_enq TxFIFO_deq fifo_items fifo_ok 16
proof
  show "fst (TxFIFO_enq q x) \<and> fifo_ok (snd (TxFIFO_enq q x)) \<and> fifo_items (snd (TxFIFO_enq q x)) = fifo_items q @ [x]"
    if "fifo_ok q" "length (fifo_items q) < 16" for q x
    using that by (intro TxFIFO_enq_items) (auto simp: fifo_items_def fifo_ok_def)
  show "TxFIFO_enq q x = (False, q)" if "fifo_ok q" "length (fifo_items q) = 16" for q x
    using that by (auto simp: fifo_items_def fifo_ok_def TxFIFO_enq_def)
  show "fst (TxFIFO_deq q) = x \<and> fifo_ok (snd (TxFIFO_deq q)) \<and> fifo_items (snd (TxFIFO_deq q)) = xs"
    if "fifo_ok q" "fifo_items q = x # xs" for q x xs
    using that by (rule TxFIFO_deq_items)
  show "length (fifo_items q) \<le> 16" if "fifo_ok q" for q
    using that by (auto simp: fifo_items_def fifo_ok_def)
qed


section \<open>The transmitter sends the pending bytes in order\<close>

definition tx_pending :: "lpc2300_uart_t \<Rightarrow> ARMbyte list" where
  "tx_pending u = fifo_items u @ (if u_lsr u AND 0x20 = 0 then [ucast (u_thr u)] else [])"

lemma fifo_cong:
  "t_fifo u = t_fifo w \<Longrightarrow> t_fifolen u = t_fifolen w \<Longrightarrow> t_fifotop u = t_fifotop w \<Longrightarrow>
     fifo_items u = fifo_items w \<and> fifo_ok u = fifo_ok w"
  by (simp add: fifo_items_def fifo_ok_def)

lemma fifo_lsr [simp]:
  "fifo_items (u\<lparr>u_lsr := w\<rparr>) = fifo_items u" "fifo_ok (u\<lparr>u_lsr := w\<rparr>) = fifo_ok u"
  by (simp_all add: fifo_items_def fifo_ok_def)

lemma length_fifo_items: "length (fifo_items u) = nat (t_fifolen u)"
  by (simp add: fifo_items_def)

lemma TxFIFO_lsr_thr [simp]:
  "u_lsr (snd (TxFIFO_enq u c)) = u_lsr u" "u_thr (snd (TxFIFO_enq u c)) = u_thr u"
  "u_lsr (snd (TxFIFO_deq u)) = u_lsr u" "u_thr (snd (TxFIFO_deq u)) = u_thr u"
  by (simp_all add: TxFIFO_enq_def TxFIFO_deq_def Let_def)

lemma or_20_and_20: "(w OR 0x20) AND 0x20 \<noteq> (0 :: ARMword)"
  by (simp add: and_flag_iff bit_simps)

lemma transmit_enq_pending:
  assumes "fifo_ok u"
  shows "fifo_ok (snd (transmit_enq u))" "tx_pending (snd (transmit_enq u)) = tx_pending u"
    "fst (transmit_enq u) = t_fifolen (snd (transmit_enq u))"
    "t_fifolen (snd (transmit_enq u)) = 0 \<longleftrightarrow> tx_pending u = []"
proof -
  let ?c = "ucast (u_thr u) :: ARMbyte"
  have "fifo_ok (snd (transmit_enq u)) \<and> tx_pending (snd (transmit_enq u)) = tx_pending u
    \<and> fst (transmit_enq u) = t_fifolen (snd (transmit_enq u))
    \<and> (t_fifolen (snd (transmit_enq u)) = 0 \<longleftrightarrow> tx_pending u = [])"
  proof (cases "t_fifolen u < 16 \<and> u_lsr u AND 0x20 = 0")
    case True
    then have e: "TxFIFO_enq u ?c = (True, snd (TxFIFO_enq u ?c))"
      and l: "t_fifolen (snd (TxFIFO_enq u ?c)) = t_fifolen u + 1" by (simp_all add: TxFIFO_enq_def)
    then have "transmit_enq u = (t_fifolen u + 1, (snd (TxFIFO_enq u ?c))\<lparr>u_lsr := u_lsr u OR 0x20\<rparr>)"
      using True by (simp add: transmit_enq_def TxFIFO_enq_def Let_def)
    then show ?thesis
      using TxFIFO_enq_items [OF assms, of ?c] True l assms
      by (simp add: tx_pending_def or_20_and_20 fifo_ok_def)
  next
    case False
    then have t: "transmit_enq u = (t_fifolen u, u)" by (auto simp: transmit_enq_def Let_def)
    have "fifo_items u = [] \<longleftrightarrow> t_fifolen u = 0"
      using assms length_fifo_items [of u] by (auto simp: fifo_ok_def)
    then show ?thesis using t False assms by (auto simp: tx_pending_def fifo_ok_def)
  qed
  then show "fifo_ok (snd (transmit_enq u))" "tx_pending (snd (transmit_enq u)) = tx_pending u"
    "fst (transmit_enq u) = t_fifolen (snd (transmit_enq u))"
    "t_fifolen (snd (transmit_enq u)) = 0 \<longleftrightarrow> tx_pending u = []" by blast+
qed

text \<open>What one call of the transmitter does, on the list of pending bytes.\<close>

definition transmit_spec :: "'e uart_host \<Rightarrow> nat \<Rightarrow> ARMbyte list \<Rightarrow> 'e \<Rightarrow> bool \<times> ARMbyte list \<times> 'e" where
  "transmit_spec H i p h =
     (case p of [] \<Rightarrow> (False, [], h)
      | b # bs \<Rightarrow> (let (taken, h) = uart_host_write H i b h in
                  if taken then (bs = [], bs, h) else (False, b # bs, h)))"

lemma transmit_refines:
  assumes "fifo_ok (the_uart s i)"
  shows "fifo_ok (the_uart (snd (lpc2300_uart_transmit H i s)) i)"
    "(fst (lpc2300_uart_transmit H i s), tx_pending (the_uart (snd (lpc2300_uart_transmit H i s)) i),
       host (snd (lpc2300_uart_transmit H i s))) = transmit_spec H i (tx_pending (the_uart s i)) (host s)"
proof -
  let ?u = "the_uart s i" 
  obtain n u where te: "transmit_enq ?u = (n, u)" by fastforce
  note p = transmit_enq_pending [OF assms, unfolded te, simplified]
  have "fifo_ok (the_uart (snd (lpc2300_uart_transmit H i s)) i) \<and>
    (fst (lpc2300_uart_transmit H i s), tx_pending (the_uart (snd (lpc2300_uart_transmit H i s)) i),
       host (snd (lpc2300_uart_transmit H i s))) = transmit_spec H i (tx_pending ?u) (host s)"
  proof (cases "tx_pending ?u")
    case Nil
    then show ?thesis using p te by (simp add: lpc2300_uart_transmit_def transmit_spec_def)
  next
    case (Cons b bs)
    then have n: "n > 0" using p by (auto simp: fifo_ok_def)
    obtain b' fs where fi: "fifo_items u = b' # fs"
      using n p length_fifo_items [of u] by (cases "fifo_items u") auto
    have b: "b' = b" "bs = fs @ (if u_lsr u AND 0x20 = 0 then [ucast (u_thr u)] else [])"
      using p(2) fi Cons by (simp_all add: tx_pending_def)
    note d = TxFIFO_deq_items [OF p(1) fi]
    have c: "t_fifo u (nat (t_fifotop u)) = b" using d b(1) by (simp add: TxFIFO_deq_def Let_def split: if_splits)
    obtain tk h where w: "uart_host_write H i b (host s) = (tk, h)" by fastforce
    have e: "t_fifolen (snd (TxFIFO_deq u)) = 0 \<longleftrightarrow> fs = []"
      using d length_fifo_items [of "snd (TxFIFO_deq u)"] by (auto simp: fifo_ok_def)
    show ?thesis
    proof (cases tk)
      case True
      then show ?thesis using te n c w d e b Cons p
        by (auto simp: lpc2300_uart_transmit_def transmit_spec_def tx_pending_def case_prod_beta Let_def
            and_flag_iff bit_simps)
    next
      case False
      then show ?thesis using te n c w Cons p
        by (simp add: lpc2300_uart_transmit_def transmit_spec_def)
    qed
  qed
  then show "fifo_ok (the_uart (snd (lpc2300_uart_transmit H i s)) i)"
    "(fst (lpc2300_uart_transmit H i s), tx_pending (the_uart (snd (lpc2300_uart_transmit H i s)) i),
       host (snd (lpc2300_uart_transmit H i s))) = transmit_spec H i (tx_pending (the_uart s i)) (host s)"
    by blast+
qed
section \<open>Properties\<close>

text \<open>
  The transmit ring buffer is a first-in first-out queue of 16 bytes: the bytes
  put in while there is room come out in the order in which they went in, after
  those already there.
\<close>

theorem TxFIFO_order:
  assumes "fifo_ok u" "length (fifo_items u) + length xs \<le> 16"
  shows "fst (drain TxFIFO_deq (length (fifo_items u) + length xs) (fill TxFIFO_enq xs u)) = fifo_items u @ xs"
  using assms by (rule txfifo.fifo_order)

theorem TxFIFO_order_witness:
  "fst (drain TxFIFO_deq 3 (fill TxFIFO_enq [1, 2, 3] uart_zero)) = [1, 2, 3]"
  using TxFIFO_order [of uart_zero "[1, 2, 3]"]
  by (simp add: fifo_ok_def fifo_items_def uart_zero_def eval_nat_numeral)

text \<open>
  C18: the transmitter neither loses nor repeats a byte.  On the list of pending bytes
  (the FIFO, then the holding register when it is full) one call of
  \<open>lpc2300_uart_transmit\<close> offers the first byte to the host, drops it exactly when
  the host takes it, and reports exactly when the last byte has gone.
\<close>

theorem lpc2300_uart_transmit_refines:
  fixes s :: "'e lpc_sys" and H :: "'e uart_host"
  assumes "fifo_ok (the_uart s i)"
  defines "r \<equiv> lpc2300_uart_transmit H i s"
  shows "fifo_ok (the_uart (snd r) i)
    \<and> (fst r, tx_pending (the_uart (snd r) i), host (snd r)) = transmit_spec H i (tx_pending (the_uart s i)) (host s)"
  unfolding r_def using transmit_refines [OF assms(1)] by blast

theorem lpc2300_uart_transmit_refines_witness:
  "let H = \<lparr>uart_host_read = (\<lambda>i h. (None, h)), uart_host_write = (\<lambda>i b h. (True, h @ [b]))\<rparr>;
       r = lpc2300_uart_transmit H 0 (upd_uart 0 (\<lambda>u. u\<lparr>u_thr := 65\<rparr>) (lpc_sys_zero []))
   in fst r \<and> host (snd r) = [65 :: ARMbyte]"
  using lpc2300_uart_transmit_refines
    [of "upd_uart 0 (\<lambda>u. u\<lparr>u_thr := 65\<rparr>) (lpc_sys_zero [])" 0
        "\<lparr>uart_host_read = (\<lambda>i h. (None, h)), uart_host_write = (\<lambda>i b h. (True, h @ [b :: ARMbyte]))\<rparr>"]
  by (simp add: Let_def fifo_ok_def fifo_items_def tx_pending_def transmit_spec_def lpc_sys_zero_def
      lpc2300_io_zero_def uart_zero_def)

end
