(* ===== verification/Lpc_Timer.thy ===== *)
theory Lpc_Timer
  imports Lpc_Vic
begin

text \<open>
  The four timers of the LPC2300: register access and the part of
  \<open>lpc2300_io_do_cycle\<close> that advances them.  The timer step is 1, as in every build
  but the one for Windows.
\<close>

section \<open>Register access\<close>

definition lpc2300_timer_read :: "'e lpc_sys \<Rightarrow> ARMword \<Rightarrow> nat \<Rightarrow> ARMword" where
  "lpc2300_timer_read s addr i =
     (let r = addr AND 0xfe; t = the_timer s i in
      if r = 0x00 then t_ir t
      else if r = 0x04 then t_tcr t
      else if r = 0x08 then t_tc t
      else if r = 0x0c then t_pr t
      else if r = 0x10 then t_pc t
      else if r = 0x14 then t_mcr t
      else if r = 0x18 then t_mr t 0
      else if r = 0x1c then t_mr t 1
      else if r = 0x20 then t_mr t 2
      else if r = 0x24 then t_mr t 3
      else if r = 0x70 then t_ctcr t
      else 0)"

definition timer_write_ir :: "'e lpc_sys \<Rightarrow> ARMword \<Rightarrow> nat \<Rightarrow> 'e lpc_sys option" where
  "timer_write_ir s data i =
     (let s = (if (data AND t_ir (the_timer s i)) AND 0x3f \<noteq> 0
               then upd_timer i (\<lambda>t. t\<lparr>t_ir := 0\<rparr>)
                      (upd_vic (\<lambda>v. v\<lparr>INTSOURCE := INTSOURCE v AND NOT (IRQTIMER i)\<rparr>) s)
               else s)
      in if IntEnable (the_vic s) AND IRQTIMER i \<noteq> 0 then lpc2300_update_int s else Some s)"

definition timer_write_tcr :: "ARMword \<Rightarrow> lpc2300_timer_t \<Rightarrow> lpc2300_timer_t" where
  "timer_write_tcr data t =
     (let t = t\<lparr>t_tcr := data\<rparr> in if data AND 2 \<noteq> 0 then t\<lparr>t_tc := 0, t_pc := 0\<rparr> else t)"

definition lpc2300_timer_write :: "'e lpc_sys \<Rightarrow> ARMword \<Rightarrow> ARMword \<Rightarrow> nat \<Rightarrow> 'e lpc_sys option" where
  "lpc2300_timer_write s addr data i =
     (let r = addr AND 0xfe in
      if r = 0x00 then timer_write_ir s data i
      else Some (upd_timer i (\<lambda>t.
        if r = 0x04 then timer_write_tcr data t
        else if r = 0x08 then t\<lparr>t_tc := data\<rparr>
        else if r = 0x0c then t\<lparr>t_pr := data\<rparr>
        else if r = 0x10 then t\<lparr>t_pc := data\<rparr>
        else if r = 0x14 then t\<lparr>t_mcr := data\<rparr>
        else if r = 0x18 then t\<lparr>t_mr := (t_mr t)(0 := data)\<rparr>
        else if r = 0x1c then t\<lparr>t_mr := (t_mr t)(1 := data)\<rparr>
        else if r = 0x20 then t\<lparr>t_mr := (t_mr t)(2 := data)\<rparr>
        else if r = 0x24 then t\<lparr>t_mr := (t_mr t)(3 := data)\<rparr>
        else if r = 0x70 then t\<lparr>t_ctcr := data\<rparr>
        else t) s))"

section \<open>One cycle\<close>

definition timer_powered :: "ARMword \<Rightarrow> nat \<Rightarrow> bool" where
  "timer_powered pcon i \<longleftrightarrow>
     pcon AND push_bit (if i = 0 then 1 else if i = 1 then 2 else if i = 2 then 22 else 23) 1 \<noteq> 0"

text \<open>The body of the loop over the match registers, for the counter value \<open>ntc\<close>.\<close>

definition timer_match :: "nat \<Rightarrow> ARMword \<Rightarrow> nat \<Rightarrow> 'e lpc_sys \<Rightarrow> 'e lpc_sys option" where
  "timer_match i ntc n s =
     (if ntc = t_mr (the_timer s i) n then
        (let v = drop_bit (3 * n) (t_mcr (the_timer s i));
             s = (if v AND 4 \<noteq> 0 then upd_timer i (\<lambda>t. t\<lparr>t_tcr := t_tcr t AND NOT 1\<rparr>) s else s);
             s = (if v AND 2 \<noteq> 0 then upd_timer i (\<lambda>t. t\<lparr>t_tc := 0\<rparr>) s else s)
         in if v AND 1 \<noteq> 0 \<and> IntEnable (the_vic s) AND IRQTIMER i \<noteq> 0 then
              lpc2300_update_int
                (upd_vic (\<lambda>w. w\<lparr>INTSOURCE := INTSOURCE w OR IRQTIMER i\<rparr>)
                  (upd_timer i (\<lambda>t. t\<lparr>t_ir := t_ir t OR push_bit n 1\<rparr>) s))
            else Some s)
      else Some s)"

fun timer_matches :: "nat \<Rightarrow> ARMword \<Rightarrow> nat list \<Rightarrow> 'e lpc_sys \<Rightarrow> 'e lpc_sys option" where
  "timer_matches i ntc [] s = Some s"
| "timer_matches i ntc (n # ns) s =
     (case timer_match i ntc n s of None \<Rightarrow> None | Some s \<Rightarrow> timer_matches i ntc ns s)"

definition timer_count :: "nat \<Rightarrow> 'e lpc_sys \<Rightarrow> 'e lpc_sys option" where
  "timer_count i s =
     (let s = (if t_ctcr (the_timer s i) AND 3 = 0 then upd_timer i (\<lambda>t. t\<lparr>t_pc := t_pc t + 1\<rparr>) s else s) in
      if RawIntr (the_vic s) AND IRQTIMER i = 0 \<and> t_pc (the_timer s i) \<ge> t_pr (the_timer s i) + 1 then
        (let s = upd_timer i (\<lambda>t. t\<lparr>t_tc := t_tc t + 1, t_pc := 0\<rparr>) s
         in timer_matches i (t_tc (the_timer s i)) [0..<4] s)
      else Some s)"

definition timer_cycle :: "nat \<Rightarrow> 'e lpc_sys \<Rightarrow> 'e lpc_sys option" where
  "timer_cycle i s =
     (if \<not> timer_powered (pconp (lio s)) i then Some s
      else if t_tcr (the_timer s i) AND 2 \<noteq> 0 then
        Some (upd_timer i (\<lambda>t. t\<lparr>t_pc := 0, t_pr := 0\<rparr>) s)
      else if t_tcr (the_timer s i) AND 1 \<noteq> 0 then timer_count i s
      else Some s)"

section \<open>The prescaler\<close>

text \<open>The timer is powered, enabled, not held in reset, and counts the peripheral clock.\<close>

definition timer_runs :: "nat \<Rightarrow> 'e lpc_sys \<Rightarrow> bool" where
  "timer_runs i s \<longleftrightarrow> timer_powered (pconp (lio s)) i \<and> t_tcr (the_timer s i) AND 2 = 0
     \<and> t_tcr (the_timer s i) AND 1 \<noteq> 0 \<and> t_ctcr (the_timer s i) AND 3 = 0"

lemma timer_cycle_wait:
  assumes "timer_runs i s" "\<not> t_pr (the_timer s i) + 1 \<le> t_pc (the_timer s i) + 1"
  shows "timer_cycle i s = Some (upd_timer i (\<lambda>t. t\<lparr>t_pc := t_pc t + 1\<rparr>) s)"
  using assms by (simp add: timer_cycle_def timer_runs_def timer_count_def Let_def)

lemma timer_matches_none:
  "\<forall>n\<in>set ns. ntc \<noteq> t_mr (the_timer s i) n \<Longrightarrow> timer_matches i ntc ns s = Some s"
  by (induction ns) (simp_all add: timer_match_def)

lemma timer_cycle_tick:
  assumes "timer_runs i s" "t_pr (the_timer s i) + 1 \<le> t_pc (the_timer s i) + 1"
    "RawIntr (the_vic s) AND IRQTIMER i = 0"
  shows "timer_cycle i s = timer_matches i (t_tc (the_timer s i) + 1) [0..<4]
     (upd_timer i (\<lambda>t. t\<lparr>t_tc := t_tc t + 1, t_pc := 0\<rparr>) s)"
  using assms by (simp add: timer_cycle_def timer_runs_def timer_count_def Let_def comp_def)

lemma timer_prescale_wait:
  assumes "timer_runs i s" "t_pc (the_timer s i) = 0" "t_pr (the_timer s i) \<noteq> - 1" "k \<le> unat (t_pr (the_timer s i))"
  shows "iter_opt (timer_cycle i) k s = Some (upd_timer i (\<lambda>t. t\<lparr>t_pc := of_nat k\<rparr>) s)"
  using assms(4)
proof (induction k)
  case 0
  then show ?case using assms(2) by (simp add: upd_timer_id)
next
  case (Suc k)
  let ?s = "upd_timer i (\<lambda>t. t\<lparr>t_pc := of_nat k\<rparr>) s"
  have "t_pr (the_timer s i) + 1 \<noteq> 0" using assms(3) by (metis add_eq_0_iff2)
  then have "unat (t_pr (the_timer s i) + 1) = Suc (unat (t_pr (the_timer s i)))"
    using unatSuc [of "t_pr (the_timer s i)"] by (simp add: add.commute)
  moreover have "unat (of_nat (Suc k) :: ARMword) = Suc k"
    using Suc.prems unat_less_2p32 [of "t_pr (the_timer s i)"] by (simp only: unat_of_nat) simp
  ultimately have "\<not> t_pr (the_timer ?s i) + 1 \<le> t_pc (the_timer ?s i) + 1"
    using Suc.prems by (simp add: word_le_nat_alt add.commute)
  moreover have "timer_runs i ?s" using assms(1) by (simp add: timer_runs_def)
  ultimately show ?case using Suc timer_cycle_wait [of i ?s] by (simp add: add.commute)
qed

lemma timer_prescale_tick:
  assumes "timer_runs i s" "t_pc (the_timer s i) = 0" "t_pr (the_timer s i) \<noteq> - 1"
    "RawIntr (the_vic s) AND IRQTIMER i = 0"
  shows "iter_opt (timer_cycle i) (Suc (unat (t_pr (the_timer s i)))) s =
    timer_matches i (t_tc (the_timer s i) + 1) [0..<4] (upd_timer i (\<lambda>t. t\<lparr>t_tc := t_tc t + 1, t_pc := 0\<rparr>) s)"
proof -
  let ?s = "upd_timer i (\<lambda>t. t\<lparr>t_pc := t_pr (the_timer s i)\<rparr>) s"
  have "iter_opt (timer_cycle i) (unat (t_pr (the_timer s i))) s = Some ?s"
    using timer_prescale_wait [OF assms(1-3) order_refl] by simp
  then show ?thesis
    using timer_cycle_tick [of i ?s] assms(1,4) by (simp add: timer_runs_def)
qed

section \<open>Match registers\<close>

lemma mcr_bits:
  "(drop_bit (3 * n) w AND 4 \<noteq> (0 :: ARMword)) = bit w (3 * n + 2)"
  "(drop_bit (3 * n) w AND 2 \<noteq> (0 :: ARMword)) = bit w (3 * n + 1)"
  "(drop_bit (3 * n) w AND 1 \<noteq> (0 :: ARMword)) = bit w (3 * n)"
  using and_exp_eq_0_iff_not_bit [of "drop_bit (3 * n) w" 2] and_exp_eq_0_iff_not_bit [of "drop_bit (3 * n) w" 1]
    and_exp_eq_0_iff_not_bit [of "drop_bit (3 * n) w" 0]
  by (simp_all add: bit_drop_bit_eq)

lemma update_int_timer: "lpc2300_update_int s = Some t \<Longrightarrow> the_timer t = the_timer s \<and> INTSOURCE (the_vic t) = INTSOURCE (the_vic s)"
  by (auto simp: lpc2300_update_int_def vic_status_def Let_def split: option.splits if_splits)

section \<open>Properties\<close>

text \<open>
  C34: the prescaler.  A running timer whose prescale counter is 0 and whose interrupt
  is not pending advances its counter after exactly \<open>PR + 1\<close> cycles and then looks
  at the match registers; before that only the prescale counter moves.  (With
  \<open>PR = 0xffffffff\<close> the sum \<open>PR + 1\<close> wraps to 0 in C, and this fails.)
\<close>

theorem timer_prescaler:
  assumes "timer_runs i s" "t_pc (the_timer s i) = 0" "t_pr (the_timer s i) \<noteq> - 1"
    "RawIntr (the_vic s) AND IRQTIMER i = 0"
  shows "(\<forall>k \<le> unat (t_pr (the_timer s i)).
      iter_opt (timer_cycle i) k s = Some (upd_timer i (\<lambda>t. t\<lparr>t_pc := of_nat k\<rparr>) s))
    \<and> iter_opt (timer_cycle i) (Suc (unat (t_pr (the_timer s i)))) s =
        timer_matches i (t_tc (the_timer s i) + 1) [0..<4]
          (upd_timer i (\<lambda>t. t\<lparr>t_tc := t_tc t + 1, t_pc := 0\<rparr>) s)"
  using timer_prescale_wait [OF assms(1-3)] timer_prescale_tick [OF assms] by blast

theorem timer_prescaler_witness:
  "iter_opt (timer_cycle 0) 2 (upd_timer 0 (\<lambda>t. t\<lparr>t_tcr := 1, t_pr := 2\<rparr>)
       ((lpc_sys_zero ())\<lparr>lio := lpc2300_io_zero\<lparr>pconp := 2\<rparr>\<rparr>))
   = Some (upd_timer 0 (\<lambda>t. t\<lparr>t_tcr := 1, t_pr := 2, t_pc := 2\<rparr>)
       ((lpc_sys_zero ())\<lparr>lio := lpc2300_io_zero\<lparr>pconp := 2\<rparr>\<rparr>))"
  using timer_prescaler [of 0 "upd_timer 0 (\<lambda>t. t\<lparr>t_tcr := 1, t_pr := 2\<rparr>)
      ((lpc_sys_zero ())\<lparr>lio := lpc2300_io_zero\<lparr>pconp := 2\<rparr>\<rparr>)"]
  by (simp add: timer_runs_def timer_powered_def lpc_sys_zero_def lpc2300_io_zero_def timer_zero_def vic_zero_def)

text \<open>
  What a match does.  When the counter equals match register \<open>n\<close>, bits
  \<open>3n\<close>, \<open>3n+1\<close> and \<open>3n+2\<close> of MCR decide, independently, whether the interrupt
  flag and source are raised (if the VIC has the interrupt enabled), whether the
  counter is cleared and whether the timer stops; nothing else of the timer changes.
\<close>

theorem timer_match_actions:
  assumes "timer_match i (t_mr (the_timer s i) n) n s = Some t"
  defines "mcr \<equiv> t_mcr (the_timer s i)"
  defines "raise \<equiv> bit mcr (3 * n) \<and> IntEnable (the_vic s) AND IRQTIMER i \<noteq> 0"
  shows "the_timer t i = (the_timer s i)\<lparr>
      t_tcr := (if bit mcr (3 * n + 2) then t_tcr (the_timer s i) AND NOT 1 else t_tcr (the_timer s i)),
      t_tc := (if bit mcr (3 * n + 1) then 0 else t_tc (the_timer s i)),
      t_ir := (if raise then t_ir (the_timer s i) OR push_bit n 1 else t_ir (the_timer s i))\<rparr>
    \<and> INTSOURCE (the_vic t) = (if raise then INTSOURCE (the_vic s) OR IRQTIMER i else INTSOURCE (the_vic s))"
  using assms(1) unfolding timer_match_def Let_def mcr_bits mcr_def raise_def
  by (auto dest!: update_int_timer simp: comp_def split: if_splits)

theorem timer_match_actions_witness:
  "\<exists>t. timer_match 0 0 0 (upd_timer 0 (\<lambda>t. t\<lparr>t_mcr := 6, t_tcr := 1\<rparr>) (lpc_sys_zero ())) = Some t
     \<and> t_tcr (the_timer t 0) = 0"
proof -
  let ?s = "upd_timer 0 (\<lambda>t. t\<lparr>t_mcr := 6, t_tcr := 1\<rparr>) (lpc_sys_zero ())"
  have m: "t_mr (the_timer ?s 0) 0 = 0" "t_mcr (the_timer ?s 0) = 6" "t_tcr (the_timer ?s 0) = 1"
    by (simp_all add: lpc_sys_zero_def lpc2300_io_zero_def timer_zero_def)
  have "\<exists>t. timer_match 0 (t_mr (the_timer ?s 0) 0) 0 ?s = Some t"
    by (simp add: timer_match_def lpc_sys_zero_def lpc2300_io_zero_def timer_zero_def)
  then obtain t where "timer_match 0 (t_mr (the_timer ?s 0) 0) 0 ?s = Some t" by blast
  then show ?thesis using timer_match_actions [of 0 ?s 0 t] m by auto
qed

end
