(* ===== verification/Lpc_Io.thy ===== *)
theory Lpc_Io
  imports Lpc_Uart Lpc_Timer
begin

text \<open>
  The machine interface of the LPC2300: reset, the periodic \<open>lpc2300_io_do_cycle\<close>,
  and the memory-mapped register file.  Warnings printed for unknown addresses and
  the LED trace of the GPIO write have no effect on the state and are left out.
\<close>

section \<open>Reset and cycle\<close>

definition timer_reset :: "lpc2300_timer_t \<Rightarrow> lpc2300_timer_t" where
  "timer_reset t = t\<lparr>t_pr := 0, t_ir := 0, t_mr := (\<lambda>n. if n < 4 then 0 else t_mr t n), t_mcr := 0,
     t_tc := 0, t_pc := 0, t_tcr := 0, t_ctcr := 0\<rparr>"

definition vic_reset :: "lpc2300_vic_t \<Rightarrow> lpc2300_vic_t" where
  "vic_reset v = v\<lparr>IRQStatus := 0, FIQStatus := 0, RawIntr := 0, IntSelect := 0, IntEnable := 0,
     SoftInt := 0, Protection := 0, Vect_Addr := 0, SWPrioMask := 0xffff, HWPrioMask := 0xffff,
     VectAddr := (\<lambda>i. if i < 32 then 0 else VectAddr v i),
     VectPrio := (\<lambda>i. if i < 32 then 15 else VectPrio v i),
     IRQNumber := (\<lambda>i. if i < 16 then 0 else IRQNumber v i), INTSOURCE := 0\<rparr>"

definition uart_reset :: "lpc2300_uart_t \<Rightarrow> lpc2300_uart_t" where
  "uart_reset u = u\<lparr>u_fcr := 0, u_lcr := 0, u_scr := 0, u_ier := 0, u_dll := 1, u_dlm := 0,
     u_lsr := 0x60, u_iir := 1, t_fifotop := 0, t_fifolen := 0\<rparr>"

definition lpc2300_io_reset :: "'e lpc_sys \<Rightarrow> 'e lpc_sys" where
  "lpc2300_io_reset s = s\<lparr>lio := (lio s)\<lparr>
       timer := (\<lambda>i. if i < 4 then timer_reset (the_timer s i) else the_timer s i),
       pll := (pll (lio s))\<lparr>pll_stat := pll_stat (pll (lio s)) OR push_bit 10 1\<rparr>,
       vic := vic_reset (the_vic s),
       uart := (\<lambda>i. if i < 4 then uart_reset (the_uart s i) else the_uart s i),
       pinsel := (\<lambda>i. if i < 11 then 0 else pinsel (lio s) i),
       pinmode := (\<lambda>i. if i < 10 then 0 else pinmode (lio s) i),
       bcfg := (bcfg (lio s))(0 := 0x0000fbef, 1 := 0x2000fbef, 2 := 0x1000fbef, 3 := 0x0000fbef),
       pclksel0 := 0, pclksel1 := 0, vibdiv := 0, pconp := 0x850ffe,
       FIO := (\<lambda>i. if i < 160 then 0 else FIO (lio s) i)\<rparr>,
     nirq := HIGH, nfiq := HIGH\<rparr>"

fun each_unit :: "(nat \<Rightarrow> 'e lpc_sys \<Rightarrow> 'e lpc_sys option) \<Rightarrow> nat list \<Rightarrow> 'e lpc_sys \<Rightarrow> 'e lpc_sys option" where
  "each_unit f [] s = Some s"
| "each_unit f (i # is) s = (case f i s of None \<Rightarrow> None | Some s \<Rightarrow> each_unit f is s)"

definition lpc2300_io_do_cycle :: "'e uart_host \<Rightarrow> 'e lpc_sys \<Rightarrow> 'e lpc_sys option" where
  "lpc2300_io_do_cycle H s =
     do {
       s \<leftarrow> each_unit timer_cycle [0..<4] s;
       s \<leftarrow> each_unit (uart_cycle H) [0..<4] s;
       Some (uartcnt_step s)
     }"

section \<open>Address decoding\<close>

text \<open>
  The unsigned comparisons \<open>addr - base <= n\<close> of the code; their second halves
  (\<open>addr - base >= 0\<close>) are always true.
\<close>

definition uart_of_addr :: "ARMword \<Rightarrow> nat option" where
  "uart_of_addr addr =
     (if addr \<ge> 0xe000c000 \<and> addr \<le> 0xe000c030 then Some 0
      else if addr \<ge> 0xe0010000 \<and> addr \<le> 0xe0010030 then Some 1
      else if addr \<ge> 0xe0078000 \<and> addr \<le> 0xe0078030 then Some 2
      else if addr \<ge> 0xe007c000 \<and> addr \<le> 0xe007c030 then Some 3
      else None)"

definition timer_of_addr :: "ARMword \<Rightarrow> nat option" where
  "timer_of_addr addr =
     (if addr \<ge> 0xe0004000 \<and> addr \<le> 0xe0004070 then Some 0
      else if addr \<ge> 0xe0008000 \<and> addr \<le> 0xe0008070 then Some 1
      else if addr \<ge> 0xe0070000 \<and> addr \<le> 0xe0070070 then Some 2
      else if addr \<ge> 0xe0074000 \<and> addr \<le> 0xe0074070 then Some 3
      else None)"

definition is_gpio :: "ARMword \<Rightarrow> bool" where
  "is_gpio addr \<longleftrightarrow> addr - 0x3fffc000 < 0xa0 \<or> addr - 0xe0028000 < 0x20"

definition gpio_ofs :: "ARMword \<Rightarrow> ARMword" where
  "gpio_ofs addr =
     (if addr \<ge> 0xe002801c then addr - 0xe002801c + 0x3c
      else if addr \<ge> 0xe0028018 then addr - 0xe0028018 + 0x20
      else if addr \<ge> 0xe0028010 then addr - 0xe0028010 + 0x34
      else if addr \<ge> 0xe002800c then addr - 0xe002800c + 0x1c
      else if addr \<ge> 0xe0028008 then addr - 0xe0028008 + 0x00
      else if addr \<ge> 0xe0028000 then addr - 0xe0028000 + 0x14
      else addr - 0x3fffc000)"

definition word_index :: "ARMword \<Rightarrow> ARMword \<Rightarrow> nat" where
  "word_index addr base = unat ((addr - base) div 4)"

section \<open>Reading\<close>

text \<open>
  The registers with a case label of their own.  The case \<open>0xe01fc08c\<close> has no
  \<open>break\<close>, so it falls through to the next one.
\<close>

definition io_plain_read :: "lpc2300_io_t \<Rightarrow> ARMword \<Rightarrow> ARMword option" where
  "io_plain_read l addr =
     (if addr = 0xe01fc0c4 then Some (pconp l)
      else if addr = 0xfffff000 then Some (IRQStatus (vic l))
      else if addr = 0xfffff004 then Some (FIQStatus (vic l))
      else if addr = 0xfffff008 then Some (RawIntr (vic l))
      else if addr = 0xfffff00c then Some (IntSelect (vic l))
      else if addr = 0xfffff010 then Some (IntEnable (vic l))
      else if addr = 0xfffff024 then Some (SWPrioMask (vic l))
      else if addr = 0xffffff00 then Some (Vect_Addr (vic l))
      else if addr = 0xe01fc080 then Some (pll_con (pll l))
      else if addr = 0xe01fc084 then Some (pll_cfg (pll l))
      else if addr = 0xe01fc088 then Some (pll_stat (pll l) OR push_bit 24 7)
      else if addr = 0xe01fc08c then Some (bcfg l 0)
      else if addr = 0xffe00000 then Some (bcfg l 0)
      else if addr = 0xffe00004 then Some (bcfg l 1)
      else if addr = 0xffe00008 then Some (bcfg l 2)
      else if addr = 0xffe0000c then Some (bcfg l 3)
      else if addr = 0xe0024080 then Some (rtc_preint l)
      else if addr = 0xe0024084 then Some (rtc_prefrac l)
      else if addr = 0xe0024008 then Some (rtc_ccr l)
      else if addr = 0xe0024020 then Some (rtc_sec l)
      else if addr = 0xe0024024 then Some (rtc_min l)
      else if addr = 0xe0024028 then Some (rtc_hour l)
      else if addr = 0xe002402c then Some (rtc_dom l)
      else if addr = 0xe0024030 then Some (rtc_dow l)
      else if addr = 0xe0024034 then Some (rtc_doy l)
      else if addr = 0xe0024038 then Some (rtc_month l)
      else if addr = 0xe002403c then Some (rtc_year l)
      else if addr = 0xe01fc000 then Some (mamcr l)
      else if addr = 0xe01fc004 then Some (mamtim l)
      else if addr = 0xe01fc1a0 then Some (syscon l)
      else if addr = 0xe01fc1a8 then Some (pclksel0 l)
      else if addr = 0xe01fc1ac then Some (pclksel1 l)
      else None)"

text \<open>The last part of the \<open>default\<close> case; unknown addresses read as -1.\<close>

definition io_array_read :: "lpc2300_io_t \<Rightarrow> ARMword \<Rightarrow> ARMword" where
  "io_array_read l addr =
     (if addr - 0xfffff100 \<le> 0x7c then VectAddr (vic l) (word_index addr 0xfffff100)
      else if addr - 0xfffff200 \<le> 0x7c then VectPrio (vic l) (word_index addr 0xfffff200)
      else if is_gpio addr then FIO l (unat (gpio_ofs addr))
      else if addr - 0xe002c000 \<le> 0x28 then pinsel l (word_index addr 0xe002c000)
      else if addr - 0xe002c040 \<le> 0x24 then pinmode l (word_index addr 0xe002c040)
      else - 1)"

definition lpc2300_io_read_word :: "'e uart_host \<Rightarrow> 'e lpc_sys \<Rightarrow> ARMword \<Rightarrow> (ARMword \<times> 'e lpc_sys) option" where
  "lpc2300_io_read_word H s addr =
     (case io_plain_read (lio s) addr of
        Some data \<Rightarrow> Some (data, s)
      | None \<Rightarrow>
         if addr = 0xfffff014 then map_option (\<lambda>t. (IntEnClr (the_vic s), t)) (lpc2300_update_int s)
         else (case uart_of_addr addr of
                 Some i \<Rightarrow> lpc2300_uart_read H s addr i
               | None \<Rightarrow> (case timer_of_addr addr of
                   Some i \<Rightarrow> Some (lpc2300_timer_read s addr i, s)
                 | None \<Rightarrow> Some (io_array_read (lio s) addr, s))))"

definition lpc2300_io_read_byte :: "'e uart_host \<Rightarrow> 'e lpc_sys \<Rightarrow> ARMword \<Rightarrow> (ARMword \<times> 'e lpc_sys) option" where
  "lpc2300_io_read_byte H s addr = lpc2300_io_read_word H s addr"

definition lpc2300_io_read_halfword :: "'e uart_host \<Rightarrow> 'e lpc_sys \<Rightarrow> ARMword \<Rightarrow> (ARMword \<times> 'e lpc_sys) option" where
  "lpc2300_io_read_halfword H s addr = lpc2300_io_read_word H s addr"

section \<open>Writing\<close>

text \<open>
  Registers with a case label that only store; \<open>None\<close> for the others.  The three
  read-only VIC registers and the PLL status ignore the write.
\<close>

definition io_plain_write :: "lpc2300_io_t \<Rightarrow> ARMword \<Rightarrow> ARMword \<Rightarrow> lpc2300_io_t option" where
  "io_plain_write l addr data =
     (if addr = 0xe01fc0c4 then Some (l\<lparr>pconp := data\<rparr>)
      else if addr = 0xfffff000 \<or> addr = 0xfffff004 \<or> addr = 0xfffff008 then Some l
      else if addr = 0xfffff00c then Some (l\<lparr>vic := (vic l)\<lparr>IntSelect := data\<rparr>\<rparr>)
      else if addr = 0xfffff014 then
        Some (l\<lparr>vic := (vic l)\<lparr>IntEnClr := data, IntEnable := IntEnable (vic l) AND NOT data\<rparr>\<rparr>)
      else if addr = 0xfffff020 then Some (l\<lparr>vic := (vic l)\<lparr>Protection := data\<rparr>\<rparr>)
      else if addr = 0xfffff024 then Some (l\<lparr>vic := (vic l)\<lparr>SWPrioMask := data\<rparr>\<rparr>)
      else if addr = 0xe01fc080 then Some (l\<lparr>pll := (pll l)\<lparr>pll_con := data\<rparr>\<rparr>)
      else if addr = 0xe01fc084 then
        Some (l\<lparr>pll := (pll l)\<lparr>pll_cfg := data, pll_stat := (data AND 0x00ffffff) OR 0x07000000\<rparr>\<rparr>)
      else if addr = 0xe01fc088 then Some l
      else if addr = 0xe01fc08c then Some (l\<lparr>pll := (pll l)\<lparr>pll_feed := data\<rparr>\<rparr>)
      else if addr = 0xe01fc040 then Some (l\<lparr>mmcr := data\<rparr>)
      else if addr = 0xffe00000 then Some (l\<lparr>bcfg := (bcfg l)(0 := data)\<rparr>)
      else if addr = 0xffe00004 then Some (l\<lparr>bcfg := (bcfg l)(1 := data)\<rparr>)
      else if addr = 0xffe00008 then Some (l\<lparr>bcfg := (bcfg l)(2 := data)\<rparr>)
      else if addr = 0xffe0000c then Some (l\<lparr>bcfg := (bcfg l)(3 := data)\<rparr>)
      else if addr = 0xe0024008 then Some (l\<lparr>rtc_ccr := data\<rparr>)
      else if addr = 0xe0024080 then Some (l\<lparr>rtc_preint := data\<rparr>)
      else if addr = 0xe0024084 then Some (l\<lparr>rtc_prefrac := data\<rparr>)
      else if addr = 0xe0024020 then Some (l\<lparr>rtc_sec := data\<rparr>)
      else if addr = 0xe0024024 then Some (l\<lparr>rtc_min := data\<rparr>)
      else if addr = 0xe0024028 then Some (l\<lparr>rtc_hour := data\<rparr>)
      else if addr = 0xe002402c then Some (l\<lparr>rtc_dom := data\<rparr>)
      else if addr = 0xe0024030 then Some (l\<lparr>rtc_dow := data\<rparr>)
      else if addr = 0xe0024034 then Some (l\<lparr>rtc_doy := data\<rparr>)
      else if addr = 0xe0024038 then Some (l\<lparr>rtc_month := data\<rparr>)
      else if addr = 0xe002403c then Some (l\<lparr>rtc_year := data\<rparr>)
      else if addr = 0xe01fc000 then Some (l\<lparr>mamcr := data\<rparr>)
      else if addr = 0xe01fc004 then Some (l\<lparr>mamtim := data\<rparr>)
      else if addr = 0xe01fc1a0 then Some (l\<lparr>syscon := data OR push_bit 1 (data AND 0x20)\<rparr>)
      else if addr = 0xe01fc1a8 then Some (l\<lparr>pclksel0 := data\<rparr>)
      else if addr = 0xe01fc1ac then Some (l\<lparr>pclksel1 := data\<rparr>)
      else None)"

text \<open>VIC registers whose write triggers a new selection.\<close>

definition vic_write :: "'e lpc_sys \<Rightarrow> ARMword \<Rightarrow> ARMword \<Rightarrow> 'e lpc_sys option option" where
  "vic_write s addr data =
     (if addr = 0xfffff010 then
        Some (lpc2300_update_int (upd_vic (\<lambda>v. v\<lparr>IntEnable := IntEnable v OR data,
                                               IntEnClr := IntEnClr v AND NOT data\<rparr>) s))
      else if addr = 0xfffff018 then
        Some (lpc2300_update_int (upd_vic (\<lambda>v. v\<lparr>SoftInt := SoftInt v OR data,
                                               SoftIntClear := SoftIntClear v AND NOT data\<rparr>) s))
      else if addr = 0xfffff01c then
        Some (lpc2300_update_int (upd_vic (\<lambda>v. v\<lparr>SoftIntClear := data,
                                               SoftInt := SoftInt v AND NOT data\<rparr>) s))
      else if addr = 0xffffff00 then Some (vic_write_VAR s)
      else None)"

definition gpio_write :: "(nat \<Rightarrow> ARMword) \<Rightarrow> ARMword \<Rightarrow> ARMword \<Rightarrow> nat \<Rightarrow> ARMword" where
  "gpio_write fio ofs data =
     (let k = unat ofs; m = fio (unat (ofs - 4)) in
      if ofs AND 0x1f \<ge> 0x14 \<and> ofs AND 0x1f < 0x18 then fio(k := (data AND NOT m) OR (fio k AND m))
      else if ofs AND 0x1f \<ge> 0x1c \<and> ofs AND 0x1f < 0x20 then fio(k := (NOT data OR m) AND fio k)
      else fio(k := data))"

definition io_array_write :: "lpc2300_io_t \<Rightarrow> ARMword \<Rightarrow> ARMword \<Rightarrow> lpc2300_io_t" where
  "io_array_write l addr data =
     (if addr - 0xfffff100 \<le> 0x7c then
        l\<lparr>vic := (vic l)\<lparr>VectAddr := (VectAddr (vic l))(word_index addr 0xfffff100 := data)\<rparr>\<rparr>
      else if addr - 0xfffff200 \<le> 0x7c then
        l\<lparr>vic := (vic l)\<lparr>VectPrio := (VectPrio (vic l))(word_index addr 0xfffff200 := data)\<rparr>\<rparr>
      else if is_gpio addr then l\<lparr>FIO := gpio_write (FIO l) (gpio_ofs addr) data\<rparr>
      else if addr - 0xe002c000 \<le> 0x28 then l\<lparr>pinsel := (pinsel l)(word_index addr 0xe002c000 := data)\<rparr>
      else if addr - 0xe002c040 \<le> 0x24 then l\<lparr>pinmode := (pinmode l)(word_index addr 0xe002c040 := data)\<rparr>
      else l)"

definition lpc2300_io_write_word :: "'e uart_host \<Rightarrow> 'e lpc_sys \<Rightarrow> ARMword \<Rightarrow> ARMword \<Rightarrow> 'e lpc_sys option" where
  "lpc2300_io_write_word H s addr data =
     (case io_plain_write (lio s) addr data of
        Some l \<Rightarrow> Some (s\<lparr>lio := l\<rparr>)
      | None \<Rightarrow> (case vic_write s addr data of
          Some r \<Rightarrow> r
        | None \<Rightarrow> (case uart_of_addr addr of
            Some i \<Rightarrow> lpc2300_uart_write H s addr data i
          | None \<Rightarrow> (case timer_of_addr addr of
              Some i \<Rightarrow> lpc2300_timer_write s addr data i
            | None \<Rightarrow> Some (s\<lparr>lio := io_array_write (lio s) addr data\<rparr>)))))"

definition lpc2300_io_write_byte :: "'e uart_host \<Rightarrow> 'e lpc_sys \<Rightarrow> ARMword \<Rightarrow> ARMword \<Rightarrow> 'e lpc_sys option" where
  "lpc2300_io_write_byte H s addr data = lpc2300_io_write_word H s addr data"

definition lpc2300_io_write_halfword :: "'e uart_host \<Rightarrow> 'e lpc_sys \<Rightarrow> ARMword \<Rightarrow> ARMword \<Rightarrow> 'e lpc_sys option" where
  "lpc2300_io_write_halfword H s addr data = lpc2300_io_write_word H s addr data"

section \<open>Invariant\<close>

definition lpc_ok :: "'e lpc_sys \<Rightarrow> bool" where
  "lpc_ok s \<longleftrightarrow> vic_ok (the_vic s) \<and> (\<forall>i. fifo_ok (the_uart s i)) \<and> 0 \<le> uartcnt s \<and> uartcnt s \<le> 128"

lemma lpc_ok_frame:
  "lpc_ok s \<Longrightarrow> vic_ok (the_vic t) \<Longrightarrow> the_uart t = the_uart s \<Longrightarrow> uartcnt t = uartcnt s \<Longrightarrow> lpc_ok t"
  by (simp add: lpc_ok_def)

lemma lpc_ok_upd_timer [simp]: "lpc_ok (upd_timer i f s) = lpc_ok s"
  by (simp add: lpc_ok_def)

lemma lpc_ok_upd_uart:
  "lpc_ok s \<Longrightarrow> fifo_ok (f (the_uart s i)) \<Longrightarrow> lpc_ok (upd_uart i f s)"
  by (simp add: lpc_ok_def)

lemma lpc_ok_upd_vic:
  "lpc_ok s \<Longrightarrow> vic_ok (f (the_vic s)) \<Longrightarrow> lpc_ok (upd_vic f s)"
  by (simp add: lpc_ok_def)

lemma lpc_ok_host [simp]: "lpc_ok (s\<lparr>host := h\<rparr>) = lpc_ok s"
  by (simp add: lpc_ok_def)

lemma vic_ok_updates [simp]:
  "vic_ok (v\<lparr>INTSOURCE := w\<rparr>) = vic_ok v" "vic_ok (v\<lparr>IntEnable := w\<rparr>) = vic_ok v"
  "vic_ok (v\<lparr>IntEnClr := w\<rparr>) = vic_ok v" "vic_ok (v\<lparr>SoftInt := w\<rparr>) = vic_ok v"
  "vic_ok (v\<lparr>SoftIntClear := w\<rparr>) = vic_ok v" "vic_ok (v\<lparr>Protection := w\<rparr>) = vic_ok v"
  "vic_ok (v\<lparr>SWPrioMask := w\<rparr>) = vic_ok v" "vic_ok (v\<lparr>IntSelect := w\<rparr>) = vic_ok v"
  "vic_ok (v\<lparr>VectAddr := g\<rparr>) = vic_ok v"
  by (simp_all add: vic_ok_def)

lemma fifo_ok_updates [simp]:
  "fifo_ok (u\<lparr>u_rbr := w\<rparr>) = fifo_ok u" "fifo_ok (u\<lparr>u_thr := w\<rparr>) = fifo_ok u"
  "fifo_ok (u\<lparr>u_ier := w\<rparr>) = fifo_ok u" "fifo_ok (u\<lparr>u_iir := w\<rparr>) = fifo_ok u"
  "fifo_ok (u\<lparr>u_fcr := w\<rparr>) = fifo_ok u" "fifo_ok (u\<lparr>u_lcr := w\<rparr>) = fifo_ok u"
  "fifo_ok (u\<lparr>u_scr := w\<rparr>) = fifo_ok u" "fifo_ok (u\<lparr>u_dll := w\<rparr>) = fifo_ok u"
  "fifo_ok (u\<lparr>u_dlm := w\<rparr>) = fifo_ok u"
  by (simp_all add: fifo_ok_def)

lemma update_int_frame:
  "lpc2300_update_int s = Some t \<Longrightarrow>
     the_uart t = the_uart s \<and> the_timer t = the_timer s \<and> uartcnt t = uartcnt s \<and> host t = host s
     \<and> pconp (lio t) = pconp (lio s)"
  by (auto simp: lpc2300_update_int_def Let_def split: option.splits if_splits)

lemma keeps_update_int: "lpc_ok s \<Longrightarrow> \<exists>t. lpc2300_update_int s = Some t \<and> lpc_ok t"
  using update_int_total [of s] update_int_frame [of s] by (fastforce simp: lpc_ok_def)

lemma keeps_VAR: "lpc_ok s \<Longrightarrow> \<exists>t. vic_write_VAR s = Some t \<and> lpc_ok t"
proof -
  assume ok: "lpc_ok s"
  obtain t where t: "vic_write_VAR s = Some t" "vic_ok (the_vic t)"
    using write_VAR_total [of s] ok by (auto simp: lpc_ok_def)
  have "(\<forall>i. fifo_ok (the_uart t i)) \<and> uartcnt t = uartcnt s"
    using t(1) ok update_int_frame
    by (fastforce simp: vic_write_VAR_def Let_def clear_uart_iir_def lpc_ok_def split: if_splits)
  then show ?thesis using t ok by (auto simp: lpc_ok_def)
qed

lemma keeps_timer_match: "lpc_ok s \<Longrightarrow> \<exists>t. timer_match i ntc n s = Some t \<and> lpc_ok t"
  by (auto simp: timer_match_def Let_def intro!: keeps_update_int lpc_ok_upd_vic) (auto simp: lpc_ok_def)

lemma keeps_timer_matches: "lpc_ok s \<Longrightarrow> \<exists>t. timer_matches i ntc ns s = Some t \<and> lpc_ok t"
proof (induction ns arbitrary: s)
  case (Cons n ns)
  then obtain t where "timer_match i ntc n s = Some t" "lpc_ok t" using keeps_timer_match by blast
  then show ?case using Cons by simp
qed simp

lemma keeps_timer_cycle: "lpc_ok s \<Longrightarrow> \<exists>t. timer_cycle i s = Some t \<and> lpc_ok t"
  by (auto simp: timer_cycle_def timer_count_def Let_def intro!: keeps_timer_matches)

lemma keeps_uart_int_reset: "lpc_ok s \<Longrightarrow> \<exists>t. uart_int_reset i pat s = Some t \<and> lpc_ok t"
  by (auto simp: uart_int_reset_def intro!: keeps_update_int lpc_ok_upd_uart) (simp add: lpc_ok_def)

lemma lpc_ok_clear_source: "lpc_ok s \<Longrightarrow> lpc_ok (clear_source m s)"
  by (simp add: clear_source_def lpc_ok_def)

lemma lpc_ok_poll_rx: "lpc_ok s \<Longrightarrow> lpc_ok (uart_poll_rx H i s)"
  by (auto simp: uart_poll_rx_def lpc_ok_def split: prod.splits option.splits)

lemma keeps_uart_read:
  "lpc_ok s \<Longrightarrow> \<exists>d t. lpc2300_uart_read H s addr i = Some (d, t) \<and> lpc_ok t"
proof -
  assume ok: "lpc_ok s"
  have u: "lpc_ok (clear_source m (upd_uart i (\<lambda>u. u\<lparr>u_lsr := f u\<rparr>) s))"
    "lpc_ok (clear_source m s)" "lpc_ok (clear_source m (uart_poll_rx H i s))" for m f
    using ok lpc_ok_clear_source [OF lpc_ok_poll_rx [OF ok]]
    by (simp_all add: lpc_ok_clear_source lpc_ok_upd_uart lpc_ok_def [of s])
  show ?thesis
    unfolding lpc2300_uart_read_def Let_def
    using ok by (auto intro!: keeps_uart_int_reset u split: if_splits)
qed

lemma keeps_uart_write:
  "lpc_ok s \<Longrightarrow> \<exists>t. lpc2300_uart_write H s addr data i = Some t \<and> lpc_ok t"
proof -
  assume ok: "lpc_ok s"
  have "\<exists>t. uart_write_thr H s data i = Some t \<and> lpc_ok t"
    unfolding uart_write_thr_def Let_def
    using ok by (auto intro!: keeps_uart_int_reset lpc_ok_upd_uart lpc_ok_clear_source simp: case_prod_beta)
       (auto simp: lpc_ok_def clear_source_def)
  then show ?thesis
    unfolding lpc2300_uart_write_def Let_def using ok by (auto simp: lpc_ok_def)
qed

lemma transmit_frame:
  "uartcnt (snd (lpc2300_uart_transmit H i s)) = uartcnt s" "the_vic (snd (lpc2300_uart_transmit H i s)) = the_vic s"
  "j \<noteq> i \<Longrightarrow> the_uart (snd (lpc2300_uart_transmit H i s)) j = the_uart s j"
  by (auto simp: lpc2300_uart_transmit_def Let_def case_prod_beta)

lemma lpc_ok_transmit: "lpc_ok s \<Longrightarrow> lpc_ok (snd (lpc2300_uart_transmit H i s))"
proof -
  assume ok: "lpc_ok s"
  have "fifo_ok (the_uart (snd (lpc2300_uart_transmit H i s)) j)" for j
    using ok transmit_refines(1) [of s i H] transmit_frame(3) [of j i H s] by (cases "j = i") (auto simp: lpc_ok_def)
  then show ?thesis using ok by (simp add: lpc_ok_def transmit_frame)
qed

lemma keeps_uart_cycle: "lpc_ok s \<Longrightarrow> \<exists>t. uart_cycle H i s = Some t \<and> lpc_ok t"
proof -
  assume ok: "lpc_ok s"
  have rx: "lpc_ok (case uart_host_read H i (host s) of
        (None, h) \<Rightarrow> s\<lparr>host := h\<rparr>
      | (Some b, h) \<Rightarrow> upd_vic (\<lambda>v. v\<lparr>INTSOURCE := INTSOURCE v OR IRQUART i\<rparr>)
          (upd_uart i (\<lambda>u. u\<lparr>u_rbr := ucast b, u_lsr := u_lsr u OR 1, u_iir := (u_iir u AND NOT 0xf) OR 4\<rparr>) (s\<lparr>host := h\<rparr>)))"
    using ok by (auto simp: lpc_ok_def split: prod.splits option.splits)
  obtain b t where t: "lpc2300_uart_transmit H i s = (b, t)" by fastforce
  then have ot: "lpc_ok t" using lpc_ok_transmit [OF ok, of H i] by simp
  then have "lpc_ok (upd_vic (\<lambda>v. v\<lparr>INTSOURCE := INTSOURCE v OR IRQUART i\<rparr>)
      (upd_uart i (\<lambda>u. u\<lparr>u_iir := (u_iir u AND NOT 0xf) OR 2\<rparr>) t))"
    by (simp add: lpc_ok_def)
  then show ?thesis
    using keeps_update_int [OF rx] keeps_update_int ok ot t
    by (cases b) (auto simp: uart_cycle_def)
qed

lemma keeps_each_unit:
  assumes "\<And>i s. lpc_ok s \<Longrightarrow> \<exists>t. f i s = Some t \<and> lpc_ok t"
  shows "lpc_ok s \<Longrightarrow> \<exists>t. each_unit f is s = Some t \<and> lpc_ok t"
proof (induction "is" arbitrary: s)
  case (Cons i "is")
  then obtain t where "f i s = Some t" "lpc_ok t" using assms by blast
  then show ?case using Cons by simp
qed simp

lemma keeps_do_cycle: "lpc_ok s \<Longrightarrow> \<exists>t. lpc2300_io_do_cycle H s = Some t \<and> lpc_ok t"
proof -
  assume "lpc_ok s"
  then obtain t where t: "each_unit timer_cycle [0..<4] s = Some t" "lpc_ok t"
    using keeps_each_unit [of timer_cycle] keeps_timer_cycle by blast
  then obtain u where u: "each_unit (uart_cycle H) [0..<4] t = Some u" "lpc_ok u"
    using keeps_each_unit [of "uart_cycle H"] keeps_uart_cycle by blast
  have "lpc_ok (uartcnt_step u)" using u(2) by (auto simp: lpc_ok_def uartcnt_step_def)
  then show ?thesis using t u by (simp add: lpc2300_io_do_cycle_def)
qed

lemma keeps_timer_write: "lpc_ok s \<Longrightarrow> \<exists>t. lpc2300_timer_write s addr data i = Some t \<and> lpc_ok t"
  by (auto simp: lpc2300_timer_write_def timer_write_ir_def Let_def intro!: keeps_update_int)
    (auto simp: lpc_ok_def)

lemma keeps_read_word: "lpc_ok s \<Longrightarrow> \<exists>d t. lpc2300_io_read_word H s addr = Some (d, t) \<and> lpc_ok t"
  using keeps_uart_read [of s H addr] keeps_update_int [of s]
  by (fastforce simp: lpc2300_io_read_word_def split: option.splits)

text \<open>The one write that can break the invariant: a priority with the sign bit set.\<close>

definition safe_write :: "ARMword \<Rightarrow> ARMword \<Rightarrow> bool" where
  "safe_write addr data \<longleftrightarrow> (addr - 0xfffff200 \<le> 0x7c \<longrightarrow> \<not> bit data 31)"

lemma plain_write_frame:
  assumes "io_plain_write l addr data = Some m"
  shows "uart m = uart l" "vic_ok (vic l) \<Longrightarrow> vic_ok (vic m)"
  using assms unfolding io_plain_write_def by (simp_all split: if_splits) auto

lemma array_write_frame:
  assumes "safe_write addr data"
  shows "uart (io_array_write l addr data) = uart l" "vic_ok (vic l) \<Longrightarrow> vic_ok (vic (io_array_write l addr data))"
  using assms by (auto simp: io_array_write_def safe_write_def vic_ok_def bit31_conv_sint)

lemma keeps_write_word:
  assumes "lpc_ok s" "safe_write addr data"
  shows "\<exists>t. lpc2300_io_write_word H s addr data = Some t \<and> lpc_ok t"
proof (cases "io_plain_write (lio s) addr data")
  case (Some l)
  then show ?thesis using plain_write_frame [OF Some] assms(1)
    by (simp add: lpc2300_io_write_word_def lpc_ok_def)
next
  case None
  have v: "\<exists>t. r = Some t \<and> lpc_ok t" if "vic_write s addr data = Some r" for r
  proof (cases "addr = 0xffffff00")
    case True
    then show ?thesis using that keeps_VAR [OF assms(1)] by (auto simp: vic_write_def)
  next
    case False
    then show ?thesis using that assms(1)
      by (auto simp: vic_write_def intro!: keeps_update_int lpc_ok_upd_vic split: if_splits) (auto simp: lpc_ok_def)
  qed
  have a: "lpc_ok (s\<lparr>lio := io_array_write (lio s) addr data\<rparr>)"
    using assms array_write_frame [OF assms(2), of "lio s"] by (simp add: lpc_ok_def)
  show ?thesis using None v a keeps_uart_write [OF assms(1)] keeps_timer_write [OF assms(1)]
    by (auto simp: lpc2300_io_write_word_def split: option.splits)
qed


section \<open>Runs\<close>

locale lpc_operation =
  fixes op :: "'e lpc_sys \<Rightarrow> 'e lpc_sys option"
  assumes op_ok: "lpc_ok s \<Longrightarrow> \<exists>t. op s = Some t \<and> lpc_ok t"
begin

lemma iterate_ok: "lpc_ok s \<Longrightarrow> \<exists>t. iter_opt op n s = Some t \<and> lpc_ok t"
proof (induction n)
  case (Suc n)
  then obtain t where "iter_opt op n s = Some t" "lpc_ok t" by blast
  then show ?case using op_ok [of t] by simp
qed simp

lemma then_ok: "lpc_ok s \<Longrightarrow> \<exists>t. iter_opt op n s = Some t \<and> (\<exists>u. op t = Some u \<and> lpc_ok u)"
  using iterate_ok op_ok by blast

end

interpretation lpc_cycle: lpc_operation "lpc2300_io_do_cycle H" for H
  by unfold_locales (rule keeps_do_cycle)

interpretation lpc_update: lpc_operation lpc2300_update_int
  by unfold_locales (rule keeps_update_int)

interpretation lpc_ack: lpc_operation vic_write_VAR
  by unfold_locales (rule keeps_VAR)

interpretation lpc_read: lpc_operation "\<lambda>s. map_option snd (lpc2300_io_read_word H s addr)" for H addr
  using keeps_read_word [where H = H and addr = addr] by unfold_locales fastforce

datatype lpc_access = Read ARMword | Write ARMword ARMword | Cycle

fun lpc_access_step :: "'e uart_host \<Rightarrow> lpc_access \<Rightarrow> 'e lpc_sys \<Rightarrow> 'e lpc_sys option" where
  "lpc_access_step H (Read addr) s = map_option snd (lpc2300_io_read_word H s addr)"
| "lpc_access_step H (Write addr data) s = lpc2300_io_write_word H s addr data"
| "lpc_access_step H Cycle s = lpc2300_io_do_cycle H s"

fun lpc_run :: "'e uart_host \<Rightarrow> lpc_access list \<Rightarrow> 'e lpc_sys \<Rightarrow> 'e lpc_sys option" where
  "lpc_run H [] s = Some s"
| "lpc_run H (a # as) s = (case lpc_access_step H a s of None \<Rightarrow> None | Some s \<Rightarrow> lpc_run H as s)"

fun safe_access :: "lpc_access \<Rightarrow> bool" where
  "safe_access (Write addr data) = safe_write addr data"
| "safe_access _ = True"

lemma keeps_access_step:
  "lpc_ok s \<Longrightarrow> safe_access a \<Longrightarrow> \<exists>t. lpc_access_step H a s = Some t \<and> lpc_ok t"
  using lpc_read.op_ok [of s H] lpc_cycle.op_ok [of s H] keeps_write_word [of s _ _ H] by (cases a) auto

lemma keeps_run: "lpc_ok s \<Longrightarrow> list_all safe_access as \<Longrightarrow> \<exists>t. lpc_run H as s = Some t \<and> lpc_ok t"
proof (induction as arbitrary: s)
  case (Cons a as)
  then obtain t where "lpc_access_step H a s = Some t" "lpc_ok t" using keeps_access_step by fastforce
  then show ?case using Cons by simp
qed simp

lemma lpc_ok_reset:
  assumes "lpc_ok s"
  shows "lpc_ok (lpc2300_io_reset s)"
proof -
  have "bit (0xffff :: ARMword) p" if "p < 16" for p
    using that by (rule bit_ffff)
  then show ?thesis
    using assms by (simp add: lpc_ok_def lpc2300_io_reset_def vic_ok_def vic_reset_def uart_reset_def fifo_ok_def)
qed

lemma lpc_ok_zero: "lpc_ok (lpc_sys_zero h)"
  by (simp add: lpc_ok_def lpc_sys_zero_def lpc2300_io_zero_def vic_zero_def uart_zero_def vic_ok_def fifo_ok_def)

lemma word_index_le: "unat (addr - base) \<le> 4 * n \<Longrightarrow> word_index addr base \<le> n"
  by (simp add: word_index_def unat_div_distrib)

lemma gpio_ofs_bound:
  assumes "is_gpio addr"
  shows "unat (gpio_ofs addr) < 160"
proof (cases "addr - 0xe0028000 < 0x20")
  case True
  define k where "k = unat (addr - 0xe0028000)"
  have k: "k < 32" using True by (simp add: k_def word_less_nat_alt)
  have a: "addr = 0xe0028000 + of_nat k" by (simp add: k_def)
  have "\<forall>k<32. unat (gpio_ofs (0xe0028000 + of_nat k)) < 160"
    by (rule nat_less_32_all) (simp_all add: gpio_ofs_def)
  then show ?thesis using k a by simp
next
  case False
  define k where "k = unat (addr - 0x3fffc000)"
  have k: "k < 160" using False assms by (simp add: k_def is_gpio_def word_less_nat_alt)
  have a: "addr = 0x3fffc000 + of_nat k" by (simp add: k_def)
  have "unat addr = 0x3fffc000 + k" using k unfolding a by (simp add: unat_word_ariths unat_of_nat)
  then have "gpio_ofs addr = addr - 0x3fffc000" using k by (simp add: gpio_ofs_def word_le_nat_alt)
  then show ?thesis using k by (simp add: k_def)
qed

section \<open>Properties\<close>

text \<open>
  C15: the peripherals never reach undefined behaviour.  From reset, any sequence of
  register reads, register writes and cycles is defined, as long as no priority with
  the sign bit set is written, and leaves the VIC, the transmit FIFOs and the UART
  counter within their invariants; the behaviour of the host is arbitrary.
\<close>

theorem lpc2300_run_total:
  assumes "list_all safe_access as"
  shows "\<exists>t. lpc_run H as (lpc2300_io_reset (lpc_sys_zero h)) = Some t \<and> lpc_ok t"
  using lpc_ok_reset [OF lpc_ok_zero] assms by (rule keeps_run)

theorem lpc2300_run_total_witness:
  "\<exists>t. lpc_run \<lparr>uart_host_read = (\<lambda>i h. (None, h)), uart_host_write = (\<lambda>i b h. (True, h))\<rparr>
      [Write 0xfffff010 0x10, Cycle, Read 0xffffff00, Write 0xfffff200 5]
      (lpc2300_io_reset (lpc_sys_zero ())) = Some t \<and> lpc_ok t"
  using lpc2300_run_total [of "[Write 0xfffff010 0x10, Cycle, Read 0xffffff00, Write 0xfffff200 5]"
      "\<lparr>uart_host_read = (\<lambda>i h. (None, h)), uart_host_write = (\<lambda>i b h. (True, h))\<rparr>" "()"]
  by (simp add: safe_write_def)

text \<open>A register file with the entries beyond the bounds of its arrays set to 0.\<close>

definition upto_len :: "nat \<Rightarrow> (nat \<Rightarrow> ARMword) \<Rightarrow> nat \<Rightarrow> ARMword" where
  "upto_len n f i = (if i < n then f i else 0)"

definition clip :: "lpc2300_io_t \<Rightarrow> lpc2300_io_t" where
  "clip l = l\<lparr>vic := (vic l)\<lparr>VectAddr := upto_len 32 (VectAddr (vic l)), VectPrio := upto_len 32 (VectPrio (vic l))\<rparr>,
     FIO := upto_len 160 (FIO l), pinsel := upto_len 11 (pinsel l), pinmode := upto_len 10 (pinmode l)\<rparr>"

lemma upto_len_upd: "k < n \<Longrightarrow> (upto_len n f)(k := v) = upto_len n (f(k := v))"
  by (auto simp: upto_len_def fun_eq_iff)

lemma upto_len_in: "k < n \<Longrightarrow> upto_len n f k = f k"
  by (simp add: upto_len_def)

lemma table_index:
  "addr - 0xfffff100 \<le> 0x7c \<Longrightarrow> word_index addr 0xfffff100 < 32" "addr - 0xfffff200 \<le> 0x7c \<Longrightarrow> word_index addr 0xfffff200 < 32"
  "addr - 0xe002c000 \<le> 0x28 \<Longrightarrow> word_index addr 0xe002c000 < 11" "addr - 0xe002c040 \<le> 0x24 \<Longrightarrow> word_index addr 0xe002c040 < 10"
  using word_index_le [of addr "0xfffff100" 31] word_index_le [of addr "0xfffff200" 31] word_index_le [of addr "0xe002c000" 10]
    word_index_le [of addr "0xe002c040" 9] by (simp_all add: word_le_nat_alt)

lemma gpio_mask_index:
  fixes ofs :: ARMword
  assumes "ofs AND 0x1f \<ge> 0x14" "unat ofs < 160"
  shows "unat (ofs - 4) < 160"
proof -
  have "0x14 \<le> ofs" using assms(1) word_and_le2 [of ofs "0x1f"] by (rule order_trans)
  then show ?thesis using assms(2) by (simp add: word_le_nat_alt unat_sub)
qed

lemma gpio_write_clip:
  assumes "unat ofs < 160"
  shows "gpio_write (upto_len 160 f) ofs data = upto_len 160 (gpio_write f ofs data)"
proof (cases "ofs AND 0x1f \<ge> 0x14")
  case True
  then show ?thesis using assms gpio_mask_index [OF True assms] by (simp add: gpio_write_def Let_def upto_len_upd upto_len_in)
next
  case False
  moreover from False have "\<not> ofs AND 0x1f \<ge> 0x1c" by (simp add: word_le_nat_alt)
  ultimately show ?thesis using assms by (simp add: gpio_write_def Let_def upto_len_upd upto_len_in)
qed

text \<open>
  C35: every index the register decoder computes is inside its array.  For any address, a read of an array register does not
  depend on the entries beyond the bounds (the two vector tables have 32 entries, the GPIO block 160, the pin tables 11 and 10), a write neither
  depends on them, the GPIO mask four entries below included, nor stores into them, and the serial port and the timer that an address
  selects are among the four there are.
\<close>

theorem lpc2300_index_bounds:
  "io_array_read (clip l) addr = io_array_read l addr
   \<and> io_array_write (clip l) addr data = clip (io_array_write l addr data)
   \<and> uart_of_addr addr \<in> insert None (Some ` {..<4}) \<and> timer_of_addr addr \<in> insert None (Some ` {..<4})"
proof (intro conjI)
  note i = table_index [of addr] gpio_ofs_bound [of addr]
  show "io_array_read (clip l) addr = io_array_read l addr"
    using i by (simp add: io_array_read_def clip_def upto_len_in)
  show "io_array_write (clip l) addr data = clip (io_array_write l addr data)"
    using i by (simp add: io_array_write_def clip_def upto_len_upd gpio_write_clip)
  show "uart_of_addr addr \<in> insert None (Some ` {..<4})" "timer_of_addr addr \<in> insert None (Some ` {..<4})"
    by (simp_all add: uart_of_addr_def timer_of_addr_def)
qed

text \<open>The registers that only store a word.\<close>

definition storage_regs :: "ARMword list" where
  "storage_regs = [0xe01fc0c4, 0xfffff00c, 0xfffff024, 0xe01fc080, 0xe01fc084, 0xffe00000, 0xffe00004,
     0xffe00008, 0xffe0000c, 0xe0024008, 0xe0024080, 0xe0024084, 0xe0024020, 0xe0024024, 0xe0024028,
     0xe002402c, 0xe0024030, 0xe0024034, 0xe0024038, 0xe002403c, 0xe01fc000, 0xe01fc004, 0xe01fc1a8, 0xe01fc1ac]"

lemma storage_write_read:
  "list_all (\<lambda>addr. \<exists>l'. io_plain_write l addr data = Some l' \<and> io_plain_read l' addr = Some data) storage_regs"
  by (simp add: storage_regs_def io_plain_write_def io_plain_read_def)

text \<open>
  The storage registers keep what is written: for each of them a read after a
  write gives the written word back.
\<close>

theorem lpc2300_io_write_read:
  assumes "addr \<in> set storage_regs"
  shows "\<exists>t. lpc2300_io_write_word H s addr data = Some t \<and> lpc2300_io_read_word H t addr = Some (data, t)"
proof -
  obtain l' where "io_plain_write (lio s) addr data = Some l'" "io_plain_read l' addr = Some data"
    using assms storage_write_read [of "lio s" data] by (auto simp: list_all_iff)
  then show ?thesis by (simp add: lpc2300_io_write_word_def lpc2300_io_read_word_def)
qed

theorem lpc2300_io_write_read_witness:
  "\<exists>t. lpc2300_io_write_word \<lparr>uart_host_read = (\<lambda>i h. (None, h)), uart_host_write = (\<lambda>i b h. (True, h))\<rparr>
        (lpc_sys_zero ()) 0xe01fc0c4 7 = Some t \<and> pconp (lio t) = 7"
  using lpc2300_io_write_read [of "0xe01fc0c4"
      "\<lparr>uart_host_read = (\<lambda>i h. (None, h)), uart_host_write = (\<lambda>i b h. (True, h))\<rparr>" "lpc_sys_zero ()" 7]
  by (auto simp: storage_regs_def lpc2300_io_read_word_def io_plain_read_def)

text \<open>
  The PLL feed register does not: its case falls through, and a read gives the
  bank configuration register 0, whatever was written.
\<close>

theorem lpc2300_pllfeed_read:
  "\<exists>t. lpc2300_io_write_word H s 0xe01fc08c data = Some t
     \<and> pll_feed (pll (lio t)) = data \<and> lpc2300_io_read_word H t 0xe01fc08c = Some (bcfg (lio s) 0, t)"
  by (simp add: lpc2300_io_write_word_def io_plain_write_def lpc2300_io_read_word_def io_plain_read_def)

end
