(* ===== verification/Lpc_Irq.thy ===== *)
theory Lpc_Irq
  imports Lpc_Io
begin

text \<open>
  How an interrupt gets from a timer of the LPC2300 to the interrupt line of the core, over a
  whole cycle of the peripherals (\<^verbatim>\<open>lpc2300_io_do_cycle\<close>): \<open>irq_on\<close> is kept by every unit once it holds,
  and the unit whose timer is due establishes it.
\<close>

section \<open>From a timer to the interrupt line\<close>

definition irq_on :: "'e lpc_sys \<Rightarrow> bool" where
  "irq_on s \<longleftrightarrow> IntSelect (the_vic s) = 0 \<and> INTSOURCE (the_vic s) AND IntEnable (the_vic s) \<noteq> 0 \<and> nirq s = LOW \<and> nfiq s = HIGH"

definition timer_due :: "nat \<Rightarrow> nat \<Rightarrow> 'e lpc_sys \<Rightarrow> bool" where
  "timer_due i n s \<longleftrightarrow> timer_runs i s \<and> t_pr (the_timer s i) + 1 \<le> t_pc (the_timer s i) + 1
     \<and> t_tc (the_timer s i) + 1 = t_mr (the_timer s i) n \<and> bit (t_mcr (the_timer s i)) (3 * n)
     \<and> IntEnable (the_vic s) AND IRQTIMER i \<noteq> 0 \<and> IntSelect (the_vic s) = 0
     \<and> (RawIntr (the_vic s) OR INTSOURCE (the_vic s) OR SoftInt (the_vic s)) AND IRQTIMER i = 0"

lemma update_int_lines:
  assumes "lpc2300_update_int s = Some t"
  shows "IntSelect (the_vic t) = IntSelect (the_vic s)" "IntEnable (the_vic t) = IntEnable (the_vic s)"
    "INTSOURCE (the_vic t) = INTSOURCE (the_vic s)" "SoftInt (the_vic t) = SoftInt (the_vic s)"
    "RawIntr (the_vic t) = INTSOURCE (the_vic s) OR SoftInt (the_vic s)"
    "IntSelect (the_vic s) = 0 \<Longrightarrow> (INTSOURCE (the_vic s) OR SoftInt (the_vic s)) AND IntEnable (the_vic s) \<noteq> 0 \<Longrightarrow> nirq t = LOW \<and> nfiq t = HIGH"
  using assms by (auto simp: lpc2300_update_int_def vic_status_def Let_def split: option.splits if_splits)

lemma and_or_nonzero: "a AND c \<noteq> 0 \<Longrightarrow> (a OR b) AND c \<noteq> (0 :: ARMword)"
  by (auto simp: bit_eq_iff bit_simps)

lemma irq_on_update:
  assumes "lpc2300_update_int s = Some t" "IntSelect (the_vic s) = 0" "INTSOURCE (the_vic s) AND IntEnable (the_vic s) \<noteq> 0"
  shows "irq_on t"
  using update_int_lines [OF assms(1)] assms(2,3) and_or_nonzero [OF assms(3), of "SoftInt (the_vic s)"] by (simp add: irq_on_def)

lemma irq_on_source: "irq_on s \<Longrightarrow> irq_on (upd_vic (\<lambda>v. v\<lparr>INTSOURCE := INTSOURCE v OR m\<rparr>) s)"
  by (simp add: irq_on_def and_or_nonzero)

lemma irq_on_int: "lpc2300_update_int s = Some t \<Longrightarrow> irq_on s \<Longrightarrow> irq_on t"
  by (erule irq_on_update) (auto simp: irq_on_def)

lemma irq_on_simps [simp]: "irq_on (upd_timer i f s) = irq_on s" "irq_on (upd_uart i g s) = irq_on s" "irq_on (s\<lparr>host := h\<rparr>) = irq_on s"
  by (simp_all add: irq_on_def)

lemma irq_on_match: "timer_match i ntc n s = Some t \<Longrightarrow> irq_on s \<Longrightarrow> irq_on t"
  by (auto simp: timer_match_def Let_def split: if_splits elim!: irq_on_int intro!: irq_on_source)

lemma irq_on_matches: "timer_matches i ntc ns s = Some t \<Longrightarrow> irq_on s \<Longrightarrow> irq_on t"
  by (induction ns arbitrary: s) (auto split: option.splits dest: irq_on_match)

lemma irq_on_timer_cycle: "timer_cycle i s = Some t \<Longrightarrow> irq_on s \<Longrightarrow> irq_on t"
  by (auto simp: timer_cycle_def timer_count_def Let_def split: if_splits elim!: irq_on_matches)


lemma irq_on_uart_cycle:
  assumes "uart_cycle H i s = Some t" "irq_on s"
  shows "irq_on t"
proof -
  have f: "irq_on (snd (lpc2300_uart_transmit H i s))"
    using assms(2) by (simp add: irq_on_def transmit_frame) (auto simp: lpc2300_uart_transmit_def Let_def case_prod_beta)
  show ?thesis using assms f
    by (auto simp: uart_cycle_def Let_def split: if_splits option.splits prod.splits bool.splits elim!: irq_on_int intro!: irq_on_source)
qed

lemma irq_on_each:
  assumes "\<And>i s t. f i s = Some t \<Longrightarrow> irq_on s \<Longrightarrow> irq_on t" "each_unit f is s = Some t" "irq_on s"
  shows "irq_on t"
  using assms(2,3) by (induction "is" arbitrary: s) (auto split: option.splits dest: assms(1))

lemma each_unit_eventually:
  assumes "\<And>j s t. j \<in> A \<Longrightarrow> j \<noteq> i \<Longrightarrow> f j s = Some t \<Longrightarrow> P s \<Longrightarrow> P t" "\<And>s t. f i s = Some t \<Longrightarrow> P s \<Longrightarrow> irq_on t"
    and "\<And>j s t. f j s = Some t \<Longrightarrow> irq_on s \<Longrightarrow> irq_on t" "i \<in> set is" "each_unit f is s = Some t" "P s"
    and "set is \<subseteq> A"
  shows "irq_on t"
  using assms(4-7)
proof (induction "is" arbitrary: s)
  case (Cons j js)
  then obtain u where u: "f j s = Some u" "each_unit f js u = Some t" by (auto split: option.splits)
  show ?case
  proof (cases "j = i")
    case True
    then show ?thesis using irq_on_each [of f, OF _ u(2)] assms(2,3) u(1) Cons.prems(3) by blast
  next
    case False
    then show ?thesis using Cons u assms(1) by auto
  qed
qed simp

lemma IRQTIMER_distinct: "i < 4 \<Longrightarrow> j < 4 \<Longrightarrow> i \<noteq> j \<Longrightarrow> IRQTIMER j AND IRQTIMER i = 0"
  by (rule word32_eqI) (auto simp: IRQTIMER_def bit_simps)

lemma timer_match_raises:
  assumes "timer_match i (t_mr (the_timer s i) n) n s = Some t" "bit (t_mcr (the_timer s i)) (3 * n)"
    and "IntEnable (the_vic s) AND IRQTIMER i \<noteq> 0" "IntSelect (the_vic s) = 0"
  shows "irq_on t"
proof -
  have "(INTSOURCE (the_vic s) OR IRQTIMER i) AND IntEnable (the_vic s) \<noteq> 0"
    using and_or_nonzero [of "IRQTIMER i" "IntEnable (the_vic s)" "INTSOURCE (the_vic s)"] assms(3) by (simp add: or.commute and.commute)
  then show ?thesis using assms unfolding timer_match_def Let_def mcr_bits
    by (auto split: if_splits elim!: irq_on_update)
qed

lemma or_and_zero: "(a OR b) AND m = 0 \<longleftrightarrow> a AND m = 0 \<and> b AND m = (0 :: ARMword)"
  by (auto simp: bit_eq_iff bit_simps)

lemma update_int_all:
  assumes "lpc2300_update_int s = Some t"
  shows "the_timer t = the_timer s \<and> pconp (lio t) = pconp (lio s) \<and> IntSelect (the_vic t) = IntSelect (the_vic s)
    \<and> IntEnable (the_vic t) = IntEnable (the_vic s) \<and> INTSOURCE (the_vic t) = INTSOURCE (the_vic s) \<and> SoftInt (the_vic t) = SoftInt (the_vic s)
    \<and> RawIntr (the_vic t) = INTSOURCE (the_vic s) OR SoftInt (the_vic s)"
  using update_int_frame [OF assms] update_int_lines [OF assms] by blast

lemma timer_match_frame:
  assumes "timer_match i ntc n s = Some t"
  shows "t_mr (the_timer t i) = t_mr (the_timer s i)" "t_mcr (the_timer t i) = t_mcr (the_timer s i)" "j \<noteq> i \<Longrightarrow> the_timer t j = the_timer s j"
    "pconp (lio t) = pconp (lio s)" "IntEnable (the_vic t) = IntEnable (the_vic s)" "IntSelect (the_vic t) = IntSelect (the_vic s)"
    "SoftInt (the_vic t) = SoftInt (the_vic s)" "IRQTIMER i AND m = 0 \<Longrightarrow> (RawIntr (the_vic s) OR INTSOURCE (the_vic s) OR SoftInt (the_vic s)) AND m = 0
      \<Longrightarrow> (RawIntr (the_vic t) OR INTSOURCE (the_vic t) OR SoftInt (the_vic t)) AND m = 0"
  using assms unfolding timer_match_def Let_def
  by (auto split: if_splits dest!: update_int_all simp: comp_def or_and_zero and.commute [of _ "IRQTIMER i"])

lemma timer_matches_raise:
  assumes "timer_matches i ntc ns s = Some t" "n \<in> set ns" "t_mr (the_timer s i) n = ntc" "bit (t_mcr (the_timer s i)) (3 * n)"
    and "IntEnable (the_vic s) AND IRQTIMER i \<noteq> 0" "IntSelect (the_vic s) = 0"
  shows "irq_on t"
  using assms
proof (induction ns arbitrary: s)
  case (Cons m ms)
  then obtain u where u: "timer_match i ntc m s = Some u" "timer_matches i ntc ms u = Some t" by (auto split: option.splits)
  show ?case
  proof (cases "m = n")
    case True
    then have "irq_on u" using timer_match_raises [of i s n u] u(1) Cons.prems by simp
    then show ?thesis by (rule irq_on_matches [OF u(2)])
  next
    case False
    then show ?thesis using Cons.IH [OF u(2)] Cons.prems timer_match_frame [OF u(1)] by simp
  qed
qed simp

lemma due_matches:
  assumes "timer_matches j ntc ns s = Some t" "i < 4" "j < 4" "i \<noteq> j" "timer_due i n s"
  shows "timer_due i n t"
  using assms(1,5)
proof (induction ns arbitrary: s)
  case (Cons m ms)
  then obtain u where u: "timer_match j ntc m s = Some u" "timer_matches j ntc ms u = Some t" by (auto split: option.splits)
  have "timer_due i n u"
    using timer_match_frame(3) [OF u(1) assms(4)] timer_match_frame(4-7) [OF u(1)] timer_match_frame(8) [OF u(1) IRQTIMER_distinct [OF assms(2-4)]] Cons.prems(2)
    by (auto simp: timer_due_def timer_runs_def)
  then show ?case by (rule Cons.IH [OF u(2)])
qed simp

lemma due_cycle:
  assumes "timer_cycle j s = Some t" "i < 4" "j < 4" "i \<noteq> j" "timer_due i n s"
  shows "timer_due i n t"
proof -
  have d: "timer_due i n (upd_timer j f u) = timer_due i n u" for f u using assms(4) by (simp add: timer_due_def timer_runs_def)
  show ?thesis using assms(1,5)
    by (auto simp: timer_cycle_def timer_count_def Let_def d split: if_splits elim!: due_matches [OF _ assms(2-4)])
qed

lemma due_raises:
  assumes "timer_cycle i s = Some t" "timer_due i n s" "n < 4"
  shows "irq_on t"
proof -
  have "RawIntr (the_vic s) AND IRQTIMER i = 0" using assms(2) by (simp add: timer_due_def or_and_zero)
  then show ?thesis
    using assms timer_cycle_tick [of i s] by (auto simp: timer_due_def comp_def intro!: timer_matches_raise)
qed


lemma due_do_cycle:
  assumes "lpc_ok l" "timer_due i n l" "i < 4" "n < 4"
  shows "\<exists>m. lpc2300_io_do_cycle H l = Some m \<and> irq_on m \<and> lpc_ok m"
proof -
  obtain m where m: "lpc2300_io_do_cycle H l = Some m" "lpc_ok m" using keeps_do_cycle [OF assms(1)] by blast
  then obtain u v where u: "each_unit timer_cycle [0..<4] l = Some u" "each_unit (uart_cycle H) [0..<4] u = Some v" "m = uartcnt_step v"
    by (auto simp: lpc2300_io_do_cycle_def bind_eq_Some_conv)
  have "irq_on u"
    by (rule each_unit_eventually [where A = "{..<4}" and P = "timer_due i n", OF _ _ irq_on_timer_cycle _ u(1) assms(2)])
      (use assms in \<open>auto intro: due_raises due_cycle\<close>)
  then have "irq_on v" using irq_on_each [of "uart_cycle H", OF _ u(2)] irq_on_uart_cycle by blast
  then have "irq_on m" by (simp add: u(3) uartcnt_step_def irq_on_def)
  then show ?thesis using m by blast
qed

end
