(* ===== verification/Lpc_Board.thy ===== *)
theory Lpc_Board
  imports Arm_Inv Arm_Io Lpc_Irq
begin

text \<open>
  The LPC2300 board: the peripherals of \<^verbatim>\<open>arch/arm/mach/skyeye_mach_lpc2300.c\<close> put behind the core of
  \<^verbatim>\<open>arch/arm/common/\<close> through \<^verbatim>\<open>armio.c\<close>, as \<^verbatim>\<open>lpc2300_mach_init\<close> does, with the memory management unit and the
  coprocessors the ARM7TDMI has.  The devices of the configuration, the flash chip and the host
  side of the serial ports are parameters; a device is \<open>quiet\<close> when it leaves the status bits of the
  core alone.  The lemmas discharge the interface \<open>psr_env\<close> for the board, and the properties
  follow whole runs from the reset, and an interrupt from a timer to its handler.
\<close>

section \<open>The LPC2300 behind the core\<close>

record 'e lpc_board =
  prescale :: int
  lpc :: "'e lpc_sys"

type_synonym 'e bstate = "'e lpc_board cstate"

definition lpc_of :: "'e bstate \<Rightarrow> 'e lpc_sys" where
  "lpc_of s = (lpc (board (cp_hw_of s)))\<lparr>nirq := NirqSig s, nfiq := NfiqSig s\<rparr>"

definition put_lpc :: "'e bstate \<Rightarrow> 'e lpc_sys \<Rightarrow> 'e bstate" where
  "put_lpc s l = (upd_cp (\<lambda>c. c\<lparr>board := (board c)\<lparr>lpc := l\<rparr>\<rparr>) s)\<lparr>NirqSig := nirq l, NfiqSig := nfiq l\<rparr>"

definition lpc_io_read :: "'e uart_host \<Rightarrow> access_size \<Rightarrow> 'e lpc_sys \<Rightarrow> ARMword \<Rightarrow> (ARMword \<times> 'e lpc_sys) option" where
  "lpc_io_read H z = (case z of Byte \<Rightarrow> lpc2300_io_read_byte H | Halfword \<Rightarrow> lpc2300_io_read_halfword H | Word \<Rightarrow> lpc2300_io_read_word H)"

definition lpc_io_write :: "'e uart_host \<Rightarrow> access_size \<Rightarrow> 'e lpc_sys \<Rightarrow> ARMword \<Rightarrow> ARMword \<Rightarrow> 'e lpc_sys option" where
  "lpc_io_write H z = (case z of Byte \<Rightarrow> lpc2300_io_write_byte H | Halfword \<Rightarrow> lpc2300_io_write_halfword H | Word \<Rightarrow> lpc2300_io_write_word H)"

abbreviation (input) ARM_v4_Prop :: ARMword where "ARM_v4_Prop \<equiv> 0x40"

text \<open>The functions \<open>lpc2300_mach_init\<close> puts into the machine configuration, and what it sets in the core.\<close>

definition lpc2300_config :: "'e uart_host \<Rightarrow> 'e bstate device_desc option list \<Rightarrow> 'e bstate machine_config" where
  "lpc2300_config H devs =
     \<lparr>devices = devs,
      mach_io_reset = Some (\<lambda>s. put_lpc s (lpc2300_io_reset (lpc_of s))),
      mach_io_do_cycle = (\<lambda>s. map_option (put_lpc s) (lpc2300_io_do_cycle H (lpc_of s))),
      mach_io_read = (\<lambda>z s a. map_option (\<lambda>(v, l). (v, put_lpc s l)) (lpc_io_read H z (lpc_of s) a)),
      mach_io_write = (\<lambda>z s a d. map_option (put_lpc s) (lpc_io_write H z (lpc_of s) a d))\<rparr>"

definition lpc2300_mach_init :: "'m ARMul_State \<Rightarrow> 'm ARMul_State" where
  "lpc2300_mach_init s = (ARMul_SelectProcessor s ARM_v4_Prop)\<lparr>lateabtSig := HIGH\<rparr>"

text \<open>The memory bus of the board; \<open>F\<close> holds the functions of a flash device, if one is configured.\<close>

definition board_bus :: "'x bus_ops \<Rightarrow> 'x mstate machine_config \<Rightarrow> 'x bus_ops" where
  "board_bus F C =
     \<lparr>bus_io_read = (\<lambda>z. case z of Byte \<Rightarrow> io_read_byte C | Halfword \<Rightarrow> io_read_halfword C | Word \<Rightarrow> io_read_word C),
      bus_io_write = (\<lambda>z. case z of Byte \<Rightarrow> io_write_byte C | Halfword \<Rightarrow> io_write_halfword C | Word \<Rightarrow> io_write_word C),
      bus_flash_read = bus_flash_read F, bus_flash_write = bus_flash_write F\<rparr>"

definition board_io :: "'e bstate machine_config \<Rightarrow> 'e bstate \<Rightarrow> 'e bstate option" where
  "board_io C s =
     map_option (\<lambda>(p, s). upd_cp (\<lambda>c. c\<lparr>board := (board c)\<lparr>prescale := p\<rparr>\<rparr>) s)
       (io_do_cycle C (prescale (board (cp_hw_of s)), s))"

definition board_env ::
    "bool \<Rightarrow> ARMword \<Rightarrow> 'e lpc_board cp_hw mmu_hw bus_ops \<Rightarrow> 'e bstate machine_config \<Rightarrow> 'e lpc_board cp_hw mmu_hw mem_sys cp_tables \<Rightarrow>
     'e lpc_board cp_hw mmu_hw mem_sys env" where
  "board_env ch junk F C T =
     (let B = board_bus F C in
      \<lparr>env_ch = ch, env_mmu = arm7100_mmu_ops B,
       env_cp = fst (coproc_tables False False False (\<lambda>_. no_unit) (\<lambda>_. no_unit) B T),
       env_event = event_handler, env_io = board_io C, env_junk = junk\<rparr>)"

section \<open>Quiet devices\<close>

definition quiet_device :: "'m ARMul_State device_desc \<Rightarrow> bool" where
  "quiet_device d \<longleftrightarrow> (\<forall>z f a s. dd_read d z = Some f \<longrightarrow> psr_view (snd (f a s)) = psr_view s)
     \<and> (\<forall>z f a v s. dd_write d z = Some f \<longrightarrow> psr_view (snd (f a v s)) = psr_view s)
     \<and> (\<forall>f s. dd_update d = Some f \<longrightarrow> psr_view (f s) = psr_view s)"

definition quiet_devices :: "'m ARMul_State device_desc option list \<Rightarrow> bool" where
  "quiet_devices ds \<longleftrightarrow> (\<forall>d. Some d \<in> set ds \<longrightarrow> quiet_device d)"

definition quiet_flash :: "'x bus_ops \<Rightarrow> bool" where
  "quiet_flash F \<longleftrightarrow> (\<forall>z s a v t. bus_flash_read F z s a = Some (v, t) \<longrightarrow> psr_view t = psr_view s)
     \<and> (\<forall>z s a d t. bus_flash_write F z s a d = Some t \<longrightarrow> psr_view t = psr_view s)"

definition quiet_machine :: "'m ARMul_State machine_config \<Rightarrow> bool" where
  "quiet_machine C \<longleftrightarrow> (\<forall>z s a v t. mach_io_read C z s a = Some (v, t) \<longrightarrow> psr_view t = psr_view s)
     \<and> (\<forall>z s a d t. mach_io_write C z s a d = Some t \<longrightarrow> psr_view t = psr_view s)
     \<and> (\<forall>s t. mach_io_do_cycle C s = Some t \<longrightarrow> psr_view t = psr_view s)"

text \<open>The handlers of the tables keep the invariant.\<close>

definition quiet_cp :: "'m cp_ops \<Rightarrow> nat \<Rightarrow> bool" where
  "quiet_cp C n \<longleftrightarrow> (\<forall>X s t i d. psr_ok X s \<longrightarrow>
     keeps2 X (LDC C n t i d s) \<and> keeps3 X (STC C n t i d s) \<and> keeps3 X (MRC C n t i d s)
     \<and> keeps2 X (MCR C n t i d s) \<and> keeps2 X (CDP C n t i s))"

definition quiet_unit :: "'m cp_unit \<Rightarrow> bool" where
  "quiet_unit u \<longleftrightarrow> (\<forall>X s t i d. psr_ok X s \<longrightarrow>
     (\<forall>f. u_ldc u = Some f \<longrightarrow> keeps2 X (f t i d s)) \<and> (\<forall>f. u_stc u = Some f \<longrightarrow> keeps3 X (f t i d s))
     \<and> (\<forall>f. u_mrc u = Some f \<longrightarrow> keeps3 X (f t i d s)) \<and> (\<forall>f. u_mcr u = Some f \<longrightarrow> keeps2 X (f t i d s))
     \<and> (\<forall>f. u_cdp u = Some f \<longrightarrow> keeps2 X (f t i s)))"

definition no_flash :: "'x bus_ops" where
  "no_flash = \<lparr>bus_io_read = (\<lambda>_ _ _. None), bus_io_write = (\<lambda>_ _ _ _. None), bus_flash_read = (\<lambda>_ _ _. None), bus_flash_write = (\<lambda>_ _ _ _. None)\<rparr>"

section \<open>Runs\<close>

text \<open>The states and pipelines the loop gets to.\<close>

inductive reaches :: "'m env \<Rightarrow> pipe \<Rightarrow> 'm ARMul_State \<Rightarrow> pipe \<Rightarrow> 'm ARMul_State \<Rightarrow> bool" for E p s where
  start: "reaches E p s p s"
| round: "reaches E p s q t \<Longrightarrow> emulate_round E q t = Some (go, r, u) \<Longrightarrow> reaches E p s r u"

section \<open>The board keeps the status bits\<close>

lemma cp_view [simp]: "psr_view (upd_cp f s) = psr_view s" "psr_ok X (upd_cp f s) = psr_ok X s"
  by (simp_all add: upd_cp_def)

lemma lpc_view [simp]: "psr_view (put_lpc s l) = psr_view s"
  by (simp add: put_lpc_def)

lemma quiet_read: "quiet_devices ds \<Longrightarrow> psr_view (snd (dev_read z a ds s)) = psr_view s"
proof (induction z a ds s rule: dev_read.induct)
  case (3 z a d ds s)
  then have q: "quiet_devices ds" "quiet_device d" by (auto simp: quiet_devices_def)
  show ?case
  proof (cases "dd_read d z")
    case None then show ?thesis using 3 q by simp
  next
    case (Some f)
    obtain r t where f: "f a s = (r, t)" by fastforce
    then have "psr_view t = psr_view s" using q(2) Some by (metis quiet_device_def snd_conv)
    then show ?thesis using 3 q Some f by (auto split: option.splits)
  qed
qed (auto simp: quiet_devices_def)

lemma quiet_write: "quiet_devices ds \<Longrightarrow> psr_view (snd (dev_write z a d ds s)) = psr_view s"
proof (induction z a d ds s rule: dev_write.induct)
  case (3 z a v d ds s)
  then have q: "quiet_devices ds" "quiet_device d" by (auto simp: quiet_devices_def)
  show ?case
  proof (cases "dd_write d z")
    case None then show ?thesis using 3 q by simp
  next
    case (Some f)
    obtain r t where f: "f a (v AND size_mask z) s = (r, t)" by fastforce
    then have "psr_view t = psr_view s" using q(2) Some by (metis quiet_device_def snd_conv)
    then show ?thesis using 3 q Some f by (auto split: bool.splits)
  qed
qed (auto simp: quiet_devices_def)

lemma quiet_update: "quiet_devices ds \<Longrightarrow> each_device dd_update ds s = Some t \<Longrightarrow> psr_view t = psr_view s"
proof (induction ds arbitrary: s)
  case (Cons x ds)
  then obtain d where d: "x = Some d" by (cases x) simp_all
  with Cons.prems have "quiet_devices ds" "psr_view (case dd_update d of None \<Rightarrow> s | Some f \<Rightarrow> f s) = psr_view s"
    by (auto simp: quiet_devices_def quiet_device_def split: option.splits)
  then show ?case using Cons d by simp
qed simp

lemma bus_quiet:
  assumes "quiet_devices (devices C)" "quiet_machine C" "quiet_flash F"
  shows "psr_bus (board_bus F C)"
proof -
  have r: "psr_view t = psr_view s" if "io_read_sz C z s a = Some (v, t)" for z a v s t
    using that quiet_read [OF assms(1), of z a s] assms(2) unfolding io_read_sz_def quiet_machine_def by (auto split: prod.splits option.splits)
  have w: "psr_view t = psr_view s" if "io_write_sz C z s a d = Some t" for z a d s t
    using that quiet_write [OF assms(1), of z a d s] assms(2) unfolding io_write_sz_def quiet_machine_def by (auto split: prod.splits bool.splits)
  show ?thesis
    by unfold_locales
      (use assms(3) in \<open>auto simp: board_bus_def quiet_flash_def io_read_byte_def io_read_halfword_def io_read_word_def
         io_write_byte_def io_write_halfword_def io_write_word_def split: access_size.splits dest: r w\<close>)
qed

lemma cycle_quiet:
  assumes "quiet_devices (devices C)" "quiet_machine C" "io_do_cycle C (p, s) = Some (q, t)"
  shows "psr_view t = psr_view s"
  using assms(3) quiet_update [OF assms(1), of s] assms(2) unfolding io_do_cycle_def quiet_machine_def
  by (auto simp: Let_def bind_eq_Some_conv split: if_splits)

lemma lpc_quiet: "quiet_machine (lpc2300_config H devs)"
  by (auto simp: quiet_machine_def lpc2300_config_def)

lemma board_bus_quiet:
  assumes "quiet_devices devs" "quiet_flash F"
  shows "psr_hw_bus (board_bus F (lpc2300_config H devs))"
  unfolding psr_hw_bus_def by (rule bus_quiet [OF _ lpc_quiet assms(2)]) (use assms(1) in \<open>simp add: lpc2300_config_def\<close>)

lemma install_simps [simp]: "install n None t = t" "install n (Some g) t = t(n := g)"
  by (simp_all add: install_def)

lemma install_cases: "install k f t n = t n \<or> f = Some (install k f t n)"
  by (cases f) (simp_all add: install_def)

lemma attach_tables:
  fixes T :: "'m cp_tables" and k u
  defines "C \<equiv> fst (ARMul_CoProAttach k u T)"
  shows "LDC C n = LDC (fst T) n \<or> u_ldc u = Some (LDC C n)" "STC C n = STC (fst T) n \<or> u_stc u = Some (STC C n)"
    "MRC C n = MRC (fst T) n \<or> u_mrc u = Some (MRC C n)" "MCR C n = MCR (fst T) n \<or> u_mcr u = Some (MCR C n)"
    "CDP C n = CDP (fst T) n \<or> u_cdp u = Some (CDP C n)"
  by (simp_all add: C_def ARMul_CoProAttach_def case_prod_beta install_cases)

lemma quiet_attach:
  assumes "quiet_unit u" "quiet_cp (fst T) n"
  shows "quiet_cp (fst (ARMul_CoProAttach k u T)) n"
  using assms attach_tables [of k u T n] unfolding quiet_cp_def quiet_unit_def by (intro allI impI conjI; metis)

lemma quiet_detach: "n = k \<or> quiet_cp (fst T) n \<Longrightarrow> quiet_cp (fst (ARMul_CoProDetach k T)) n"
  by (cases "n = k") (auto simp: quiet_cp_def ARMul_CoProDetach_def ARMul_CoProAttach_def Let_def NoCoPro3R_def NoCoPro4R_def NoCoPro4W_def
      split: prod.splits)

lemma quiet_detach_all: "n < m \<Longrightarrow> quiet_cp (fst (fold ARMul_CoProDetach [0..<m] T)) n"
proof (induction m)
  case (Suc m)
  then show ?case using quiet_detach [of n m] by (cases "n = m") simp_all
qed simp

lemma psr_schedule [psr]: "psr_ok X s \<Longrightarrow> psr_ok X (ARMul_ScheduleEvent s d f)"
  by (simp add: ARMul_ScheduleEvent_def Let_def)

lemma quiet_handlers:
  "quiet_unit (no_unit\<lparr>u_mrc := Some ValMRC, u_mcr := Some ValMCR, u_cdp := Some IntCDP\<rparr>)"
  "quiet_unit (no_unit\<lparr>u_ldc := Some ValLDC, u_stc := Some ValSTC, u_mrc := Some ValMRC, u_mcr := Some ValMCR, u_cdp := Some ValCDP\<rparr>)"
  "quiet_unit (no_unit\<lparr>u_mrc := Some ValMRC, u_mcr := Some ValMCR\<rparr>)"
  "quiet_unit (no_unit\<lparr>u_ldc := Some ValLDC, u_stc := Some ValSTC\<rparr>)"
  by (simp_all add: quiet_unit_def no_unit_def ValMRC_def ValMCR_def IntCDP_def ValLDC_def ValSTC_def ValCDP_def psr Let_def)


lemma psr_view_keeps: "(\<And>t. r = Some t \<Longrightarrow> psr_view t = psr_view s) \<Longrightarrow> psr_ok X s \<Longrightarrow> keeps X r"
  by (cases r) (auto elim: psr_view_ok [rotated])

lemma quiet_tables:
  assumes "psr_hw_bus B" "n < 16"
  shows "quiet_cp (fst (coproc_tables False False False D X B T)) n"
proof -
  have "keeps2 Y (MMUMCR B t i d s)" if "psr_ok Y s" for Y t i d s
    using psr_view_keeps [where r = "a71_mmu_mcr B s i d", OF psr_hw_bus.a71_mcr_view [OF assms(1)] that] by (auto simp: MMUMCR_def option.pred_map comp_def)
  then have m: "quiet_unit (no_unit\<lparr>u_init := Some MMUInit, u_mrc := Some MMUMRC, u_mcr := Some (MMUMCR B)\<rparr>)"
    by (simp add: quiet_unit_def no_unit_def MMUMRC_def)
  show ?thesis unfolding coproc_tables_def Let_def if_False
    by (intro quiet_attach quiet_handlers m quiet_detach_all assms(2))
qed

lemma board_io_quiet:
  assumes "quiet_devices devs" "board_io (lpc2300_config H devs) s = Some t"
  shows "psr_view t = psr_view s"
proof -
  obtain p u where u: "io_do_cycle (lpc2300_config H devs) (prescale (board (cp_hw_of s)), s) = Some (p, u)"
      "t = upd_cp (\<lambda>c. c\<lparr>board := (board c)\<lparr>prescale := p\<rparr>\<rparr>) u"
    using assms(2) by (auto simp: board_io_def)
  have "psr_view u = psr_view s" by (rule cycle_quiet [OF _ lpc_quiet u(1)]) (use assms(1) in \<open>simp add: lpc2300_config_def\<close>)
  then show ?thesis using u(2) by simp
qed

lemma board_psr_env:
  assumes "quiet_devices devs" "quiet_flash F"
  shows "psr_env (board_env ch junk F (lpc2300_config H devs) T)"
proof -
  have b: "psr_hw_bus (board_bus F (lpc2300_config H devs))" by (rule board_bus_quiet [OF assms])
  then have m: "psr_memory (arm7100_mmu_ops (board_bus F (lpc2300_config H devs)))" by (rule psr_hw_bus.core_memory)
  have c: "quiet_cp (env_cp (board_env ch junk F (lpc2300_config H devs) T)) n" if "n < 16" for n
    using quiet_tables [OF b that] by (simp add: board_env_def Let_def)
  have e: "psr_ok X (event_handler f s)" if "psr_ok X s" for X f and s :: "'a bstate"
    using that by (simp add: event_handler_def DoAFIQ_def DoAIRQ_def)
  show ?thesis
    by unfold_locales
      (use m c e psr_view_keeps [OF board_io_quiet [OF assms(1)]] in \<open>simp_all add: psr_memory_def board_env_def Let_def quiet_cp_def\<close>)
qed

lemma quiet_none: "quiet_devices []" "quiet_flash no_flash"
  by (simp_all add: quiet_devices_def quiet_flash_def no_flash_def)

interpretation lpc_bus: psr_hw_bus "board_bus no_flash (lpc2300_config H [])" for H
  by (rule board_bus_quiet [OF quiet_none])

interpretation lpc_core: psr_env "board_env ch junk no_flash (lpc2300_config H []) T" for ch junk H T
  by (rule board_psr_env [OF quiet_none])

context psr_env
begin

lemma reaches_ok:
  assumes "reaches E p s q t" "psr_ok X s" "ABORTMODES \<subseteq> X"
  shows "psr_ok X t"
  using assms(1)
proof induction
  case start then show ?case using assms(2) .
next
  case (round q t go r u)
  then show ?case using keeps_round [OF round.IH assms(3), of q] by simp
qed

end

section \<open>Reset\<close>

lemma psr_reset:
  assumes "ARMul_Reset mr me s = Some t" "\<And>u v. mr u = Some v \<Longrightarrow> mach u = mach s \<Longrightarrow> psr_view v = psr_view u"
    "\<And>u v. me u = Some v \<Longrightarrow> psr_view v = psr_view u"
  shows "psr_ok X t"
proof -
  define s1 where "s1 = (if prog32Sig s \<noteq> 0
      then (set_reg 15 0 (s\<lparr>NextInstr := 0\<rparr>))\<lparr>Cpsr := INTBITS OR SVC32MODE, Mode := SVC32MODE\<rparr>
      else (set_reg 15 (R15INTBITS OR SVC26MODE) (s\<lparr>NextInstr := 0\<rparr>))\<lparr>Cpsr := INTBITS OR SVC26MODE, Mode := SVC26MODE\<rparr>)"
  let ?t = "ARMul_CPSRAltered s1"
  have m: "Mode ?t = (if prog32Sig s \<noteq> 0 then SVC32MODE else SVC26MODE)"
    by (simp add: CPSRAltered_conv s1_def psr_mask_def set_reg_def)
  have "flags_ok ?t" by (simp add: CPSRAltered_conv assign_flags_ok and_mask_le)
  then have "psr_ok X (?t\<lparr>Bank := SVCBANK\<rparr>)"
    using m unfolding psr_ok_def bank_ok_def flags_ok_def by (simp add: ModeToBank_def bankofmode_def)
  then have o: "psr_ok X (FLUSHPIPE (?t\<lparr>Bank := SVCBANK\<rparr>))" by (simp only: psr_set_reg)
  have "mach (FLUSHPIPE (?t\<lparr>Bank := SVCBANK\<rparr>)) = mach s"
    by (simp add: FLUSHPIPE_def s1_def set_reg_def CPSRAltered_conv assign_flags_def fix_r15_def)
  then obtain u y z where u: "mr u = Some y" "me y = Some z" "t = z\<lparr>tea_break_ok := 0, tea_break_addr := 0, tea_pc := 0\<rparr>" "mach u = mach s"
      "psr_view u = psr_view (FLUSHPIPE (?t\<lparr>Bank := SVCBANK\<rparr>))"
    using assms(1) unfolding ARMul_Reset_def Let_def s1_def [symmetric] by (auto simp: bind_eq_Some_conv psr_view_def s1_def)
  have "psr_view t = psr_view (FLUSHPIPE (?t\<lparr>Bank := SVCBANK\<rparr>))"
    using assms(2) [OF u(1,4)] assms(3) [OF u(2)] u(3,5) by (simp add: psr_view_def)
  then show ?thesis using o by (rule psr_view_ok)
qed

lemma mmu_reset_view:
  assumes "mmu_reset fl fe oi s = Some t" "mmu_kind_of (cpu_val (iosys (mach s)) AND cpu_mask (iosys (mach s))) = Some arm7100_mmu"
  shows "psr_view t = psr_view s"
  using assms by (auto simp: mmu_reset_def mmu_init_def mmu_regs_init_def a71_mmu_init_def set_tlb_def set_cache_def Let_def)

lemma mem_reset_view:
  assumes "mem_reset os s = Some t"
  shows "psr_view t = psr_view s"
proof -
  have b: "psr_view t = psr_view s" if "mem_reset_bank os i s = Some t" for i t and s :: "'a mstate"
    using that by (auto simp: mem_reset_bank_def Let_def split: if_splits option.splits)
  have "psr_view t = psr_view s" if "mem_reset_loop os is s = Some t" for "is" t and s :: "'a mstate"
    using that by (induction "is" arbitrary: s) (auto split: option.splits dest: b)
  then show ?thesis using assms by (simp add: mem_reset_def)
qed

section \<open>Properties\<close>

text \<open>
  C1: type safety of a run.  After a reset of an LPC2300 board, through any number of rounds of
  the emulation loop with the board's memory, peripherals and coprocessors, the condition
  flags, the T and S flags are single bits, the interrupt mask two bits, the mode five bits, and the
  register bank in use is the bank of the mode; the one exception is the user bank in the
  modes a data abort enters, SVC26 and ABORT32, where an aborted STM of the user registers leaves it.
\<close>

theorem run_type_safe:
  assumes "ARMul_Reset (mmu_reset lines entries other) (mem_reset os) s = Some s0"
    and "mmu_kind_of (cpu_val (iosys (mach s)) AND cpu_mask (iosys (mach s))) = Some arm7100_mmu"
    and "quiet_devices devs" "quiet_flash F"
    and "reaches (board_env ch junk F (lpc2300_config H devs) T) p s0 q t"
  shows "flags_ok t \<and> (Bank t = ModeToBank (Mode t) \<or> Bank t = USERBANK \<and> Mode t \<in> {SVC26MODE, ABORT32MODE})"
proof -
  have "psr_ok ABORTMODES s0"
    by (rule psr_reset [OF assms(1)]) (use assms(2) in \<open>auto intro: mmu_reset_view mem_reset_view\<close>)
  then have "psr_ok ABORTMODES t"
    using psr_env.reaches_ok [OF board_psr_env [OF assms(3,4)] assms(5)] by blast
  then show ?thesis by (auto simp: psr_ok_def bank_ok_def)
qed

text \<open>
  C4: one instruction of any kind but the STM of the user registers keeps the
  rule that the bank in use is the bank of the mode, and the flags in range, whatever it does:
  exceptions, mode changes, loads of the CPSR, coprocessor transfers and undefined instructions included.
\<close>

theorem execute_keeps_bank:
  assumes "quiet_devices devs" "quiet_flash F" "bank_ok s" "flags_ok s" "\<not> stm_user instr"
    and "execute (board_env ch junk F (lpc2300_config H devs) T) pc instr s = Some t"
  shows "bank_ok t \<and> flags_ok t"
proof -
  have "psr_ok {} s" using assms(3,4) by (simp add: psr_ok_def)
  then have "psr_ok {} t"
    using psr_env.keeps_execute [OF board_psr_env [OF assms(1,2), of ch junk H T], of "{}" s instr pc] assms(5,6) by simp
  then show ?thesis by (simp add: psr_ok_def)
qed


section \<open>A small board\<close>

definition ex_host :: "unit uart_host" where
  "ex_host = \<lparr>uart_host_read = (\<lambda>_ e. (None, e)), uart_host_write = (\<lambda>_ _ e. (True, e))\<rparr>"

definition ex_board_mem :: "unit lpc_board cp_hw mmu_hw mem_sys" where
  "ex_board_mem = \<lparr>current_num = 1,
     mem_banks = [\<lparr>mb_addr = 0, mb_len = 16, mb_read = real_read, mb_write = real_write, mb_filename = [], mb_type = MEMTYPE_RAM\<rparr>,
       \<lparr>mb_addr = 0, mb_len = 0, mb_read = null_read, mb_write = null_write, mb_filename = [], mb_type = MEMTYPE_IO\<rparr>],
     mbp = None, global_mbp = None, rom = (\<lambda>_ _. 0), rom_size = (\<lambda>_. 0),
     iosys = \<lparr>a71_cache = a71_cache ex_hw, a71_tlb = a71_tlb ex_hw, cpu_arch_name = ''armv4'', cpu_val = 0x41007700, cpu_mask = 0xfffffff0,
       dev = \<lparr>MMUReg = (\<lambda>_. 0), ValReg = (\<lambda>_. 0), ldc_words = 0, stc_words = 0, val_finish = 0, int_finish = 0,
         board = \<lparr>prescale = 10, lpc = lpc_sys_zero ()\<rparr>\<rparr>\<rparr>\<rparr>"

definition ex_board :: "unit bstate" where
  "ex_board = lpc2300_mach_init (ARMul_NewState ex_board_mem)"

definition ex_os_ram :: os_env where
  "ex_os_ram = \<lparr>os_malloc = (\<lambda>_ _. Some (\<lambda>k. if k mod 4 = 0 then 1 else 0)), os_fopen = (\<lambda>_. None)\<rparr>"

definition ex_reset :: "unit bstate option" where
  "ex_reset = ARMul_Reset (mmu_reset (\<lambda>_ _. undefined) (\<lambda>_. undefined) (\<lambda>_ s. s)) (mem_reset ex_os_ram) ex_board"

abbreviation (input) ex_env :: "unit lpc_board cp_hw mmu_hw mem_sys env" where
  "ex_env \<equiv> board_env False 0 no_flash (lpc2300_config ex_host []) undefined"

definition ex_run :: "(bool \<times> pipe \<times> unit bstate) option" where
  "ex_run = Option.bind ex_reset (emulate_round ex_env \<lparr>p_pc = 0, p_decoded = 0, p_loaded = 0\<rparr>)"



lemma ex_run_ok: "map_option (\<lambda>(g,p,s). (g, p_pc p, Mode s, NextInstr s, Reg s 15)) ex_run = Some (True, 0, 19, 0, 8)"
  by code_simp

theorem run_type_safe_witness:
  "\<exists>s0 q t. ex_reset = Some s0 \<and> reaches ex_env \<lparr>p_pc = 0, p_decoded = 0, p_loaded = 0\<rparr> s0 q t \<and> Reg t 15 = 8
     \<and> flags_ok t \<and> (Bank t = ModeToBank (Mode t) \<or> Bank t = USERBANK \<and> Mode t \<in> {SVC26MODE, ABORT32MODE})"
proof -
  let ?p = "\<lparr>p_pc = 0, p_decoded = 0, p_loaded = 0\<rparr>"
  obtain s0 q t where r: "ex_reset = Some s0" "emulate_round ex_env ?p s0 = Some (True, q, t)" "Reg t 15 = 8"
    using ex_run_ok by (auto simp: ex_run_def bind_eq_Some_conv)
  have "reaches ex_env ?p s0 q t" using reaches.round [OF reaches.start r(2)] .
  moreover have "mmu_kind_of (cpu_val (iosys (mach ex_board)) AND cpu_mask (iosys (mach ex_board))) = Some arm7100_mmu" by code_simp
  ultimately show ?thesis using r run_type_safe [OF r(1) [unfolded ex_reset_def] _ quiet_none] by blast
qed

lemma ex_board_ok: "bank_ok ex_board" "flags_ok ex_board"
  by code_simp+

theorem execute_keeps_bank_witness:
  "\<exists>t. execute ex_env 0 0xef000000 ex_board = Some t \<and> Mode t = SVC32MODE \<and> bank_ok t \<and> flags_ok t"
proof -
  have n: "\<not> stm_user 0xef000000" by code_simp
  have "map_option Mode (execute ex_env 0 0xef000000 ex_board) = Some SVC32MODE" by code_simp
  then obtain t where t: "execute ex_env 0 0xef000000 ex_board = Some t" "Mode t = SVC32MODE" by auto
  then show ?thesis using execute_keeps_bank [OF quiet_none ex_board_ok n t(1)] by blast
qed


end
