(* ===== verification/Arm_Wb.thy ===== *)
theory Arm_Wb
  imports Arm_Virt
begin

text \<open>
  The write buffer and the read buffer of the cores with separate caches
  (\<^verbatim>\<open>arch/arm/common/mmu/wb.c\<close>, \<^verbatim>\<open>rb.c\<close>).  The write buffer is a ring of entries of up to \<open>nb\<close> bytes; the lemmas
  relate it to a queue of byte stores that memory has not seen yet.
\<close>


section \<open>The write buffer\<close>

text \<open>
  The bytes of an entry are a block of \<open>nb\<close> bytes from \<open>malloc\<close>; its field \<open>nb\<close> says how many are
  in use.  The counters are never negative.
\<close>

record wb_entry_t =
  we_pa :: ARMword
  we_data :: "nat \<Rightarrow> ARMbyte"
  we_nb :: nat

record wb_t =
  wb_num :: nat
  wb_nb :: nat
  wb_first :: nat
  wb_last :: nat
  wb_used :: nat
  wb_entrys :: "wb_entry_t list"

definition mmu_wb_init :: "nat \<Rightarrow> nat \<Rightarrow> (nat \<Rightarrow> wb_entry_t) \<Rightarrow> wb_t" where
  "mmu_wb_init num nb fresh =
     \<lparr>wb_num = num, wb_nb = nb, wb_first = 0, wb_last = 0, wb_used = 0, wb_entrys = map fresh [0..<num]\<rparr>"

fun write_bytes :: "'x bus_ops \<Rightarrow> 'x mstate \<Rightarrow> ARMword \<Rightarrow> ARMbyte list \<Rightarrow> 'x mstate option" where
  "write_bytes B s t [] = Some s"
| "write_bytes B s t (d # ds) =
     (case mem_write_byte B s t (ucast d) of None \<Rightarrow> None | Some s \<Rightarrow> write_bytes B s (t + 1) ds)"

definition we_bytes :: "wb_entry_t \<Rightarrow> ARMbyte list" where
  "we_bytes e = map (we_data e) [0..<we_nb e]"

text \<open>Cleaning the last entry, the same code in both loops.\<close>

definition wb_clean_last :: "'x bus_ops \<Rightarrow> 'x mstate \<Rightarrow> wb_t \<Rightarrow> ('x mstate \<times> wb_t) option" where
  "wb_clean_last B s wb =
     (let e = wb_entrys wb ! wb_last wb in
      map_option (\<lambda>s. (s, wb\<lparr>wb_last := (if wb_last wb + 1 = wb_num wb then 0 else wb_last wb + 1),
                             wb_used := wb_used wb - 1\<rparr>))
        (write_bytes B s (we_pa e) (we_bytes e)))"

definition wb_put :: "ARMword \<Rightarrow> ARMbyte list \<Rightarrow> wb_t \<Rightarrow> wb_t" where
  "wb_put pa ds wb =
     wb\<lparr>wb_entrys := (wb_entrys wb)[wb_first wb := (wb_entrys wb ! wb_first wb)
          \<lparr>we_pa := pa, we_nb := length ds,
           we_data := (\<lambda>k. if k < length ds then ds ! k else we_data (wb_entrys wb ! wb_first wb) k)\<rparr>],
        wb_first := (if wb_first wb + 1 = wb_num wb then 0 else wb_first wb + 1),
        wb_used := wb_used wb + 1\<rparr>"

text \<open>The loop \<open>while (n)\<close>; it does not end when entries hold no bytes.  The call of \<open>tb_setdirty\<close> after it is compiled for the dynamic translator only.\<close>

partial_function (option) mmu_wb_write_bytes ::
    "'x bus_ops \<Rightarrow> 'x mstate \<Rightarrow> wb_t \<Rightarrow> ARMword \<Rightarrow> ARMbyte list \<Rightarrow> ('x mstate \<times> wb_t) option" where
  "mmu_wb_write_bytes B s wb pa ds =
     (if ds = [] then Some (s, wb)
      else Option.bind (if wb_num wb = wb_used wb then wb_clean_last B s wb else Some (s, wb)) (\<lambda>(s, wb).
        let i = (if length ds < wb_nb wb then length ds else wb_nb wb)
        in mmu_wb_write_bytes B s (wb_put pa (take i ds) wb) (pa + of_nat i) (drop i ds)))"

declare mmu_wb_write_bytes.simps [code]

text \<open>The loop \<open>while (wb_t->used)\<close>, each turn of which takes one off the counter.\<close>

fun wb_drain :: "nat \<Rightarrow> 'x bus_ops \<Rightarrow> 'x mstate \<Rightarrow> wb_t \<Rightarrow> ('x mstate \<times> wb_t) option" where
  "wb_drain 0 B s wb = Some (s, wb)"
| "wb_drain (Suc n) B s wb = (case wb_clean_last B s wb of None \<Rightarrow> None | Some (s, wb) \<Rightarrow> wb_drain n B s wb)"

definition mmu_wb_drain_all :: "'x bus_ops \<Rightarrow> 'x mstate \<Rightarrow> wb_t \<Rightarrow> ('x mstate \<times> wb_t) option" where
  "mmu_wb_drain_all B s wb = wb_drain (wb_used wb) B s wb"

section \<open>The read buffer\<close>

fun rb_masks :: "nat \<Rightarrow> ARMword" where
  "rb_masks 0 = 0" | "rb_masks (Suc 0) = 4" | "rb_masks (Suc (Suc 0)) = 16" | "rb_masks _ = 32"

record rb_entry_t =
  re_data :: "nat \<Rightarrow> ARMword"
  re_va :: ARMword
  re_type :: nat
  re_fault :: fault_t

type_synonym rb_t = "rb_entry_t list"

definition mmu_rb_init :: "nat \<Rightarrow> (nat \<Rightarrow> rb_entry_t) \<Rightarrow> rb_t" where
  "mmu_rb_init num fresh = map (\<lambda>i. (fresh i)\<lparr>re_type := 0, re_fault := NO_FAULT\<rparr>) [0..<num]"

definition rb_hit :: "ARMword \<Rightarrow> rb_entry_t \<Rightarrow> bool" where
  "rb_hit va e \<longleftrightarrow> re_type e \<noteq> 0 \<and> va \<ge> re_va e \<and> va < re_va e + rb_masks (re_type e)"

definition mmu_rb_search :: "rb_t \<Rightarrow> ARMword \<Rightarrow> rb_entry_t option" where
  "mmu_rb_search rb va = find (rb_hit va) rb"

definition mmu_rb_invalidate_entry :: "rb_t \<Rightarrow> nat \<Rightarrow> rb_t" where
  "mmu_rb_invalidate_entry rb i = rb[i := (rb ! i)\<lparr>re_type := 0\<rparr>]"

definition mmu_rb_invalidate_all :: "rb_t \<Rightarrow> rb_t" where
  "mmu_rb_invalidate_all rb = fold (\<lambda>i rb. mmu_rb_invalidate_entry rb i) [0..<length rb] rb"

text \<open>The entries that meet the range \<open>[va, va + rb_masks type)\<close> are dropped.\<close>

definition rb_drop_overlap :: "nat \<Rightarrow> ARMword \<Rightarrow> rb_entry_t \<Rightarrow> rb_entry_t" where
  "rb_drop_overlap type va e =
     (if re_type e \<noteq> 0 then
        (let max_start = max va (re_va e);
             min_end = min (va + rb_masks type) (re_va e + rb_masks (re_type e))
         in if max_start < min_end then e\<lparr>re_type := 0\<rparr> else e)
      else e)"

definition mmu_rb_load :: "'x bus_ops \<Rightarrow> 'x mstate \<Rightarrow> rb_t \<Rightarrow> tlb_t \<Rightarrow> nat \<Rightarrow> nat \<Rightarrow> ARMword \<Rightarrow> ('x mstate \<times> rb_t \<times> tlb_t) option" where
  "mmu_rb_load B s rb tlb i_rb type va =
     (let va = va AND NOT (rb_masks type - 1);
          rb = map (rb_drop_overlap type va) rb;
          rb = rb[i_rb := (rb ! i_rb)\<lparr>re_type := type\<rparr>];
          set_fault = (\<lambda>f. rb[i_rb := (rb ! i_rb)\<lparr>re_fault := f\<rparr>]) in
      case translate B s va tlb of
        None \<Rightarrow> None
      | Some (Inl f, s, tlb) \<Rightarrow> Some (s, set_fault f, tlb)
      | Some (Inr i, s, tlb) \<Rightarrow>
         (case check_access s va (tlb_entrys tlb ! i) True of
            None \<Rightarrow> None
          | Some (f, s) \<Rightarrow>
              if f \<noteq> NO_FAULT then Some (s, set_fault f, tlb)
              else map_option (\<lambda>(ds, s). (s, rb[i_rb := (rb ! i_rb)\<lparr>re_fault := NO_FAULT,
                       re_data := (\<lambda>k. if k < length ds then ds ! k else re_data (rb ! i_rb) k)\<rparr>], tlb))
                     (read_words B s (tlb_va_to_pa (tlb_entrys tlb ! i) va) (unat (rb_masks type div 4)))))"

section \<open>What the write buffer holds\<close>

text \<open>
  Abstractly the buffer is a queue of byte stores that memory has not seen yet, the oldest first.
\<close>

definition bytes_at :: "ARMword \<Rightarrow> ARMbyte list \<Rightarrow> (ARMword \<times> ARMword) list" where
  "bytes_at pa ds = map (\<lambda>k. (pa + of_nat k, ucast (ds ! k))) [0..<length ds]"

definition wb_slot :: "wb_t \<Rightarrow> nat \<Rightarrow> (ARMword \<times> ARMword) list" where
  "wb_slot wb k = bytes_at (we_pa (wb_entrys wb ! k)) (we_bytes (wb_entrys wb ! k))"

definition wb_stores :: "wb_t \<Rightarrow> (ARMword \<times> ARMword) list" where
  "wb_stores wb = concat (map (\<lambda>k. wb_slot wb ((wb_last wb + k) mod wb_num wb)) [0..<wb_used wb])"

definition wb_ok :: "wb_t \<Rightarrow> bool" where
  "wb_ok wb \<longleftrightarrow> 0 < wb_nb wb \<and> wb_used wb \<le> wb_num wb \<and> wb_last wb < wb_num wb
     \<and> wb_first wb = (wb_last wb + wb_used wb) mod wb_num wb \<and> length (wb_entrys wb) = wb_num wb"

definition wb_next :: "wb_t \<Rightarrow> wb_t" where
  "wb_next wb = wb\<lparr>wb_last := (wb_last wb + 1) mod wb_num wb, wb_used := wb_used wb - 1\<rparr>"

abbreviation mem_stores :: "'x bus_ops \<Rightarrow> (ARMword \<times> ARMword) list \<Rightarrow> 'x mstate \<Rightarrow> 'x mstate option" where
  "mem_stores B \<equiv> store_seq (mem_write_byte B)"

lemma store_seq_append: "store_seq wr (ps @ qs) s = Option.bind (store_seq wr ps s) (store_seq wr qs)"
  by (induction ps arbitrary: s) (auto split: option.splits)

lemma bytes_at_Cons: "bytes_at pa (d # ds) = (pa, ucast d) # bytes_at (pa + 1) ds"
  unfolding bytes_at_def length_Cons by (subst upt_conv_Cons) (simp_all add: map_Suc_upt [symmetric] add.assoc del: upt_Suc)

lemma bytes_at_append: "bytes_at pa (ds @ es) = bytes_at pa ds @ bytes_at (pa + of_nat (length ds)) es"
proof (induction ds arbitrary: pa)
  case Nil
  then show ?case by (simp add: bytes_at_def)
qed (simp add: bytes_at_Cons add.assoc)

lemma write_bytes_stores: "write_bytes B s pa ds = mem_stores B (bytes_at pa ds) s"
proof (induction ds arbitrary: s pa)
  case Nil
  then show ?case by (simp add: bytes_at_def)
qed (simp add: bytes_at_Cons split: option.splits)

lemma wrap_mod: "k < n \<Longrightarrow> (if k + 1 = n then 0 else k + 1) = (k + 1) mod (n :: nat)"
  by auto

lemma wb_clean_last_stores:
  assumes "wb_ok wb" "wb_used wb = Suc u"
  shows "wb_stores wb = wb_slot wb (wb_last wb) @ wb_stores (wb_next wb)" "wb_ok (wb_next wb)" "wb_used (wb_next wb) = u"
    "wb_nb (wb_next wb) = wb_nb wb" "wb_num (wb_next wb) = wb_num wb"
    "wb_clean_last B s wb = map_option (\<lambda>s. (s, wb_next wb)) (mem_stores B (wb_slot wb (wb_last wb)) s)"
proof -
  have l: "wb_last wb < wb_num wb" "wb_used wb \<le> wb_num wb" using assms(1) by (simp_all add: wb_ok_def)
  show "wb_stores wb = wb_slot wb (wb_last wb) @ wb_stores (wb_next wb)"
    unfolding wb_stores_def assms(2) wb_next_def
    by (subst upt_conv_Cons) (simp_all add: map_Suc_upt [symmetric] assms(2) wb_slot_def mod_add_left_eq l comp_def del: upt_Suc)
  show "wb_ok (wb_next wb)" using assms l by (simp add: wb_ok_def wb_next_def mod_add_left_eq)
  show "wb_clean_last B s wb = map_option (\<lambda>s. (s, wb_next wb)) (mem_stores B (wb_slot wb (wb_last wb)) s)"
    unfolding wb_clean_last_def Let_def wrap_mod [OF l(1)] write_bytes_stores by (simp add: wb_slot_def wb_next_def)
qed (simp_all add: wb_next_def assms(2))

lemma wb_put_stores:
  assumes "wb_ok wb" "wb_used wb < wb_num wb"
  shows "wb_stores (wb_put pa ds wb) = wb_stores wb @ bytes_at pa ds" "wb_ok (wb_put pa ds wb)"
    "wb_nb (wb_put pa ds wb) = wb_nb wb" "wb_num (wb_put pa ds wb) = wb_num wb"
proof -
  have w: "wb_last wb < wb_num wb" "wb_first wb = (wb_last wb + wb_used wb) mod wb_num wb" "length (wb_entrys wb) = wb_num wb" "wb_first wb < wb_num wb"
    using assms by (auto simp: wb_ok_def)
  have n: "wb_first wb \<noteq> (wb_last wb + k) mod wb_num wb" if "k < wb_used wb" for k
  proof
    assume "wb_first wb = (wb_last wb + k) mod wb_num wb"
    then show False using that assms(2) w(1) unfolding w(2) by (auto simp: mod_if split: if_splits)
  qed
  have "wb_slot (wb_put pa ds wb) ((wb_last wb + k) mod wb_num wb) = wb_slot wb ((wb_last wb + k) mod wb_num wb)" if "k < wb_used wb" for k
    using n [OF that] by (simp add: wb_slot_def wb_put_def)
  then have old: "map (\<lambda>k. wb_slot (wb_put pa ds wb) ((wb_last wb + k) mod wb_num wb)) [0..<wb_used wb]
      = map (\<lambda>k. wb_slot wb ((wb_last wb + k) mod wb_num wb)) [0..<wb_used wb]" by simp
  have "we_bytes (wb_entrys (wb_put pa ds wb) ! wb_first wb) = ds"
    using w(3,4) by (auto simp: wb_put_def we_bytes_def intro!: nth_equalityI)
  then have "wb_slot (wb_put pa ds wb) (wb_first wb) = bytes_at pa ds"
    using w(3,4) by (simp add: wb_slot_def) (simp add: wb_put_def)
  moreover have "wb_last (wb_put pa ds wb) = wb_last wb" "wb_num (wb_put pa ds wb) = wb_num wb" "wb_used (wb_put pa ds wb) = Suc (wb_used wb)"
    by (simp_all add: wb_put_def)
  ultimately show "wb_stores (wb_put pa ds wb) = wb_stores wb @ bytes_at pa ds"
    unfolding wb_stores_def by (simp add: w(2) [symmetric] old del: map_eq_conv)
  show "wb_ok (wb_put pa ds wb)" "wb_nb (wb_put pa ds wb) = wb_nb wb" "wb_num (wb_put pa ds wb) = wb_num wb"
    using assms w by (auto simp: wb_ok_def wb_put_def mod_Suc)
qed

lemma wb_drain_stores:
  assumes "wb_ok wb" "wb_used wb = n"
  shows "\<exists>w. wb_ok w \<and> wb_used w = 0 \<and> (\<forall>s. wb_drain n B s wb = map_option (\<lambda>s. (s, w)) (mem_stores B (wb_stores wb) s))"
  using assms
proof (induction n arbitrary: wb)
  case 0
  then show ?case by (intro exI [of _ wb]) (simp add: wb_stores_def)
next
  case (Suc n)
  note c = wb_clean_last_stores [OF Suc.prems]
  obtain w where w: "wb_ok w" "wb_used w = 0" "\<And>s. wb_drain n B s (wb_next wb) = map_option (\<lambda>s. (s, w)) (mem_stores B (wb_stores (wb_next wb)) s)"
    using Suc.IH [OF c(2,3)] by blast
  have "wb_drain (Suc n) B s wb = map_option (\<lambda>s. (s, w)) (mem_stores B (wb_stores wb) s)" for s
    unfolding c(1) store_seq_append by (simp add: c(6) w(3) split: option.split)
  then show ?case using w(1,2) by blast
qed

text \<open>A buffered write appends to the queue; what has to make room goes to memory from its front.\<close>

lemma wb_write_stores:
  assumes "wb_ok wb"
  shows "\<exists>w ps. wb_ok w \<and> ps @ wb_stores w = wb_stores wb @ bytes_at pa ds
    \<and> (\<forall>s. mmu_wb_write_bytes B s wb pa ds = map_option (\<lambda>s. (s, w)) (mem_stores B ps s))"
  using assms
proof (induction "length ds" arbitrary: wb pa ds rule: less_induct)
  case less
  show ?case
  proof (cases "ds = []")
    case True
    then show ?thesis using less.prems by (intro exI [of _ wb] exI [of _ "[]"]) (simp add: mmu_wb_write_bytes.simps bytes_at_def)
  next
    case False
    define i where "i = (if length ds < wb_nb wb then length ds else wb_nb wb)"
    have i: "0 < i" "i \<le> length ds" using False less.prems by (auto simp: i_def wb_ok_def)
    have put: "\<exists>v ps. wb_ok v \<and> ps @ wb_stores v = wb_stores w @ bytes_at pa ds
        \<and> (\<forall>s. mmu_wb_write_bytes B s (wb_put pa (take i ds) w) (pa + of_nat i) (drop i ds) = map_option (\<lambda>s. (s, v)) (mem_stores B ps s))"
      if w: "wb_ok w" "wb_used w < wb_num w" for w
    proof -
      have "length (drop i ds) < length ds" using i by simp
      moreover have "wb_stores (wb_put pa (take i ds) w) @ bytes_at (pa + of_nat i) (drop i ds) = wb_stores w @ bytes_at pa ds"
        using bytes_at_append [of pa "take i ds" "drop i ds"] i(2) wb_put_stores(1) [OF w, of pa "take i ds"] by simp
      ultimately show ?thesis using less.hyps [OF _ wb_put_stores(2) [OF w, of pa "take i ds"], of "drop i ds" "pa + of_nat i"] by simp
    qed
    show ?thesis
    proof (cases "wb_num wb = wb_used wb")
      case False
      then have "wb_used wb < wb_num wb" using less.prems by (simp add: wb_ok_def)
      then show ?thesis using put [OF less.prems] \<open>ds \<noteq> []\<close> False
        by (simp add: mmu_wb_write_bytes.simps [of B _ wb] i_def [symmetric] Let_def)
    next
      case True
      then obtain u where u: "wb_used wb = Suc u" using less.prems by (cases "wb_used wb") (auto simp: wb_ok_def)
      note c = wb_clean_last_stores [OF less.prems u]
      obtain v ps where v: "wb_ok v" "ps @ wb_stores v = wb_stores (wb_next wb) @ bytes_at pa ds"
          "\<And>s. mmu_wb_write_bytes B s (wb_put pa (take i ds) (wb_next wb)) (pa + of_nat i) (drop i ds) = map_option (\<lambda>s. (s, v)) (mem_stores B ps s)"
        using put [OF c(2)] c(3,5) True u by auto
      have "mmu_wb_write_bytes B s wb pa ds = map_option (\<lambda>s. (s, v)) (mem_stores B (wb_slot wb (wb_last wb) @ ps) s)" for s
        using \<open>ds \<noteq> []\<close> True v(3) unfolding mmu_wb_write_bytes.simps [of B s wb] c(6) store_seq_append
        by (cases "mem_stores B (wb_slot wb (wb_last wb)) s"; cases "length ds < wb_nb wb") (simp_all add: c(4) i_def Let_def)
      moreover have "(wb_slot wb (wb_last wb) @ ps) @ wb_stores v = wb_stores wb @ bytes_at pa ds" using v(2) c(1) by simp
      ultimately show ?thesis using v(1) by blast
    qed
  qed
qed

lemma wb_drain_all_stores:
  assumes "wb_ok wb"
  obtains w where "wb_ok w" "wb_used w = 0" "\<And>s. mmu_wb_drain_all B s wb = map_option (\<lambda>s. (s, w)) (mem_stores B (wb_stores wb) s)"
  using wb_drain_stores [OF assms refl, of B] unfolding mmu_wb_drain_all_def by blast

text \<open>
  C25: the write buffer is transparent.  Whatever the buffer holds, and whether or not it has to make room by
  writing its oldest entries, putting bytes into it and draining it leaves the same memory as draining it first and
  writing the bytes directly, byte by byte and in order; one side fails exactly when the other does.
\<close>

theorem write_buffer_transparent:
  assumes "wb_ok wb"
  shows "map_option fst (Option.bind (mmu_wb_write_bytes B s wb pa ds) (\<lambda>(s, wb). mmu_wb_drain_all B s wb))
       = Option.bind (mmu_wb_drain_all B s wb) (\<lambda>(s, wb). write_bytes B s pa ds)"
proof -
  obtain w ps where w: "wb_ok w" "ps @ wb_stores w = wb_stores wb @ bytes_at pa ds"
      "\<And>s. mmu_wb_write_bytes B s wb pa ds = map_option (\<lambda>s. (s, w)) (mem_stores B ps s)"
    using wb_write_stores [OF assms, of pa ds B] by blast
  obtain v where v: "\<And>s. mmu_wb_drain_all B s w = map_option (\<lambda>s. (s, v)) (mem_stores B (wb_stores w) s)"
    using wb_drain_all_stores [OF w(1)] by blast
  obtain u where u: "\<And>s. mmu_wb_drain_all B s wb = map_option (\<lambda>s. (s, u)) (mem_stores B (wb_stores wb) s)"
    using wb_drain_all_stores [OF assms] by blast
  have "map_option fst (Option.bind (mmu_wb_write_bytes B s wb pa ds) (\<lambda>(s, wb). mmu_wb_drain_all B s wb)) = mem_stores B (ps @ wb_stores w) s"
    by (cases "mem_stores B ps s") (simp_all add: w(3) v store_seq_append option.map_comp comp_def option.map_ident)
  also have "\<dots> = Option.bind (mmu_wb_drain_all B s wb) (\<lambda>(s, wb). write_bytes B s pa ds)"
    unfolding w(2) by (cases "mem_stores B (wb_stores wb) s") (simp_all add: u store_seq_append write_bytes_stores)
  finally show ?thesis .
qed

definition ex_wb :: wb_t where
  "ex_wb = mmu_wb_init 1 2 (\<lambda>_. \<lparr>we_pa = 0, we_data = (\<lambda>_. 0), we_nb = 0\<rparr>)"

lemma ex_wb_ok: "wb_ok ex_wb"
  by (simp add: wb_ok_def ex_wb_def mmu_wb_init_def)

theorem write_buffer_transparent_witness:
  "map_option fst (Option.bind (mmu_wb_write_bytes undefined ex_ms ex_wb 0x40000000 [1, 2, 3]) (\<lambda>(s, wb). mmu_wb_drain_all undefined s wb))
     = write_bytes undefined ex_ms 0x40000000 [1, 2, 3]"
  using write_buffer_transparent [OF ex_wb_ok, of undefined ex_ms "0x40000000" "[1, 2, 3]"]
  by (simp add: mmu_wb_drain_all_def ex_wb_def mmu_wb_init_def)

end
