(* ===== verification/Arm_Harvard.thy ===== *)
theory Arm_Harvard
  imports Arm_Wb
begin

text \<open>
  The memory management units of the SA-1100, ARM920T and ARM926EJ-S (\<^verbatim>\<open>arch/arm/common/mmu/sa_mmu.c\<close>,
  \<^verbatim>\<open>arm920t_mmu.c\<close>, \<^verbatim>\<open>arm926ejs_mmu.c\<close>): separate translation buffers and caches for instructions and data,
  a write buffer, and a read buffer on the SA-1100.  The three files repeat the same code; what they share is one definition here, with the caches
  and the buffer it uses as arguments.
\<close>


section \<open>State\<close>

text \<open>
  The member of the union \<open>state->mmu.u\<close> these units use, with the identification of the
  processor: separate buffers and caches for instructions and data, the small data cache and the read
  buffer of the SA-1100, the write buffer.  The ARM926EJ-S has one buffer for both sides, here
  \<open>h_i_tlb\<close>, and a second one it never uses.
\<close>

record 'y hv_hw =
  h_i_tlb :: tlb_t
  h_d_tlb :: tlb_t
  h_i_cache :: cache_t
  h_d_cache :: cache_t
  h_mini_cache :: cache_t
  h_rb :: rb_t
  h_wb :: wb_t
  h_cpu_arch_name :: string
  h_cpu_val :: ARMword
  h_dev :: 'y

type_synonym 'y hstate = "'y hv_hw mstate"

datatype tlb_side = I_TLB | D_TLB

datatype cache_side = I_CACHE | MAIN_D_CACHE | MINI_D_CACHE

abbreviation (input) hw_of :: "'x mstate \<Rightarrow> 'x" where "hw_of s \<equiv> iosys (mach s)"

definition upd_hw :: "('x \<Rightarrow> 'x) \<Rightarrow> 'x mstate \<Rightarrow> 'x mstate" where
  "upd_hw f s = s\<lparr>mach := (mach s)\<lparr>iosys := f (iosys (mach s))\<rparr>\<rparr>"

definition get_tlb :: "tlb_side \<Rightarrow> 'y hstate \<Rightarrow> tlb_t" where
  "get_tlb k s = (case k of I_TLB \<Rightarrow> h_i_tlb (hw_of s) | D_TLB \<Rightarrow> h_d_tlb (hw_of s))"

definition put_tlb :: "tlb_side \<Rightarrow> tlb_t \<Rightarrow> 'y hstate \<Rightarrow> 'y hstate" where
  "put_tlb k t = upd_hw (\<lambda>h. case k of I_TLB \<Rightarrow> h\<lparr>h_i_tlb := t\<rparr> | D_TLB \<Rightarrow> h\<lparr>h_d_tlb := t\<rparr>)"

definition get_cache :: "cache_side \<Rightarrow> 'y hstate \<Rightarrow> cache_t" where
  "get_cache k s = (case k of I_CACHE \<Rightarrow> h_i_cache (hw_of s) | MAIN_D_CACHE \<Rightarrow> h_d_cache (hw_of s) | MINI_D_CACHE \<Rightarrow> h_mini_cache (hw_of s))"

definition put_cache :: "cache_side \<Rightarrow> cache_t \<Rightarrow> 'y hstate \<Rightarrow> 'y hstate" where
  "put_cache k c = upd_hw (\<lambda>h. case k of I_CACHE \<Rightarrow> h\<lparr>h_i_cache := c\<rparr> | MAIN_D_CACHE \<Rightarrow> h\<lparr>h_d_cache := c\<rparr> | MINI_D_CACHE \<Rightarrow> h\<lparr>h_mini_cache := c\<rparr>)"

definition put_wb :: "wb_t \<Rightarrow> 'y hstate \<Rightarrow> 'y hstate" where
  "put_wb w = upd_hw (\<lambda>h. h\<lparr>h_wb := w\<rparr>)"

definition put_rb :: "rb_t \<Rightarrow> 'y hstate \<Rightarrow> 'y hstate" where
  "put_rb r = upd_hw (\<lambda>h. h\<lparr>h_rb := r\<rparr>)"

section \<open>Macros\<close>

definition mmu_pid_va_map :: "'m ARMul_State \<Rightarrow> ARMword \<Rightarrow> ARMword" where
  "mmu_pid_va_map s va =
     (if va AND 0xfe000000 \<noteq> 0 then va else va OR (process_id (mmu s) AND 0xfe000000))"

definition va_cache_index :: "ARMword \<Rightarrow> cache_t \<Rightarrow> nat" where
  "va_cache_index va c = unat (drop_bit 2 (va AND (c_width c - 1)))"

definition tlb_c_flag :: "tlb_entry_t \<Rightarrow> bool" where
  "tlb_c_flag e \<longleftrightarrow> te_perms e AND 0x8 \<noteq> 0"

definition tlb_b_flag :: "tlb_entry_t \<Rightarrow> bool" where
  "tlb_b_flag e \<longleftrightarrow> te_perms e AND 0x4 \<noteq> 0"

abbreviation (input) CONTROL_DATA_CACHE :: ARMword where "CONTROL_DATA_CACHE \<equiv> 0x4"
abbreviation (input) CONTROL_WRITE_BUFFER :: ARMword where "CONTROL_WRITE_BUFFER \<equiv> 0x8"

section \<open>Shared steps\<close>

text \<open>\<open>translate\<close> and \<open>check_access\<close>: a fault, or the entry.\<close>

definition hv_translate :: "'y hv_hw bus_ops \<Rightarrow> tlb_side \<Rightarrow> 'y hstate \<Rightarrow> ARMword \<Rightarrow> bool \<Rightarrow> ((fault_t + tlb_entry_t) \<times> 'y hstate) option" where
  "hv_translate B k s va rd =
     (case translate B s va (get_tlb k s) of
        None \<Rightarrow> None
      | Some (Inl f, s, t) \<Rightarrow> Some (Inl f, put_tlb k t s)
      | Some (Inr i, s, t) \<Rightarrow>
         (let s = put_tlb k t s; e = tlb_entrys t ! i in
          case check_access s va e rd of
            None \<Rightarrow> None
          | Some (f, s) \<Rightarrow> Some (if f \<noteq> NO_FAULT then Inl f else Inr e, s)))"

definition hv_alloc :: "'y hv_hw bus_ops \<Rightarrow> cache_side \<Rightarrow> 'y hstate \<Rightarrow> ARMword \<Rightarrow> ARMword \<Rightarrow> (ARMword \<times> 'y hstate) option" where
  "hv_alloc B k s va pa =
     map_option (\<lambda>(p, s, c). (cl_data (get_line c p) ! va_cache_index va c, put_cache k c s))
       (mmu_cache_alloc B s (get_cache k s) va pa)"

definition hv_cached :: "cache_side \<Rightarrow> 'y hstate \<Rightarrow> ARMword \<Rightarrow> ARMword option" where
  "hv_cached k s va =
     map_option (\<lambda>p. cl_data (get_line (get_cache k s) p) ! va_cache_index va (get_cache k s)) (mmu_cache_search (get_cache k s) va)"

definition hv_drain :: "'y hv_hw bus_ops \<Rightarrow> 'y hstate \<Rightarrow> 'y hstate option" where
  "hv_drain B s = map_option (\<lambda>(s, w). put_wb w s) (mmu_wb_drain_all B s (h_wb (hw_of s)))"

text \<open>An access to memory at a word address, with the lane of the original address.\<close>

definition lane_addr :: "access_size \<Rightarrow> ARMword \<Rightarrow> ARMword \<Rightarrow> ARMword" where
  "lane_addr z pa real_va = (case z of Byte \<Rightarrow> pa OR (real_va AND 3) | Halfword \<Rightarrow> pa OR (real_va AND 2) | Word \<Rightarrow> pa)"

section \<open>Instructions\<close>

definition hv_load_instr :: "'y hv_hw bus_ops \<Rightarrow> 'y hstate \<Rightarrow> ARMword \<Rightarrow> ((fault_t + ARMword) \<times> 'y hstate) option" where
  "hv_load_instr B s va =
     (let va = mmu_pid_va_map s va;
          ok = map_option (\<lambda>(d, s). (Inr d, s));
          cached = (\<lambda>s va c pa.
            case hv_cached I_CACHE s va of
              Some d \<Rightarrow> Some (Inr d, s)
            | None \<Rightarrow> ok (if c then hv_alloc B I_CACHE s va pa else mem_read_word B s pa)) in
      if control_bit s CONTROL_MMU then
        (if va AND 3 \<noteq> 0 \<and> control_bit s CONTROL_ALIGN_FAULT then Some (Inl ALIGNMENT_FAULT, s)
         else
          (let va = va AND NOT 3 in
           case hv_translate B I_TLB s va True of
             None \<Rightarrow> None
           | Some (Inl f, s) \<Rightarrow> Some (Inl f, s)
           | Some (Inr e, s) \<Rightarrow> cached s va (tlb_c_flag e) (tlb_va_to_pa e va)))
      else cached s va True va)"

section \<open>Reads\<close>

text \<open>
  After all buffers and caches missed.  For the physical addresses from 0xe0000000 on the code
  flushes a line and returns without a value: \<open>junk\<close> is what the caller's variable holds.
\<close>

definition hv_read_miss :: "'y hv_hw bus_ops \<Rightarrow> ARMword \<Rightarrow> access_size \<Rightarrow> cache_side \<Rightarrow> 'y hstate \<Rightarrow> ARMword \<Rightarrow> ARMword \<Rightarrow> tlb_entry_t \<Rightarrow>
    ((fault_t + ARMword) \<times> 'y hstate) option" where
  "hv_read_miss B junk z k s va real_va e =
     (let pa = tlb_va_to_pa e va in
      if pa \<ge> 0xe0000000 \<and> pa < 0xe8000000 then
        (if tlb_c_flag e
         then map_option (\<lambda>(s, c). (Inr junk, put_cache k c s)) (mmu_cache_soft_flush B s (get_cache k s) pa)
         else Some (Inr junk, s))
      else
        (case (if tlb_b_flag e then hv_drain B s else Some s) of
           None \<Rightarrow> None
         | Some s \<Rightarrow>
             if tlb_c_flag e \<and> control_bit s CONTROL_DATA_CACHE then
               map_option (\<lambda>(d, s). (Inr (pick z (bigendSig s) real_va d), s)) (hv_alloc B k s va pa)
             else map_option (\<lambda>(d, s). (Inr d, s)) (mem_read_type B z s (lane_addr z pa real_va))))"

text \<open>The caches in the order of the search; the first that holds the word gives it.\<close>

fun hv_search :: "cache_side list \<Rightarrow> 'y hstate \<Rightarrow> ARMword \<Rightarrow> ARMword option" where
  "hv_search [] s va = None"
| "hv_search (k # ks) s va = (case hv_cached k s va of Some d \<Rightarrow> Some d | None \<Rightarrow> hv_search ks s va)"

definition sa_mmu_read :: "'y hv_hw bus_ops \<Rightarrow> ARMword \<Rightarrow> access_size \<Rightarrow> 'y hstate \<Rightarrow> ARMword \<Rightarrow> ((fault_t + ARMword) \<times> 'y hstate) option" where
  "sa_mmu_read B junk z s va =
     (let va = mmu_pid_va_map s va; real_va = va in
      if \<not> control_bit s CONTROL_MMU then map_option (\<lambda>(d, s). (Inr d, s)) (mem_read_type B z s va)
      else if misaligned s z va then Some (Inl ALIGNMENT_FAULT, s)
      else
       (let va = va AND NOT 3 in
        case hv_translate B D_TLB s va True of
          None \<Rightarrow> None
        | Some (Inl f, s) \<Rightarrow> Some (Inl f, s)
        | Some (Inr e, s) \<Rightarrow>
           (case mmu_rb_search (h_rb (hw_of s)) va of
              Some r \<Rightarrow>
                if re_fault r \<noteq> NO_FAULT then Some (Inl (re_fault r), s)
                else Some (Inr (pick z (bigendSig s) real_va (re_data r (unat (drop_bit 2 (va AND (rb_masks (re_type r) - 1)))))), s)
            | None \<Rightarrow>
               (case hv_search [MAIN_D_CACHE, MINI_D_CACHE] s va of
                  Some d \<Rightarrow> Some (Inr (pick z (bigendSig s) real_va d), s)
                | None \<Rightarrow> hv_read_miss B junk z (if tlb_b_flag e then MAIN_D_CACHE else MINI_D_CACHE) s va real_va e))))"

text \<open>\<open>arm920t_mmu_read\<close> and \<open>arm926ejs_mmu_read\<close> differ in the buffer they translate with.\<close>

definition arm9_mmu_read :: "tlb_side \<Rightarrow> 'y hv_hw bus_ops \<Rightarrow> ARMword \<Rightarrow> access_size \<Rightarrow> 'y hstate \<Rightarrow> ARMword \<Rightarrow> ((fault_t + ARMword) \<times> 'y hstate) option" where
  "arm9_mmu_read k B junk z s va =
     (let va = mmu_pid_va_map s va; real_va = va in
      if \<not> control_bit s CONTROL_MMU then map_option (\<lambda>(d, s). (Inr d, s)) (mem_read_type B z s va)
      else if misaligned s z va then Some (Inl ALIGNMENT_FAULT, s)
      else
       (let va = va AND NOT 3 in
        case hv_translate B k s va True of
          None \<Rightarrow> None
        | Some (Inl f, s) \<Rightarrow> Some (Inl f, s)
        | Some (Inr e, s) \<Rightarrow>
           (case hv_cached MAIN_D_CACHE s va of
              Some d \<Rightarrow> Some (Inr (pick z (bigendSig s) real_va d), s)
            | None \<Rightarrow> hv_read_miss B junk z MAIN_D_CACHE s va real_va e)))"

definition arm920t_mmu_read :: "'y hv_hw bus_ops \<Rightarrow> ARMword \<Rightarrow> access_size \<Rightarrow> 'y hstate \<Rightarrow> ARMword \<Rightarrow> ((fault_t + ARMword) \<times> 'y hstate) option" where
  "arm920t_mmu_read = arm9_mmu_read D_TLB"

definition arm926ejs_mmu_read :: "'y hv_hw bus_ops \<Rightarrow> ARMword \<Rightarrow> access_size \<Rightarrow> 'y hstate \<Rightarrow> ARMword \<Rightarrow> ((fault_t + ARMword) \<times> 'y hstate) option" where
  "arm926ejs_mmu_read = arm9_mmu_read I_TLB"

section \<open>Writes\<close>

definition update_cache :: "cache_side \<Rightarrow> access_size \<Rightarrow> 'y hstate \<Rightarrow> ARMword \<Rightarrow> ARMword \<Rightarrow> ARMword \<Rightarrow> place \<Rightarrow> 'y hstate" where
  "update_cache k z s va data real_va p =
     (let c = get_cache k s; index = va_cache_index va c in
      put_cache k (upd_line p (\<lambda>l. l\<lparr>cl_data := (cl_data l)[index := put z (bigendSig s) real_va data (cl_data l ! index)],
        cl_tag := cl_tag l OR (if index < unat (drop_bit 3 (c_width c)) then TAG_FIRST_HALF_DIRTY else TAG_LAST_HALF_DIRTY)\<rparr>) c) s)"

text \<open>The first of the caches that holds the word is updated.\<close>

fun hv_update :: "cache_side list \<Rightarrow> access_size \<Rightarrow> 'y hstate \<Rightarrow> ARMword \<Rightarrow> ARMword \<Rightarrow> ARMword \<Rightarrow> 'y hstate option" where
  "hv_update [] z s va data real_va = None"
| "hv_update (k # ks) z s va data real_va =
     (case mmu_cache_search (get_cache k s) va of
        Some p \<Rightarrow> Some (update_cache k z s va data real_va p)
      | None \<Rightarrow> hv_update ks z s va data real_va)"

text \<open>The bytes of the variable \<open>data\<close> on a little-endian host.\<close>

definition word_bytes :: "access_size \<Rightarrow> ARMword \<Rightarrow> ARMbyte list" where
  "word_bytes z d = map (\<lambda>k. ucast (drop_bit (8 * k) d)) [0..<(case z of Byte \<Rightarrow> 1 | Halfword \<Rightarrow> 2 | Word \<Rightarrow> 4)]"

definition hv_write_miss :: "'y hv_hw bus_ops \<Rightarrow> access_size \<Rightarrow> 'y hstate \<Rightarrow> ARMword \<Rightarrow> ARMword \<Rightarrow> ARMword \<Rightarrow> tlb_entry_t \<Rightarrow> 'y hstate option" where
  "hv_write_miss B z s va real_va data e =
     (let a = lane_addr z (tlb_va_to_pa e va) real_va in
      if tlb_b_flag e then
        (if control_bit s CONTROL_WRITE_BUFFER
         then map_option (\<lambda>(s, w). put_wb w s) (mmu_wb_write_bytes B s (h_wb (hw_of s)) a (word_bytes z data))
         else mem_write_type B z s a data)
      else (case hv_drain B s of None \<Rightarrow> None | Some s \<Rightarrow> mem_write_type B z s a data))"

text \<open>The code of the three units; they differ in the caches and the buffer of the data side.\<close>

definition hv_write :: "tlb_side \<Rightarrow> cache_side list \<Rightarrow> 'y hv_hw bus_ops \<Rightarrow> access_size \<Rightarrow> 'y hstate \<Rightarrow> ARMword \<Rightarrow> ARMword \<Rightarrow> (fault_t \<times> 'y hstate) option" where
  "hv_write k ks B z s va data =
     (let va = mmu_pid_va_map s va; real_va = va;
          s = (case mmu_cache_search (get_cache I_CACHE s) va of
                 None \<Rightarrow> s | Some p \<Rightarrow> update_cache I_CACHE z s va data real_va p);
          ok = map_option (\<lambda>s. (NO_FAULT, s)) in
      if \<not> control_bit s CONTROL_MMU then ok (mem_write_type B z s va data)
      else if misaligned s z va then Some (ALIGNMENT_FAULT, s)
      else
       (let va = va AND NOT 3 in
        case hv_translate B k s va False of
          None \<Rightarrow> None
        | Some (Inl f, s) \<Rightarrow> Some (f, s)
        | Some (Inr e, s) \<Rightarrow>
           (case hv_update ks z s va data real_va of
              Some s \<Rightarrow> Some (NO_FAULT, s)
            | None \<Rightarrow> ok (hv_write_miss B z s va real_va data e))))"

definition sa_mmu_write :: "'y hv_hw bus_ops \<Rightarrow> access_size \<Rightarrow> 'y hstate \<Rightarrow> ARMword \<Rightarrow> ARMword \<Rightarrow> (fault_t \<times> 'y hstate) option" where
  "sa_mmu_write = hv_write D_TLB [MAIN_D_CACHE, MINI_D_CACHE]"

definition arm920t_mmu_write :: "'y hv_hw bus_ops \<Rightarrow> access_size \<Rightarrow> 'y hstate \<Rightarrow> ARMword \<Rightarrow> ARMword \<Rightarrow> (fault_t \<times> 'y hstate) option" where
  "arm920t_mmu_write = hv_write D_TLB [MAIN_D_CACHE]"

definition arm926ejs_mmu_write :: "'y hv_hw bus_ops \<Rightarrow> access_size \<Rightarrow> 'y hstate \<Rightarrow> ARMword \<Rightarrow> ARMword \<Rightarrow> (fault_t \<times> 'y hstate) option" where
  "arm926ejs_mmu_write = hv_write I_TLB [MAIN_D_CACHE]"



section \<open>Cache and buffer operations\<close>

definition on_cache :: "cache_side \<Rightarrow> ('y hstate \<Rightarrow> cache_t \<Rightarrow> ('y hstate \<times> cache_t) option) \<Rightarrow> 'y hstate \<Rightarrow> 'y hstate option" where
  "on_cache k f s = map_option (\<lambda>(s, c). put_cache k c s) (f s (get_cache k s))"

abbreviation (input) inv_all :: "'y hv_hw bus_ops \<Rightarrow> cache_side \<Rightarrow> 'y hstate \<Rightarrow> 'y hstate option" where
  "inv_all B k \<equiv> on_cache k (mmu_cache_invalidate_all B)"

abbreviation (input) inv_va :: "'y hv_hw bus_ops \<Rightarrow> cache_side \<Rightarrow> ARMword \<Rightarrow> 'y hstate \<Rightarrow> 'y hstate option" where
  "inv_va B k v \<equiv> on_cache k (\<lambda>s c. mmu_cache_invalidate B s c v)"

abbreviation (input) clean_va :: "'y hv_hw bus_ops \<Rightarrow> cache_side \<Rightarrow> ARMword \<Rightarrow> 'y hstate \<Rightarrow> 'y hstate option" where
  "clean_va B k v \<equiv> on_cache k (\<lambda>s c. mmu_cache_clean B s c v)"

abbreviation (input) inv_index :: "'y hv_hw bus_ops \<Rightarrow> cache_side \<Rightarrow> ARMword \<Rightarrow> 'y hstate \<Rightarrow> 'y hstate option" where
  "inv_index B k v \<equiv> on_cache k (\<lambda>s c. mmu_cache_invalidate_by_index B s c v)"

abbreviation (input) clean_index :: "'y hv_hw bus_ops \<Rightarrow> cache_side \<Rightarrow> ARMword \<Rightarrow> 'y hstate \<Rightarrow> 'y hstate option" where
  "clean_index B k v \<equiv> on_cache k (\<lambda>s c. mmu_cache_clean_by_index B s c v)"

text \<open>An operation that the unit does not know prints a message.\<close>

definition sa_mmu_cache_ops :: "'y hv_hw bus_ops \<Rightarrow> 'y hstate \<Rightarrow> ARMword \<Rightarrow> ARMword \<Rightarrow> 'y hstate option" where
  "sa_mmu_cache_ops B s instr value =
     (let CRm = BITS instr 0 3; OPC_2 = BITS instr 5 7 in
      if OPC_2 = 0 \<and> CRm = 7 then do { s \<leftarrow> inv_all B I_CACHE s; s \<leftarrow> inv_all B MAIN_D_CACHE s; inv_all B MINI_D_CACHE s }
      else if OPC_2 = 0 \<and> CRm = 5 then inv_all B I_CACHE s
      else if OPC_2 = 0 \<and> CRm = 6 then do { s \<leftarrow> inv_all B MAIN_D_CACHE s; inv_all B MINI_D_CACHE s }
      else if OPC_2 = 1 \<and> CRm = 6 then do { s \<leftarrow> inv_va B MAIN_D_CACHE value s; inv_va B MINI_D_CACHE value s }
      else if OPC_2 = 1 \<and> CRm = 0xa then do { s \<leftarrow> clean_va B MAIN_D_CACHE value s; clean_va B MINI_D_CACHE value s }
      else if OPC_2 = 4 \<and> CRm = 0xa then hv_drain B s
      else Some s)"

definition arm920t_mmu_cache_ops :: "'y hv_hw bus_ops \<Rightarrow> 'y hstate \<Rightarrow> ARMword \<Rightarrow> ARMword \<Rightarrow> 'y hstate option" where
  "arm920t_mmu_cache_ops B s instr value =
     (let CRm = BITS instr 0 3; OPC_2 = BITS instr 5 7 in
      if OPC_2 = 0 \<and> CRm = 7 then do { s \<leftarrow> inv_all B I_CACHE s; inv_all B MAIN_D_CACHE s }
      else if OPC_2 = 0 \<and> CRm = 5 then inv_all B I_CACHE s
      else if OPC_2 = 1 \<and> CRm = 5 then inv_va B I_CACHE value s
      else if OPC_2 = 1 \<and> CRm = 13 then Some s
      else if OPC_2 = 0 \<and> CRm = 6 then inv_all B MAIN_D_CACHE s
      else if OPC_2 = 1 \<and> CRm = 6 then inv_va B MAIN_D_CACHE value s
      else if OPC_2 = 1 \<and> CRm = 0xa then clean_va B MAIN_D_CACHE value s
      else if OPC_2 = 1 \<and> CRm = 14 then do { s \<leftarrow> clean_va B MAIN_D_CACHE value s; inv_va B MAIN_D_CACHE value s }
      else if OPC_2 = 2 \<and> CRm = 0xa then clean_index B MAIN_D_CACHE value s
      else if OPC_2 = 2 \<and> CRm = 14 then do { s \<leftarrow> clean_index B MAIN_D_CACHE value s; inv_index B MAIN_D_CACHE value s }
      else if OPC_2 = 4 \<and> CRm = 0xa then hv_drain B s
      else Some s)"

definition arm926ejs_mmu_cache_ops :: "'y hv_hw bus_ops \<Rightarrow> 'y hstate \<Rightarrow> ARMword \<Rightarrow> ARMword \<Rightarrow> 'y hstate option" where
  "arm926ejs_mmu_cache_ops B s instr value =
     (let CRm = BITS instr 0 3; OPC_2 = BITS instr 5 7 in
      if OPC_2 = 0 \<and> CRm = 7 then do { s \<leftarrow> inv_all B I_CACHE s; inv_all B MAIN_D_CACHE s }
      else if OPC_2 = 0 \<and> CRm = 5 then inv_all B I_CACHE s
      else if OPC_2 = 1 \<and> CRm = 5 then inv_va B I_CACHE value s
      else if OPC_2 = 2 \<and> CRm = 5 then inv_index B I_CACHE value s
      else if OPC_2 = 1 \<and> CRm = 13 then Some s
      else if OPC_2 = 0 \<and> CRm = 6 then inv_all B MAIN_D_CACHE s
      else if OPC_2 = 1 \<and> CRm = 6 then inv_va B MAIN_D_CACHE value s
      else if OPC_2 = 2 \<and> CRm = 6 then inv_index B MAIN_D_CACHE value s
      else if OPC_2 = 1 \<and> CRm = 0xa then clean_va B MAIN_D_CACHE value s
      else if OPC_2 = 1 \<and> CRm = 14 then do { s \<leftarrow> clean_va B MAIN_D_CACHE value s; inv_va B MAIN_D_CACHE value s }
      else if OPC_2 = 2 \<and> CRm = 0xa then clean_index B MAIN_D_CACHE value s
      else if OPC_2 = 2 \<and> CRm = 14 then do { s \<leftarrow> clean_index B MAIN_D_CACHE value s; inv_index B MAIN_D_CACHE value s }
      else if OPC_2 = 4 \<and> CRm = 0xa then hv_drain B s
      else Some s)"

definition flush_tlb :: "tlb_side \<Rightarrow> 'y hstate \<Rightarrow> 'y hstate" where
  "flush_tlb k s = put_tlb k (mmu_tlb_invalidate_all (get_tlb k s)) s"

definition flush_tlb_entry :: "tlb_side \<Rightarrow> ARMword \<Rightarrow> 'y hstate \<Rightarrow> 'y hstate" where
  "flush_tlb_entry k v s = put_tlb k (mmu_tlb_invalidate_entry (get_tlb k s) v) s"

definition sa_mmu_tlb_ops :: "'y hstate \<Rightarrow> ARMword \<Rightarrow> ARMword \<Rightarrow> 'y hstate" where
  "sa_mmu_tlb_ops s instr value =
     (let CRm = BITS instr 0 3; OPC_2 = BITS instr 5 7 in
      if OPC_2 = 0 \<and> CRm = 7 then flush_tlb D_TLB (flush_tlb I_TLB s)
      else if OPC_2 = 0 \<and> CRm = 5 then flush_tlb I_TLB s
      else if OPC_2 = 0 \<and> CRm = 6 then flush_tlb D_TLB s
      else if OPC_2 = 1 \<and> CRm = 6 then flush_tlb_entry D_TLB value s
      else s)"

definition arm920t_mmu_tlb_ops :: "'y hstate \<Rightarrow> ARMword \<Rightarrow> ARMword \<Rightarrow> 'y hstate" where
  "arm920t_mmu_tlb_ops s instr value =
     (let CRm = BITS instr 0 3; OPC_2 = BITS instr 5 7 in
      if OPC_2 = 0 \<and> CRm = 7 then flush_tlb D_TLB (flush_tlb I_TLB s)
      else if OPC_2 = 0 \<and> CRm = 5 then flush_tlb I_TLB s
      else if OPC_2 = 1 \<and> CRm = 5 then flush_tlb_entry I_TLB value s
      else if OPC_2 = 0 \<and> CRm = 6 then flush_tlb D_TLB s
      else if OPC_2 = 1 \<and> CRm = 6 then flush_tlb_entry D_TLB value s
      else s)"

text \<open>In the first condition \<open>&&\<close> binds tighter than \<open>||\<close>.\<close>

definition arm926ejs_mmu_tlb_ops :: "'y hstate \<Rightarrow> ARMword \<Rightarrow> ARMword \<Rightarrow> 'y hstate" where
  "arm926ejs_mmu_tlb_ops s instr value =
     (let CRm = BITS instr 0 3; OPC_2 = BITS instr 5 7 in
      if OPC_2 = 0 \<and> CRm = 7 \<or> CRm = 6 \<or> CRm = 5 then flush_tlb I_TLB s
      else if OPC_2 = 1 \<and> (CRm = 5 \<or> CRm = 7 \<or> CRm = 6) then flush_tlb_entry I_TLB value s
      else s)"

definition sa_mmu_rb_ops :: "'y hv_hw bus_ops \<Rightarrow> 'y hstate \<Rightarrow> ARMword \<Rightarrow> ARMword \<Rightarrow> 'y hstate option" where
  "sa_mmu_rb_ops B s instr value =
     (let CRm = BITS instr 0 3; OPC_2 = BITS instr 5 7; rb = h_rb (hw_of s) in
      if OPC_2 = 0 \<and> CRm = 0 then Some (put_rb (mmu_rb_invalidate_all rb) s)
      else if OPC_2 = 2 then
        (let idx = unat (CRm AND 3); type = unat (drop_bit 2 CRm AND 3) + 1 in
         if idx < 4 \<and> type < 4 then
           map_option (\<lambda>(s, rb, t). put_tlb D_TLB t (put_rb rb s)) (mmu_rb_load B s rb (get_tlb D_TLB s) idx type value)
         else Some s)
      else if OPC_2 = 1 \<and> CRm < 4 then Some (put_rb (mmu_rb_invalidate_entry rb (unat CRm)) s)
      else Some s)"

section \<open>Registers\<close>

abbreviation (input) MMU_TLB_LOCKDOWN :: nat where "MMU_TLB_LOCKDOWN \<equiv> 10"
abbreviation (input) MMU_SA_RB_OPS :: nat where "MMU_SA_RB_OPS \<equiv> 9"
abbreviation (input) MMU_PID :: nat where "MMU_PID \<equiv> 13"

text \<open>
  The case of \<open>MMU_PID\<close> has no \<open>break\<close> in any of the three units and falls into the default, which
  sets the result to 0.  Where the code sets no result, \<open>junk\<close> is what the variable held.
\<close>

definition sa_mmu_mrc :: "'y hstate \<Rightarrow> ARMword \<Rightarrow> ARMword" where
  "sa_mmu_mrc s instr =
     (let creg = unat (BITS instr 16 19 AND 15) in
      if creg = MMU_ID then h_cpu_val (hw_of s)
      else if creg = MMU_CONTROL then control (mmu s)
      else if creg = MMU_TRANSLATION_TABLE_BASE then translation_table_base (mmu s)
      else if creg = MMU_DOMAIN_ACCESS_CONTROL then domain_access_control (mmu s)
      else if creg = MMU_FAULT_STATUS then fault_status (mmu s)
      else if creg = MMU_FAULT_ADDRESS then fault_address (mmu s)
      else 0)"

definition arm920t_mmu_mrc :: "ARMword \<Rightarrow> 'y hstate \<Rightarrow> ARMword \<Rightarrow> ARMword" where
  "arm920t_mmu_mrc junk s instr =
     (let creg = unat (BITS instr 16 19 AND 15); OPC_2 = BITS instr 5 7 AND 7 in
      if creg = MMU_ID then (if OPC_2 = 0 then h_cpu_val (hw_of s) else if OPC_2 = 1 then 0x0D172172 else junk)
      else if creg = MMU_CONTROL then (control (mmu s) OR 0x78) AND 0xFFFFF3FF
      else if creg = MMU_TRANSLATION_TABLE_BASE then translation_table_base (mmu s)
      else if creg = MMU_DOMAIN_ACCESS_CONTROL then domain_access_control (mmu s)
      else if creg = MMU_FAULT_STATUS then (if OPC_2 = 0 then fault_status (mmu s) else junk)
      else if creg = MMU_FAULT_ADDRESS then fault_address (mmu s)
      else 0)"

definition arm926ejs_mmu_mrc :: "ARMword \<Rightarrow> 'y hstate \<Rightarrow> ARMword \<Rightarrow> ARMword" where
  "arm926ejs_mmu_mrc junk s instr =
     (let creg = unat (BITS instr 16 19 AND 15); OPC_2 = BITS instr 5 7 AND 7 in
      if creg = MMU_ID then
        (if OPC_2 = 0 then h_cpu_val (hw_of s) else if OPC_2 = 1 then 0x1D0D2112 else if OPC_2 = 2 then 0 else junk)
      else if creg = MMU_CONTROL then (control (mmu s) OR 0x50078) AND 0x0005F3FF
      else if creg = MMU_TRANSLATION_TABLE_BASE then translation_table_base (mmu s) AND 0xFFFFC000
      else if creg = MMU_DOMAIN_ACCESS_CONTROL then domain_access_control (mmu s)
      else if creg = MMU_FAULT_STATUS then (if OPC_2 = 0 then fault_status (mmu s) AND 0xFF else junk)
      else if creg = MMU_FAULT_ADDRESS then fault_address (mmu s)
      else if creg = MMU_CACHE_OPS then junk
      else if creg = MMU_TLB_LOCKDOWN then tlb_locked_down (mmu s)
      else 0)"

definition is_armv4 :: "'y hstate \<Rightarrow> bool" where
  "is_armv4 s \<longleftrightarrow> take 5 (h_cpu_arch_name (hw_of s)) = ''armv4''"

definition sa_mmu_mcr :: "'y hv_hw bus_ops \<Rightarrow> 'y hstate \<Rightarrow> ARMword \<Rightarrow> ARMword \<Rightarrow> 'y hstate option" where
  "sa_mmu_mcr B s instr value =
     (let creg = unat (BITS instr 16 19 AND 15) in
      if \<not> is_armv4 s then Some s
      else if creg = MMU_CONTROL then Some (s\<lparr>mmu := (mmu s)\<lparr>control := (value OR 0x70) AND 0xFFFD\<rparr>\<rparr>)
      else if creg = MMU_TRANSLATION_TABLE_BASE then Some (s\<lparr>mmu := (mmu s)\<lparr>translation_table_base := value AND 0xFFFFC000\<rparr>\<rparr>)
      else if creg = MMU_DOMAIN_ACCESS_CONTROL then Some (s\<lparr>mmu := (mmu s)\<lparr>domain_access_control := value\<rparr>\<rparr>)
      else if creg = MMU_FAULT_STATUS then Some (s\<lparr>mmu := (mmu s)\<lparr>fault_status := value AND 0xFF\<rparr>\<rparr>)
      else if creg = MMU_FAULT_ADDRESS then Some (s\<lparr>mmu := (mmu s)\<lparr>fault_address := value\<rparr>\<rparr>)
      else if creg = MMU_CACHE_OPS then sa_mmu_cache_ops B s instr value
      else if creg = MMU_TLB_OPS then Some (sa_mmu_tlb_ops s instr value)
      else if creg = MMU_SA_RB_OPS then sa_mmu_rb_ops B s instr value
      else if creg = MMU_PID then Some (s\<lparr>mmu := (mmu s)\<lparr>process_id := value AND 0x7e000000\<rparr>\<rparr>)
      else Some s)"

definition arm920t_mmu_mcr :: "'y hv_hw bus_ops \<Rightarrow> 'y hstate \<Rightarrow> ARMword \<Rightarrow> ARMword \<Rightarrow> 'y hstate option" where
  "arm920t_mmu_mcr B s instr value =
     (let creg = unat (BITS instr 16 19 AND 15); OPC_2 = BITS instr 5 7 AND 7 in
      if \<not> is_armv4 s then Some s
      else if creg = MMU_CONTROL then Some (s\<lparr>mmu := (mmu s)\<lparr>control := (value OR 0x78) AND 0xFFFFF3FF\<rparr>\<rparr>)
      else if creg = MMU_TRANSLATION_TABLE_BASE then Some (s\<lparr>mmu := (mmu s)\<lparr>translation_table_base := value AND 0xFFFFC000\<rparr>\<rparr>)
      else if creg = MMU_DOMAIN_ACCESS_CONTROL then Some (s\<lparr>mmu := (mmu s)\<lparr>domain_access_control := value\<rparr>\<rparr>)
      else if creg = MMU_FAULT_STATUS then Some (if OPC_2 = 0 then s\<lparr>mmu := (mmu s)\<lparr>fault_status := value AND 0xFF\<rparr>\<rparr> else s)
      else if creg = MMU_FAULT_ADDRESS then Some (s\<lparr>mmu := (mmu s)\<lparr>fault_address := value\<rparr>\<rparr>)
      else if creg = MMU_CACHE_OPS then arm920t_mmu_cache_ops B s instr value
      else if creg = MMU_TLB_OPS then Some (arm920t_mmu_tlb_ops s instr value)
      else if creg = MMU_PID then Some (s\<lparr>mmu := (mmu s)\<lparr>process_id := value AND 0xfe000000\<rparr>\<rparr>)
      else Some s)"

definition arm926ejs_mmu_mcr :: "'y hv_hw bus_ops \<Rightarrow> 'y hstate \<Rightarrow> ARMword \<Rightarrow> ARMword \<Rightarrow> 'y hstate option" where
  "arm926ejs_mmu_mcr B s instr value =
     (let creg = unat (BITS instr 16 19 AND 15); OPC_2 = BITS instr 5 7 AND 7 in
      if creg = MMU_CONTROL then Some (s\<lparr>mmu := (mmu s)\<lparr>control := (value OR 0x50078) AND 0x0005F3FF\<rparr>\<rparr>)
      else if creg = MMU_TRANSLATION_TABLE_BASE then Some (s\<lparr>mmu := (mmu s)\<lparr>translation_table_base := value AND 0xFFFFC000\<rparr>\<rparr>)
      else if creg = MMU_DOMAIN_ACCESS_CONTROL then Some (s\<lparr>mmu := (mmu s)\<lparr>domain_access_control := value\<rparr>\<rparr>)
      else if creg = MMU_FAULT_STATUS then Some (if OPC_2 = 0 then s\<lparr>mmu := (mmu s)\<lparr>fault_status := value AND 0xFF\<rparr>\<rparr> else s)
      else if creg = MMU_FAULT_ADDRESS then Some (s\<lparr>mmu := (mmu s)\<lparr>fault_address := value\<rparr>\<rparr>)
      else if creg = MMU_CACHE_OPS then arm926ejs_mmu_cache_ops B s instr value
      else if creg = MMU_TLB_OPS then Some (arm926ejs_mmu_tlb_ops s instr value)
      else if creg = MMU_TLB_LOCKDOWN then Some (s\<lparr>mmu := (mmu s)\<lparr>tlb_locked_down := value\<rparr>\<rparr>)
      else if creg = MMU_PID then Some (s\<lparr>mmu := (mmu s)\<lparr>process_id := value AND 0xfe000000\<rparr>\<rparr>)
      else Some s)"

section \<open>Initialisation\<close>

text \<open>What \<open>malloc\<close> leaves in the tables of a unit; all allocations succeed.\<close>

record fresh_hw =
  f_entries :: "tlb_side \<Rightarrow> nat \<Rightarrow> tlb_entry_t"
  f_lines :: "cache_side \<Rightarrow> nat \<Rightarrow> nat \<Rightarrow> cache_line_t"
  f_wb :: "nat \<Rightarrow> wb_entry_t"
  f_rb :: "nat \<Rightarrow> rb_entry_t"

definition sa_mmu_init :: "fresh_hw \<Rightarrow> 'y hstate \<Rightarrow> 'y hstate" where
  "sa_mmu_init F s =
     (let s = mmu_regs_init s; s = s\<lparr>mmu := (mmu s)\<lparr>process_id := 0\<rparr>\<rparr>;
          s = put_tlb I_TLB (mmu_tlb_init 32 (f_entries F I_TLB)) s;
          s = put_cache I_CACHE (mmu_cache_init 32 32 16 CACHE_WRITE_BACK (f_lines F I_CACHE)) s;
          s = put_tlb D_TLB (mmu_tlb_init 32 (f_entries F D_TLB)) s;
          s = put_cache MAIN_D_CACHE (mmu_cache_init 32 32 8 CACHE_WRITE_BACK (f_lines F MAIN_D_CACHE)) s;
          s = put_cache MINI_D_CACHE (mmu_cache_init 32 2 8 CACHE_WRITE_BACK (f_lines F MINI_D_CACHE)) s;
          s = put_wb (mmu_wb_init 8 16 (f_wb F)) s
      in put_rb (mmu_rb_init 4 (f_rb F)) s)"

definition arm920t_mmu_init :: "fresh_hw \<Rightarrow> 'y hstate \<Rightarrow> 'y hstate" where
  "arm920t_mmu_init F s =
     (let s = mmu_regs_init s; s = s\<lparr>mmu := (mmu s)\<lparr>process_id := 0\<rparr>\<rparr>;
          s = put_tlb I_TLB (mmu_tlb_init 64 (f_entries F I_TLB)) s;
          s = put_cache I_CACHE (mmu_cache_init 32 64 8 CACHE_WRITE_BACK (f_lines F I_CACHE)) s;
          s = put_tlb D_TLB (mmu_tlb_init 64 (f_entries F D_TLB)) s;
          s = put_cache MAIN_D_CACHE (mmu_cache_init 32 64 8 CACHE_WRITE_BACK (f_lines F MAIN_D_CACHE)) s
      in put_wb (mmu_wb_init 8 8 (f_wb F)) s)"

definition arm926ejs_mmu_init :: "fresh_hw \<Rightarrow> 'y hstate \<Rightarrow> 'y hstate" where
  "arm926ejs_mmu_init F s =
     (let s = s\<lparr>mmu := (mmu s)\<lparr>control := 0x50078, translation_table_base := 0, domain_access_control := 0xDEADC0DE,
                  fault_status := 0, fault_address := 0, process_id := 0\<rparr>\<rparr>;
          s = put_tlb I_TLB (mmu_tlb_init 64 (f_entries F I_TLB)) s;
          s = put_cache I_CACHE (mmu_cache_init 32 4 64 CACHE_WRITE_BACK (f_lines F I_CACHE)) s;
          s = put_tlb D_TLB (mmu_tlb_init 8 (f_entries F D_TLB)) s;
          s = put_cache MAIN_D_CACHE (mmu_cache_init 32 4 32 CACHE_WRITE_BACK (f_lines F MAIN_D_CACHE)) s
      in put_wb (mmu_wb_init 8 8 (f_wb F)) s)"

section \<open>Tables of operations\<close>

text \<open>The address the code translator uses, the same code in the three units.\<close>

definition hv_v2p_dbct :: "'y hv_hw bus_ops \<Rightarrow> 'y hstate \<Rightarrow> ARMword \<Rightarrow> ((fault_t + ARMword) \<times> 'y hstate) option" where
  "hv_v2p_dbct B s virt_addr =
     (let va = mmu_pid_va_map s virt_addr in
      if control_bit s CONTROL_MMU then
        (if va AND 3 \<noteq> 0 \<and> control_bit s CONTROL_ALIGN_FAULT then Some (Inl ALIGNMENT_FAULT, s)
         else map_option (\<lambda>(r, s). (map_sum id (\<lambda>e. tlb_va_to_pa e (va AND NOT 3)) r, s)) (hv_translate B I_TLB s (va AND NOT 3) True))
      else Some (Inr va, s))"

definition hv_ops :: "('y hv_hw bus_ops \<Rightarrow> ARMword \<Rightarrow> access_size \<Rightarrow> 'y hstate \<Rightarrow> ARMword \<Rightarrow> ((fault_t + ARMword) \<times> 'y hstate) option) \<Rightarrow>
    ('y hv_hw bus_ops \<Rightarrow> access_size \<Rightarrow> 'y hstate \<Rightarrow> ARMword \<Rightarrow> ARMword \<Rightarrow> (fault_t \<times> 'y hstate) option) \<Rightarrow>
    'y hv_hw bus_ops \<Rightarrow> ARMword \<Rightarrow> 'y hv_hw mem_sys mmu_ops" where
  "hv_ops rd wr B junk =
     \<lparr>ops_read_byte = rd B junk Byte, ops_write_byte = wr B Byte,
      ops_read_halfword = rd B junk Halfword, ops_write_halfword = wr B Halfword,
      ops_read_word = rd B junk Word, ops_write_word = wr B Word, ops_load_instr = hv_load_instr B\<rparr>"

definition sa_ops :: "'y hv_hw bus_ops \<Rightarrow> ARMword \<Rightarrow> 'y hv_hw mem_sys mmu_ops" where
  "sa_ops = hv_ops sa_mmu_read sa_mmu_write"

definition arm920t_ops :: "'y hv_hw bus_ops \<Rightarrow> ARMword \<Rightarrow> 'y hv_hw mem_sys mmu_ops" where
  "arm920t_ops = hv_ops arm920t_mmu_read arm920t_mmu_write"

definition arm926ejs_ops :: "'y hv_hw bus_ops \<Rightarrow> ARMword \<Rightarrow> 'y hv_hw mem_sys mmu_ops" where
  "arm926ejs_ops = hv_ops arm926ejs_mmu_read arm926ejs_mmu_write"

end
