(* ===== verification/Arm_HvMem.thy ===== *)
theory Arm_HvMem
  imports Arm_Harvard
begin

text \<open>
  Loads and stores through the units with separate caches: a store to a cached line, and a store
  that waits in the write buffer, are both seen by the next load.  The memory behind the buffer enters through the interface \<open>byte_memory\<close>.
\<close>


section \<open>Frames\<close>

lemma hw_frame [simp]:
  "mmu (upd_hw f s) = mmu s" "Mode (upd_hw f s) = Mode s" "bigendSig (upd_hw f s) = bigendSig s" "control_bit (upd_hw f s) b = control_bit s b"
  "hw_of (upd_hw f s) = f (hw_of s)" "mem_banks (mach (upd_hw f s)) = mem_banks (mach s)" "rom (mach (upd_hw f s)) = rom (mach s)"
  "misaligned (upd_hw f s) z va = misaligned s z va" "mmu_pid_va_map (upd_hw f s) va = mmu_pid_va_map s va"
  by (simp_all add: upd_hw_def control_bit_def misaligned_def mmu_pid_va_map_def)

lemma get_put [simp]:
  "get_tlb k (put_tlb k t s) = t" "put_tlb k (get_tlb k s) s = s" "get_cache c (put_cache c x s) = x" "get_tlb k (put_cache c x s) = get_tlb k s"
  "get_cache c (put_tlb k t s) = get_cache c s" "get_tlb k (put_wb w s) = get_tlb k s" "get_cache c (put_wb w s) = get_cache c s"
  "h_wb (hw_of (put_wb w s)) = w" "h_wb (hw_of (put_cache c x s)) = h_wb (hw_of s)" "h_wb (hw_of (put_tlb k t s)) = h_wb (hw_of s)"
  by (cases k; simp add: get_tlb_def put_tlb_def put_cache_def get_cache_def put_wb_def upd_hw_def split: cache_side.splits)+

lemma get_put_cache_other: "c \<noteq> d \<Longrightarrow> get_cache c (put_cache d x s) = get_cache c s"
  by (cases c; cases d) (simp_all add: put_cache_def get_cache_def)

lemma put_frame [simp]:
  "mmu (put_cache c x s) = mmu s" "Mode (put_cache c x s) = Mode s" "bigendSig (put_cache c x s) = bigendSig s" "control_bit (put_cache c x s) b = control_bit s b"
  "misaligned (put_cache c x s) z va = misaligned s z va" "mmu_pid_va_map (put_cache c x s) va = mmu_pid_va_map s va"
  "rom (mach (put_cache c x s)) = rom (mach s)" "rom (mach (put_wb w s)) = rom (mach s)" "mem_banks (mach (put_wb w s)) = mem_banks (mach s)"
  "mmu (put_wb w s) = mmu s" "Mode (put_wb w s) = Mode s" "bigendSig (put_wb w s) = bigendSig s" "control_bit (put_wb w s) b = control_bit s b"
  "misaligned (put_wb w s) z va = misaligned s z va" "mmu_pid_va_map (put_wb w s) va = mmu_pid_va_map s va"
  by (simp_all add: put_cache_def put_wb_def)

text \<open>The state after a permitted access with an entry of the buffer.\<close>

definition with_domain :: "tlb_entry_t \<Rightarrow> 'm ARMul_State \<Rightarrow> 'm ARMul_State" where
  "with_domain e s = s\<lparr>mmu := (mmu s)\<lparr>last_domain := te_domain e\<rparr>\<rparr>"

lemma domain_frame [simp]:
  "get_tlb k (with_domain e s) = get_tlb k s" "get_cache c (with_domain e s) = get_cache c s" "Mode (with_domain e s) = Mode s"
  "control (mmu (with_domain e s)) = control (mmu s)" "domain_access_control (mmu (with_domain e s)) = domain_access_control (mmu s)"
  "bigendSig (with_domain e s) = bigendSig s" "control_bit (with_domain e s) b = control_bit s b" "mach (with_domain e s) = mach s"
  "misaligned (with_domain e s) z va = misaligned s z va" "mmu_pid_va_map (with_domain e s) va = mmu_pid_va_map s va"
  by (simp_all add: with_domain_def get_tlb_def get_cache_def control_bit_def misaligned_def mmu_pid_va_map_def split: tlb_side.splits cache_side.splits)

definition access_ok :: "'m ARMul_State \<Rightarrow> ARMword \<Rightarrow> tlb_entry_t \<Rightarrow> bool \<Rightarrow> bool" where
  "access_ok s va e rd \<longleftrightarrow> map_option fst (check_access s va e rd) = Some NO_FAULT"

lemma access_ok_cong:
  "control (mmu s') = control (mmu s) \<Longrightarrow> domain_access_control (mmu s') = domain_access_control (mmu s) \<Longrightarrow> Mode s' = Mode s \<Longrightarrow>
     access_ok s' va e rd = access_ok s va e rd"
  using check_access_fst [of s' s va e rd] by (simp add: access_ok_def)

lemma access_ok_read: "access_ok s va e False \<Longrightarrow> access_ok s va e True"
  by (auto simp: access_ok_def check_access_def check_perms_def Let_def split: if_splits option.splits)

lemma hv_translate_hit:
  assumes "mmu_tlb_search (get_tlb k s) va = Some i" "e = tlb_entrys (get_tlb k s) ! i"
  shows "hv_translate B k s va rd = map_option (\<lambda>f. (if f \<noteq> NO_FAULT then Inl f else Inr e, with_domain e s)) (map_option fst (check_access s va e rd))"
proof -
  have t: "translate B s va (get_tlb k s) = Some (Inr i, with_domain e s, get_tlb k s)"
    using assms by (simp add: translate_def set_last_domain_def with_domain_def)
  have "map_option fst (check_access (with_domain e s) va e rd) = map_option fst (check_access s va e rd)" by (rule check_access_fst) simp_all
  moreover have "put_tlb k (get_tlb k s) (with_domain e s) = with_domain e s" using get_put(2) [of k "with_domain e s"] by simp
  moreover have "f' = with_domain e s" if "check_access (with_domain e s) va e rd = Some (f, f')" for f f'
    using check_access_state [OF that] by (simp add: with_domain_def)
  ultimately show ?thesis using assms(2) unfolding hv_translate_def t
    by (cases "check_access (with_domain e s) va e rd"; cases "check_access s va e rd") (auto simp: Let_def)
qed

lemma hv_translate_ok:
  assumes "mmu_tlb_search (get_tlb k s) va = Some i" "access_ok s va (tlb_entrys (get_tlb k s) ! i) rd"
  shows "hv_translate B k s va rd = Some (Inr (tlb_entrys (get_tlb k s) ! i), with_domain (tlb_entrys (get_tlb k s) ! i) s)"
  using assms(2) unfolding hv_translate_hit [OF assms(1) refl] by (simp add: access_ok_def)


section \<open>A store to a cached line\<close>

definition sized :: "access_size \<Rightarrow> ARMword \<Rightarrow> ARMword" where
  "sized z d = (case z of Byte \<Rightarrow> d AND 0xff | Halfword \<Rightarrow> d AND 0xffff | Word \<Rightarrow> d)"

lemma pick_put:
  assumes "be = 0 \<or> be = 1"
  shows "pick z be va (put z be va d t) = sized z d"
proof -
  have "half_offset be va \<in> {0, 16}" by (simp add: half_offset_conv [OF assms])
  then show ?thesis
    using lane_read_write_same [of "byte_offset be va" 8 d t] lane_read_write_same [of "half_offset be va" 16 d t] byte_offset_le [OF assms, of va]
    by (cases z) (auto simp: pick_def put_def sized_def mask_8_16)
qed

lemma first_from_cong: "length ys = length xs \<Longrightarrow> (\<And>i. i < length xs \<Longrightarrow> P (ys ! i) = Q (xs ! i)) \<Longrightarrow> first_from P k ys = first_from Q k xs"
proof (induction xs arbitrary: k ys)
  case (Cons x xs)
  obtain y zs where y: "ys = y # zs" "length zs = length xs" using Cons.prems(1) by (cases ys) auto
  then have "P y = Q x" "\<And>i. i < length xs \<Longrightarrow> P (zs ! i) = Q (xs ! i)" using Cons.prems(2) [of 0] Cons.prems(2) [of "Suc _"] by auto
  then show ?case using Cons.IH y by simp
qed simp

lemma upd_line_lines:
  "cs_lines (c_sets (upd_line p f c) ! k) =
     (if k = fst p \<and> k < length (c_sets c) then (cs_lines (c_sets c ! k))[snd p := f (cs_lines (c_sets c ! k) ! snd p)] else cs_lines (c_sets c ! k))"
  by (cases "fst p < length (c_sets c)") (auto simp: upd_line_def nth_list_update list_update_beyond Let_def)

lemma search_upd_hit:
  assumes "\<And>l tag. line_hit c tag (f l) = line_hit c tag l"
  shows "mmu_cache_search (upd_line p f c) va = mmu_cache_search c va"
proof -
  have "line_hit (upd_line p f c) = line_hit c" by (simp add: fun_eq_iff line_hit_def va_cache_geometry)
  moreover have "line_hit c tag (ls[j := f (ls ! j)] ! i) = line_hit c tag (ls ! i)" for tag ls i j
    by (cases "j < length ls"; cases "i = j") (simp_all add: list_update_beyond assms)
  ultimately have "first_from (line_hit (upd_line p f c) tag) 0 (cs_lines (c_sets (upd_line p f c) ! k)) = first_from (line_hit c tag) 0 (cs_lines (c_sets c ! k))" for k tag
    by (intro first_from_cong) (simp_all add: upd_line_lines)
  then show ?thesis by (simp add: mmu_cache_search_def Let_def va_cache_geometry)
qed

lemma dirty_line_hit:
  assumes "c_width c = 32" "d = TAG_FIRST_HALF_DIRTY \<or> d = TAG_LAST_HALF_DIRTY" "cl_tag l' = cl_tag l OR d"
  shows "line_hit c tag l' = line_hit c tag l"
proof -
  have "(x OR 2) AND 1 = x AND 1" "(x OR 4) AND 1 = x AND 1" "(x OR 2) AND NOT 31 = x AND NOT 31" "(x OR 4) AND NOT 31 = x AND NOT 31" for x :: ARMword
    by (rule word32_eqI, simp add: bit_simps)+
  then have "(cl_tag l OR d) AND 1 = cl_tag l AND 1" "(cl_tag l OR d) AND NOT 31 = cl_tag l AND NOT 31" using assms(2) by blast+
  then show ?thesis using assms(1,3) by (simp add: line_hit_def va_cache_align_def)
qed

lemma search_place_ok:
  assumes "mmu_cache_search c va = Some p" "cache_wf c"
  shows "place_ok c p"
proof -
  have "va_cache_set va c < length (c_sets c)" using assms(2) va_cache_set_less [of c va] by (simp add: cache_wf_def)
  then show ?thesis using assms first_from_SomeD by (fastforce simp: mmu_cache_search_def place_ok_def Let_def)
qed

lemma va_cache_index_upd [simp]: "va_cache_index va (upd_line p f c) = va_cache_index va c"
  by (simp add: va_cache_index_def upd_line_geometry)

lemma cached_after_update:
  assumes "mmu_cache_search (get_cache k s) va = Some p" "cache_wf (get_cache k s)" "c_width (get_cache k s) = 32"
    and "length (cl_data (get_line (get_cache k s) p)) = 8" "bigendSig s = 0 \<or> bigendSig s = 1"
  shows "map_option (pick z (bigendSig s) rva) (hv_cached k (update_cache k z s va data rva p) va) = Some (sized z data)"
proof -
  let ?c = "get_cache k s" and ?i = "va_cache_index va (get_cache k s)"
  have i: "?i < 8" using word_and_le1 [of "drop_bit 2 va" 7] by (simp add: va_cache_index_def assms(3) word_le_nat_alt)
  define f where "f = (\<lambda>l :: cache_line_t. l\<lparr>cl_data := (cl_data l)[?i := put z (bigendSig s) rva data (cl_data l ! ?i)],
        cl_tag := cl_tag l OR (if ?i < unat (drop_bit 3 (c_width ?c)) then TAG_FIRST_HALF_DIRTY else TAG_LAST_HALF_DIRTY)\<rparr>)"
  have u: "update_cache k z s va data rva p = put_cache k (upd_line p f ?c) s" by (simp add: update_cache_def f_def Let_def)
  have "mmu_cache_search (upd_line p f ?c) va = Some p"
    unfolding assms(1) [symmetric] by (rule search_upd_hit, rule dirty_line_hit [OF assms(3)]) (auto simp: f_def)
  moreover have "get_line (upd_line p f ?c) p = f (get_line ?c p)" by (rule get_upd_line_same [OF search_place_ok [OF assms(1,2)]])
  ultimately show ?thesis using i assms(4) pick_put [OF assms(5)]
    by (simp add: u hv_cached_def) (simp add: f_def)
qed


text \<open>
  C27: on the ARM920T and ARM926EJ-S a store of any size to a line in the data cache is read back by a load of the
  same size at the same address, in both byte orders, and memory is not written: the caches are write-back.
\<close>

theorem arm9_store_load_cached:
  fixes s :: "'y hstate" and va
  defines "w \<equiv> mmu_pid_va_map s va AND NOT 3" and "c \<equiv> get_cache MAIN_D_CACHE s"
  assumes "control_bit s CONTROL_MMU" "\<not> misaligned s z (mmu_pid_va_map s va)" "bigendSig s \<le> 1"
    and "mmu_tlb_search (get_tlb k s) w = Some i" "access_ok s w (tlb_entrys (get_tlb k s) ! i) False"
    and "mmu_cache_search c w = Some p" "cache_wf c" "c_width c = 32" "length (cl_data (get_line c p)) = 8"
  shows "\<exists>t u. hv_write k [MAIN_D_CACHE] B z s va data = Some (NO_FAULT, t) \<and> arm9_mmu_read k B junk z t va = Some (Inr (sized z data), u)
    \<and> rom (mach t) = rom (mach s)"
proof -
  let ?e = "tlb_entrys (get_tlb k s) ! i" and ?va = "mmu_pid_va_map s va"
  define s1 where "s1 = (case mmu_cache_search (get_cache I_CACHE s) ?va of None \<Rightarrow> s | Some q \<Rightarrow> update_cache I_CACHE z s ?va data ?va q)"
  have f: "mmu s1 = mmu s" "Mode s1 = Mode s" "bigendSig s1 = bigendSig s" "get_tlb k s1 = get_tlb k s" "get_cache MAIN_D_CACHE s1 = c" "rom (mach s1) = rom (mach s)"
    by (auto simp: s1_def update_cache_def c_def get_put_cache_other Let_def split: option.splits)
  then have ct: "control_bit s1 b = control_bit s b" "misaligned s1 z a = misaligned s z a" "mmu_pid_va_map s1 a = mmu_pid_va_map s a" for b a
    by (simp_all add: control_bit_def misaligned_def mmu_pid_va_map_def)
  have be: "bigendSig s = 0 \<or> bigendSig s = 1" using assms(5) by (auto simp: word_le_nat_alt word_unat_eq_iff)
  define s2 where "s2 = with_domain ?e s1"
  define t where "t = update_cache MAIN_D_CACHE z s2 w data ?va p"
  have a: "access_ok s1 w ?e False" using assms(7) access_ok_cong [of s1 s] f by simp
  have "hv_translate B k s1 w False = Some (Inr ?e, s2)"
    using hv_translate_ok [of k s1 w i False B] a assms(6) by (simp add: f s2_def)
  then have wr: "hv_write k [MAIN_D_CACHE] B z s va data = Some (NO_FAULT, t)"
    using assms(3,4,8) unfolding hv_write_def Let_def s1_def [symmetric] w_def [symmetric] by (simp add: ct t_def s2_def f)
  have g: "mmu_pid_va_map t va = ?va" "control_bit t b = control_bit s b" "misaligned t z ?va = misaligned s z ?va" "get_tlb k t = get_tlb k s"
      "Mode t = Mode s" "control (mmu t) = control (mmu s)" "domain_access_control (mmu t) = domain_access_control (mmu s)" "bigendSig t = bigendSig s" for b
    by (simp_all add: t_def s2_def update_cache_def Let_def ct f)
  have "access_ok t w ?e True" using access_ok_read [OF assms(7)] access_ok_cong [of t s] g by simp
  then have tr: "hv_translate B k t w True = Some (Inr ?e, with_domain ?e t)" using hv_translate_ok [of k t w i True B] assms(6) g(4) by simp
  have "map_option (pick z (bigendSig s2) ?va) (hv_cached MAIN_D_CACHE t w) = Some (sized z data)"
    unfolding t_def by (rule cached_after_update) (use assms(8-11) be in \<open>simp_all add: s2_def f\<close>)
  then obtain d where d: "hv_cached MAIN_D_CACHE t w = Some d" "pick z (bigendSig s) ?va d = sized z data" by (auto simp: s2_def f)
  have "hv_cached MAIN_D_CACHE (with_domain ?e t) w = Some d" using d(1) by (simp add: hv_cached_def)
  then have "arm9_mmu_read k B junk z t va = Some (Inr (sized z data), with_domain ?e t)"
    using tr d(2) assms(3,4) unfolding arm9_mmu_read_def Let_def g(1) w_def [symmetric] by (simp add: g)
  moreover have "rom (mach t) = rom (mach s)" by (simp add: t_def s2_def update_cache_def Let_def f)
  ultimately show ?thesis using wr by blast
qed



context byte_memory
begin

lemma store_seq_last:
  assumes "\<forall>p\<in>set ps. valid s (fst p)"
  shows "\<exists>t. store_seq wr ps s = Some t \<and> valid t = valid s \<and>
     (\<forall>b. valid s b \<longrightarrow> val t b = (case map_of (rev ps) b of Some d \<Rightarrow> d AND 0xff | None \<Rightarrow> val s b))"
  using assms
proof (induction ps arbitrary: s)
  case (Cons p ps)
  obtain t where t: "wr s (fst p) (snd p) = Some t" "valid t = valid s" "val t (fst p) = snd p AND 0xff"
    "\<And>b. valid s b \<Longrightarrow> b \<noteq> fst p \<Longrightarrow> val t b = val s b"
    using wr_law [of s "fst p" "snd p"] Cons.prems by auto
  obtain u where u: "store_seq wr ps t = Some u" "valid u = valid t"
    "\<And>b. valid t b \<Longrightarrow> val u b = (case map_of (rev ps) b of Some d \<Rightarrow> d AND 0xff | None \<Rightarrow> val t b)"
    using Cons.IH [of t] Cons.prems t(2) by auto
  have "map_of (rev (p # ps)) b = (case map_of (rev ps) b of Some d \<Rightarrow> Some d | None \<Rightarrow> if b = fst p then Some (snd p) else None)" for b
    by (simp add: map_add_def split: option.splits)
  then show ?case using t u by (auto split: option.splits)
qed simp

end

section \<open>Stores to RAM leave the rest of the machine alone\<close>

definition core_view :: "'x mstate \<Rightarrow> 'x \<times> mem_bank_t list \<times> mmu_state_t \<times> ARMword \<times> ARMword" where
  "core_view s = (iosys (mach s), mem_banks (mach s), mmu s, Mode s, bigendSig s)"

lemma ram_stores_frame:
  assumes "\<forall>p\<in>set ps. ram_ok s (fst p)" "mem_stores B ps s = Some t"
  shows "core_view t = core_view s"
  using assms
proof (induction ps arbitrary: s)
  case (Cons q ps)
  then have q: "ram_ok s (fst q)" by simp
  obtain u where u: "mem_write_byte B s (fst q) (snd q) = Some u" "ram_ok u = ram_ok s" using ram_write_byte [OF q, of B "snd q"] by blast
  have "core_view u = core_view s"
    using mem_write_sz_ram [OF q ram_ok_bank [OF q], of B Byte "snd q"] u(1) by (auto simp: mem_write_byte_def rom_upd_def Let_def core_view_def)
  moreover have "core_view t = core_view u" using Cons.IH [of u] Cons.prems u by auto
  ultimately show ?case by simp
qed simp

lemma ram_hw_frame [simp]:
  "ram_ok (upd_hw f s) = ram_ok s" "ram_byte (upd_hw f s) = ram_byte s" "ram_ok (with_domain e s) = ram_ok s" "ram_byte (with_domain e s) = ram_byte s"
  "ram_ok (put_wb w t) = ram_ok t" "ram_byte (put_wb w t) = ram_byte t" "ram_word (put_wb w t) = ram_word t"
proof -
  have m: "mem_wf (mach (upd_hw f s)) = mem_wf (mach s)" "ram_bank (mach (upd_hw f s)) = ram_bank (mach s)" "ram_index (mach (upd_hw f s)) = ram_index (mach s)" for f s
    by (rule mem_wf_cong ram_bank_cong ram_index_cong; simp add: upd_hw_def)+
  have "ram_ok (upd_hw f s) = ram_ok s" "ram_byte (upd_hw f s) = ram_byte s" "ram_word (upd_hw f s) = ram_word s" for f s
    unfolding fun_eq_iff ram_ok_def ram_byte_def ram_word_def m by (simp_all add: upd_hw_def remap_addr_def rom_get_def rom_index_def)
  then show "ram_ok (upd_hw f s) = ram_ok s" "ram_byte (upd_hw f s) = ram_byte s" "ram_ok (put_wb w t) = ram_ok t" "ram_byte (put_wb w t) = ram_byte t"
      "ram_word (put_wb w t) = ram_word t"
    by (simp_all add: put_wb_def)
  show "ram_ok (with_domain e s) = ram_ok s" "ram_byte (with_domain e s) = ram_byte s"
    unfolding fun_eq_iff ram_ok_def ram_byte_def ram_word_def by (simp_all add: with_domain_def remap_addr_def)
qed

section \<open>A word of RAM and its bytes\<close>

text \<open>An aligned word of RAM: its four bytes are in one aligned bank.\<close>

definition ram_word_ok :: "'x mstate \<Rightarrow> ARMword \<Rightarrow> bool" where
  "ram_word_ok s a \<longleftrightarrow> a AND 3 = 0 \<and> (\<exists>i. mb_addr (mem_banks (mach s) ! i) AND 3 = 0
     \<and> (\<forall>k<4. ram_ok s (a + of_nat k) \<and> ram_bank (mach s) (a + of_nat k) i))"

definition byte_swap :: "ARMword \<Rightarrow> ARMword" where
  "byte_swap d = lane_read 0xff 24 d OR push_bit 8 (lane_read 0xff 16 d) OR push_bit 16 (lane_read 0xff 8 d) OR push_bit 24 (lane_read 0xff 0 d)"

lemma less_4: "(\<forall>k<4. P k) \<longleftrightarrow> P 0 \<and> P 1 \<and> P 2 \<and> P (3 :: nat)"
  by (auto simp: numeral_eq_Suc less_Suc_eq)

lemma word_of_lanes:
  assumes "lane_read 0xff 0 w = a" "lane_read 0xff 8 w = b" "lane_read 0xff 16 w = c" "lane_read 0xff 24 w = e"
  shows "w = a OR push_bit 8 b OR push_bit 16 c OR push_bit 24 e"
  unfolding assms [symmetric] by (rule bytes_of_word [symmetric])

lemma ram_word_of_bytes:
  assumes "ram_word_ok s a" "\<And>k. k < 4 \<Longrightarrow> ram_byte s (a + of_nat k) = lane_read 0xff (8 * k) d"
  shows "ram_word s a = (if bigendSig s = 0 then d else byte_swap d)"
proof -
  obtain i where i: "a AND 3 = 0" "mb_addr (mem_banks (mach s) ! i) AND 3 = 0" "\<And>k. k < 4 \<Longrightarrow> ram_ok s (a + of_nat k) \<and> ram_bank (mach s) (a + of_nat k) i"
    using assms(1) by (auto simp: ram_word_ok_def)
  have ok: "ram_ok s a" "ram_bank (mach s) a i" using i(3) [of 0] by simp_all
  then have be: "bigendSig s = 0 \<or> bigendSig s = 1" by (rule_tac ram_big)
  have "ram_index (mach s) (a + of_nat k) = i" "rom_index (mach s) i (a + of_nat k) = rom_index (mach s) i a" if "k < 4" for k
    using i that ram_index_bank rom_index_aligned by (blast dest: ram_ok_wf)+
  moreover have "ram_index (mach s) a = i" using ok ram_index_bank ram_ok_wf by blast
  ultimately have "ram_word s (a + of_nat k) = ram_word s a" if "k < 4" for k using that by (simp add: ram_word_def rom_get_def)
  then have "lane_read 0xff (8 * (if bigendSig s = 0 then k else 3 - k)) (ram_word s a) = lane_read 0xff (8 * k) d" if "k < 4" for k
    using assms(2) [OF that] byte_offset_aligned [OF be i(1) that] that by (simp add: ram_byte_def)
  then have "\<forall>k<4. lane_read 0xff (8 * (if bigendSig s = 0 then k else 3 - k)) (ram_word s a) = lane_read 0xff (8 * k) d" by blast
  then have l: "bigendSig s = 0 \<Longrightarrow> lane_read 0xff 0 (ram_word s a) = lane_read 0xff 0 d \<and> lane_read 0xff 8 (ram_word s a) = lane_read 0xff 8 d
        \<and> lane_read 0xff 16 (ram_word s a) = lane_read 0xff 16 d \<and> lane_read 0xff 24 (ram_word s a) = lane_read 0xff 24 d"
      "bigendSig s \<noteq> 0 \<Longrightarrow> lane_read 0xff 0 (ram_word s a) = lane_read 0xff 24 d \<and> lane_read 0xff 8 (ram_word s a) = lane_read 0xff 16 d
        \<and> lane_read 0xff 16 (ram_word s a) = lane_read 0xff 8 d \<and> lane_read 0xff 24 (ram_word s a) = lane_read 0xff 0 d"
    unfolding less_4 by simp_all
  show ?thesis
  proof (cases "bigendSig s = 0")
    case True
    then show ?thesis using word_of_lanes [of "ram_word s a"] l(1) bytes_of_word [of d] by metis
  next
    case False
    then show ?thesis using word_of_lanes [of "ram_word s a"] l(2) unfolding byte_swap_def by metis
  qed
qed



lemma core_view_same:
  assumes "core_view t = core_view s"
  shows "get_tlb k t = get_tlb k s" "get_cache c t = get_cache c s" "mmu t = mmu s" "Mode t = Mode s" "bigendSig t = bigendSig s" "hw_of t = hw_of s"
    "mmu_pid_va_map t a = mmu_pid_va_map s a" "control_bit t b = control_bit s b" "misaligned t z a = misaligned s z a"
    "mem_banks (mach t) = mem_banks (mach s)"
  using assms by (simp_all add: core_view_def get_tlb_def get_cache_def mmu_pid_va_map_def control_bit_def misaligned_def split: tlb_side.splits cache_side.splits)

lemma ram_word_ok_cong: "ram_ok t = ram_ok s \<Longrightarrow> mem_banks (mach t) = mem_banks (mach s) \<Longrightarrow> ram_word_ok t = ram_word_ok s"
  using ram_bank_cong [of "mach t" "mach s"] by (simp add: fun_eq_iff ram_word_ok_def)

lemma ram_word_readable: "ram_word_ok s a \<Longrightarrow> ram_ok s a"
  by (auto simp: ram_word_ok_def dest: spec [of _ 0])

lemma ram_bytes_valid: "ram_word_ok s a \<Longrightarrow> \<forall>p\<in>set (bytes_at a (word_bytes Word d)). ram_ok s (fst p)"
  by (auto simp: ram_word_ok_def bytes_at_def word_bytes_def)

lemma map_of_bytes_at:
  assumes "k < 4"
  shows "map_of (rev (bytes_at a (word_bytes Word d)) @ ps) (a + of_nat k) = Some (ucast (drop_bit (8 * k) d :: ARMword) AND 0xff)"
proof -
  have n: "a + x = a + y \<longleftrightarrow> x = y" for x y :: ARMword by simp
  have "k = 0 \<or> k = 1 \<or> k = 2 \<or> k = 3" using assms by linarith
  moreover have "(ucast (ucast x :: ARMbyte) :: ARMword) = x AND 0xff" for x :: ARMword
    unfolding mask_8_16 [symmetric] by (rule word32_eqI) (simp add: bit_simps)
  ultimately show ?thesis by (auto simp: bytes_at_def word_bytes_def upt_rec n)
qed

text \<open>Draining a buffer whose stores all go to RAM ends, and leaves the last byte stored at an address there.\<close>

lemma ram_stores:
  assumes "\<forall>p\<in>set ps. ram_ok s (fst p)"
  obtains t where "mem_stores B ps s = Some t" "ram_ok t = ram_ok s" "core_view t = core_view s"
    "\<And>b. ram_ok s b \<Longrightarrow> ram_byte t b = (case map_of (rev ps) b of Some d \<Rightarrow> d AND 0xff | None \<Rightarrow> ram_byte s b)"
  using ram.store_seq_last [OF assms, of B] ram_stores_frame [OF assms] by blast

lemma buffered_word_reaches_ram:
  fixes s :: "'y hstate"
  assumes "wb_ok wb" "\<forall>p\<in>set (wb_stores wb). ram_ok s (fst p)" "ram_word_ok s a"
  obtains t w where "mmu_wb_write_bytes B s wb a (word_bytes Word d) = Some (t, w)" "wb_ok w" "core_view t = core_view s" "ram_ok t = ram_ok s"
    "\<And>t'. ram_ok t' = ram_ok t \<Longrightarrow> ram_byte t' = ram_byte t \<Longrightarrow> mem_banks (mach t') = mem_banks (mach t) \<Longrightarrow> bigendSig t' = bigendSig t \<Longrightarrow>
        \<exists>u v. mmu_wb_drain_all B t' w = Some (u, v) \<and> core_view u = core_view t' \<and> ram_ok u = ram_ok s
          \<and> ram_word u a = (if bigendSig s = 0 then d else byte_swap d)"
proof -
  let ?ds = "word_bytes Word d"
  obtain w ps where w: "wb_ok w" "ps @ wb_stores w = wb_stores wb @ bytes_at a ?ds" "\<And>s. mmu_wb_write_bytes B s wb a ?ds = map_option (\<lambda>s. (s, w)) (mem_stores B ps s)"
    using wb_write_stores [OF assms(1), of a ?ds B] by blast
  obtain v where v: "\<And>s. mmu_wb_drain_all B s w = map_option (\<lambda>s. (s, v)) (mem_stores B (wb_stores w) s)" using wb_drain_all_stores [OF w(1)] by blast
  have "\<forall>p\<in>set (ps @ wb_stores w). ram_ok s (fst p)" unfolding w(2) using assms(2) ram_bytes_valid [OF assms(3)] by auto
  then have ok: "\<forall>p\<in>set ps. ram_ok s (fst p)" "\<forall>p\<in>set (wb_stores w). ram_ok s (fst p)" by simp_all
  obtain t where t: "mem_stores B ps s = Some t" "ram_ok t = ram_ok s" "core_view t = core_view s"
      "\<And>b. ram_ok s b \<Longrightarrow> ram_byte t b = (case map_of (rev ps) b of Some d \<Rightarrow> d AND 0xff | None \<Rightarrow> ram_byte s b)"
    using ram_stores [OF ok(1), of B] by blast
  have "\<exists>u v. mmu_wb_drain_all B t' w = Some (u, v) \<and> core_view u = core_view t' \<and> ram_ok u = ram_ok s
      \<and> ram_word u a = (if bigendSig s = 0 then d else byte_swap d)"
    if t': "ram_ok t' = ram_ok t" "ram_byte t' = ram_byte t" "mem_banks (mach t') = mem_banks (mach t)" "bigendSig t' = bigendSig t" for t'
  proof -
    obtain u where u: "mem_stores B (wb_stores w) t' = Some u" "ram_ok u = ram_ok t'" "core_view u = core_view t'"
        "\<And>b. ram_ok t' b \<Longrightarrow> ram_byte u b = (case map_of (rev (wb_stores w)) b of Some d \<Rightarrow> d AND 0xff | None \<Rightarrow> ram_byte t' b)"
      using ram_stores [of "wb_stores w" t' B] ok(2) t' t(2) by auto
    note cv = core_view_same [OF u(3)] core_view_same [OF t(3)]
    have wok: "ram_word_ok u = ram_word_ok s" using ram_word_ok_cong [of u s] cv t' t(2) u(2) by simp
    have "ram_byte u (a + of_nat k) = lane_read 0xff (8 * k) d" if k: "k < 4" for k
    proof -
      have b: "ram_ok s (a + of_nat k)" using assms(3) k by (auto simp: ram_word_ok_def)
      have "map_of (rev (wb_stores w) @ rev ps) (a + of_nat k) = map_of (rev (bytes_at a ?ds) @ rev (wb_stores wb)) (a + of_nat k)"
        using arg_cong [OF w(2), of rev] by simp
      also have "\<dots> = Some (lane_read 0xff (8 * k) d)" using map_of_bytes_at [OF k] by (simp add: lane_read_def)
      finally have "map_of (rev (wb_stores w) @ rev ps) (a + of_nat k) = Some (lane_read 0xff (8 * k) d)" .
      moreover have "lane_read 0xff (8 * k) d AND 0xff = lane_read 0xff (8 * k) d" by (simp add: lane_read_def and.assoc)
      ultimately show ?thesis using u(4) [of "a + of_nat k"] t(4) [OF b] b t' t(2)
        by (auto simp: map_add_def split: option.splits)
    qed
    then have "ram_word u a = (if bigendSig u = 0 then d else byte_swap d)" using assms(3) by (intro ram_word_of_bytes) (simp_all add: wok)
    then show ?thesis using u v cv t' t(2) by simp
  qed
  then show ?thesis using that w(1,3) t by simp
qed

text \<open>
  C26: a word stored to a page that is buffered and not cached is read back by the next load, whatever the write
  buffer held, as long as it held stores to RAM, although the store itself may not have reached memory; the page lies below the physical address 0xe0000000.  In the big byte order the load
  gives the bytes in reverse: the buffer takes the bytes of the word in the order of the host.
\<close>

theorem buffered_store_load:
  fixes s :: "'y hstate" and va k i
  defines "w \<equiv> mmu_pid_va_map s va AND NOT 3" and "e \<equiv> tlb_entrys (get_tlb k s) ! i"
  assumes "control_bit s CONTROL_MMU" "control_bit s CONTROL_WRITE_BUFFER" "\<not> misaligned s Word (mmu_pid_va_map s va)"
    and "mmu_tlb_search (get_tlb k s) w = Some i" "access_ok s w e False" "tlb_b_flag e" "\<not> tlb_c_flag e"
    and "mmu_cache_search (get_cache I_CACHE s) (mmu_pid_va_map s va) = None" "mmu_cache_search (get_cache MAIN_D_CACHE s) w = None"
    and "wb_ok (h_wb (hw_of s))" "\<forall>p\<in>set (wb_stores (h_wb (hw_of s))). ram_ok s (fst p)"
    and "ram_word_ok s (tlb_va_to_pa e w)" "tlb_va_to_pa e w < 0xe0000000"
  shows "\<exists>t u. hv_write k [MAIN_D_CACHE] B Word s va d = Some (NO_FAULT, t)
    \<and> arm9_mmu_read k B junk Word t va = Some (Inr (if bigendSig s = 0 then d else byte_swap d), u)"
proof -
  let ?a = "tlb_va_to_pa e w" and ?s = "with_domain e s"
  obtain t wb where t: "mmu_wb_write_bytes B ?s (h_wb (hw_of s)) ?a (word_bytes Word d) = Some (t, wb)" "wb_ok wb" "core_view t = core_view ?s" "ram_ok t = ram_ok ?s"
    "\<And>t'. ram_ok t' = ram_ok t \<Longrightarrow> ram_byte t' = ram_byte t \<Longrightarrow> mem_banks (mach t') = mem_banks (mach t) \<Longrightarrow> bigendSig t' = bigendSig t \<Longrightarrow>
        \<exists>u v. mmu_wb_drain_all B t' wb = Some (u, v) \<and> core_view u = core_view t' \<and> ram_ok u = ram_ok ?s
          \<and> ram_word u ?a = (if bigendSig ?s = 0 then d else byte_swap d)"
    by (rule buffered_word_reaches_ram [of "h_wb (hw_of s)" ?s ?a B d])
      (use assms(12-14) ram_word_ok_cong [of ?s s] in simp_all)
  have "hv_translate B k s w False = Some (Inr e, ?s)" using hv_translate_ok [OF assms(6)] assms(7) by (simp add: e_def)
  then have wr: "hv_write k [MAIN_D_CACHE] B Word s va d = Some (NO_FAULT, put_wb wb t)"
    using assms(3-5,8,10,11) t(1) unfolding hv_write_def Let_def w_def [symmetric] hv_write_miss_def by (simp add: lane_addr_def)
  note cv = core_view_same [OF t(3)]
  let ?t = "put_wb wb t" and ?t' = "with_domain e (put_wb wb t)"
  obtain u v where u: "mmu_wb_drain_all B ?t' wb = Some (u, v)" "ram_ok u = ram_ok s" "ram_word u ?a = (if bigendSig s = 0 then d else byte_swap d)"
    using t(5) [of ?t'] by auto
  have "access_ok ?t w e True" using access_ok_read [OF assms(7)] access_ok_cong [of ?t s] cv by simp
  then have "hv_translate B k ?t w True = Some (Inr e, ?t')" using hv_translate_ok [of k ?t w i True B] assms(6) cv by (simp add: e_def)
  moreover have g: "mmu_pid_va_map ?t va = mmu_pid_va_map s va" by (simp add: cv)
  moreover have "hv_cached MAIN_D_CACHE ?t' w = None" using assms(11) cv by (simp add: hv_cached_def)
  moreover obtain x where "mem_read_word B (put_wb v u) ?a = Some (ram_word u ?a, x)"
    using ram_read_word [of "put_wb v u" ?a B] u(2) ram_word_readable [OF assms(14)] by auto
  moreover have "\<not> 0xe0000000 \<le> ?a" using assms(15) by simp
  ultimately have "arm9_mmu_read k B junk Word ?t va = Some (Inr (if bigendSig s = 0 then d else byte_swap d), x)"
    using assms(3,5,8,9,15) u unfolding arm9_mmu_read_def Let_def g w_def [symmetric]
    by (simp add: cv hv_read_miss_def hv_drain_def mem_read_type_def lane_addr_def Let_def leD)
  then show ?thesis using wr by blast
qed



section \<open>An example\<close>

text \<open>
  Two sections of the example memory: at 0 the RAM, cached, with a line in the data cache; at 0x100000 the
  same RAM, buffered and not cached.
\<close>

definition ex_hv_hw :: "unit hv_hw" where
  "ex_hv_hw =
     \<lparr>h_i_tlb = \<lparr>tlb_cycle = 0, tlb_entrys = []\<rparr>,
      h_d_tlb = \<lparr>tlb_cycle = 0, tlb_entrys =
        [\<lparr>te_virt_addr = 0, te_phys_addr = 0x40000000, te_perms = 0x80C, te_domain = 0, te_mapping = TLB_SECTION\<rparr>,
         \<lparr>te_virt_addr = 0x100000, te_phys_addr = 0x40000000, te_perms = 0x804, te_domain = 0, te_mapping = TLB_SECTION\<rparr>]\<rparr>,
      h_i_cache = mmu_cache_init 32 1 1 CACHE_WRITE_BACK (\<lambda>_ _. \<lparr>cl_tag = 0, cl_pa = 0, cl_data = []\<rparr>),
      h_d_cache = \<lparr>c_width = 32, c_way = 1, c_set = 1, c_w_mode = CACHE_WRITE_BACK,
        c_sets = [\<lparr>cs_lines = [\<lparr>cl_tag = 1, cl_pa = 0x40000000, cl_data = [0x11223344, 2, 3, 4, 5, 6, 7, 8]\<rparr>], cs_cycle = 0\<rparr>]\<rparr>,
      h_mini_cache = mmu_cache_init 32 1 1 CACHE_WRITE_BACK (\<lambda>_ _. \<lparr>cl_tag = 0, cl_pa = 0, cl_data = []\<rparr>),
      h_rb = [], h_wb = ex_wb, h_cpu_arch_name = ''armv4'', h_cpu_val = 0x41009200, h_dev = ()\<rparr>"

definition ex_hv :: "unit hstate" where
  "ex_hv = (ARMul_NewState \<lparr>current_num = 3, mem_banks = ex_banks, mbp = None, global_mbp = None,
     rom = (\<lambda>_ _. 0), rom_size = (\<lambda>_. 0), iosys = ex_hv_hw\<rparr>)\<lparr>mmu := (mmu (ARMul_NewState ()))\<lparr>control := 0x7d, domain_access_control := 3, process_id := 0\<rparr>\<rparr>"

lemma ex_hv_parts:
  "get_cache MAIN_D_CACHE ex_hv = h_d_cache ex_hv_hw" "get_cache I_CACHE ex_hv = h_i_cache ex_hv_hw" "get_tlb D_TLB ex_hv = h_d_tlb ex_hv_hw"
  "hw_of ex_hv = ex_hv_hw" "bigendSig ex_hv = 0" "control_bit ex_hv b \<longleftrightarrow> 0x7d AND b \<noteq> 0" "mmu_pid_va_map ex_hv va = va"
  "mem_banks (mach ex_hv) = ex_banks"
  by (auto simp: ex_hv_def ARMul_NewState_def get_cache_def get_tlb_def control_bit_def mmu_pid_va_map_def)

lemma ex_hv_access: "te_domain e = 0 \<Longrightarrow> access_ok ex_hv va e rd"
  by (simp add: ex_hv_def ARMul_NewState_def access_ok_def check_access_def Let_def)

lemma ex_hv_ram: "ram_word_ok ex_hv 0x40000000"
proof -
  have l: "live_banks (mach ex_hv) = take 3 ex_banks" unfolding live_banks_def ex_hv_parts by (simp add: ex_banks_def)
  have wf: "mem_wf (mach ex_hv)"
    using ex_mem_wf by (simp add: ex_hv_def ex_mem_def ARMul_NewState_def mem_wf_def live_banks_def)
  have "ram_bank (mach ex_hv) (0x40000000 + of_nat k) 1" if "k < 4" for k
  proof -
    have "k = 0 \<or> k = 1 \<or> k = 2 \<or> k = 3" using that by linarith
    then show ?thesis unfolding ram_bank_def l ex_hv_parts by (auto simp: ex_banks_def bank_hit_def)
  qed
  moreover have "remap_addr ex_hv a = a" for a by (simp add: ex_hv_def remap_addr_def ARMul_NewState_def)
  ultimately have "\<forall>k<4. ram_ok ex_hv (0x40000000 + of_nat k) \<and> ram_bank (mach ex_hv) (0x40000000 + of_nat k) 1"
    unfolding ram_ok_def using wf ex_hv_parts(5) by auto
  then show ?thesis unfolding ram_word_ok_def ex_hv_parts by (intro conjI exI [of _ 1]) (simp_all add: ex_banks_def)
qed

lemma ex_hv_tlb: "mmu_tlb_search (h_d_tlb ex_hv_hw) 0 = Some 0" "mmu_tlb_search (h_d_tlb ex_hv_hw) 0x100000 = Some 1"
  by (simp_all add: ex_hv_hw_def mmu_tlb_search_def tlb_hit_def)

lemma ex_hv_cache:
  "mmu_cache_search (h_d_cache ex_hv_hw) 0 = Some (0, 0)" "mmu_cache_search (h_d_cache ex_hv_hw) 0x100000 = None" "mmu_cache_search (h_i_cache ex_hv_hw) 0x100000 = None"
  "cache_wf (h_d_cache ex_hv_hw)" "c_width (h_d_cache ex_hv_hw) = 32" "length (cl_data (get_line (h_d_cache ex_hv_hw) (0, 0))) = 8"
  by (simp_all add: ex_hv_hw_def mmu_cache_search_def mmu_cache_init_def va_cache_set_def va_cache_align_def line_hit_def cache_wf_def get_line_def Let_def)

theorem arm9_store_load_cached_witness:
  "\<exists>t u. arm920t_mmu_write undefined Halfword ex_hv 2 0xabcd = Some (NO_FAULT, t)
     \<and> arm920t_mmu_read undefined 0 Halfword t 2 = Some (Inr 0xabcd, u)"
proof -
  have w: "mmu_pid_va_map ex_hv 2 AND NOT 3 = 0" by (simp add: ex_hv_parts)
  have "te_domain (tlb_entrys (h_d_tlb ex_hv_hw) ! 0) = 0" by (simp add: ex_hv_hw_def)
  then show ?thesis
    using arm9_store_load_cached [of ex_hv Halfword 2 D_TLB 0 "(0, 0)" undefined "0xabcd" 0]
    unfolding arm920t_mmu_write_def arm920t_mmu_read_def w ex_hv_parts
    by (simp add: ex_hv_tlb ex_hv_cache ex_hv_access ex_hv_parts misaligned_def sized_def) blast
qed

theorem buffered_store_load_witness:
  "\<exists>t u. arm920t_mmu_write undefined Word ex_hv 0x100000 0x12345678 = Some (NO_FAULT, t)
     \<and> arm920t_mmu_read undefined 0 Word t 0x100000 = Some (Inr 0x12345678, u)"
proof -
  have w: "mmu_pid_va_map ex_hv 0x100000 AND NOT 3 = 0x100000" by (simp add: ex_hv_parts)
  let ?e = "tlb_entrys (h_d_tlb ex_hv_hw) ! 1"
  have e: "te_domain ?e = 0" "tlb_b_flag ?e" "\<not> tlb_c_flag ?e" "tlb_va_to_pa ?e 0x100000 = 0x40000000"
    by (simp_all add: ex_hv_hw_def tlb_b_flag_def tlb_c_flag_def tlb_va_to_pa_def Let_def)
  have "wb_ok (h_wb ex_hv_hw)" "wb_stores (h_wb ex_hv_hw) = []"
    using ex_wb_ok by (simp_all add: ex_hv_hw_def wb_stores_def ex_wb_def mmu_wb_init_def)
  then show ?thesis
    using buffered_store_load [of ex_hv "0x100000" D_TLB 1 undefined "0x12345678" 0] ex_hv_access [OF e(1)]
    unfolding arm920t_mmu_write_def arm920t_mmu_read_def w ex_hv_parts e(4)
    by (simp add: ex_hv_tlb ex_hv_cache ex_hv_parts ex_hv_ram e [unfolded One_nat_def] misaligned_def)
qed

end
