(* ===== verification/Arm_XScale.thy ===== *)
theory Arm_XScale
  imports Arm_HvMem Arm_Coproc
begin

text \<open>
  The memory management unit and the coprocessors of the XScale (\<^verbatim>\<open>arch/arm/common/mmu/xscale_copro.c\<close>).  The unit has the state of the
  others; large parts of the code they share are switched off in its file, and a write goes to the cache and to memory.
\<close>

section \<open>Instructions\<close>

text \<open>The fetch reads memory; the code that would use the instruction cache is switched off or not reached.\<close>

definition xscale_mmu_load_instr :: "'y hv_hw bus_ops \<Rightarrow> 'y hstate \<Rightarrow> ARMword \<Rightarrow> ((fault_t + ARMword) \<times> 'y hstate) option" where
  "xscale_mmu_load_instr B s va =
     (let va = mmu_pid_va_map s va; ok = map_option (\<lambda>(d, s). (Inr d, s)) in
      if control_bit s CONTROL_MMU then
        (if va AND (INSN_SIZE s - 1) \<noteq> 0 \<and> control_bit s CONTROL_ALIGN_FAULT then Some (Inl ALIGNMENT_FAULT, s)
         else
          (let va = va AND NOT (INSN_SIZE s - 1) in
           case hv_translate B I_TLB s va True of
             None \<Rightarrow> None
           | Some (Inl f, s) \<Rightarrow> Some (Inl f, s)
           | Some (Inr e, s) \<Rightarrow> ok (mem_read_word B s (tlb_va_to_pa e va))))
      else ok (mem_read_word B s va))"

section \<open>Reads and writes\<close>

text \<open>
  The searches of the small data cache and the write buffer are switched off in the code; a line of a page that is
  cached and not buffered is still placed in the small cache.
\<close>

definition xscale_mmu_read :: "'y hv_hw bus_ops \<Rightarrow> access_size \<Rightarrow> 'y hstate \<Rightarrow> ARMword \<Rightarrow> ((fault_t + ARMword) \<times> 'y hstate) option" where
  "xscale_mmu_read B z s va =
     (let va = mmu_pid_va_map s va; real_va = va; ok = map_option (\<lambda>(d, s). (Inr d, s)) in
      if \<not> control_bit s CONTROL_MMU then ok (mem_read_type B z s va)
      else if misaligned s z va then Some (Inl ALIGNMENT_FAULT, s)
      else
       (let va = va AND NOT 3 in
        case hv_translate B D_TLB s va True of
          None \<Rightarrow> None
        | Some (Inl f, s) \<Rightarrow> Some (Inl f, s)
        | Some (Inr e, s) \<Rightarrow>
            if \<not> control_bit s CONTROL_CACHE then ok (mem_read_type B z s (tlb_va_to_pa e real_va))
            else
             (case hv_cached MAIN_D_CACHE s va of
                Some d \<Rightarrow> Some (Inr (pick z (bigendSig s) real_va d), s)
              | None \<Rightarrow>
                 (let pa = tlb_va_to_pa e va in
                  if tlb_c_flag e \<and> control_bit s CONTROL_DATA_CACHE then
                    map_option (\<lambda>(d, s). (Inr (pick z (bigendSig s) real_va d), s))
                      (hv_alloc B (if tlb_b_flag e then MAIN_D_CACHE else MINI_D_CACHE) s va pa)
                  else ok (mem_read_type B z s (lane_addr z pa real_va))))))"

text \<open>A write changes the line in the cache, if there is one, and memory.\<close>

definition xscale_mmu_write :: "'y hv_hw bus_ops \<Rightarrow> access_size \<Rightarrow> 'y hstate \<Rightarrow> ARMword \<Rightarrow> ARMword \<Rightarrow> (fault_t \<times> 'y hstate) option" where
  "xscale_mmu_write B z s va data =
     (let va = mmu_pid_va_map s va; real_va = va; ok = map_option (\<lambda>s. (NO_FAULT, s)) in
      if \<not> control_bit s CONTROL_MMU then ok (mem_write_type B z s va data)
      else if misaligned s z va then Some (ALIGNMENT_FAULT, s)
      else
       (let va = va AND NOT 3 in
        case hv_translate B D_TLB s va False of
          None \<Rightarrow> None
        | Some (Inl f, s) \<Rightarrow> Some (f, s)
        | Some (Inr e, s) \<Rightarrow>
            if \<not> control_bit s CONTROL_CACHE then ok (mem_write_type B z s (tlb_va_to_pa e real_va) data)
            else
             (let s = (case mmu_cache_search (get_cache MAIN_D_CACHE s) va of
                         None \<Rightarrow> s | Some p \<Rightarrow> update_cache MAIN_D_CACHE z s va data real_va p)
              in ok (mem_write_type B z s (lane_addr z (tlb_va_to_pa e va) real_va) data))))"

definition xscale_ops :: "'y hv_hw bus_ops \<Rightarrow> ARMword \<Rightarrow> 'y hv_hw mem_sys mmu_ops" where
  "xscale_ops B junk = (hv_ops (\<lambda>B junk. xscale_mmu_read B) xscale_mmu_write B junk)\<lparr>ops_load_instr := xscale_mmu_load_instr B\<rparr>"

section \<open>Coprocessor 15\<close>

abbreviation (input) XSCALE_CP15_COPRO_ACCESS :: nat where "XSCALE_CP15_COPRO_ACCESS \<equiv> 15"

text \<open>
  The case of \<open>MMU_PID\<close> has no \<open>break\<close> and returns the access register.  A register or an operation that the unit
  does not know ends the simulation.
\<close>

definition xscale_mmu_mrc :: "'y hstate \<Rightarrow> ARMword \<Rightarrow> ARMword option" where
  "xscale_mmu_mrc s instr =
     (let creg = unat (BITS instr 16 19); opcode_2 = BITS instr 5 7 in
      if creg = MMU_ID then Some (if opcode_2 \<noteq> 0 then cache_type (mmu s) else h_cpu_val (hw_of s))
      else if creg = MMU_CONTROL then Some (if opcode_2 \<noteq> 0 then aux_control (mmu s) else control (mmu s))
      else if creg = MMU_TRANSLATION_TABLE_BASE then Some (translation_table_base (mmu s))
      else if creg = MMU_DOMAIN_ACCESS_CONTROL then Some (domain_access_control (mmu s))
      else if creg = MMU_FAULT_STATUS then Some (fault_status (mmu s))
      else if creg = MMU_FAULT_ADDRESS then Some (fault_address (mmu s))
      else if creg = MMU_PID \<or> creg = XSCALE_CP15_COPRO_ACCESS then Some (copro_access (mmu s))
      else None)"

definition xscale_cp15_cache_ops :: "'y hv_hw bus_ops \<Rightarrow> 'y hstate \<Rightarrow> ARMword \<Rightarrow> ARMword \<Rightarrow> 'y hstate option" where
  "xscale_cp15_cache_ops B s instr value =
     (let CRm = BITS instr 0 3; OPC_2 = BITS instr 5 7 in
      if OPC_2 = 0 \<and> CRm = 7 then do { s \<leftarrow> inv_all B I_CACHE s; inv_all B MAIN_D_CACHE s }
      else if OPC_2 = 0 \<and> CRm = 5 then inv_all B I_CACHE s
      else if OPC_2 = 1 \<and> CRm = 5 then inv_va B I_CACHE value s
      else if OPC_2 = 0 \<and> CRm = 6 then inv_all B MAIN_D_CACHE s
      else if OPC_2 = 1 \<and> CRm = 6 then inv_va B MAIN_D_CACHE value s
      else if OPC_2 = 1 \<and> CRm = 0xa then clean_va B MAIN_D_CACHE value s
      else if OPC_2 = 4 \<and> CRm = 0xa then hv_drain B s
      else if OPC_2 = 6 \<and> CRm = 5 then Some s
      else if OPC_2 = 5 \<and> CRm = 2 then inv_all B MAIN_D_CACHE s
      else None)"

definition xscale_cp15_tlb_ops :: "'y hstate \<Rightarrow> ARMword \<Rightarrow> ARMword \<Rightarrow> 'y hstate option" where
  "xscale_cp15_tlb_ops s instr value =
     (let CRm = BITS instr 0 3; OPC_2 = BITS instr 5 7 in
      if OPC_2 = 0 \<and> CRm = 7 then Some (flush_tlb D_TLB (flush_tlb I_TLB s))
      else if OPC_2 = 0 \<and> CRm = 5 then Some (flush_tlb I_TLB s)
      else if OPC_2 = 1 \<and> CRm = 5 then Some (flush_tlb_entry I_TLB value s)
      else if OPC_2 = 0 \<and> CRm = 6 then Some (flush_tlb D_TLB s)
      else if OPC_2 = 1 \<and> CRm = 6 then Some (flush_tlb_entry D_TLB value s)
      else None)"

text \<open>A write to the auxiliary control register changes the control register.\<close>

definition xscale_mmu_mcr :: "'y hv_hw bus_ops \<Rightarrow> 'y hstate \<Rightarrow> ARMword \<Rightarrow> ARMword \<Rightarrow> 'y hstate option" where
  "xscale_mmu_mcr B s instr value =
     (let creg = unat (BITS instr 16 19); opcode_2 = BITS instr 5 7 in
      if creg = MMU_CONTROL then Some (s\<lparr>mmu := (mmu s)\<lparr>control := (if opcode_2 \<noteq> 0 then value AND 0x33 else value AND 0x3FFF)\<rparr>\<rparr>)
      else if creg = MMU_TRANSLATION_TABLE_BASE then Some (s\<lparr>mmu := (mmu s)\<lparr>translation_table_base := value AND 0xFFFFC000\<rparr>\<rparr>)
      else if creg = MMU_DOMAIN_ACCESS_CONTROL then Some (s\<lparr>mmu := (mmu s)\<lparr>domain_access_control := value\<rparr>\<rparr>)
      else if creg = MMU_FAULT_STATUS then Some (s\<lparr>mmu := (mmu s)\<lparr>fault_status := value AND 0x6FF\<rparr>\<rparr>)
      else if creg = MMU_FAULT_ADDRESS then Some (s\<lparr>mmu := (mmu s)\<lparr>fault_address := value\<rparr>\<rparr>)
      else if creg = MMU_CACHE_OPS then xscale_cp15_cache_ops B s instr value
      else if creg = MMU_TLB_OPS then xscale_cp15_tlb_ops s instr value
      else if creg = MMU_PID then Some (s\<lparr>mmu := (mmu s)\<lparr>process_id := value AND 0xfe000000\<rparr>\<rparr>)
      else if creg = XSCALE_CP15_COPRO_ACCESS then Some (s\<lparr>mmu := (mmu s)\<lparr>copro_access := value AND 0x3ff\<rparr>\<rparr>)
      else Some s)"

definition xscale_cp15_mrc :: "ARMword \<Rightarrow> ARMword \<Rightarrow> ARMword \<Rightarrow> 'y hstate \<Rightarrow> (ARMword \<times> ARMword \<times> 'y hstate) option" where
  "xscale_cp15_mrc type instr value s = map_option (\<lambda>data. (ARMul_DONE, data, s)) (xscale_mmu_mrc s instr)"

definition xscale_cp15_mcr :: "'y hv_hw bus_ops \<Rightarrow> ARMword \<Rightarrow> ARMword \<Rightarrow> ARMword \<Rightarrow> 'y hstate \<Rightarrow> (ARMword \<times> 'y hstate) option" where
  "xscale_cp15_mcr B type instr value s = map_option (Pair 0) (xscale_mmu_mcr B s instr value)"

definition xscale_cp15_ldc :: "ARMword \<Rightarrow> ARMword \<Rightarrow> ARMword \<Rightarrow> 'y hstate \<Rightarrow> (ARMword \<times> 'y hstate) option" where
  "xscale_cp15_ldc type instr data s = None"

definition xscale_cp15_stc :: "ARMword \<Rightarrow> ARMword \<Rightarrow> ARMword \<Rightarrow> 'y hstate \<Rightarrow> (ARMword \<times> ARMword \<times> 'y hstate) option" where
  "xscale_cp15_stc type instr data s = None"

definition xscale_cp15_cdp :: "ARMword \<Rightarrow> ARMword \<Rightarrow> 'y hstate \<Rightarrow> (ARMword \<times> 'y hstate) option" where
  "xscale_cp15_cdp type instr s = None"

definition xscale_cp15_read_reg :: "'m ARMul_State \<Rightarrow> nat \<Rightarrow> ARMword option" where
  "xscale_cp15_read_reg s reg = (if reg = 15 then Some (copro_access (mmu s)) else None)"

text \<open>The macro \<open>CP_ACCESS_ALLOWED\<close> asks with register 15.\<close>

definition xscale_cp15_cp_access_allowed :: "'m ARMul_State \<Rightarrow> nat \<Rightarrow> nat \<Rightarrow> bool option" where
  "xscale_cp15_cp_access_allowed s reg cpnum = map_option (\<lambda>data. data AND push_bit cpnum 1 \<noteq> 0) (xscale_cp15_read_reg s reg)"

definition xscale_cp15_write_reg :: "'m ARMul_State \<Rightarrow> nat \<Rightarrow> ARMword \<Rightarrow> 'm ARMul_State option" where
  "xscale_cp15_write_reg s reg value =
     (if reg = MMU_FAULT_STATUS then Some (s\<lparr>mmu := (mmu s)\<lparr>fault_status := value AND 0x6FF\<rparr>\<rparr>)
      else if reg = MMU_FAULT_ADDRESS then Some (s\<lparr>mmu := (mmu s)\<lparr>fault_address := value\<rparr>\<rparr>)
      else None)"

definition xscale_cp15_init :: "fresh_hw \<Rightarrow> 'y hstate \<Rightarrow> 'y hstate" where
  "xscale_cp15_init F s =
     (let s = s\<lparr>mmu := (mmu s)\<lparr>control := 0, translation_table_base := 0xDEADC0DE, domain_access_control := 0xDEADC0DE,
                  fault_status := 0, fault_address := 0, process_id := 0, cache_type := 0xB1AA1AA, aux_control := 0\<rparr>\<rparr>;
          s = put_tlb I_TLB (mmu_tlb_init 32 (f_entries F I_TLB)) s;
          s = put_cache I_CACHE (mmu_cache_init 32 32 32 CACHE_WRITE_BACK (f_lines F I_CACHE)) s;
          s = put_tlb D_TLB (mmu_tlb_init 32 (f_entries F D_TLB)) s;
          s = put_cache MAIN_D_CACHE (mmu_cache_init 32 32 32 CACHE_WRITE_BACK (f_lines F MAIN_D_CACHE)) s;
          s = put_cache MINI_D_CACHE (mmu_cache_init 32 2 8 CACHE_WRITE_BACK (f_lines F MINI_D_CACHE)) s
      in put_wb (mmu_wb_init 8 16 (f_wb F)) s)"

section \<open>Coprocessors 13 and 14\<close>

text \<open>Every instruction for coprocessor 13 ends the simulation.\<close>

definition xscale_cp13_ldc :: "ARMword \<Rightarrow> ARMword \<Rightarrow> ARMword \<Rightarrow> 'm ARMul_State \<Rightarrow> (ARMword \<times> 'm ARMul_State) option" where
  "xscale_cp13_ldc type instr data s = None"

definition xscale_cp13_stc :: "ARMword \<Rightarrow> ARMword \<Rightarrow> ARMword \<Rightarrow> 'm ARMul_State \<Rightarrow> (ARMword \<times> ARMword \<times> 'm ARMul_State) option" where
  "xscale_cp13_stc type instr data s = None"

definition xscale_cp13_mrc :: "ARMword \<Rightarrow> ARMword \<Rightarrow> ARMword \<Rightarrow> 'm ARMul_State \<Rightarrow> (ARMword \<times> ARMword \<times> 'm ARMul_State) option" where
  "xscale_cp13_mrc type instr data s = None"

definition xscale_cp13_mcr :: "ARMword \<Rightarrow> ARMword \<Rightarrow> ARMword \<Rightarrow> 'm ARMul_State \<Rightarrow> (ARMword \<times> 'm ARMul_State) option" where
  "xscale_cp13_mcr type instr data s = None"

definition xscale_cp13_cdp :: "ARMword \<Rightarrow> ARMword \<Rightarrow> 'm ARMul_State \<Rightarrow> (ARMword \<times> 'm ARMul_State) option" where
  "xscale_cp13_cdp type instr s = None"

text \<open>Coprocessor 14 keeps its registers in the static variable \<open>pxa_cp14_regs\<close>.\<close>

record xscale_cp14_reg_s =
  cclkcfg :: ARMword
  pwrmode :: ARMword

definition xscale_cp14_init :: xscale_cp14_reg_s where
  "xscale_cp14_init = \<lparr>cclkcfg = 0, pwrmode = 0\<rparr>"

definition xscale_cp14_mrc :: "xscale_cp14_reg_s \<Rightarrow> ARMword \<Rightarrow> ARMword" where
  "xscale_cp14_mrc r instr =
     (let reg = BITS instr 16 19 in if reg = 6 then cclkcfg r else if reg = 7 then pwrmode r else 0)"

definition xscale_cp14_mcr :: "xscale_cp14_reg_s \<Rightarrow> ARMword \<Rightarrow> ARMword \<Rightarrow> xscale_cp14_reg_s" where
  "xscale_cp14_mcr r instr data =
     (let reg = BITS instr 16 19 in
      if reg = 6 then r\<lparr>cclkcfg := data AND 0xf\<rparr> else if reg = 7 then r\<lparr>pwrmode := data AND 0x3\<rparr> else r)"

definition xscale_cp14_ldc :: "ARMword \<Rightarrow> ARMword \<Rightarrow> ARMword \<Rightarrow> 'm ARMul_State \<Rightarrow> (ARMword \<times> 'm ARMul_State) option" where
  "xscale_cp14_ldc type instr data s = None"

definition xscale_cp14_stc :: "ARMword \<Rightarrow> ARMword \<Rightarrow> ARMword \<Rightarrow> 'm ARMul_State \<Rightarrow> (ARMword \<times> ARMword \<times> 'm ARMul_State) option" where
  "xscale_cp14_stc type instr data s = None"

definition xscale_cp14_cdp :: "ARMword \<Rightarrow> ARMword \<Rightarrow> 'm ARMul_State \<Rightarrow> (ARMword \<times> 'm ARMul_State) option" where
  "xscale_cp14_cdp type instr s = None"

section \<open>A line filled from memory\<close>

lemma ram_word_state:
  "ram_word (s\<lparr>mach := (mach s)\<lparr>mbp := p, global_mbp := g, rom := r\<rparr>\<rparr>) a =
     r (ram_index (mach s) a) (rom_index (mach s) (ram_index (mach s) a) a)"
  by (simp add: ram_word_def rom_get_def rom_index_def
      ram_index_cong [of "(mach s)\<lparr>mbp := p, global_mbp := g, rom := r\<rparr>" "mach s"])

lemma ram_word_load:
  assumes "ram_ok s a"
  shows "\<exists>t. mem_read_word B s a = Some (ram_word s a, t) \<and> ram_ok t = ram_ok s \<and> ram_word t = ram_word s"
proof -
  obtain p where p: "mem_wf ((mach s)\<lparr>mbp := p\<rparr>)" "mem_read_word B s a = Some (ram_word s a,
      s\<lparr>mach := (mach s)\<lparr>mbp := p, global_mbp := Some (ram_index (mach s) a), rom := rom (mach s)\<rparr>\<rparr>)" (is "_ = Some (_, ?t)")
    using mem_read_sz_ram [OF assms assms ram_ok_bank [OF assms] ram_ok_bank [OF assms] ram_ok_bank [OF assms], of B Word]
    by (auto simp: mem_read_word_def ram_word_def)
  have "ram_ok ?t = ram_ok s" by (rule ram_ok_upd [OF ram_ok_wf [OF assms] p(1)])
  moreover have "ram_word ?t = ram_word s" unfolding fun_eq_iff ram_word_state by (simp add: ram_word_def rom_get_def)
  ultimately show ?thesis using p(2) by blast
qed

lemma read_words_ram:
  assumes "\<And>i. i < n \<Longrightarrow> ram_ok s (a + 4 * of_nat i)"
  shows "\<exists>ds t. read_words B s a n = Some (ds, t) \<and> length ds = n \<and> (\<forall>i<n. ds ! i = ram_word s (a + 4 * of_nat i))"
  using assms
proof (induction n arbitrary: s a)
  case (Suc n)
  obtain t where t: "mem_read_word B s a = Some (ram_word s a, t)" "ram_ok t = ram_ok s" "ram_word t = ram_word s"
    using ram_word_load [of s a B] Suc.prems [of 0] by auto
  have "ram_ok t (a + 4 + 4 * of_nat i)" if "i < n" for i
    using Suc.prems [of "Suc i"] that t(2) by (simp add: algebra_simps)
  then obtain ds u where u: "read_words B t (a + 4) n = Some (ds, u)" "length ds = n" "\<forall>i<n. ds ! i = ram_word t (a + 4 + 4 * of_nat i)"
    using Suc.IH [of t "a + 4"] by blast
  then show ?case using t by (auto simp: nth_Cons algebra_simps split: nat.split)
qed simp

lemma ram_word_store_other:
  assumes "ram_ok s a" "a AND 3 = 0" "b AND 3 = 0" "b \<noteq> a"
  shows "\<exists>t. mem_write_word B s a d = Some t \<and> ram_ok t = ram_ok s \<and> core_view t = core_view s \<and> ram_word t b = ram_word s b"
proof -
  let ?i = "ram_index (mach s) a"
  obtain p where p: "mem_wf ((mach s)\<lparr>mbp := p\<rparr>)" "mem_write_word B s a d = Some (s\<lparr>mach := (mach s)\<lparr>mbp := p, global_mbp := Some ?i,
     rom := (rom (mach s))(?i := (rom (mach s) ?i)(rom_index (mach s) ?i a := d))\<rparr>\<rparr>)" (is "_ = Some ?t")
    using ram_write_word [OF assms(1), of B d] by blast
  have "rom_index (mach s) ?i b \<noteq> rom_index (mach s) ?i a"
    using rom_cell_inj [of b "mb_addr (mem_banks (mach s) ! ?i)" a] assms(2-4) by (auto simp: rom_index_def simp flip: word_unat_eq_iff)
  then have "ram_word ?t b = ram_word s b" unfolding ram_word_state by (auto simp: ram_word_def rom_get_def)
  moreover have "ram_ok ?t = ram_ok s" by (rule ram_ok_upd [OF ram_ok_wf [OF assms(1)] p(1)])
  moreover have "core_view ?t = core_view s" by (simp add: core_view_def)
  ultimately show ?thesis using p(2) by blast
qed

lemma aligned_step: "a AND 3 = 0 \<Longrightarrow> (a + 4) AND 3 = (0 :: ARMword)"
  using aligned_diff [of a "- 4"] by (simp add: and_3_take_bit)

lemma write_words_other:
  assumes "\<And>i. i < length ds \<Longrightarrow> ram_ok s (a + 4 * of_nat i) \<and> a + 4 * of_nat i \<noteq> b" "a AND 3 = 0" "b AND 3 = 0"
  shows "\<exists>t. write_words B s a ds = Some t \<and> ram_ok t = ram_ok s \<and> core_view t = core_view s \<and> ram_word t b = ram_word s b"
  using assms
proof (induction ds arbitrary: s a)
  case (Cons d ds)
  have "ram_ok s a" "b \<noteq> a" using Cons.prems(1) [of 0] by auto
  then obtain t where t: "mem_write_word B s a d = Some t" "ram_ok t = ram_ok s" "core_view t = core_view s" "ram_word t b = ram_word s b"
    using ram_word_store_other [of s a b B d] Cons.prems(2,3) by blast
  have "ram_ok t (a + 4 + 4 * of_nat i) \<and> a + 4 + 4 * of_nat i \<noteq> b" if "i < length ds" for i
    using Cons.prems(1) [of "Suc i"] that t(2) by (simp add: algebra_simps)
  then show ?case using Cons.IH [of t "a + 4"] aligned_step [OF Cons.prems(2)] Cons.prems(3) t by auto
qed simp

text \<open>
  The line that an allocation displaces, and when the allocation gives the words of memory: the cache holds 32 bytes per line
  and fills them, the line wanted lies in RAM, and a dirty line that is displaced goes to other words of RAM.
\<close>

definition victim :: "cache_t \<Rightarrow> ARMword \<Rightarrow> cache_line_t" where
  "victim c va = get_line c (va_cache_set va c, cs_cycle (c_sets c ! va_cache_set va c))"

definition alloc_ok :: "'y hstate \<Rightarrow> cache_side \<Rightarrow> ARMword \<Rightarrow> ARMword \<Rightarrow> bool" where
  "alloc_ok s k va pa \<longleftrightarrow>
     (let c = get_cache k s; l = victim c va in
      cache_wf c \<and> c_width c = 32 \<and> c_w_mode c = CACHE_WRITE_BACK \<and> (\<forall>i<8. ram_ok s ((pa AND NOT 31) + 4 * of_nat i))
      \<and> (cl_tag l AND TAG_VALID_FLAG \<noteq> 0 \<and> cl_tag l AND 6 \<noteq> 0 \<longrightarrow>
           cl_pa l AND 3 = 0 \<and> (\<forall>i<8. ram_ok s (cl_pa l + 4 * of_nat i) \<and> cl_pa l + 4 * of_nat i \<noteq> pa)))"

lemma write_back_other:
  assumes "c_width c = 32" "cl_tag l AND TAG_VALID_FLAG \<noteq> 0" "pa AND 3 = 0"
    and "cl_tag l AND 6 \<noteq> 0 \<longrightarrow> cl_pa l AND 3 = 0 \<and> (\<forall>i<8. ram_ok s (cl_pa l + 4 * of_nat i) \<and> cl_pa l + 4 * of_nat i \<noteq> pa)"
  shows "\<exists>t l'. mmu_cache_write_back B s c l = Some (t, l') \<and> ram_ok t = ram_ok s \<and> core_view t = core_view s \<and> ram_word t pa = ram_word s pa"
proof (cases "cl_tag l AND NOT 1 AND (2 OR 4) = 0")
  case True
  then show ?thesis using assms(2) by (auto simp: mmu_cache_write_back_def)
next
  case False
  have "cl_tag l AND NOT 1 AND (2 OR 4) = cl_tag l AND 6" by (rule word32_eqI) (auto simp: bit_simps)
  then have d: "cl_pa l AND 3 = 0" "\<And>i. i < 8 \<Longrightarrow> ram_ok s (cl_pa l + 4 * of_nat i) \<and> cl_pa l + 4 * of_nat i \<noteq> pa" using False assms(4) by auto
  let ?r = "dirty_range c l"
  have nw: "unat (drop_bit 2 (c_width c)) = 8" by (simp add: assms(1) drop_bit_eq_div)
  have r: "fst ?r = cl_pa l \<and> length (snd ?r) \<le> 8 \<or> fst ?r = cl_pa l + 16 \<and> length (snd ?r) \<le> 4"
    unfolding dirty_range_def Let_def nw by (simp add: push_bit_eq_mult min_le_iff_disj)
  have w: "ram_ok s (fst ?r + 4 * of_nat i) \<and> fst ?r + 4 * of_nat i \<noteq> pa" if "i < length (snd ?r)" for i
    using r d(2) [of i] d(2) [of "i + 4"] that by (auto simp: algebra_simps)
  have "fst ?r AND 3 = 0" using r d(1) aligned_step [OF aligned_step [OF aligned_step [OF aligned_step [OF d(1)]]]] by (auto simp: add.assoc)
  then obtain t where "write_words B s (fst ?r) (snd ?r) = Some t" "ram_ok t = ram_ok s" "core_view t = core_view s" "ram_word t pa = ram_word s pa"
    using write_words_other [of "snd ?r" s "fst ?r" pa B] w assms(3) by blast
  then show ?thesis using False assms(2) by (simp add: mmu_cache_write_back_def)
qed

lemma alloc_gives_word:
  assumes "alloc_ok s k va pa" "pa AND 31 = va AND 31" "va AND 3 = 0"
  shows "\<exists>t. hv_alloc B k s va pa = Some (ram_word s pa, t)"
proof -
  let ?c = "get_cache k s"
  let ?st = "va_cache_set va ?c"
  let ?i = "cs_cycle (c_sets ?c ! ?st)"
  let ?cs = "c_sets ?c ! ?st"
  define c2 where "c2 = ?c\<lparr>c_sets := (c_sets ?c)[?st := ?cs\<lparr>cs_cycle := if ?i + 1 = c_way ?c then 0 else ?i + 1\<rparr>]\<rparr>"
  let ?l = "victim ?c va" and ?pa = "pa AND NOT 31"
  note a = assms(1) [unfolded alloc_ok_def Let_def]
  have w: "c_width ?c = 2 ^ 5" using a by simp
  have st: "va_cache_set (va_cache_align va ?c) ?c = ?st"
    using va_cache_set_aligned [OF w, of "va_cache_align va ?c" va] align_align [OF w] by simp
  have al: "va_cache_align pa ?c = ?pa" using a by (simp add: va_cache_align_def)
  have n: "?st < length (c_sets ?c)" using va_cache_set_less a by blast
  have wy: "?i < length (cs_lines ?cs)" using a n by (auto simp: cache_wf_def)
  have l: "get_line c2 (?st, ?i) = ?l" using n by (simp add: c2_def get_line_def victim_def)
  have c2: "c_width c2 = 32" "c_w_mode c2 = CACHE_WRITE_BACK" using a by (simp_all add: c2_def)
  have pa3: "pa AND 3 = 0"
  proof -
    have "pa AND 3 = (pa AND 31) AND 3" "va AND 3 = (va AND 31) AND 3" by (simp_all add: and.assoc)
    then show ?thesis using assms(2,3) by metis
  qed
  obtain t l' where t: "(if cl_tag ?l AND TAG_VALID_FLAG \<noteq> 0 then mmu_cache_write_back B s c2 ?l else Some (s, ?l)) = Some (t, l')"
    "ram_ok t = ram_ok s" "ram_word t pa = ram_word s pa"
    using write_back_other [of c2 ?l pa s B] a pa3 c2(1) by (cases "cl_tag ?l AND TAG_VALID_FLAG \<noteq> 0") auto
  have nw: "unat (drop_bit 2 (c_width c2)) = 8" by (simp add: c2 drop_bit_eq_div)
  obtain ds u where u: "read_words B t ?pa 8 = Some (ds, u)" "length ds = 8" "\<forall>i<8. ds ! i = ram_word t (?pa + 4 * of_nat i)"
    using read_words_ram [of 8 t ?pa B] a t(2) by auto
  let ?j = "unat (drop_bit 2 (va AND 31))"
  have j: "?j < 8" using word_and_le1 [of "drop_bit 2 va" 7] by (simp add: word_le_nat_alt)
  have "?pa + 4 * of_nat ?j = pa"
  proof -
    have "4 * of_nat ?j = push_bit 2 (drop_bit 2 (pa AND 31))" unfolding assms(2) by (simp add: push_bit_eq_mult mult.commute)
    also have "\<dots> = pa AND 31" using bits_ident [of 2 "pa AND 31"] pa3 by (simp add: and_3_take_bit take_bit_and and.assoc flip: and_3_take_bit)
    finally have e: "4 * of_nat ?j = pa AND 31" .
    have "?pa + (pa AND 31) = ?pa OR (pa AND 31)" by (rule disjunctive_add) (auto simp: bit_simps)
    also have "\<dots> = pa" by (rule word32_eqI) (auto simp: bit_simps)
    finally show ?thesis unfolding e .
  qed
  then have v: "ds ! ?j = ram_word s pa" using u(3) j t(3) by simp
  have "alloc_fill B s c2 ?l ?pa = Some (u, l'\<lparr>cl_data := ds\<rparr>)"
    unfolding alloc_fill_def t(1) nw using u(1) by (simp add: c2)
  then have "mmu_cache_alloc B s ?c va pa = Some ((?st, ?i), u, upd_line (?st, ?i) (\<lambda>_. l'\<lparr>cl_data := ds, cl_tag := va_cache_align va ?c OR 1, cl_pa := ?pa\<rparr>) c2)"
    unfolding mmu_cache_alloc_def Let_def st al c2_def [symmetric] l by simp
  moreover have "place_ok c2 (?st, ?i)" using n wy by (simp add: place_ok_def c2_def)
  ultimately show ?thesis using v by (simp add: hv_alloc_def get_upd_line_same va_cache_index_def upd_line_geometry c2)
qed

lemma tlb_low_bits: "tlb_va_to_pa e va AND 31 = va AND 31"
  by (cases "te_mapping e"; rule word32_eqI) (auto simp: tlb_va_to_pa_def bit_simps)

section \<open>A store reaches the fetch\<close>

lemma ram_word_store:
  assumes "ram_ok s a"
  shows "\<exists>t. mem_write_word B s a d = Some t \<and> core_view t = core_view s \<and> TFlag t = TFlag s \<and> ram_ok t = ram_ok s \<and> ram_word t a = d"
proof -
  let ?i = "ram_index (mach s) a"
  obtain p where p: "mem_wf ((mach s)\<lparr>mbp := p\<rparr>)" "mem_write_word B s a d = Some (s\<lparr>mach := (mach s)\<lparr>mbp := p, global_mbp := Some ?i,
     rom := (rom (mach s))(?i := (rom (mach s) ?i)(rom_index (mach s) ?i a := d))\<rparr>\<rparr>)" (is "_ = Some ?t")
    using ram_write_word [OF assms, of B d] by blast
  have "ram_ok ?t = ram_ok s" by (rule ram_ok_upd [OF ram_ok_wf [OF assms] p(1)])
  moreover have "ram_index (mach ?t) a = ?i" using ram_index_cong [of "mach ?t" "mach s"] by simp
  then have "ram_word ?t a = d" unfolding ram_word_def by (simp add: rom_get_def rom_index_def)
  moreover have "core_view ?t = core_view s" "TFlag ?t = TFlag s" by (simp_all add: core_view_def)
  ultimately show ?thesis using p(2) by blast
qed

lemma cache_ram [simp]: "ram_ok (put_cache k c s) = ram_ok s"
  by (simp add: put_cache_def)

lemma thumb_frame [simp]: "TFlag (put_cache k c s) = TFlag s" "TFlag (with_domain e u) = TFlag u"
  by (simp_all add: put_cache_def upd_hw_def with_domain_def)

lemma word_aligned:
  assumes "(w :: ARMword) AND 3 = 0"
  shows "w AND NOT 3 = w" "w AND NOT (INSN_SIZE x - 1) = w" "w AND (INSN_SIZE x - 1) = 0"
proof -
  have "w AND NOT 3 OR w AND 3 = w" by (rule word32_eqI) (auto simp: bit_simps)
  then have 3: "w AND NOT 3 = w" using assms by simp
  have "w AND 1 = (w AND 3) AND 1" by (simp add: and.assoc)
  then have 1: "w AND 1 = 0" using assms by simp
  have "w AND NOT 1 = (w AND NOT 3) AND NOT 1" using 3 by simp
  also have "\<dots> = w AND NOT 3" by (rule word32_eqI) (auto simp: bit_simps)
  finally have "w AND NOT 1 = w" using 3 by simp
  then show "w AND NOT 3 = w" "w AND NOT (INSN_SIZE x - 1) = w" "w AND (INSN_SIZE x - 1) = 0" using assms 1 3 by (simp_all add: INSN_SIZE_def)
qed

text \<open>
  C23: on the XScale a program can write code.  A word stored through the unit is what the next instruction fetch from its address gives,
  whether or not the data cache holds the line and whether or not the cache is on, as long as both sides of the unit map the address to the same RAM.  The next
  load gives it as well, from the cache, from memory, or by filling a line from memory; in that last case the words of the line lie in RAM, and a dirty line
  that has to make room goes to other words (a dirty line that is an alias of the same words would overwrite the stored one).  (The caches of the ARM920T are write-back: there a stored word need not reach memory.)
\<close>

theorem xscale_store_fetch:
  fixes s :: "'y hstate" and va i j
  defines "w \<equiv> mmu_pid_va_map s va" and "e \<equiv> tlb_entrys (get_tlb D_TLB s) ! i" and "f \<equiv> tlb_entrys (get_tlb I_TLB s) ! j"
    and "c \<equiv> get_cache MAIN_D_CACHE s"
  assumes "control_bit s CONTROL_MMU" "w AND 3 = 0" "bigendSig s \<le> 1"
    and "mmu_tlb_search (get_tlb D_TLB s) w = Some i" "access_ok s w e False"
    and "mmu_tlb_search (get_tlb I_TLB s) w = Some j" "access_ok s w f True"
    and "tlb_va_to_pa f w = tlb_va_to_pa e w" "ram_ok s (tlb_va_to_pa e w)"
    and "cache_wf c" "c_width c = 32" "\<And>p. mmu_cache_search c w = Some p \<Longrightarrow> length (cl_data (get_line c p)) = 8"
  shows "\<exists>t u. xscale_mmu_write B Word s va d = Some (NO_FAULT, t) \<and> xscale_mmu_load_instr B t va = Some (Inr d, u)
    \<and> ((control_bit s CONTROL_CACHE \<and> mmu_cache_search c w = None \<and> tlb_c_flag e \<and> control_bit s CONTROL_DATA_CACHE \<longrightarrow>
           alloc_ok s (if tlb_b_flag e then MAIN_D_CACHE else MINI_D_CACHE) w (tlb_va_to_pa e w))
         \<longrightarrow> (\<exists>v. xscale_mmu_read B Word t va = Some (Inr d, v)))"
proof -
  let ?a = "tlb_va_to_pa e w"
  define s1 where "s1 = with_domain e s"
  define s2 where "s2 = (if control_bit s CONTROL_CACHE then (case mmu_cache_search c w of None \<Rightarrow> s1 | Some p \<Rightarrow> update_cache MAIN_D_CACHE Word s1 w d w p) else s1)"
  have s2: "mmu s2 = mmu s1" "Mode s2 = Mode s" "bigendSig s2 = bigendSig s" "TFlag s2 = TFlag s" "get_tlb k s2 = get_tlb k s" "ram_ok s2 = ram_ok s" for k
    by (auto simp: s2_def s1_def update_cache_def Let_def split: option.splits)
  obtain t where t: "mem_write_word B s2 ?a d = Some t" "core_view t = core_view s2" "TFlag t = TFlag s2" "ram_ok t = ram_ok s2" "ram_word t ?a = d"
    using ram_word_store [of s2 ?a B d] assms(13) s2(6) by auto
  note al = word_aligned [OF assms(6)]
  have m: "\<not> misaligned x Word w" for x :: "'y hstate" using assms(6) by (simp add: misaligned_def)
  have dt: "hv_translate B D_TLB s w False = Some (Inr e, s1)" using hv_translate_ok [OF assms(8)] assms(9) by (simp add: e_def s1_def)
  have wr: "xscale_mmu_write B Word s va d = Some (NO_FAULT, t)"
    using assms(5) t(1) unfolding xscale_mmu_write_def Let_def w_def [symmetric] al(1) s2_def c_def
    by (simp add: m dt lane_addr_def mem_write_type_def) (auto simp: s1_def split: if_splits)
  note cv = core_view_same [OF t(2)]
  have g: "mmu_pid_va_map t va = w" "control_bit t b = control_bit s b" for b
    using cv(7,8) s2(1) by (simp_all add: w_def mmu_pid_va_map_def control_bit_def s1_def with_domain_def)
  have ok: "access_ok t w x r = access_ok s w x r" for x r
    by (rule access_ok_cong) (simp_all add: cv s2 s1_def)
  have it: "hv_translate B I_TLB t w True = Some (Inr f, with_domain f t)"
    using hv_translate_ok [of I_TLB t w j True B] assms(10,11) ok by (simp add: cv s2 f_def)
  have rd: "\<exists>v. mem_read_word B (with_domain x t) ?a = Some (d, v)" for x
  proof -
    have "ram_word (with_domain x t) ?a = d" using t(5) by (simp add: ram_word_def)
    then show ?thesis using ram_read_word [of "with_domain x t" ?a B] t(4) s2(6) assms(13) by auto
  qed
  obtain v where "mem_read_word B (with_domain f t) ?a = Some (d, v)" using rd by blast
  then have "xscale_mmu_load_instr B t va = Some (Inr d, v)"
    using assms(5) it unfolding xscale_mmu_load_instr_def Let_def g(1) al by (simp add: g assms(12))
  moreover have "\<exists>v. xscale_mmu_read B Word t va = Some (Inr d, v)"
    if al_ok: "control_bit s CONTROL_CACHE \<and> mmu_cache_search c w = None \<and> tlb_c_flag e \<and> control_bit s CONTROL_DATA_CACHE \<longrightarrow>
           alloc_ok s (if tlb_b_flag e then MAIN_D_CACHE else MINI_D_CACHE) w ?a"
  proof -
    have et: "hv_translate B D_TLB t w True = Some (Inr e, with_domain e t)"
      using hv_translate_ok [of D_TLB t w i True B] assms(8) access_ok_read [OF assms(9)] ok by (simp add: cv s2 e_def)
    obtain v where v: "mem_read_word B (with_domain e t) ?a = Some (d, v)" using rd by blast
    show ?thesis
    proof (cases "control_bit s CONTROL_CACHE \<and> mmu_cache_search c w \<noteq> None")
      case True
      then obtain p where p: "mmu_cache_search c w = Some p" by auto
      have "map_option (pick Word (bigendSig s1) w) (hv_cached MAIN_D_CACHE (update_cache MAIN_D_CACHE Word s1 w d w p) w) = Some (sized Word d)"
        by (rule cached_after_update) (use assms(7,14,15) assms(16) [OF p] p in \<open>auto simp: s1_def c_def word_le_nat_alt word_unat_eq_iff\<close>)
      then have "hv_cached MAIN_D_CACHE (with_domain e t) w = Some d"
        using True p cv(2) by (simp add: hv_cached_def s2_def pick_def sized_def)
      then show ?thesis using True assms(5) et unfolding xscale_mmu_read_def Let_def g(1) al(1) by (simp add: g m pick_def)
    next
      case False
      then have n: "control_bit s CONTROL_CACHE \<longrightarrow> hv_cached MAIN_D_CACHE (with_domain e t) w = None \<and> s2 = s1 \<and> mmu_cache_search c w = None"
        using cv(2) [of MAIN_D_CACHE] by (cases "mmu_cache_search c w") (auto simp: hv_cached_def s2_def s1_def c_def)
      show ?thesis
      proof (cases "control_bit s CONTROL_CACHE \<and> tlb_c_flag e \<and> control_bit s CONTROL_DATA_CACHE")
        case True
        let ?k = "if tlb_b_flag e then MAIN_D_CACHE else MINI_D_CACHE"
        have "get_cache k (with_domain e t) = get_cache k s" for k using True n cv(2) [of k] by (simp add: s1_def)
        then have "alloc_ok (with_domain e t) ?k w ?a" using al_ok True n t(4) s2(6) by (simp add: alloc_ok_def Let_def)
        then obtain v where "hv_alloc B ?k (with_domain e t) w ?a = Some (ram_word (with_domain e t) ?a, v)"
          using alloc_gives_word [OF _ tlb_low_bits assms(6), of "with_domain e t" ?k e B] by blast
        moreover have "ram_word (with_domain e t) ?a = d" using t(5) by (simp add: ram_word_def)
        ultimately show ?thesis using True n assms(5) et unfolding xscale_mmu_read_def Let_def g(1) al(1) by (simp add: g m pick_def)
      next
        case False
        then show ?thesis using n v assms(5) et unfolding xscale_mmu_read_def Let_def g(1) al(1) by (auto simp: g m mem_read_type_def lane_addr_def)
      qed
    qed
  qed
  ultimately show ?thesis using wr by blast
qed

section \<open>An example\<close>

text \<open>The example of the other units, with the same entries in the buffer for instructions.\<close>

definition ex_xs :: "unit hstate" where
  "ex_xs = put_tlb I_TLB (get_tlb D_TLB ex_hv) ex_hv"

lemma ex_xs_parts:
  "get_tlb k ex_xs = h_d_tlb ex_hv_hw" "get_cache MAIN_D_CACHE ex_xs = h_d_cache ex_hv_hw" "bigendSig ex_xs = 0"
  "control_bit ex_xs b \<longleftrightarrow> 0x7d AND b \<noteq> 0" "mmu_pid_va_map ex_xs va = va" "access_ok ex_xs va e rd = access_ok ex_hv va e rd" "ram_ok ex_xs = ram_ok ex_hv"
proof -
  show "get_tlb k ex_xs = h_d_tlb ex_hv_hw"
    using ex_hv_parts(3) by (cases k) (simp_all add: ex_xs_def, simp add: get_tlb_def put_tlb_def)
  have h: "ex_xs = upd_hw (\<lambda>h. h\<lparr>h_i_tlb := get_tlb D_TLB ex_hv\<rparr>) ex_hv" by (simp add: ex_xs_def put_tlb_def)
  show "get_cache MAIN_D_CACHE ex_xs = h_d_cache ex_hv_hw" using ex_hv_parts(1) by (simp add: ex_xs_def)
  show "bigendSig ex_xs = 0" "control_bit ex_xs b \<longleftrightarrow> 0x7d AND b \<noteq> 0" "mmu_pid_va_map ex_xs va = va" "ram_ok ex_xs = ram_ok ex_hv"
    unfolding h by (simp_all add: ex_hv_parts)
  show "access_ok ex_xs va e rd = access_ok ex_hv va e rd" unfolding h by (rule access_ok_cong) simp_all
qed

lemma ex_xs_line: "i < 8 \<Longrightarrow> ram_ok ex_xs (0x40000020 + 4 * of_nat i)"
proof -
  assume i: "i < 8"
  have l: "live_banks (mach ex_hv) = take 3 ex_banks" unfolding live_banks_def ex_hv_parts by (simp add: ex_banks_def)
  have "unat (0x40000020 + 4 * of_nat i :: ARMword) = 0x40000020 + 4 * i" "unat (0x20 + 4 * of_nat i :: ARMword) = 0x20 + 4 * i" using i by (simp_all add: unat_word_ariths unat_of_nat)
  then have "bank_hit (ex_banks ! 1) (0x40000020 + 4 * of_nat i)"
    using i by (simp add: bank_hit_def ex_banks_def word_le_nat_alt word_less_nat_alt unat_sub)
  then have "ram_bank (mach ex_hv) (0x40000020 + 4 * of_nat i) 1" unfolding ram_bank_def l ex_hv_parts by (simp add: ex_banks_def)
  moreover have "remap_addr ex_hv a = a" for a by (simp add: ex_hv_def remap_addr_def ARMul_NewState_def)
  moreover have "mem_wf (mach ex_hv)" using ram_word_readable [OF ex_hv_ram] by (simp add: ram_ok_def)
  ultimately show ?thesis unfolding ex_xs_parts ram_ok_def using ex_hv_parts(5) by auto
qed

lemma ex_xs_alloc: "alloc_ok ex_xs MAIN_D_CACHE 0x20 0x40000020"
  using ex_xs_line unfolding alloc_ok_def ex_xs_parts
  by (simp add: ex_hv_cache, simp add: ex_hv_hw_def victim_def get_line_def va_cache_set_def)

text \<open>A word whose line is in the cache, and one whose line the load has to fetch.\<close>

theorem xscale_store_fetch_witness:
  "(\<exists>t u v. xscale_mmu_write undefined Word ex_xs 0 0xe1a00000 = Some (NO_FAULT, t)
     \<and> xscale_mmu_load_instr undefined t 0 = Some (Inr 0xe1a00000, u) \<and> xscale_mmu_read undefined Word t 0 = Some (Inr 0xe1a00000, v))
   \<and> (\<exists>t u v. xscale_mmu_write undefined Word ex_xs 0x20 0xe1a00000 = Some (NO_FAULT, t)
     \<and> xscale_mmu_load_instr undefined t 0x20 = Some (Inr 0xe1a00000, u) \<and> xscale_mmu_read undefined Word t 0x20 = Some (Inr 0xe1a00000, v))"
proof
  let ?e = "tlb_entrys (h_d_tlb ex_hv_hw) ! 0"
  have e: "te_domain ?e = 0" "tlb_va_to_pa ?e 0 = 0x40000000" "tlb_va_to_pa ?e 0x20 = 0x40000020" "tlb_b_flag ?e"
    by (simp_all add: ex_hv_hw_def tlb_va_to_pa_def tlb_b_flag_def Let_def)
  show "\<exists>t u v. xscale_mmu_write undefined Word ex_xs 0 0xe1a00000 = Some (NO_FAULT, t)
     \<and> xscale_mmu_load_instr undefined t 0 = Some (Inr 0xe1a00000, u) \<and> xscale_mmu_read undefined Word t 0 = Some (Inr 0xe1a00000, v)"
    using xscale_store_fetch [of ex_xs 0 0 0 undefined "0xe1a00000"] ex_hv_access [OF e(1)] ram_word_readable [OF ex_hv_ram] e(2)
    unfolding ex_xs_parts by (simp add: ex_hv_tlb ex_hv_cache)
  have t: "mmu_tlb_search (h_d_tlb ex_hv_hw) 0x20 = Some 0" by (simp add: ex_hv_hw_def mmu_tlb_search_def tlb_hit_def)
  have c: "mmu_cache_search (h_d_cache ex_hv_hw) 0x20 = None"
    by (simp add: ex_hv_hw_def mmu_cache_search_def va_cache_set_def va_cache_align_def line_hit_def)
  have r: "ram_ok ex_hv 0x40000020" using ex_xs_line [of 0] by (simp add: ex_xs_parts)
  show "\<exists>t u v. xscale_mmu_write undefined Word ex_xs 0x20 0xe1a00000 = Some (NO_FAULT, t)
     \<and> xscale_mmu_load_instr undefined t 0x20 = Some (Inr 0xe1a00000, u) \<and> xscale_mmu_read undefined Word t 0x20 = Some (Inr 0xe1a00000, v)"
    using xscale_store_fetch [of ex_xs "0x20" 0 0 undefined "0xe1a00000"] ex_hv_access [OF e(1)] r e(3,4) ex_xs_alloc
    unfolding ex_xs_parts by (simp add: t c ex_hv_cache)
qed

end
