(* ===== verification/Mach_Sa.thy ===== *)
theory Mach_Sa
  imports Arm_State
begin

text \<open>
  The peripherals of the SA-1100 board (\<^verbatim>\<open>arch/arm/mach/skyeye_mach_sa.c\<close>): clock, operating system timer, serial port 3 and
  interrupt controller.
\<close>

section \<open>State\<close>

record sa_io_t =
  icpr :: ARMword
  icip :: ARMword
  icfp :: ARMword
  icmr :: ARMword
  iccr :: ARMword
  iclr :: ARMword
  rcnr :: ARMword
  rtar :: ARMword
  rtsr :: ARMword
  rttr :: ARMword
  rt_scale :: ARMword
  rt_count :: ARMword
  oscr :: ARMword
  osmr0 :: ARMword
  osmr1 :: ARMword
  osmr2 :: ARMword
  osmr3 :: ARMword
  ower :: ARMword
  ossr :: ARMword
  oier :: ARMword
  os_scale :: ARMword
  utcr0 :: ARMword
  utcr1 :: ARMword
  utcr2 :: ARMword
  utcr3 :: ARMword
  utdr :: ARMword
  utsr0 :: ARMword
  utsr1 :: ARMword
  uart3_scale :: ARMword
  uart3_buf :: ARMbyte

text \<open>The static variable \<open>sa_io\<close>, the pins of the core the machine drives, and the host.\<close>

record 'e sa_sys =
  sa_io :: sa_io_t
  sa_nirq :: ARMword
  sa_nfiq :: ARMword
  sa_nreset :: ARMword
  sa_host :: 'e

text \<open>
  The serial devices (\<^verbatim>\<open>device/uart\<close>): \<open>skyeye_uart_read\<close> of one byte that does not wait gives a byte or nothing,
  \<open>skyeye_uart_write\<close> sends one; the first argument is the number of the device.
\<close>

record 'e uart_dev =
  skyeye_uart_read :: "int \<Rightarrow> 'e \<Rightarrow> ARMbyte option \<times> 'e"
  skyeye_uart_write :: "int \<Rightarrow> ARMbyte \<Rightarrow> 'e \<Rightarrow> 'e"

abbreviation (input) RT_SCALE :: ARMword where "RT_SCALE \<equiv> 3200"
abbreviation (input) OS_SCALE :: ARMword where "OS_SCALE \<equiv> 2"
abbreviation (input) UART3_SCALE :: ARMword where "UART3_SCALE \<equiv> 200"

abbreviation (input) RTC_ALARM_IRQ :: ARMword where "RTC_ALARM_IRQ \<equiv> 0x80000000"
abbreviation (input) RTC_HZ_IRQ :: ARMword where "RTC_HZ_IRQ \<equiv> 0x40000000"
abbreviation (input) OS_IRQ_SHF :: nat where "OS_IRQ_SHF \<equiv> 26"
abbreviation (input) UART3_IRQ :: ARMword where "UART3_IRQ \<equiv> 0x20000"

definition upd_io :: "(sa_io_t \<Rightarrow> sa_io_t) \<Rightarrow> 'e sa_sys \<Rightarrow> 'e sa_sys" where
  "upd_io f s = s\<lparr>sa_io := f (sa_io s)\<rparr>"

definition sa_io_zero :: sa_io_t where
  "sa_io_zero = \<lparr>icpr = 0, icip = 0, icfp = 0, icmr = 0, iccr = 0, iclr = 0, rcnr = 0, rtar = 0, rtsr = 0, rttr = 0,
     rt_scale = 0, rt_count = 0, oscr = 0, osmr0 = 0, osmr1 = 0, osmr2 = 0, osmr3 = 0, ower = 0, ossr = 0, oier = 0, os_scale = 0,
     utcr0 = 0, utcr1 = 0, utcr2 = 0, utcr3 = 0, utdr = 0, utsr0 = 0, utsr1 = 0, uart3_scale = 0, uart3_buf = 0\<rparr>"

definition sa_io_reset :: "'e sa_sys \<Rightarrow> 'e sa_sys" where
  "sa_io_reset s = s\<lparr>sa_io := sa_io_zero\<lparr>utsr0 := 1, utsr1 := 4\<rparr>\<rparr>"

abbreviation (input) ICIP :: ARMword where "ICIP \<equiv> 0x90050000"
abbreviation (input) ICMR :: ARMword where "ICMR \<equiv> 0x90050004"
abbreviation (input) ICLR :: ARMword where "ICLR \<equiv> 0x90050008"
abbreviation (input) ICFP :: ARMword where "ICFP \<equiv> 0x90050010"
abbreviation (input) ICPR :: ARMword where "ICPR \<equiv> 0x90050020"
abbreviation (input) RTAR :: ARMword where "RTAR \<equiv> 0x90010000"
abbreviation (input) RCNR :: ARMword where "RCNR \<equiv> 0x90010004"
abbreviation (input) RTTR :: ARMword where "RTTR \<equiv> 0x90010008"
abbreviation (input) RTSR :: ARMword where "RTSR \<equiv> 0x90010010"
abbreviation (input) OSMR0 :: ARMword where "OSMR0 \<equiv> 0x90000000"
abbreviation (input) OSMR1 :: ARMword where "OSMR1 \<equiv> 0x90000004"
abbreviation (input) OSMR2 :: ARMword where "OSMR2 \<equiv> 0x90000008"
abbreviation (input) OSMR3 :: ARMword where "OSMR3 \<equiv> 0x9000000C"
abbreviation (input) OSCR :: ARMword where "OSCR \<equiv> 0x90000010"
abbreviation (input) OSSR :: ARMword where "OSSR \<equiv> 0x90000014"
abbreviation (input) OWER :: ARMword where "OWER \<equiv> 0x90000018"
abbreviation (input) OIER :: ARMword where "OIER \<equiv> 0x9000001C"
abbreviation (input) UTCR0 :: ARMword where "UTCR0 \<equiv> 0x80050000"
abbreviation (input) UTCR1 :: ARMword where "UTCR1 \<equiv> 0x80050004"
abbreviation (input) UTCR2 :: ARMword where "UTCR2 \<equiv> 0x80050008"
abbreviation (input) UTCR3 :: ARMword where "UTCR3 \<equiv> 0x8005000C"
abbreviation (input) UTDR :: ARMword where "UTDR \<equiv> 0x80050014"
abbreviation (input) UTSR0 :: ARMword where "UTSR0 \<equiv> 0x8005001C"
abbreviation (input) UTSR1 :: ARMword where "UTSR1 \<equiv> 0x80050020"

section \<open>Register accesses\<close>

text \<open>The accesses to bytes and halfwords leave the simulator.\<close>

definition sa_io_write_byte :: "'e sa_sys \<Rightarrow> ARMword \<Rightarrow> ARMword \<Rightarrow> 'e sa_sys option" where
  "sa_io_write_byte s addr data = None"

definition sa_io_write_halfword :: "'e sa_sys \<Rightarrow> ARMword \<Rightarrow> ARMword \<Rightarrow> 'e sa_sys option" where
  "sa_io_write_halfword s addr data = None"

definition sa_io_read_byte :: "'e sa_sys \<Rightarrow> ARMword \<Rightarrow> (ARMword \<times> 'e sa_sys) option" where
  "sa_io_read_byte s addr = None"

definition sa_io_read_halfword :: "'e sa_sys \<Rightarrow> ARMword \<Rightarrow> (ARMword \<times> 'e sa_sys) option" where
  "sa_io_read_halfword s addr = None"

definition sa_io_write_word :: "'e uart_dev \<Rightarrow> 'e sa_sys \<Rightarrow> ARMword \<Rightarrow> ARMword \<Rightarrow> 'e sa_sys option" where
  "sa_io_write_word H s addr data =
     (let set = (\<lambda>f. Some (upd_io f s)) in
      if addr = RCNR then set (\<lambda>i. i\<lparr>rcnr := data\<rparr>)
      else if addr = RTAR then set (\<lambda>i. i\<lparr>rtar := data\<rparr>)
      else if addr = RTSR then set (\<lambda>i. i\<lparr>rtsr := (rtsr i OR (data AND 0xc)) AND NOT (data AND 0x3)\<rparr>)
      else if addr = RTTR then set (\<lambda>i. i\<lparr>rttr := data AND 0x3ffffff\<rparr>)
      else if addr = OSCR then set (\<lambda>i. i\<lparr>oscr := data\<rparr>)
      else if addr = OSMR0 then set (\<lambda>i. i\<lparr>osmr0 := data\<rparr>)
      else if addr = OSMR1 then set (\<lambda>i. i\<lparr>osmr1 := data\<rparr>)
      else if addr = OSMR2 then set (\<lambda>i. i\<lparr>osmr2 := data\<rparr>)
      else if addr = OSMR3 then set (\<lambda>i. i\<lparr>osmr3 := data\<rparr>)
      else if addr = OWER then set (\<lambda>i. i\<lparr>ower := ower i OR (data AND 1)\<rparr>)
      else if addr = OSSR then set (\<lambda>i. i\<lparr>ossr := ossr i AND NOT (data AND 0xf)\<rparr>)
      else if addr = OIER then set (\<lambda>i. i\<lparr>oier := data AND 0xf\<rparr>)
      else if addr = ICMR then set (\<lambda>i. i\<lparr>icmr := data\<rparr>)
      else if addr = ICLR then set (\<lambda>i. i\<lparr>iclr := data\<rparr>)
      else if addr = UTCR0 then set (\<lambda>i. i\<lparr>utcr0 := data AND 0x7f\<rparr>)
      else if addr = UTCR1 then set (\<lambda>i. i\<lparr>utcr1 := data AND 0xf\<rparr>)
      else if addr = UTCR2 then set (\<lambda>i. i\<lparr>utcr2 := data AND 0xff\<rparr>)
      else if addr = UTCR3 then set (\<lambda>i. i\<lparr>utcr3 := data AND 0x3f\<rparr>)
      else if addr = UTSR0 then set (\<lambda>i. i\<lparr>utsr0 := utsr0 i AND NOT (data AND 0x1b)\<rparr>)
      else if addr = UTDR then Some (s\<lparr>sa_host := skyeye_uart_write H (- 1) (ucast data) (sa_host s)\<rparr>)
      else Some s)"

definition sa_io_read_word :: "'e sa_sys \<Rightarrow> ARMword \<Rightarrow> (ARMword \<times> 'e sa_sys) option" where
  "sa_io_read_word s addr =
     (let i = sa_io s in
      if addr = UTDR then Some (ucast (uart3_buf i), upd_io (\<lambda>i. i\<lparr>utsr0 := 1, utsr1 := 4\<rparr>) s)
      else Some
       (if addr = RCNR then rcnr i
        else if addr = RTAR then rtar i
        else if addr = RTSR then rtsr i
        else if addr = RTTR then rttr i
        else if addr = OSCR then oscr i
        else if addr = OSMR0 then osmr0 i
        else if addr = OSMR1 then osmr1 i
        else if addr = OSMR2 then osmr2 i
        else if addr = OSMR3 then osmr3 i
        else if addr = OWER then ower i
        else if addr = OSSR then ossr i
        else if addr = OIER then oier i
        else if addr = ICPR then icpr i
        else if addr = ICIP then (icmr i AND icpr i) AND NOT (iclr i)
        else if addr = ICFP then (icmr i AND icpr i) AND iclr i
        else if addr = ICMR then icmr i
        else if addr = ICLR then iclr i
        else if addr = UTCR0 then utcr0 i
        else if addr = UTCR1 then utcr1 i
        else if addr = UTCR2 then utcr2 i
        else if addr = UTCR3 then utcr3 i
        else if addr = UTSR0 then utsr0 i
        else if addr = UTSR1 then utsr1 i
        else 0, s))"

section \<open>Cycles\<close>

definition rtc_tick :: "sa_io_t \<Rightarrow> sa_io_t" where
  "rtc_tick i =
     (let alarm = (rcnr i = rtar i);
          i = i\<lparr>rt_count := 0, rcnr := rcnr i + 1\<rparr>;
          i = (if alarm \<and> rtsr i AND 0x4 \<noteq> 0 then i\<lparr>rtsr := rtsr i OR 1\<rparr> else i)
      in if rtsr i AND 0x8 \<noteq> 0 then i\<lparr>rtsr := rtsr i OR 2\<rparr> else i)"

definition rtc_cycle :: "sa_io_t \<Rightarrow> sa_io_t" where
  "rtc_cycle i =
     (let i = i\<lparr>rt_scale := rt_scale i + 1\<rparr> in
      if rt_scale i \<ge> RT_SCALE then
        (let i = i\<lparr>rt_scale := 0\<rparr> in
         if rt_count i = rttr i AND 0xffff then rtc_tick i else i\<lparr>rt_count := rt_count i + 1\<rparr>)
      else i)"

definition os_matches :: "sa_io_t \<Rightarrow> ARMword \<Rightarrow> ARMword" where
  "os_matches i count =
     (if count = osmr0 i then 1 else 0) OR (if count = osmr1 i then 2 else 0)
     OR (if count = osmr2 i then 4 else 0) OR (if count = osmr3 i then 8 else 0)"

definition os_cycle :: "'e sa_sys \<Rightarrow> 'e sa_sys" where
  "os_cycle s =
     (let s = upd_io (\<lambda>i. i\<lparr>os_scale := os_scale i + 1\<rparr>) s; i = sa_io s in
      if os_scale i \<ge> OS_SCALE then
        (let count = oscr i;
             s = (if count = osmr3 i \<and> ower i AND 1 \<noteq> 0 then s\<lparr>sa_nreset := LOW\<rparr> else s)
         in upd_io (\<lambda>i. i\<lparr>os_scale := 0, oscr := count + 1, ossr := ossr i OR os_matches i count\<rparr>) s)
      else s)"

definition uart3_cycle :: "'e uart_dev \<Rightarrow> 'e sa_sys \<Rightarrow> 'e sa_sys" where
  "uart3_cycle H s =
     (let s = upd_io (\<lambda>i. i\<lparr>uart3_scale := uart3_scale i + 1\<rparr>) s in
      if uart3_scale (sa_io s) > UART3_SCALE then
        (let s = upd_io (\<lambda>i. i\<lparr>utsr0 := utsr0 i OR 1, utsr1 := utsr1 i OR 4, uart3_scale := 0\<rparr>) s in
         case skyeye_uart_read H (- 1) (sa_host s) of
           (None, h) \<Rightarrow> s\<lparr>sa_host := h\<rparr>
         | (Some c, h) \<Rightarrow> upd_io (\<lambda>i. i\<lparr>uart3_buf := c, utsr1 := utsr1 i OR 2, utsr0 := utsr0 i OR 4\<rparr>) (s\<lparr>sa_host := h\<rparr>))
      else s)"

definition irq_sources :: "sa_io_t \<Rightarrow> ARMword" where
  "irq_sources i =
     (let irq = (if rtsr i AND 0x1 \<noteq> 0 \<and> rtsr i AND 0x4 \<noteq> 0 then RTC_ALARM_IRQ else 0);
          irq = (if rtsr i AND 0x2 \<noteq> 0 \<and> rtsr i AND 0x8 \<noteq> 0 then irq OR RTC_HZ_IRQ else irq);
          irq = irq OR push_bit OS_IRQ_SHF (oier i AND ossr i);
          irq = (if utcr3 i AND 0x8 \<noteq> 0 \<and> utsr0 i AND 0x6 \<noteq> 0 then irq OR UART3_IRQ else irq);
          irq = (if utsr0 i AND 0x38 \<noteq> 0 then irq OR UART3_IRQ else irq)
      in if utcr3 i AND 0x10 \<noteq> 0 \<and> utsr0 i AND 0x1 \<noteq> 0 then irq OR UART3_IRQ else irq)"

definition refresh_irq :: "'e sa_sys \<Rightarrow> 'e sa_sys" where
  "refresh_irq s =
     (let s = upd_io (\<lambda>i. i\<lparr>icpr := irq_sources i\<rparr>) s;
          s = upd_io (\<lambda>i. i\<lparr>icip := (icmr i AND icpr i) AND NOT (iclr i)\<rparr>) s;
          s = upd_io (\<lambda>i. i\<lparr>icfp := (icmr i AND icpr i) AND iclr i\<rparr>) s
      in s\<lparr>sa_nirq := (if icip (sa_io s) \<noteq> 0 then LOW else HIGH),
           sa_nfiq := (if icfp (sa_io s) \<noteq> 0 then LOW else HIGH)\<rparr>)"

definition sa_io_do_cycle :: "'e uart_dev \<Rightarrow> 'e sa_sys \<Rightarrow> 'e sa_sys" where
  "sa_io_do_cycle H s = refresh_irq (uart3_cycle H (os_cycle (upd_io rtc_cycle s)))"

section \<open>The interrupt lines\<close>

definition osmr :: "nat \<Rightarrow> sa_io_t \<Rightarrow> ARMword" where
  "osmr k i = [osmr0 i, osmr1 i, osmr2 i, osmr3 i] ! k"

text \<open>The sources of the SA-1100 that request an interrupt, by the number of their bit.\<close>

definition sa_request :: "sa_io_t \<Rightarrow> nat \<Rightarrow> bool" where
  "sa_request i k \<longleftrightarrow>
     k = 31 \<and> bit (rtsr i) 0 \<and> bit (rtsr i) 2 \<or> k = 30 \<and> bit (rtsr i) 1 \<and> bit (rtsr i) 3
     \<or> 26 \<le> k \<and> k < 32 \<and> bit (oier i) (k - 26) \<and> bit (ossr i) (k - 26)
     \<or> k = 17 \<and> (bit (utcr3 i) 3 \<and> (bit (utsr0 i) 1 \<or> bit (utsr0 i) 2) \<or> bit (utcr3 i) 4 \<and> bit (utsr0 i) 0
         \<or> bit (utsr0 i) 3 \<or> bit (utsr0 i) 4 \<or> bit (utsr0 i) 5)"

lemma and_power: "(x :: ARMword) AND 2 ^ k \<noteq> 0 \<longleftrightarrow> bit x k"
  by (simp add: and_exp_eq_0_iff_not_bit)

lemma and_flags:
  "(x :: ARMword) AND 1 \<noteq> 0 \<longleftrightarrow> bit x 0" "x AND 2 \<noteq> 0 \<longleftrightarrow> bit x 1" "x AND 4 \<noteq> 0 \<longleftrightarrow> bit x 2" "x AND 8 \<noteq> 0 \<longleftrightarrow> bit x 3" "x AND 16 \<noteq> 0 \<longleftrightarrow> bit x 4"
  using and_power [of x 0] and_power [of x 1] and_power [of x 2] and_power [of x 3] and_power [of x 4] by simp_all

lemma or_flags: "(x :: ARMword) AND 6 \<noteq> 0 \<longleftrightarrow> bit x 1 \<or> bit x 2" "x AND 0x38 \<noteq> 0 \<longleftrightarrow> bit x 3 \<or> bit x 4 \<or> bit x 5"
proof -
  have "x AND (a OR b) \<noteq> 0 \<longleftrightarrow> x AND a \<noteq> 0 \<or> x AND b \<noteq> 0" for a b by (simp add: bit.conj_disj_distrib or_eq_0_iff)
  from this [of 2 4] this [of 8 "16 OR 32"] this [of 16 32]
  show "x AND 6 \<noteq> 0 \<longleftrightarrow> bit x 1 \<or> bit x 2" "x AND 0x38 \<noteq> 0 \<longleftrightarrow> bit x 3 \<or> bit x 4 \<or> bit x 5"
    using and_power [of x 1] and_power [of x 2] and_power [of x 3] and_power [of x 4] and_power [of x 5] by auto
qed

lemma bit_irq: "bit (0x80000000 :: ARMword) k \<longleftrightarrow> k = 31" "bit (0x40000000 :: ARMword) k \<longleftrightarrow> k = 30" "bit (0x20000 :: ARMword) k \<longleftrightarrow> k = 17"
  using bit_exp_iff [of 31 k, where 'a = "32 word"] bit_exp_iff [of 30 k, where 'a = "32 word"] bit_exp_iff [of 17 k, where 'a = "32 word"] by auto

lemma bit_if_or:
  "bit (if P then irq OR m else irq) k \<longleftrightarrow> bit irq k \<or> P \<and> bit (m :: ARMword) k" "bit (if P then m else 0) k \<longleftrightarrow> P \<and> bit m k"
  by (simp_all add: bit_or_iff)

lemma bit_irq_sources: "bit (irq_sources i) k \<longleftrightarrow> sa_request i k"
proof -
  have p: "bit (push_bit 26 x) k \<longleftrightarrow> 26 \<le> k \<and> k < 32 \<and> bit (x :: ARMword) (k - 26)" for x
    by (auto simp: bit_push_bit_iff)
  show ?thesis unfolding irq_sources_def Let_def and_flags or_flags bit_if_or bit_or_iff bit_irq p bit_and_iff sa_request_def by blast
qed

lemma nonzero_bit: "(x :: ARMword) \<noteq> 0 \<longleftrightarrow> (\<exists>k. bit x k)"
  by (metis bit_0_eq bit_eq_iff bot_apply bot_bool_def)

lemma refresh_lines:
  fixes u :: "'e sa_sys"
  defines "t \<equiv> refresh_irq u"
  shows "sa_nirq t = LOW \<longleftrightarrow> (\<exists>k. sa_request (sa_io t) k \<and> bit (icmr (sa_io t)) k \<and> \<not> bit (iclr (sa_io t)) k)"
    and "sa_nfiq t = LOW \<longleftrightarrow> (\<exists>k. sa_request (sa_io t) k \<and> bit (icmr (sa_io t)) k \<and> bit (iclr (sa_io t)) k)"
    and "bit (icpr (sa_io t)) k \<longleftrightarrow> sa_request (sa_io t) k"
proof -
  have r: "sa_request (sa_io t) = sa_request (sa_io u)"
    by (simp add: fun_eq_iff t_def refresh_irq_def upd_io_def sa_request_def)
  have f: "icmr (sa_io t) = icmr (sa_io u)" "iclr (sa_io t) = iclr (sa_io u)" "icpr (sa_io t) = irq_sources (sa_io u)"
    by (simp_all add: t_def refresh_irq_def upd_io_def)
  have b: "bit ((x AND y) AND NOT z) k \<longleftrightarrow> bit y k \<and> bit x k \<and> \<not> bit z k" for x y z :: ARMword and k
    by (auto simp: bit_and_iff bit_not_iff dest: bit_imp_le_length)
  show "bit (icpr (sa_io t)) k \<longleftrightarrow> sa_request (sa_io t) k" unfolding f r bit_irq_sources by simp
  have "sa_nirq t = LOW \<longleftrightarrow> (icmr (sa_io u) AND irq_sources (sa_io u)) AND NOT (iclr (sa_io u)) \<noteq> 0"
    by (simp add: t_def refresh_irq_def upd_io_def Let_def)
  then show "sa_nirq t = LOW \<longleftrightarrow> (\<exists>k. sa_request (sa_io t) k \<and> bit (icmr (sa_io t)) k \<and> \<not> bit (iclr (sa_io t)) k)"
    unfolding nonzero_bit b bit_irq_sources f r .
  have "sa_nfiq t = LOW \<longleftrightarrow> (icmr (sa_io u) AND irq_sources (sa_io u)) AND iclr (sa_io u) \<noteq> 0"
    by (simp add: t_def refresh_irq_def upd_io_def Let_def)
  then show "sa_nfiq t = LOW \<longleftrightarrow> (\<exists>k. sa_request (sa_io t) k \<and> bit (icmr (sa_io t)) k \<and> bit (iclr (sa_io t)) k)"
    unfolding nonzero_bit bit_and_iff bit_irq_sources f r by auto
qed

lemmas cycle_lines = refresh_lines [where u = "uart3_cycle H (os_cycle (upd_io rtc_cycle s))" for H s, folded sa_io_do_cycle_def]

text \<open>
  C39: after every cycle of the SA-1100 the IRQ line is low exactly when some source requests an interrupt that is enabled in ICMR and not routed to FIQ
  by ICLR, the FIQ line exactly when one is enabled and routed to FIQ, and ICPR shows exactly the requests: the alarm and the tick of the clock,
  the four matches of the timer, and the serial port.
\<close>

theorem sa_irq_lines:
  "(sa_nirq (sa_io_do_cycle H s) = LOW \<longleftrightarrow> (\<exists>k. sa_request (sa_io (sa_io_do_cycle H s)) k
      \<and> bit (icmr (sa_io (sa_io_do_cycle H s))) k \<and> \<not> bit (iclr (sa_io (sa_io_do_cycle H s))) k)) \<and>
   (sa_nfiq (sa_io_do_cycle H s) = LOW \<longleftrightarrow> (\<exists>k. sa_request (sa_io (sa_io_do_cycle H s)) k
      \<and> bit (icmr (sa_io (sa_io_do_cycle H s))) k \<and> bit (iclr (sa_io (sa_io_do_cycle H s))) k)) \<and>
   (\<forall>k. bit (icpr (sa_io (sa_io_do_cycle H s))) k \<longleftrightarrow> sa_request (sa_io (sa_io_do_cycle H s)) k)"
  by (intro conjI allI) (rule cycle_lines)+

section \<open>The operating system timer\<close>

type_synonym os_view = "ARMword \<times> ARMword \<times> ARMword \<times> ARMword list \<times> ARMword \<times> ARMword \<times> ARMword"

definition os_view :: "sa_io_t \<Rightarrow> os_view" where
  "os_view i = (os_scale i, oscr i, ossr i, [osmr0 i, osmr1 i, osmr2 i, osmr3 i], oier i, icmr i, iclr i)"

lemma os_view_rtc: "os_view (rtc_cycle i) = os_view i"
  by (simp add: rtc_cycle_def rtc_tick_def os_view_def Let_def)

lemma os_view_uart: "os_view (sa_io (uart3_cycle H s)) = os_view (sa_io s)"
  by (simp add: uart3_cycle_def upd_io_def os_view_def Let_def split: prod.splits option.splits)

lemma os_view_refresh: "os_view (sa_io (refresh_irq s)) = os_view (sa_io s)"
  by (simp add: refresh_irq_def upd_io_def os_view_def Let_def)

lemma os_cycle_view:
  assumes "os_view (sa_io s) = (sc, c, sr, ms, r)"
  shows "os_view (sa_io (os_cycle s)) = (if sc + 1 \<ge> 2 then (0, c + 1, sr OR os_matches (sa_io s) c, ms, r) else (sc + 1, c, sr, ms, r))"
proof -
  have "os_matches (i\<lparr>os_scale := x\<rparr>) = os_matches i" for i x by (simp add: os_matches_def fun_eq_iff)
  then show ?thesis using assms by (auto simp: os_cycle_def upd_io_def os_view_def Let_def)
qed

lemma do_cycle_view:
  assumes "os_view (sa_io s) = (sc, c, sr, ms, r)"
  shows "os_view (sa_io (sa_io_do_cycle H s)) = (if sc + 1 \<ge> 2 then (0, c + 1, sr OR os_matches (sa_io s) c, ms, r) else (sc + 1, c, sr, ms, r))"
proof -
  have r: "sa_io (upd_io rtc_cycle s) = rtc_cycle (sa_io s)" by (simp add: upd_io_def)
  then have v: "os_view (sa_io (upd_io rtc_cycle s)) = (sc, c, sr, ms, r)" using assms by (simp add: os_view_rtc)
  have "os_matches (rtc_cycle i) = os_matches i" for i
    using os_view_rtc [of i] by (simp add: os_view_def os_matches_def fun_eq_iff)
  then show ?thesis using os_cycle_view [OF v] unfolding sa_io_do_cycle_def os_view_refresh os_view_uart r by simp
qed

lemma os_matches_view:
  assumes "os_view i = (a, b, d, ms, r)" "os_view j = (a', b', d', ms, r')"
  shows "os_matches i = os_matches j"
proof -
  have "osmr0 i = osmr0 j" "osmr1 i = osmr1 j" "osmr2 i = osmr2 j" "osmr3 i = osmr3 j" using assms by (auto simp: os_view_def)
  then show ?thesis unfolding os_matches_def fun_eq_iff by (simp only: simp_thms)
qed

lemma os_two_cycles:
  assumes "os_view (sa_io s) = (0, c, sr, ms, r)"
  shows "os_view (sa_io (sa_io_do_cycle H s)) = (1, c, sr, ms, r)"
    "os_view (sa_io (sa_io_do_cycle H (sa_io_do_cycle H s))) = (0, c + 1, sr OR os_matches (sa_io s) c, ms, r)"
proof -
  show v: "os_view (sa_io (sa_io_do_cycle H s)) = (1, c, sr, ms, r)" using do_cycle_view [OF assms, of H] by (simp add: word_le_nat_alt)
  have "os_matches (sa_io (sa_io_do_cycle H s)) = os_matches (sa_io s)"
    using v assms os_matches_view by metis
  then show "os_view (sa_io (sa_io_do_cycle H (sa_io_do_cycle H s))) = (0, c + 1, sr OR os_matches (sa_io s) c, ms, r)"
    using do_cycle_view [OF v, of H] by simp
qed

lemma bit_os_matches: "k < 4 \<Longrightarrow> bit (os_matches i c) k \<longleftrightarrow> c = osmr k i"
proof -
  have "bit (1 :: ARMword) k = (k = 0)" "bit (2 :: ARMword) k = (k = 1)" "bit (4 :: ARMword) k = (k = 2)" "bit (8 :: ARMword) k = (k = 3)"
    using bit_exp_iff [of 0 k, where 'a = "32 word"] bit_exp_iff [of 1 k, where 'a = "32 word"]
      bit_exp_iff [of 2 k, where 'a = "32 word"] bit_exp_iff [of 3 k, where 'a = "32 word"] by auto
  note b = this
  assume "k < 4"
  then have "k = 0 \<or> k = 1 \<or> k = 2 \<or> k = 3" by linarith
  then show ?thesis unfolding os_matches_def bit_or_iff bit_if_or(2) b by (auto simp: osmr_def)
qed

text \<open>Before the counter reaches the match register, and at the match.\<close>

lemma os_before_match:
  assumes "os_view (sa_io s) = (0, c, sr, ms, r)" "k < 4" "m \<le> unat (ms ! k - c)"
  shows "\<exists>sr'. os_view (sa_io ((sa_io_do_cycle H ^^ (2 * m)) s)) = (0, c + of_nat m, sr', ms, r) \<and> bit sr' k = bit sr k"
  using assms(3)
proof (induction m)
  case 0
  then show ?case using assms(1) by simp
next
  case (Suc m)
  let ?t = "(sa_io_do_cycle H ^^ (2 * m)) s"
  obtain sr' where v: "os_view (sa_io ?t) = (0, c + of_nat m, sr', ms, r)" "bit sr' k = bit sr k" using Suc by auto
  have "osmr k (sa_io ?t) = ms ! k" using v(1) by (auto simp: os_view_def osmr_def)
  moreover have "c + of_nat m \<noteq> ms ! k"
  proof
    assume "c + of_nat m = ms ! k"
    then have "ms ! k - c = of_nat m" by (metis add_diff_cancel_left')
    then have "unat (ms ! k - c) \<le> m" by (simp add: unat_of_nat)
    then show False using Suc.prems by simp
  qed
  ultimately have "\<not> bit (os_matches (sa_io ?t) (c + of_nat m)) k" using bit_os_matches [OF assms(2)] by simp
  then show ?case using os_two_cycles(2) [OF v(1), of H] v(2) by (simp add: bit_or_iff add.assoc add.commute [of 1])
qed

text \<open>
  C22: the operating system timer interrupts on time.  With the prescaler at 0 and the match register k ahead of the counter by n (modulo 2^32), the
  match bit is set and the IRQ line is low after exactly 2 n + 2 cycles, and the bit does not change before.
\<close>

theorem sa_os_timer_interrupts:
  fixes s :: "'e sa_sys" and k
  defines "n \<equiv> unat (osmr k (sa_io s) - oscr (sa_io s))"
  assumes "os_scale (sa_io s) = 0" "k < 4" "bit (oier (sa_io s)) k" "bit (icmr (sa_io s)) (26 + k)" "\<not> bit (iclr (sa_io s)) (26 + k)"
  shows "sa_nirq ((sa_io_do_cycle H ^^ (2 * n + 2)) s) = LOW \<and> bit (ossr (sa_io ((sa_io_do_cycle H ^^ (2 * n + 2)) s))) k
    \<and> (\<forall>m < 2 * n + 2. bit (ossr (sa_io ((sa_io_do_cycle H ^^ m) s))) k = bit (ossr (sa_io s)) k)"
proof -
  obtain c sr ms r where v: "os_view (sa_io s) = (0, c, sr, ms, r)" using assms(2) by (auto simp: os_view_def)
  have ms: "ms ! k = osmr k (sa_io s)" "c = oscr (sa_io s)" "sr = ossr (sa_io s)" "r = (oier (sa_io s), icmr (sa_io s), iclr (sa_io s))"
    using v by (auto simp: os_view_def osmr_def)
  have n: "n = unat (ms ! k - c)" by (simp add: n_def ms)
  have even: "bit (ossr (sa_io ((sa_io_do_cycle H ^^ (2 * m)) s))) k = bit sr k" if "m \<le> n" for m
    using os_before_match [OF v assms(3), of m H] that by (auto simp: n os_view_def)
  have odd: "bit (ossr (sa_io ((sa_io_do_cycle H ^^ (2 * m + 1)) s))) k = bit sr k" if "m \<le> n" for m
  proof -
    obtain sr' where w: "os_view (sa_io ((sa_io_do_cycle H ^^ (2 * m)) s)) = (0, c + of_nat m, sr', ms, r)" "bit sr' k = bit sr k"
      using os_before_match [OF v assms(3), of m H] \<open>m \<le> n\<close> by (auto simp: n)
    show ?thesis using os_two_cycles(1) [OF w(1), of H] w(2) by (simp add: os_view_def)
  qed
  have before: "bit (ossr (sa_io ((sa_io_do_cycle H ^^ m) s))) k = bit (ossr (sa_io s)) k" if "m < 2 * n + 2" for m
    using even [of "m div 2"] odd [of "m div 2"] that unfolding ms(3) [symmetric] by (cases "even m") (auto elim!: evenE oddE)
  obtain sr' where w: "os_view (sa_io ((sa_io_do_cycle H ^^ (2 * n)) s)) = (0, c + of_nat n, sr', ms, r)"
    using os_before_match [OF v assms(3), of n H] by (auto simp: n)
  let ?t = "(sa_io_do_cycle H ^^ (2 * n)) s" and ?u = "(sa_io_do_cycle H ^^ (2 * n + 2)) s"
  have "c + of_nat n = ms ! k" by (simp add: n)
  moreover have "osmr k (sa_io ?t) = ms ! k" using w by (auto simp: os_view_def osmr_def)
  ultimately have "bit (os_matches (sa_io ?t) (c + of_nat n)) k" using bit_os_matches [OF assms(3)] by simp
  moreover have "?u = sa_io_do_cycle H (sa_io_do_cycle H ?t)" by simp
  ultimately have u: "bit (ossr (sa_io ?u)) k" "oier (sa_io ?u) = oier (sa_io s)" "icmr (sa_io ?u) = icmr (sa_io s)" "iclr (sa_io ?u) = iclr (sa_io s)"
    using os_two_cycles(2) [OF w, of H] ms(4) by (auto simp: os_view_def bit_or_iff)
  have "sa_nirq (sa_io_do_cycle H x) = LOW" if "bit (ossr (sa_io (sa_io_do_cycle H x))) k" "oier (sa_io (sa_io_do_cycle H x)) = oier (sa_io s)"
      "icmr (sa_io (sa_io_do_cycle H x)) = icmr (sa_io s)" "iclr (sa_io (sa_io_do_cycle H x)) = iclr (sa_io s)" for x
    using assms(3-6) that unfolding cycle_lines(1) by (intro exI [of _ "26 + k"]) (simp add: sa_request_def)
  then show ?thesis using u before by simp
qed

section \<open>Witness\<close>

definition ex_dev :: "unit uart_dev" where
  "ex_dev = \<lparr>skyeye_uart_read = (\<lambda>_ e. (None, e)), skyeye_uart_write = (\<lambda>_ _ e. e)\<rparr>"

definition ex_sa :: "unit sa_sys" where
  "ex_sa = \<lparr>sa_io = sa_io_zero\<lparr>osmr0 := 1, oier := 1, icmr := 0x4000000\<rparr>, sa_nirq = HIGH, sa_nfiq = HIGH, sa_nreset = HIGH, sa_host = ()\<rparr>"

theorem sa_os_timer_interrupts_witness:
  "sa_nirq ((sa_io_do_cycle ex_dev ^^ 4) ex_sa) = LOW \<and> \<not> bit (ossr (sa_io ((sa_io_do_cycle ex_dev ^^ 3) ex_sa))) 0"
proof -
  have i: "osmr 0 (sa_io ex_sa) = 1" "oscr (sa_io ex_sa) = 0" "os_scale (sa_io ex_sa) = 0" "bit (oier (sa_io ex_sa)) 0"
      "bit (icmr (sa_io ex_sa)) (26 + 0)" "\<not> bit (iclr (sa_io ex_sa)) (26 + 0)" "\<not> bit (ossr (sa_io ex_sa)) 0"
    by (simp_all add: ex_sa_def osmr_def sa_io_zero_def bit_numeral_rec)
  show ?thesis using sa_os_timer_interrupts [of ex_sa 0 ex_dev, OF i(3) _ i(4-6)] unfolding i(1,2) using i(7) by simp
qed

end
