(* ===== verification/Mach_S3c2410.thy ===== *)
theory Mach_S3c2410
  imports Mach_Sa
begin

text \<open>
  The peripherals of the S3C2410X board (\<^verbatim>\<open>arch/arm/mach/skyeye_mach_s3c2410x.c\<close>, \<^verbatim>\<open>s3c2410x.h\<close>): interrupt controller, serial ports,
  timers, clock and memory controllers, watchdog and pins.
\<close>

section \<open>State\<close>

text \<open>The arrays are total functions; the code stays within their bounds.  The fields \<open>timer\<close> and \<open>uart\<close> of the C struct are \<open>pwm\<close> and \<open>uarts\<close> here.\<close>

record s3c2410x_clkpower =
  locktime :: ARMword
  mpllcon :: ARMword
  upllcon :: ARMword
  clkcon :: ARMword
  clkslow :: ARMword
  clkdivn :: ARMword

record s3c2410x_timer_io =
  tcfg0 :: ARMword
  tcfg1 :: ARMword
  tcon :: ARMword
  tcnt :: "nat \<Rightarrow> ARMword"
  tcmp :: "nat \<Rightarrow> ARMword"
  tcntb :: "nat \<Rightarrow> ARMword"
  tcmpb :: "nat \<Rightarrow> ARMword"
  tcnto :: "nat \<Rightarrow> ARMword"

record s3c2410x_uart_io =
  ulcon :: ARMword
  ucon :: ARMword
  ufcon :: ARMword
  umcon :: ARMword
  utrstat :: ARMword
  uerstat :: ARMword
  ufstat :: ARMword
  umstat :: ARMword
  utxh :: ARMword
  urxh :: ARMword
  ubrdiv :: ARMword

record s3c2410_memctl_t =
  bwscon :: ARMword
  bankcon :: "nat \<Rightarrow> ARMword"
  refresh :: ARMword
  banksize :: ARMword
  mrsrb6 :: ARMword
  mrsrb7 :: ARMword

record s3c2410_wd_timer_t =
  wtcon :: ARMword
  wtdat :: ARMword
  wtcnt :: ARMword

record s3c2410x_io_t =
  srcpnd :: ARMword
  intmod :: ARMword
  intmsk :: ARMword
  priority :: ARMword
  intpnd :: ARMword
  intoffset :: ARMword
  subsrcpnd :: ARMword
  intsubmsk :: ARMword
  eintmask :: ARMword
  eintpend :: ARMword
  pwm :: s3c2410x_timer_io
  uarts :: "nat \<Rightarrow> s3c2410x_uart_io"
  clkpower :: s3c2410x_clkpower
  memctl :: s3c2410_memctl_t
  wd_timer :: s3c2410_wd_timer_t
  gpio_ctl :: "nat \<Rightarrow> ARMword"

text \<open>The static variable \<open>s3c2410x_io\<close>, the pins of the core the machine drives, and the host.\<close>

record 'e s3c_sys =
  s3c_io :: s3c2410x_io_t
  s3c_nirq :: ARMword
  s3c_nfiq :: ARMword
  s3c_host :: 'e

abbreviation (input) BWSCON :: ARMword where "BWSCON \<equiv> 0x48000000"
abbreviation (input) BANKCON0 :: ARMword where "BANKCON0 \<equiv> 0x48000004"
abbreviation (input) BANKCON1 :: ARMword where "BANKCON1 \<equiv> 0x48000008"
abbreviation (input) BANKCON2 :: ARMword where "BANKCON2 \<equiv> 0x4800000c"
abbreviation (input) BANKCON3 :: ARMword where "BANKCON3 \<equiv> 0x48000010"
abbreviation (input) BANKCON4 :: ARMword where "BANKCON4 \<equiv> 0x48000014"
abbreviation (input) BANKCON5 :: ARMword where "BANKCON5 \<equiv> 0x48000018"
abbreviation (input) BANKCON6 :: ARMword where "BANKCON6 \<equiv> 0x4800001c"
abbreviation (input) BANKCON7 :: ARMword where "BANKCON7 \<equiv> 0x48000020"
abbreviation (input) REFRESH :: ARMword where "REFRESH \<equiv> 0x48000024"
abbreviation (input) BANKSIZE :: ARMword where "BANKSIZE \<equiv> 0x48000028"
abbreviation (input) MRSRB6 :: ARMword where "MRSRB6 \<equiv> 0x4800002c"
abbreviation (input) MRSRB7 :: ARMword where "MRSRB7 \<equiv> 0x48000030"
abbreviation (input) LOCKTIME :: ARMword where "LOCKTIME \<equiv> 0x4c000000"
abbreviation (input) MPLLCON :: ARMword where "MPLLCON \<equiv> 0x4c000004"
abbreviation (input) UPLLCON :: ARMword where "UPLLCON \<equiv> 0x4c000008"
abbreviation (input) CLKCON :: ARMword where "CLKCON \<equiv> 0x4c00000c"
abbreviation (input) CLKSLOW :: ARMword where "CLKSLOW \<equiv> 0x4c000010"
abbreviation (input) CLKDIVN :: ARMword where "CLKDIVN \<equiv> 0x4c000014"
abbreviation (input) SRCPND :: ARMword where "SRCPND \<equiv> 0x4a000000"
abbreviation (input) INTMOD :: ARMword where "INTMOD \<equiv> 0x4a000004"
abbreviation (input) INTMSK :: ARMword where "INTMSK \<equiv> 0x4a000008"
abbreviation (input) PRIORITY :: ARMword where "PRIORITY \<equiv> 0x4a00000c"
abbreviation (input) INTPND :: ARMword where "INTPND \<equiv> 0x4a000010"
abbreviation (input) INTOFFSET :: ARMword where "INTOFFSET \<equiv> 0x4a000014"
abbreviation (input) SUBSRCPND :: ARMword where "SUBSRCPND \<equiv> 0x4a000018"
abbreviation (input) INTSUBMSK :: ARMword where "INTSUBMSK \<equiv> 0x4a00001c"
abbreviation (input) EINTMASK :: ARMword where "EINTMASK \<equiv> 0x560000a4"
abbreviation (input) EINTPEND :: ARMword where "EINTPEND \<equiv> 0x560000a8"
abbreviation (input) GSTATUS1 :: ARMword where "GSTATUS1 \<equiv> 0x560000b0"
abbreviation (input) WDCON :: ARMword where "WDCON \<equiv> 0x53000000"
abbreviation (input) WDDAT :: ARMword where "WDDAT \<equiv> 0x53000004"
abbreviation (input) WDCNT :: ARMword where "WDCNT \<equiv> 0x53000008"
abbreviation (input) ULCON :: ARMword where "ULCON \<equiv> 0x0"
abbreviation (input) UCON :: ARMword where "UCON \<equiv> 0x4"
abbreviation (input) UFCON :: ARMword where "UFCON \<equiv> 0x8"
abbreviation (input) UMCON :: ARMword where "UMCON \<equiv> 0xc"
abbreviation (input) UTRSTAT :: ARMword where "UTRSTAT \<equiv> 0x10"
abbreviation (input) UERSTAT :: ARMword where "UERSTAT \<equiv> 0x14"
abbreviation (input) UFSTAT :: ARMword where "UFSTAT \<equiv> 0x18"
abbreviation (input) UMSTAT :: ARMword where "UMSTAT \<equiv> 0x1c"
abbreviation (input) UTXH :: ARMword where "UTXH \<equiv> 0x20"
abbreviation (input) URXH :: ARMword where "URXH \<equiv> 0x24"
abbreviation (input) UBRDIV :: ARMword where "UBRDIV \<equiv> 0x28"
abbreviation (input) INT_UART0 :: ARMword where "INT_UART0 \<equiv> 0x10000000"
abbreviation (input) INT_UART1 :: ARMword where "INT_UART1 \<equiv> 0x800000"
abbreviation (input) INT_UART2 :: ARMword where "INT_UART2 \<equiv> 0x8000"
abbreviation (input) INT_TIMER4 :: ARMword where "INT_TIMER4 \<equiv> 0x4000"
abbreviation (input) INT_EINT8_23 :: ARMword where "INT_EINT8_23 \<equiv> 0x20"
abbreviation (input) INT_EINT4_7 :: ARMword where "INT_EINT4_7 \<equiv> 0x10"
abbreviation (input) INT_ADC :: ARMword where "INT_ADC \<equiv> 0x400"

abbreviation (input) INT_MASK_INIT :: ARMword where "INT_MASK_INIT \<equiv> 0xffffffff"
abbreviation (input) INT_SUBMSK_INIT :: ARMword where "INT_SUBMSK_INIT \<equiv> 0x7ff"
abbreviation (input) UART_INT_RXD :: ARMword where "UART_INT_RXD \<equiv> 1"
abbreviation (input) UART_INT_TXD :: ARMword where "UART_INT_TXD \<equiv> 2"
abbreviation (input) UART_CTL_BASE0 :: ARMword where "UART_CTL_BASE0 \<equiv> 0x50000000"
abbreviation (input) UART_CTL_SIZE :: ARMword where "UART_CTL_SIZE \<equiv> 0x802c"
abbreviation (input) PWM_CTL_BASE :: ARMword where "PWM_CTL_BASE \<equiv> 0x51000000"
abbreviation (input) PWM_CTL_SIZE :: ARMword where "PWM_CTL_SIZE \<equiv> 0x44"
abbreviation (input) GPIO_CTL_BASE :: ARMword where "GPIO_CTL_BASE \<equiv> 0x56000000"

definition upd_s3c :: "(s3c2410x_io_t \<Rightarrow> s3c2410x_io_t) \<Rightarrow> 'e s3c_sys \<Rightarrow> 'e s3c_sys" where
  "upd_s3c f s = s\<lparr>s3c_io := f (s3c_io s)\<rparr>"

definition s3c_uart :: "'e s3c_sys \<Rightarrow> nat \<Rightarrow> s3c2410x_uart_io" where
  "s3c_uart s k = uarts (s3c_io s) k"

definition upd_s3c_uart :: "nat \<Rightarrow> (s3c2410x_uart_io \<Rightarrow> s3c2410x_uart_io) \<Rightarrow> 'e s3c_sys \<Rightarrow> 'e s3c_sys" where
  "upd_s3c_uart k f = upd_s3c (\<lambda>i. i\<lparr>uarts := (uarts i)(k := f (uarts i k))\<rparr>)"

definition upd_pwm :: "(s3c2410x_timer_io \<Rightarrow> s3c2410x_timer_io) \<Rightarrow> 'e s3c_sys \<Rightarrow> 'e s3c_sys" where
  "upd_pwm f = upd_s3c (\<lambda>i. i\<lparr>pwm := f (pwm i)\<rparr>)"

section \<open>Interrupts\<close>

definition s3c2410x_set_subsrcint :: "ARMword \<Rightarrow> 'e s3c_sys \<Rightarrow> 'e s3c_sys" where
  "s3c2410x_set_subsrcint irq = upd_s3c (\<lambda>i. i\<lparr>subsrcpnd := subsrcpnd i OR irq\<rparr>)"

text \<open>A source is marked pending when one of its requests is.\<close>

definition raise_src :: "ARMword \<Rightarrow> ARMword \<Rightarrow> ARMword \<Rightarrow> 'e s3c_sys \<Rightarrow> 'e s3c_sys" where
  "raise_src requests m src s = (if requests AND m \<noteq> 0 then upd_s3c (\<lambda>i. i\<lparr>srcpnd := srcpnd i OR src\<rparr>) s else s)"

definition s3c2410x_update_subsrcint :: "'e s3c_sys \<Rightarrow> 'e s3c_sys" where
  "s3c2410x_update_subsrcint s =
     (let s = s3c2410x_set_subsrcint (push_bit (0 * 3) UART_INT_TXD) s;
          s = s3c2410x_set_subsrcint (push_bit (1 * 3) UART_INT_TXD) s;
          s = s3c2410x_set_subsrcint (push_bit (2 * 3) UART_INT_TXD) s;
          requests = (subsrcpnd (s3c_io s) AND NOT (intsubmsk (s3c_io s))) AND 0x7fff;
          s = raise_src requests 0x7 INT_UART0 s;
          s = raise_src requests 0x38 INT_UART1 s;
          s = raise_src requests 0x1c0 INT_UART2 s
      in raise_src requests 0x600 INT_ADC s)"

definition s3c2410x_update_extint :: "'e s3c_sys \<Rightarrow> 'e s3c_sys" where
  "s3c2410x_update_extint s =
     (let requests = eintpend (s3c_io s) AND NOT (eintmask (s3c_io s));
          s = raise_src requests 0xF0 INT_EINT4_7 s
      in raise_src requests 0xFFFF00 INT_EINT8_23 s)"

definition s3c2410x_update_int :: "'e s3c_sys \<Rightarrow> 'e s3c_sys" where
  "s3c2410x_update_int s =
     (let s = s3c2410x_update_extint (s3c2410x_update_subsrcint s);
          requests = srcpnd (s3c_io s) AND (NOT (intmsk (s3c_io s)) AND INT_MASK_INIT)
      in s\<lparr>s3c_nfiq := (if requests AND intmod (s3c_io s) \<noteq> 0 then LOW else HIGH),
           s3c_nirq := (if requests AND NOT (intmod (s3c_io s)) \<noteq> 0 then LOW else HIGH)\<rparr>)"

text \<open>The functions the network devices call; \<open>interrupt\<close> is less than 32.\<close>

definition s3c2410x_set_ext_intr :: "nat \<Rightarrow> 'e s3c_sys \<Rightarrow> 'e s3c_sys" where
  "s3c2410x_set_ext_intr interrupt = upd_s3c (\<lambda>i. i\<lparr>eintpend := eintpend i OR push_bit interrupt 1\<rparr>)"

definition s3c2410x_pending_ext_intr :: "nat \<Rightarrow> 'e s3c_sys \<Rightarrow> ARMword" where
  "s3c2410x_pending_ext_intr interrupt s = eintpend (s3c_io s) AND push_bit interrupt 1"

definition s3c2410x_update_intr :: "'e s3c_sys \<Rightarrow> 'e s3c_sys" where
  "s3c2410x_update_intr s = s3c2410x_update_int s"

section \<open>Reset\<close>

definition s3c_uart_zero :: s3c2410x_uart_io where
  "s3c_uart_zero = \<lparr>ulcon = 0, ucon = 0, ufcon = 0, umcon = 0, utrstat = 0, uerstat = 0, ufstat = 0, umstat = 0, utxh = 0, urxh = 0, ubrdiv = 0\<rparr>"

definition s3c_io_zero :: s3c2410x_io_t where
  "s3c_io_zero = \<lparr>srcpnd = 0, intmod = 0, intmsk = 0, priority = 0, intpnd = 0, intoffset = 0, subsrcpnd = 0, intsubmsk = 0,
     eintmask = 0, eintpend = 0,
     pwm = \<lparr>tcfg0 = 0, tcfg1 = 0, tcon = 0, tcnt = (\<lambda>_. 0), tcmp = (\<lambda>_. 0), tcntb = (\<lambda>_. 0), tcmpb = (\<lambda>_. 0), tcnto = (\<lambda>_. 0)\<rparr>,
     uarts = (\<lambda>_. s3c_uart_zero),
     clkpower = \<lparr>locktime = 0, mpllcon = 0, upllcon = 0, clkcon = 0, clkslow = 0, clkdivn = 0\<rparr>,
     memctl = \<lparr>bwscon = 0, bankcon = (\<lambda>_. 0), refresh = 0, banksize = 0, mrsrb6 = 0, mrsrb7 = 0\<rparr>,
     wd_timer = \<lparr>wtcon = 0, wtdat = 0, wtcnt = 0\<rparr>, gpio_ctl = (\<lambda>_. 0)\<rparr>"

text \<open>The part of the reset that concerns the peripherals; it also sets \<open>lateabtSig\<close> and the machine number in \<open>Reg[1]\<close>.\<close>

definition s3c2410x_io_reset :: "'e s3c_sys \<Rightarrow> 'e s3c_sys" where
  "s3c2410x_io_reset s = s\<lparr>s3c_io := s3c_io_zero\<lparr>
     uarts := (\<lambda>k. if k < 3 then s3c_uart_zero\<lparr>ulcon := 3, utrstat := 6\<rparr> else s3c_uart_zero),
     clkpower := (clkpower s3c_io_zero)\<lparr>locktime := 0x00FFFFFF, mpllcon := 0x0002c080, upllcon := 0x00028080, clkcon := 0x7FFF0, clkslow := 0x4\<rparr>,
     intmsk := INT_MASK_INIT, intpnd := 0, eintmask := 0x00FFFFF0\<rparr>\<rparr>"

definition s3c2410x_reset_core :: "'m ARMul_State \<Rightarrow> 'm ARMul_State" where
  "s3c2410x_reset_core s = set_reg 1 193 (s\<lparr>lateabtSig := LOW\<rparr>)"

section \<open>Cycles\<close>

text \<open>A serial port that can receive polls the host.\<close>

definition s3c_uart_poll :: "'e uart_dev \<Rightarrow> nat \<Rightarrow> 'e s3c_sys \<Rightarrow> 'e s3c_sys" where
  "s3c_uart_poll H k s =
     (if utrstat (s3c_uart s k) AND 1 = 0 \<and> ucon (s3c_uart s k) AND 3 = 1 then
        (case skyeye_uart_read H (int k) (s3c_host s) of
           (None, h) \<Rightarrow> s\<lparr>s3c_host := h\<rparr>
         | (Some buf, h) \<Rightarrow>
             (let buf = (if buf = 1 then 3 else buf);
                  s = upd_s3c_uart k (\<lambda>u. u\<lparr>urxh := ucast buf, utrstat := utrstat u OR 1, ufstat := ufstat u OR 1\<rparr>) (s\<lparr>s3c_host := h\<rparr>)
              in s3c2410x_update_int (s3c2410x_set_subsrcint (push_bit (k * 3) UART_INT_RXD) s)))
      else s)"

text \<open>The counters are signed.\<close>

definition s3c2410x_io_do_cycle :: "'e uart_dev \<Rightarrow> 'e s3c_sys \<Rightarrow> 'e s3c_sys" where
  "s3c2410x_io_do_cycle H s =
     (let polls = (\<lambda>s. fold (s3c_uart_poll H) [0, 1, 2] s) in
      if tcon (pwm (s3c_io s)) AND 0x100000 \<noteq> 0 then
        (let s = upd_pwm (\<lambda>t. t\<lparr>tcnt := (tcnt t)(4 := tcnt t 4 - 1)\<rparr>) s in
         if sint (tcnt (pwm (s3c_io s)) 4) < 0 then
           (let s = upd_pwm (\<lambda>t. t\<lparr>tcnt := (tcnt t)(4 := tcntb t 4), tcnto := (tcnto t)(4 := tcntb t 4)\<rparr>) s
            in s3c2410x_update_int (upd_s3c (\<lambda>i. i\<lparr>srcpnd := srcpnd i OR INT_TIMER4\<rparr>) s))
         else polls s)
      else polls s)"

section \<open>Serial ports and timers\<close>

text \<open>The argument \<open>data\<close> is what the caller's variable holds; an unknown register leaves it.\<close>

definition s3c2410x_uart_read :: "'e s3c_sys \<Rightarrow> ARMword \<Rightarrow> ARMword \<Rightarrow> nat \<Rightarrow> ARMword \<times> 'e s3c_sys" where
  "s3c2410x_uart_read s offset data index =
     (let u = s3c_uart s index in
      if offset = URXH then (urxh u, upd_s3c_uart index (\<lambda>u. u\<lparr>utrstat := utrstat u AND NOT 1, ufstat := ufstat u AND NOT 1\<rparr>) s)
      else (if offset = ULCON then ulcon u
            else if offset = UCON then ucon u
            else if offset = UFCON then ufcon u
            else if offset = UMCON then umcon u
            else if offset = UTRSTAT then utrstat u
            else if offset = UERSTAT then uerstat u
            else if offset = UFSTAT then ufstat u
            else if offset = UMSTAT then umstat u
            else if offset = UBRDIV then ubrdiv u
            else data, s))"

definition s3c2410x_uart_write :: "'e uart_dev \<Rightarrow> 'e s3c_sys \<Rightarrow> ARMword \<Rightarrow> ARMword \<Rightarrow> nat \<Rightarrow> 'e s3c_sys" where
  "s3c2410x_uart_write H s offset data index =
     (let set = (\<lambda>f. upd_s3c_uart index f s) in
      if offset = ULCON then set (\<lambda>u. u\<lparr>ulcon := data\<rparr>)
      else if offset = UCON then set (\<lambda>u. u\<lparr>ucon := data\<rparr>)
      else if offset = UFCON then set (\<lambda>u. u\<lparr>ufcon := data\<rparr>)
      else if offset = UMCON then set (\<lambda>u. u\<lparr>umcon := data\<rparr>)
      else if offset = UTRSTAT then set (\<lambda>u. u\<lparr>utrstat := data\<rparr>)
      else if offset = UERSTAT then set (\<lambda>u. u\<lparr>uerstat := data\<rparr>)
      else if offset = UFSTAT then set (\<lambda>u. u\<lparr>ufstat := data\<rparr>)
      else if offset = UMSTAT then set (\<lambda>u. u\<lparr>umstat := data\<rparr>)
      else if offset = UTXH then
        (let s = s\<lparr>s3c_host := skyeye_uart_write H (int index) (ucast data) (s3c_host s)\<rparr>;
             s = upd_s3c_uart index (\<lambda>u. u\<lparr>utrstat := utrstat u OR 6\<rparr>) s
         in if ucon (s3c_uart s index) AND 0xc = 4
            then s3c2410x_update_int (s3c2410x_set_subsrcint (push_bit (index * 3) UART_INT_TXD) s) else s)
      else if offset = UBRDIV then set (\<lambda>u. u\<lparr>ubrdiv := data\<rparr>)
      else s)"

definition s3c2410x_timer_read :: "'e s3c_sys \<Rightarrow> ARMword \<Rightarrow> ARMword \<Rightarrow> ARMword" where
  "s3c2410x_timer_read s offset data =
     (let t = pwm (s3c_io s); n = unat ((offset - 0xc) div 0xc); m = unat ((offset - 0x10) div 0xc) in
      if offset = 0 then tcfg0 t
      else if offset = 4 then tcfg1 t
      else if offset = 8 then tcon t
      else if offset \<in> {0xc, 0x18, 0x24, 0x30, 0x3c} then tcntb t n
      else if offset \<in> {0x10, 0x1c, 0x28, 0x34} then tcmpb t m
      else if offset \<in> {0x14, 0x20, 0x2c, 0x38} then tcnto t m
      else if offset = 0x40 then tcnt t 4
      else data)"

text \<open>Every write to a count buffer stores 25350 / 20, whatever the data.\<close>

definition s3c2410x_timer_write :: "'e s3c_sys \<Rightarrow> ARMword \<Rightarrow> ARMword \<Rightarrow> 'e s3c_sys" where
  "s3c2410x_timer_write s offset data =
     (let n = unat ((offset - 0xc) div 0xc); m = unat ((offset - 0x10) div 0xc) in
      if offset = 0 then upd_pwm (\<lambda>t. t\<lparr>tcfg0 := data\<rparr>) s
      else if offset = 4 then upd_pwm (\<lambda>t. t\<lparr>tcfg1 := data\<rparr>) s
      else if offset = 8 then upd_pwm (\<lambda>t. t\<lparr>tcon := data\<rparr>) s
      else if offset \<in> {0xc, 0x18, 0x24, 0x30, 0x3c} then upd_pwm (\<lambda>t. t\<lparr>tcntb := (tcntb t)(n := 1267)\<rparr>) s
      else if offset \<in> {0x10, 0x1c, 0x28, 0x34} then upd_pwm (\<lambda>t. t\<lparr>tcmpb := (tcmpb t)(m := data)\<rparr>) s
      else s)"

section \<open>Register accesses\<close>

text \<open>The first bit of \<open>srcpnd\<close> that is set, as the loop of the register \<open>INTPND\<close> finds it.\<close>

definition pending_source :: "ARMword \<Rightarrow> nat option" where
  "pending_source w = find (\<lambda>k. w AND push_bit k 1 \<noteq> 0) [0..<32]"

definition int_pending_read :: "ARMword \<Rightarrow> 'e s3c_sys \<Rightarrow> ARMword \<times> 'e s3c_sys" where
  "int_pending_read addr s =
     (let (data, s) = (case pending_source (srcpnd (s3c_io s)) of
            None \<Rightarrow> (0, s)
          | Some k \<Rightarrow> (if addr = INTPND then push_bit k 1 else of_nat k,
                        upd_s3c (\<lambda>i. i\<lparr>intoffset := of_nat k, intpnd := push_bit k 1\<rparr>) s))
      in (data, upd_s3c (\<lambda>i. i\<lparr>intpnd := push_bit (unat (intoffset i)) 1\<rparr>) s))"

definition s3c2410x_io_read_word :: "'e s3c_sys \<Rightarrow> ARMword \<Rightarrow> ARMword \<times> 'e s3c_sys" where
  "s3c2410x_io_read_word s addr =
     (let data = - 1; i = s3c_io s in
      if addr \<ge> UART_CTL_BASE0 \<and> addr < UART_CTL_BASE0 + UART_CTL_SIZE then
        s3c2410x_uart_read s ((addr - UART_CTL_BASE0) mod 0x4000) data (unat ((addr - UART_CTL_BASE0) div 0x4000))
      else if addr \<ge> PWM_CTL_BASE \<and> addr < PWM_CTL_BASE + PWM_CTL_SIZE then (s3c2410x_timer_read s (addr - PWM_CTL_BASE) data, s)
      else if addr \<ge> GPIO_CTL_BASE \<and> addr < GPIO_CTL_BASE + 0xA4 then (gpio_ctl i (unat (addr - GPIO_CTL_BASE)), s)
      else if addr = INTPND \<or> addr = INTOFFSET then int_pending_read addr s
      else (
             if addr = SRCPND then srcpnd i
             else if addr = INTMOD then intmod i
             else if addr = INTMSK then intmsk i
             else if addr = PRIORITY then priority i
             else if addr = SUBSRCPND then subsrcpnd i
             else if addr = INTSUBMSK then intsubmsk i
             else if addr = EINTMASK then eintmask i
             else if addr = EINTPEND then eintpend i
             else if addr = GSTATUS1 then 0x32410000
             else if addr = LOCKTIME then locktime (clkpower i)
             else if addr = MPLLCON then mpllcon (clkpower i)
             else if addr = UPLLCON then upllcon (clkpower i)
             else if addr = CLKCON then clkcon (clkpower i)
             else if addr = CLKSLOW then clkslow (clkpower i)
             else if addr = CLKDIVN then clkdivn (clkpower i)
             else if addr = BWSCON then bwscon (memctl i)
             else if addr = BANKCON0 then bankcon (memctl i) 0
             else if addr = BANKCON1 then bankcon (memctl i) 1
             else if addr = BANKCON2 then bankcon (memctl i) 2
             else if addr = BANKCON3 then bankcon (memctl i) 3
             else if addr = BANKCON4 then bankcon (memctl i) 4
             else if addr = BANKCON5 then bankcon (memctl i) 5
             else if addr = BANKCON6 then bankcon (memctl i) 6
             else if addr = BANKCON7 then bankcon (memctl i) 7
             else if addr = REFRESH then refresh (memctl i)
             else if addr = BANKSIZE then banksize (memctl i)
             else if addr = MRSRB6 then mrsrb6 (memctl i)
             else if addr = MRSRB7 then mrsrb7 (memctl i)
             else if addr = WDCON then wtcon (wd_timer i)
             else if addr = WDDAT then wtdat (wd_timer i)
             else if addr = WDCNT then wtcnt (wd_timer i)
             else data, s))"

text \<open>These two functions have no \<open>return\<close>: what their caller gets is \<open>junk\<close>.\<close>

definition s3c2410x_io_read_byte :: "ARMword \<Rightarrow> 'e s3c_sys \<Rightarrow> ARMword \<Rightarrow> ARMword \<times> 'e s3c_sys" where
  "s3c2410x_io_read_byte junk s addr = (junk, snd (s3c2410x_io_read_word s addr))"

definition s3c2410x_io_read_halfword :: "ARMword \<Rightarrow> 'e s3c_sys \<Rightarrow> ARMword \<Rightarrow> ARMword \<times> 'e s3c_sys" where
  "s3c2410x_io_read_halfword junk s addr = (junk, snd (s3c2410x_io_read_word s addr))"

definition s3c2410x_io_write_word :: "'e uart_dev \<Rightarrow> 'e s3c_sys \<Rightarrow> ARMword \<Rightarrow> ARMword \<Rightarrow> 'e s3c_sys" where
  "s3c2410x_io_write_word H s addr data =
     (let set = (\<lambda>f. upd_s3c f s) in
      if addr \<ge> UART_CTL_BASE0 \<and> addr < UART_CTL_BASE0 + UART_CTL_SIZE then
        s3c2410x_uart_write H s ((addr - UART_CTL_BASE0) mod 0x4000) data (unat ((addr - UART_CTL_BASE0) div 0x4000))
      else if addr \<ge> PWM_CTL_BASE \<and> addr < PWM_CTL_BASE + PWM_CTL_SIZE then s3c2410x_timer_write s (addr - PWM_CTL_BASE) data
      else if addr \<ge> GPIO_CTL_BASE \<and> addr < GPIO_CTL_BASE + 0xA4 then
        set (\<lambda>i. i\<lparr>gpio_ctl := (gpio_ctl i)(unat (addr - GPIO_CTL_BASE) := data)\<rparr>)
      else if addr = SRCPND then s3c2410x_update_int (set (\<lambda>i. i\<lparr>srcpnd := srcpnd i AND (NOT data AND INT_MASK_INIT)\<rparr>))
      else if addr = INTMSK then s3c2410x_update_int (set (\<lambda>i. i\<lparr>intmsk := data\<rparr>))
      else if addr = INTMOD then set (\<lambda>i. i\<lparr>intmod := data\<rparr>)
      else if addr = PRIORITY then set (\<lambda>i. i\<lparr>priority := data\<rparr>)
      else if addr = INTPND then set (\<lambda>i. i\<lparr>intpnd := intpnd i AND (NOT data AND INT_MASK_INIT), intoffset := 0\<rparr>)
      else if addr = SUBSRCPND then set (\<lambda>i. i\<lparr>subsrcpnd := subsrcpnd i AND (NOT data AND INT_SUBMSK_INIT)\<rparr>)
      else if addr = INTSUBMSK then set (\<lambda>i. i\<lparr>intsubmsk := data\<rparr>)
      else if addr = EINTMASK then set (\<lambda>i. i\<lparr>eintmask := data\<rparr>)
      else if addr = EINTPEND then set (\<lambda>i. i\<lparr>eintpend := eintpend i AND (NOT data AND 0x00FFFFF0)\<rparr>)
      else if addr = CLKCON then set (\<lambda>i. i\<lparr>clkpower := (clkpower i)\<lparr>clkcon := data\<rparr>\<rparr>)
      else if addr = CLKSLOW then set (\<lambda>i. i\<lparr>clkpower := (clkpower i)\<lparr>clkslow := data\<rparr>\<rparr>)
      else if addr = CLKDIVN then set (\<lambda>i. i\<lparr>clkpower := (clkpower i)\<lparr>clkdivn := data\<rparr>\<rparr>)
      else if addr = BWSCON then set (\<lambda>i. i\<lparr>memctl := (memctl i)\<lparr>bwscon := data\<rparr>\<rparr>)
      else if addr = MPLLCON then set (\<lambda>i. i\<lparr>clkpower := (clkpower i)\<lparr>mpllcon := data\<rparr>\<rparr>)
      else if addr = BANKCON0 then set (\<lambda>i. i\<lparr>memctl := (memctl i)\<lparr>bankcon := (bankcon (memctl i))(0 := data)\<rparr>\<rparr>)
      else if addr = BANKCON1 then set (\<lambda>i. i\<lparr>memctl := (memctl i)\<lparr>bankcon := (bankcon (memctl i))(1 := data)\<rparr>\<rparr>)
      else if addr = BANKCON2 then set (\<lambda>i. i\<lparr>memctl := (memctl i)\<lparr>bankcon := (bankcon (memctl i))(2 := data)\<rparr>\<rparr>)
      else if addr = BANKCON3 then set (\<lambda>i. i\<lparr>memctl := (memctl i)\<lparr>bankcon := (bankcon (memctl i))(3 := data)\<rparr>\<rparr>)
      else if addr = BANKCON4 then set (\<lambda>i. i\<lparr>memctl := (memctl i)\<lparr>bankcon := (bankcon (memctl i))(4 := data)\<rparr>\<rparr>)
      else if addr = BANKCON5 then set (\<lambda>i. i\<lparr>memctl := (memctl i)\<lparr>bankcon := (bankcon (memctl i))(5 := data)\<rparr>\<rparr>)
      else if addr = BANKCON6 then set (\<lambda>i. i\<lparr>memctl := (memctl i)\<lparr>bankcon := (bankcon (memctl i))(6 := data)\<rparr>\<rparr>)
      else if addr = BANKCON7 then set (\<lambda>i. i\<lparr>memctl := (memctl i)\<lparr>bankcon := (bankcon (memctl i))(7 := data)\<rparr>\<rparr>)
      else if addr = REFRESH then set (\<lambda>i. i\<lparr>memctl := (memctl i)\<lparr>refresh := data\<rparr>\<rparr>)
      else if addr = BANKSIZE then set (\<lambda>i. i\<lparr>memctl := (memctl i)\<lparr>banksize := data\<rparr>\<rparr>)
      else if addr = MRSRB6 then set (\<lambda>i. i\<lparr>memctl := (memctl i)\<lparr>mrsrb6 := data\<rparr>\<rparr>)
      else if addr = MRSRB7 then set (\<lambda>i. i\<lparr>memctl := (memctl i)\<lparr>mrsrb7 := data\<rparr>\<rparr>)
      else if addr = WDCON then set (\<lambda>i. i\<lparr>wd_timer := (wd_timer i)\<lparr>wtcon := data\<rparr>\<rparr>)
      else if addr = WDDAT then set (\<lambda>i. i\<lparr>wd_timer := (wd_timer i)\<lparr>wtdat := data\<rparr>\<rparr>)
      else if addr = WDCNT then set (\<lambda>i. i\<lparr>wd_timer := (wd_timer i)\<lparr>wtcnt := data\<rparr>\<rparr>)
      else s)"

definition s3c2410x_io_write_byte :: "'e uart_dev \<Rightarrow> 'e s3c_sys \<Rightarrow> ARMword \<Rightarrow> ARMword \<Rightarrow> 'e s3c_sys" where
  "s3c2410x_io_write_byte H s addr data = s3c2410x_io_write_word H s addr data"

definition s3c2410x_io_write_halfword :: "'e uart_dev \<Rightarrow> 'e s3c_sys \<Rightarrow> ARMword \<Rightarrow> ARMword \<Rightarrow> 'e s3c_sys" where
  "s3c2410x_io_write_halfword H s addr data = s3c2410x_io_write_word H s addr data"

section \<open>The interrupt lines\<close>

definition int_view :: "s3c2410x_io_t \<Rightarrow> s3c2410x_timer_io \<times> ARMword \<times> ARMword" where
  "int_view i = (pwm i, intmsk i, intmod i)"

lemma raise_src_view [simp]: "int_view (s3c_io (raise_src r m src s)) = int_view (s3c_io s)"
  by (simp add: raise_src_def upd_s3c_def int_view_def)

lemma raise_src_mono: "bit (srcpnd (s3c_io s)) k \<Longrightarrow> bit (srcpnd (s3c_io (raise_src r m src s))) k"
  by (simp add: raise_src_def upd_s3c_def bit_or_iff)

lemma subsrc_view [simp]: "int_view (s3c_io (s3c2410x_set_subsrcint irq s)) = int_view (s3c_io s)" "srcpnd (s3c_io (s3c2410x_set_subsrcint irq s)) = srcpnd (s3c_io s)"
  by (simp_all add: s3c2410x_set_subsrcint_def upd_s3c_def int_view_def)

lemma update_int_view [simp]: "int_view (s3c_io (s3c2410x_update_int s)) = int_view (s3c_io s)"
  by (simp add: s3c2410x_update_int_def s3c2410x_update_extint_def s3c2410x_update_subsrcint_def Let_def)

lemma update_int_mono: "bit (srcpnd (s3c_io s)) k \<Longrightarrow> bit (srcpnd (s3c_io (s3c2410x_update_int s))) k"
  by (simp add: s3c2410x_update_int_def s3c2410x_update_extint_def s3c2410x_update_subsrcint_def Let_def raise_src_mono)

lemma s3c_int_lines:
  fixes s :: "'e s3c_sys"
  defines "t \<equiv> s3c2410x_update_int s"
  shows "s3c_nirq t = LOW \<longleftrightarrow> (\<exists>k. bit (srcpnd (s3c_io t)) k \<and> \<not> bit (intmsk (s3c_io t)) k \<and> \<not> bit (intmod (s3c_io t)) k)"
    and "s3c_nfiq t = LOW \<longleftrightarrow> (\<exists>k. bit (srcpnd (s3c_io t)) k \<and> \<not> bit (intmsk (s3c_io t)) k \<and> bit (intmod (s3c_io t)) k)"
proof -
  define u where "u = s3c2410x_update_extint (s3c2410x_update_subsrcint s)"
  have b: "bit ((x AND (NOT y AND 0xffffffff)) AND NOT z) k \<longleftrightarrow> bit x k \<and> \<not> bit y k \<and> \<not> bit z k"
      "bit ((x AND (NOT y AND 0xffffffff)) AND z) k \<longleftrightarrow> bit x k \<and> \<not> bit y k \<and> bit z k" for x y z :: ARMword and k
  proof -
    have "w AND 0xffffffff = w" for w :: ARMword
    proof -
      have "(0xffffffff :: ARMword) = - 1" by simp
      then show ?thesis by (metis and.right_neutral)
    qed
    then show "bit ((x AND (NOT y AND 0xffffffff)) AND NOT z) k \<longleftrightarrow> bit x k \<and> \<not> bit y k \<and> \<not> bit z k"
      "bit ((x AND (NOT y AND 0xffffffff)) AND z) k \<longleftrightarrow> bit x k \<and> \<not> bit y k \<and> bit z k"
      by (auto simp: bit_and_iff bit_not_iff dest: bit_imp_le_length)
  qed
  have t: "s3c_io t = s3c_io u"
      "s3c_nirq t = LOW \<longleftrightarrow> (srcpnd (s3c_io u) AND (NOT (intmsk (s3c_io u)) AND 0xffffffff)) AND NOT (intmod (s3c_io u)) \<noteq> 0"
      "s3c_nfiq t = LOW \<longleftrightarrow> (srcpnd (s3c_io u) AND (NOT (intmsk (s3c_io u)) AND 0xffffffff)) AND intmod (s3c_io u) \<noteq> 0"
    by (simp_all add: t_def u_def s3c2410x_update_int_def Let_def)
  show "s3c_nirq t = LOW \<longleftrightarrow> (\<exists>k. bit (srcpnd (s3c_io t)) k \<and> \<not> bit (intmsk (s3c_io t)) k \<and> \<not> bit (intmod (s3c_io t)) k)"
    unfolding t nonzero_bit b(1) ..
  show "s3c_nfiq t = LOW \<longleftrightarrow> (\<exists>k. bit (srcpnd (s3c_io t)) k \<and> \<not> bit (intmsk (s3c_io t)) k \<and> bit (intmod (s3c_io t)) k)"
    unfolding t nonzero_bit b(2) ..
qed

section \<open>Timer 4\<close>

lemma poll_view: "int_view (s3c_io (s3c_uart_poll H k s)) = int_view (s3c_io s)"
  by (simp add: s3c_uart_poll_def upd_s3c_uart_def upd_s3c_def Let_def split: prod.splits option.splits) (simp add: int_view_def)

lemma polls_view: "int_view (s3c_io (fold (s3c_uart_poll H) ks s)) = int_view (s3c_io s)"
  by (induction ks arbitrary: s) (simp_all add: poll_view)

definition timer4_step :: "s3c2410x_timer_io \<Rightarrow> s3c2410x_timer_io" where
  "timer4_step t = t\<lparr>tcnt := (tcnt t)(4 := tcnt t 4 - 1)\<rparr>"

lemma sint_pred:
  assumes "0 \<le> sint (w :: ARMword)"
  shows "sint (w - 1) = sint w - 1"
proof -
  have "sint w < 2 ^ 31" using sint_less [of w] by simp
  then show ?thesis using assms by (simp add: sint_word_ariths(2) signed_take_bit_int_eq_self)
qed

lemma cycle_counts:
  assumes "tcon (pwm (s3c_io s)) AND 0x100000 \<noteq> 0" "0 < sint (tcnt (pwm (s3c_io s)) 4)"
  shows "int_view (s3c_io (s3c2410x_io_do_cycle H s)) = (timer4_step (pwm (s3c_io s)), intmsk (s3c_io s), intmod (s3c_io s))"
proof -
  let ?s = "upd_pwm timer4_step s"
  have "sint (tcnt (pwm (s3c_io s)) 4 - 1) = sint (tcnt (pwm (s3c_io s)) 4) - 1"
    using assms(2) by (simp add: sint_pred)
  then have "s3c2410x_io_do_cycle H s = fold (s3c_uart_poll H) [0, 1, 2] ?s"
    using assms by (simp add: s3c2410x_io_do_cycle_def upd_pwm_def upd_s3c_def timer4_step_def Let_def)
  then have "int_view (s3c_io (s3c2410x_io_do_cycle H s)) = int_view (s3c_io ?s)" by (simp only: polls_view)
  then show ?thesis by (simp add: int_view_def upd_pwm_def upd_s3c_def)
qed

lemma step_fields:
  "tcon ((timer4_step ^^ m) t) = tcon t" "tcntb ((timer4_step ^^ m) t) = tcntb t" "tcnt ((timer4_step ^^ m) t) 4 = tcnt t 4 - of_nat m"
  by (induction m) (simp_all add: timer4_step_def)

lemma sint_minus_nat: "m \<le> n \<Longrightarrow> sint (w :: ARMword) = int n \<Longrightarrow> sint (w - of_nat m) = int (n - m)"
proof (induction m)
  case (Suc m)
  then have "sint (w - of_nat m) = int (n - m)" by simp
  then show ?case using sint_pred [of "w - of_nat m"] Suc.prems(1) by (simp add: algebra_simps)
qed simp

lemma cycles_count:
  assumes "tcon (pwm (s3c_io s)) AND 0x100000 \<noteq> 0" "sint (tcnt (pwm (s3c_io s)) 4) = int n" "m \<le> n"
  shows "int_view (s3c_io ((s3c2410x_io_do_cycle H ^^ m) s)) = ((timer4_step ^^ m) (pwm (s3c_io s)), intmsk (s3c_io s), intmod (s3c_io s))"
  using assms(3)
proof (induction m)
  case (Suc m)
  let ?t = "(s3c2410x_io_do_cycle H ^^ m) s"
  have v: "int_view (s3c_io ?t) = ((timer4_step ^^ m) (pwm (s3c_io s)), intmsk (s3c_io s), intmod (s3c_io s))" using Suc by simp
  then have p: "pwm (s3c_io ?t) = (timer4_step ^^ m) (pwm (s3c_io s))" "intmsk (s3c_io ?t) = intmsk (s3c_io s)" "intmod (s3c_io ?t) = intmod (s3c_io s)"
    by (simp_all add: int_view_def)
  have "0 < sint (tcnt (pwm (s3c_io ?t)) 4)" unfolding p step_fields using sint_minus_nat [OF _ assms(2), of m] Suc.prems by simp
  then show ?case using cycle_counts [of ?t H] assms(1) by (simp add: p step_fields)
qed (simp add: int_view_def)

text \<open>
  C24: timer 4 of the S3C2410X interrupts on time.  When it runs with n to go, the counter falls by one per cycle; after n + 1 cycles it is
  reloaded from its buffer, its source is pending, and the IRQ line is low unless the source is masked or routed to FIQ.
\<close>

theorem s3c_timer4_interrupts:
  assumes "tcon (pwm (s3c_io s)) AND 0x100000 \<noteq> 0" "sint (tcnt (pwm (s3c_io s)) 4) = int n"
    and "\<not> bit (intmsk (s3c_io s)) 14" "\<not> bit (intmod (s3c_io s)) 14"
  shows "s3c_nirq ((s3c2410x_io_do_cycle H ^^ (n + 1)) s) = LOW \<and> bit (srcpnd (s3c_io ((s3c2410x_io_do_cycle H ^^ (n + 1)) s))) 14
    \<and> tcnt (pwm (s3c_io ((s3c2410x_io_do_cycle H ^^ (n + 1)) s))) 4 = tcntb (pwm (s3c_io s)) 4
    \<and> (\<forall>m \<le> n. sint (tcnt (pwm (s3c_io ((s3c2410x_io_do_cycle H ^^ m) s))) 4) = int (n - m))"
proof -
  let ?t = "(s3c2410x_io_do_cycle H ^^ n) s" and ?u = "s3c2410x_io_do_cycle H ((s3c2410x_io_do_cycle H ^^ n) s)"
  have p: "pwm (s3c_io ((s3c2410x_io_do_cycle H ^^ m) s)) = (timer4_step ^^ m) (pwm (s3c_io s))" if "m \<le> n" for m
    using cycles_count [OF assms(1,2) that, of H] by (simp add: int_view_def)
  then have before: "\<forall>m \<le> n. sint (tcnt (pwm (s3c_io ((s3c2410x_io_do_cycle H ^^ m) s))) 4) = int (n - m)"
    using sint_minus_nat [OF _ assms(2)] by (simp add: step_fields)
  have m: "intmsk (s3c_io ?t) = intmsk (s3c_io s)" "intmod (s3c_io ?t) = intmod (s3c_io s)"
    using cycles_count [OF assms(1,2) order_refl, of H] by (simp_all add: int_view_def)
  have z: "sint (tcnt (pwm (s3c_io ?t)) 4 - 1) < 0" using before sint_pred [of "tcnt (pwm (s3c_io ?t)) 4"] by simp
  define v where "v = upd_s3c (\<lambda>i. i\<lparr>srcpnd := srcpnd i OR 0x4000\<rparr>)
     (upd_pwm (\<lambda>t. t\<lparr>tcnt := (tcnt t)(4 := tcntb t 4), tcnto := (tcnto t)(4 := tcntb t 4)\<rparr>) (upd_pwm (\<lambda>t. t\<lparr>tcnt := (tcnt t)(4 := tcnt t 4 - 1)\<rparr>) ?t))"
  have on: "tcon (pwm (s3c_io ?t)) AND 0x100000 \<noteq> 0" using assms(1) p [of n] by (simp add: step_fields)
  have u: "?u = s3c2410x_update_int v"
    using on z by (simp add: s3c2410x_io_do_cycle_def v_def upd_pwm_def upd_s3c_def Let_def)
  have "bit (0x4000 :: ARMword) 14" by (simp add: bit_numeral_rec)
  then have b: "bit (srcpnd (s3c_io ?u)) 14" unfolding u by (intro update_int_mono) (simp add: v_def upd_s3c_def bit_or_iff)
  have w: "int_view (s3c_io ?u) = int_view (s3c_io v)" unfolding u by simp
  then have i: "intmsk (s3c_io ?u) = intmsk (s3c_io s)" "intmod (s3c_io ?u) = intmod (s3c_io s)" "tcnt (pwm (s3c_io ?u)) 4 = tcntb (pwm (s3c_io s)) 4"
    using m p [of n] by (simp_all add: int_view_def v_def upd_s3c_def upd_pwm_def step_fields)
  have "s3c_nirq ?u = LOW" using b i assms(3,4) s3c_int_lines(1) [of v] unfolding u [symmetric] by auto
  then show ?thesis using b i(3) before by simp
qed

section \<open>The pending registers\<close>

lemma pending_source_lowest: "pending_source w = Some k \<longleftrightarrow> bit w k \<and> (\<forall>j<k. \<not> bit w j)"
proof -
  have "w AND push_bit j 1 \<noteq> 0 \<longleftrightarrow> bit w j" for j using and_power [of w j] by (simp add: push_bit_eq_mult)
  then have p: "pending_source w = find (bit w) [0..<32]" unfolding pending_source_def by (intro find_cong) simp_all
  show ?thesis unfolding p find_Some_iff using bit_imp_le_length [of w k] by (auto simp: not_le)
qed

text \<open>
  A fault of the interrupt controller: the registers INTOFFSET and INTPND name the lowest pending source even when the mask INTMSK disables it,
  so a handler that dispatches on them serves an interrupt that did not occur.
\<close>

theorem s3c_offset_ignores_mask:
  assumes "bit (srcpnd (s3c_io s)) k" "\<And>j. j < k \<Longrightarrow> \<not> bit (srcpnd (s3c_io s)) j"
  shows "fst (s3c2410x_io_read_word s INTOFFSET) = of_nat k \<and> fst (s3c2410x_io_read_word s INTPND) = 2 ^ k"
proof -
  have "pending_source (srcpnd (s3c_io s)) = Some k" using assms by (simp add: pending_source_lowest)
  then show ?thesis by (simp add: s3c2410x_io_read_word_def int_pending_read_def Let_def push_bit_eq_mult)
qed

section \<open>Witnesses\<close>

definition ex_s3c :: "unit s3c_sys" where
  "ex_s3c = \<lparr>s3c_io = s3c_io_zero\<lparr>srcpnd := 0x4010, intmsk := 0x10, pwm := (pwm s3c_io_zero)\<lparr>tcon := 0x100000, tcnt := (\<lambda>_. 2)\<rparr>\<rparr>, s3c_nirq = HIGH, s3c_nfiq = HIGH, s3c_host = ()\<rparr>"

theorem s3c_timer4_interrupts_witness: "s3c_nirq ((s3c2410x_io_do_cycle ex_dev ^^ 3) ex_s3c) = LOW"
proof -
  have "tcon (pwm (s3c_io ex_s3c)) AND 0x100000 \<noteq> 0" "sint (tcnt (pwm (s3c_io ex_s3c)) 4) = int 2" "\<not> bit (intmsk (s3c_io ex_s3c)) 14" "\<not> bit (intmod (s3c_io ex_s3c)) 14"
    by (simp_all add: ex_s3c_def s3c_io_zero_def bit_numeral_rec)
  from s3c_timer4_interrupts [OF this, of ex_dev] show ?thesis by simp
qed

theorem s3c_offset_ignores_mask_witness:
  "bit (intmsk (s3c_io ex_s3c)) 4 \<and> fst (s3c2410x_io_read_word ex_s3c INTOFFSET) = 4"
proof -
  have b: "bit (srcpnd (s3c_io ex_s3c)) 4" "bit (intmsk (s3c_io ex_s3c)) 4" by (simp_all add: ex_s3c_def s3c_io_zero_def bit_numeral_rec)
  have "\<not> bit (srcpnd (s3c_io ex_s3c)) j" if "j < 4" for j
    using that by (auto simp: ex_s3c_def s3c_io_zero_def bit_numeral_rec numeral_eq_Suc less_Suc_eq)
  then show ?thesis using s3c_offset_ignores_mask [OF b(1)] b(2) by simp
qed

end
