(* ===== verification/Mach_Pxa.thy ===== *)
theory Mach_Pxa
  imports Mach_Sa
begin

text \<open>
  The peripherals of the PXA250 and PXA270 boards (\<^verbatim>\<open>arch/arm/mach/skyeye_mach_pxa250.c\<close>, \<^verbatim>\<open>skyeye_mach_pxa270.c\<close>, \<^verbatim>\<open>pxa.h\<close>): clock, operating system timer, serial port,
  touch screen and interrupt controller.
\<close>

section \<open>State\<close>

text \<open>
  The fields of \<open>pxa250_io_t\<close> that the code uses; the registers of the two other serial ports and of the display controller are
  cleared at reset and not touched again.  The addresses of the registers are those of \<open>pxa_ioregnum_t\<close>.
\<close>

record pxa250_io_t =
  icpr :: ARMword
  icip :: ARMword
  icfp :: ARMword
  icmr :: ARMword
  iclr :: ARMword
  rcnr :: ARMword
  rtar :: ARMword
  rtsr :: ARMword
  rttr :: ARMword
  rt_scale :: ARMword
  rt_count :: ARMword
  oscr :: ARMword
  osmr0 :: ARMword
  osmr1 :: ARMword
  osmr2 :: ARMword
  osmr3 :: ARMword
  ower :: ARMword
  ossr :: ARMword
  oier :: ARMword
  os_scale :: ARMword
  ffrbr :: ARMword
  ffier :: ARMword
  ffiir :: ARMword
  fffcr :: ARMword
  fflcr :: ARMword
  ffmcr :: ARMword
  fflsr :: ARMword
  ff_scale :: ARMword
  cccr :: ARMword
  cken :: ARMword
  oscc :: ARMword
  ts_int :: ARMword
  ts_buffer :: "nat \<Rightarrow> ARMword"
  ts_addr_begin :: ARMword
  ts_addr_end :: ARMword

text \<open>The static variable \<open>pxa250_io\<close>, the array \<open>Pen_buffer\<close> the display fills, the pins of the core and the host.\<close>

record 'e pxa_sys =
  pxa250_io :: pxa250_io_t
  Pen_buffer :: "nat \<Rightarrow> ARMword"
  pxa_nirq :: ARMword
  pxa_nfiq :: ARMword
  pxa_nreset :: ARMword
  pxa_host :: 'e

definition upd_pxa :: "(pxa250_io_t \<Rightarrow> pxa250_io_t) \<Rightarrow> 'e pxa_sys \<Rightarrow> 'e pxa_sys" where
  "upd_pxa f s = s\<lparr>pxa250_io := f (pxa250_io s)\<rparr>"

text \<open>\<open>OS_SCALE\<close> is 104857600 / 3686400 / 10 / 50, which is 0.\<close>

abbreviation (input) PXA_RT_SCALE :: ARMword where "PXA_RT_SCALE \<equiv> 64"
abbreviation (input) PXA_OS_SCALE :: ARMword where "PXA_OS_SCALE \<equiv> 0"
abbreviation (input) FF_SCALE :: ARMword where "FF_SCALE \<equiv> 200"
abbreviation (input) FFUART_IRQ :: ARMword where "FFUART_IRQ \<equiv> 0x400000"

definition pxa_io_zero :: pxa250_io_t where
  "pxa_io_zero = \<lparr>icpr = 0, icip = 0, icfp = 0, icmr = 0, iclr = 0, rcnr = 0, rtar = 0, rtsr = 0, rttr = 0,
     rt_scale = 0, rt_count = 0, oscr = 0, osmr0 = 0, osmr1 = 0, osmr2 = 0, osmr3 = 0, ower = 0, ossr = 0, oier = 0, os_scale = 0,
     ffrbr = 0, ffier = 0, ffiir = 0, fffcr = 0, fflcr = 0, ffmcr = 0, fflsr = 0, ff_scale = 0, cccr = 0, cken = 0, oscc = 0,
     ts_int = 0, ts_buffer = (\<lambda>_. 0), ts_addr_begin = 0, ts_addr_end = 0\<rparr>"

definition pxa250_io_reset :: "'e pxa_sys \<Rightarrow> 'e pxa_sys" where
  "pxa250_io_reset s = s\<lparr>pxa250_io := pxa_io_zero\<lparr>cccr := 0x121, cken := 0x17def, ts_int := push_bit 15 1,
     ts_addr_begin := 0x40000300, ts_addr_end := 0x4000031f\<rparr>\<rparr>"

section \<open>Interrupts\<close>

text \<open>The functions the network devices call; \<open>interrupt\<close> is less than 32.\<close>

definition pxa_set_intr :: "nat \<Rightarrow> 'e pxa_sys \<Rightarrow> 'e pxa_sys" where
  "pxa_set_intr interrupt = upd_pxa (\<lambda>i. i\<lparr>icpr := icpr i OR push_bit interrupt 1\<rparr>)"

definition pxa_pending_intr :: "nat \<Rightarrow> 'e pxa_sys \<Rightarrow> ARMword" where
  "pxa_pending_intr interrupt s = icpr (pxa250_io s) AND push_bit interrupt 1"

definition pxa250_update_int :: "'e pxa_sys \<Rightarrow> 'e pxa_sys" where
  "pxa250_update_int s =
     (let s = upd_pxa (\<lambda>i. i\<lparr>icip := (icmr i AND icpr i) AND NOT (iclr i)\<rparr>) s;
          s = upd_pxa (\<lambda>i. i\<lparr>icfp := (icmr i AND icpr i) AND iclr i\<rparr>) s
      in s\<lparr>pxa_nirq := (if icip (pxa250_io s) \<noteq> 0 then LOW else HIGH),
           pxa_nfiq := (if icfp (pxa250_io s) \<noteq> 0 then LOW else HIGH)\<rparr>)"

definition pxa_update_intr :: "'e pxa_sys \<Rightarrow> 'e pxa_sys" where
  "pxa_update_intr s = pxa250_update_int s"

section \<open>Register accesses\<close>

abbreviation (input) ICIP :: ARMword where "ICIP \<equiv> 0x40D00000"
abbreviation (input) ICMR :: ARMword where "ICMR \<equiv> 0x40D00004"
abbreviation (input) ICLR :: ARMword where "ICLR \<equiv> 0x40D00008"
abbreviation (input) ICFP :: ARMword where "ICFP \<equiv> 0x40D0000C"
abbreviation (input) ICPR :: ARMword where "ICPR \<equiv> 0x40D00010"
abbreviation (input) RCNR :: ARMword where "RCNR \<equiv> 0x40900000"
abbreviation (input) RTAR :: ARMword where "RTAR \<equiv> 0x40900004"
abbreviation (input) RTSR :: ARMword where "RTSR \<equiv> 0x40900008"
abbreviation (input) RTTR :: ARMword where "RTTR \<equiv> 0x4090000C"
abbreviation (input) OSMR0 :: ARMword where "OSMR0 \<equiv> 0x40A00000"
abbreviation (input) OSMR1 :: ARMword where "OSMR1 \<equiv> 0x40A00004"
abbreviation (input) OSMR2 :: ARMword where "OSMR2 \<equiv> 0x40A00008"
abbreviation (input) OSMR3 :: ARMword where "OSMR3 \<equiv> 0x40A0000C"
abbreviation (input) OSCR :: ARMword where "OSCR \<equiv> 0x40A00010"
abbreviation (input) OSSR :: ARMword where "OSSR \<equiv> 0x40A00014"
abbreviation (input) OWER :: ARMword where "OWER \<equiv> 0x40A00018"
abbreviation (input) OIER :: ARMword where "OIER \<equiv> 0x40A0001C"
abbreviation (input) FFRBR :: ARMword where "FFRBR \<equiv> 0x40100000"
abbreviation (input) FFTHR :: ARMword where "FFTHR \<equiv> 0x40100000"
abbreviation (input) FFIER :: ARMword where "FFIER \<equiv> 0x40100004"
abbreviation (input) FFIIR :: ARMword where "FFIIR \<equiv> 0x40100008"
abbreviation (input) FFFCR :: ARMword where "FFFCR \<equiv> 0x40100008"
abbreviation (input) FFLCR :: ARMword where "FFLCR \<equiv> 0x4010000C"
abbreviation (input) FFMCR :: ARMword where "FFMCR \<equiv> 0x40100010"
abbreviation (input) FFLSR :: ARMword where "FFLSR \<equiv> 0x40100014"
abbreviation (input) CCCR :: ARMword where "CCCR \<equiv> 0x41300000"
abbreviation (input) CKEN :: ARMword where "CKEN \<equiv> 0x41300004"
abbreviation (input) OSCC :: ARMword where "OSCC \<equiv> 0x41300008"

definition pxa250_io_write_byte :: "'e pxa_sys \<Rightarrow> ARMword \<Rightarrow> ARMword \<Rightarrow> 'e pxa_sys" where
  "pxa250_io_write_byte s addr data = s"

definition pxa250_io_write_halfword :: "'e pxa_sys \<Rightarrow> ARMword \<Rightarrow> ARMword \<Rightarrow> 'e pxa_sys" where
  "pxa250_io_write_halfword s addr data = s"

definition pxa250_io_write_word :: "'e uart_dev \<Rightarrow> 'e pxa_sys \<Rightarrow> ARMword \<Rightarrow> ARMword \<Rightarrow> 'e pxa_sys" where
  "pxa250_io_write_word H s addr data =
     (let set = (\<lambda>f. upd_pxa f s) in
      if addr = RCNR then set (\<lambda>i. i\<lparr>rcnr := data\<rparr>)
      else if addr = RTAR then set (\<lambda>i. i\<lparr>rtar := data\<rparr>)
      else if addr = RTSR then set (\<lambda>i. i\<lparr>rtsr := (rtsr i OR (data AND 0xc)) AND NOT (data AND 0x3)\<rparr>)
      else if addr = RTTR then set (\<lambda>i. i\<lparr>rttr := data AND 0x3ffffff\<rparr>)
      else if addr = OSCR then set (\<lambda>i. i\<lparr>oscr := data\<rparr>)
      else if addr = OSMR0 then set (\<lambda>i. i\<lparr>osmr0 := data\<rparr>)
      else if addr = OSMR1 then set (\<lambda>i. i\<lparr>osmr1 := data\<rparr>)
      else if addr = OSMR2 then set (\<lambda>i. i\<lparr>osmr2 := data\<rparr>)
      else if addr = OSMR3 then set (\<lambda>i. i\<lparr>osmr3 := data\<rparr>)
      else if addr = OWER then set (\<lambda>i. i\<lparr>ower := ower i OR (data AND 1)\<rparr>)
      else if addr = OSSR then
        (let s = upd_pxa (\<lambda>i. i\<lparr>ossr := ossr i AND NOT (data AND 0xf)\<rparr>) s
         in upd_pxa (\<lambda>i. i\<lparr>icpr := (icpr i AND NOT (push_bit OS_IRQ_SHF 0xf)) OR push_bit OS_IRQ_SHF (ossr i)\<rparr>) s)
      else if addr = OIER then set (\<lambda>i. i\<lparr>oier := data AND 0xf\<rparr>)
      else if addr = ICPR then s
      else if addr = ICMR then set (\<lambda>i. i\<lparr>icmr := data\<rparr>)
      else if addr = ICLR then set (\<lambda>i. i\<lparr>iclr := data\<rparr>)
      else if addr = FFTHR then
        upd_pxa (\<lambda>i. i\<lparr>ffiir := (ffiir i AND NOT 0x2) OR 0x1, fflsr := fflsr i AND NOT 0x60\<rparr>)
          (s\<lparr>pxa_host := skyeye_uart_write H (- 1) (ucast data) (pxa_host s)\<rparr>)
      else if addr = FFIER then set (\<lambda>i. i\<lparr>ffier := data AND 0xff\<rparr>)
      else if addr = FFFCR then set (\<lambda>i. i\<lparr>fffcr := data AND 0xc7\<rparr>)
      else if addr = FFLCR then set (\<lambda>i. i\<lparr>fflcr := data AND 0xff\<rparr>)
      else if addr = FFMCR then set (\<lambda>i. i\<lparr>ffmcr := data AND 0x1f\<rparr>)
      else if addr = CCCR then set (\<lambda>i. i\<lparr>cccr := data AND 0x3ff\<rparr>)
      else if addr = CKEN then set (\<lambda>i. i\<lparr>cken := data AND 0x17def\<rparr>)
      else if addr = OSCC then set (\<lambda>i. i\<lparr>oscc := data AND 0x3\<rparr>)
      else s)"

definition pxa250_io_read_byte :: "'e pxa_sys \<Rightarrow> ARMword \<Rightarrow> ARMword" where
  "pxa250_io_read_byte s addr = 0"

definition pxa250_io_read_halfword :: "'e pxa_sys \<Rightarrow> ARMword \<Rightarrow> ARMword" where
  "pxa250_io_read_halfword s addr = 0"

definition pxa250_io_read_word :: "'e pxa_sys \<Rightarrow> ARMword \<Rightarrow> ARMword \<times> 'e pxa_sys" where
  "pxa250_io_read_word s addr =
     (let i = pxa250_io s; ts_addr = addr AND NOT 3;
          no_irq = (\<lambda>i. i\<lparr>icpr := icpr i AND NOT FFUART_IRQ, icip := icip i AND NOT FFUART_IRQ\<rparr>) in
      if ts_addr \<ge> ts_addr_begin i \<and> ts_addr \<le> ts_addr_end i then (ts_buffer i (unat ((ts_addr - ts_addr_begin i) div 4)), s)
      else if addr = FFRBR then
        (ffrbr i AND 0xff, upd_pxa (\<lambda>i. (no_irq i)\<lparr>ffiir := (ffiir i AND NOT 0x4) OR 0x1, fflsr := fflsr i AND NOT 0x1\<rparr>) s)
      else if addr = FFIIR then (ffiir i AND 0xcf, upd_pxa no_irq s)
      else if addr = FFLSR then ((fflsr i OR 0x60) AND 0xff, upd_pxa (\<lambda>i. i\<lparr>fflsr := fflsr i OR 0x60\<rparr>) s)
      else
       (if addr = RCNR then rcnr i
        else if addr = RTAR then rtar i
        else if addr = RTSR then rtsr i
        else if addr = RTTR then rttr i
        else if addr = OSCR then oscr i
        else if addr = OSMR0 then osmr0 i
        else if addr = OSMR1 then osmr1 i
        else if addr = OSMR2 then osmr2 i
        else if addr = OSMR3 then osmr3 i
        else if addr = OWER then ower i
        else if addr = OSSR then ossr i
        else if addr = OIER then oier i
        else if addr = ICPR then icpr i
        else if addr = ICIP then (icmr i AND icpr i) AND NOT (iclr i)
        else if addr = ICFP then (icmr i AND icpr i) AND iclr i
        else if addr = ICMR then icmr i
        else if addr = ICLR then iclr i
        else if addr = FFIER then ffier i
        else if addr = FFLCR then fflcr i
        else if addr = FFMCR then ffmcr i
        else if addr = CCCR then cccr i
        else if addr = CKEN then cken i
        else if addr = OSCC then oscc i
        else 0, s))"

section \<open>Cycles\<close>

definition pxa_rtc_tick :: "pxa250_io_t \<Rightarrow> pxa250_io_t" where
  "pxa_rtc_tick i =
     (let alarm = (rcnr i = rtar i);
          i = i\<lparr>rt_count := 0, rcnr := rcnr i + 1\<rparr>;
          i = (if alarm \<and> rtsr i AND 0x4 \<noteq> 0 then i\<lparr>rtsr := rtsr i OR 1\<rparr> else i)
      in if rtsr i AND 0x8 \<noteq> 0 then i\<lparr>rtsr := rtsr i OR 2\<rparr> else i)"

definition pxa_rtc_cycle :: "pxa250_io_t \<Rightarrow> pxa250_io_t" where
  "pxa_rtc_cycle i =
     (let i = i\<lparr>rt_scale := rt_scale i + 1\<rparr> in
      if rt_scale i \<ge> PXA_RT_SCALE then
        (let i = i\<lparr>rt_scale := 0\<rparr>;
             i = (if rt_count i = rttr i AND 0xffff then pxa_rtc_tick i else i\<lparr>rt_count := rt_count i + 1\<rparr>);
             i = (if rtsr i AND 0x1 \<noteq> 0 \<and> rtsr i AND 0x4 \<noteq> 0 then i\<lparr>icpr := icpr i OR RTC_ALARM_IRQ\<rparr> else i)
         in if rtsr i AND 0x2 \<noteq> 0 \<and> rtsr i AND 0x8 \<noteq> 0 then i\<lparr>icpr := icpr i OR RTC_HZ_IRQ\<rparr> else i)
      else i)"

definition pxa_os_matches :: "pxa250_io_t \<Rightarrow> ARMword \<Rightarrow> ARMword" where
  "pxa_os_matches i count =
     (if count = osmr0 i then 1 else 0) OR (if count = osmr1 i then 2 else 0)
     OR (if count = osmr2 i then 4 else 0) OR (if count = osmr3 i then 8 else 0)"

definition pxa_os_cycle :: "'e pxa_sys \<Rightarrow> 'e pxa_sys" where
  "pxa_os_cycle s =
     (let s = upd_pxa (\<lambda>i. i\<lparr>os_scale := os_scale i + 1\<rparr>) s; i = pxa250_io s in
      if os_scale i \<ge> PXA_OS_SCALE then
        (let count = oscr i;
             s = (if count = osmr3 i \<and> ower i AND 1 \<noteq> 0 then s\<lparr>pxa_nreset := LOW\<rparr> else s);
             s = upd_pxa (\<lambda>i. i\<lparr>os_scale := 0, oscr := count + 1, ossr := ossr i OR pxa_os_matches i count\<rparr>) s
         in upd_pxa (\<lambda>i. i\<lparr>icpr := icpr i OR push_bit OS_IRQ_SHF (oier i AND ossr i)\<rparr>) s)
      else s)"

text \<open>The serial port: receiving, then the interrupts of the receiver and of the transmitter.\<close>

definition ff_receive :: "'e uart_dev \<Rightarrow> 'e pxa_sys \<Rightarrow> 'e pxa_sys" where
  "ff_receive H s =
     (case skyeye_uart_read H (- 1) (pxa_host s) of
        (None, h) \<Rightarrow> s\<lparr>pxa_host := h\<rparr>
      | (Some c, h) \<Rightarrow> upd_pxa (\<lambda>i. i\<lparr>ffrbr := ucast c, ffiir := ffiir i OR 0x4, fflsr := fflsr i OR 0x01\<rparr>) (s\<lparr>pxa_host := h\<rparr>))"

definition ff_interrupts :: "bool \<Rightarrow> pxa250_io_t \<Rightarrow> pxa250_io_t" where
  "ff_interrupts int_enable i =
     (let irq = (\<lambda>i. if int_enable then i\<lparr>icpr := icpr i OR FFUART_IRQ\<rparr> else i);
          i = (if ffier i AND 0x1 \<noteq> 0 \<and> ffiir i AND 0x4 \<noteq> 0 then (irq i)\<lparr>ffiir := ffiir i AND NOT 0x1\<rparr> else i)
      in if ffier i AND 0x2 \<noteq> 0 then (irq i)\<lparr>ffiir := (ffiir i OR 0x2) AND NOT 0x1, fflsr := fflsr i OR 0x60\<rparr> else i)"

definition ts_poll :: "'e pxa_sys \<Rightarrow> 'e pxa_sys" where
  "ts_poll s =
     (if icpr (pxa250_io s) AND ts_int (pxa250_io s) = 0 \<and> Pen_buffer s 6 = 1 then
        (upd_pxa (\<lambda>i. i\<lparr>ts_buffer := (ts_buffer i)(0 := Pen_buffer s 0, 1 := Pen_buffer s 1, 4 := Pen_buffer s 4, 6 := Pen_buffer s 6),
           icpr := icpr i OR ts_int i\<rparr>) s)\<lparr>Pen_buffer := (Pen_buffer s)(6 := 0)\<rparr>
      else s)"

text \<open>The argument \<open>en\<close> tells whether the serial port may interrupt; the PXA270 does not ask.\<close>

definition ff_cycle :: "(pxa250_io_t \<Rightarrow> bool) \<Rightarrow> 'e uart_dev \<Rightarrow> 'e pxa_sys \<Rightarrow> 'e pxa_sys" where
  "ff_cycle en H s =
     (let s = upd_pxa (\<lambda>i. i\<lparr>ff_scale := ff_scale i + 1\<rparr>) s in
      if ff_scale (pxa250_io s) \<ge> FF_SCALE then
        (let s = upd_pxa (\<lambda>i. i\<lparr>ff_scale := 0\<rparr>) s;
             s = (if FFUART_IRQ AND icpr (pxa250_io s) = 0
                  then upd_pxa (ff_interrupts (en (pxa250_io s))) (ff_receive H s) else s)
         in ts_poll s)
      else s)"

definition pxa250_io_do_cycle :: "'e uart_dev \<Rightarrow> 'e pxa_sys \<Rightarrow> 'e pxa_sys" where
  "pxa250_io_do_cycle H s =
     pxa250_update_int (ff_cycle (\<lambda>i. ffmcr i AND 0x18 \<noteq> 0) H (pxa_os_cycle (upd_pxa pxa_rtc_cycle s)))"

section \<open>The PXA270\<close>

text \<open>
  \<open>pxa270_io_t\<close> has the same fields, and the file repeats the code of the PXA250 but for the writes to the interrupt and timer registers, the
  register \<open>FFMCR\<close>, which is not there, and the condition on the serial port.
\<close>

definition pxa270_io_write_word :: "'e uart_dev \<Rightarrow> 'e pxa_sys \<Rightarrow> ARMword \<Rightarrow> ARMword \<Rightarrow> 'e pxa_sys" where
  "pxa270_io_write_word H s addr data =
     (let set = (\<lambda>f. upd_pxa f s) in
      if addr = OSSR then set (\<lambda>i. i\<lparr>ossr := ossr i AND NOT (data AND 0xf)\<rparr>)
      else if addr = ICPR then set (\<lambda>i. i\<lparr>icpr := data\<rparr>)
      else if addr = ICMR then set (\<lambda>i. i\<lparr>icmr := data, icpr := icpr i AND NOT data\<rparr>)
      else if addr = FFMCR then s
      else pxa250_io_write_word H s addr data)"

definition pxa270_io_read_word :: "'e pxa_sys \<Rightarrow> ARMword \<Rightarrow> ARMword \<times> 'e pxa_sys" where
  "pxa270_io_read_word s addr =
     (if addr = FFMCR \<and> \<not> (ts_addr_begin (pxa250_io s) \<le> addr AND NOT 3 \<and> addr AND NOT 3 \<le> ts_addr_end (pxa250_io s)) then (0, s)
      else pxa250_io_read_word s addr)"

definition pxa270_io_do_cycle :: "'e uart_dev \<Rightarrow> 'e pxa_sys \<Rightarrow> 'e pxa_sys" where
  "pxa270_io_do_cycle H s = pxa250_update_int (ff_cycle (\<lambda>_. True) H (pxa_os_cycle (upd_pxa pxa_rtc_cycle s)))"

text \<open>Coprocessor 6 of the PXA270 (\<^verbatim>\<open>xscale_copro.c\<close>) reads the interrupt registers.\<close>

definition xscale_cp6_mrc :: "'e pxa_sys \<Rightarrow> ARMword \<Rightarrow> ARMword" where
  "xscale_cp6_mrc s instr =
     (let reg = BITS instr 16 19; i = pxa250_io s in
      if reg = 0 then (icmr i AND icpr i) AND NOT (iclr i) else if reg = 1 then icmr i else 0)"

section \<open>Pending interrupts\<close>

text \<open>What the machine can do between two resets, in any order.\<close>

inductive pxa_run :: "'e uart_dev \<Rightarrow> 'e pxa_sys \<Rightarrow> 'e pxa_sys \<Rightarrow> bool" for H s where
  start: "pxa_run H s s"
| do_cycle: "pxa_run H s t \<Longrightarrow> pxa_run H s (pxa250_io_do_cycle H t)"
| read_word: "pxa_run H s t \<Longrightarrow> pxa_run H s (snd (pxa250_io_read_word t a))"
| write_word: "pxa_run H s t \<Longrightarrow> pxa_run H s (pxa250_io_write_word H t a d)"
| set_intr: "pxa_run H s t \<Longrightarrow> n < 32 \<Longrightarrow> pxa_run H s (pxa_set_intr n t)"
| update_intr: "pxa_run H s t \<Longrightarrow> pxa_run H s (pxa_update_intr t)"

text \<open>The sources that some register can clear: the serial port and the matches of the timer.\<close>

definition clearable :: "nat \<Rightarrow> bool" where
  "clearable k \<longleftrightarrow> k = 22 \<or> 26 \<le> k \<and> k < 30"

abbreviation (input) pending :: "'e pxa_sys \<Rightarrow> nat \<Rightarrow> bool" where
  "pending s k \<equiv> bit (icpr (pxa250_io s)) k"

lemma pxa_bits: "bit (0x400000 :: int) k \<longleftrightarrow> k = 22" "bit (0x3c000000 :: int) k \<longleftrightarrow> 26 \<le> k \<and> k < 30"
proof -
  have "(0x400000 :: int) = push_bit 22 1" "(0x3c000000 :: int) = push_bit 26 (mask 4)" by (simp_all add: mask_eq_exp_minus_1)
  then show "bit (0x400000 :: int) k \<longleftrightarrow> k = 22" "bit (0x3c000000 :: int) k \<longleftrightarrow> 26 \<le> k \<and> k < 30"
    unfolding bit_push_bit_iff bit_mask_iff bit_1_iff by (simp_all only: bit_push_bit_iff bit_mask_iff bit_1_iff) auto
qed

lemma update_int_pending [simp]: "icpr (pxa250_io (pxa250_update_int s)) = icpr (pxa250_io s)"
  by (simp add: pxa250_update_int_def upd_pxa_def Let_def)

lemma rtc_pending: "bit (icpr i) k \<Longrightarrow> bit (icpr (pxa_rtc_cycle i)) k"
  by (simp add: pxa_rtc_cycle_def pxa_rtc_tick_def Let_def bit_or_iff)

lemma os_pending: "pending s k \<Longrightarrow> pending (pxa_os_cycle s) k"
  by (simp add: pxa_os_cycle_def upd_pxa_def Let_def bit_or_iff)

lemma ff_pending: "pending s k \<Longrightarrow> pending (ff_cycle en H s) k"
  by (simp add: ff_cycle_def ts_poll_def ff_interrupts_def ff_receive_def upd_pxa_def Let_def bit_or_iff split: prod.split option.split)

lemma cycle_pending: "pending s k \<Longrightarrow> pending (pxa250_io_do_cycle H s) k"
  unfolding pxa250_io_do_cycle_def update_int_pending
  by (intro ff_pending os_pending) (simp add: upd_pxa_def rtc_pending)

lemma read_pending: "pending s k \<Longrightarrow> \<not> clearable k \<Longrightarrow> pending (snd (pxa250_io_read_word s a)) k"
  using bit_imp_le_length [of "icpr (pxa250_io s)" k] by (simp add: pxa250_io_read_word_def upd_pxa_def clearable_def Let_def bit_simps pxa_bits)

lemma write_pending: "pending s k \<Longrightarrow> \<not> clearable k \<Longrightarrow> pending (pxa250_io_write_word H s a d) k"
  using bit_imp_le_length [of "icpr (pxa250_io s)" k] by (simp add: pxa250_io_write_word_def upd_pxa_def clearable_def Let_def bit_simps pxa_bits)

lemma run_pending: "pxa_run H s t \<Longrightarrow> pending s k \<Longrightarrow> \<not> clearable k \<Longrightarrow> pending t k"
  by (induction rule: pxa_run.induct)
    (simp_all add: cycle_pending read_pending write_pending pxa_set_intr_def pxa_update_intr_def, simp add: upd_pxa_def bit_or_iff)

text \<open>
  C40: a fault of the interrupt controller of the PXA250.  Once a source other than the serial port and the timer matches is pending, no sequence of
  cycles, register accesses and device interrupts makes it not pending again before a reset; and whenever it is enabled, an update of the lines asserts
  the IRQ.  The alarm of the clock, for one, cannot be acknowledged.
\<close>

theorem pxa_irq_never_cleared:
  assumes "pxa_run H s t" "bit (icpr (pxa250_io s)) k" "\<not> clearable k"
  shows "bit (icpr (pxa250_io t)) k \<and>
    (bit (icmr (pxa250_io t)) k \<and> \<not> bit (iclr (pxa250_io t)) k \<longrightarrow> pxa_nirq (pxa_update_intr t) = LOW)"
proof -
  have p: "bit (icpr (pxa250_io t)) k" by (rule run_pending [OF assms])
  moreover have "icmr (pxa250_io t) AND icpr (pxa250_io t) AND NOT (iclr (pxa250_io t)) \<noteq> 0"
    if "bit (icmr (pxa250_io t)) k" "\<not> bit (iclr (pxa250_io t)) k"
  proof -
    have "k < 32" using p bit_imp_le_length by fastforce
    then have "bit (icmr (pxa250_io t) AND icpr (pxa250_io t) AND NOT (iclr (pxa250_io t))) k" using p that by (simp add: bit_simps)
    then show ?thesis by auto
  qed
  ultimately show ?thesis by (simp add: pxa_update_intr_def pxa250_update_int_def upd_pxa_def Let_def and.assoc)
qed

section \<open>Witness\<close>

definition ex_pxa :: "unit pxa_sys" where
  "ex_pxa = \<lparr>pxa250_io = pxa_io_zero\<lparr>icpr := 0x80000000, icmr := 0x80000000, rtsr := 0x5\<rparr>, Pen_buffer = (\<lambda>_. 0), pxa_nirq = HIGH, pxa_nfiq = HIGH,
     pxa_nreset = HIGH, pxa_host = ()\<rparr>"

text \<open>A handler that clears the flag of the alarm leaves the line low.\<close>

theorem pxa_irq_never_cleared_witness:
  "rtsr (pxa250_io (pxa250_io_write_word ex_dev ex_pxa RTSR 1)) = 4 \<and> pxa_nirq (pxa_update_intr (pxa250_io_write_word ex_dev ex_pxa RTSR 1)) = LOW"
proof -
  let ?t = "pxa250_io_write_word ex_dev ex_pxa RTSR 1"
  have r: "pxa_run ex_dev ex_pxa ?t" by (intro pxa_run.write_word pxa_run.start)
  have "bit (icpr (pxa250_io ex_pxa)) 31" "bit (icmr (pxa250_io ?t)) 31" "\<not> bit (iclr (pxa250_io ?t)) 31" "rtsr (pxa250_io ?t) = 4" "\<not> clearable 31"
    by (simp_all add: ex_pxa_def pxa250_io_write_word_def upd_pxa_def pxa_io_zero_def clearable_def bit_numeral_rec)
  then show ?thesis using pxa_irq_never_cleared [OF r, of 31] by simp
qed

end
