(* ===== verification/Arm_Cores.thy ===== *)
theory Arm_Cores
  imports Lpc_Board Arm_XScale Mach_S3c2410 Mach_Pxa
begin

text \<open>
  More boards put together: the SA-1100, the S3C2410X (an ARM920T), the PXA250 and the PXA270 (XScale), with the units of \<open>Arm_Harvard\<close> and
  \<open>Arm_XScale\<close>, their coprocessors, the banks, the dispatch of \<open>Arm_Io\<close> and their peripherals.  The interface \<open>psr_hv_bus\<close> gives that the units
  meet \<open>psr_memory\<close>; \<open>psr_env\<close> is interpreted on the four boards.
\<close>

section \<open>Boards with separate caches\<close>

text \<open>The prescaler of \<^verbatim>\<open>armio.c\<close>, the registers of coprocessor 14 of the XScale, and the machine.\<close>

record 'z hv_board =
  hb_prescale :: int
  hb_cp14 :: xscale_cp14_reg_s
  hb_mach :: 'z

type_synonym 'z hbstate = "'z hv_board hstate"

definition upd_board :: "('z hv_board \<Rightarrow> 'z hv_board) \<Rightarrow> 'z hbstate \<Rightarrow> 'z hbstate" where
  "upd_board f = upd_hw (\<lambda>h. h\<lparr>h_dev := f (h_dev h)\<rparr>)"

definition board_of :: "'z hbstate \<Rightarrow> 'z hv_board" where
  "board_of s = h_dev (iosys (mach s))"

text \<open>The unit \<open>mmu_init\<close> selects, with its operations and the registers of coprocessor 15.\<close>

datatype hv_unit = sa11xx_unit | arm920t_unit | arm926ejs_unit | xscale_unit

definition unit_ops :: "hv_unit \<Rightarrow> 'y hv_hw bus_ops \<Rightarrow> ARMword \<Rightarrow> 'y hv_hw mem_sys mmu_ops" where
  "unit_ops u = (case u of sa11xx_unit \<Rightarrow> sa_ops | arm920t_unit \<Rightarrow> arm920t_ops | arm926ejs_unit \<Rightarrow> arm926ejs_ops | xscale_unit \<Rightarrow> xscale_ops)"

definition unit_mcr :: "hv_unit \<Rightarrow> 'y hv_hw bus_ops \<Rightarrow> 'y hstate \<Rightarrow> ARMword \<Rightarrow> ARMword \<Rightarrow> 'y hstate option" where
  "unit_mcr u = (case u of sa11xx_unit \<Rightarrow> sa_mmu_mcr | arm920t_unit \<Rightarrow> arm920t_mmu_mcr | arm926ejs_unit \<Rightarrow> arm926ejs_mmu_mcr | xscale_unit \<Rightarrow> xscale_mmu_mcr)"

definition unit_mrc :: "hv_unit \<Rightarrow> ARMword \<Rightarrow> 'y hstate \<Rightarrow> ARMword \<Rightarrow> ARMword option" where
  "unit_mrc u junk s instr =
     (case u of
        sa11xx_unit \<Rightarrow> Some (sa_mmu_mrc s instr)
      | arm920t_unit \<Rightarrow> Some (arm920t_mmu_mrc junk s instr)
      | arm926ejs_unit \<Rightarrow> Some (arm926ejs_mmu_mrc junk s instr)
      | xscale_unit \<Rightarrow> xscale_mmu_mrc s instr)"

text \<open>The handlers \<open>MMUMRC\<close> and \<open>MMUMCR\<close> of \<^verbatim>\<open>armcopro.c\<close>, over the unit.  \<open>MMUInit\<close>, which runs once when the coprocessors are
  attached, is not part of the environment of the loop; the other coprocessors come with the tables \<open>T\<close>.\<close>

definition hv_MMUMRC :: "hv_unit \<Rightarrow> ARMword \<Rightarrow> ARMword \<Rightarrow> ARMword \<Rightarrow> ARMword \<Rightarrow> 'y hstate \<Rightarrow> (ARMword \<times> ARMword \<times> 'y hstate) option" where
  "hv_MMUMRC u junk type instr value s = map_option (\<lambda>data. (ARMul_DONE, data, s)) (unit_mrc u junk s instr)"

definition hv_MMUMCR :: "hv_unit \<Rightarrow> 'y hv_hw bus_ops \<Rightarrow> ARMword \<Rightarrow> ARMword \<Rightarrow> ARMword \<Rightarrow> 'y hstate \<Rightarrow> (ARMword \<times> 'y hstate) option" where
  "hv_MMUMCR u B type instr value s = map_option (\<lambda>s. (ARMul_DONE, s)) (unit_mcr u B s instr value)"

definition hv_cp15 :: "hv_unit \<Rightarrow> ARMword \<Rightarrow> 'y hv_hw bus_ops \<Rightarrow> 'y hv_hw mem_sys cp_unit" where
  "hv_cp15 u junk B =
     (if u = xscale_unit
      then no_unit\<lparr>u_ldc := Some xscale_cp15_ldc, u_stc := Some xscale_cp15_stc, u_mrc := Some xscale_cp15_mrc,
             u_mcr := Some (xscale_cp15_mcr B), u_cdp := Some xscale_cp15_cdp\<rparr>
      else no_unit\<lparr>u_mrc := Some (hv_MMUMRC u junk), u_mcr := Some (hv_MMUMCR u B)\<rparr>)"

definition cp14_mrc :: "ARMword \<Rightarrow> ARMword \<Rightarrow> ARMword \<Rightarrow> 'z hbstate \<Rightarrow> (ARMword \<times> ARMword \<times> 'z hbstate) option" where
  "cp14_mrc type instr data s = Some (0, xscale_cp14_mrc (hb_cp14 (board_of s)) instr, s)"

definition cp14_mcr :: "ARMword \<Rightarrow> ARMword \<Rightarrow> ARMword \<Rightarrow> 'z hbstate \<Rightarrow> (ARMword \<times> 'z hbstate) option" where
  "cp14_mcr type instr data s = Some (0, upd_board (\<lambda>b. b\<lparr>hb_cp14 := xscale_cp14_mcr (hb_cp14 b) instr data\<rparr>) s)"

definition xscale_cp13 :: "'m cp_unit" where
  "xscale_cp13 = no_unit\<lparr>u_ldc := Some xscale_cp13_ldc, u_stc := Some xscale_cp13_stc, u_mrc := Some xscale_cp13_mrc,
     u_mcr := Some xscale_cp13_mcr, u_cdp := Some xscale_cp13_cdp\<rparr>"

definition xscale_cp14 :: "'z hv_board hv_hw mem_sys cp_unit" where
  "xscale_cp14 = no_unit\<lparr>u_ldc := Some xscale_cp14_ldc, u_stc := Some xscale_cp14_stc, u_mrc := Some cp14_mrc,
     u_mcr := Some cp14_mcr, u_cdp := Some xscale_cp14_cdp\<rparr>"

definition cp_access :: "'m ARMul_State \<Rightarrow> nat \<Rightarrow> bool" where
  "cp_access s cp \<longleftrightarrow> xscale_cp15_cp_access_allowed s 15 cp = Some True"

definition hv_coproc :: "hv_unit \<Rightarrow> ARMword \<Rightarrow> 'z hv_board hv_hw bus_ops \<Rightarrow> 'z hv_board hv_hw mem_sys cp_tables \<Rightarrow> 'z hv_board hv_hw mem_sys cp_ops" where
  "hv_coproc u junk B T =
     (let T = (if u = xscale_unit then ARMul_CoProAttach 14 xscale_cp14 (ARMul_CoProAttach 13 xscale_cp13 T) else T)
      in (fst (ARMul_CoProAttach 15 (hv_cp15 u junk B) T))\<lparr>CPAccess := cp_access\<rparr>)"

definition hv_io :: "'z hbstate machine_config \<Rightarrow> 'z hbstate \<Rightarrow> 'z hbstate option" where
  "hv_io C s = map_option (\<lambda>(p, s). upd_board (\<lambda>b. b\<lparr>hb_prescale := p\<rparr>) s) (io_do_cycle C (hb_prescale (board_of s), s))"

definition hv_env :: "hv_unit \<Rightarrow> bool \<Rightarrow> ARMword \<Rightarrow> 'z hv_board hv_hw bus_ops \<Rightarrow> 'z hbstate machine_config \<Rightarrow>
    'z hv_board hv_hw mem_sys cp_tables \<Rightarrow> 'z hv_board hv_hw mem_sys env" where
  "hv_env u ch junk F C T =
     (let B = board_bus F C in
      \<lparr>env_ch = ch, env_mmu = unit_ops u B junk, env_cp = hv_coproc u junk B T,
       env_event = event_handler, env_io = hv_io C, env_junk = junk\<rparr>)"

section \<open>The SA-1100 board\<close>

definition sa_of :: "'e sa_sys hbstate \<Rightarrow> 'e sa_sys" where
  "sa_of s = (hb_mach (board_of s))\<lparr>sa_nirq := NirqSig s, sa_nfiq := NfiqSig s, sa_nreset := NresetSig s\<rparr>"

definition put_sa :: "'e sa_sys hbstate \<Rightarrow> 'e sa_sys \<Rightarrow> 'e sa_sys hbstate" where
  "put_sa s m = (upd_board (\<lambda>b. b\<lparr>hb_mach := m\<rparr>) s)\<lparr>NirqSig := sa_nirq m, NfiqSig := sa_nfiq m, NresetSig := sa_nreset m\<rparr>"

definition sa_mach_read :: "access_size \<Rightarrow> 'e sa_sys \<Rightarrow> ARMword \<Rightarrow> (ARMword \<times> 'e sa_sys) option" where
  "sa_mach_read z = (case z of Byte \<Rightarrow> sa_io_read_byte | Halfword \<Rightarrow> sa_io_read_halfword | Word \<Rightarrow> sa_io_read_word)"

definition sa_mach_write :: "'e uart_dev \<Rightarrow> access_size \<Rightarrow> 'e sa_sys \<Rightarrow> ARMword \<Rightarrow> ARMword \<Rightarrow> 'e sa_sys option" where
  "sa_mach_write H z = (case z of Byte \<Rightarrow> sa_io_write_byte | Halfword \<Rightarrow> sa_io_write_halfword | Word \<Rightarrow> sa_io_write_word H)"

definition sa_board_reset :: "'e sa_sys hbstate \<Rightarrow> 'e sa_sys hbstate" where
  "sa_board_reset s = put_sa s (sa_io_reset (sa_of s))"

definition sa_board_cycle :: "'e uart_dev \<Rightarrow> 'e sa_sys hbstate \<Rightarrow> 'e sa_sys hbstate option" where
  "sa_board_cycle H s = Some (put_sa s (sa_io_do_cycle H (sa_of s)))"

definition sa_board_read :: "access_size \<Rightarrow> 'e sa_sys hbstate \<Rightarrow> ARMword \<Rightarrow> (ARMword \<times> 'e sa_sys hbstate) option" where
  "sa_board_read z s a = map_option (\<lambda>(v, m). (v, put_sa s m)) (sa_mach_read z (sa_of s) a)"

definition sa_board_write :: "'e uart_dev \<Rightarrow> access_size \<Rightarrow> 'e sa_sys hbstate \<Rightarrow> ARMword \<Rightarrow> ARMword \<Rightarrow> 'e sa_sys hbstate option" where
  "sa_board_write H z s a d = map_option (put_sa s) (sa_mach_write H z (sa_of s) a d)"

definition sa1100_config :: "'e uart_dev \<Rightarrow> 'e sa_sys hbstate device_desc option list \<Rightarrow> 'e sa_sys hbstate machine_config" where
  "sa1100_config H devs =
     \<lparr>devices = devs, mach_io_reset = Some sa_board_reset, mach_io_do_cycle = sa_board_cycle H,
      mach_io_read = sa_board_read, mach_io_write = sa_board_write H\<rparr>"

definition sa1100_mach_init :: "'e sa_sys hbstate \<Rightarrow> 'e sa_sys hbstate" where
  "sa1100_mach_init s =
     (let s = set_reg 1 109 ((ARMul_SelectProcessor s ARM_v4_Prop)\<lparr>lateabtSig := LOW\<rparr>)
      in sa_board_reset s)"

section \<open>The S3C2410X board\<close>

definition s3c_of :: "'e s3c_sys hbstate \<Rightarrow> 'e s3c_sys" where
  "s3c_of s = (hb_mach (board_of s))\<lparr>s3c_nirq := NirqSig s, s3c_nfiq := NfiqSig s\<rparr>"

definition put_s3c :: "'e s3c_sys hbstate \<Rightarrow> 'e s3c_sys \<Rightarrow> 'e s3c_sys hbstate" where
  "put_s3c s m = (upd_board (\<lambda>b. b\<lparr>hb_mach := m\<rparr>) s)\<lparr>NirqSig := s3c_nirq m, NfiqSig := s3c_nfiq m\<rparr>"

definition s3c_mach_read :: "ARMword \<Rightarrow> access_size \<Rightarrow> 'e s3c_sys \<Rightarrow> ARMword \<Rightarrow> ARMword \<times> 'e s3c_sys" where
  "s3c_mach_read junk z = (case z of Byte \<Rightarrow> s3c2410x_io_read_byte junk | Halfword \<Rightarrow> s3c2410x_io_read_halfword junk | Word \<Rightarrow> s3c2410x_io_read_word)"

definition s3c_mach_write :: "'e uart_dev \<Rightarrow> access_size \<Rightarrow> 'e s3c_sys \<Rightarrow> ARMword \<Rightarrow> ARMword \<Rightarrow> 'e s3c_sys" where
  "s3c_mach_write H z = (case z of Byte \<Rightarrow> s3c2410x_io_write_byte H | Halfword \<Rightarrow> s3c2410x_io_write_halfword H | Word \<Rightarrow> s3c2410x_io_write_word H)"

definition s3c_board_reset :: "'e s3c_sys hbstate \<Rightarrow> 'e s3c_sys hbstate" where
  "s3c_board_reset s = s3c2410x_reset_core (put_s3c s (s3c2410x_io_reset (s3c_of s)))"

definition s3c_board_cycle :: "'e uart_dev \<Rightarrow> 'e s3c_sys hbstate \<Rightarrow> 'e s3c_sys hbstate option" where
  "s3c_board_cycle H s = Some (put_s3c s (s3c2410x_io_do_cycle H (s3c_of s)))"

definition s3c_board_read :: "ARMword \<Rightarrow> access_size \<Rightarrow> 'e s3c_sys hbstate \<Rightarrow> ARMword \<Rightarrow> (ARMword \<times> 'e s3c_sys hbstate) option" where
  "s3c_board_read junk z s a = (let (v, m) = s3c_mach_read junk z (s3c_of s) a in Some (v, put_s3c s m))"

definition s3c_board_write :: "'e uart_dev \<Rightarrow> access_size \<Rightarrow> 'e s3c_sys hbstate \<Rightarrow> ARMword \<Rightarrow> ARMword \<Rightarrow> 'e s3c_sys hbstate option" where
  "s3c_board_write H z s a d = Some (put_s3c s (s3c_mach_write H z (s3c_of s) a d))"

definition s3c2410x_config :: "ARMword \<Rightarrow> 'e uart_dev \<Rightarrow> 'e s3c_sys hbstate device_desc option list \<Rightarrow> 'e s3c_sys hbstate machine_config" where
  "s3c2410x_config junk H devs =
     \<lparr>devices = devs, mach_io_reset = Some s3c_board_reset, mach_io_do_cycle = s3c_board_cycle H,
      mach_io_read = s3c_board_read junk, mach_io_write = s3c_board_write H\<rparr>"

definition s3c2410x_mach_init :: "'m ARMul_State \<Rightarrow> 'm ARMul_State" where
  "s3c2410x_mach_init s = ARMul_SelectProcessor s ARM_v4_Prop"

section \<open>The PXA250 board\<close>

definition pxa_of :: "'e pxa_sys hbstate \<Rightarrow> 'e pxa_sys" where
  "pxa_of s = (hb_mach (board_of s))\<lparr>pxa_nirq := NirqSig s, pxa_nfiq := NfiqSig s, pxa_nreset := NresetSig s\<rparr>"

definition put_pxa :: "'e pxa_sys hbstate \<Rightarrow> 'e pxa_sys \<Rightarrow> 'e pxa_sys hbstate" where
  "put_pxa s m = (upd_board (\<lambda>b. b\<lparr>hb_mach := m\<rparr>) s)\<lparr>NirqSig := pxa_nirq m, NfiqSig := pxa_nfiq m, NresetSig := pxa_nreset m\<rparr>"

definition pxa_mach_read :: "access_size \<Rightarrow> 'e pxa_sys \<Rightarrow> ARMword \<Rightarrow> ARMword \<times> 'e pxa_sys" where
  "pxa_mach_read z m a =
     (case z of Byte \<Rightarrow> (pxa250_io_read_byte m a, m) | Halfword \<Rightarrow> (pxa250_io_read_halfword m a, m) | Word \<Rightarrow> pxa250_io_read_word m a)"

definition pxa_mach_write :: "'e uart_dev \<Rightarrow> access_size \<Rightarrow> 'e pxa_sys \<Rightarrow> ARMword \<Rightarrow> ARMword \<Rightarrow> 'e pxa_sys" where
  "pxa_mach_write H z = (case z of Byte \<Rightarrow> pxa250_io_write_byte | Halfword \<Rightarrow> pxa250_io_write_halfword | Word \<Rightarrow> pxa250_io_write_word H)"

definition pxa_board_reset :: "'e pxa_sys hbstate \<Rightarrow> 'e pxa_sys hbstate" where
  "pxa_board_reset s = put_pxa s (pxa250_io_reset (pxa_of s))"

definition pxa_board_cycle :: "'e uart_dev \<Rightarrow> 'e pxa_sys hbstate \<Rightarrow> 'e pxa_sys hbstate option" where
  "pxa_board_cycle H s = Some (put_pxa s (pxa250_io_do_cycle H (pxa_of s)))"

definition pxa_board_read :: "access_size \<Rightarrow> 'e pxa_sys hbstate \<Rightarrow> ARMword \<Rightarrow> (ARMword \<times> 'e pxa_sys hbstate) option" where
  "pxa_board_read z s a = (let (v, m) = pxa_mach_read z (pxa_of s) a in Some (v, put_pxa s m))"

definition pxa_board_write :: "'e uart_dev \<Rightarrow> access_size \<Rightarrow> 'e pxa_sys hbstate \<Rightarrow> ARMword \<Rightarrow> ARMword \<Rightarrow> 'e pxa_sys hbstate option" where
  "pxa_board_write H z s a d = Some (put_pxa s (pxa_mach_write H z (pxa_of s) a d))"

definition pxa250_config :: "'e uart_dev \<Rightarrow> 'e pxa_sys hbstate device_desc option list \<Rightarrow> 'e pxa_sys hbstate machine_config" where
  "pxa250_config H devs =
     \<lparr>devices = devs, mach_io_reset = Some pxa_board_reset, mach_io_do_cycle = pxa_board_cycle H,
      mach_io_read = pxa_board_read, mach_io_write = pxa_board_write H\<rparr>"

text \<open>The PXA270: the accesses to bytes and halfwords are those of the PXA250.\<close>

definition pxa270_board_cycle :: "'e uart_dev \<Rightarrow> 'e pxa_sys hbstate \<Rightarrow> 'e pxa_sys hbstate option" where
  "pxa270_board_cycle H s = Some (put_pxa s (pxa270_io_do_cycle H (pxa_of s)))"

definition pxa270_board_read :: "access_size \<Rightarrow> 'e pxa_sys hbstate \<Rightarrow> ARMword \<Rightarrow> (ARMword \<times> 'e pxa_sys hbstate) option" where
  "pxa270_board_read z s a =
     (let (v, m) = (if z = Word then pxa270_io_read_word (pxa_of s) a else pxa_mach_read z (pxa_of s) a) in Some (v, put_pxa s m))"

definition pxa270_board_write :: "'e uart_dev \<Rightarrow> access_size \<Rightarrow> 'e pxa_sys hbstate \<Rightarrow> ARMword \<Rightarrow> ARMword \<Rightarrow> 'e pxa_sys hbstate option" where
  "pxa270_board_write H z s a d =
     Some (put_pxa s (if z = Word then pxa270_io_write_word H (pxa_of s) a d else pxa_mach_write H z (pxa_of s) a d))"

definition pxa270_config :: "'e uart_dev \<Rightarrow> 'e pxa_sys hbstate device_desc option list \<Rightarrow> 'e pxa_sys hbstate machine_config" where
  "pxa270_config H devs =
     \<lparr>devices = devs, mach_io_reset = Some pxa_board_reset, mach_io_do_cycle = pxa270_board_cycle H,
      mach_io_read = pxa270_board_read, mach_io_write = pxa270_board_write H\<rparr>"

definition cp6_mrc :: "ARMword \<Rightarrow> ARMword \<Rightarrow> ARMword \<Rightarrow> 'e pxa_sys hbstate \<Rightarrow> (ARMword \<times> ARMword \<times> 'e pxa_sys hbstate) option" where
  "cp6_mrc type instr data s = Some (0, xscale_cp6_mrc (hb_mach (board_of s)) instr, s)"

abbreviation (input) ARM_v5_Prop :: ARMword where "ARM_v5_Prop \<equiv> 0x80"
abbreviation (input) ARM_v5e_Prop :: ARMword where "ARM_v5e_Prop \<equiv> 0x100"
abbreviation (input) ARM_XScale_Prop :: ARMword where "ARM_XScale_Prop \<equiv> 0x200"

definition pxa250_mach_init :: "'e pxa_sys hbstate \<Rightarrow> 'e pxa_sys hbstate" where
  "pxa250_mach_init s =
     (let s = set_reg 1 89 ((ARMul_SelectProcessor s (ARM_XScale_Prop OR ARM_v5_Prop OR ARM_v5e_Prop))\<lparr>lateabtSig := LOW\<rparr>)
      in pxa_board_reset s)"

abbreviation (input) ARM_PXA27X_Prop :: ARMword where "ARM_PXA27X_Prop \<equiv> 0x1000"

definition pxa270_mach_init :: "'e pxa_sys hbstate \<Rightarrow> 'e pxa_sys hbstate" where
  "pxa270_mach_init s =
     (let s = set_reg 1 406 ((ARMul_SelectProcessor s (ARM_XScale_Prop OR ARM_v5_Prop OR ARM_v5e_Prop OR ARM_PXA27X_Prop))\<lparr>lateabtSig := LOW\<rparr>)
      in pxa_board_reset s)"

section \<open>The units leave the status bits alone\<close>

lemma hw_view [simp]:
  "psr_view (upd_hw f s) = psr_view s" "psr_view (put_tlb k t s) = psr_view s" "psr_view (put_cache c x s) = psr_view s"
  "psr_view (put_wb w s) = psr_view s" "psr_view (put_rb r s) = psr_view s" "psr_view (u\<lparr>NresetSig := v\<rparr>) = psr_view u"
  by (simp_all add: upd_hw_def put_tlb_def put_cache_def put_wb_def put_rb_def psr_view_def)

lemma board_view [simp]: "psr_view (upd_board g s) = psr_view s"
  by (simp add: upd_board_def)

lemma mach_view [simp]: "psr_view (put_sa s m) = psr_view s" "psr_view (put_s3c t n) = psr_view t" "psr_view (put_pxa u k) = psr_view u"
  by (simp_all add: put_sa_def put_s3c_def put_pxa_def)

context psr_bus
begin

lemma write_bytes_view: "write_bytes B s pa ds = Some t \<Longrightarrow> psr_view t = psr_view s"
  by (induction ds arbitrary: s pa) (auto split: option.splits dest!: mem_views)

lemma wb_clean_view: "wb_clean_last B s wb = Some (t, wb') \<Longrightarrow> psr_view t = psr_view s"
  by (auto simp: wb_clean_last_def Let_def dest: write_bytes_view)

lemma wb_drain_view: "wb_drain n B s wb = Some (t, wb') \<Longrightarrow> psr_view t = psr_view s"
proof (induction n arbitrary: s wb)
  case (Suc n)
  then obtain u w where "wb_clean_last B s wb = Some (u, w)" "wb_drain n B u w = Some (t, wb')" by (auto split: option.splits)
  then show ?case using Suc.IH wb_clean_view by metis
qed simp

lemma wb_write_view:
  assumes "mmu_wb_write_bytes B s wb pa ds = Some (t, wb')"
  shows "psr_view t = psr_view s"
proof -
  have "mmu_wb_write_bytes C s wb pa ds = Some r \<Longrightarrow> C = B \<longrightarrow> psr_view (fst r) = psr_view s" for C r
  proof (rule mmu_wb_write_bytes.raw_induct [where P = "\<lambda>C s wb pa ds r. C = B \<longrightarrow> psr_view (fst r) = psr_view s"])
    fix rec C s wb pa ds r
    assume h: "\<And>C s wb pa ds r. rec C s wb pa ds = Some r \<Longrightarrow> C = B \<longrightarrow> psr_view (fst r) = psr_view s"
      "(if ds = [] then Some (s, wb)
        else Option.bind (if wb_num wb = wb_used wb then wb_clean_last C s wb else Some (s, wb))
          (\<lambda>(s, wb). let i = if length ds < wb_nb wb then length ds else wb_nb wb
             in rec C s (wb_put pa (take i ds) wb) (pa + of_nat i) (drop i ds))) = Some r"
    show "C = B \<longrightarrow> psr_view (fst r) = psr_view s"
    proof
      assume "C = B"
      then show "psr_view (fst r) = psr_view s"
        using h(2) by (auto simp: Let_def bind_eq_Some_conv split: if_splits dest!: h(1) wb_clean_view)
    qed
  qed
  from this [OF assms] show ?thesis by simp
qed

lemma cache_ops_view:
  "mmu_cache_invalidate_all B s c = Some (t, c') \<Longrightarrow> psr_view t = psr_view s" "mmu_cache_invalidate B s c v = Some (t, c') \<Longrightarrow> psr_view t = psr_view s"
  "mmu_cache_invalidate_by_index B s c v = Some (t, c') \<Longrightarrow> psr_view t = psr_view s" "mmu_cache_soft_flush B s c v = Some (t, c') \<Longrightarrow> psr_view t = psr_view s"
  "mmu_cache_clean B s c v = Some (t, c') \<Longrightarrow> psr_view t = psr_view s" "mmu_cache_clean_by_index B s c v = Some (t, c') \<Longrightarrow> psr_view t = psr_view s"
  by (auto simp: mmu_cache_invalidate_all_def mmu_cache_invalidate_def mmu_cache_invalidate_by_index_def mmu_cache_soft_flush_def
      mmu_cache_clean_def mmu_cache_clean_by_index_def clean_line_def Let_def split: option.splits
      dest!: invalidate_line_view invalidate_lines_view write_back_view)

lemma rb_load_view: "mmu_rb_load B s rb tlb i type va = Some (t, rb', tlb') \<Longrightarrow> psr_view t = psr_view s"
  by (auto simp: mmu_rb_load_def Let_def split: option.splits sum.splits if_splits dest!: translate_view check_access_view read_words_view)

end

locale psr_hv_bus = psr_bus B for B :: "'y hv_hw bus_ops"
begin

lemma hv_translate_view: "hv_translate B k s va rd = Some (r, t) \<Longrightarrow> psr_view t = psr_view s"
  by (auto simp: hv_translate_def Let_def split: option.splits sum.splits if_splits dest!: translate_view check_access_view)

lemma hv_alloc_view: "hv_alloc B k s va pa = Some (d, t) \<Longrightarrow> psr_view t = psr_view s"
  by (auto simp: hv_alloc_def dest: alloc_view)

lemma hv_drain_view: "hv_drain B s = Some t \<Longrightarrow> psr_view t = psr_view s"
  by (auto simp: hv_drain_def mmu_wb_drain_all_def dest: wb_drain_view)

lemma hv_load_view: "hv_load_instr B s va = Some (r, t) \<Longrightarrow> psr_view t = psr_view s"
  by (auto simp: hv_load_instr_def Let_def split: option.splits sum.splits if_splits dest!: hv_translate_view hv_alloc_view mem_views)

lemma hv_read_miss_view: "hv_read_miss B junk z k s va rva e = Some (r, t) \<Longrightarrow> psr_view t = psr_view s"
  by (auto simp: hv_read_miss_def Let_def split: option.splits if_splits dest!: hv_drain_view hv_alloc_view mem_type_views cache_ops_view)

lemma read_view:
  "sa_mmu_read B junk z s va = Some (r, t) \<Longrightarrow> psr_view t = psr_view s" "arm9_mmu_read k B junk z s va = Some (r, t) \<Longrightarrow> psr_view t = psr_view s"
  unfolding sa_mmu_read_def arm9_mmu_read_def Let_def
  by (auto split: option.splits sum.splits if_splits dest!: hv_translate_view hv_read_miss_view mem_type_views)

lemma hv_write_miss_view: "hv_write_miss B z s va rva d e = Some t \<Longrightarrow> psr_view t = psr_view s"
  by (auto simp: hv_write_miss_def Let_def split: option.splits if_splits dest!: hv_drain_view wb_write_view mem_type_views)

lemma update_view [simp]: "psr_view (update_cache k z s va d rva p) = psr_view s"
  by (simp add: update_cache_def Let_def)

lemma hv_update_view: "hv_update ks z s va d rva = Some t \<Longrightarrow> psr_view t = psr_view s"
  by (induction ks) (auto split: option.splits)

lemma hv_write_view:
  assumes "hv_write k ks B z s va d = Some (f, t)"
  shows "psr_view t = psr_view s"
proof -
  define u where "u = (case mmu_cache_search (get_cache I_CACHE s) (mmu_pid_va_map s va) of
     None \<Rightarrow> s | Some p \<Rightarrow> update_cache I_CACHE z s (mmu_pid_va_map s va) d (mmu_pid_va_map s va) p)"
  have "psr_view u = psr_view s" by (simp add: u_def split: option.split)
  with assms show ?thesis unfolding hv_write_def Let_def u_def [symmetric]
    by (auto split: option.splits sum.splits if_splits dest!: hv_translate_view hv_update_view hv_write_miss_view mem_type_views)
qed

lemma on_cache_view:
  "on_cache k (mmu_cache_invalidate_all B) s = Some t \<Longrightarrow> psr_view t = psr_view s"
  "on_cache k (\<lambda>s c. mmu_cache_invalidate B s c v) s = Some t \<Longrightarrow> psr_view t = psr_view s" "on_cache k (\<lambda>s c. mmu_cache_clean B s c v) s = Some t \<Longrightarrow> psr_view t = psr_view s"
  "on_cache k (\<lambda>s c. mmu_cache_invalidate_by_index B s c v) s = Some t \<Longrightarrow> psr_view t = psr_view s"
  "on_cache k (\<lambda>s c. mmu_cache_clean_by_index B s c v) s = Some t \<Longrightarrow> psr_view t = psr_view s"
  by (auto simp: on_cache_def dest: cache_ops_view)

lemma cache_ops_views:
  "sa_mmu_cache_ops B s i v = Some t \<Longrightarrow> psr_view t = psr_view s" "arm920t_mmu_cache_ops B s i v = Some t \<Longrightarrow> psr_view t = psr_view s"
  "arm926ejs_mmu_cache_ops B s i v = Some t \<Longrightarrow> psr_view t = psr_view s"
  unfolding sa_mmu_cache_ops_def arm920t_mmu_cache_ops_def arm926ejs_mmu_cache_ops_def Let_def
  by (auto simp: bind_eq_Some_conv split: if_splits dest!: on_cache_view hv_drain_view)

lemma tlb_ops_view [simp]:
  "psr_view (sa_mmu_tlb_ops s i v) = psr_view s" "psr_view (arm920t_mmu_tlb_ops s i v) = psr_view s" "psr_view (arm926ejs_mmu_tlb_ops s i v) = psr_view s"
  by (simp_all add: sa_mmu_tlb_ops_def arm920t_mmu_tlb_ops_def arm926ejs_mmu_tlb_ops_def flush_tlb_def flush_tlb_entry_def Let_def)

lemma rb_ops_view: "sa_mmu_rb_ops B s i v = Some t \<Longrightarrow> psr_view t = psr_view s"
  by (auto simp: sa_mmu_rb_ops_def Let_def split: if_splits dest: rb_load_view)

lemma xscale_ops_view:
  "xscale_cp15_cache_ops B s i v = Some t \<Longrightarrow> psr_view t = psr_view s" "xscale_cp15_tlb_ops s i v = Some t \<Longrightarrow> psr_view t = psr_view s"
  unfolding xscale_cp15_cache_ops_def xscale_cp15_tlb_ops_def Let_def
  by (auto simp: bind_eq_Some_conv flush_tlb_def flush_tlb_entry_def split: if_splits dest!: on_cache_view hv_drain_view)

lemma xscale_read_view: "xscale_mmu_read B z s va = Some (r, t) \<Longrightarrow> psr_view t = psr_view s"
  unfolding xscale_mmu_read_def Let_def
  by (auto split: option.splits sum.splits if_splits dest!: hv_translate_view hv_alloc_view mem_type_views)

lemma xscale_load_view: "xscale_mmu_load_instr B s va = Some (r, t) \<Longrightarrow> psr_view t = psr_view s"
  unfolding xscale_mmu_load_instr_def Let_def
  by (auto split: option.splits sum.splits if_splits dest!: hv_translate_view mem_views)

lemma xscale_write_view:
  assumes "xscale_mmu_write B z s va d = Some (f, t)"
  shows "psr_view t = psr_view s"
  using assms unfolding xscale_mmu_write_def Let_def
  by (auto split: option.splits sum.splits if_splits dest!: hv_translate_view mem_type_views)

lemma mcr_view: "unit_mcr u B s i v = Some t \<Longrightarrow> psr_view t = psr_view s"
  by (cases u) (auto simp: unit_mcr_def sa_mmu_mcr_def arm920t_mmu_mcr_def arm926ejs_mmu_mcr_def xscale_mmu_mcr_def Let_def
    split: if_splits dest: cache_ops_views rb_ops_view xscale_ops_view)

end

sublocale psr_hv_bus \<subseteq> psr_memory "unit_ops u B junk" for u junk
  by unfold_locales (cases u; auto simp: unit_ops_def sa_ops_def arm920t_ops_def arm926ejs_ops_def hv_ops_def sa_mmu_write_def arm920t_mmu_write_def
      arm926ejs_mmu_write_def arm920t_mmu_read_def arm926ejs_mmu_read_def xscale_ops_def dest: xscale_read_view xscale_write_view xscale_load_view read_view hv_write_view hv_load_view)+

context psr_hv_bus
begin

lemma unit_memory: "psr_memory (unit_ops u B junk)"
  by unfold_locales

end

section \<open>The boards\<close>

lemmas xscale_handlers = no_unit_def hv_MMUMRC_def hv_MMUMCR_def xscale_cp15_ldc_def xscale_cp15_stc_def xscale_cp15_cdp_def xscale_cp15_mrc_def xscale_cp15_mcr_def
  xscale_cp13_ldc_def xscale_cp13_stc_def xscale_cp13_mrc_def xscale_cp13_mcr_def xscale_cp13_cdp_def
  xscale_cp14_ldc_def xscale_cp14_stc_def xscale_cp14_cdp_def cp14_mrc_def cp14_mcr_def

lemma board_ok [simp]: "psr_ok X (upd_board g s) = psr_ok X s"
  using psr_view_ok [OF board_view] psr_view_ok [OF board_view [symmetric]] by blast

lemma quiet_xscale: "quiet_unit xscale_cp13" "quiet_unit xscale_cp14"
  by (simp_all add: quiet_unit_def xscale_cp13_def xscale_cp14_def xscale_handlers)

lemma quiet_access: "quiet_cp (C\<lparr>CPAccess := a\<rparr>) n = quiet_cp C n"
  by (simp add: quiet_cp_def)

lemma hv_psr_env:
  assumes "quiet_devices (devices C)" "quiet_machine C" "quiet_flash F" "\<And>n. n < 16 \<Longrightarrow> quiet_cp (fst T) n"
  shows "psr_env (hv_env u ch junk F C T)"
proof -
  have "psr_bus (board_bus F C)" by (rule bus_quiet [OF assms(1-3)])
  then have b: "psr_hv_bus (board_bus F C)" by (simp add: psr_hv_bus_def)
  then have m: "psr_memory (unit_ops u (board_bus F C) junk)" by (rule psr_hv_bus.unit_memory)
  have k: "keeps X (unit_mcr v (board_bus F C) s i d)" if "psr_ok X s" for X s i d v
    by (rule psr_view_keeps [OF psr_hv_bus.mcr_view [OF b] that])
  have q: "pred_option (\<lambda>x. True) r" for r :: "'x option" by (simp add: pred_option_def)
  have "quiet_unit (hv_cp15 u junk (board_bus F C))"
    using k [of _ _ xscale_unit] k [of _ _ u]
    by (cases "u = xscale_unit") (simp_all add: quiet_unit_def hv_cp15_def xscale_handlers unit_mcr_def option.pred_map comp_def q)
  then have c: "quiet_cp (env_cp (hv_env u ch junk F C T)) n" if "n < 16" for n
    using quiet_attach [OF _ quiet_attach [OF quiet_xscale(2) quiet_attach [OF quiet_xscale(1) assms(4) [OF that]]]] quiet_attach [OF _ assms(4) [OF that]]
    by (auto simp: hv_env_def hv_coproc_def quiet_access Let_def)
  have io: "psr_view t = psr_view s" if "hv_io C s = Some t" for s t
    using that by (auto simp: hv_io_def dest: cycle_quiet [OF assms(1,2)])
  have e: "psr_ok X (event_handler f s)" if "psr_ok X s" for X f and s :: "'a hbstate"
    using that by (simp add: event_handler_def DoAFIQ_def DoAIRQ_def)
  show ?thesis
    by unfold_locales (use m c e psr_view_keeps [OF io] in \<open>simp_all add: psr_memory_def hv_env_def Let_def quiet_cp_def\<close>)
qed

lemma sa_quiet: "quiet_machine (sa1100_config H devs)"
  by (auto simp: quiet_machine_def sa1100_config_def sa_board_cycle_def sa_board_read_def sa_board_write_def)

lemma s3c_quiet: "quiet_machine (s3c2410x_config junk H devs)"
  by (auto simp: quiet_machine_def s3c2410x_config_def s3c_board_cycle_def s3c_board_read_def s3c_board_write_def split: prod.splits)

lemma pxa_quiet: "quiet_machine (pxa250_config H devs)"
  by (auto simp: quiet_machine_def pxa250_config_def pxa_board_cycle_def pxa_board_read_def pxa_board_write_def split: prod.splits)

lemma pxa270_quiet: "quiet_machine (pxa270_config H devs)" "quiet_unit (no_unit\<lparr>u_mrc := Some cp6_mrc\<rparr>)"
  by (auto simp: quiet_machine_def pxa270_config_def pxa270_board_cycle_def pxa270_board_read_def pxa270_board_write_def split: prod.splits)
    (simp add: quiet_unit_def no_unit_def cp6_mrc_def)

abbreviation no_coprocessors :: "'m cp_tables \<Rightarrow> 'm cp_tables" where
  "no_coprocessors T \<equiv> fold ARMul_CoProDetach [0..<16] T"

interpretation sa_core: psr_env "hv_env sa11xx_unit ch junk no_flash (sa1100_config H []) (no_coprocessors T)" for ch junk H T
  by (rule hv_psr_env [OF _ sa_quiet quiet_none(2) quiet_detach_all]) (simp add: sa1100_config_def quiet_none)

interpretation s3c_core: psr_env "hv_env arm920t_unit ch junk no_flash (s3c2410x_config junk H []) (no_coprocessors T)" for ch junk H T
  by (rule hv_psr_env [OF _ s3c_quiet quiet_none(2) quiet_detach_all]) (simp add: s3c2410x_config_def quiet_none)

interpretation pxa_core: psr_env "hv_env xscale_unit ch junk no_flash (pxa250_config H []) (no_coprocessors T)" for ch junk H T
  by (rule hv_psr_env [OF _ pxa_quiet quiet_none(2) quiet_detach_all]) (simp add: pxa250_config_def quiet_none)

interpretation pxa270_core: psr_env "hv_env xscale_unit ch junk no_flash (pxa270_config H [])
    (ARMul_CoProAttach 6 (no_unit\<lparr>u_mrc := Some cp6_mrc\<rparr>) (no_coprocessors T))" for ch junk H T
  by (rule hv_psr_env [OF _ pxa270_quiet(1) quiet_none(2) quiet_attach [OF pxa270_quiet(2) quiet_detach_all]]) (simp add: pxa270_config_def quiet_none)

text \<open>
  C21: the emulation loop is type safe on the boards with separate caches.  For each of the four units, with any devices, machine, flash and
  coprocessors that leave the status bits alone (as the SA-1100, the S3C2410X and the PXA250 do), a run that starts with flags in range and the bank of the mode keeps
  the flags in range, and the bank is the one of the mode or, in SVC26 and ABORT32 mode, the user bank, which is where an aborted STM of the user registers can leave it.
\<close>

theorem cores_run_type_safe:
  assumes "quiet_devices (devices C)" "quiet_machine C" "quiet_flash F" "\<And>n. n < 16 \<Longrightarrow> quiet_cp (fst T) n"
    and "flags_ok s" "bank_ok s" "reaches (hv_env u ch junk F C T) p s q t"
  shows "flags_ok t \<and> (Bank t = ModeToBank (Mode t) \<or> Bank t = USERBANK \<and> Mode t \<in> {SVC26MODE, ABORT32MODE})"
proof -
  have "psr_ok ABORTMODES s" using assms(5,6) by (simp add: psr_ok_def)
  then have "psr_ok ABORTMODES t" using psr_env.reaches_ok [OF hv_psr_env [OF assms(1-4)] assms(7)] by blast
  then show ?thesis by (auto simp: psr_ok_def bank_ok_def)
qed

section \<open>A small SA-1100 board\<close>

definition ex_sa_board :: "unit sa_sys hbstate" where
  "ex_sa_board = (set_reg 15 8 (sa1100_mach_init (ARMul_NewState \<lparr>current_num = 1,
     mem_banks = [\<lparr>mb_addr = 0, mb_len = 64, mb_read = real_read, mb_write = real_write, mb_filename = [], mb_type = MEMTYPE_RAM\<rparr>,
       \<lparr>mb_addr = 0, mb_len = 0, mb_read = null_read, mb_write = null_write, mb_filename = [], mb_type = MEMTYPE_IO\<rparr>],
     mbp = None, global_mbp = None, rom = (\<lambda>_ _. 0xe3a00007), rom_size = (\<lambda>_. 0),
     iosys = \<lparr>h_i_tlb = \<lparr>tlb_cycle = 0, tlb_entrys = []\<rparr>, h_d_tlb = \<lparr>tlb_cycle = 0, tlb_entrys = []\<rparr>,
       h_i_cache = mmu_cache_init 32 2 1 CACHE_WRITE_BACK (\<lambda>_ _. \<lparr>cl_tag = 0, cl_pa = 0, cl_data = []\<rparr>),
       h_d_cache = mmu_cache_init 32 1 1 CACHE_WRITE_BACK (\<lambda>_ _. \<lparr>cl_tag = 0, cl_pa = 0, cl_data = []\<rparr>),
       h_mini_cache = mmu_cache_init 32 1 1 CACHE_WRITE_BACK (\<lambda>_ _. \<lparr>cl_tag = 0, cl_pa = 0, cl_data = []\<rparr>),
       h_rb = [], h_wb = ex_wb, h_cpu_arch_name = ''armv4'', h_cpu_val = 0x6901b110,
       h_dev = \<lparr>hb_prescale = 10, hb_cp14 = xscale_cp14_init, hb_mach = ex_sa\<rparr>\<rparr>\<rparr>)))\<lparr>Mode := SVC32MODE, Bank := SVCBANK, NresetSig := HIGH, NirqSig := HIGH, NfiqSig := HIGH\<rparr>"

abbreviation (input) ex_sa_env :: "unit sa_sys hv_board hv_hw mem_sys env" where
  "ex_sa_env \<equiv> hv_env sa11xx_unit False 0 no_flash (sa1100_config ex_dev []) (no_coprocessors undefined)"

lemma ex_sa_round:
  "map_option (\<lambda>(g, p, s). (g, p_pc p, Reg s 15, Mode s)) (emulate_round ex_sa_env \<lparr>p_pc = 0, p_decoded = 0, p_loaded = 0\<rparr> ex_sa_board) = Some (True, 4, 12, SVC32MODE)"
  by code_simp
lemma ex_sa_ok: "bank_ok ex_sa_board" "flags_ok ex_sa_board" by code_simp+

theorem cores_run_type_safe_witness:
  "\<exists>q t. reaches ex_sa_env \<lparr>p_pc = 0, p_decoded = 0, p_loaded = 0\<rparr> ex_sa_board q t \<and> Reg t 15 = 12
     \<and> flags_ok t \<and> (Bank t = ModeToBank (Mode t) \<or> Bank t = USERBANK \<and> Mode t \<in> {SVC26MODE, ABORT32MODE})"
proof -
  let ?p = "\<lparr>p_pc = 0, p_decoded = 0, p_loaded = 0\<rparr>"
  obtain g q t where r: "emulate_round ex_sa_env ?p ex_sa_board = Some (g, q, t)" "Reg t 15 = 12" using ex_sa_round by auto
  have d: "quiet_devices (devices (sa1100_config ex_dev []))" by (simp add: sa1100_config_def quiet_none)
  have "reaches ex_sa_env ?p ex_sa_board q t" using reaches.round [OF reaches.start r(1)] .
  with r(2) cores_run_type_safe [OF d sa_quiet quiet_none(2) quiet_detach_all ex_sa_ok(2,1) this] show ?thesis by blast
qed

end
