(* ===== verification/Dev_Cells.thy ===== *)
theory Dev_Cells
  imports Arm_Io
begin

text \<open>
  The cells of the flash chips: the words of the memory banks, as the drivers under \<^verbatim>\<open>device/flash\<close> read, write and erase them.  They meet
  the contract \<open>byte_memory\<close>, and an access changes nothing but the banks (\<open>cells_only\<close>).
\<close>

section \<open>The cells\<close>

text \<open>\<open>global_mbp = bank_ptr (addr)\<close> followed by one of the \<open>real_\<close> functions.\<close>

definition set_mbp :: "'x mstate \<Rightarrow> ARMword \<Rightarrow> 'x mstate option" where
  "set_mbp s addr = map_option (\<lambda>(r, m). s\<lparr>mach := m\<lparr>global_mbp := r\<rparr>\<rparr>) (bank_ptr addr (mach s))"

definition cell_read :: "access_size \<Rightarrow> 'x mstate \<Rightarrow> ARMword \<Rightarrow> (ARMword \<times> 'x mstate) option" where
  "cell_read z s addr = Option.bind (set_mbp s addr) (\<lambda>s. map_option (\<lambda>d. (d, s)) (real_read_sz z s addr))"

definition cell_write :: "access_size \<Rightarrow> 'x mstate \<Rightarrow> ARMword \<Rightarrow> ARMword \<Rightarrow> 'x mstate option" where
  "cell_write z s addr data = Option.bind (set_mbp s addr) (\<lambda>s. real_write_sz z s addr data)"

text \<open>The loop of the erase commands; the address wraps, so that it need not end.\<close>

partial_function (option) erase_loop :: "'x mstate \<Rightarrow> ARMword \<Rightarrow> ARMword \<Rightarrow> 'x mstate option" where
  "erase_loop s addr end_addr =
     (if addr < end_addr
      then Option.bind (cell_write Word s addr 0xffffffff) (\<lambda>s. erase_loop s (addr + 4) end_addr)
      else Some s)"

text \<open>A bus cycle a chip has latched (\<open>struct flash_am29_bus\<close>, \<open>struct flash_sst39lvf160_bus\<close>).\<close>

record flash_bus =
  fb_addr :: ARMword
  fb_data :: ARMword

abbreviation (input) no_bus :: flash_bus where "no_bus \<equiv> \<lparr>fb_addr = 0, fb_data = 0\<rparr>"

section \<open>The cells as a byte memory\<close>

text \<open>An address of a bank, whatever its access functions are.\<close>

definition cell_bank :: "'x mem_sys \<Rightarrow> ARMword \<Rightarrow> nat \<Rightarrow> bool" where
  "cell_bank m a i \<longleftrightarrow> i < length (live_banks m) \<and> bank_hit (mem_banks m ! i) a"

definition cell_ok :: "'x mstate \<Rightarrow> ARMword \<Rightarrow> bool" where
  "cell_ok s a \<longleftrightarrow> mem_wf (mach s) \<and> bigendSig s \<le> 1 \<and> (\<exists>i. cell_bank (mach s) a i)"

text \<open>States that differ in the bank caches and in the words of the banks only.\<close>

definition outside :: "'x mstate \<Rightarrow> 'x mstate" where
  "outside s = s\<lparr>mach := (mach s)\<lparr>mbp := None, global_mbp := None, rom := (\<lambda>_ _. 0)\<rparr>\<rparr>"

definition cells_only :: "'x mstate \<Rightarrow> 'x mstate \<Rightarrow> bool" where
  "cells_only s t \<longleftrightarrow> outside t = outside s"

lemma cells_only_refl [simp]: "cells_only s s"
  by (simp add: cells_only_def)

lemma cells_only_trans [trans]: "cells_only s t \<Longrightarrow> cells_only t u \<Longrightarrow> cells_only s u"
  by (simp add: cells_only_def)

lemma cells_only_upd [simp]:
  "cells_only s (s\<lparr>mach := (mach s)\<lparr>mbp := p, global_mbp := g\<rparr>\<rparr>)" "cells_only s (s\<lparr>mach := (mach s)\<lparr>global_mbp := g\<rparr>\<rparr>)"
  "cells_only s (s\<lparr>mach := rom_upd i a f (mach s)\<rparr>)"
  by (simp_all add: cells_only_def outside_def rom_upd_def Let_def)

lemma set_mbp_frame: "set_mbp s a = Some t \<Longrightarrow> cells_only s t \<and> rom (mach t) = rom (mach s)"
  by (auto simp: set_mbp_def bank_ptr_def split: option.splits if_splits)

lemma cell_read_frame: "cell_read z s a = Some (d, t) \<Longrightarrow> cells_only s t \<and> rom (mach t) = rom (mach s)"
  using set_mbp_frame by (auto simp: cell_read_def bind_eq_Some_conv)

lemma real_write_frame: "real_write_sz z s a d = Some t \<Longrightarrow> cells_only s t"
  by (auto simp: real_write_sz_def real_write_byte_def real_write_halfword_def real_write_word_def split: access_size.splits)

lemma cell_write_frame: "cell_write z s a d = Some t \<Longrightarrow> cells_only s t"
  unfolding cell_write_def bind_eq_Some_conv by (elim exE conjE) (drule set_mbp_frame, drule real_write_frame, erule conjE, rule cells_only_trans)

lemma cell_index:
  assumes "mem_wf m" "cell_bank m a i"
  shows "ram_index m a = i"
proof -
  let ?P = "\<lambda>i. bank_hit (mem_banks m ! i) a"
  obtain j where j: "find ?P [0..<length (live_banks m)] = Some j"
    using assms(2) by (cases "find ?P [0..<length (live_banks m)]") (auto simp: find_None_iff cell_bank_def)
  then have "?P j" "j < length (live_banks m)" by (auto simp: find_Some_iff)
  then have "i = j" using assms live_nth unfolding mem_wf_def cell_bank_def by metis
  then show ?thesis using j by (simp add: ram_index_def)
qed

lemma set_mbp_ok:
  assumes "cell_ok s a"
  shows "\<exists>p. mem_wf ((mach s)\<lparr>mbp := p\<rparr>) \<and>
     set_mbp s a = Some (s\<lparr>mach := (mach s)\<lparr>mbp := p, global_mbp := Some (ram_index (mach s) a)\<rparr>\<rparr>)"
proof -
  obtain i where i: "cell_bank (mach s) a i" "mem_wf (mach s)" using assms by (auto simp: cell_ok_def)
  then obtain p where "bank_ptr a (mach s) = Some (Some i, (mach s)\<lparr>mbp := p\<rparr>)" "mem_wf ((mach s)\<lparr>mbp := p\<rparr>)"
    using bank_ptr_correct [OF i(2), of a] by (auto simp: cell_bank_def)
  then show ?thesis using cell_index [OF i(2,1)] by (intro exI [of _ p]) (simp add: set_mbp_def)
qed

lemma cell_ok_upd:
  assumes "mem_wf (mach s)" "mem_wf ((mach s)\<lparr>mbp := p\<rparr>)"
  shows "cell_ok (s\<lparr>mach := (mach s)\<lparr>mbp := p, global_mbp := g, rom := r\<rparr>\<rparr>) = cell_ok s"
proof -
  have "mem_wf ((mach s)\<lparr>mbp := p, global_mbp := g, rom := r\<rparr>)" using assms(2) by (simp add: mem_wf_def live_banks_def)
  then show ?thesis using assms(1) by (simp add: fun_eq_iff cell_ok_def cell_bank_def live_banks_def)
qed

lemma cell_ok_wf: "cell_ok s a \<Longrightarrow> mem_wf (mach s)"
  and cell_ok_big: "cell_ok s a \<Longrightarrow> bigendSig s = 0 \<or> bigendSig s = 1"
  by (auto simp: cell_ok_def word_le_nat_alt word_unat_eq_iff)

definition lane_upd :: "access_size \<Rightarrow> ARMword \<Rightarrow> ARMword \<Rightarrow> ARMword \<Rightarrow> ARMword \<Rightarrow> ARMword" where
  "lane_upd z be a d = (case z of Byte \<Rightarrow> lane_write 0xff (byte_offset be a) d | Halfword \<Rightarrow> lane_write 0xffff (half_offset be a) d | Word \<Rightarrow> \<lambda>_. d)"

definition lane_get :: "access_size \<Rightarrow> ARMword \<Rightarrow> ARMword \<Rightarrow> ARMword \<Rightarrow> ARMword" where
  "lane_get z be a w = (case z of Byte \<Rightarrow> lane_read 0xff (byte_offset be a) w | Halfword \<Rightarrow> lane_read 0xffff (half_offset be a) w | Word \<Rightarrow> w)"

text \<open>What an access does, with the bank and the index of the word written out.\<close>

lemma cell_read_ok:
  assumes "cell_ok s a"
  shows "\<exists>p. mem_wf ((mach s)\<lparr>mbp := p\<rparr>) \<and> cell_read z s a = Some (lane_get z (bigendSig s) a (ram_word s a),
     s\<lparr>mach := (mach s)\<lparr>mbp := p, global_mbp := Some (ram_index (mach s) a), rom := rom (mach s)\<rparr>\<rparr>)"
proof -
  obtain p where p: "mem_wf ((mach s)\<lparr>mbp := p\<rparr>)" and
    m: "set_mbp s a = Some (s\<lparr>mach := (mach s)\<lparr>mbp := p, global_mbp := Some (ram_index (mach s) a)\<rparr>\<rparr>)"
    using set_mbp_ok [OF assms] by blast
  show ?thesis
    by (intro exI [of _ p] conjI p) (simp add: cell_read_def m real_read_sz_def real_read_byte_def real_read_halfword_def
        real_read_word_def lane_get_def rom_get_def rom_index_def ram_word_def split: access_size.split)
qed

lemma cell_write_ok:
  assumes "cell_ok s a"
  shows "\<exists>p. mem_wf ((mach s)\<lparr>mbp := p\<rparr>) \<and> cell_write z s a d =
     Some (s\<lparr>mach := (mach s)\<lparr>mbp := p, global_mbp := Some (ram_index (mach s) a),
       rom := (rom (mach s))(ram_index (mach s) a := (rom (mach s) (ram_index (mach s) a))
         (rom_index (mach s) (ram_index (mach s) a) a := lane_upd z (bigendSig s) a d (ram_word s a)))\<rparr>\<rparr>)"
proof -
  obtain p where p: "mem_wf ((mach s)\<lparr>mbp := p\<rparr>)" and
    m: "set_mbp s a = Some (s\<lparr>mach := (mach s)\<lparr>mbp := p, global_mbp := Some (ram_index (mach s) a)\<rparr>\<rparr>)"
    using set_mbp_ok [OF assms] by blast
  show ?thesis
    by (intro exI [of _ p] conjI p) (simp add: cell_write_def m real_write_sz_def real_write_byte_def real_write_halfword_def
        real_write_word_def lane_upd_def rom_upd_def rom_get_def rom_index_def ram_word_def Let_def split: access_size.split)
qed

lemma ram_word_upd:
  "ram_word (s\<lparr>mach := (mach s)\<lparr>mbp := p, global_mbp := g, rom := r\<rparr>\<rparr>) a =
     r (ram_index (mach s) a) (rom_index (mach s) (ram_index (mach s) a) a)"
  by (simp add: ram_word_def rom_get_def rom_index_def
      ram_index_cong [of "(mach s)\<lparr>mbp := p, global_mbp := g, rom := r\<rparr>" "mach s"])

lemma cell_read_byte_law:
  assumes "cell_ok s a"
  shows "\<exists>t. cell_read Byte s a = Some (ram_byte s a, t) \<and> cell_ok t = cell_ok s \<and> (\<forall>b. cell_ok s b \<longrightarrow> ram_byte t b = ram_byte s b)"
proof -
  obtain p where p: "mem_wf ((mach s)\<lparr>mbp := p\<rparr>)" "cell_read Byte s a = Some (lane_get Byte (bigendSig s) a (ram_word s a),
     s\<lparr>mach := (mach s)\<lparr>mbp := p, global_mbp := Some (ram_index (mach s) a), rom := rom (mach s)\<rparr>\<rparr>)"
    using cell_read_ok [OF assms, of Byte] by blast
  let ?t = "s\<lparr>mach := (mach s)\<lparr>mbp := p, global_mbp := Some (ram_index (mach s) a), rom := rom (mach s)\<rparr>\<rparr>"
  have "ram_byte ?t b = ram_byte s b" for b unfolding ram_byte_upd by (simp add: ram_byte_def ram_word_def rom_get_def)
  moreover have "lane_get Byte (bigendSig s) a (ram_word s a) = ram_byte s a" by (simp add: lane_get_def ram_byte_def)
  moreover have "cell_ok ?t = cell_ok s" by (rule cell_ok_upd [OF cell_ok_wf [OF assms] p(1)])
  ultimately show ?thesis using p(2) by auto
qed

lemma cell_write_byte_law:
  assumes "cell_ok s a"
  shows "\<exists>t. cell_write Byte s a d = Some t \<and> cell_ok t = cell_ok s \<and> ram_byte t a = d AND 0xff
     \<and> (\<forall>b. cell_ok s b \<longrightarrow> b \<noteq> a \<longrightarrow> ram_byte t b = ram_byte s b)"
proof -
  let ?i = "ram_index (mach s) a" and ?be = "bigendSig s"
  let ?r = "(rom (mach s))(?i := (rom (mach s) ?i)(rom_index (mach s) ?i a := lane_upd Byte ?be a d (ram_word s a)))"
  note be = cell_ok_big [OF assms]
  obtain p where p: "mem_wf ((mach s)\<lparr>mbp := p\<rparr>)"
    "cell_write Byte s a d = Some (s\<lparr>mach := (mach s)\<lparr>mbp := p, global_mbp := Some ?i, rom := ?r\<rparr>\<rparr>)"
    using cell_write_ok [OF assms, of Byte d] by blast
  let ?t = "s\<lparr>mach := (mach s)\<lparr>mbp := p, global_mbp := Some ?i, rom := ?r\<rparr>\<rparr>"
  have same: "ram_byte ?t a = d AND 0xff" unfolding ram_byte_upd
    using lane_read_write_same [OF byte_offset_le [OF be, of a]] by (simp add: mask_8_16 lane_upd_def)
  have "ram_byte ?t b = ram_byte s b" if "b \<noteq> a" for b
  proof (cases "ram_index (mach s) b = ?i \<and> rom_index (mach s) ?i b = rom_index (mach s) ?i a")
    case True
    then have "b AND 3 \<noteq> a AND 3" using that rom_cell_inj [of b "mb_addr (mem_banks (mach s) ! ?i)" a]
      by (auto simp: rom_index_def simp flip: word_unat_eq_iff)
    then show ?thesis unfolding ram_byte_upd
      using True lane_read_write_other [OF byte_offset_neq [OF be], of b a]
      by (simp add: mask_8_16 ram_byte_def ram_word_def rom_get_def lane_upd_def)
  next
    case False
    then show ?thesis unfolding ram_byte_upd by (auto simp: ram_byte_def ram_word_def rom_get_def)
  qed
  then show ?thesis using p(2) same cell_ok_upd [OF cell_ok_wf [OF assms] p(1)] by blast
qed

interpretation cells: byte_memory cell_ok ram_byte "cell_read Byte" "cell_write Byte"
  by unfold_locales (rule cell_read_byte_law, assumption, rule cell_write_byte_law, assumption)

text \<open>Words at aligned addresses of an aligned bank.\<close>

definition cell_word_ok :: "'x mstate \<Rightarrow> ARMword \<Rightarrow> bool" where
  "cell_word_ok s a \<longleftrightarrow> cell_ok s a \<and> a AND 3 = 0"

lemma cell_write_word_law:
  assumes "cell_word_ok s a"
  shows "\<exists>t. cell_write Word s a d = Some t \<and> cells_only s t \<and> cell_word_ok t = cell_word_ok s
     \<and> (\<forall>b. b AND 3 = 0 \<longrightarrow> ram_word t b = (if b = a then d else ram_word s b))"
proof -
  have ok: "cell_ok s a" using assms by (simp add: cell_word_ok_def)
  let ?i = "ram_index (mach s) a"
  let ?r = "(rom (mach s))(?i := (rom (mach s) ?i)(rom_index (mach s) ?i a := d))"
  obtain p where p: "mem_wf ((mach s)\<lparr>mbp := p\<rparr>)"
    "cell_write Word s a d = Some (s\<lparr>mach := (mach s)\<lparr>mbp := p, global_mbp := Some ?i, rom := ?r\<rparr>\<rparr>)"
    using cell_write_ok [OF ok, of Word d] by (auto simp: lane_upd_def)
  have "ram_index (mach s) b = ?i \<and> rom_index (mach s) ?i b = rom_index (mach s) ?i a \<longleftrightarrow> b = a" if "b AND 3 = 0" for b
    using rom_cell_inj [of b "mb_addr (mem_banks (mach s) ! ?i)" a] that assms
    by (auto simp: rom_index_def cell_word_ok_def simp flip: word_unat_eq_iff)
  then have "ram_word (s\<lparr>mach := (mach s)\<lparr>mbp := p, global_mbp := Some ?i, rom := ?r\<rparr>\<rparr>) b = (if b = a then d else ram_word s b)"
    if "b AND 3 = 0" for b unfolding ram_word_upd using that by (auto simp: ram_word_def rom_get_def)
  then show ?thesis using p(2) cell_write_frame [OF p(2)] cell_ok_upd [OF cell_ok_wf [OF ok] p(1)]
    by (auto simp: cell_word_ok_def fun_eq_iff)
qed

text \<open>The erase loop sets the words of its range and nothing else, when the last address does not wrap.\<close>

lemma erase_loop_frame: "erase_loop s a e = Some t \<Longrightarrow> cells_only s t"
proof (rule erase_loop.raw_induct [where P = "\<lambda>s a e t. cells_only s t"])
  fix rec :: "'x mstate \<Rightarrow> ARMword \<Rightarrow> ARMword \<Rightarrow> 'x mstate option" and s a e t
  assume h: "\<And>s a e t. rec s a e = Some t \<Longrightarrow> cells_only s t"
    and r: "(if a < e then Option.bind (cell_write Word s a 0xffffffff) (\<lambda>s. rec s (a + 4) e) else Some s) = Some t"
  show "cells_only s t"
    using r h cell_write_frame cells_only_trans by (fastforce simp: bind_eq_Some_conv split: if_splits)
qed

lemma erase_loop_words:
  assumes "unat a + 4 * n < 2 ^ 32" "\<And>k. k < n \<Longrightarrow> cell_word_ok s (a + of_nat (4 * k))"
  shows "\<exists>t. erase_loop s a (a + of_nat (4 * n)) = Some t \<and> cells_only s t
     \<and> (\<forall>b. b AND 3 = 0 \<longrightarrow> ram_word t b = (if \<exists>k<n. b = a + of_nat (4 * k) then 0xffffffff else ram_word s b))"
  using assms
proof (induction n arbitrary: s a)
  case 0
  then show ?case by (subst erase_loop.simps) simp
next
  case (Suc n)
  have lt: "a < a + of_nat (4 * Suc n)"
    using Suc.prems(1) by (simp add: word_less_nat_alt unat_word_ariths unat_of_nat)
  have a4: "unat (a + 4) = unat a + 4" using Suc.prems(1) by (simp add: unat_word_ariths)
  obtain t where t: "cell_write Word s a 0xffffffff = Some t" "cells_only s t" "cell_word_ok t = cell_word_ok s"
    "\<And>b. b AND 3 = 0 \<Longrightarrow> ram_word t b = (if b = a then 0xffffffff else ram_word s b)"
    using cell_write_word_law [of s a "0xffffffff"] Suc.prems(2) [of 0] by auto
  have "cell_word_ok t (a + 4 + of_nat (4 * k))" if "k < n" for k
    using Suc.prems(2) [of "Suc k"] that t(3) by (simp add: algebra_simps)
  then obtain u where u: "erase_loop t (a + 4) (a + 4 + of_nat (4 * n)) = Some u" "cells_only t u"
    "\<And>b. b AND 3 = 0 \<Longrightarrow> ram_word u b = (if \<exists>k<n. b = a + 4 + of_nat (4 * k) then 0xffffffff else ram_word t b)"
    using Suc.IH [of "a + 4" t] Suc.prems(1) a4 by auto
  have e: "a + 4 + of_nat (4 * n) = a + of_nat (4 * Suc n)" by simp
  have split: "(\<exists>k<Suc n. b = a + of_nat (4 * k)) \<longleftrightarrow> b = a \<or> (\<exists>k<n. b = a + 4 + of_nat (4 * k))" for b
    by (auto simp: less_Suc_eq_0_disj algebra_simps)
  have "erase_loop s a (a + of_nat (4 * Suc n)) = Some u"
    using lt t(1) u(1) unfolding e by (subst erase_loop.simps) simp
  then show ?case using u(3) t(4) cells_only_trans [OF t(2) u(2)] unfolding split by auto
qed

section \<open>Sequences of accesses\<close>

text \<open>A sequence of accesses of one size.\<close>

datatype flash_op = FRead ARMword ARMword | FWrite ARMword ARMword

fun flash_run ::
    "(ARMword \<Rightarrow> ARMword \<Rightarrow> 'io \<times> 's \<Rightarrow> (ARMword \<times> 'io \<times> 's) option) \<Rightarrow>
     (ARMword \<Rightarrow> ARMword \<Rightarrow> 'io \<times> 's \<Rightarrow> (bool \<times> 'io \<times> 's) option) \<Rightarrow> flash_op list \<Rightarrow> 'io \<times> 's \<Rightarrow> ('io \<times> 's) option" where
  "flash_run rd wr [] st = Some st"
| "flash_run rd wr (FRead a d # ops) st = Option.bind (rd a d st) (\<lambda>(_, st). flash_run rd wr ops st)"
| "flash_run rd wr (FWrite a d # ops) st = Option.bind (wr a d st) (\<lambda>(_, st). flash_run rd wr ops st)"

lemma flash_run_append: "flash_run rd wr (xs @ ys) st = Option.bind (flash_run rd wr xs st) (flash_run rd wr ys)"
proof (induction xs arbitrary: st)
  case (Cons x xs)
  then show ?case by (cases x) (auto split: Option.bind_split)
qed simp

section \<open>An example memory\<close>

definition fx_banks :: "mem_bank_t list" where
  "fx_banks =
     [\<lparr>mb_addr = 0, mb_len = 0x200000, mb_read = flash_read, mb_write = flash_write, mb_filename = [], mb_type = MEMTYPE_FLASH\<rparr>,
      \<lparr>mb_addr = 0, mb_len = 0, mb_read = null_read, mb_write = null_write, mb_filename = [], mb_type = MEMTYPE_IO\<rparr>]"

definition fx_ms :: "unit mstate" where
  "fx_ms = ARMul_NewState \<lparr>current_num = 1, mem_banks = fx_banks, mbp = None, global_mbp = None, rom = (\<lambda>_ _. 0), rom_size = (\<lambda>_. 0), iosys = ()\<rparr>"

lemma fx_cell: "a < 0x200000 \<Longrightarrow> cell_ok fx_ms a"
proof -
  assume a: "a < 0x200000"
  have lv: "live_banks (mach fx_ms) = [hd fx_banks]" by (simp add: live_banks_def fx_ms_def ARMul_NewState_def fx_banks_def)
  have "mem_wf (mach fx_ms)"
    by (rule mem_wf_bounds) (simp_all add: lv, simp_all add: fx_ms_def ARMul_NewState_def fx_banks_def)
  moreover have "cell_bank (mach fx_ms) a 0" using a unfolding cell_bank_def lv by (simp add: fx_ms_def ARMul_NewState_def fx_banks_def bank_hit_def)
  moreover have "bigendSig fx_ms \<le> 1" by (simp add: fx_ms_def ARMul_NewState_def)
  ultimately show ?thesis by (auto simp: cell_ok_def)
qed

lemma fx_cells: "k < 0x80000 \<Longrightarrow> cell_word_ok fx_ms (of_nat (4 * k))"
proof -
  assume k: "k < 0x80000"
  then have u: "unat (of_nat (4 * k) :: ARMword) = 4 * k" unfolding unat_of_nat by simp
  have "(of_nat (4 * k) :: ARMword) < 0x200000" using k unfolding word_less_nat_alt u by simp
  moreover have "unat (of_nat (4 * k) AND 3 :: ARMword) = 0" unfolding unat_and_3_mod u by simp
  ultimately show ?thesis using fx_cell by (simp add: cell_word_ok_def unat_eq_0)
qed

end
