(* ===== verification/Dev_Flash.thy ===== *)
theory Dev_Flash
  imports Dev_Cells "HOL-Library.Sublist"
begin

text \<open>
  The flash chips with the command set of AMD: the Am29LV160 and Am29LV800
  (\<^verbatim>\<open>device/flash/dev_flash_am29.c\<close>) and the SST39LF160 and SST39VF160
  (\<^verbatim>\<open>device/flash/dev_flash_sst39lvf160.c\<close>), and the dump of a
  chip into a file (\<^verbatim>\<open>device/flash/skyeye_flash.c\<close>).  The lemmas show that a
  chip changes its cells only after its unlock sequence (locale \<open>command_chip\<close>, interpreted on the three
  handlers that take commands), and that the sequences program and erase what they should.
\<close>

section \<open>The Am29 chips\<close>

text \<open>The pointers to the functions that give the identification are tags.\<close>

datatype am29_chip = Am29LV160 | Am29LV800

record flash_am29_io =
  am_type :: string
  bcnt :: nat
  n_bbus :: nat
  bbus :: "flash_bus list"
  wcnt :: nat
  n_wbus :: nat
  wbus :: "flash_bus list"
  am_query :: "16 word list option"
  max_query :: nat
  bautoselect :: "am29_chip option"
  wautoselect :: "am29_chip option"
  chip_size :: ARMword
  sector_size :: ARMword
  dump_cnt :: int
  dump_flags :: ARMword

definition CMD_BCHECK :: "flash_am29_io \<Rightarrow> nat \<Rightarrow> ARMword \<Rightarrow> ARMword \<Rightarrow> bool" where
  "CMD_BCHECK io n a v \<longleftrightarrow> fb_addr (bbus io ! n) = a \<and> fb_data (bbus io ! n) = v"

definition CMD_WCHECK :: "flash_am29_io \<Rightarrow> nat \<Rightarrow> ARMword \<Rightarrow> ARMword \<Rightarrow> bool" where
  "CMD_WCHECK io n a v \<longleftrightarrow> fb_addr (wbus io ! n) = a \<and> fb_data (wbus io ! n) = v"

definition CMD_BYTE_PROGRAM :: "flash_am29_io \<Rightarrow> bool" where
  "CMD_BYTE_PROGRAM io \<longleftrightarrow> bcnt io = 3 \<and> CMD_BCHECK io 0 0xaaa 0xaa \<and> CMD_BCHECK io 1 0x555 0x55 \<and> CMD_BCHECK io 2 0xaaa 0xa0"

definition CMD_WORD_PROGRAM :: "flash_am29_io \<Rightarrow> bool" where
  "CMD_WORD_PROGRAM io \<longleftrightarrow> wcnt io = 3 \<and> CMD_WCHECK io 0 0x555 0xaa \<and> CMD_WCHECK io 1 0x2aa 0x55 \<and> CMD_WCHECK io 2 0x555 0xa0"

definition CMD_BYTE_ERASE :: "flash_am29_io \<Rightarrow> bool" where
  "CMD_BYTE_ERASE io \<longleftrightarrow> bcnt io = 5 \<and> CMD_BCHECK io 0 0xaaa 0xaa \<and> CMD_BCHECK io 1 0x555 0x55 \<and> CMD_BCHECK io 2 0xaaa 0x80
     \<and> CMD_BCHECK io 3 0xaaa 0xaa \<and> CMD_BCHECK io 4 0x555 0x55"

definition CMD_WORD_ERASE :: "flash_am29_io \<Rightarrow> bool" where
  "CMD_WORD_ERASE io \<longleftrightarrow> wcnt io = 5 \<and> CMD_WCHECK io 0 0x555 0xaa \<and> CMD_WCHECK io 1 0x2aa 0x55 \<and> CMD_WCHECK io 2 0x555 0x80
     \<and> CMD_WCHECK io 3 0x555 0xaa \<and> CMD_WCHECK io 4 0x2aa 0x55"

definition CMD_BYTE_AUTOSELCT :: "flash_am29_io \<Rightarrow> bool" where
  "CMD_BYTE_AUTOSELCT io \<longleftrightarrow> bcnt io = 3 \<and> CMD_BCHECK io 0 0xaaa 0xaa \<and> CMD_BCHECK io 1 0x555 0x55 \<and> CMD_BCHECK io 2 0xaaa 0x90"

definition CMD_WORD_AUTOSELCT :: "flash_am29_io \<Rightarrow> bool" where
  "CMD_WORD_AUTOSELCT io \<longleftrightarrow> wcnt io = 3 \<and> CMD_WCHECK io 0 0x555 0xaa \<and> CMD_WCHECK io 1 0x2aa 0x55 \<and> CMD_WCHECK io 2 0x555 0x90"

definition CMD_BYTE_QUERY :: "flash_am29_io \<Rightarrow> bool" where
  "CMD_BYTE_QUERY io \<longleftrightarrow> bcnt io = 1 \<and> CMD_BCHECK io 0 0xaa 0x98"

definition CMD_WORD_QUERY :: "flash_am29_io \<Rightarrow> bool" where
  "CMD_WORD_QUERY io \<longleftrightarrow> wcnt io = 1 \<and> CMD_WCHECK io 0 0x55 0x98"

definition CMD_BYTE_UNLOCK_BYPASS :: "flash_am29_io \<Rightarrow> bool" where
  "CMD_BYTE_UNLOCK_BYPASS io \<longleftrightarrow> bcnt io = 3 \<and> CMD_BCHECK io 0 0xaaa 0xaa \<and> CMD_BCHECK io 1 0x555 0x55 \<and> CMD_BCHECK io 2 0xaaa 0x20"

definition CMD_WORD_UNLOCK_BYPASS :: "flash_am29_io \<Rightarrow> bool" where
  "CMD_WORD_UNLOCK_BYPASS io \<longleftrightarrow> wcnt io = 3 \<and> CMD_WCHECK io 0 0x555 0xaa \<and> CMD_WCHECK io 1 0x2aa 0x55 \<and> CMD_WCHECK io 2 0x555 0x20"

text \<open>The macros have no parentheses around the disjunction, so the count guards its first half only.\<close>

definition CMD_BYTE_UNLOCK_BYPASS_PROGRAM_RESET :: "flash_am29_io \<Rightarrow> bool" where
  "CMD_BYTE_UNLOCK_BYPASS_PROGRAM_RESET io \<longleftrightarrow> bcnt io = 2 \<and> fb_data (bbus io ! 0) = 0xa0 \<or> fb_data (bbus io ! 0) = 0x90"

definition CMD_WORD_UNLOCK_BYPASS_PROGRAM_RESET :: "flash_am29_io \<Rightarrow> bool" where
  "CMD_WORD_UNLOCK_BYPASS_PROGRAM_RESET io \<longleftrightarrow> wcnt io = 2 \<and> fb_data (wbus io ! 0) = 0xa0 \<or> fb_data (wbus io ! 0) = 0x90"

text \<open>The label \<open>reset\<close> of the two writing functions, and the reset of the device.\<close>

definition am29_breset :: "flash_am29_io \<Rightarrow> flash_am29_io" where
  "am29_breset io = io\<lparr>bcnt := 0, n_bbus := 0, bbus := replicate 6 no_bus\<rparr>"

definition am29_wreset :: "flash_am29_io \<Rightarrow> flash_am29_io" where
  "am29_wreset io = io\<lparr>wcnt := 0, n_wbus := 0, wbus := replicate 6 no_bus\<rparr>"

definition flash_am29_reset :: "flash_am29_io \<Rightarrow> flash_am29_io" where
  "flash_am29_reset io = (am29_wreset (am29_breset io))\<lparr>dump_cnt := 0xffff, dump_flags := 0\<rparr>"

definition is_top :: "string \<Rightarrow> string \<Rightarrow> bool" where
  "is_top name t \<longleftrightarrow> take 10 t = name"

definition flash_am29_bauto :: "am29_chip \<Rightarrow> flash_am29_io \<Rightarrow> ARMword \<Rightarrow> ARMword" where
  "flash_am29_bauto c io offset =
     (let k = offset AND 0xff in
      if k = 0 then 0x1
      else if k = 2 then (case c of Am29LV160 \<Rightarrow> if is_top ''Am29LV160T'' (am_type io) then 0xc4 else 0x49
                          | Am29LV800 \<Rightarrow> if is_top ''Am29LV800T'' (am_type io) then 0xda else 0x5b)
      else 0)"

definition flash_am29_wauto :: "am29_chip \<Rightarrow> flash_am29_io \<Rightarrow> ARMword \<Rightarrow> ARMword" where
  "flash_am29_wauto c io offset =
     (let k = offset AND 0xff in
      if k = 0 then 0x1
      else if k = 1 then (case c of Am29LV160 \<Rightarrow> if is_top ''Am29LV160T'' (am_type io) then 0x22c4 else 0x2249
                          | Am29LV800 \<Rightarrow> if is_top ''Am29LV800T'' (am_type io) then 0x22da else 0x225b)
      else 0)"

text \<open>
  The handlers work on the chip and the memory; \<open>base\<close> is the base of the device.  A read gets
  what its variable \<open>data\<close> held before, which it returns when the chip is in the middle of a command it
  does not answer.  A write says whether the device was hit.
\<close>

definition flash_am29_read_byte :: "ARMword \<Rightarrow> ARMword \<Rightarrow> ARMword \<Rightarrow> flash_am29_io \<times> 'x mstate \<Rightarrow> (ARMword \<times> flash_am29_io \<times> 'x mstate) option" where
  "flash_am29_read_byte base addr data = (\<lambda>(io, s).
     let offset = addr - base;
         data = (case bautoselect io of
                   Some c \<Rightarrow>
                     if bcnt io > 0 then
                       (let data = (case am_query io of
                                      Some q \<Rightarrow> if CMD_BYTE_QUERY io
                                                then (if unat (drop_bit 1 offset) < max_query io then ucast (q ! unat (drop_bit 1 offset)) AND 0xff else 0)
                                                else data
                                    | None \<Rightarrow> data)
                        in if CMD_BYTE_AUTOSELCT io then flash_am29_bauto c io offset else data)
                     else data
                 | None \<Rightarrow> data);
         io' = io\<lparr>n_bbus := 0\<rparr>
     in if bcnt io = 0 then map_option (\<lambda>(d, s). (d, io', s)) (cell_read Byte s addr) else Some (data, io', s))"

definition flash_am29_read_halfword :: "ARMword \<Rightarrow> ARMword \<Rightarrow> ARMword \<Rightarrow> flash_am29_io \<times> 'x mstate \<Rightarrow> (ARMword \<times> flash_am29_io \<times> 'x mstate) option" where
  "flash_am29_read_halfword base addr data = (\<lambda>(io, s).
     let offset = drop_bit 1 (addr - base);
         data = (case wautoselect io of
                   Some c \<Rightarrow>
                     if wcnt io > 0 then
                       (let data = (case am_query io of
                                      Some q \<Rightarrow> if CMD_WORD_QUERY io
                                                then (if unat offset < max_query io then ucast (q ! unat offset) else 0)
                                                else data
                                    | None \<Rightarrow> data)
                        in if CMD_WORD_AUTOSELCT io then flash_am29_wauto c io offset else data)
                     else data
                 | None \<Rightarrow> data);
         io' = io\<lparr>n_wbus := 0\<rparr>
     in if wcnt io = 0 then map_option (\<lambda>(d, s). (d, io', s)) (cell_read Halfword s addr) else Some (data, io', s))"

definition flash_am29_read_word :: "ARMword \<Rightarrow> ARMword \<Rightarrow> ARMword \<Rightarrow> flash_am29_io \<times> 'x mstate \<Rightarrow> (ARMword \<times> flash_am29_io \<times> 'x mstate) option" where
  "flash_am29_read_word base addr data = (\<lambda>(io, s). map_option (\<lambda>(d, s). (d, io, s)) (cell_read Word s addr))"

text \<open>The range of an erase command: chip, sector, or none.\<close>

definition am29_range :: "ARMword \<Rightarrow> ARMword \<Rightarrow> ARMword \<Rightarrow> flash_am29_io \<Rightarrow> ARMword \<times> ARMword" where
  "am29_range base addr data io =
     (if data = 0x10 then (base, base + chip_size io)
      else if data = 0x30 then (addr, addr + sector_size io)
      else (0, 0))"

definition am29_erase :: "ARMword \<Rightarrow> ARMword \<Rightarrow> ARMword \<Rightarrow> flash_am29_io \<Rightarrow> 'x mstate \<Rightarrow> 'x mstate option" where
  "am29_erase base addr data io s =
     (case am29_range base addr data io of
        (start, end_addr) \<Rightarrow> if end_addr > start \<and> end_addr \<le> base + chip_size io then erase_loop s start end_addr else Some s)"

definition flash_am29_write_byte :: "ARMword \<Rightarrow> ARMword \<Rightarrow> ARMword \<Rightarrow> flash_am29_io \<times> 'x mstate \<Rightarrow> (bool \<times> flash_am29_io \<times> 'x mstate) option" where
  "flash_am29_write_byte base addr data = (\<lambda>(io, s).
     if bautoselect io = None then Some (False, io, s)
     else if n_bbus io = 0 \<and> (data = 0xb0 \<or> data = 0x30) then Some (False, io, s)
     else if CMD_BYTE_PROGRAM io
     then map_option (\<lambda>s. (True, am29_breset (io\<lparr>dump_flags := dump_flags io OR 1\<rparr>), s)) (cell_write Byte s addr data)
     else if CMD_BYTE_ERASE io
     then map_option (\<lambda>s. (True, am29_breset io, s)) (am29_erase base addr data io s)
     else
       let latch = n_bbus io < 6;
           io = (if latch
                 then io\<lparr>bbus := (bbus io)[n_bbus io := \<lparr>fb_addr = addr - base, fb_data = data\<rparr>],
                         n_bbus := n_bbus io + 1, bcnt := n_bbus io + 1\<rparr>
                 else io)
       in if latch \<and> data = 0xf0 \<or> CMD_BYTE_UNLOCK_BYPASS io \<or> CMD_BYTE_UNLOCK_BYPASS_PROGRAM_RESET io
          then Some (True, am29_breset io, s)
          else Some (True, io, s))"

definition flash_am29_write_halfword :: "ARMword \<Rightarrow> ARMword \<Rightarrow> ARMword \<Rightarrow> flash_am29_io \<times> 'x mstate \<Rightarrow> (bool \<times> flash_am29_io \<times> 'x mstate) option" where
  "flash_am29_write_halfword base addr data = (\<lambda>(io, s).
     if wautoselect io = None then Some (False, io, s)
     else if n_wbus io = 0 \<and> (data = 0xb0 \<or> data = 0x30) then Some (False, io, s)
     else if CMD_WORD_PROGRAM io
     then map_option (\<lambda>s. (True, am29_wreset (io\<lparr>dump_flags := dump_flags io OR 1\<rparr>), s)) (cell_write Halfword s addr data)
     else if CMD_WORD_ERASE io
     then map_option (\<lambda>s. (True, am29_wreset io, s)) (am29_erase base addr data io s)
     else
       let latch = n_wbus io < 6;
           io = (if latch
                 then io\<lparr>wbus := (wbus io)[n_wbus io := \<lparr>fb_addr = drop_bit 1 (addr - base), fb_data = data\<rparr>],
                         n_wbus := n_wbus io + 1, wcnt := n_wbus io + 1\<rparr>
                 else io)
       in if latch \<and> data = 0xf0 \<or> CMD_WORD_UNLOCK_BYPASS io \<or> CMD_WORD_UNLOCK_BYPASS_PROGRAM_RESET io
          then Some (True, am29_wreset io, s)
          else Some (True, io, s))"

definition flash_am29_write_word :: "ARMword \<Rightarrow> ARMword \<Rightarrow> ARMword \<Rightarrow> flash_am29_io \<times> 'x mstate \<Rightarrow> (bool \<times> flash_am29_io \<times> 'x mstate) option" where
  "flash_am29_write_word base addr data = (\<lambda>st. Some (False, st))"

text \<open>The query table of the Am29LV160; the other chip has none.\<close>

definition am29lv160_query :: "16 word list" where
  "am29lv160_query =
     [0x0, 0x0, 0x0, 0x0, 0x0, 0x0, 0x0, 0x0, 0x0, 0x0, 0x0, 0x0, 0x0, 0x0, 0x0, 0x0,
      0x51, 0x52, 0x59, 0x2, 0x0, 0x40, 0x0, 0x0, 0x0, 0x0, 0x0, 0x27, 0x36, 0x0, 0x0, 0x4,
      0x0, 0xa, 0x0, 0x5, 0x0, 0x4, 0x0, 0x15, 0x2, 0x0, 0x0, 0x0, 0x4, 0x0, 0x0, 0x40,
      0x0, 0x1, 0x0, 0x20, 0x0, 0x0, 0x0, 0x80, 0x0, 0x1e, 0x0, 0x0, 0x1, 0x0, 0x0, 0x0,
      0x50, 0x52, 0x49, 0x31, 0x30, 0x0, 0x2, 0x1, 0x1, 0x4, 0x0, 0x0, 0x0]"

text \<open>
  The setup fails when the table is too short, when the chip has no access function or when the size
  of the device is not that of the chip; memory allocation is taken to succeed.
\<close>

definition flash_am29_setup ::
    "ARMword \<Rightarrow> 16 word list option \<Rightarrow> nat \<Rightarrow> am29_chip option \<Rightarrow> am29_chip option \<Rightarrow> ARMword \<Rightarrow> ARMword \<Rightarrow> flash_am29_io option" where
  "flash_am29_setup dev_size query maxq bauto wauto chip sector =
     (if query \<noteq> None \<and> maxq < 0x35 \<or> bauto = None \<and> wauto = None then None
      else
        let chip = (case query of Some q \<Rightarrow> if chip = 0 then push_bit (unat (q ! 0x27)) 1 else chip | None \<Rightarrow> chip);
            sector = (case query of
                        Some q \<Rightarrow> if sector = 0 then chip div max (push_bit 8 (ucast (q ! 0x34)) OR ucast (q ! 0x33)) 1 else sector
                      | None \<Rightarrow> sector)
        in if dev_size \<noteq> chip then None
           else Some (flash_am29_reset
             \<lparr>am_type = [], bcnt = 0, n_bbus = 0, bbus = [], wcnt = 0, n_wbus = 0, wbus = [], am_query = query, max_query = maxq,
              bautoselect = bauto, wautoselect = wauto, chip_size = chip, sector_size = sector, dump_cnt = 0, dump_flags = 0\<rparr>))"

definition ends_with :: "string \<Rightarrow> string \<Rightarrow> bool" where
  "ends_with t suf \<longleftrightarrow> drop (length t - length suf) t = suf"

definition flash_am29lv160_setup :: "string \<Rightarrow> ARMword \<Rightarrow> flash_am29_io option" where
  "flash_am29lv160_setup t dev_size =
     map_option (\<lambda>io. io\<lparr>am_type := t\<rparr>)
       (if length t \<ge> 12
        then (if ends_with t ''-8'' then flash_am29_setup dev_size (Some am29lv160_query) 0x4d (Some Am29LV160) None 0 0
              else if ends_with t ''-16'' then flash_am29_setup dev_size (Some am29lv160_query) 0x4d None (Some Am29LV160) 0 0
              else None)
        else None)"

definition flash_am29lv800_setup :: "string \<Rightarrow> ARMword \<Rightarrow> flash_am29_io option" where
  "flash_am29lv800_setup t dev_size =
     map_option (\<lambda>io. io\<lparr>am_type := t\<rparr>)
       (if length t \<ge> 12
        then (if ends_with t ''-8'' then flash_am29_setup dev_size None 0 (Some Am29LV800) None 0x100000 0x10000
              else if ends_with t ''-16'' then flash_am29_setup dev_size None 0 None (Some Am29LV800) 0x100000 0x10000
              else None)
        else None)"

section \<open>The dump of a chip\<close>

text \<open>
  \<^verbatim>\<open>skyeye_flash.c\<close>: the words of the chip, in the byte order of the target, are written to a file.  The
  result is whether the dump succeeded and the words written; whether the file can be opened is a parameter.
\<close>

definition swap_bytes :: "ARMword \<Rightarrow> ARMword" where
  "swap_bytes w = push_bit 24 (w AND 0xff) OR push_bit 16 (drop_bit 8 w AND 0xff) OR push_bit 8 (drop_bit 16 w AND 0xff)
     OR (drop_bit 24 w AND 0xff)"

definition skyeye_flash_arm_read_word :: "'x mstate \<Rightarrow> ARMword \<Rightarrow> (ARMword option \<times> 'x mstate) option" where
  "skyeye_flash_arm_read_word s addr =
     map_option (\<lambda>s. (map_option (\<lambda>d. if bigendSig s = HIGH then swap_bytes d else d) (real_read_word s addr), s)) (set_mbp s addr)"

partial_function (option) dump_loop :: "'x mstate \<Rightarrow> ARMword \<Rightarrow> ARMword \<Rightarrow> (bool \<times> ARMword list \<times> 'x mstate) option" where
  "dump_loop s addr end_addr =
     (if addr < end_addr
      then Option.bind (skyeye_flash_arm_read_word s addr) (\<lambda>(r, s).
        case r of None \<Rightarrow> Some (False, [], s)
        | Some d \<Rightarrow> Option.bind (dump_loop s (addr + 4) end_addr) (\<lambda>(ok, ds, s). Some (ok, d # ds, s)))
      else Some (True, [], s))"

definition skyeye_flash_dump :: "(string \<Rightarrow> bool) \<Rightarrow> string \<Rightarrow> ARMword \<Rightarrow> ARMword \<Rightarrow> 'x mstate \<Rightarrow> (bool \<times> ARMword list \<times> 'x mstate) option" where
  "skyeye_flash_dump opens filename base len s =
     (if filename = [] \<or> \<not> opens filename then Some (False, [], s) else dump_loop s base (base + len))"

text \<open>
  The update, called on every cycle of the machine: the dump follows the first programming by \<open>dump_cnt\<close>
  updates.  The first component of the result is the dump, if one was made.
\<close>

definition flash_am29_update :: "(string \<Rightarrow> bool) \<Rightarrow> string \<Rightarrow> ARMword \<Rightarrow> flash_am29_io \<times> 'x mstate \<Rightarrow> ((bool \<times> ARMword list) option \<times> flash_am29_io \<times> 'x mstate) option" where
  "flash_am29_update opens dump base = (\<lambda>(io, s).
     if dump = [] \<or> dump_flags io = 0 \<or> dump_flags io AND 2 \<noteq> 0 then Some (None, io, s)
     else
       let io = io\<lparr>dump_cnt := dump_cnt io - 1\<rparr> in
       if dump_cnt io = 0
       then map_option (\<lambda>(ok, ds, s). (Some (ok, ds),
              if ok then io\<lparr>dump_cnt := 0xffff, dump_flags := 0\<rparr> else io\<lparr>dump_flags := dump_flags io OR 2\<rparr>, s))
              (skyeye_flash_dump opens dump base (chip_size io) s)
       else Some (None, io, s))"

section \<open>The SST39 chips\<close>

record flash_sst39lvf160_io =
  sst_cnt :: nat
  sst_n_bus :: nat
  sst_bus :: "flash_bus list"
  sst_dump_cnt :: int
  sst_dump_flags :: ARMword

definition SST_CHECK :: "flash_sst39lvf160_io \<Rightarrow> nat \<Rightarrow> ARMword \<Rightarrow> ARMword \<Rightarrow> bool" where
  "SST_CHECK io n a v \<longleftrightarrow> fb_addr (sst_bus io ! n) = a \<and> fb_data (sst_bus io ! n) = v"

definition SST_WORD_PROGRAM :: "flash_sst39lvf160_io \<Rightarrow> bool" where
  "SST_WORD_PROGRAM io \<longleftrightarrow> sst_cnt io = 3 \<and> SST_CHECK io 0 0x5555 0xaa \<and> SST_CHECK io 1 0x2aaa 0x55 \<and> SST_CHECK io 2 0x5555 0xa0"

definition SST_ERASE :: "flash_sst39lvf160_io \<Rightarrow> bool" where
  "SST_ERASE io \<longleftrightarrow> sst_cnt io = 5 \<and> SST_CHECK io 0 0x5555 0xaa \<and> SST_CHECK io 1 0x2aaa 0x55 \<and> SST_CHECK io 2 0x5555 0x80
     \<and> SST_CHECK io 3 0x5555 0xaa \<and> SST_CHECK io 4 0x2aaa 0x55"

definition SST_SOFTWARE_ID_ENTRY :: "flash_sst39lvf160_io \<Rightarrow> bool" where
  "SST_SOFTWARE_ID_ENTRY io \<longleftrightarrow> sst_cnt io = 3 \<and> SST_CHECK io 0 0x5555 0xaa \<and> SST_CHECK io 1 0x2aaa 0x55 \<and> SST_CHECK io 2 0x5555 0x90"

definition SST_CFI_QUERY_ENTRY :: "flash_sst39lvf160_io \<Rightarrow> bool" where
  "SST_CFI_QUERY_ENTRY io \<longleftrightarrow> sst_cnt io = 3 \<and> SST_CHECK io 0 0x5555 0xaa \<and> SST_CHECK io 1 0x2aaa 0x55 \<and> SST_CHECK io 2 0x5555 0x98"

definition SST_QUERY_EXIT :: "flash_sst39lvf160_io \<Rightarrow> bool" where
  "SST_QUERY_EXIT io \<longleftrightarrow> sst_cnt io = 1 \<and> fb_data (sst_bus io ! 0) = 0xf0
     \<or> sst_cnt io = 3 \<and> SST_CHECK io 0 0x5555 0xaa \<and> SST_CHECK io 1 0x2aaa 0x55 \<and> SST_CHECK io 2 0x5555 0xf0"

definition flash_sst39lvf160_reset :: "flash_sst39lvf160_io" where
  "flash_sst39lvf160_reset =
     \<lparr>sst_cnt = 0, sst_n_bus = 0, sst_bus = replicate 6 no_bus, sst_dump_cnt = 0xffff, sst_dump_flags = 0\<rparr>"

definition sst_reset :: "flash_sst39lvf160_io \<Rightarrow> flash_sst39lvf160_io" where
  "sst_reset io = io\<lparr>sst_cnt := 0, sst_n_bus := 0, sst_bus := replicate 6 no_bus\<rparr>"

text \<open>The query table from offset 0x10 on; \<open>lf\<close> says whether the chip is an SST39LF160.\<close>

definition sst_cfi :: "bool \<Rightarrow> ARMword list" where
  "sst_cfi lf =
     [0x51, 0x52, 0x59, 0x1, 0x7, 0x0, 0x0, 0x0, 0x0, 0x0, 0x0,
      if lf then 0x30 else 0x27, 0x36, 0x0, 0x0, 0x4, 0x0, 0x4, 0x6, 0x1, 0x0, 0x1, 0x1,
      0x15, 0x1, 0x0, 0x0, 0x0, 0x2, 0xff, 0x1, 0x10, 0x0, 0x1f, 0x0, 0x0, 0x1]"

definition flash_sst39lvf160_update :: "(string \<Rightarrow> bool) \<Rightarrow> string \<Rightarrow> ARMword \<Rightarrow> flash_sst39lvf160_io \<times> 'x mstate \<Rightarrow> ((bool \<times> ARMword list) option \<times> flash_sst39lvf160_io \<times> 'x mstate) option" where
  "flash_sst39lvf160_update opens dump base = (\<lambda>(io, s).
     if dump = [] \<or> sst_dump_flags io = 0 \<or> sst_dump_flags io AND 2 \<noteq> 0 then Some (None, io, s)
     else
       let io = io\<lparr>sst_dump_cnt := sst_dump_cnt io - 1\<rparr> in
       if sst_dump_cnt io = 0
       then map_option (\<lambda>(ok, ds, s). (Some (ok, ds),
              if ok then io\<lparr>sst_dump_cnt := 0xffff, sst_dump_flags := 0\<rparr> else io\<lparr>sst_dump_flags := sst_dump_flags io OR 2\<rparr>, s))
              (skyeye_flash_dump opens dump base 0x200000 s)
       else Some (None, io, s))"

definition flash_sst39lvf160_read_byte :: "ARMword \<Rightarrow> ARMword \<Rightarrow> ARMword \<Rightarrow> flash_sst39lvf160_io \<times> 'x mstate \<Rightarrow> (ARMword \<times> flash_sst39lvf160_io \<times> 'x mstate) option" where
  "flash_sst39lvf160_read_byte base addr data = (\<lambda>(io, s). map_option (\<lambda>(d, s). (d, io, s)) (cell_read Byte s addr))"

definition flash_sst39lvf160_read_word :: "ARMword \<Rightarrow> ARMword \<Rightarrow> ARMword \<Rightarrow> flash_sst39lvf160_io \<times> 'x mstate \<Rightarrow> (ARMword \<times> flash_sst39lvf160_io \<times> 'x mstate) option" where
  "flash_sst39lvf160_read_word base addr data = (\<lambda>(io, s). map_option (\<lambda>(d, s). (d, io, s)) (cell_read Word s addr))"

definition flash_sst39lvf160_read_halfword :: "bool \<Rightarrow> ARMword \<Rightarrow> ARMword \<Rightarrow> ARMword \<Rightarrow> flash_sst39lvf160_io \<times> 'x mstate \<Rightarrow> (ARMword \<times> flash_sst39lvf160_io \<times> 'x mstate) option" where
  "flash_sst39lvf160_read_halfword lf base addr data = (\<lambda>(io, s).
     let offset = drop_bit 1 (addr - base);
         data = (if SST_SOFTWARE_ID_ENTRY io then (if offset = 0 then 0xbf else if offset = 1 then 0x2782 else 0) else data);
         data = (if SST_CFI_QUERY_ENTRY io
                 then (if 0x10 \<le> offset \<and> offset \<le> 0x34 then sst_cfi lf ! unat (offset - 0x10) else 0)
                 else data);
         io' = io\<lparr>sst_n_bus := 0\<rparr>
     in if sst_cnt io = 0 then map_option (\<lambda>(d, s). (d, io', s)) (cell_read Halfword s addr) else Some (data, io', s))"

definition sst_erase :: "ARMword \<Rightarrow> ARMword \<Rightarrow> ARMword \<Rightarrow> 'x mstate \<Rightarrow> 'x mstate option" where
  "sst_erase base addr data s =
     (case (if data = 0x10 then (base, base + 0x200000)
            else if data = 0x30 then (addr, addr + 0x1000)
            else if data = 0x50 then (addr, addr + 0x10000)
            else (0, 0)) of
        (start, end_addr) \<Rightarrow> if end_addr > start \<and> end_addr \<le> base + 0x200000 then erase_loop s start end_addr else Some s)"

definition flash_sst39lvf160_write_halfword :: "ARMword \<Rightarrow> ARMword \<Rightarrow> ARMword \<Rightarrow> flash_sst39lvf160_io \<times> 'x mstate \<Rightarrow> (bool \<times> flash_sst39lvf160_io \<times> 'x mstate) option" where
  "flash_sst39lvf160_write_halfword base addr data = (\<lambda>(io, s).
     if SST_WORD_PROGRAM io
     then map_option (\<lambda>s. (True, sst_reset (io\<lparr>sst_dump_flags := sst_dump_flags io OR 1\<rparr>), s)) (cell_write Halfword s addr data)
     else if SST_ERASE io
     then map_option (\<lambda>s. (True, sst_reset io, s)) (sst_erase base addr data s)
     else if sst_n_bus io < 6
     then
       let io = io\<lparr>sst_bus := (sst_bus io)[sst_n_bus io := \<lparr>fb_addr = drop_bit 1 (addr - base), fb_data = data\<rparr>],
                   sst_n_bus := sst_n_bus io + 1, sst_cnt := sst_n_bus io + 1\<rparr>
       in if SST_QUERY_EXIT io then Some (True, sst_reset io, s) else Some (True, io, s)
     else Some (True, io, s))"

definition flash_sst39lvf160_write_byte :: "ARMword \<Rightarrow> ARMword \<Rightarrow> ARMword \<Rightarrow> flash_sst39lvf160_io \<times> 'x mstate \<Rightarrow> (bool \<times> flash_sst39lvf160_io \<times> 'x mstate) option" where
  "flash_sst39lvf160_write_byte base addr data = (\<lambda>st. Some (False, st))"

definition flash_sst39lvf160_write_word :: "ARMword \<Rightarrow> ARMword \<Rightarrow> ARMword \<Rightarrow> flash_sst39lvf160_io \<times> 'x mstate \<Rightarrow> (bool \<times> flash_sst39lvf160_io \<times> 'x mstate) option" where
  "flash_sst39lvf160_write_word base addr data = (\<lambda>st. Some (False, st))"

definition flash_sst39lvf160_setup :: "ARMword \<Rightarrow> flash_sst39lvf160_io option" where
  "flash_sst39lvf160_setup dev_size = (if dev_size \<noteq> 0x200000 then None else Some flash_sst39lvf160_reset)"

section \<open>Command sequences\<close>

text \<open>The bus cycles of the writes.\<close>

fun op_cycle :: "(ARMword \<Rightarrow> ARMword) \<Rightarrow> flash_op \<Rightarrow> flash_bus list" where
  "op_cycle ofs (FRead a d) = []"
| "op_cycle ofs (FWrite a d) = [\<lparr>fb_addr = ofs a, fb_data = d\<rparr>]"

definition bus_cycles :: "(ARMword \<Rightarrow> ARMword) \<Rightarrow> flash_op list \<Rightarrow> flash_bus list" where
  "bus_cycles ofs ops = concat (map (op_cycle ofs) ops)"

abbreviation (input) cyc :: "ARMword \<Rightarrow> ARMword \<Rightarrow> flash_bus" where
  "cyc a d \<equiv> \<lparr>fb_addr = a, fb_data = d\<rparr>"

text \<open>
  The contract of a chip that is driven by commands: a read changes no cell and forgets the place in the
  sequence, but not the cycles; a write latches the cycle, goes back to reading, or is ignored, and it
  changes cells only when the cycles latched are one of two sequences.
\<close>

definition latched :: "nat \<Rightarrow> flash_bus list \<Rightarrow> flash_bus list \<Rightarrow> bool" where
  "latched n bs sq \<longleftrightarrow> n = length sq \<and> take n bs = sq"

locale command_chip =
  fixes rd :: "ARMword \<Rightarrow> ARMword \<Rightarrow> 'io \<times> 'x mstate \<Rightarrow> (ARMword \<times> 'io \<times> 'x mstate) option"
    and wr :: "ARMword \<Rightarrow> ARMword \<Rightarrow> 'io \<times> 'x mstate \<Rightarrow> (bool \<times> 'io \<times> 'x mstate) option"
    and present :: "'io \<Rightarrow> bool"
    and cnt :: "'io \<Rightarrow> nat"
    and nb :: "'io \<Rightarrow> nat"
    and bs :: "'io \<Rightarrow> flash_bus list"
    and ofs :: "ARMword \<Rightarrow> ARMword"
    and prog :: "flash_bus list"
    and era :: "flash_bus list"
  assumes lengths: "length prog < 6" "length era < 6"
    and rd_law: "rd a d (io, s) = Some (v, io', s') \<Longrightarrow>
       present io' = present io \<and> cnt io' = cnt io \<and> bs io' = bs io \<and> nb io' = 0 \<and> rom (mach s') = rom (mach s)"
    and wr_cells: "present io \<Longrightarrow> wr a d (io, s) = Some (h, io', s') \<Longrightarrow>
       rom (mach s') = rom (mach s) \<or> latched (cnt io) (bs io) prog \<or> latched (cnt io) (bs io) era"
    and wr_state: "present io \<Longrightarrow> wr a d (io, s) = Some (h, io', s') \<Longrightarrow>
       present io' \<and> (cnt io' = 0 \<and> nb io' = 0 \<and> length (bs io') = 6
         \<or> cnt io' = cnt io \<and> nb io' = nb io \<and> bs io' = bs io \<and> (nb io = 0 \<or> 6 \<le> nb io)
         \<or> nb io < 6 \<and> cnt io' = Suc (nb io) \<and> nb io' = Suc (nb io) \<and> bs io' = (bs io)[nb io := cyc (ofs a) d])"
begin

text \<open>The state and the history of the writes.\<close>

definition recorded :: "flash_bus list \<Rightarrow> 'io \<Rightarrow> bool" where
  "recorded h io \<longleftrightarrow> present io \<and> length (bs io) = 6 \<and> cnt io \<le> 6 \<and> (nb io = cnt io \<or> nb io = 0)
     \<and> (cnt io < 6 \<longrightarrow> sublist (take (cnt io) (bs io)) h) \<and> (nb io < 6 \<longrightarrow> suffix (take (nb io) (bs io)) h)"

lemma recorded_read: "recorded h io \<Longrightarrow> rd a d (io, s) = Some (v, io', s') \<Longrightarrow> recorded h io'"
  using rd_law [of a d io s v io' s'] by (auto simp: recorded_def)

lemma recorded_write:
  assumes "recorded h io" "wr a d (io, s) = Some (b, io', s')"
  shows "recorded (h @ [cyc (ofs a) d]) io'"
proof -
  let ?h = "h @ [cyc (ofs a) d]"
  have p: "present io" using assms(1) by (simp add: recorded_def)
  consider "cnt io' = 0" "nb io' = 0" "length (bs io') = 6" "present io'"
    | "cnt io' = cnt io" "nb io' = nb io" "bs io' = bs io" "nb io = 0 \<or> 6 \<le> nb io" "present io'"
    | "nb io < 6" "cnt io' = Suc (nb io)" "nb io' = Suc (nb io)" "bs io' = (bs io)[nb io := cyc (ofs a) d]" "present io'"
    using wr_state [OF p assms(2)] by (elim conjE disjE) simp_all
  then show ?thesis
  proof cases
    case 2
    have "sublist (take (cnt io) (bs io)) ?h" if "cnt io < 6"
      using assms(1) that by (auto simp: recorded_def intro: sublist_order.order_trans)
    then show ?thesis using assms(1) 2 by (auto simp: recorded_def)
  next
    case 3
    have l: "length (bs io) = 6" and s: "suffix (take (nb io) (bs io)) h" using assms(1) 3(1) by (auto simp: recorded_def)
    have t: "take (Suc (nb io)) (bs io') = take (nb io) (bs io) @ [cyc (ofs a) d]"
      using 3(1) l unfolding 3(4) by (simp add: take_Suc_conv_app_nth)
    have "suffix (take (Suc (nb io)) (bs io')) ?h" unfolding t using s by (auto simp: suffix_def)
    then show ?thesis using 3 l by (auto simp: recorded_def intro: suffix_imp_sublist)
  qed (simp add: recorded_def)
qed

lemma latched_in_history: "recorded h io \<Longrightarrow> latched (cnt io) (bs io) sq \<Longrightarrow> length sq < 6 \<Longrightarrow> sublist sq h"
  by (auto simp: recorded_def latched_def)

lemma run_needs_unlock:
  assumes "flash_run rd wr ops (io, s) = Some (io', s')" "recorded h io"
    and "\<not> sublist prog (h @ bus_cycles ofs ops)" "\<not> sublist era (h @ bus_cycles ofs ops)"
  shows "rom (mach s') = rom (mach s)"
  using assms
proof (induction ops arbitrary: io s h)
  case Nil
  then show ?case by (simp add: bus_cycles_def)
next
  case (Cons op ops)
  show ?case
  proof (cases op)
    case (FRead a d)
    obtain v io1 s1 where r: "rd a d (io, s) = Some (v, io1, s1)" "flash_run rd wr ops (io1, s1) = Some (io', s')"
      using Cons.prems(1) by (auto simp: FRead bind_eq_Some_conv)
    then have "rom (mach s') = rom (mach s1)"
      using Cons.IH [OF r(2) recorded_read [OF Cons.prems(2) r(1)]] Cons.prems(3,4) by (simp add: FRead bus_cycles_def)
    then show ?thesis using rd_law [OF r(1)] by simp
  next
    case (FWrite a d)
    let ?h = "h @ [cyc (ofs a) d]"
    have p: "present io" using Cons.prems(2) by (simp add: recorded_def)
    obtain b io1 s1 where r: "wr a d (io, s) = Some (b, io1, s1)" "flash_run rd wr ops (io1, s1) = Some (io', s')"
      using Cons.prems(1) by (auto simp: FWrite bind_eq_Some_conv)
    have e: "h @ bus_cycles ofs (op # ops) = ?h @ bus_cycles ofs ops" by (simp add: FWrite bus_cycles_def)
    have "rom (mach s') = rom (mach s1)"
      using Cons.IH [OF r(2) recorded_write [OF Cons.prems(2) r(1)]] Cons.prems(3,4) unfolding e by blast
    moreover have "\<not> sublist sq h" if "\<not> sublist sq (h @ bus_cycles ofs (op # ops))" for sq
      using that sublist_append_rightI [of h "bus_cycles ofs (op # ops)"] by (meson sublist_order.order_trans sublist_append_rightI sublist_appendI)
    ultimately show ?thesis
      using wr_cells [OF p r(1)] latched_in_history [OF Cons.prems(2) _ lengths(1)] latched_in_history [OF Cons.prems(2) _ lengths(2)]
        Cons.prems(3,4) by auto
  qed
qed

text \<open>From a chip that has latched nothing.\<close>

lemma needs_unlock:
  assumes "flash_run rd wr ops (io, s) = Some (io', s')" "present io" "cnt io = 0" "nb io = 0" "length (bs io) = 6"
    and "\<not> sublist prog (bus_cycles ofs ops)" "\<not> sublist era (bus_cycles ofs ops)"
  shows "rom (mach s') = rom (mach s)"
  using run_needs_unlock [OF assms(1), of "[]"] assms(2-) by (simp add: recorded_def)

end

definition byte_unlock :: "ARMword \<Rightarrow> flash_bus list" where
  "byte_unlock c = [cyc 0xaaa 0xaa, cyc 0x555 0x55, cyc 0xaaa c]"

definition word_unlock :: "ARMword \<Rightarrow> flash_bus list" where
  "word_unlock c = [cyc 0x555 0xaa, cyc 0x2aa 0x55, cyc 0x555 c]"

definition sst_unlock :: "ARMword \<Rightarrow> flash_bus list" where
  "sst_unlock c = [cyc 0x5555 0xaa, cyc 0x2aaa 0x55, cyc 0x5555 c]"

lemma nth_take_eq: "length sq \<le> length bs \<Longrightarrow> take (length sq) bs = sq \<longleftrightarrow> (\<forall>i<length sq. bs ! i = sq ! i)"
  by (auto simp: list_eq_iff_nth_eq)

lemma cyc_eq: "b = cyc x y \<longleftrightarrow> fb_addr b = x \<and> fb_data b = y"
  by (cases b) simp

lemma latched3:
  assumes "length bs = 6"
  shows "latched n bs [x, y, z] \<longleftrightarrow> n = 3 \<and> bs ! 0 = x \<and> bs ! 1 = y \<and> bs ! 2 = z"
    and "latched n bs [x, y, z, v, w] \<longleftrightarrow> n = 5 \<and> bs ! 0 = x \<and> bs ! 1 = y \<and> bs ! 2 = z \<and> bs ! 3 = v \<and> bs ! 4 = w"
proof -
  obtain b0 b1 b2 b3 b4 b5 where "bs = [b0, b1, b2, b3, b4, b5]"
    using assms by (auto simp: numeral_eq_Suc length_Suc_conv)
  then show "latched n bs [x, y, z] \<longleftrightarrow> n = 3 \<and> bs ! 0 = x \<and> bs ! 1 = y \<and> bs ! 2 = z"
    and "latched n bs [x, y, z, v, w] \<longleftrightarrow> n = 5 \<and> bs ! 0 = x \<and> bs ! 1 = y \<and> bs ! 2 = z \<and> bs ! 3 = v \<and> bs ! 4 = w"
    by (auto simp: latched_def)
qed

section \<open>The chips follow commands\<close>

definition byte_erase :: "flash_bus list" where "byte_erase = byte_unlock 0x80 @ [cyc 0xaaa 0xaa, cyc 0x555 0x55]"
definition word_erase :: "flash_bus list" where "word_erase = word_unlock 0x80 @ [cyc 0x555 0xaa, cyc 0x2aa 0x55]"
definition sst_erase_seq :: "flash_bus list" where "sst_erase_seq = sst_unlock 0x80 @ [cyc 0x5555 0xaa, cyc 0x2aaa 0x55]"

lemmas seq_defs = byte_unlock_def word_unlock_def sst_unlock_def byte_erase_def word_erase_def sst_erase_seq_def

lemma byte_commands:
  assumes "length (bbus io) = 6"
  shows "CMD_BYTE_PROGRAM io \<longleftrightarrow> latched (bcnt io) (bbus io) (byte_unlock 0xa0)" "CMD_BYTE_ERASE io \<longleftrightarrow> latched (bcnt io) (bbus io) byte_erase"
  by (simp_all add: seq_defs latched3 [OF assms] CMD_BYTE_PROGRAM_def CMD_BYTE_ERASE_def CMD_BCHECK_def cyc_eq)

lemma word_commands:
  assumes "length (wbus io) = 6"
  shows "CMD_WORD_PROGRAM io \<longleftrightarrow> latched (wcnt io) (wbus io) (word_unlock 0xa0)" "CMD_WORD_ERASE io \<longleftrightarrow> latched (wcnt io) (wbus io) word_erase"
  by (simp_all add: seq_defs latched3 [OF assms] CMD_WORD_PROGRAM_def CMD_WORD_ERASE_def CMD_WCHECK_def cyc_eq)

lemma sst_commands:
  assumes "length (sst_bus io) = 6"
  shows "SST_WORD_PROGRAM io \<longleftrightarrow> latched (sst_cnt io) (sst_bus io) (sst_unlock 0xa0)" "SST_ERASE io \<longleftrightarrow> latched (sst_cnt io) (sst_bus io) sst_erase_seq"
  by (simp_all add: seq_defs latched3 [OF assms] SST_WORD_PROGRAM_def SST_ERASE_def SST_CHECK_def cyc_eq)

definition byte_chip :: "flash_am29_io \<Rightarrow> bool" where
  "byte_chip io \<longleftrightarrow> bautoselect io \<noteq> None \<and> length (bbus io) = 6"

definition word_chip :: "flash_am29_io \<Rightarrow> bool" where
  "word_chip io \<longleftrightarrow> wautoselect io \<noteq> None \<and> length (wbus io) = 6"

definition sst_chip :: "flash_sst39lvf160_io \<Rightarrow> bool" where
  "sst_chip io \<longleftrightarrow> length (sst_bus io) = 6"

lemma reset_fields [simp]:
  "bcnt (am29_breset io) = 0" "n_bbus (am29_breset io) = 0" "bbus (am29_breset io) = replicate 6 no_bus" "bautoselect (am29_breset io) = bautoselect io"
  "wcnt (am29_wreset io) = 0" "n_wbus (am29_wreset io) = 0" "wbus (am29_wreset io) = replicate 6 no_bus" "wautoselect (am29_wreset io) = wautoselect io"
  "sst_cnt (sst_reset j) = 0" "sst_n_bus (sst_reset j) = 0" "sst_bus (sst_reset j) = replicate 6 no_bus"
  by (simp_all add: am29_breset_def am29_wreset_def sst_reset_def)

interpretation am29_byte: command_chip "flash_am29_read_byte base" "flash_am29_write_byte base" byte_chip bcnt n_bbus bbus
    "\<lambda>a. a - base" "byte_unlock 0xa0" byte_erase for base
proof
  show "length (byte_unlock 0xa0) < 6" "length byte_erase < 6" by (simp_all add: seq_defs)
next
  fix a d io s v io' and s' :: "'a mstate"
  assume "flash_am29_read_byte base a d (io, s) = Some (v, io', s')"
  then show "byte_chip io' = byte_chip io \<and> bcnt io' = bcnt io \<and> bbus io' = bbus io \<and> n_bbus io' = 0 \<and> rom (mach s') = rom (mach s)"
    using cell_read_frame by (fastforce simp: flash_am29_read_byte_def Let_def byte_chip_def split: if_splits)
next
  fix a d io s h io' and s' :: "'a mstate"
  assume "byte_chip io" "flash_am29_write_byte base a d (io, s) = Some (h, io', s')"
  then show "rom (mach s') = rom (mach s) \<or> latched (bcnt io) (bbus io) (byte_unlock 0xa0) \<or> latched (bcnt io) (bbus io) byte_erase"
    and "byte_chip io' \<and> (bcnt io' = 0 \<and> n_bbus io' = 0 \<and> length (bbus io') = 6
         \<or> bcnt io' = bcnt io \<and> n_bbus io' = n_bbus io \<and> bbus io' = bbus io \<and> (n_bbus io = 0 \<or> 6 \<le> n_bbus io)
         \<or> n_bbus io < 6 \<and> bcnt io' = Suc (n_bbus io) \<and> n_bbus io' = Suc (n_bbus io) \<and> bbus io' = (bbus io)[n_bbus io := cyc (a - base) d])"
    by (auto simp: flash_am29_write_byte_def Let_def byte_chip_def byte_commands split: if_splits)
qed

interpretation am29_word: command_chip "flash_am29_read_halfword base" "flash_am29_write_halfword base" word_chip wcnt n_wbus wbus
    "\<lambda>a. drop_bit 1 (a - base)" "word_unlock 0xa0" word_erase for base
proof
  show "length (word_unlock 0xa0) < 6" "length word_erase < 6" by (simp_all add: seq_defs)
next
  fix a d io s v io' and s' :: "'a mstate"
  assume "flash_am29_read_halfword base a d (io, s) = Some (v, io', s')"
  then show "word_chip io' = word_chip io \<and> wcnt io' = wcnt io \<and> wbus io' = wbus io \<and> n_wbus io' = 0 \<and> rom (mach s') = rom (mach s)"
    using cell_read_frame by (fastforce simp: flash_am29_read_halfword_def Let_def word_chip_def split: if_splits)
next
  fix a d io s h io' and s' :: "'a mstate"
  assume "word_chip io" "flash_am29_write_halfword base a d (io, s) = Some (h, io', s')"
  then show "rom (mach s') = rom (mach s) \<or> latched (wcnt io) (wbus io) (word_unlock 0xa0) \<or> latched (wcnt io) (wbus io) word_erase"
    and "word_chip io' \<and> (wcnt io' = 0 \<and> n_wbus io' = 0 \<and> length (wbus io') = 6
         \<or> wcnt io' = wcnt io \<and> n_wbus io' = n_wbus io \<and> wbus io' = wbus io \<and> (n_wbus io = 0 \<or> 6 \<le> n_wbus io)
         \<or> n_wbus io < 6 \<and> wcnt io' = Suc (n_wbus io) \<and> n_wbus io' = Suc (n_wbus io) \<and> wbus io' = (wbus io)[n_wbus io := cyc (drop_bit 1 (a - base)) d])"
    by (auto simp: flash_am29_write_halfword_def Let_def word_chip_def word_commands split: if_splits)
qed

interpretation sst: command_chip "flash_sst39lvf160_read_halfword lf base" "flash_sst39lvf160_write_halfword base" sst_chip sst_cnt sst_n_bus sst_bus
    "\<lambda>a. drop_bit 1 (a - base)" "sst_unlock 0xa0" sst_erase_seq for lf base
proof
  show "length (sst_unlock 0xa0) < 6" "length sst_erase_seq < 6" by (simp_all add: seq_defs)
next
  fix a d io s v io' and s' :: "'a mstate"
  assume "flash_sst39lvf160_read_halfword lf base a d (io, s) = Some (v, io', s')"
  then show "sst_chip io' = sst_chip io \<and> sst_cnt io' = sst_cnt io \<and> sst_bus io' = sst_bus io \<and> sst_n_bus io' = 0 \<and> rom (mach s') = rom (mach s)"
    using cell_read_frame by (fastforce simp: flash_sst39lvf160_read_halfword_def Let_def sst_chip_def split: if_splits)
next
  fix a d io s h io' and s' :: "'a mstate"
  assume "sst_chip io" "flash_sst39lvf160_write_halfword base a d (io, s) = Some (h, io', s')"
  then show "rom (mach s') = rom (mach s) \<or> latched (sst_cnt io) (sst_bus io) (sst_unlock 0xa0) \<or> latched (sst_cnt io) (sst_bus io) sst_erase_seq"
    and "sst_chip io' \<and> (sst_cnt io' = 0 \<and> sst_n_bus io' = 0 \<and> length (sst_bus io') = 6
         \<or> sst_cnt io' = sst_cnt io \<and> sst_n_bus io' = sst_n_bus io \<and> sst_bus io' = sst_bus io \<and> (sst_n_bus io = 0 \<or> 6 \<le> sst_n_bus io)
         \<or> sst_n_bus io < 6 \<and> sst_cnt io' = Suc (sst_n_bus io) \<and> sst_n_bus io' = Suc (sst_n_bus io) \<and> sst_bus io' = (sst_bus io)[sst_n_bus io := cyc (drop_bit 1 (a - base)) d])"
    by (auto simp: flash_sst39lvf160_write_halfword_def Let_def sst_chip_def sst_commands split: if_splits)
qed

section \<open>Programming, erasing and dumping\<close>

text \<open>A chip that reads the cells.\<close>

definition byte_idle :: "flash_am29_io \<Rightarrow> bool" where
  "byte_idle io \<longleftrightarrow> byte_chip io \<and> bcnt io = 0 \<and> n_bbus io = 0"

lemma reset_byte_idle: "bautoselect io \<noteq> None \<Longrightarrow> byte_idle (flash_am29_reset io)"
  by (simp add: byte_idle_def byte_chip_def flash_am29_reset_def am29_breset_def am29_wreset_def)

text \<open>The writes of the unlock sequences, at the addresses of the device.\<close>

definition unlock_ops :: "ARMword \<Rightarrow> ARMword \<Rightarrow> flash_op list" where
  "unlock_ops base c = [FWrite (base + 0xaaa) 0xaa, FWrite (base + 0x555) 0x55, FWrite (base + 0xaaa) c]"

definition erase_ops :: "ARMword \<Rightarrow> flash_op list" where
  "erase_ops base = [FWrite (base + 0xaaa) 0xaa, FWrite (base + 0x555) 0x55, FWrite (base + 0xaaa) 0x80,
     FWrite (base + 0xaaa) 0xaa, FWrite (base + 0x555) 0x55]"

text \<open>Three cycles that are no command of their own are latched.\<close>

lemmas command_defs = CMD_BYTE_PROGRAM_def CMD_BYTE_ERASE_def CMD_BYTE_UNLOCK_BYPASS_def CMD_BYTE_UNLOCK_BYPASS_PROGRAM_RESET_def CMD_BCHECK_def
  Let_def numeral_2_eq_2 [symmetric]

lemma unlock_latched:
  assumes "byte_idle io" "c \<notin> {0xf0, 0x20}"
  shows "flash_run rd (flash_am29_write_byte base) (FWrite (base + 0xaaa) 0xaa # FWrite (base + 0x555) 0x55 # FWrite (base + 0xaaa) c # ops) (io, s) =
     flash_run rd (flash_am29_write_byte base) ops
       (io\<lparr>bbus := byte_unlock c @ drop 3 (bbus io), n_bbus := 3, bcnt := 3\<rparr>, s)"
proof -
  obtain b0 b1 b2 b3 b4 b5 k where "bbus io = [b0, b1, b2, b3, b4, b5]" "bautoselect io = Some k"
    using assms(1) by (auto simp: byte_idle_def byte_chip_def numeral_eq_Suc length_Suc_conv)
  then show ?thesis
    using assms by (simp add: byte_idle_def flash_am29_write_byte_def byte_unlock_def command_defs)
qed

lemma erase_latched:
  assumes "byte_idle io"
  shows "flash_run rd (flash_am29_write_byte base) (FWrite (base + 0xaaa) 0xaa # FWrite (base + 0x555) 0x55 # FWrite (base + 0xaaa) 0x80
       # FWrite (base + 0xaaa) 0xaa # FWrite (base + 0x555) 0x55 # ops) (io, s) =
     flash_run rd (flash_am29_write_byte base) ops
       (io\<lparr>bbus := byte_erase @ drop 5 (bbus io), n_bbus := 5, bcnt := 5\<rparr>, s)"
proof -
  let ?io = "io\<lparr>bbus := byte_unlock 0x80 @ drop 3 (bbus io), n_bbus := 3, bcnt := 3\<rparr>"
  obtain b0 b1 b2 b3 b4 b5 k where "bbus io = [b0, b1, b2, b3, b4, b5]" "bautoselect io = Some k"
    using assms(1) by (auto simp: byte_idle_def byte_chip_def numeral_eq_Suc length_Suc_conv)
  then have "flash_run rd (flash_am29_write_byte base) (FWrite (base + 0xaaa) 0xaa # FWrite (base + 0x555) 0x55 # ops) (?io, s) =
     flash_run rd (flash_am29_write_byte base) ops (io\<lparr>bbus := byte_erase @ drop 5 (bbus io), n_bbus := 5, bcnt := 5\<rparr>, s)"
    by (simp add: flash_am29_write_byte_def byte_unlock_def byte_erase_def command_defs)
  then show ?thesis by (subst unlock_latched [OF assms]) simp_all
qed

text \<open>
  Programming: on a chip that reads its cells, the unlock sequence of the byte interface followed by a
  write of \<open>d\<close> to \<open>a\<close> stores \<open>d\<close> at \<open>a\<close> and changes no other byte; the chip reads its cells again, a read
  of \<open>a\<close> gives \<open>d\<close>, and the chip is marked for a dump.
\<close>

theorem am29_program_byte:
  assumes "byte_idle io" "cell_ok s a"
  shows "\<exists>io' s' s''. flash_run (flash_am29_read_byte base) (flash_am29_write_byte base) (unlock_ops base 0xa0 @ [FWrite a d]) (io, s) = Some (io', s')
     \<and> byte_idle io' \<and> bit (dump_flags io') 0 \<and> flash_am29_read_byte base a j (io', s') = Some (d AND 0xff, io', s'')
     \<and> (\<forall>b. cell_ok s b \<longrightarrow> ram_byte s' b = (if b = a then d AND 0xff else ram_byte s b))"
proof -
  let ?io = "io\<lparr>bbus := byte_unlock 0xa0 @ drop 3 (bbus io), n_bbus := 3, bcnt := 3\<rparr>"
  let ?io' = "am29_breset (?io\<lparr>dump_flags := dump_flags io OR 1\<rparr>)"
  obtain s' where s': "cell_write Byte s a d = Some s'" "cell_ok s' = cell_ok s" "ram_byte s' a = d AND 0xff"
    "\<And>b. cell_ok s b \<Longrightarrow> b \<noteq> a \<Longrightarrow> ram_byte s' b = ram_byte s b"
    using cells.wr_law [OF assms(2), of d] by blast
  have u: "(0xa0 :: ARMword) \<notin> {0xf0, 0x20}" by simp
  have "CMD_BYTE_PROGRAM ?io" by (simp add: CMD_BYTE_PROGRAM_def CMD_BCHECK_def byte_unlock_def)
  then have run: "flash_run (flash_am29_read_byte base) (flash_am29_write_byte base) (unlock_ops base 0xa0 @ [FWrite a d]) (io, s) = Some (?io', s')"
    using s'(1) assms(1) unfolding unlock_ops_def append_Cons append_Nil unlock_latched [OF assms(1) u]
    by (auto simp: flash_am29_write_byte_def byte_idle_def byte_chip_def)
  have idle: "byte_idle ?io'" using assms(1) by (simp add: byte_idle_def byte_chip_def)
  obtain s'' where "cell_read Byte s' a = Some (d AND 0xff, s'')"
    using cells.rd_law [of s' a] s'(2,3) assms(2) by auto
  moreover have "?io'\<lparr>n_bbus := 0\<rparr> = ?io'" by (simp add: am29_breset_def)
  ultimately have "flash_am29_read_byte base a j (?io', s') = Some (d AND 0xff, ?io', s'')"
    by (simp add: flash_am29_read_byte_def Let_def)
  moreover have "bit (dump_flags ?io') 0" by (simp add: am29_breset_def bit_simps)
  ultimately show ?thesis using run idle s'(3,4) by (intro exI [of _ ?io'] exI [of _ s'] exI [of _ s'']) auto
qed

text \<open>
  Erasing: the erase sequence with 0x30 written to the first address \<open>a\<close> of a sector of \<open>4 * n\<close> bytes within
  the chip sets every word of the sector and changes no other word; the chip reads its cells again.  It is not marked
  for a dump: an erase alone never reaches the file.
\<close>

theorem am29_erase_sector:
  assumes "byte_idle io" "sector_size io = of_nat (4 * n)" "unat a + 4 * n < 2 ^ 32" "0 < n" "a + sector_size io \<le> base + chip_size io"
    and "\<And>k. k < n \<Longrightarrow> cell_word_ok s (a + of_nat (4 * k))"
  shows "\<exists>io' s'. flash_run (flash_am29_read_byte base) (flash_am29_write_byte base) (erase_ops base @ [FWrite a 0x30]) (io, s) = Some (io', s')
     \<and> byte_idle io' \<and> dump_flags io' = dump_flags io
     \<and> (\<forall>b. b AND 3 = 0 \<longrightarrow> ram_word s' b = (if \<exists>k<n. b = a + of_nat (4 * k) then 0xffffffff else ram_word s b))"
proof -
  let ?io = "io\<lparr>bbus := byte_erase @ drop 5 (bbus io), n_bbus := 5, bcnt := 5\<rparr>"
  obtain t where t: "erase_loop s a (a + of_nat (4 * n)) = Some t"
    "\<And>b. b AND 3 = 0 \<Longrightarrow> ram_word t b = (if \<exists>k<n. b = a + of_nat (4 * k) then 0xffffffff else ram_word s b)"
    using erase_loop_words [OF assms(3,6)] by blast
  have "a < a + sector_size io"
    using assms(3,4) unfolding assms(2) by (simp add: word_less_nat_alt unat_word_ariths unat_of_nat)
  then have e: "am29_erase base a 0x30 ?io s = Some t"
    using t(1) [folded assms(2)] assms(5) by (simp add: am29_erase_def am29_range_def)
  have "CMD_BYTE_ERASE ?io" "\<not> CMD_BYTE_PROGRAM ?io"
    by (simp_all add: CMD_BYTE_ERASE_def CMD_BYTE_PROGRAM_def CMD_BCHECK_def byte_erase_def byte_unlock_def)
  then have "flash_run (flash_am29_read_byte base) (flash_am29_write_byte base) (erase_ops base @ [FWrite a 0x30]) (io, s) = Some (am29_breset ?io, t)"
    using e assms(1) unfolding erase_ops_def append_Cons append_Nil erase_latched [OF assms(1)]
    by (auto simp: flash_am29_write_byte_def byte_idle_def byte_chip_def)
  moreover have "byte_idle (am29_breset ?io)" using assms(1) by (simp add: byte_idle_def byte_chip_def)
  moreover have "dump_flags (am29_breset ?io) = dump_flags io" by (simp add: am29_breset_def)
  ultimately show ?thesis using t(2) by blast
qed

text \<open>
  C32: protection: a sequence of byte reads and writes, from the reset, that changes a cell contains the unlock sequence of
  the program command or that of the erase command, as writes that follow each other.
\<close>

theorem am29_needs_unlock:
  assumes "flash_run (flash_am29_read_byte base) (flash_am29_write_byte base) ops (flash_am29_reset io, s) = Some (io', s')"
    and "bautoselect io \<noteq> None" "rom (mach s') \<noteq> rom (mach s)"
  shows "sublist (byte_unlock 0xa0) (bus_cycles (\<lambda>a. a - base) ops) \<or> sublist byte_erase (bus_cycles (\<lambda>a. a - base) ops)"
  using am29_byte.needs_unlock [OF assms(1)] assms(2,3) reset_byte_idle [OF assms(2)]
  by (auto simp: byte_idle_def byte_chip_def)

text \<open>The words of a chip in the order of the file.\<close>

definition file_word :: "'x mstate \<Rightarrow> ARMword \<Rightarrow> ARMword" where
  "file_word s a = (if bigendSig s = HIGH then swap_bytes (ram_word s a) else ram_word s a)"

lemma dump_read:
  assumes "cell_ok s a"
  shows "\<exists>t. skyeye_flash_arm_read_word s a = Some (Some (file_word s a), t) \<and> cell_ok t = cell_ok s \<and> file_word t = file_word s"
proof -
  obtain p where p: "mem_wf ((mach s)\<lparr>mbp := p\<rparr>)"
    "set_mbp s a = Some (s\<lparr>mach := (mach s)\<lparr>mbp := p, global_mbp := Some (ram_index (mach s) a)\<rparr>\<rparr>)"
    using set_mbp_ok [OF assms] by blast
  let ?t = "s\<lparr>mach := (mach s)\<lparr>mbp := p, global_mbp := Some (ram_index (mach s) a), rom := rom (mach s)\<rparr>\<rparr>"
  have "cell_ok ?t = cell_ok s" by (rule cell_ok_upd [OF cell_ok_wf [OF assms] p(1)])
  moreover have "file_word ?t = file_word s"
    unfolding fun_eq_iff file_word_def ram_word_upd by (simp add: ram_word_def rom_get_def)
  moreover have "skyeye_flash_arm_read_word s a = Some (Some (file_word s a), ?t)"
    by (simp add: skyeye_flash_arm_read_word_def p(2) real_read_word_def file_word_def ram_word_def rom_get_def rom_index_def)
  ultimately show ?thesis by blast
qed

lemma dump_loop_words:
  assumes "unat a + 4 * n < 2 ^ 32" "\<And>k. k < n \<Longrightarrow> cell_ok s (a + of_nat (4 * k))"
  shows "\<exists>t. dump_loop s a (a + of_nat (4 * n)) = Some (True, map (\<lambda>k. file_word s (a + of_nat (4 * k))) [0..<n], t)"
  using assms
proof (induction n arbitrary: s a)
  case 0
  then show ?case by (subst dump_loop.simps) simp
next
  case (Suc n)
  have lt: "a < a + of_nat (4 * Suc n)"
    using Suc.prems(1) by (simp add: word_less_nat_alt unat_word_ariths unat_of_nat)
  have a4: "unat (a + 4) = unat a + 4" using Suc.prems(1) by (simp add: unat_word_ariths)
  obtain t where t: "skyeye_flash_arm_read_word s a = Some (Some (file_word s a), t)" "cell_ok t = cell_ok s" "file_word t = file_word s"
    using dump_read [of s a] Suc.prems(2) [of 0] by auto
  have "cell_ok t (a + 4 + of_nat (4 * k))" if "k < n" for k
    using Suc.prems(2) [of "Suc k"] that t(2) by (simp add: algebra_simps)
  then obtain u where u: "dump_loop t (a + 4) (a + 4 + of_nat (4 * n)) = Some (True, map (\<lambda>k. file_word t (a + 4 + of_nat (4 * k))) [0..<n], u)"
    using Suc.IH [of "a + 4" t] Suc.prems(1) a4 by auto
  have e: "a + 4 + of_nat (4 * n) = a + of_nat (4 * Suc n)" by simp
  have m: "map (\<lambda>k. file_word s (a + of_nat (4 * k))) [0..<Suc n] = file_word s a # map (\<lambda>k. file_word s (a + 4 + of_nat (4 * k))) [0..<n]"
    by (simp add: map_upt_Suc algebra_simps del: upt_Suc)
  show ?case unfolding m using lt t u unfolding e by (subst dump_loop.simps) (auto simp: algebra_simps)
qed

primrec am29_updates :: "nat \<Rightarrow> (string \<Rightarrow> bool) \<Rightarrow> string \<Rightarrow> ARMword \<Rightarrow> flash_am29_io \<times> 'x mstate \<Rightarrow> ((bool \<times> ARMword list) list \<times> flash_am29_io \<times> 'x mstate) option" where
  "am29_updates 0 opens dump base st = Some ([], st)"
| "am29_updates (Suc n) opens dump base st =
     Option.bind (flash_am29_update opens dump base st) (\<lambda>(r, st).
     Option.bind (am29_updates n opens dump base st) (\<lambda>(rs, st). Some ((case r of None \<Rightarrow> rs | Some f \<Rightarrow> f # rs), st)))"

text \<open>
  A chip with cells programmed is dumped after exactly as many updates as its counter says: no update
  before opens the file, and that one writes the words of the chip in order, lowest byte first in the little and highest
  byte first in the big byte order, and clears the mark.
\<close>

theorem flash_dump_written:
  assumes "dump \<noteq> []" "opens dump" "dump_flags io = 1" "dump_cnt io = int (Suc n)" "chip_size io = of_nat (4 * m)"
    and "unat base + 4 * m < 2 ^ 32" "\<And>k. k < m \<Longrightarrow> cell_ok s (base + of_nat (4 * k))"
  shows "\<exists>s'. am29_updates (Suc n) opens dump base (io, s) =
     Some ([(True, map (\<lambda>k. file_word s (base + of_nat (4 * k))) [0..<m])], io\<lparr>dump_cnt := 0xffff, dump_flags := 0\<rparr>, s')"
  using assms(3-5)
proof (induction n arbitrary: io)
  case 0
  obtain t where "dump_loop s base (base + of_nat (4 * m)) = Some (True, map (\<lambda>k. file_word s (base + of_nat (4 * k))) [0..<m], t)"
    using dump_loop_words [OF assms(6,7)] by blast
  then show ?case using assms(1,2) 0 by (simp add: flash_am29_update_def skyeye_flash_dump_def Let_def)
next
  case (Suc n)
  let ?io = "io\<lparr>dump_cnt := dump_cnt io - 1\<rparr>"
  have u: "flash_am29_update opens dump base (io, s) = Some (None, ?io, s)"
    using Suc.prems assms(1) by (simp add: flash_am29_update_def Let_def)
  have "\<exists>s'. am29_updates (Suc n) opens dump base (?io, s) =
     Some ([(True, map (\<lambda>k. file_word s (base + of_nat (4 * k))) [0..<m])], ?io\<lparr>dump_cnt := 0xffff, dump_flags := 0\<rparr>, s')"
    using Suc.prems by (intro Suc.IH) simp_all
  then show ?case by (subst am29_updates.simps(2)) (auto simp: u)
qed

section \<open>An example\<close>

definition fx_io :: flash_am29_io where
  "fx_io = the (flash_am29lv800_setup ''Am29LV800T-8'' 0x100000)"

lemma fx_io_eq: "fx_io = \<lparr>am_type = ''Am29LV800T-8'', bcnt = 0, n_bbus = 0, bbus = replicate 6 no_bus, wcnt = 0, n_wbus = 0, wbus = replicate 6 no_bus,
   am_query = None, max_query = 0, bautoselect = Some Am29LV800, wautoselect = None, chip_size = 0x100000, sector_size = 0x10000,
   dump_cnt = 0xffff, dump_flags = 0\<rparr>"
  by (simp add: fx_io_def flash_am29lv800_setup_def flash_am29_setup_def ends_with_def flash_am29_reset_def am29_breset_def am29_wreset_def)

lemma fx_idle: "byte_idle fx_io"
  by (simp add: byte_idle_def byte_chip_def fx_io_eq)

theorem am29_program_byte_witness:
  "byte_idle fx_io \<and> cell_ok fx_ms 0x1001 \<and>
   (\<exists>io' s' s''. flash_run (flash_am29_read_byte 0) (flash_am29_write_byte 0) (unlock_ops 0 0xa0 @ [FWrite 0x1001 0x5a]) (fx_io, fx_ms) = Some (io', s')
     \<and> byte_idle io' \<and> bit (dump_flags io') 0 \<and> flash_am29_read_byte 0 0x1001 0 (io', s') = Some (0x5a AND 0xff, io', s''))"
  using am29_program_byte [where base = 0 and d = "0x5a" and j = 0, OF fx_idle fx_cell [of "0x1001"]] fx_idle fx_cell [of "0x1001"] by auto

theorem am29_erase_sector_witness:
  "\<exists>io' s'. flash_run (flash_am29_read_byte 0) (flash_am29_write_byte 0) (erase_ops 0 @ [FWrite 0x20000 0x30]) (fx_io, fx_ms) = Some (io', s')
     \<and> byte_idle io' \<and> dump_flags io' = 0 \<and> ram_word s' 0x20004 = 0xffffffff \<and> ram_word s' 0x30000 = ram_word fx_ms 0x30000"
proof -
  have c: "cell_word_ok fx_ms (0x20000 + of_nat (4 * k))" if "k < 0x4000" for k
    using fx_cells [of "0x8000 + k"] that by (simp add: algebra_simps)
  have n: "\<not> (\<exists>k<0x4000. (0x30000 :: ARMword) = 0x20000 + of_nat (4 * k))"
  proof
    assume "\<exists>k<0x4000. (0x30000 :: ARMword) = 0x20000 + of_nat (4 * k)"
    then obtain k where k: "k < 0x4000" "(0x10000 :: ARMword) = of_nat (4 * k)" by (auto simp: algebra_simps)
    have "unat (of_nat (4 * k) :: ARMword) = 4 * k" using k(1) unfolding unat_of_nat by simp
    moreover have "unat (0x10000 :: ARMword) = 0x10000" by simp
    ultimately show False using k by simp
  qed
  obtain io' s' where r: "flash_run (flash_am29_read_byte 0) (flash_am29_write_byte 0) (erase_ops 0 @ [FWrite 0x20000 0x30]) (fx_io, fx_ms) = Some (io', s')"
    "byte_idle io'" "dump_flags io' = dump_flags fx_io"
    "\<And>b. b AND 3 = 0 \<Longrightarrow> ram_word s' b = (if \<exists>k<0x4000. b = 0x20000 + of_nat (4 * k) then 0xffffffff else ram_word fx_ms b)"
    using am29_erase_sector [OF fx_idle, of "0x4000" "0x20000" 0 fx_ms] c by (auto simp: fx_io_eq)
  have "\<exists>k<0x4000. (0x20004 :: ARMword) = 0x20000 + of_nat (4 * k)" by (rule exI [of _ 1]) simp
  then show ?thesis using r n by (auto simp: fx_io_eq)
qed

theorem am29_needs_unlock_witness:
  "sublist (byte_unlock 0xa0) (bus_cycles (\<lambda>a. a - 0) [FRead 0x20 0, FWrite 0xaaa 0xaa, FWrite 0x555 0x55, FWrite 0xaaa 0xa0, FRead 0x20 0, FWrite 0x1001 0x5a])
   \<or> sublist byte_erase (bus_cycles (\<lambda>a. a - 0) [FRead 0x20 0, FWrite 0xaaa 0xaa, FWrite 0x555 0x55, FWrite 0xaaa 0xa0, FRead 0x20 0, FWrite 0x1001 0x5a])"
proof -
  let ?ops = "[FRead 0x20 0, FWrite 0xaaa 0xaa, FWrite 0x555 0x55, FWrite 0xaaa 0xa0, FRead 0x20 0, FWrite 0x1001 0x5a]"
  have "map_option (\<lambda>(io, s). rom (mach s) 0 0x400)
      (flash_run (flash_am29_read_byte 0) (flash_am29_write_byte 0) ?ops (flash_am29_reset fx_io, fx_ms)) = Some 0x5a00"
    by code_simp
  then obtain io' s' where r: "flash_run (flash_am29_read_byte 0) (flash_am29_write_byte 0) ?ops (flash_am29_reset fx_io, fx_ms) = Some (io', s')"
    "rom (mach s') 0 0x400 = 0x5a00" by auto
  have "rom (mach fx_ms) 0 0x400 = 0" by (simp add: fx_ms_def ARMul_NewState_def)
  then have "rom (mach s') \<noteq> rom (mach fx_ms)" using r(2) by auto
  then show ?thesis using am29_needs_unlock [OF r(1)] by (simp add: fx_io_eq)
qed

theorem flash_dump_written_witness:
  "\<exists>s'. am29_updates (Suc 0xfffe) (\<lambda>_. True) ''flash.bin'' 0 (fx_io\<lparr>dump_flags := 1\<rparr>, fx_ms) =
     Some ([(True, map (\<lambda>k. file_word fx_ms (0 + of_nat (4 * k))) [0..<0x40000])], fx_io\<lparr>dump_flags := 1, dump_cnt := 0xffff, dump_flags := 0\<rparr>, s')"
proof (rule flash_dump_written)
  show "cell_ok fx_ms (0 + of_nat (4 * k))" if "k < 0x40000" for k
    using fx_cells [of k] that by (simp add: cell_word_ok_def)
qed (simp_all add: fx_io_eq)

end
