(* ===== verification/Dev_FlashIntel.thy ===== *)
theory Dev_FlashIntel
  imports Dev_Cells
begin

text \<open>
  The flash chips of Intel (\<^verbatim>\<open>device/flash/dev_flash_intel.c\<close>): two 28F128J3A side by side, with the write state machine,
  the write buffer and the lock bits, on the words of the memory banks.  The lemmas show that no operation ever stays busy or
  suspended, that programming clears bits and erasing sets a sector, that the write buffer programs the words loaded, and that a locked
  sector is safe from the commands that name it, though not from a buffered write that names another one.
\<close>

section \<open>Constants\<close>

abbreviation (input) WSM_READ_ARRAY :: ARMword where "WSM_READ_ARRAY \<equiv> 0xff"
abbreviation (input) WSM_READ_ID :: ARMword where "WSM_READ_ID \<equiv> 0x90"
abbreviation (input) WSM_READ_STATUS :: ARMword where "WSM_READ_STATUS \<equiv> 0x70"
abbreviation (input) WSM_CLEAR_STATUS :: ARMword where "WSM_CLEAR_STATUS \<equiv> 0x50"
abbreviation (input) WSM_READ_QUERY :: ARMword where "WSM_READ_QUERY \<equiv> 0x98"
abbreviation (input) WSM_WRITE_BUFFER :: ARMword where "WSM_WRITE_BUFFER \<equiv> 0xe8"
abbreviation (input) WSM_PROGRAM :: ARMword where "WSM_PROGRAM \<equiv> 0x40"
abbreviation (input) WSM_PROGRAM2 :: ARMword where "WSM_PROGRAM2 \<equiv> 0x10"
abbreviation (input) WSM_BLOCK_ERASE :: ARMword where "WSM_BLOCK_ERASE \<equiv> 0x20"
abbreviation (input) WSM_SUSPEND :: ARMword where "WSM_SUSPEND \<equiv> 0xb0"
abbreviation (input) WSM_RESUME :: ARMword where "WSM_RESUME \<equiv> 0xd0"
abbreviation (input) WSM_LOCK_ACCESS :: ARMword where "WSM_LOCK_ACCESS \<equiv> 0x60"
abbreviation (input) WSM_CONFIRM :: ARMword where "WSM_CONFIRM \<equiv> 0xd0"
abbreviation (input) WSM_READY :: ARMword where "WSM_READY \<equiv> 0"
abbreviation (input) INTEL_WRITEBUFFER_SIZE :: ARMword where "INTEL_WRITEBUFFER_SIZE \<equiv> 0x10"
abbreviation (input) FLASH_SECTOR_MASK :: ARMword where "FLASH_SECTOR_MASK \<equiv> 0xfffc0000"

definition SECTOR_ADDR :: "ARMword \<Rightarrow> ARMword" where "SECTOR_ADDR x = drop_bit 18 x"
definition WORD_ADDR :: "ARMword \<Rightarrow> ARMword" where "WORD_ADDR x = drop_bit 2 x"
definition BOTHCHIP :: "ARMword \<Rightarrow> ARMword" where "BOTHCHIP x = push_bit 16 (x AND 0xffff) OR (x AND 0xffff)"

section \<open>State\<close>

text \<open>The flags of the code only ever hold 0 and 1.\<close>

record flash_intel_io =
  lock :: "bool list"
  io_size :: ARMword
  read_mode :: ARMword
  wsm_mode :: ARMword
  vpen :: bool
  program_latch_addr :: ARMword
  program_latch_data :: ARMword
  progbuf_latch_addr :: ARMword
  erase_latch_addr :: ARMword
  pb_count :: ARMword
  pb_loaded :: ARMword
  pb_start :: ARMword
  pb_buf :: "ARMword list"
  program_busy :: bool
  progbuf_busy :: bool
  erase_busy :: bool
  lock_busy :: bool
  program_suspended :: bool
  progbuf_suspended :: bool
  erase_suspended :: bool
  protection_error :: bool
  program_setlb_error :: bool
  erase_clearlb_error :: bool
  program_volt_error :: bool

text \<open>The lock bit of an address, \<open>None\<close> beyond the array; the index is that of the whole address, not of the offset in the chip.\<close>

definition ISLOCKED :: "flash_intel_io \<Rightarrow> ARMword \<Rightarrow> bool option" where
  "ISLOCKED io x = (let k = unat (SECTOR_ADDR x) in if k < length (lock io) then Some (lock io ! k) else None)"

definition ADDR_SUSPENDED :: "flash_intel_io \<Rightarrow> ARMword \<Rightarrow> bool" where
  "ADDR_SUSPENDED io x \<longleftrightarrow> program_suspended io \<and> x = program_latch_addr io
     \<or> progbuf_suspended io \<and> x \<ge> pb_start io \<and> x < pb_start io + pb_count io
     \<or> erase_suspended io \<and> x AND FLASH_SECTOR_MASK = erase_latch_addr io AND FLASH_SECTOR_MASK"

definition DEVICE_SUSPENDED :: "flash_intel_io \<Rightarrow> bool" where
  "DEVICE_SUSPENDED io \<longleftrightarrow> program_suspended io \<or> progbuf_suspended io \<or> erase_suspended io"

text \<open>The reset, which follows the setup that zeroes the structure; memory allocation is taken to succeed.\<close>

definition flash_intel_reset :: "flash_intel_io \<Rightarrow> flash_intel_io" where
  "flash_intel_reset io =
     io\<lparr>io_size := 0x2000000, lock := replicate (0x2000000 div 0x40000) False,
        read_mode := WSM_READ_ARRAY, wsm_mode := WSM_READY,
        program_busy := False, progbuf_busy := False, erase_busy := False, lock_busy := False,
        program_suspended := False, progbuf_suspended := False, erase_suspended := False,
        protection_error := False, program_setlb_error := False, erase_clearlb_error := False, program_volt_error := False,
        vpen := True, pb_count := 0, pb_loaded := 0\<rparr>"

definition flash_intel_setup :: flash_intel_io where
  "flash_intel_setup = flash_intel_reset
     \<lparr>lock = [], io_size = 0, read_mode = 0, wsm_mode = 0, vpen = False, program_latch_addr = 0, program_latch_data = 0,
      progbuf_latch_addr = 0, erase_latch_addr = 0, pb_count = 0, pb_loaded = 0, pb_start = 0, pb_buf = replicate 16 0,
      program_busy = False, progbuf_busy = False, erase_busy = False, lock_busy = False,
      program_suspended = False, progbuf_suspended = False, erase_suspended = False,
      protection_error = False, program_setlb_error = False, erase_clearlb_error = False, program_volt_error = False\<rparr>"

section \<open>Reads\<close>

text \<open>The query table: the entries that are not 0.\<close>

definition init_querytable :: "(nat \<times> ARMword) list" where
  "init_querytable =
     [(0x0, 0x890089), (0x1, 0x180018), (0x2, 0x10001), (0x10, 0x510051), (0x11, 0x520052), (0x12, 0x590059),
      (0x13, 0x10001), (0x15, 0x310031), (0x1b, 0x270027), (0x1c, 0x360036), (0x1f, 0x70007), (0x20, 0x70007),
      (0x21, 0xa000a), (0x23, 0x40004), (0x24, 0x40004), (0x25, 0x40004), (0x27, 0x180018), (0x28, 0x20002),
      (0x2a, 0x50005), (0x2c, 0x10001), (0x2d, 0x7f007f), (0x30, 0x20002), (0x31, 0x500050), (0x32, 0x520052),
      (0x33, 0x490049), (0x34, 0x310031), (0x35, 0x320032), (0x36, 0xce00ce), (0x3a, 0x10001), (0x3b, 0x10001),
      (0x3c, 0x10001), (0x3d, 0x330033), (0x3f, 0x10001), (0x41, 0x10001), (0x42, 0x30003), (0x43, 0x30003),
      (0x44, 0x30003)]"

definition query_entry :: "ARMword \<Rightarrow> ARMword" where
  "query_entry k = (if k < 0x47 then (case map_of init_querytable (unat k) of Some v \<Rightarrow> v | None \<Rightarrow> 0) else 0)"

definition intel_status :: "flash_intel_io \<Rightarrow> ARMword" where
  "intel_status io =
     (let ready = \<not> program_busy io \<and> \<not> progbuf_busy io \<and> \<not> lock_busy io \<and> \<not> erase_busy io
      in BOTHCHIP (push_bit 7 (of_bool ready) OR push_bit 6 (of_bool (erase_suspended io)) OR push_bit 5 (of_bool (erase_clearlb_error io))
           OR push_bit 4 (of_bool (program_setlb_error io)) OR push_bit 3 (of_bool (program_volt_error io))
           OR push_bit 2 (of_bool (program_suspended io)) OR push_bit 1 (of_bool (protection_error io))))"

text \<open>The identification: the variable \<open>temp\<close> has one bit, so the last two branches are never taken.\<close>

definition intel_id :: "flash_intel_io \<Rightarrow> ARMword \<Rightarrow> ARMword option" where
  "intel_id io addr =
     (let temp = WORD_ADDR addr AND 1 in
      if temp = 0 then Some (BOTHCHIP 0x89)
      else if temp = 1 then Some (BOTHCHIP 0x18)
      else if drop_bit 2 (addr AND 0x3ffff) = 2 then map_option (\<lambda>b. BOTHCHIP (of_bool b AND 1)) (ISLOCKED io addr)
      else Some 0)"

definition flash_intel_read_word :: "ARMword \<Rightarrow> flash_intel_io \<times> 'x mstate \<Rightarrow> (ARMword \<times> flash_intel_io \<times> 'x mstate) option" where
  "flash_intel_read_word addr = (\<lambda>(io, s).
     if read_mode io = WSM_READ_ARRAY then map_option (\<lambda>(d, s). (d, io, s)) (cell_read Word s addr)
     else if read_mode io = WSM_READ_ID then map_option (\<lambda>d. (d, io, s)) (intel_id io addr)
     else if read_mode io = WSM_READ_STATUS then Some (intel_status io, io, s)
     else if read_mode io = WSM_READ_QUERY then Some (query_entry (WORD_ADDR (addr AND 0xffff)), io, s)
     else Some (0, io, s))"

text \<open>Bytes and halfwords are cut out of the word.\<close>

definition flash_intel_read_byte :: "ARMword \<Rightarrow> flash_intel_io \<times> 'x mstate \<Rightarrow> (ARMword \<times> flash_intel_io \<times> 'x mstate) option" where
  "flash_intel_read_byte addr st =
     map_option (\<lambda>(w, io, s). (lane_read 0xff (byte_offset (bigendSig s) addr) w, io, s)) (flash_intel_read_word addr st)"

definition flash_intel_read_halfword :: "ARMword \<Rightarrow> flash_intel_io \<times> 'x mstate \<Rightarrow> (ARMword \<times> flash_intel_io \<times> 'x mstate) option" where
  "flash_intel_read_halfword addr st =
     map_option (\<lambda>(w, io, s). (lane_read 0xffff (half_offset (bigendSig s) addr) w, io, s)) (flash_intel_read_word addr st)"

section \<open>Writes\<close>

text \<open>Bytes and halfwords cannot be written; the code prints a message.\<close>

definition flash_intel_write_byte :: "ARMword \<Rightarrow> ARMword \<Rightarrow> flash_intel_io \<times> 'x mstate \<Rightarrow> (bool \<times> flash_intel_io \<times> 'x mstate) option" where
  "flash_intel_write_byte addr data = (\<lambda>st. Some (True, st))"

definition flash_intel_write_halfword :: "ARMword \<Rightarrow> ARMword \<Rightarrow> flash_intel_io \<times> 'x mstate \<Rightarrow> (bool \<times> flash_intel_io \<times> 'x mstate) option" where
  "flash_intel_write_halfword addr data = (\<lambda>st. Some (True, st))"

text \<open>The first cycle of a command; the unsupported commands 0xb8 and 0xc0 and the unknown ones do nothing.\<close>

definition init_wsm :: "ARMword \<Rightarrow> flash_intel_io \<Rightarrow> flash_intel_io" where
  "init_wsm data io =
     (let cmd = data AND 0xff in
      if cmd = WSM_READ_ARRAY then io\<lparr>read_mode := WSM_READ_ARRAY\<rparr>
      else if cmd = WSM_READ_ID then io\<lparr>read_mode := WSM_READ_ID\<rparr>
      else if cmd = WSM_READ_STATUS then io\<lparr>read_mode := WSM_READ_STATUS\<rparr>
      else if cmd = WSM_READ_QUERY then io\<lparr>read_mode := WSM_READ_QUERY\<rparr>
      else if cmd = WSM_CLEAR_STATUS
      then io\<lparr>protection_error := False, program_setlb_error := False, erase_clearlb_error := False, program_volt_error := False,
              read_mode := WSM_READ_ARRAY\<rparr>
      else if cmd = WSM_PROGRAM \<or> cmd = WSM_PROGRAM2 then io\<lparr>wsm_mode := WSM_PROGRAM\<rparr>
      else if cmd = WSM_WRITE_BUFFER
      then io\<lparr>wsm_mode := WSM_WRITE_BUFFER, read_mode := WSM_READ_STATUS, pb_count := 0, pb_loaded := 0, pb_buf := replicate 16 0xffffffff\<rparr>
      else if cmd = WSM_BLOCK_ERASE then io\<lparr>wsm_mode := WSM_BLOCK_ERASE\<rparr>
      else if cmd = WSM_SUSPEND
      then (if program_busy io then io\<lparr>program_suspended := True\<rparr>
            else if progbuf_busy io then io\<lparr>progbuf_suspended := True\<rparr>
            else if erase_busy io then io\<lparr>erase_suspended := True\<rparr> else io)
      else if cmd = WSM_RESUME
      then (if program_suspended io then io\<lparr>program_suspended := False\<rparr>
            else if progbuf_suspended io then io\<lparr>progbuf_suspended := False\<rparr>
            else if erase_suspended io then io\<lparr>erase_suspended := False\<rparr> else io)
      else if cmd = WSM_LOCK_ACCESS then io\<lparr>wsm_mode := WSM_LOCK_ACCESS\<rparr>
      else io)"

text \<open>One word programmed: bits can only be cleared.\<close>

definition and_word :: "'x mstate \<Rightarrow> ARMword \<Rightarrow> ARMword \<Rightarrow> 'x mstate option" where
  "and_word s addr data =
     Option.bind (set_mbp s addr) (\<lambda>s. Option.bind (real_read_word s addr) (\<lambda>d. real_write_word s addr (d AND data)))"

text \<open>The loop over the write buffer, \<open>n\<close> words from word address \<open>j\<close>, and the loop over a sector.\<close>

primrec progbuf_loop :: "nat \<Rightarrow> ARMword \<Rightarrow> ARMword list \<Rightarrow> 'x mstate \<Rightarrow> 'x mstate option" where
  "progbuf_loop 0 j buf s = Some s"
| "progbuf_loop (Suc n) j buf s =
     Option.bind (and_word s (push_bit 2 j) (buf ! unat (j AND 0xf))) (\<lambda>s. progbuf_loop n (j + 1) buf s)"

primrec sector_loop :: "nat \<Rightarrow> ARMword \<Rightarrow> ARMword \<Rightarrow> 'x mstate \<Rightarrow> 'x mstate option" where
  "sector_loop 0 i base s = Some s"
| "sector_loop (Suc n) i base s =
     Option.bind (cell_write Word s (base + push_bit 2 i) 0xffffffff) (\<lambda>s. sector_loop n (i + 1) base s)"

text \<open>The cases of the write: the three steps of the buffer, the second cycles of program, erase and lock.\<close>

definition wb_error :: "flash_intel_io \<Rightarrow> flash_intel_io" where
  "wb_error io = io\<lparr>program_setlb_error := True, erase_clearlb_error := True, wsm_mode := WSM_READY\<rparr>"

definition write_buffer_count :: "ARMword \<Rightarrow> ARMword \<Rightarrow> flash_intel_io \<Rightarrow> flash_intel_io" where
  "write_buffer_count addr data io =
     (let io = io\<lparr>pb_count := (data AND 0xff) + 1, progbuf_latch_addr := addr\<rparr> in
      if pb_count io > INTEL_WRITEBUFFER_SIZE then wb_error io
      else if SECTOR_ADDR addr \<noteq> SECTOR_ADDR (addr + pb_count io - 1) then wb_error io
      else io)"

definition write_buffer_load :: "ARMword \<Rightarrow> ARMword \<Rightarrow> flash_intel_io \<Rightarrow> flash_intel_io" where
  "write_buffer_load addr data io =
     (if SECTOR_ADDR addr \<noteq> SECTOR_ADDR (progbuf_latch_addr io) then wb_error io
      else
        let io = (if pb_loaded io = 0 then io\<lparr>pb_start := addr\<rparr> else io)
        in io\<lparr>pb_buf := (pb_buf io)[unat (WORD_ADDR addr AND 0xf) := data], pb_loaded := pb_loaded io + 1\<rparr>)"

definition write_buffer_confirm :: "flash_intel_io \<times> 'x mstate \<Rightarrow> (flash_intel_io \<times> 'x mstate) option" where
  "write_buffer_confirm = (\<lambda>(io, s).
     let io = io\<lparr>progbuf_busy := True, read_mode := WSM_READ_STATUS\<rparr>;
         fin = (\<lambda>(io, s). (io\<lparr>wsm_mode := WSM_READY, progbuf_busy := False\<rparr>, s))
     in map_option fin
       (case ISLOCKED io (progbuf_latch_addr io) of
          None \<Rightarrow> None
        | Some True \<Rightarrow> Some (io\<lparr>program_setlb_error := True, protection_error := True\<rparr>, s)
        | Some False \<Rightarrow>
            if DEVICE_SUSPENDED io then Some (io\<lparr>program_setlb_error := True\<rparr>, s)
            else if \<not> vpen io then Some (io\<lparr>program_setlb_error := True, program_volt_error := True\<rparr>, s)
            else map_option (Pair io) (progbuf_loop 16 (WORD_ADDR (pb_start io)) (pb_buf io) s)))"

definition write_buffer :: "ARMword \<Rightarrow> ARMword \<Rightarrow> flash_intel_io \<times> 'x mstate \<Rightarrow> (flash_intel_io \<times> 'x mstate) option" where
  "write_buffer addr data = (\<lambda>(io, s).
     if pb_count io = 0 then Some (write_buffer_count addr data io, s)
     else if pb_loaded io < pb_count io then Some (write_buffer_load addr data io, s)
     else if data AND 0xff = WSM_CONFIRM then write_buffer_confirm (io, s)
     else Some (wb_error io, s))"

definition program_word :: "ARMword \<Rightarrow> ARMword \<Rightarrow> flash_intel_io \<times> 'x mstate \<Rightarrow> (flash_intel_io \<times> 'x mstate) option" where
  "program_word addr data = (\<lambda>(io, s).
     let io = io\<lparr>program_busy := True, program_latch_addr := addr, program_latch_data := data, read_mode := WSM_READ_STATUS\<rparr>;
         fin = (\<lambda>(io, s). (io\<lparr>program_busy := False, wsm_mode := WSM_READY\<rparr>, s))
     in map_option fin
       (case ISLOCKED io addr of
          None \<Rightarrow> None
        | Some True \<Rightarrow> Some (io\<lparr>program_setlb_error := True, protection_error := True\<rparr>, s)
        | Some False \<Rightarrow>
            if ADDR_SUSPENDED io addr then Some (io\<lparr>program_setlb_error := True\<rparr>, s)
            else if \<not> vpen io then Some (io\<lparr>program_setlb_error := True, program_volt_error := True\<rparr>, s)
            else map_option (Pair io) (and_word s addr data)))"

definition block_erase :: "ARMword \<Rightarrow> ARMword \<Rightarrow> flash_intel_io \<times> 'x mstate \<Rightarrow> (flash_intel_io \<times> 'x mstate) option" where
  "block_erase addr data = (\<lambda>(io, s).
     if data AND 0xff = WSM_CONFIRM then
       let io = io\<lparr>erase_busy := True, erase_latch_addr := addr AND FLASH_SECTOR_MASK, read_mode := WSM_READ_STATUS\<rparr>;
           fin = (\<lambda>(io, s). (io\<lparr>erase_busy := False, wsm_mode := WSM_READY\<rparr>, s))
       in map_option fin
         (case ISLOCKED io (erase_latch_addr io) of
            None \<Rightarrow> None
          | Some True \<Rightarrow> Some (io\<lparr>erase_clearlb_error := True, protection_error := True\<rparr>, s)
          | Some False \<Rightarrow>
              if DEVICE_SUSPENDED io then Some (io\<lparr>erase_clearlb_error := True\<rparr>, s)
              else if \<not> vpen io then Some (io\<lparr>erase_clearlb_error := True, program_volt_error := True\<rparr>, s)
              else map_option (Pair io) (sector_loop 0x10000 0 (erase_latch_addr io) s))
     else Some (io\<lparr>wsm_mode := WSM_READY\<rparr>, s))"

definition lock_access :: "ARMword \<Rightarrow> ARMword \<Rightarrow> flash_intel_io \<Rightarrow> flash_intel_io option" where
  "lock_access addr data io =
     (let fin = (\<lambda>io. io\<lparr>lock_busy := False, wsm_mode := WSM_READY\<rparr>);
          busy = io\<lparr>lock_busy := True, read_mode := WSM_READ_STATUS\<rparr>
      in
      if data AND 0xff = 0x01 then
        (if DEVICE_SUSPENDED io then Some (fin (busy\<lparr>program_setlb_error := True\<rparr>))
         else if \<not> vpen io then Some (fin (busy\<lparr>program_setlb_error := True, program_volt_error := True\<rparr>))
         else if unat (SECTOR_ADDR addr) < length (lock io) then Some (fin (busy\<lparr>lock := (lock io)[unat (SECTOR_ADDR addr) := True]\<rparr>))
         else None)
      else if data AND 0xff = WSM_CONFIRM then
        (if DEVICE_SUSPENDED io then Some (fin (busy\<lparr>erase_clearlb_error := True\<rparr>))
         else if \<not> vpen io then Some (fin (busy\<lparr>erase_clearlb_error := True, program_volt_error := True\<rparr>))
         else Some (fin (busy\<lparr>lock := replicate (unat (io_size io div 0x40000)) False @ drop (unat (io_size io div 0x40000)) (lock io)\<rparr>)))
      else Some (io\<lparr>wsm_mode := WSM_READY\<rparr>))"

definition flash_intel_write_word :: "ARMword \<Rightarrow> ARMword \<Rightarrow> flash_intel_io \<times> 'x mstate \<Rightarrow> (bool \<times> flash_intel_io \<times> 'x mstate) option" where
  "flash_intel_write_word addr data = (\<lambda>(io, s).
     map_option (Pair True)
       (if wsm_mode io = WSM_READY then Some (init_wsm data io, s)
        else if wsm_mode io = WSM_WRITE_BUFFER then write_buffer addr data (io, s)
        else if wsm_mode io = WSM_PROGRAM \<or> wsm_mode io = WSM_PROGRAM2 then program_word addr data (io, s)
        else if wsm_mode io = WSM_BLOCK_ERASE then block_erase addr data (io, s)
        else if wsm_mode io = WSM_LOCK_ACCESS then map_option (\<lambda>io. (io, s)) (lock_access addr data io)
        else Some (io, s)))"

section \<open>No operation stays busy\<close>

text \<open>The chip between two accesses: nothing busy or suspended, and the arrays of the right length.\<close>

definition wsm_known :: "ARMword \<Rightarrow> bool" where
  "wsm_known m \<longleftrightarrow> m \<in> {WSM_READY, WSM_WRITE_BUFFER, WSM_PROGRAM, WSM_BLOCK_ERASE, WSM_LOCK_ACCESS}"

definition read_known :: "ARMword \<Rightarrow> bool" where
  "read_known m \<longleftrightarrow> m \<in> {WSM_READ_ARRAY, WSM_READ_ID, WSM_READ_STATUS, WSM_READ_QUERY}"

lemma modes_known [simp]:
  "wsm_known WSM_READY" "wsm_known WSM_WRITE_BUFFER" "wsm_known WSM_PROGRAM" "wsm_known WSM_BLOCK_ERASE" "wsm_known WSM_LOCK_ACCESS"
  "read_known WSM_READ_ARRAY" "read_known WSM_READ_ID" "read_known WSM_READ_STATUS" "read_known WSM_READ_QUERY"
  by (simp_all add: wsm_known_def read_known_def)

definition intel_ok :: "flash_intel_io \<Rightarrow> bool" where
  "intel_ok io \<longleftrightarrow> \<not> program_busy io \<and> \<not> progbuf_busy io \<and> \<not> erase_busy io \<and> \<not> lock_busy io
     \<and> \<not> program_suspended io \<and> \<not> progbuf_suspended io \<and> \<not> erase_suspended io
     \<and> vpen io \<and> length (lock io) = 128 \<and> length (pb_buf io) = 16 \<and> io_size io = 0x2000000
     \<and> wsm_known (wsm_mode io) \<and> read_known (read_mode io)"

lemma intel_setup_ok: "intel_ok flash_intel_setup" "wsm_mode flash_intel_setup = WSM_READY"
  by (simp_all add: intel_ok_def flash_intel_setup_def flash_intel_reset_def)

lemma init_wsm_ok: "intel_ok io \<Longrightarrow> intel_ok (init_wsm data io)"
  by (simp add: intel_ok_def init_wsm_def Let_def)

lemma write_buffer_ok: "intel_ok io \<Longrightarrow> wsm_mode io = WSM_WRITE_BUFFER \<Longrightarrow> write_buffer addr data (io, s) = Some (io', s') \<Longrightarrow> intel_ok io'"
  by (auto simp: intel_ok_def write_buffer_def write_buffer_count_def write_buffer_load_def write_buffer_confirm_def wb_error_def Let_def
      split: option.splits bool.splits if_splits)

lemma program_word_ok: "intel_ok io \<Longrightarrow> program_word addr data (io, s) = Some (io', s') \<Longrightarrow> intel_ok io'"
  by (auto simp: intel_ok_def program_word_def Let_def split: option.splits bool.splits if_splits)

lemma block_erase_ok: "intel_ok io \<Longrightarrow> block_erase addr data (io, s) = Some (io', s') \<Longrightarrow> intel_ok io'"
  by (auto simp: intel_ok_def block_erase_def Let_def split: option.splits bool.splits if_splits)

lemma lock_access_ok: "intel_ok io \<Longrightarrow> lock_access addr data io = Some io' \<Longrightarrow> intel_ok io'"
  by (auto simp: intel_ok_def lock_access_def Let_def split: if_splits)

lemma intel_write_ok:
  assumes "intel_ok io" "flash_intel_write_word addr data (io, s) = Some (h, io', s')"
  shows "intel_ok io'"
  using assms(2) init_wsm_ok [OF assms(1)] write_buffer_ok [OF assms(1)] program_word_ok [OF assms(1)] block_erase_ok [OF assms(1)]
    lock_access_ok [OF assms(1)] assms(1) by (auto simp: flash_intel_write_word_def split: if_splits)

lemma intel_read_ok: "flash_intel_read_word addr (io, s) = Some (d, io', s') \<Longrightarrow> io' = io"
  by (auto simp: flash_intel_read_word_def split: if_splits)

abbreviation (input) intel_run :: "flash_op list \<Rightarrow> flash_intel_io \<times> 'x mstate \<Rightarrow> (flash_intel_io \<times> 'x mstate) option" where
  "intel_run \<equiv> flash_run (\<lambda>a _. flash_intel_read_word a) flash_intel_write_word"

lemma intel_run_ok: "intel_run ops (io, s) = Some (io', s') \<Longrightarrow> intel_ok io \<Longrightarrow> intel_ok io'"
proof (induction ops arbitrary: io s)
  case (Cons op ops)
  then show ?case using intel_write_ok intel_read_ok by (cases op) (fastforce simp: bind_eq_Some_conv)+
qed simp

section \<open>Programming\<close>

lemma and_word_cells:
  assumes "cell_ok s a"
  shows "and_word s a d = cell_write Word s a (ram_word s a AND d)"
proof -
  obtain p where "set_mbp s a = Some (s\<lparr>mach := (mach s)\<lparr>mbp := p, global_mbp := Some (ram_index (mach s) a)\<rparr>\<rparr>)"
    using set_mbp_ok [OF assms] by blast
  then show ?thesis
    by (simp add: and_word_def cell_write_def real_write_sz_def real_read_word_def rom_get_def rom_index_def ram_word_def)
qed

lemma and_word_law:
  assumes "cell_word_ok s a"
  shows "\<exists>t. and_word s a d = Some t \<and> cell_word_ok t = cell_word_ok s
     \<and> (\<forall>b. b AND 3 = 0 \<longrightarrow> ram_word t b = (if b = a then ram_word s a AND d else ram_word s b))"
  using cell_write_word_law [OF assms, of "ram_word s a AND d"] and_word_cells [of s a d] assms
  by (auto simp: cell_word_ok_def)

lemma and_3_zero: "(push_bit 2 j :: ARMword) AND 3 = 0"
  by (simp add: and_3_take_bit take_bit_push_bit)

lemma word_addr_inv: "b AND 3 = 0 \<Longrightarrow> push_bit 2 (WORD_ADDR b) = b"
  using bits_ident [of 2 b] by (simp add: WORD_ADDR_def and_3_take_bit)

lemma unat_push_2: "unat (j :: ARMword) < 2 ^ 30 \<Longrightarrow> unat (push_bit 2 j) = 4 * unat j"
  unfolding push_bit_eq_mult by (simp add: unat_word_ariths)

lemma word_addr_push: "unat j < 2 ^ 30 \<Longrightarrow> WORD_ADDR (push_bit 2 j) = j"
  unfolding WORD_ADDR_def by (rule word_unat_eq_iff [THEN iffD2]) (simp add: unat_drop_2 unat_push_2)

text \<open>The loop over the buffer clears bits in the words of its window, each with the entry of its index.\<close>

lemma progbuf_loop_words:
  assumes "unat j + n \<le> 2 ^ 30" "\<And>k. k < n \<Longrightarrow> cell_word_ok s (push_bit 2 (j + of_nat k))"
  shows "\<exists>t. progbuf_loop n j buf s = Some t \<and> (\<forall>b. b AND 3 = 0 \<longrightarrow>
     ram_word t b = (if unat (WORD_ADDR b - j) < n then ram_word s b AND buf ! unat (WORD_ADDR b AND 0xf) else ram_word s b))"
  using assms
proof (induction n arbitrary: j s)
  case (Suc n)
  have j: "unat j < 2 ^ 30" and j1: "unat (j + 1) = unat j + 1" using Suc.prems(1) by (simp_all add: unat_word_ariths)
  obtain t where t: "and_word s (push_bit 2 j) (buf ! unat (j AND 0xf)) = Some t" "cell_word_ok t = cell_word_ok s"
    "\<And>b. b AND 3 = 0 \<Longrightarrow> ram_word t b = (if b = push_bit 2 j then ram_word s (push_bit 2 j) AND buf ! unat (j AND 0xf) else ram_word s b)"
    using and_word_law [of s "push_bit 2 j" "buf ! unat (j AND 0xf)"] Suc.prems(2) [of 0] by auto
  have "cell_word_ok t (push_bit 2 (j + 1 + of_nat k))" if "k < n" for k
    using Suc.prems(2) [of "Suc k"] that t(2) by (simp add: add.assoc)
  then obtain u where u: "progbuf_loop n (j + 1) buf t = Some u"
    "\<And>b. b AND 3 = 0 \<Longrightarrow> ram_word u b = (if unat (WORD_ADDR b - (j + 1)) < n then ram_word t b AND buf ! unat (WORD_ADDR b AND 0xf) else ram_word t b)"
    using Suc.IH [of "j + 1" t] Suc.prems(1) j1 by auto
  have "ram_word u b = (if unat (WORD_ADDR b - j) < Suc n then ram_word s b AND buf ! unat (WORD_ADDR b AND 0xf) else ram_word s b)"
    if b: "b AND 3 = 0" for b
  proof (cases "b = push_bit 2 j")
    case True
    then have w: "WORD_ADDR b = j" using word_addr_push [OF j] by simp
    have "unat (- 1 :: ARMword) = 4294967295" by (simp add: unsigned_minus_1_eq_mask mask_eq_exp_minus_1)
    then have "\<not> unat (j - (j + 1)) < n" using Suc.prems(1) by simp
    then show ?thesis using u(2) [OF b] t(3) [OF b] True w by simp
  next
    case False
    let ?x = "WORD_ADDR b - j"
    have "?x \<noteq> 0" using False word_addr_inv [OF b] by auto
    then have "unat (?x - 1) = unat ?x - 1" "0 < unat ?x" by (simp_all add: unat_minus_one unat_gt_0)
    then have "unat (WORD_ADDR b - (j + 1)) < n \<longleftrightarrow> unat ?x < Suc n" by (simp add: algebra_simps) linarith
    then show ?thesis using u(2) [OF b] t(3) [OF b] False by simp
  qed
  then show ?case using t(1) u(1) by simp
qed simp

section \<open>The write buffer\<close>

lemma unat_and_15: "unat (x AND 0xf :: ARMword) = unat x mod 16"
proof -
  have "x AND 0xf = take_bit 4 x" by (simp add: take_bit_eq_mask mask_eq_exp_minus_1)
  then show ?thesis unfolding take_bit_eq_mod by (simp add: unat_mod)
qed

lemma unat_step: "unat a + 4 * 16 \<le> 2 ^ 32 \<Longrightarrow> k < 16 \<Longrightarrow> unat (a + of_nat (4 * k) :: ARMword) = unat a + 4 * k"
  by (simp add: unat_word_ariths unat_of_nat)

lemma word_addr_step:
  assumes "unat a + 4 * 16 \<le> 2 ^ 32" "k < 16"
  shows "unat (WORD_ADDR (a + of_nat (4 * k))) = unat (WORD_ADDR a) + k"
  unfolding WORD_ADDR_def unat_drop_2 unat_step [OF assms] by simp

lemma pb_index:
  assumes "unat a + 4 * 16 \<le> 2 ^ 32" "k < 16"
  shows "unat (WORD_ADDR (a + of_nat (4 * k)) AND 0xf) = (unat (WORD_ADDR a) + k) mod 16"
  unfolding unat_and_15 word_addr_step [OF assms] ..

lemma mod_16_less: "x \<le> k \<Longrightarrow> k < 16 \<Longrightarrow> (g + x) mod 16 = (g + k) mod (16 :: nat) \<Longrightarrow> x = k"
  using mod_eq_dvd_iff_nat [of "g + x" "g + k" 16] dvd_imp_le [of 16 "k - x"] by fastforce

lemma mod_16_inj: "x < 16 \<Longrightarrow> k < 16 \<Longrightarrow> (g + x) mod 16 = (g + k) mod (16 :: nat) \<Longrightarrow> x = k"
  using mod_16_less [of x k g] mod_16_less [of k x g] by linarith

text \<open>The buffer after \<open>k\<close> of the words \<open>ds\<close> have been loaded in order, from the address \<open>a\<close> on.\<close>

definition buf_holds :: "ARMword \<Rightarrow> ARMword list \<Rightarrow> nat \<Rightarrow> ARMword list \<Rightarrow> bool" where
  "buf_holds a ds k buf \<longleftrightarrow> length buf = 16
     \<and> (\<forall>x<16. buf ! ((unat (WORD_ADDR a) + x) mod 16) = (if x < k then ds ! x else 0xffffffff))"

definition loading :: "ARMword \<Rightarrow> ARMword list \<Rightarrow> nat \<Rightarrow> flash_intel_io \<Rightarrow> bool" where
  "loading a ds k io \<longleftrightarrow> intel_ok io \<and> wsm_mode io = WSM_WRITE_BUFFER \<and> pb_count io = of_nat (length ds) \<and> pb_loaded io = of_nat k
     \<and> progbuf_latch_addr io = a \<and> (0 < k \<longrightarrow> pb_start io = a) \<and> buf_holds a ds k (pb_buf io)"

lemma buf_holds_step:
  assumes "buf_holds a ds k buf" "unat a + 4 * 16 \<le> 2 ^ 32" "k < 16"
  shows "buf_holds a ds (Suc k) (buf[unat (WORD_ADDR (a + of_nat (4 * k)) AND 0xf) := ds ! k])"
  unfolding pb_index [OF assms(2,3)] buf_holds_def
proof (intro conjI allI impI)
  let ?g = "unat (WORD_ADDR a)"
  fix x :: nat
  assume x: "x < 16"
  show "buf[(?g + k) mod 16 := ds ! k] ! ((?g + x) mod 16) = (if x < Suc k then ds ! x else 0xffffffff)"
  proof (cases "x = k")
    case True
    then show ?thesis using assms(1) by (simp add: buf_holds_def)
  next
    case False
    then have "(?g + k) mod 16 \<noteq> (?g + x) mod 16" using mod_16_inj [OF x assms(3), of ?g] by metis
    then show ?thesis using assms(1) x False by (auto simp: buf_holds_def)
  qed
qed (use assms(1) in \<open>simp add: buf_holds_def\<close>)

lemma of_nat_less_16: "k < n \<Longrightarrow> n \<le> 16 \<Longrightarrow> (of_nat k :: ARMword) < of_nat n"
  by (simp add: word_less_nat_alt unat_of_nat)

lemma of_nat_pos_16: "0 < n \<Longrightarrow> n \<le> 16 \<Longrightarrow> (of_nat n :: ARMword) \<noteq> 0"
  using of_nat_less_16 [of 0 n] by auto

lemma load_step:
  assumes "loading a ds k io" "k < length ds" "length ds \<le> 16" "unat a + 4 * 16 \<le> 2 ^ 32"
    and "SECTOR_ADDR (a + of_nat (4 * k)) = SECTOR_ADDR a"
  shows "\<exists>io'. flash_intel_write_word (a + of_nat (4 * k)) (ds ! k) (io, s) = Some (True, io', s) \<and> loading a ds (Suc k) io'
     \<and> lock io' = lock io"
proof -
  define b where "b = a + of_nat (4 * k)"
  let ?io = "(if pb_loaded io = 0 then io\<lparr>pb_start := b\<rparr> else io)"
  let ?io' = "?io\<lparr>pb_buf := (pb_buf ?io)[unat (WORD_ADDR b AND 0xf) := ds ! k], pb_loaded := pb_loaded ?io + 1\<rparr>"
  note l = assms(1) [unfolded loading_def]
  have "pb_loaded io < pb_count io" using l of_nat_less_16 [OF assms(2,3)] by simp
  moreover have "pb_count io \<noteq> 0" using l of_nat_pos_16 [OF _ assms(3)] assms(2) by (cases ds) auto
  moreover have "write_buffer_load b (ds ! k) io = ?io'" using l assms(5) by (simp add: write_buffer_load_def Let_def b_def)
  ultimately have w: "flash_intel_write_word b (ds ! k) (io, s) = Some (True, ?io', s)"
    using l by (simp add: flash_intel_write_word_def write_buffer_def)
  have buf: "buf_holds a ds (Suc k) ((pb_buf io)[unat (WORD_ADDR b AND 0xf) := ds ! k])"
    using buf_holds_step [of a ds k "pb_buf io"] l assms(2-4) by (simp add: b_def)
  have "0 < k \<Longrightarrow> (of_nat k :: ARMword) \<noteq> 0" using of_nat_pos_16 [of k] assms(2,3) by simp
  then have "pb_start ?io' = a" using l by (cases "k = 0") (simp_all add: b_def)
  moreover have "intel_ok ?io'" using intel_write_ok [OF _ w] l by blast
  ultimately have "loading a ds (Suc k) ?io'" using l buf by (simp add: loading_def add.commute)
  moreover have "lock ?io' = lock io" by simp
  ultimately show ?thesis using w unfolding b_def by blast
qed

definition load_ops :: "ARMword \<Rightarrow> ARMword list \<Rightarrow> nat \<Rightarrow> flash_op list" where
  "load_ops a ds k = map (\<lambda>i. FWrite (a + of_nat (4 * i)) (ds ! i)) [0..<k]"

lemma load_run:
  assumes "loading a ds 0 io" "k \<le> length ds" "length ds \<le> 16" "unat a + 4 * 16 \<le> 2 ^ 32"
    and "\<And>i. i < length ds \<Longrightarrow> SECTOR_ADDR (a + of_nat (4 * i)) = SECTOR_ADDR a"
  shows "\<exists>io'. intel_run (load_ops a ds k) (io, s) = Some (io', s) \<and> loading a ds k io' \<and> lock io' = lock io"
  using assms(2)
proof (induction k)
  case 0
  then show ?case using assms(1) by (simp add: load_ops_def)
next
  case (Suc k)
  then obtain io1 where io1: "intel_run (load_ops a ds k) (io, s) = Some (io1, s)" "loading a ds k io1" "lock io1 = lock io" by auto
  obtain io2 where io2: "flash_intel_write_word (a + of_nat (4 * k)) (ds ! k) (io1, s) = Some (True, io2, s)" "loading a ds (Suc k) io2" "lock io2 = lock io1"
    using load_step [OF io1(2) _ assms(3,4,5)] Suc.prems by auto
  have "load_ops a ds (Suc k) = load_ops a ds k @ [FWrite (a + of_nat (4 * k)) (ds ! k)]" by (simp add: load_ops_def)
  then show ?case using io1 io2 by (simp add: flash_run_append)
qed

lemma unat_sector: "unat (SECTOR_ADDR x) = unat x div 0x40000"
  unfolding SECTOR_ADDR_def drop_bit_eq_div by (simp add: unat_div)

text \<open>The command and the count start the loading.\<close>

lemma start_run:
  assumes "intel_ok io" "wsm_mode io = WSM_READY" "ds \<noteq> []" "length ds \<le> 16" "unat a + 4 * 16 \<le> 2 ^ 32"
    and "\<And>i. i < length ds \<Longrightarrow> SECTOR_ADDR (a + of_nat (4 * i)) = SECTOR_ADDR a"
  shows "\<exists>io'. intel_run [FWrite x 0xe8, FWrite a (of_nat (length ds - 1))] (io, s) = Some (io', s) \<and> loading a ds 0 io' \<and> lock io' = lock io"
proof -
  let ?n = "length ds"
  let ?io = "io\<lparr>wsm_mode := WSM_WRITE_BUFFER, read_mode := WSM_READ_STATUS, pb_count := 0, pb_loaded := 0, pb_buf := replicate 16 0xffffffff\<rparr>"
  let ?io' = "?io\<lparr>pb_count := of_nat ?n, progbuf_latch_addr := a\<rparr>"
  have c: "(of_nat (?n - 1) AND 0xff :: ARMword) + 1 = of_nat ?n"
  proof -
    have "(of_nat (?n - 1) AND 0xff :: ARMword) = take_bit 8 (of_nat (?n - 1))" by (simp add: take_bit_eq_mask mask_eq_exp_minus_1)
    also have "\<dots> = of_nat (?n - 1)" using assms(4) by (intro word_unat_eq_iff [THEN iffD2]) (simp only: unsigned_take_bit_eq unat_of_nat, simp add: take_bit_eq_mod)
    finally show ?thesis using assms(3) by (simp add: of_nat_diff Suc_leI)
  qed
  have le: "\<not> INTEL_WRITEBUFFER_SIZE < (of_nat ?n :: ARMword)" using assms(4) by (simp add: word_less_nat_alt unat_of_nat)
  have "unat (a + of_nat ?n - 1) = unat a + (?n - 1)"
  proof -
    have e: "a + of_nat ?n - 1 = a + of_nat (?n - 1)" using assms(3) by (simp add: of_nat_diff Suc_leI)
    show ?thesis unfolding e unat_word_ariths unat_of_nat using assms(4,5) by simp
  qed
  moreover have "unat (a + of_nat (4 * (?n - 1))) = unat a + 4 * (?n - 1)" using unat_step [OF assms(5), of "?n - 1"] assms(3,4) by (cases ds) auto
  moreover have "unat (a + of_nat (4 * (?n - 1))) div 0x40000 = unat a div 0x40000"
    using assms(6) [of "?n - 1"] assms(3) unat_sector by (metis diff_less length_greater_0_conv zero_less_one)
  ultimately have "unat (a + of_nat ?n - 1) div 0x40000 = unat a div 0x40000"
    using div_le_mono [of "unat a" "unat a + (?n - 1)" "0x40000"] div_le_mono [of "unat a + (?n - 1)" "unat a + 4 * (?n - 1)" "0x40000"] by simp
  then have s: "SECTOR_ADDR (a + of_nat ?n - 1) = SECTOR_ADDR a" by (simp add: word_unat_eq_iff unat_sector)
  have r: "intel_run [FWrite x 0xe8, FWrite a (of_nat (?n - 1))] (io, s) = Some (?io', s)"
    using assms(2) c le s by (simp add: flash_intel_write_word_def init_wsm_def write_buffer_def write_buffer_count_def Let_def)
  have "intel_ok ?io'" by (rule intel_run_ok [OF r assms(1)])
  then have "loading a ds 0 ?io'" by (simp add: loading_def buf_holds_def)
  then show ?thesis using r by (intro exI [of _ ?io']) simp
qed

lemma ISLOCKED_cong: "lock io' = lock io \<Longrightarrow> ISLOCKED io' a = ISLOCKED io a"
  by (simp add: ISLOCKED_def Let_def)

lemma and_ones: "(w :: ARMword) AND 0xffffffff = w"
proof -
  have e: "(0xffffffff :: ARMword) = - 1" by simp
  show ?thesis unfolding e by simp
qed

text \<open>The confirmation programs the window of the buffer.\<close>

lemma confirm_run:
  assumes "loading a ds (length ds) io" "ds \<noteq> []" "length ds \<le> 16" "ISLOCKED io a = Some False"
    and "progbuf_loop 16 (WORD_ADDR a) (pb_buf io) s = Some t"
  shows "\<exists>io'. flash_intel_write_word y 0xd0 (io, s) = Some (True, io', t) \<and> intel_ok io' \<and> wsm_mode io' = WSM_READY \<and> read_mode io' = WSM_READ_STATUS"
proof -
  let ?io' = "io\<lparr>read_mode := WSM_READ_STATUS, wsm_mode := WSM_READY, progbuf_busy := False\<rparr>"
  note l = assms(1) [unfolded loading_def]
  have "pb_count io \<noteq> 0" using l of_nat_pos_16 [OF _ assms(3)] assms(2) by (cases ds) auto
  moreover have "ISLOCKED (io\<lparr>progbuf_busy := True, read_mode := WSM_READ_STATUS\<rparr>) a = Some False"
    using assms(4) by (subst ISLOCKED_cong) simp_all
  ultimately have w: "flash_intel_write_word y 0xd0 (io, s) = Some (True, ?io', t)"
    using l assms(2,5) by (simp add: flash_intel_write_word_def write_buffer_def write_buffer_confirm_def Let_def DEVICE_SUSPENDED_def intel_ok_def)
  then show ?thesis using intel_write_ok [OF _ w] l by (intro exI [of _ ?io']) simp
qed

text \<open>
  C33: the write buffer of the Intel chip: the command 0xe8, the count, up to 16 words loaded in order from \<open>a\<close> on within a sector
  that is not locked, and the confirmation clear in each of the words exactly the bits that are 0 in the data, and change no other word, also when
  the words cross the borders of the 16-word buffer.  The 16 words from \<open>a\<close> on have to lie in a bank, since the code
  rewrites them all.
\<close>

theorem intel_buffer_program:
  assumes "intel_ok io" "wsm_mode io = WSM_READY" "ISLOCKED io a = Some False" "a AND 3 = 0"
    and "ds \<noteq> []" "length ds \<le> 16" "unat a + 4 * 16 \<le> 2 ^ 32"
    and "\<And>i. i < length ds \<Longrightarrow> SECTOR_ADDR (a + of_nat (4 * i)) = SECTOR_ADDR a"
    and "\<And>i. i < 16 \<Longrightarrow> cell_word_ok s (a + of_nat (4 * i))"
  shows "\<exists>io' s'. intel_run ([FWrite x 0xe8, FWrite a (of_nat (length ds - 1))] @ load_ops a ds (length ds) @ [FWrite y 0xd0]) (io, s) = Some (io', s')
     \<and> intel_ok io' \<and> wsm_mode io' = WSM_READY
     \<and> (\<forall>i<length ds. ram_word s' (a + of_nat (4 * i)) = ram_word s (a + of_nat (4 * i)) AND ds ! i)
     \<and> (\<forall>b. b AND 3 = 0 \<and> (\<forall>i<length ds. b \<noteq> a + of_nat (4 * i)) \<longrightarrow> ram_word s' b = ram_word s b)"
proof -
  let ?w = "WORD_ADDR a"
  obtain io1 where io1: "intel_run [FWrite x 0xe8, FWrite a (of_nat (length ds - 1))] (io, s) = Some (io1, s)" "loading a ds 0 io1" "lock io1 = lock io"
    using start_run [OF assms(1,2,5-8)] by blast
  obtain io2 where io2: "intel_run (load_ops a ds (length ds)) (io1, s) = Some (io2, s)" "loading a ds (length ds) io2" "lock io2 = lock io"
    using load_run [OF io1(2) _ assms(6-8)] io1(3) by auto
  have wu: "unat ?w + 16 \<le> 2 ^ 30" using assms(7) unfolding WORD_ADDR_def unat_drop_2 by simp
  have step: "push_bit 2 (?w + of_nat i) = a + of_nat (4 * i)" for i
    using word_addr_inv [OF assms(4)] by (simp add: push_bit_add push_bit_of_nat push_bit_eq_mult mult.commute)
  obtain t where t: "progbuf_loop 16 ?w (pb_buf io2) s = Some t"
    "\<And>b. b AND 3 = 0 \<Longrightarrow> ram_word t b = (if unat (WORD_ADDR b - ?w) < 16 then ram_word s b AND pb_buf io2 ! unat (WORD_ADDR b AND 0xf) else ram_word s b)"
    using progbuf_loop_words [OF wu, of s "pb_buf io2"] assms(9) step by auto
  obtain io3 where io3: "flash_intel_write_word y 0xd0 (io2, s) = Some (True, io3, t)" "intel_ok io3" "wsm_mode io3 = WSM_READY"
    using confirm_run [OF io2(2) assms(5,6) _ t(1)] assms(3) ISLOCKED_cong [OF io2(3)] by auto
  have buf: "pb_buf io2 ! unat (WORD_ADDR b AND 0xf) = (if unat (WORD_ADDR b - ?w) < length ds then ds ! unat (WORD_ADDR b - ?w) else 0xffffffff)"
    if "unat (WORD_ADDR b - ?w) < 16" for b
  proof -
    have "unat (WORD_ADDR b) = unat (?w + (WORD_ADDR b - ?w))" by simp
    also have "\<dots> = unat ?w + unat (WORD_ADDR b - ?w)" using that wu by (subst unat_word_ariths) simp
    finally show ?thesis using io2(2) that unfolding unat_and_15 by (simp add: loading_def buf_holds_def)
  qed
  have words: "unat (WORD_ADDR (a + of_nat (4 * i)) - ?w) = i" "(a + of_nat (4 * i)) AND 3 = 0" if "i < 16" for i
  proof -
    have "WORD_ADDR (a + of_nat (4 * i)) = ?w + of_nat i"
      using word_addr_push [of "?w + of_nat i"] wu that unfolding step by (simp add: unat_word_ariths unat_of_nat)
    then show "unat (WORD_ADDR (a + of_nat (4 * i)) - ?w) = i" using that by (simp add: unat_of_nat)
    show "(a + of_nat (4 * i)) AND 3 = 0" using and_3_zero [of "?w + of_nat i"] unfolding step .
  qed
  have "ram_word t (a + of_nat (4 * i)) = ram_word s (a + of_nat (4 * i)) AND ds ! i" if "i < length ds" for i
    using t(2) [OF words(2), of i] words(1) [of i] buf [of "a + of_nat (4 * i)"] that assms(6) by simp
  moreover have "ram_word t b = ram_word s b" if b: "b AND 3 = 0" "\<forall>i<length ds. b \<noteq> a + of_nat (4 * i)" for b
  proof -
    have "b = push_bit 2 (?w + of_nat (unat (WORD_ADDR b - ?w)))" using word_addr_inv [OF b(1)] by simp
    then have "\<not> unat (WORD_ADDR b - ?w) < length ds" using b(2) unfolding step by metis
    then show ?thesis using t(2) [OF b(1)] buf [of b] by (simp add: and_ones split: if_splits)
  qed
  moreover have "intel_run ([FWrite x 0xe8, FWrite a (of_nat (length ds - 1))] @ load_ops a ds (length ds) @ [FWrite y 0xd0]) (io, s) = Some (io3, t)"
    using io1(1) io2(1) io3(1) unfolding flash_run_append [of _ _ "[_, _]"] by (simp add: flash_run_append)
  ultimately show ?thesis using io3(2,3) by blast
qed

text \<open>
  Word programming on every branch: after 0x40 or 0x10, a write of \<open>d\<close> to a word whose sector is not locked clears the
  bits that are 0 in \<open>d\<close> and changes no other word; when the sector is locked no word changes and the error is recorded.
\<close>

theorem intel_word_program:
  assumes "intel_ok io" "wsm_mode io = WSM_READY" "c = 0x40 \<or> c = 0x10" "ISLOCKED io a = Some l" "cell_word_ok s a"
  shows "\<exists>io' s'. intel_run [FWrite x c, FWrite a d] (io, s) = Some (io', s') \<and> intel_ok io' \<and> wsm_mode io' = WSM_READY
     \<and> protection_error io' = (protection_error io \<or> l)
     \<and> (\<forall>b. b AND 3 = 0 \<longrightarrow> ram_word s' b = (if b = a \<and> \<not> l then ram_word s a AND d else ram_word s b))"
proof -
  let ?io = "io\<lparr>wsm_mode := WSM_PROGRAM\<rparr>"
  let ?busy = "?io\<lparr>program_busy := True, program_latch_addr := a, program_latch_data := d, read_mode := WSM_READ_STATUS\<rparr>"
  let ?fin = "\<lambda>io. io\<lparr>program_busy := False, wsm_mode := WSM_READY\<rparr>"
  obtain t where t: "and_word s a d = Some t"
    "\<And>b. b AND 3 = 0 \<Longrightarrow> ram_word t b = (if b = a then ram_word s a AND d else ram_word s b)"
    using and_word_law [OF assms(5), of d] by blast
  have lk: "ISLOCKED ?busy a = Some l" using assms(4) by (subst ISLOCKED_cong) simp_all
  have i: "init_wsm c io = ?io" using assms(3) by (auto simp: init_wsm_def)
  have p: "program_word a d (?io, s) = Some (if l then (?fin (?busy\<lparr>program_setlb_error := True, protection_error := True\<rparr>), s) else (?fin ?busy, t))"
    using lk assms(1) t(1) by (cases l) (simp_all add: program_word_def ADDR_SUSPENDED_def intel_ok_def Let_def)
  have r: "intel_run [FWrite x c, FWrite a d] (io, s) =
     Some (if l then (?fin (?busy\<lparr>program_setlb_error := True, protection_error := True\<rparr>), s) else (?fin ?busy, t))"
    using assms(2) i p by (simp add: flash_intel_write_word_def)
  show ?thesis
  proof (cases l)
    case True
    then show ?thesis using r intel_run_ok [OF _ assms(1), of "[FWrite x c, FWrite a d]" s] by auto
  next
    case False
    then show ?thesis using r t(2) intel_run_ok [OF _ assms(1), of "[FWrite x c, FWrite a d]" s] by auto
  qed
qed

lemma sector_loop_words:
  assumes "unat j + n \<le> 2 ^ 30" "\<And>k. k < n \<Longrightarrow> cell_word_ok s (a + push_bit 2 (j + of_nat k))"
  shows "\<exists>t. sector_loop n j a s = Some t \<and> (\<forall>b. b AND 3 = 0 \<longrightarrow>
     ram_word t b = (if \<exists>k<n. b = a + push_bit 2 (j + of_nat k) then 0xffffffff else ram_word s b))"
  using assms
proof (induction n arbitrary: j s)
  case (Suc n)
  have j1: "unat (j + 1) = unat j + 1" using Suc.prems(1) by (simp add: unat_word_ariths)
  obtain t where t: "cell_write Word s (a + push_bit 2 j) 0xffffffff = Some t" "cell_word_ok t = cell_word_ok s"
    "\<And>b. b AND 3 = 0 \<Longrightarrow> ram_word t b = (if b = a + push_bit 2 j then 0xffffffff else ram_word s b)"
    using cell_write_word_law [of s "a + push_bit 2 j" "0xffffffff"] Suc.prems(2) [of 0] by auto
  have "cell_word_ok t (a + push_bit 2 (j + 1 + of_nat k))" if "k < n" for k
    using Suc.prems(2) [of "Suc k"] that t(2) by (simp add: add.assoc)
  then obtain u where u: "sector_loop n (j + 1) a t = Some u"
    "\<And>b. b AND 3 = 0 \<Longrightarrow> ram_word u b = (if \<exists>k<n. b = a + push_bit 2 (j + 1 + of_nat k) then 0xffffffff else ram_word t b)"
    using Suc.IH [of "j + 1" t] Suc.prems(1) j1 by auto
  have split: "(\<exists>k<Suc n. b = a + push_bit 2 (j + of_nat k)) \<longleftrightarrow> b = a + push_bit 2 j \<or> (\<exists>k<n. b = a + push_bit 2 (j + 1 + of_nat k))" for b
    by (auto simp: less_Suc_eq_0_disj add.assoc)
  show ?case using t(1,3) u unfolding split by auto
qed simp

text \<open>Erasing a block: the command 0x20 and its confirmation set the words of a sector that is not locked.\<close>

lemma intel_block_erase:
  assumes "intel_ok io" "wsm_mode io = WSM_READY" "ISLOCKED io (a AND 0xfffc0000) = Some l"
    and "\<And>k. k < 0x10000 \<Longrightarrow> cell_word_ok s ((a AND 0xfffc0000) + push_bit 2 (of_nat k))"
  shows "\<exists>io' s'. intel_run [FWrite x 0x20, FWrite a 0xd0] (io, s) = Some (io', s') \<and> intel_ok io' \<and> wsm_mode io' = WSM_READY
     \<and> protection_error io' = (protection_error io \<or> l)
     \<and> (\<forall>b. b AND 3 = 0 \<longrightarrow> ram_word s' b = (if \<not> l \<and> (\<exists>k<0x10000. b = (a AND 0xfffc0000) + push_bit 2 (of_nat k)) then 0xffffffff else ram_word s b))"
proof -
  let ?a = "a AND 0xfffc0000"
  let ?io = "io\<lparr>wsm_mode := WSM_BLOCK_ERASE\<rparr>"
  let ?busy = "?io\<lparr>erase_busy := True, erase_latch_addr := ?a, read_mode := WSM_READ_STATUS\<rparr>"
  let ?fin = "\<lambda>io. io\<lparr>erase_busy := False, wsm_mode := WSM_READY\<rparr>"
  let ?r = "if l then (?fin (?busy\<lparr>erase_clearlb_error := True, protection_error := True\<rparr>), s)
     else (?fin ?busy, the (sector_loop 0x10000 0 ?a s))"
  obtain t where t: "sector_loop 0x10000 0 ?a s = Some t"
    "\<And>b. b AND 3 = 0 \<Longrightarrow> ram_word t b = (if \<exists>k<0x10000. b = ?a + push_bit 2 (of_nat k) then 0xffffffff else ram_word s b)"
    using sector_loop_words [of 0 "0x10000" s ?a] assms(4) by auto
  have lk: "ISLOCKED ?busy ?a = Some l" using assms(3) by (subst ISLOCKED_cong) simp_all
  have e: "block_erase a 0xd0 (?io, s) = Some ?r"
    using lk assms(1) t(1) by (cases l) (simp_all add: block_erase_def DEVICE_SUSPENDED_def intel_ok_def Let_def del: sector_loop.simps)
  have i: "init_wsm 0x20 io = ?io" by (simp add: init_wsm_def)
  have r: "intel_run [FWrite x 0x20, FWrite a 0xd0] (io, s) = Some ?r"
    using assms(2) i e by (simp add: flash_intel_write_word_def)
  show ?thesis
  proof (cases l)
    case True
    then show ?thesis using r intel_run_ok [OF _ assms(1), of "[FWrite x 0x20, FWrite a 0xd0]" s] by auto
  next
    case False
    then show ?thesis using r t intel_run_ok [OF _ assms(1), of "[FWrite x 0x20, FWrite a 0xd0]" s] by auto
  qed
qed

text \<open>
  No operation stays busy: after every sequence of reads and writes of words from the setup, the status register shows both chips ready
  and nothing suspended, so that the commands to suspend and resume never have an effect.
\<close>

theorem intel_never_busy:
  assumes "intel_run ops (flash_intel_setup, s) = Some (io, s')"
  shows "intel_status io AND 0x00c400c4 = 0x00800080 \<and> init_wsm 0xb0 io = io \<and> init_wsm 0xd0 io = io"
proof -
  have ok: "intel_ok io" by (rule intel_run_ok [OF assms intel_setup_ok(1)])
  have "intel_status io AND 0x00c400c4 = 0x00800080"
    using ok unfolding intel_ok_def intel_status_def Let_def BOTHCHIP_def
    by (cases "erase_clearlb_error io"; cases "program_setlb_error io"; cases "program_volt_error io"; cases "protection_error io") simp_all
  then show ?thesis using ok by (simp add: intel_ok_def init_wsm_def)
qed

section \<open>The lock and the window of the buffer\<close>

text \<open>A memory with one bank of 32 MB, all bits set.\<close>

definition ix_ms :: "unit mstate" where
  "ix_ms = ARMul_NewState \<lparr>current_num = 1, mem_banks =
     [\<lparr>mb_addr = 0, mb_len = 0x2000000, mb_read = flash_read, mb_write = flash_write, mb_filename = [], mb_type = MEMTYPE_FLASH\<rparr>,
      \<lparr>mb_addr = 0, mb_len = 0, mb_read = null_read, mb_write = null_write, mb_filename = [], mb_type = MEMTYPE_IO\<rparr>],
     mbp = None, global_mbp = None, rom = (\<lambda>_ _. 0xffffffff), rom_size = (\<lambda>_. 0), iosys = ()\<rparr>"

lemma ix_cell: "a < 0x2000000 \<Longrightarrow> a AND 3 = 0 \<Longrightarrow> cell_word_ok ix_ms a"
proof -
  assume a: "a < 0x2000000" "a AND 3 = 0"
  let ?b = "\<lparr>mb_addr = 0, mb_len = 0x2000000, mb_read = flash_read, mb_write = flash_write, mb_filename = [], mb_type = MEMTYPE_FLASH\<rparr>"
  have lv: "live_banks (mach ix_ms) = [?b]" by (simp add: live_banks_def ix_ms_def ARMul_NewState_def)
  have "mem_wf (mach ix_ms)"
    by (rule mem_wf_bounds) (simp_all add: lv, simp_all add: ix_ms_def ARMul_NewState_def)
  moreover have "cell_bank (mach ix_ms) a 0" using a unfolding cell_bank_def lv by (simp add: ix_ms_def ARMul_NewState_def bank_hit_def)
  moreover have "bigendSig ix_ms \<le> 1" by (simp add: ix_ms_def ARMul_NewState_def)
  ultimately show ?thesis using a by (auto simp: cell_ok_def cell_word_ok_def)
qed

lemma ix_word: "a < 0x2000000 \<Longrightarrow> ram_word ix_ms a = 0xffffffff"
  by (simp add: ram_word_def rom_get_def ix_ms_def ARMul_NewState_def)

theorem intel_buffer_program_witness:
  "\<exists>io s. intel_run [FWrite 0 0xe8, FWrite 0x38 2, FWrite 0x38 0x1234, FWrite 0x3c 0x5678, FWrite 0x40 0x9abc, FWrite 0 0xd0]
        (flash_intel_setup, ix_ms) = Some (io, s)
     \<and> intel_ok io \<and> wsm_mode io = WSM_READY \<and> ram_word s 0x38 = 0x1234 \<and> ram_word s 0x3c = 0x5678 \<and> ram_word s 0x40 = 0x9abc \<and> ram_word s 0x44 = 0xffffffff"
proof -
  let ?ds = "[0x1234, 0x5678, 0x9abc] :: ARMword list"
  have l: "ISLOCKED flash_intel_setup 0x38 = Some False"
    by (simp add: ISLOCKED_def SECTOR_ADDR_def Let_def flash_intel_setup_def flash_intel_reset_def)
  have u: "unat (0x38 + of_nat (4 * i) :: ARMword) = 0x38 + 4 * i" if "i < 16" for i
    using unat_step [of "0x38" i] that by simp
  have c: "cell_word_ok ix_ms (0x38 + of_nat (4 * i))" if "i < 16" for i
  proof (rule ix_cell)
    show "0x38 + of_nat (4 * i) < (0x2000000 :: ARMword)" unfolding word_less_nat_alt u [OF that] using that by simp
    have "unat (0x38 + of_nat (4 * i) AND 3 :: ARMword) = 0" unfolding unat_and_3_mod u [OF that] by presburger
    then show "0x38 + of_nat (4 * i) AND 3 = (0 :: ARMword)" by (simp only: unat_eq_0)
  qed
  have sec: "SECTOR_ADDR (0x38 + of_nat (4 * i)) = SECTOR_ADDR 0x38" if "i < length ?ds" for i
  proof -
    have "i < 16" using that by simp
    then show ?thesis unfolding word_unat_eq_iff unat_sector by (subst u) simp_all
  qed
  obtain io s where r: "intel_run ([FWrite 0 0xe8, FWrite 0x38 (of_nat (length ?ds - 1))] @ load_ops 0x38 ?ds (length ?ds) @ [FWrite 0 0xd0])
      (flash_intel_setup, ix_ms) = Some (io, s)" "intel_ok io" "wsm_mode io = WSM_READY"
    "\<forall>i<length ?ds. ram_word s (0x38 + of_nat (4 * i)) = ram_word ix_ms (0x38 + of_nat (4 * i)) AND ?ds ! i"
    "\<forall>b. b AND 3 = 0 \<and> (\<forall>i<length ?ds. b \<noteq> 0x38 + of_nat (4 * i)) \<longrightarrow> ram_word s b = ram_word ix_ms b"
    using intel_buffer_program [OF intel_setup_ok l, of ?ds ix_ms 0 0] sec c by auto
  have "ram_word s 0x38 = 0x1234" "ram_word s 0x3c = 0x5678" "ram_word s 0x40 = 0x9abc"
    using r(4) [rule_format, of 0] r(4) [rule_format, of 1] r(4) [rule_format, of 2] by (simp_all add: ix_word)
  moreover have "ram_word s 0x44 = 0xffffffff"
    using r(5) [rule_format, of "0x44"] by (simp add: ix_word less_Suc_eq numeral_3_eq_3 all_conj_distrib)
  ultimately show ?thesis using r(1-3) by (auto simp: load_ops_def upt_rec)
qed

text \<open>
  A locked sector can be programmed: the lock is checked for the address of the count, and the words are written in the window of 16
  words from the first word loaded.  With sector 1 locked, a first word at the end of sector 0 and a second one 15 words before it, the second word
  lands in sector 1, at 0x40000, and the cell it was meant for keeps its value; no error is reported.
\<close>

theorem intel_lock_bypassed:
  "\<exists>io s. intel_run [FWrite 0x40000 0x60, FWrite 0x40000 0x01, FWrite 0 0xe8, FWrite 0x3ffc0 1, FWrite 0x3fffc 0x1234, FWrite 0x3ffc0 0x5678, FWrite 0 0xd0]
        (flash_intel_setup, ix_ms) = Some (io, s)
     \<and> ISLOCKED io 0x40000 = Some True \<and> intel_status io = 0x00800080
     \<and> ram_word ix_ms 0x40000 = 0xffffffff \<and> ram_word s 0x40000 = 0x5678 \<and> ram_word s 0x3ffc0 = 0xffffffff"
proof -
  let ?ops = "[FWrite 0x40000 0x60, FWrite 0x40000 0x01, FWrite 0 0xe8, FWrite 0x3ffc0 1, FWrite 0x3fffc 0x1234, FWrite 0x3ffc0 0x5678 :: flash_op]"
  let ?buf = "(replicate 16 0xffffffff)[15 := 0x1234, 0 := 0x5678]"
  define io where "io = flash_intel_setup\<lparr>lock := (replicate 128 False)[1 := True], read_mode := WSM_READ_STATUS, wsm_mode := WSM_WRITE_BUFFER,
     pb_count := 2, progbuf_latch_addr := 0x3ffc0, pb_loaded := 2, pb_start := 0x3fffc, pb_buf := ?buf\<rparr>"
  have st0: "wsm_mode flash_intel_setup = 0" "lock flash_intel_setup = replicate 128 False" "vpen flash_intel_setup" "\<not> DEVICE_SUSPENDED flash_intel_setup"
    "flash_intel_setup\<lparr>lock_busy := False\<rparr> = flash_intel_setup"
    by (simp_all add: flash_intel_setup_def flash_intel_reset_def DEVICE_SUSPENDED_def)
  have run: "intel_run ?ops (flash_intel_setup, ix_ms) = Some (io, ix_ms)"
    using st0 by (simp add: flash_intel_write_word_def init_wsm_def lock_access_def write_buffer_def write_buffer_count_def write_buffer_load_def
        SECTOR_ADDR_def WORD_ADDR_def Let_def) (simp add: io_def flash_intel_setup_def flash_intel_reset_def DEVICE_SUSPENDED_def)
  have ok: "intel_ok io" by (rule intel_run_ok [OF run intel_setup_ok(1)])
  have w: "WORD_ADDR 0x3fffc = 0xffff" by (simp add: WORD_ADDR_def)
  have cells: "cell_word_ok ix_ms (push_bit 2 (0xffff + of_nat k))" if "k < 16" for k
  proof (rule ix_cell)
    have "unat (0xffff + of_nat k :: ARMword) = 0xffff + k" using that by (simp add: unat_word_ariths unat_of_nat)
    then show "push_bit 2 (0xffff + of_nat k) < (0x2000000 :: ARMword)" using unat_push_2 [of "0xffff + of_nat k"] that by (simp add: word_less_nat_alt)
    show "push_bit 2 (0xffff + of_nat k) AND 3 = (0 :: ARMword)" by (rule and_3_zero)
  qed
  obtain t where t: "progbuf_loop 16 0xffff ?buf ix_ms = Some t"
    "\<And>b. b AND 3 = 0 \<Longrightarrow> ram_word t b = (if unat (WORD_ADDR b - 0xffff) < 16 then ram_word ix_ms b AND ?buf ! unat (WORD_ADDR b AND 0xf) else ram_word ix_ms b)"
    using progbuf_loop_words [of "0xffff" 16 ix_ms ?buf] cells by auto
  let ?io' = "io\<lparr>wsm_mode := WSM_READY\<rparr>"
  have f: "pb_count io = 2" "pb_loaded io = 2" "pb_start io = 0x3fffc" "progbuf_latch_addr io = 0x3ffc0" "pb_buf io = ?buf" "wsm_mode io = WSM_WRITE_BUFFER"
    "lock io = (replicate 128 False)[1 := True]" "io\<lparr>progbuf_busy := False, read_mode := 0x70\<rparr> = io"
    by (simp_all add: io_def flash_intel_setup_def flash_intel_reset_def)
  have l: "ISLOCKED (io\<lparr>progbuf_busy := True, read_mode := 0x70\<rparr>) 0x3ffc0 = Some False"
    by (simp add: ISLOCKED_def SECTOR_ADDR_def f Let_def)
  have "flash_intel_write_word 0 0xd0 (io, ix_ms) = Some (True, ?io', t)"
    using ok l t(1) by (simp add: flash_intel_write_word_def write_buffer_def write_buffer_confirm_def f w Let_def DEVICE_SUSPENDED_def intel_ok_def del: progbuf_loop.simps)
      (simp add: io_def flash_intel_setup_def flash_intel_reset_def)
  then have "intel_run (?ops @ [FWrite 0 0xd0]) (flash_intel_setup, ix_ms) = Some (?io', t)"
    unfolding flash_run_append run by simp
  moreover have "ISLOCKED ?io' 0x40000 = Some True" by (simp add: ISLOCKED_def SECTOR_ADDR_def f Let_def)
  moreover have "intel_status ?io' = 0x00800080"
    by (simp add: intel_status_def BOTHCHIP_def Let_def io_def flash_intel_setup_def flash_intel_reset_def)
  moreover have "ram_word t 0x40000 = 0x5678" "ram_word t 0x3ffc0 = 0xffffffff" "ram_word ix_ms 0x40000 = 0xffffffff"
    using t(2) [of "0x40000"] t(2) [of "0x3ffc0"] by (simp_all add: WORD_ADDR_def ix_word)
  ultimately show ?thesis by auto
qed

end
