(* ===== verification/Flash_Board.thy ===== *)
theory Flash_Board
  imports Lpc_Board Dev_Flash Dev_FlashIntel
begin

text \<open>
  The dispatch of flash accesses to the devices of the configuration (\<^verbatim>\<open>device/flash/armflash.c\<close>), and the chips behind the LPC2300
  board.  A chip changes the words of the banks and its own registers only (locale \<open>flash_chip\<close>, interpreted on the three drivers), so that
  it is one of the flash devices for which the runs of the board are type safe.
\<close>

section \<open>Dispatch\<close>

text \<open>
  The functions of a device; a null pointer is \<open>None\<close>.  A read gets the contents of the variable \<open>data\<close> and gives whether the device was hit, and the
  new contents.
\<close>

record 's flash_desc =
  fl_base :: ARMword
  fl_size :: ARMword
  fl_read :: "access_size \<Rightarrow> (ARMword \<Rightarrow> ARMword \<Rightarrow> 's \<Rightarrow> (bool \<times> ARMword \<times> 's) option) option"
  fl_write :: "access_size \<Rightarrow> (ARMword \<Rightarrow> ARMword \<Rightarrow> 's \<Rightarrow> (bool \<times> 's) option) option"

definition fl_in_range :: "'s flash_desc \<Rightarrow> ARMword \<Rightarrow> bool" where
  "fl_in_range d addr \<longleftrightarrow> fl_size d = 0 \<or> addr \<ge> fl_base d \<and> addr < fl_base d + fl_size d"

text \<open>
  The loops over the devices, the same for the three sizes.  A read that no device takes reaches the end of a function without a
  \<open>return\<close>, so that its value is undefined; such a write does nothing.  A null device is dereferenced.
\<close>

fun flash_read_sz :: "access_size \<Rightarrow> ARMword \<Rightarrow> ARMword \<Rightarrow> 's flash_desc option list \<Rightarrow> 's \<Rightarrow> (ARMword \<times> 's) option" where
  "flash_read_sz z addr data [] s = None"
| "flash_read_sz z addr data (None # ds) s = None"
| "flash_read_sz z addr data (Some d # ds) s =
     (case fl_read d z of
        None \<Rightarrow> flash_read_sz z addr data ds s
      | Some f \<Rightarrow>
          if fl_in_range d addr
          then (case f addr data s of
                  None \<Rightarrow> None
                | Some (True, v, s) \<Rightarrow> Some (v AND size_mask z, s)
                | Some (False, v, s) \<Rightarrow> flash_read_sz z addr v ds s)
          else flash_read_sz z addr data ds s)"

fun flash_write_sz :: "access_size \<Rightarrow> ARMword \<Rightarrow> ARMword \<Rightarrow> 's flash_desc option list \<Rightarrow> 's \<Rightarrow> 's option" where
  "flash_write_sz z addr data [] s = Some s"
| "flash_write_sz z addr data (None # ds) s = None"
| "flash_write_sz z addr data (Some d # ds) s =
     (case fl_write d z of
        None \<Rightarrow> flash_write_sz z addr data ds s
      | Some f \<Rightarrow>
          if fl_in_range d addr
          then (case f addr (data AND size_mask z) s of
                  None \<Rightarrow> None
                | Some (True, s) \<Rightarrow> Some s
                | Some (False, s) \<Rightarrow> flash_write_sz z addr data ds s)
          else flash_write_sz z addr data ds s)"

text \<open>The tables the setup functions of the chips fill in.\<close>

definition am29_desc :: "ARMword \<Rightarrow> ARMword \<Rightarrow> (flash_am29_io \<times> 'x mstate) flash_desc" where
  "am29_desc base len =
     \<lparr>fl_base = base, fl_size = len,
      fl_read = (\<lambda>z. Some (\<lambda>a v st. map_option (Pair True)
        ((case z of Byte \<Rightarrow> flash_am29_read_byte | Halfword \<Rightarrow> flash_am29_read_halfword | Word \<Rightarrow> flash_am29_read_word) base a v st))),
      fl_write = (\<lambda>z. Some
        ((case z of Byte \<Rightarrow> flash_am29_write_byte | Halfword \<Rightarrow> flash_am29_write_halfword | Word \<Rightarrow> flash_am29_write_word) base))\<rparr>"

definition sst39_desc :: "bool \<Rightarrow> ARMword \<Rightarrow> ARMword \<Rightarrow> (flash_sst39lvf160_io \<times> 'x mstate) flash_desc" where
  "sst39_desc lf base len =
     \<lparr>fl_base = base, fl_size = len,
      fl_read = (\<lambda>z. Some (\<lambda>a v st. map_option (Pair True)
        ((case z of Byte \<Rightarrow> flash_sst39lvf160_read_byte | Halfword \<Rightarrow> flash_sst39lvf160_read_halfword lf | Word \<Rightarrow> flash_sst39lvf160_read_word) base a v st))),
      fl_write = (\<lambda>z. Some
        ((case z of Byte \<Rightarrow> flash_sst39lvf160_write_byte | Halfword \<Rightarrow> flash_sst39lvf160_write_halfword | Word \<Rightarrow> flash_sst39lvf160_write_word) base))\<rparr>"

definition intel_desc :: "ARMword \<Rightarrow> ARMword \<Rightarrow> (flash_intel_io \<times> 'x mstate) flash_desc" where
  "intel_desc base len =
     \<lparr>fl_base = base, fl_size = len,
      fl_read = (\<lambda>z. Some (\<lambda>a v st. map_option (Pair True)
        ((case z of Byte \<Rightarrow> flash_intel_read_byte | Halfword \<Rightarrow> flash_intel_read_halfword | Word \<Rightarrow> flash_intel_read_word) a st))),
      fl_write = (\<lambda>z. Some
        (case z of Byte \<Rightarrow> flash_intel_write_byte | Halfword \<Rightarrow> flash_intel_write_halfword | Word \<Rightarrow> flash_intel_write_word))\<rparr>"

section \<open>What a chip leaves alone\<close>

locale flash_chip =
  fixes d :: "('io \<times> 'x mstate) flash_desc"
  assumes rd_frame: "fl_read d z = Some f \<Longrightarrow> f a v (io, s) = Some (h, w, io', s') \<Longrightarrow> cells_only s s'"
    and wr_frame: "fl_write d z = Some g \<Longrightarrow> g a v (io, s) = Some (h, io', s') \<Longrightarrow> cells_only s s'"

lemma flash_read_frame:
  assumes "\<forall>d. Some d \<in> set ds \<longrightarrow> flash_chip d" "flash_read_sz z a v ds (io, s) = Some (w, io', s')"
  shows "cells_only s s'"
  using assms
proof (induction ds arbitrary: v io s)
  case (Cons x ds)
  show ?case
  proof (cases x)
    case (Some d)
    have c: "flash_chip d" using Cons.prems(1) Some by simp
    have ih: "flash_read_sz z a v' ds (j, t) = Some (w, io', s') \<Longrightarrow> cells_only t s'" for v' j t
      using Cons.IH [of v' j t] Cons.prems(1) by simp
    show ?thesis
    proof (cases "\<exists>f. fl_read d z = Some f \<and> fl_in_range d a")
      case True
      then obtain f where f: "fl_read d z = Some f" "fl_in_range d a" by blast
      then obtain h v' io1 s1 where r: "f a v (io, s) = Some (h, v', io1, s1)" using Cons.prems(2) Some by (cases "f a v (io, s)") auto
      have fr: "cells_only s s1" by (rule flash_chip.rd_frame [OF c f(1) r])
      show ?thesis
      proof (cases h)
        case True
        then show ?thesis using Cons.prems(2) Some f r fr by auto
      next
        case False
        then have "flash_read_sz z a v' ds (io1, s1) = Some (w, io', s')" using Cons.prems(2) Some f r by simp
        then show ?thesis using ih fr cells_only_trans by blast
      qed
    next
      case False
      then have "flash_read_sz z a v ds (io, s) = Some (w, io', s')" using Cons.prems(2) Some by (auto split: option.splits if_splits)
      then show ?thesis by (rule ih)
    qed
  qed (use Cons.prems in simp)
qed simp

lemma flash_write_frame:
  assumes "\<forall>d. Some d \<in> set ds \<longrightarrow> flash_chip d" "flash_write_sz z a v ds (io, s) = Some (io', s')"
  shows "cells_only s s'"
  using assms
proof (induction ds arbitrary: io s)
  case (Cons x ds)
  show ?case
  proof (cases x)
    case (Some d)
    have c: "flash_chip d" using Cons.prems(1) Some by simp
    have ih: "flash_write_sz z a v ds (j, t) = Some (io', s') \<Longrightarrow> cells_only t s'" for j t
      using Cons.IH [of j t] Cons.prems(1) by simp
    show ?thesis
    proof (cases "\<exists>f. fl_write d z = Some f \<and> fl_in_range d a")
      case True
      then obtain f where f: "fl_write d z = Some f" "fl_in_range d a" by blast
      then obtain h io1 s1 where r: "f a (v AND size_mask z) (io, s) = Some (h, io1, s1)"
        using Cons.prems(2) Some by (cases "f a (v AND size_mask z) (io, s)") auto
      have fr: "cells_only s s1" by (rule flash_chip.wr_frame [OF c f(1) r])
      show ?thesis
      proof (cases h)
        case True
        then show ?thesis using Cons.prems(2) Some f r fr by auto
      next
        case False
        then have "flash_write_sz z a v ds (io1, s1) = Some (io', s')" using Cons.prems(2) Some f r by simp
        then show ?thesis using ih fr cells_only_trans by blast
      qed
    next
      case False
      then have "flash_write_sz z a v ds (io, s) = Some (io', s')" using Cons.prems(2) Some by (auto split: option.splits if_splits)
      then show ?thesis by (rule ih)
    qed
  qed (use Cons.prems in simp)
qed simp

lemma erase_frames:
  "am29_erase base a v io s = Some t \<Longrightarrow> cells_only s t" "sst_erase base a v s = Some t \<Longrightarrow> cells_only s t"
  by (auto simp: am29_erase_def sst_erase_def split: prod.splits if_splits dest: erase_loop_frame)

lemma am29_read_frames:
  "flash_am29_read_byte base a v (io, s) = Some (w, io', s') \<Longrightarrow> cells_only s s'"
  "flash_am29_read_halfword base a v (io, s) = Some (w, io', s') \<Longrightarrow> cells_only s s'"
  "flash_am29_read_word base a v (io, s) = Some (w, io', s') \<Longrightarrow> cells_only s s'"
  by (auto simp: flash_am29_read_byte_def flash_am29_read_halfword_def flash_am29_read_word_def Let_def split: if_splits dest: cell_read_frame)

lemma am29_write_frames:
  "flash_am29_write_byte base a v (io, s) = Some (h, io', s') \<Longrightarrow> cells_only s s'"
  "flash_am29_write_halfword base a v (io, s) = Some (h, io', s') \<Longrightarrow> cells_only s s'"
  by (auto simp: flash_am29_write_byte_def flash_am29_write_halfword_def Let_def split: if_splits dest: cell_write_frame erase_frames)

interpretation am29_dev: flash_chip "am29_desc base len" for base len
proof
  fix z f a v io s h w io' and s' :: "'a mstate"
  assume "fl_read (am29_desc base len) z = Some f" "f a v (io, s) = Some (h, w, io', s')"
  then show "cells_only s s'" by (cases z) (auto simp: am29_desc_def dest: am29_read_frames)
next
  fix z g a v io s h io' and s' :: "'a mstate"
  assume "fl_write (am29_desc base len) z = Some g" "g a v (io, s) = Some (h, io', s')"
  then show "cells_only s s'" by (cases z) (auto simp: am29_desc_def flash_am29_write_word_def dest: am29_write_frames)
qed

lemma sst_frames:
  "flash_sst39lvf160_read_byte base a v (io, s) = Some (w, io', s') \<Longrightarrow> cells_only s s'"
  "flash_sst39lvf160_read_halfword lf base a v (io, s) = Some (w, io', s') \<Longrightarrow> cells_only s s'"
  "flash_sst39lvf160_read_word base a v (io, s) = Some (w, io', s') \<Longrightarrow> cells_only s s'"
  "flash_sst39lvf160_write_halfword base a v (io, s) = Some (h, io', s') \<Longrightarrow> cells_only s s'"
  by (auto simp: flash_sst39lvf160_read_byte_def flash_sst39lvf160_read_halfword_def flash_sst39lvf160_read_word_def
      flash_sst39lvf160_write_halfword_def Let_def split: if_splits dest: cell_read_frame cell_write_frame erase_frames)

interpretation sst39_dev: flash_chip "sst39_desc lf base len" for lf base len
proof
  fix z f a v io s h w io' and s' :: "'a mstate"
  assume "fl_read (sst39_desc lf base len) z = Some f" "f a v (io, s) = Some (h, w, io', s')"
  then show "cells_only s s'" by (cases z) (auto simp: sst39_desc_def dest: sst_frames)
next
  fix z g a v io s h io' and s' :: "'a mstate"
  assume "fl_write (sst39_desc lf base len) z = Some g" "g a v (io, s) = Some (h, io', s')"
  then show "cells_only s s'"
    by (cases z) (auto simp: sst39_desc_def flash_sst39lvf160_write_byte_def flash_sst39lvf160_write_word_def dest: sst_frames)
qed

lemma intel_loops_frame:
  "and_word s a v = Some t \<Longrightarrow> cells_only s t"
  "progbuf_loop n j buf s = Some t \<Longrightarrow> cells_only s t"
  "sector_loop n j a s = Some t \<Longrightarrow> cells_only s t"
proof -
  show w: "cells_only s t" if aw: "and_word s a v = Some t" for s t :: "'x mstate" and a v
  proof -
    obtain u d where u: "set_mbp s a = Some u" "real_write_word u a (d AND v) = Some t"
      using aw unfolding and_word_def bind_eq_Some_conv by blast
    show ?thesis using set_mbp_frame [OF u(1)] real_write_frame [of Word u a "d AND v" t] u(2) cells_only_trans by (auto simp: real_write_sz_def)
  qed
  show "progbuf_loop n j buf s = Some t \<Longrightarrow> cells_only s t"
    by (induction n arbitrary: j s) (auto simp: bind_eq_Some_conv dest!: w intro: cells_only_trans)
  show "sector_loop n j a s = Some t \<Longrightarrow> cells_only s t"
    by (induction n arbitrary: j s) (auto simp: bind_eq_Some_conv dest!: cell_write_frame intro: cells_only_trans)
qed

lemma intel_write_frame: "flash_intel_write_word a v (io, s) = Some (h, io', s') \<Longrightarrow> cells_only s s'"
  by (auto simp: flash_intel_write_word_def write_buffer_def write_buffer_confirm_def program_word_def block_erase_def Let_def
      split: if_splits option.splits bool.splits dest: intel_loops_frame)

lemma intel_read_frame: "flash_intel_read_word a (io, s) = Some (v, io', s') \<Longrightarrow> cells_only s s'"
  by (auto simp: flash_intel_read_word_def split: if_splits dest: cell_read_frame)

interpretation intel_dev: flash_chip "intel_desc base len" for base len
proof
  fix z f a v io s h w io' and s' :: "'a mstate"
  assume "fl_read (intel_desc base len) z = Some f" "f a v (io, s) = Some (h, w, io', s')"
  then show "cells_only s s'"
    by (cases z) (auto simp: intel_desc_def flash_intel_read_byte_def flash_intel_read_halfword_def dest: intel_read_frame)
next
  fix z g a v io s h io' and s' :: "'a mstate"
  assume "fl_write (intel_desc base len) z = Some g" "g a v (io, s) = Some (h, io', s')"
  then show "cells_only s s'"
    by (cases z) (auto simp: intel_desc_def flash_intel_write_byte_def flash_intel_write_halfword_def dest: intel_write_frame)
qed

section \<open>The chips behind the board\<close>

text \<open>The registers of the chips live in the part \<open>iosys\<close> of the state, where \<open>get\<close> and \<open>upd\<close> find them; \<open>junk\<close> is what an uninitialised variable holds.\<close>

definition put_chip :: "('io \<Rightarrow> 'x \<Rightarrow> 'x) \<Rightarrow> 'io \<Rightarrow> 'x mstate \<Rightarrow> 'x mstate" where
  "put_chip upd io s = s\<lparr>mach := (mach s)\<lparr>iosys := upd io (iosys (mach s))\<rparr>\<rparr>"

definition flash_ops :: "('x \<Rightarrow> 'io) \<Rightarrow> ('io \<Rightarrow> 'x \<Rightarrow> 'x) \<Rightarrow> ARMword \<Rightarrow> ('io \<times> 'x mstate) flash_desc option list \<Rightarrow> 'x bus_ops" where
  "flash_ops get upd junk ds =
     no_flash\<lparr>bus_flash_read := (\<lambda>z s a. map_option (\<lambda>(v, io, s). (v, put_chip upd io s)) (flash_read_sz z a junk ds (get (iosys (mach s)), s))),
       bus_flash_write := (\<lambda>z s a v. map_option (\<lambda>(io, s). put_chip upd io s) (flash_write_sz z a v ds (get (iosys (mach s)), s)))\<rparr>"

lemma cells_only_view: "cells_only s t \<Longrightarrow> psr_view t = psr_view s"
  unfolding cells_only_def outside_def by (cases s; cases t) (simp add: psr_view_def)

lemma flash_ops_quiet:
  assumes "\<forall>d. Some d \<in> set ds \<longrightarrow> flash_chip d"
  shows "quiet_flash (flash_ops get upd junk ds)"
proof -
  have p: "psr_view (put_chip upd io s) = psr_view s" for io s by (simp add: put_chip_def psr_view_def)
  have r: "psr_view s' = psr_view s" if "flash_read_sz z a junk ds (io, s) = Some (w, io', s')" for z a io s w io' s'
    using flash_read_frame [OF assms that] by (rule cells_only_view)
  have w: "psr_view s' = psr_view s" if "flash_write_sz z a v ds (io, s) = Some (io', s')" for z a v io s io' s'
    using flash_write_frame [OF assms that] by (rule cells_only_view)
  show ?thesis unfolding quiet_flash_def flash_ops_def by (auto simp: p dest: r w)
qed

interpretation flash_board: psr_hw_bus "board_bus (flash_ops get upd junk [Some (am29_desc base len)]) (lpc2300_config H [])" for get upd junk base len H
  by (rule board_bus_quiet) (simp add: quiet_devices_def, rule flash_ops_quiet, simp add: am29_dev.flash_chip_axioms)

end
