(* ===== verification/Spec2Isabelle.thy ===== *)
theory Spec2Isabelle
  imports Arm_Cores Flash_Board
begin

text \<open>
  A verification development for SkyEye (\<^verbatim>\<open>src/\<close>), a simulator of embedded boards, first of all in
  the configuration for the NXP LPC2300: an ARM7TDMI core with its memory, its interrupt
  controller, serial ports and timers; then for the SA-1100, the S3C2410X, the PXA250 and the PXA270.

  \<^bold>\<open>The program.\<close>  \<^verbatim>\<open>arm_step_once\<close> (\<^verbatim>\<open>arch/arm/common/arm_arch_interface.c\<close>) calls \<^verbatim>\<open>ARMul_DoProg\<close>
  (\<^verbatim>\<open>arminit.c\<close>), which runs the loop \<^verbatim>\<open>ARMul_Emulate32\<close> (\<^verbatim>\<open>armemu.c\<close>) again and again.  A round of
  the loop fills the pipeline through \<^verbatim>\<open>armvirt.c\<close>, polls the interrupt lines, lets the machine
  pass one cycle (\<^verbatim>\<open>io_do_cycle\<close>, for this board \<^verbatim>\<open>lpc2300_io_do_cycle\<close>), translates a Thumb
  instruction to an ARM one (\<^verbatim>\<open>thumbemu.c\<close>), checks the condition and executes the instruction in
  a switch over bits 20 to 27.  Data accesses go from \<^verbatim>\<open>armemu.c\<close> through \<^verbatim>\<open>armvirt.c\<close> to the memory
  management unit (\<^verbatim>\<open>mmu/arm7100_mmu.c\<close> with \<^verbatim>\<open>mmu/tlb.c\<close> and \<^verbatim>\<open>mmu/cache.c\<close>), from there to the
  memory banks (\<^verbatim>\<open>armmem.c\<close>), and for the I/O bank to the registers of the machine
  (\<^verbatim>\<open>mach/skyeye_mach_lpc2300.c\<close>).  The machine drives the interrupt lines \<^verbatim>\<open>NirqSig\<close> and \<^verbatim>\<open>NfiqSig\<close>,
  which the loop turns into exceptions (\<^verbatim>\<open>ARMul_Abort\<close>).

  \<^bold>\<open>The theories.\<close>  The state of the core is the record \<open>'m ARMul_State\<close> with the fields of the
  struct; \<open>mach\<close> of type \<open>'m\<close> is what the machine adds.  Every function of the code is a definition
  of the same name that takes the state and returns the new one; \<open>None\<close> means that the program
  exits, crashes or does not come back.

  \<^item> \<open>Prelude\<close>: bit fields, the macros on words and the lemmas on 32-bit words all others share.
  \<^item> \<open>Arm_State\<close>: the state, the modes and banks, the macros on the status register
    (\<^verbatim>\<open>armdefs.h\<close>, \<^verbatim>\<open>armemu.h\<close>).
  \<^item> \<open>Arm_Supp\<close>: banked registers, mode switches, flags, event queue (\<^verbatim>\<open>armsupp.c\<close>).  A mode switch
    refines an abstract register file with one register per bank; CPSR writes keep the
    invariant \<open>bank_ok\<close> and \<open>flags_ok\<close>; carry and overflow are the arithmetic ones.
  \<^item> \<open>Arm_Init\<close>: tables and exception entry (\<^verbatim>\<open>arminit.c\<close>).
  \<^item> \<open>Lpc_State\<close>, \<open>Lpc_Vic\<close>, \<open>Lpc_Uart\<close>, \<open>Lpc_Timer\<close>, \<open>Lpc_Io\<close>: the machine.  The interrupt
    controller serves the highest priority; the transmitter refines a queue; a timer counts with
    its prescaler; every sequence of register accesses that writes no negative priority is
    defined and keeps the invariant.  Locales: \<open>bounded_queue\<close> (the transmit buffer) and
    \<open>lpc_operation\<close> (what every operation keeps), interpreted on the operations of the machine.
  \<^item> \<open>Arm_Mem\<close>: memory banks (\<^verbatim>\<open>armmem.c\<close>); locale \<open>byte_memory\<close>, interpreted on the RAM.
  \<^item> \<open>Arm_Tlb\<close>, \<open>Arm_Cache\<close>, \<open>Arm_Mmu\<close>: translation, cache and the unit of the ARM7.
  \<^item> \<open>Arm_Virt\<close>: the memory interface of the core (\<^verbatim>\<open>armvirt.c\<close>), with faults and fetches.
  \<^item> \<open>Arm_Thumb\<close>: the Thumb decoder.
  \<^item> \<open>Arm_Operand\<close>: shifter and writes to R15; the shifter agrees with shifts of unbounded
    integers, and the return from an exception undoes its entry.
  \<^item> \<open>Arm_Mul\<close>: long multiplications, equal to the products of integers.
  \<^item> \<open>Arm_LdSt\<close>: loads and stores; locale \<open>word_memory\<close>, interpreted on the RAM behind the unit of
    the ARM7 with translation off.
  \<^item> \<open>Arm_V6\<close>: the ARMv6 instructions of \<^verbatim>\<open>handle_v6_insn\<close>.
  \<^item> \<open>Arm_Alu\<close>: the cases 0x00 to 0x3f of the switch and the condition codes.  Result and flags of
    the additions and subtractions are the arithmetic ones, shortcuts included; after a
    comparison each condition means its relation; saturating arithmetic and CLZ are right.
  \<^item> \<open>Arm_Transfer\<close>: the cases 0x40 to 0x9f.
  \<^item> \<open>Arm_Coproc\<close>: the coprocessor handshake (\<^verbatim>\<open>armsupp.c\<close>) and the handlers of \<^verbatim>\<open>armcopro.c\<close>; locale
    \<open>busy_coprocessor\<close>, interpreted on the two handlers that make the core wait, so that every
    coprocessor operation ends.
  \<^item> \<open>Arm_Exec\<close>: the rest of the switch, the pipeline and the loop.  Branches reach their targets;
    locale \<open>instr_memory\<close> (which extends \<open>word_memory\<close>) gives that the pipeline delivers the words
    of memory in order; an interrupt comes back to the instruction that was not executed.
  \<^item> \<open>Arm_Inv\<close>: flags in range and the bank of the mode, kept by every instruction and by the loop,
    with one exception that is a fault of the code.  Locales: \<open>psr_memory\<close> and \<open>psr_env\<close> (which
    extends it) for what the loop calls, \<open>psr_bus\<close> and \<open>psr_hw_bus\<close> for the bus, from which the unit
    of the ARM7 meets \<open>psr_memory\<close> (a \<open>sublocale\<close>).
  \<^item> \<open>Arm_Io\<close>: the dispatch to devices and machine (\<^verbatim>\<open>armio.c\<close>); its character functions are one more
    interpretation of \<open>byte_memory\<close>.
  \<^item> \<open>Lpc_Irq\<close>, \<open>Lpc_Board\<close>: the board put together, as \<^verbatim>\<open>lpc2300_mach_init\<close> does: core, unit, coprocessors, banks,
    dispatch and peripherals are one environment of the loop, on which \<open>psr_env\<close> is interpreted.
    A run from the reset keeps the status bits; a timer match ends in the IRQ handler.

  \<^item> \<open>Arm_Wb\<close>, \<open>Arm_Harvard\<close>, \<open>Arm_HvMem\<close>: the units of the SA-1100, ARM920T and ARM926EJ-S
    (\<^verbatim>\<open>mmu/sa_mmu.c\<close>, \<^verbatim>\<open>mmu/arm920t_mmu.c\<close>, \<^verbatim>\<open>mmu/arm926ejs_mmu.c\<close>) with their write and read buffers (\<^verbatim>\<open>mmu/wb.c\<close>, \<^verbatim>\<open>mmu/rb.c\<close>).
    The write buffer refines a queue of byte stores and is transparent; a load sees the last store to a cached line and to
    a buffered page, the latter through the interface \<open>byte_memory\<close>.
  \<^item> \<open>Arm_XScale\<close>: the unit and the coprocessors of the XScale (\<^verbatim>\<open>mmu/xscale_copro.c\<close>); a stored word is what the next
    fetch and the next load give, unless the load has to write a dirty alias of the word back first.
  \<^item> \<open>Mach_Sa\<close>, \<open>Mach_S3c2410\<close>, \<open>Mach_Pxa\<close>: the peripherals of four more boards (\<^verbatim>\<open>mach/skyeye_mach_sa.c\<close>,
    \<^verbatim>\<open>mach/skyeye_mach_s3c2410x.c\<close>, \<^verbatim>\<open>mach/skyeye_mach_pxa250.c\<close>, \<^verbatim>\<open>mach/skyeye_mach_pxa270.c\<close>).  Timers interrupt on time, the lines of the SA-1100 are low exactly for the
    requests that are enabled, and some interrupts of the PXA250 cannot be acknowledged, which is a fault of the code.
  \<^item> \<open>Arm_Cores\<close>: these boards with the core, the unit that \<^verbatim>\<open>mmu_init\<close> (\<^verbatim>\<open>armmmu.c\<close>) selects and the dispatch; locale \<open>psr_hv_bus\<close>,
    from which the four units meet \<open>psr_memory\<close> (a \<open>sublocale\<close>), and \<open>psr_env\<close> interpreted on the four boards.
  \<^item> \<open>Dev_Cells\<close>, \<open>Dev_Flash\<close>, \<open>Dev_FlashIntel\<close>: the flash chips (\<^verbatim>\<open>device/flash/dev_flash_am29.c\<close>, \<^verbatim>\<open>dev_flash_sst39lvf160.c\<close>,
    \<^verbatim>\<open>dev_flash_intel.c\<close>) on the words of the banks, and the dump into a file (\<^verbatim>\<open>skyeye_flash.c\<close>).  The cells are one more
    interpretation of \<open>byte_memory\<close>; locale \<open>command_chip\<close> gives that cells change only after an unlock sequence; programming, erasing, dumping
    and the write buffer of the Intel chips do what they should; the lock of the latter can be bypassed, which is a fault of the code.
  \<^item> \<open>Flash_Board\<close>: the dispatch to the chips (\<^verbatim>\<open>device/flash/armflash.c\<close>) and the chips behind the LPC2300 board; locale \<open>flash_chip\<close>, interpreted on
    the three drivers, gives that the status bits of a run are safe with any of them.

  \<^bold>\<open>Parameters.\<close>  Host I/O of the serial ports (\<open>uart_host\<close>, \<open>uart_dev\<close>), \<^verbatim>\<open>malloc\<close> and \<^verbatim>\<open>fopen\<close> (\<open>os_env\<close>), the bus
  behind the I/O bank (\<open>bus_ops\<close>), and in \<open>env\<close> the function pointers the loop goes through: memory
  operations, coprocessor handlers, event handlers, \<^verbatim>\<open>io_do_cycle\<close>.  The theorems about memory
  use the operations of the ARM7, not a parameter; the theorems about the board use its own
  functions throughout and leave open only extra devices, a flash chip and the serial lines, and on the
  boards of \<open>Arm_Cores\<close> the coprocessors with other numbers.

  \<^bold>\<open>Loops.\<close>  Recursion with a proved measure, except for six loops of the code that need not end:
  the busy-wait of a coprocessor, the transfer of a coprocessor, the emulation loop, the loop that fills the
  write buffer and the loops that erase and dump a flash chip, whose addresses wrap, are partial functions into \<open>option\<close>.  That the first ends is proved for the handlers of
  \<^verbatim>\<open>armcopro.c\<close>, that the write buffer is filled for every buffer whose entries hold at least one byte, and that erasing and dumping end for every
  range that does not wrap.  No fuel is used.

  \<^bold>\<open>Build.\<close>  \<^verbatim>\<open>armemu.c\<close> is modelled as compiled for the 32-bit modes (\<^verbatim>\<open>MODE32\<close> and \<^verbatim>\<open>MODET\<close>), the other
  files with \<^verbatim>\<open>MODET\<close> only, as the makefile has it.

  \<^bold>\<open>Not modelled.\<close>  \<^verbatim>\<open>ARMul_Emulate26\<close>, the same source for the 26-bit modes, which this core never
  enters; the dynamic translator, which emits machine code; the floating-point
  coprocessor of the EP9312 (\<^verbatim>\<open>mmu/maverick.c\<close>), written with the arithmetic of the host; the other machines, which are register files of the same shape
  as the five modelled here, and
  the other architectures, which share no code with this one; semihosting, the debugger, logging, profiling, configuration and the rest of the device framework, which are host I/O.
\<close>

end
